(* ===== verification/Prelude.thy ===== *)
theory Prelude
  imports Main "HOL-Library.Word"
begin

text \<open>
  Shared vocabulary of the development: fallible results with Rust's question-mark
  operator, the saturating and checked arithmetic of Rust's unsigned integers, big-endian
  encodings, decimal text, ordered maps (\<^verbatim>\<open>BTreeMap\<close>) and the interface of keyed tables
  that the components' own tables implement.
\<close>

unbundle bit_operations_syntax

section \<open>Collections of rules\<close>

named_theorems res_simps \<open>rewriting of fallible computations\<close>
named_theorems wf_simps \<open>well-formedness predicates, unfolded\<close>
named_theorems enc_simps \<open>lengths of encodings\<close>

section \<open>Bytes and machine integers\<close>

type_synonym byte = "8 word"
type_synonym bytes = "8 word list"
type_synonym u8 = "8 word"
type_synonym u16 = "16 word"
type_synonym u32 = "32 word"
type_synonym u64 = "64 word"

definition u64_max :: u64 where
  "u64_max = 18446744073709551615"

text \<open>\<^verbatim>\<open>i64::MAX as u64\<close>.\<close>

definition i64_max :: u64 where
  "i64_max = 9223372036854775807"

definition checked_add64 :: "u64 \<Rightarrow> u64 \<Rightarrow> u64 option" where
  "checked_add64 a b = (if unat a + unat b < 2 ^ 64 then Some (a + b) else None)"

definition sat_add64 :: "u64 \<Rightarrow> u64 \<Rightarrow> u64" where
  "sat_add64 a b = (if unat a + unat b < 2 ^ 64 then a + b else u64_max)"

definition sat_sub64 :: "u64 \<Rightarrow> u64 \<Rightarrow> u64" where
  "sat_sub64 a b = (if b \<le> a then a - b else 0)"

definition sat_mul64 :: "u64 \<Rightarrow> u64 \<Rightarrow> u64" where
  "sat_mul64 a b = (if unat a * unat b < 2 ^ 64 then a * b else u64_max)"

definition sat_add32 :: "u32 \<Rightarrow> u32 \<Rightarrow> u32" where
  "sat_add32 a b = (if unat a + unat b < 2 ^ 32 then a + b else 4294967295)"

lemma unat_u64_max [simp]: "unat u64_max = 2 ^ 64 - 1"
  by (simp add: u64_max_def)

lemma unat_i64_max [simp]: "unat i64_max = 2 ^ 63 - 1"
  by (simp add: i64_max_def)

lemma unat64_bound: "unat (w :: u64) < 2 ^ 64"
  using unsigned_less [of w] by simp

lemma checked_add64_Some:
  "checked_add64 a b = Some c \<Longrightarrow> unat c = unat a + unat b"
  by (auto simp: checked_add64_def unat_word_ariths split: if_splits)

lemma unat_sat_add64: "unat (sat_add64 a b) = min (2 ^ 64 - 1) (unat a + unat b)"
  by (auto simp: sat_add64_def unat_word_ariths)

lemma unat_sat_sub64: "unat (sat_sub64 a b) = unat a - unat b"
  by (auto simp: sat_sub64_def unat_sub word_le_nat_alt)

lemma unat_sat_mul64: "unat (sat_mul64 a b) = min (2 ^ 64 - 1) (unat a * unat b)"
  by (auto simp: sat_mul64_def unat_word_ariths)

lemma unat_sat_add32: "unat (sat_add32 a b) = min (2 ^ 32 - 1) (unat a + unat b)"
  by (auto simp: sat_add32_def unat_word_ariths)

text \<open>The bytes of an ASCII literal (\<^verbatim>\<open>b"..."\<close>).\<close>

definition ascii :: "string \<Rightarrow> bytes" where
  "ascii s = map of_char s"

lemma length_ascii [simp, enc_simps]: "length (ascii s) = length s"
  by (simp add: ascii_def)

section \<open>Fallible results\<close>

type_synonym ('e, 'a) result = "'e + 'a"

abbreviation Err :: "'e \<Rightarrow> ('e, 'a) result" where
  "Err \<equiv> Inl"

abbreviation Ok :: "'a \<Rightarrow> ('e, 'a) result" where
  "Ok \<equiv> Inr"

text \<open>Rust's \<^verbatim>\<open>?\<close>: the first error is the result of the whole block.\<close>

definition bindR :: "('e, 'a) result \<Rightarrow> ('a \<Rightarrow> ('e, 'b) result) \<Rightarrow> ('e, 'b) result" where
  "bindR r k = (case r of Inl e \<Rightarrow> Inl e | Inr x \<Rightarrow> k x)"

definition guardR :: "bool \<Rightarrow> 'e \<Rightarrow> ('e, unit) result" where
  "guardR b e = (if b then Inr () else Inl e)"

definition ok_or :: "'a option \<Rightarrow> 'e \<Rightarrow> ('e, 'a) result" where
  "ok_or v e = (case v of None \<Rightarrow> Inl e | Some x \<Rightarrow> Inr x)"

definition map_err :: "('e \<Rightarrow> 'f) \<Rightarrow> ('e, 'a) result \<Rightarrow> ('f, 'a) result" where
  "map_err f r = (case r of Inl e \<Rightarrow> Inl (f e) | Inr x \<Rightarrow> Inr x)"

definition is_ok :: "('e, 'a) result \<Rightarrow> bool" where
  "is_ok r \<longleftrightarrow> (case r of Inl _ \<Rightarrow> False | Inr _ \<Rightarrow> True)"

lemma bindR_simps [simp]:
  "bindR (Inl e) k = Inl e" "bindR (Inr x) k = k x"
  by (simp_all add: bindR_def)

lemma bindR_Inr_iff [res_simps]:
  "bindR r k = Inr y \<longleftrightarrow> (\<exists>x. r = Inr x \<and> k x = Inr y)"
  by (cases r) simp_all

lemma bindR_Inl_iff:
  "bindR r k = Inl e \<longleftrightarrow> r = Inl e \<or> (\<exists>x. r = Inr x \<and> k x = Inl e)"
  by (cases r) simp_all

lemma guardR_iff [simp]:
  "guardR b e = Inr u \<longleftrightarrow> b" "guardR b e = Inl e' \<longleftrightarrow> \<not> b \<and> e' = e"
  by (auto simp: guardR_def)

lemma guardR_simps [simp]: "guardR True e = Inr ()" "guardR False e = Inl e"
  by (simp_all add: guardR_def)

lemma ok_or_iff [simp]:
  "ok_or v e = Inr x \<longleftrightarrow> v = Some x" "ok_or v e = Inl e' \<longleftrightarrow> v = None \<and> e' = e"
  by (auto simp: ok_or_def split: option.splits)

lemma ok_or_simps [simp]: "ok_or None e = Inl e" "ok_or (Some x) e = Inr x"
  by (simp_all add: ok_or_def)

lemma map_err_simps [simp]: "map_err f (Inl e) = Inl (f e)" "map_err f (Inr x) = Inr x"
  by (simp_all add: map_err_def)

lemma map_err_iff [simp]:
  "map_err f r = Inr x \<longleftrightarrow> r = Inr x"
  by (cases r) (simp_all add: map_err_def)

lemma map_err_Inl_iff [simp]: "map_err f r = Inl e \<longleftrightarrow> (\<exists>e'. r = Inl e' \<and> e = f e')"
  by (cases r) (auto simp: map_err_def)

lemma is_ok_simps [simp]: "\<not> is_ok (Inl e)" "is_ok (Inr x)"
  by (simp_all add: is_ok_def)

lemma is_ok_iff: "is_ok r \<longleftrightarrow> (\<exists>x. r = Inr x)"
  by (cases r) simp_all

text \<open>A loop over a list that stops at the first error (\<^verbatim>\<open>for x in xs { step(x)?; }\<close>).\<close>

fun for_each :: "('a \<Rightarrow> ('e, unit) result) \<Rightarrow> 'a list \<Rightarrow> ('e, unit) result" where
  "for_each f [] = Inr ()"
| "for_each f (x # xs) = bindR (f x) (\<lambda>_. for_each f xs)"

lemma for_each_Inr_iff [simp]:
  "for_each f xs = Inr u \<longleftrightarrow> (\<forall>x \<in> set xs. f x = Inr ())"
  by (induction xs) (auto simp: res_simps)

section \<open>Fallible computations over a state\<close>

text \<open>
  A method with \<^verbatim>\<open>&mut\<close> arguments that returns a \<^verbatim>\<open>Result\<close>: the state is the tuple of
  everything it may change, and it is returned on the error path too, because Rust does not
  undo what a failing method has already done.
\<close>

type_synonym ('s, 'e, 'a) comp = "'s \<Rightarrow> ('e + 'a) \<times> 's"

definition retS :: "'a \<Rightarrow> ('s, 'e, 'a) comp" where
  "retS x s = (Inr x, s)"

definition failS :: "'e \<Rightarrow> ('s, 'e, 'a) comp" where
  "failS e s = (Inl e, s)"

definition liftS :: "('e, 'a) result \<Rightarrow> ('s, 'e, 'a) comp" where
  "liftS r s = (r, s)"

definition bindS :: "('s, 'e, 'a) comp \<Rightarrow> ('a \<Rightarrow> ('s, 'e, 'b) comp) \<Rightarrow> ('s, 'e, 'b) comp" where
  "bindS m k s = (case m s of (Inl e, s') \<Rightarrow> (Inl e, s') | (Inr x, s') \<Rightarrow> k x s')"

definition getS :: "('s \<Rightarrow> 'a) \<Rightarrow> ('s, 'e, 'a) comp" where
  "getS f s = (Inr (f s), s)"

definition modS :: "('s \<Rightarrow> 's) \<Rightarrow> ('s, 'e, unit) comp" where
  "modS f s = (Inr (), f s)"

lemma comp_simps [simp]:
  "retS x s = (Inr x, s)" "failS e s = (Inl e, s)" "liftS r s = (r, s)"
  "getS f s = (Inr (f s), s)" "modS g s = (Inr (), g s)"
  by (simp_all add: retS_def failS_def liftS_def getS_def modS_def)

lemma bindS_simps [simp]:
  "bindS (retS x) k s = k x s" "bindS (failS e) k s = (Inl e, s)"
  "bindS (liftS (Inr x)) k s = k x s" "bindS (liftS (Inl e)) k s = (Inl e, s)"
  "bindS (getS f) k s = k (f s) s" "bindS (modS g) k' s = k' () (g s)"
  by (simp_all add: bindS_def)

lemma bindS_Inr_iff:
  "bindS m k s = (Inr y, t) \<longleftrightarrow> (\<exists>x u. m s = (Inr x, u) \<and> k x u = (Inr y, t))"
  by (auto simp: bindS_def split: prod.splits sum.splits)

lemma bindS_Inl_iff:
  "bindS m k s = (Inl e, t) \<longleftrightarrow>
   m s = (Inl e, t) \<or> (\<exists>x u. m s = (Inr x, u) \<and> k x u = (Inl e, t))"
  by (auto simp: bindS_def split: prod.splits sum.splits)

lemma bindS_liftS: "bindS (liftS r) k s = (case r of Inl e \<Rightarrow> (Inl e, s) | Inr x \<Rightarrow> k x s)"
  by (simp add: bindS_def split: sum.splits)

text \<open>A property of the state that every step keeps is kept by a sequence of steps.\<close>

definition keeps :: "('s \<Rightarrow> 's \<Rightarrow> bool) \<Rightarrow> ('s, 'e, 'a) comp \<Rightarrow> bool" where
  "keeps R m \<longleftrightarrow> (\<forall>s. R s (snd (m s)))"

lemma keepsD: "keeps R m \<Longrightarrow> m s = (r, t) \<Longrightarrow> R s t"
  by (metis keeps_def snd_conv)

lemma keepsI: "(\<And>s r t. m s = (r, t) \<Longrightarrow> R s t) \<Longrightarrow> keeps R m"
  by (simp add: keeps_def) (metis prod.collapse)

lemma keeps_bindS:
  assumes "keeps R m" "\<And>x. keeps R (k x)" "transp R"
  shows "keeps R (bindS m k)"
proof (rule keepsI)
  fix s r t assume run: "bindS m k s = (r, t)"
  obtain r' u where m: "m s = (r', u)" by (cases "m s")
  with assms(1) have su: "R s u" by (rule keepsD)
  show "R s t"
  proof (cases r')
    case (Inl e)
    with run m su show ?thesis by (simp add: bindS_def)
  next
    case (Inr x)
    with run m have "k x u = (r, t)" by (simp add: bindS_def)
    with assms(2) have "R u t" by (rule keepsD)
    with su assms(3) show ?thesis by (blast dest: transpD)
  qed
qed

lemma keeps_simple [intro]:
  "reflp R \<Longrightarrow> keeps R (retS x)" "reflp R \<Longrightarrow> keeps R (failS e)"
  "reflp R \<Longrightarrow> keeps R (liftS r)" "reflp R \<Longrightarrow> keeps R (getS f)"
  by (auto simp: keeps_def reflp_def)

section \<open>Big-endian words\<close>

text \<open>\<^verbatim>\<open>u64::to_be_bytes\<close> and \<^verbatim>\<open>u64::from_be_bytes\<close>.\<close>

definition be64 :: "u64 \<Rightarrow> bytes" where
  "be64 w = map (\<lambda>i. ucast (drop_bit (8 * i) w)) [7, 6, 5, 4, 3, 2, 1, 0]"

definition of_be64 :: "bytes \<Rightarrow> u64" where
  "of_be64 bs = word_of_nat (foldl (\<lambda>acc b. acc * 256 + unat b) 0 bs)"

lemma length_be64 [simp, enc_simps]: "length (be64 w) = 8"
  by (simp add: be64_def)

lemma unat_byte: "unat (ucast (drop_bit (8 * i) w) :: 8 word) = unat (w :: 64 word) div 256 ^ i mod 256"
proof -
  have "unat (ucast (drop_bit (8 * i) w) :: 8 word) = take_bit 8 (drop_bit (8 * i) (unat w))"
    by (simp only: unsigned_ucast_eq unat_drop_bit_eq) simp
  then show ?thesis
    by (simp only: take_bit_eq_mod drop_bit_eq_div) (simp add: power_mult)
qed

lemma horner_step: "(n div (a * 256)) * 256 + n div a mod 256 = (n::nat) div a"
  by (metis div_mult2_eq mult.commute div_mult_mod_eq)

lemma horner_digits:
  "foldl (\<lambda>acc i. acc * 256 + n div 256 ^ i mod 256) (n div 256 ^ k) (rev [0..<k]) = (n::nat)"
proof (induction k)
  case (Suc k)
  have "n div 256 ^ Suc k * 256 + n div 256 ^ k mod 256 = n div 256 ^ k"
    using horner_step [of n "256 ^ k"] by (simp add: mult.commute)
  with Suc show ?case by simp
qed simp

lemma of_be64_be64 [simp]: "of_be64 (be64 w) = w"
proof -
  define N where "N = unat w"
  have "N < 256 ^ 8" using unsigned_less [of w] by (simp add: N_def)
  then have top: "N div 256 ^ 8 = 0" by simp
  have idx: "[7, 6, 5, 4, 3, 2, 1, 0] = rev [0..<8]" by (simp add: upt_rec)
  have "foldl (\<lambda>acc b. acc * 256 + unat b) 0 (be64 w) = N"
    using horner_digits [of N 8]
    by (simp only: be64_def foldl_map unat_byte N_def [symmetric] top idx)
  then show ?thesis by (simp add: of_be64_def N_def)
qed

lemma horner_digit:
  "i < length bs \<Longrightarrow> foldl (\<lambda>acc b. acc * 256 + unat (b :: byte)) 0 bs div 256 ^ i mod 256 = unat (rev bs ! i)"
proof (induction bs arbitrary: i rule: rev_induct)
  case (snoc b bs)
  have "unat b < 256" using unsigned_less [of b] by simp
  with snoc show ?case by (cases i) (simp_all add: div_mult2_eq)
qed simp

lemma horner_bound: "foldl (\<lambda>acc b. acc * 256 + unat (b :: byte)) 0 bs < 256 ^ length bs"
proof (induction bs rule: rev_induct)
  case (snoc b bs)
  have "unat b < 256" using unsigned_less [of b] by simp
  with snoc show ?case by simp
qed simp

lemma be64_of_be64: "length bs = 8 \<Longrightarrow> be64 (of_be64 bs) = bs"
proof (rule nth_equalityI)
  fix j assume len: "length bs = 8" and "j < length (be64 (of_be64 bs))"
  then have j: "j < 8" by simp
  let ?n = "foldl (\<lambda>acc b. acc * 256 + unat b) 0 bs"
  have "unat (of_be64 bs) = ?n"
    using horner_bound [of bs] len by (simp add: of_be64_def unsigned_of_nat take_bit_nat_eq_self)
  then have "unat (ucast (drop_bit (8 * i) (of_be64 bs)) :: byte) = unat (rev bs ! i)" if "i < 8" for i
    using that len horner_digit [of i bs] by (simp only: unat_byte)
  then have "ucast (drop_bit (8 * i) (of_be64 bs)) = rev bs ! i" if "i < 8" for i
    using that by (simp only: word_unat_eq_iff)
  moreover have "be64 w ! j = ucast (drop_bit (8 * (7 - j)) w)" for w
  proof -
    have "[7, 6, 5, 4, 3, 2, 1, 0 :: nat] ! j = 7 - j" using j by (auto simp: less_Suc_eq numeral_eq_Suc)
    with j show ?thesis unfolding be64_def by (subst nth_map) simp_all
  qed
  ultimately show "be64 (of_be64 bs) ! j = bs ! j" using j len by (simp add: rev_nth)
qed simp

lemma be64_inject [simp]: "be64 a = be64 b \<longleftrightarrow> a = b"
  by (metis of_be64_be64)

section \<open>Decimal text\<close>

text \<open>\<^verbatim>\<open>u64::to_string\<close> and \<^verbatim>\<open>str::parse::<u64>\<close>.\<close>

definition ascii_digit :: "char \<Rightarrow> bool" where
  "ascii_digit c \<longleftrightarrow> 48 \<le> (of_char c :: nat) \<and> (of_char c :: nat) \<le> 57"

definition digit_char :: "nat \<Rightarrow> char" where
  "digit_char d = char_of (48 + d)"

definition digit_val :: "char \<Rightarrow> nat" where
  "digit_val c = of_char c - 48"

fun dec_of_nat :: "nat \<Rightarrow> string" where
  "dec_of_nat n = (if n < 10 then [digit_char n] else dec_of_nat (n div 10) @ [digit_char (n mod 10)])"

declare dec_of_nat.simps [simp del]

definition nat_of_dec :: "string \<Rightarrow> nat" where
  "nat_of_dec s = foldl (\<lambda>acc c. acc * 10 + digit_val c) 0 s"

definition parse_u64 :: "string \<Rightarrow> u64 option" where
  "parse_u64 s =
     (let ds = (case s of c # cs \<Rightarrow> if c = CHR ''+'' then cs else s | [] \<Rightarrow> []) in
      if ds = [] \<or> \<not> list_all ascii_digit ds then None
      else if nat_of_dec ds < 2 ^ 64 then Some (word_of_nat (nat_of_dec ds)) else None)"

lemma of_char_digit_char [simp]: "d < 10 \<Longrightarrow> (of_char (digit_char d) :: nat) = 48 + d"
  by (simp add: digit_char_def of_char_of)

lemma digit_val_char [simp]: "d < 10 \<Longrightarrow> digit_val (digit_char d) = d"
  by (simp add: digit_val_def)

lemma ascii_digit_char [simp]: "d < 10 \<Longrightarrow> ascii_digit (digit_char d)"
  by (simp add: ascii_digit_def)

lemma ascii_digit_val: "ascii_digit c \<Longrightarrow> digit_val c < 10 \<and> digit_char (digit_val c) = c"
  by (auto simp: ascii_digit_def digit_val_def digit_char_def)

lemma digit_char_zero: "d < 10 \<Longrightarrow> digit_char d = CHR ''0'' \<longleftrightarrow> d = 0"
proof
  assume "d < 10" "digit_char d = CHR ''0''"
  then have "48 + d = (of_char (CHR ''0'') :: nat)" by (metis of_char_digit_char)
  then show "d = 0" by simp
qed (simp add: digit_char_def char_of_def bit_simps)

lemma nat_of_dec_Nil [simp]: "nat_of_dec [] = 0"
  by (simp add: nat_of_dec_def)

lemma nat_of_dec_snoc [simp]: "nat_of_dec (s @ [c]) = nat_of_dec s * 10 + digit_val c"
  by (simp add: nat_of_dec_def)

lemma dec_of_nat_not_Nil [simp]: "dec_of_nat n \<noteq> []"
  by (subst dec_of_nat.simps) simp

lemma nat_of_dec_of_nat [simp]: "nat_of_dec (dec_of_nat n) = n"
proof (induction n rule: dec_of_nat.induct)
  case (1 n)
  then show ?case
    by (subst dec_of_nat.simps) (use nat_of_dec_snoc [of "[]"] in auto)
qed

lemma dec_of_nat_digits: "list_all ascii_digit (dec_of_nat n)"
proof (induction n rule: dec_of_nat.induct)
  case (1 n)
  then show ?case by (subst dec_of_nat.simps) auto
qed

lemma dec_of_nat_hd: "0 < n \<Longrightarrow> hd (dec_of_nat n) \<noteq> CHR ''0''"
proof (induction n rule: dec_of_nat.induct)
  case (1 n)
  show ?case
  proof (cases "n < 10")
    case True
    have "digit_char n \<noteq> CHR ''0''"
      using 1(2) True digit_char_zero [of n] by simp
    with True show ?thesis by (subst dec_of_nat.simps) simp
  next
    case False
    then have "hd (dec_of_nat (n div 10)) \<noteq> CHR ''0''" by (intro 1) auto
    with False show ?thesis by (subst dec_of_nat.simps) simp
  qed
qed

text \<open>Text without a leading zero is the only decimal text of its value.\<close>

lemma dec_of_nat_of_dec:
  "list_all ascii_digit s \<Longrightarrow> s \<noteq> [] \<Longrightarrow> hd s \<noteq> CHR ''0'' \<Longrightarrow> 0 < nat_of_dec s \<and> dec_of_nat (nat_of_dec s) = s"
proof (induction s rule: rev_induct)
  case (snoc c s)
  have c: "digit_val c < 10" "digit_char (digit_val c) = c"
    using snoc.prems ascii_digit_val by auto
  show ?case
  proof (cases "s = []")
    case True
    have "digit_val c \<noteq> 0"
      using snoc.prems(3) True c digit_char_zero [of "digit_val c"] by auto
    with True c show ?thesis
      using nat_of_dec_snoc [of "[]" c] by (subst dec_of_nat.simps) simp
  next
    case False
    with snoc have IH: "0 < nat_of_dec s" "dec_of_nat (nat_of_dec s) = s" by auto
    with c show ?thesis by (subst dec_of_nat.simps) auto
  qed
qed simp

lemma parse_u64_digits:
  "list_all ascii_digit s \<Longrightarrow> s \<noteq> [] \<Longrightarrow>
   parse_u64 s = (if nat_of_dec s < 2 ^ 64 then Some (word_of_nat (nat_of_dec s)) else None)"
  by (auto simp: parse_u64_def ascii_digit_def split: list.splits)

lemma parse_u64_dec_of_nat [simp]: "parse_u64 (dec_of_nat (unat (w :: u64))) = Some w"
  using unat64_bound [of w] by (simp add: parse_u64_digits dec_of_nat_digits)

section \<open>Keyed tables\<close>

text \<open>
  The contract every keyed store of the program offers its clients: what a lookup returns
  after an upsert and after a removal. It is stated once and interpreted on the ordered maps
  of the endpoint state and on the tables of the mailbox database.
\<close>

locale keyed_table =
  fixes get :: "'k \<Rightarrow> 't \<Rightarrow> 'v option"
    and put :: "'k \<Rightarrow> 'v \<Rightarrow> 't \<Rightarrow> 't"
    and remove :: "'k \<Rightarrow> 't \<Rightarrow> 't"
    and valid :: "'t \<Rightarrow> bool"
    and fits :: "'k \<Rightarrow> 'v \<Rightarrow> bool"
  assumes get_put: "valid t \<Longrightarrow> fits k v \<Longrightarrow> get k' (put k v t) = (if k' = k then Some v else get k' t)"
    and get_remove: "valid t \<Longrightarrow> get k' (remove k t) = (if k' = k then None else get k' t)"
    and valid_put: "valid t \<Longrightarrow> fits k v \<Longrightarrow> valid (put k v t)"
    and valid_remove: "valid t \<Longrightarrow> valid (remove k t)"
begin

definition modify :: "'k \<Rightarrow> ('v \<Rightarrow> 'v) \<Rightarrow> 't \<Rightarrow> 't" where
  "modify k f t = (case get k t of None \<Rightarrow> t | Some v \<Rightarrow> put k (f v) t)"

lemma get_put_same: "valid t \<Longrightarrow> fits k v \<Longrightarrow> get k (put k v t) = Some v"
  by (simp add: get_put)

lemma get_put_other: "valid t \<Longrightarrow> fits k v \<Longrightarrow> k' \<noteq> k \<Longrightarrow> get k' (put k v t) = get k' t"
  by (simp add: get_put)

lemma put_put: "valid t \<Longrightarrow> fits k v \<Longrightarrow> fits k w \<Longrightarrow> get k' (put k w (put k v t)) = get k' (put k w t)"
  by (simp add: get_put valid_put)

lemma remove_put: "valid t \<Longrightarrow> fits k v \<Longrightarrow> get k' (remove k (put k v t)) = get k' (remove k t)"
  by (simp add: get_put get_remove valid_put)

lemma get_modify:
  "valid t \<Longrightarrow> (\<And>v. get k t = Some v \<Longrightarrow> fits k (f v)) \<Longrightarrow>
   get k' (modify k f t) = (if k' = k then map_option f (get k t) else get k' t)"
  by (auto simp: modify_def get_put split: option.splits)

text \<open>An invariant of every stored value survives an upsert of a good value.\<close>

lemma all_put:
  "valid t \<Longrightarrow> fits k v \<Longrightarrow> P k v \<Longrightarrow> (\<And>k' v'. get k' t = Some v' \<Longrightarrow> P k' v') \<Longrightarrow>
   get k' (put k v t) = Some v' \<Longrightarrow> P k' v'"
  by (auto simp: get_put split: if_splits)

end

section \<open>Ordered maps\<close>

text \<open>\<^verbatim>\<open>BTreeMap\<close>: an association list in strictly increasing key order, so that iteration
  meets the keys in their order.\<close>

type_synonym ('k, 'v) btree = "('k \<times> 'v) list"

definition bt_get :: "'k \<Rightarrow> ('k, 'v) btree \<Rightarrow> 'v option" where
  "bt_get k m = map_of m k"

fun bt_insert :: "'k::linorder \<Rightarrow> 'v \<Rightarrow> ('k, 'v) btree \<Rightarrow> ('k, 'v) btree" where
  "bt_insert k v [] = [(k, v)]"
| "bt_insert k v ((k', v') # m) =
     (if k < k' then (k, v) # (k', v') # m
      else if k = k' then (k, v) # m
      else (k', v') # bt_insert k v m)"

definition bt_remove :: "'k \<Rightarrow> ('k, 'v) btree \<Rightarrow> ('k, 'v) btree" where
  "bt_remove k m = filter (\<lambda>e. fst e \<noteq> k) m"

definition bt_keys :: "('k, 'v) btree \<Rightarrow> 'k list" where
  "bt_keys m = map fst m"

definition bt_values :: "('k, 'v) btree \<Rightarrow> 'v list" where
  "bt_values m = map snd m"

text \<open>\<^verbatim>\<open>for value in map.values_mut()\<close>.\<close>

definition bt_map :: "('v \<Rightarrow> 'w) \<Rightarrow> ('k, 'v) btree \<Rightarrow> ('k, 'w) btree" where
  "bt_map f m = map (\<lambda>(k, v). (k, f v)) m"

definition bt_wf :: "('k::linorder, 'v) btree \<Rightarrow> bool" where
  "bt_wf m \<longleftrightarrow> sorted_wrt (<) (map fst m)"

lemma bt_get_Nil [simp]: "bt_get k [] = None"
  by (simp add: bt_get_def)

lemma bt_wf_Nil [simp]: "bt_wf []"
  by (simp add: bt_wf_def)

lemma bt_get_insert [simp]: "bt_get k' (bt_insert k v m) = (if k' = k then Some v else bt_get k' m)"
  by (induction m) (auto simp: bt_get_def)

lemma bt_keys_insert: "fst ` set (bt_insert k v m) = insert k (fst ` set m)"
proof (induction k v m rule: bt_insert.induct)
  case (2 k v k' v' m)
  then show ?case by (cases "k < k'"; cases "k = k'") (simp_all add: insert_commute)
qed simp

lemma bt_wf_insert [simp]: "bt_wf m \<Longrightarrow> bt_wf (bt_insert k v m)"
proof (induction k v m rule: bt_insert.induct)
  case (2 k v k' v' m)
  have keys: "\<forall>x \<in> fst ` set m. k' < x" and m: "bt_wf m"
    using "2.prems" by (simp_all add: bt_wf_def)
  show ?case
  proof (cases "k < k'")
    case True
    with "2.prems" keys show ?thesis by (auto simp: bt_wf_def)
  next
    case ge: False
    show ?thesis
    proof (cases "k = k'")
      case False
      then have "k' < k" using ge by simp
      moreover from 2 ge False m have "bt_wf (bt_insert k v m)" by simp
      ultimately show ?thesis
        using ge False keys bt_keys_insert [of k v m] by (simp add: bt_wf_def)
    qed (use "2.prems" in \<open>simp add: bt_wf_def\<close>)
  qed
qed (simp add: bt_wf_def)

lemma bt_get_remove [simp]: "bt_get k' (bt_remove k m) = (if k' = k then None else bt_get k' m)"
  by (induction m) (auto simp: bt_get_def bt_remove_def)

lemma bt_wf_remove [simp]: "bt_wf m \<Longrightarrow> bt_wf (bt_remove k m)"
  by (induction m) (auto simp: bt_wf_def bt_remove_def)

lemma bt_get_map [simp]: "bt_get k (bt_map f m) = map_option f (bt_get k m)"
  by (induction m) (auto simp: bt_get_def bt_map_def)

lemma bt_keys_map [simp]: "map fst (bt_map f m) = map fst m"
  by (induction m) (auto simp: bt_map_def)

lemma bt_wf_map [simp]: "bt_wf (bt_map f m) = bt_wf m"
  by (simp add: bt_wf_def)

lemma bt_get_mem: "bt_wf m \<Longrightarrow> (k, v) \<in> set m \<longleftrightarrow> bt_get k m = Some v"
  by (simp add: bt_get_def bt_wf_def strict_sorted_iff)

lemma bt_get_None: "bt_get k m = None \<longleftrightarrow> k \<notin> fst ` set m"
  by (simp add: bt_get_def map_of_eq_None_iff)

lemma length_bt_insert:
  "bt_wf m \<Longrightarrow> length (bt_insert k v m) = (if bt_get k m = None then Suc (length m) else length m)"
proof (induction k v m rule: bt_insert.induct)
  case (2 k v k' v' m)
  have above: "\<forall>x \<in> fst ` set m. k' < x" and m: "bt_wf m"
    using "2.prems" by (simp_all add: bt_wf_def)
  consider "k < k'" | "k = k'" | "k' < k" by fastforce
  then show ?case
  proof cases
    case 1
    with above have "k \<notin> fst ` set m" by auto
    with 1 bt_get_None [of k m] show ?thesis by (simp add: bt_get_def)
  next
    case 2
    then show ?thesis by (simp add: bt_get_def)
  next
    case 3
    then show ?thesis using "2.IH" m by (auto simp: bt_get_def)
  qed
qed simp

lemma bt_insert_same: "bt_wf m \<Longrightarrow> bt_get k m = Some v \<Longrightarrow> bt_insert k v m = m"
proof (induction k v m rule: bt_insert.induct)
  case (2 k v k' v' m)
  have above: "\<forall>x \<in> fst ` set m. k' < x" and m: "bt_wf m"
    using "2.prems" by (simp_all add: bt_wf_def)
  show ?case
  proof (cases "k = k'")
    case True
    with 2 show ?thesis by (simp add: bt_get_def)
  next
    case False
    with "2.prems" have get: "bt_get k m = Some v" by (simp add: bt_get_def)
    then have "k \<in> fst ` set m" using bt_get_None [of k m] by auto
    with above have "k' < k" by auto
    with False 2 m get show ?thesis by auto
  qed
qed simp

interpretation btree: keyed_table bt_get bt_insert bt_remove bt_wf "\<lambda>k v. True"
  by unfold_locales simp_all

end
