(* ===== verification/Crypto.thy ===== *)
theory Crypto
  imports Prelude
begin

text \<open>
  \<^verbatim>\<open>pq/src/crypto.rs\<close> and the errors of \<^verbatim>\<open>pq/src/lib.rs\<close>. The leancrypto and OpenSSL routines
  behind the C bridge are a parameter, the record \<open>crypto_lib\<close>; what the callers rely on are
  the laws \<open>crypto_lengths\<close>, \<open>kem_law\<close> and \<open>signature_law\<close>. The checks, key schedules and
  sampling loops the Rust code builds from them are definitions.
\<close>

section \<open>Errors\<close>

datatype pq_error = EInvalid | ECrypto | ERandom | EConflict | EInstaller

type_synonym 'a res = "(pq_error, 'a) result"

section \<open>The library behind the bridge\<close>

text \<open>
  Every routine fills caller-supplied buffers and returns a status; here it returns the
  filled buffers, or \<open>None\<close> for a nonzero status. \<open>lib_enc\<close> takes the entropy that the
  library draws from its own generator.
\<close>

record crypto_lib =
  lib_init :: bool
  lib_keygen :: "bytes \<Rightarrow> ((bytes \<times> bytes) \<times> (bytes \<times> bytes)) option"
  lib_public :: "bytes \<Rightarrow> bytes \<Rightarrow> (bytes \<times> bytes) option"
  lib_enc :: "bytes \<Rightarrow> bytes \<Rightarrow> bytes \<Rightarrow> (bytes \<times> bytes \<times> bytes) option"
  lib_dec :: "bytes \<Rightarrow> bytes \<Rightarrow> bytes \<Rightarrow> (bytes \<times> bytes) option"
  lib_x448_validate :: "bytes \<Rightarrow> bool"
  lib_hash :: "bytes \<Rightarrow> bytes option"
  lib_hmac :: "bytes \<Rightarrow> bytes \<Rightarrow> bytes option"
  lib_hkdf :: "bytes \<Rightarrow> bytes \<Rightarrow> bytes \<Rightarrow> bytes option"
  lib_sign_public :: "bytes \<Rightarrow> bytes option"
  lib_sign_validate :: "bytes \<Rightarrow> bool"
  lib_sign :: "bytes \<Rightarrow> bytes \<Rightarrow> bytes option"
  lib_verify :: "bytes \<Rightarrow> bytes \<Rightarrow> bytes \<Rightarrow> bool"

definition invoke :: "crypto_lib \<Rightarrow> 'a option \<Rightarrow> 'a res" where
  "invoke C operation = (if \<not> lib_init C then Err ECrypto else ok_or operation ECrypto)"

definition status :: "bool \<Rightarrow> unit option" where
  "status b = (if b then Some () else None)"

lemma invoke_Ok [simp]: "invoke C v = Inr x \<longleftrightarrow> lib_init C \<and> v = Some x"
  by (auto simp: invoke_def)

lemma invoke_Err: "invoke C v = Inl e \<longleftrightarrow> (\<not> lib_init C \<or> v = None) \<and> e = ECrypto"
  by (auto simp: invoke_def)

lemma status_Some [simp]: "status b = Some u \<longleftrightarrow> b"
  by (simp add: status_def)

section \<open>Randomness\<close>

text \<open>The \<^verbatim>\<open>Random\<close> trait: filling a buffer of a given size, over the generator's state.\<close>

type_synonym 'r random_source = "nat \<Rightarrow> ('r, pq_error, bytes) comp"

definition rng_fills :: "'r random_source \<Rightarrow> bool" where
  "rng_fills fill \<longleftrightarrow> (\<forall>n r b r'. fill n r = (Inr b, r') \<longrightarrow> length b = n)"

definition random :: "'r random_source \<Rightarrow> nat \<Rightarrow> ('r, pq_error, bytes) comp" where
  "random fill n = fill n"

section \<open>Hybrid key encapsulation\<close>

record hybrid_public_key =
  hp_kem :: bytes
  hp_x448 :: bytes

record hybrid_secret_key =
  hs_kem :: bytes
  hs_x448 :: bytes

record hybrid_shared =
  sh_kem :: bytes
  sh_x448 :: bytes

definition secret_same :: "bytes \<Rightarrow> bytes \<Rightarrow> bool" where
  "secret_same a b \<longleftrightarrow> a = b"

definition shared_same :: "hybrid_shared \<Rightarrow> hybrid_shared \<Rightarrow> bool" where
  "shared_same a b \<longleftrightarrow> secret_same (sh_kem a) (sh_kem b) \<and> secret_same (sh_x448 a) (sh_x448 b)"

definition hybrid_keypair ::
    "crypto_lib \<Rightarrow> 'r random_source \<Rightarrow> ('r, pq_error, hybrid_public_key \<times> hybrid_secret_key) comp" where
  "hybrid_keypair C fill =
     bindS (random fill 64) (\<lambda>seed.
     bindS (liftS (invoke C (lib_keygen C seed))) (\<lambda>((pk, xpk), (sk, xsk)).
     retS (\<lparr>hp_kem = pk, hp_x448 = xpk\<rparr>, \<lparr>hs_kem = sk, hs_x448 = xsk\<rparr>)))"

definition hybrid_public :: "crypto_lib \<Rightarrow> hybrid_secret_key \<Rightarrow> hybrid_public_key res" where
  "hybrid_public C sk =
     bindR (invoke C (lib_public C (hs_kem sk) (hs_x448 sk))) (\<lambda>(pk, xpk).
     Ok \<lparr>hp_kem = pk, hp_x448 = xpk\<rparr>)"

text \<open>The modulus check over \<^verbatim>\<open>ByteDecode_12\<close>: three bytes carry two 12-bit coefficients.\<close>

definition kem_low :: "byte \<Rightarrow> byte \<Rightarrow> u16" where
  "kem_low b0 b1 = ucast b0 OR push_bit 8 (ucast (b1 AND 15))"

definition kem_high :: "byte \<Rightarrow> byte \<Rightarrow> u16" where
  "kem_high b1 b2 = ucast (drop_bit 4 b1) OR push_bit 4 (ucast b2)"

fun kem_chunks_ok :: "bytes \<Rightarrow> bool" where
  "kem_chunks_ok (b0 # b1 # b2 # rest) =
     (if kem_low b0 b1 \<ge> 3329 \<or> kem_high b1 b2 \<ge> 3329 then False else kem_chunks_ok rest)"
| "kem_chunks_ok _ = True"

definition validate_kem :: "bytes \<Rightarrow> unit res" where
  "validate_kem public = (if kem_chunks_ok (take 1536 public) then Ok () else Err EInvalid)"

definition validate_x448 :: "crypto_lib \<Rightarrow> bytes \<Rightarrow> unit res" where
  "validate_x448 C public = invoke C (status (lib_x448_validate C public))"

definition encapsulate :: "crypto_lib \<Rightarrow> bytes \<Rightarrow> hybrid_public_key \<Rightarrow> (bytes \<times> hybrid_shared) res" where
  "encapsulate C entropy public =
     bindR (validate_kem (hp_kem public)) (\<lambda>_.
     bindR (invoke C (lib_enc C entropy (hp_kem public) (hp_x448 public))) (\<lambda>(ct, ss, xss).
     Ok (ct, \<lparr>sh_kem = ss, sh_x448 = xss\<rparr>)))"

definition decapsulate :: "crypto_lib \<Rightarrow> bytes \<Rightarrow> hybrid_secret_key \<Rightarrow> hybrid_shared res" where
  "decapsulate C ct private =
     bindR (invoke C (lib_dec C ct (hs_kem private) (hs_x448 private))) (\<lambda>(ss, xss).
     Ok \<lparr>sh_kem = ss, sh_x448 = xss\<rparr>)"

section \<open>Hashing, tags and the key schedule\<close>

definition hash :: "crypto_lib \<Rightarrow> bytes \<Rightarrow> bytes res" where
  "hash C data = invoke C (lib_hash C data)"

definition hmac_tag :: "crypto_lib \<Rightarrow> bytes \<Rightarrow> bytes \<Rightarrow> bytes res" where
  "hmac_tag C key data = invoke C (lib_hmac C key data)"

record candidate =
  cd_psk :: bytes
  cd_initiator_confirmation :: bytes
  cd_responder_confirmation :: bytes

definition expand :: "crypto_lib \<Rightarrow> bytes \<Rightarrow> bytes \<Rightarrow> string \<Rightarrow> bytes res" where
  "expand C ikm salt label = invoke C (lib_hkdf C ikm salt (ascii label @ salt))"

definition derive :: "crypto_lib \<Rightarrow> bytes \<Rightarrow> bytes \<Rightarrow> bytes \<Rightarrow> bytes \<Rightarrow> candidate res" where
  "derive C kem dh operator transcript =
     (let ikm = kem @ dh @ operator in
      bindR (hash C transcript) (\<lambda>salt.
      bindR (expand C ikm salt ''innernet pq-psk v1 psk'') (\<lambda>psk.
      bindR (expand C ikm salt ''innernet pq-psk v1 confirm i'') (\<lambda>ki.
      bindR (expand C ikm salt ''innernet pq-psk v1 confirm r'') (\<lambda>kr.
      Ok \<lparr>cd_psk = psk, cd_initiator_confirmation = ki, cd_responder_confirmation = kr\<rparr>)))))"

section \<open>Signatures\<close>

definition signing_public :: "crypto_lib \<Rightarrow> bytes \<Rightarrow> bytes res" where
  "signing_public C private = invoke C (lib_sign_public C private)"

text \<open>Rejection sampling: at most 128 draws, the first draw the library accepts is the key.\<close>

primrec signing_sample ::
    "crypto_lib \<Rightarrow> 'r random_source \<Rightarrow> nat \<Rightarrow> ('r, pq_error, bytes \<times> bytes) comp" where
  "signing_sample C fill 0 = failS ERandom"
| "signing_sample C fill (Suc n) =
     bindS (random fill 66) (\<lambda>draw.
       let private = draw[0 := draw ! 0 AND 1] in
       case signing_public C private of
         Inr public \<Rightarrow> retS (public, private)
       | Inl _ \<Rightarrow> signing_sample C fill n)"

definition signing_keypair ::
    "crypto_lib \<Rightarrow> 'r random_source \<Rightarrow> ('r, pq_error, bytes \<times> bytes) comp" where
  "signing_keypair C fill = signing_sample C fill 128"

definition validate_signing :: "crypto_lib \<Rightarrow> bytes \<Rightarrow> unit res" where
  "validate_signing C public = invoke C (status (lib_sign_validate C public))"

definition sign :: "crypto_lib \<Rightarrow> bytes \<Rightarrow> bytes \<Rightarrow> bytes res" where
  "sign C private data = invoke C (lib_sign C private data)"

definition verify :: "crypto_lib \<Rightarrow> bytes \<Rightarrow> bytes \<Rightarrow> bytes \<Rightarrow> unit res" where
  "verify C public signature data = invoke C (status (lib_verify C public signature data))"

section \<open>What callers rely on\<close>

definition crypto_lengths :: "crypto_lib \<Rightarrow> bool" where
  "crypto_lengths C \<longleftrightarrow>
     (\<forall>seed pk xpk sk xsk. lib_keygen C seed = Some ((pk, xpk), (sk, xsk)) \<longrightarrow>
        length pk = 1568 \<and> length xpk = 56 \<and> length sk = 3168 \<and> length xsk = 56) \<and>
     (\<forall>e pk xpk ct ss xss. lib_enc C e pk xpk = Some (ct, ss, xss) \<longrightarrow>
        length ct = 1624 \<and> length ss = 32 \<and> length xss = 56) \<and>
     (\<forall>d h. lib_hash C d = Some h \<longrightarrow> length h = 32) \<and>
     (\<forall>k d h. lib_hmac C k d = Some h \<longrightarrow> length h = 32) \<and>
     (\<forall>k s i h. lib_hkdf C k s i = Some h \<longrightarrow> length h = 32) \<and>
     (\<forall>k pk. lib_sign_public C k = Some pk \<longrightarrow> length pk = 67) \<and>
     (\<forall>k d s. lib_sign C k d = Some s \<longrightarrow> length s = 132)"

text \<open>Decapsulation under the private half recovers what encapsulation shared.\<close>

definition kem_law :: "crypto_lib \<Rightarrow> bool" where
  "kem_law C \<longleftrightarrow>
     (\<forall>sk xsk pk xpk e ct ss xss.
        lib_public C sk xsk = Some (pk, xpk) \<longrightarrow> lib_enc C e pk xpk = Some (ct, ss, xss) \<longrightarrow>
        lib_dec C ct sk xsk = Some (ss, xss))"

text \<open>A signature made with a private key verifies under its public key.\<close>

definition signature_law :: "crypto_lib \<Rightarrow> bool" where
  "signature_law C \<longleftrightarrow>
     (\<forall>sk pk data sig. lib_sign_public C sk = Some pk \<longrightarrow> lib_sign C sk data = Some sig \<longrightarrow>
        lib_verify C pk sig data)"

lemma hash_length: "crypto_lengths C \<Longrightarrow> hash C d = Inr h \<Longrightarrow> length h = 32"
  by (auto simp: crypto_lengths_def hash_def)

lemma hmac_length: "crypto_lengths C \<Longrightarrow> hmac_tag C k d = Inr h \<Longrightarrow> length h = 32"
  by (auto simp: crypto_lengths_def hmac_tag_def)

lemma sign_length: "crypto_lengths C \<Longrightarrow> sign C k d = Inr h \<Longrightarrow> length h = 132"
  by (auto simp: crypto_lengths_def sign_def)

lemma encapsulate_length:
  "crypto_lengths C \<Longrightarrow> encapsulate C e pk = Inr (ct, sh) \<Longrightarrow> length ct = 1624"
  unfolding crypto_lengths_def encapsulate_def by (fastforce simp: bindR_Inr_iff)

lemma hash_error: "hash C d = Inl e \<Longrightarrow> e = ECrypto"
  by (simp add: hash_def invoke_Err)

lemma sign_verifies:
  "signature_law C \<Longrightarrow> signing_public C sk = Inr pk \<Longrightarrow> sign C sk d = Inr sig \<Longrightarrow>
   verify C pk sig d = Inr ()"
  by (auto simp: signature_law_def signing_public_def sign_def verify_def)

lemma decapsulate_encapsulate:
  assumes "kem_law C" "hybrid_public C sk = Inr pk" "encapsulate C e pk = Inr (ct, shared)"
  shows "decapsulate C ct sk = Inr shared"
  using assms unfolding hybrid_public_def encapsulate_def decapsulate_def kem_law_def
  by (fastforce simp: bindR_Inr_iff split: prod.splits)

section \<open>The modulus check is the check of FIPS 203\<close>

text \<open>\<^verbatim>\<open>ByteDecode_12\<close>: coefficient \<open>i\<close> is the \<open>i\<close>-th group of twelve bits of the bytes, read as a
  little-endian number.\<close>

fun le_nat :: "bytes \<Rightarrow> nat" where
  "le_nat [] = 0"
| "le_nat (b # bs) = unat b + 256 * le_nat bs"

definition byte_decode12 :: "bytes \<Rightarrow> nat \<Rightarrow> nat" where
  "byte_decode12 bs i = le_nat bs div 2 ^ (12 * i) mod 4096"

lemma unat_byte_bound [simp]: "unat (b :: byte) < 256"
  using unsigned_less [of b] by simp

lemma unat_kem_low: "unat (kem_low b0 b1) = unat b0 + 256 * (unat b1 mod 16)"
proof -
  have "kem_low b0 b1 = ucast b0 + push_bit 8 (ucast (b1 AND 15))"
    unfolding kem_low_def
    by (rule disjunctive_add [symmetric]) (auto simp: bit_simps dest: bit_imp_le_length)
  moreover have "b1 AND 15 = take_bit 4 b1"
    by (simp add: take_bit_eq_mask mask_eq_exp_minus_1)
  moreover have "unat (ucast b0 :: u16) = unat b0"
    by (simp add: unsigned_ucast_eq take_bit_eq_mod, rule mod_less)
       (use unat_byte_bound [of b0] in linarith)
  moreover have "unat (push_bit 8 (ucast (take_bit 4 b1) :: u16)) = 256 * (unat b1 mod 16)"
    by (simp add: unsigned_ucast_eq push_bit_eq_mult unat_word_ariths take_bit_eq_mod unsigned_take_bit_eq)
  moreover have "unat b0 + 256 * (unat b1 mod 16) < 65536"
  proof -
    have "unat b1 mod 16 < 16" by simp
    then show ?thesis using unat_byte_bound [of b0] by linarith
  qed
  ultimately show ?thesis
    by (simp add: unat_word_ariths)
qed

lemma unat_kem_high: "unat (kem_high b1 b2) = unat b1 div 16 + 16 * unat b2"
proof -
  have "kem_high b1 b2 = ucast (drop_bit 4 b1) + push_bit 4 (ucast b2)"
    unfolding kem_high_def
    by (rule disjunctive_add [symmetric]) (auto simp: bit_simps dest: bit_imp_le_length)
  moreover have "unat (ucast (drop_bit 4 b1) :: u16) = unat b1 div 16"
    by (simp only: unsigned_ucast_eq unat_drop_bit_eq)
       (simp add: take_bit_eq_mod drop_bit_eq_div, rule mod_less,
        use unat_byte_bound [of b1] in linarith)
  moreover have "unat (push_bit 4 (ucast b2 :: u16)) = 16 * unat b2"
  proof -
    have "unat (ucast b2 :: u16) = unat b2"
      by (simp add: unsigned_ucast_eq take_bit_eq_mod, rule mod_less)
         (use unat_byte_bound [of b2] in linarith)
    then show ?thesis
      by (simp add: push_bit_eq_mult unat_word_ariths mult.commute, intro mod_less)
         (use unat_byte_bound [of b2] in linarith)
  qed
  moreover have "unat b1 div 16 + 16 * unat b2 < 65536"
    using unat_byte_bound [of b1] unat_byte_bound [of b2] by linarith
  ultimately show ?thesis
    by (simp add: unat_word_ariths)
qed

lemma regroup12:
  "x + 256 * (y + 256 * (z + 256 * r)) =
   (x + 256 * (y mod 16)) + 4096 * ((y div 16 + 16 * z) + 4096 * (r :: nat))"
proof -
  have "256 * y = 256 * (y mod 16) + 4096 * (y div 16)"
    using div_mult_mod_eq [of y 16] by linarith
  then show ?thesis by (simp add: algebra_simps)
qed

lemma split12:
  "a < 4096 \<Longrightarrow> (a + 4096 * x) mod 4096 = a" "a < 4096 \<Longrightarrow> (a + 4096 * x) div 4096 = (x :: nat)"
  by simp_all

lemma byte_decode12_chunk:
  "byte_decode12 (b0 # b1 # b2 # bs) 0 = unat (kem_low b0 b1)"
  "byte_decode12 (b0 # b1 # b2 # bs) 1 = unat (kem_high b1 b2)"
  "byte_decode12 (b0 # b1 # b2 # bs) (i + 2) = byte_decode12 bs i"
proof -
  define r where "r = le_nat bs"
  have n: "le_nat (b0 # b1 # b2 # bs) = unat (kem_low b0 b1) + 4096 * (unat (kem_high b1 b2) + 4096 * r)"
    unfolding r_def unat_kem_low unat_kem_high by (simp only: le_nat.simps regroup12)
  have low: "unat (kem_low b0 b1) < 4096" and high: "unat (kem_high b1 b2) < 4096"
  proof -
    have "unat b1 mod 16 < 16" by simp
    then show "unat (kem_low b0 b1) < 4096" "unat (kem_high b1 b2) < 4096"
      using unat_byte_bound [of b0] unat_byte_bound [of b1] unat_byte_bound [of b2]
      unfolding unat_kem_low unat_kem_high by linarith+
  qed
  show "byte_decode12 (b0 # b1 # b2 # bs) 0 = unat (kem_low b0 b1)"
    unfolding byte_decode12_def n by (simp only: mult_0_right power_0 div_by_1 split12(1) [OF low])
  have "2 ^ (12 * 1) = (4096 :: nat)" by simp
  then show "byte_decode12 (b0 # b1 # b2 # bs) 1 = unat (kem_high b1 b2)"
    unfolding byte_decode12_def n by (simp only: split12(2) [OF low] split12(1) [OF high])
  have "2 ^ (12 * (i + 2)) = 4096 * (4096 * (2 ^ (12 * i) :: nat))"
    by (simp add: power_add)
  then show "byte_decode12 (b0 # b1 # b2 # bs) (i + 2) = byte_decode12 bs i"
    unfolding byte_decode12_def n
    by (simp only: div_mult2_eq split12(2) [OF low] split12(2) [OF high] r_def)
qed

lemma kem_chunks_ok_decode:
  "length bs = 3 * n \<Longrightarrow> kem_chunks_ok bs \<longleftrightarrow> (\<forall>i < 2 * n. byte_decode12 bs i < 3329)"
proof (induction n arbitrary: bs)
  case (Suc n)
  then have "length bs = Suc (Suc (Suc (3 * n)))" by simp
  then obtain b0 b1 b2 rest where bs: "bs = b0 # b1 # b2 # rest" and len: "length rest = 3 * n"
    by (auto simp: length_Suc_conv)
  have all: "(\<forall>i < 2 * Suc n. P i) \<longleftrightarrow> P 0 \<and> P 1 \<and> (\<forall>i < 2 * n. P (i + 2))" for P
    by (simp add: All_less_Suc2 eval_nat_numeral)
  show ?case
    unfolding bs all byte_decode12_chunk
    by (simp add: Suc.IH [OF len] word_le_nat_alt not_le)
qed simp

text \<open>The Rust check of a received ML-KEM encapsulation key, three bytes at a time over
  16-bit words, accepts a key exactly when each of the 1024 coefficients that
  \<^verbatim>\<open>ByteDecode_12\<close> reads from its first 1536 bytes is a reduced residue modulo 3329.\<close>

theorem validate_kem_iff_reduced:
  assumes "length public = 1568"
  shows "validate_kem public = Inr () \<longleftrightarrow>
    (\<forall>i < 1024. byte_decode12 (take 1536 public) i < 3329)"
  using kem_chunks_ok_decode [of "take 1536 public" 512] assms by (simp add: validate_kem_def)

theorem validate_kem_iff_reduced_witness:
  "length (255 # 255 # replicate 1566 0 :: bytes) = 1568 \<and>
   \<not> (\<forall>i < 1024. byte_decode12 (take 1536 (255 # 255 # replicate 1566 0)) i < 3329)"
proof -
  have len: "length (255 # 255 # replicate 1566 0 :: bytes) = 1568" by simp
  have "kem_low 255 255 = 4095" by (simp add: kem_low_def)
  moreover have "replicate 1566 (0 :: byte) = 0 # replicate 1565 0"
    using replicate_Suc [of 1565 "0 :: byte"] by simp
  ultimately have "validate_kem (255 # 255 # replicate 1566 0) \<noteq> Inr ()"
    by (simp add: validate_kem_def)
  with len validate_kem_iff_reduced [OF len] show ?thesis by blast
qed

section \<open>Key generation\<close>

lemma signing_sample_public:
  "signing_sample C fill n r = (Inr (public, private), r') \<Longrightarrow> signing_public C private = Inr public"
proof (induction n arbitrary: r)
  case (Suc n)
  then obtain draw u where
    run: "(case signing_public C (draw[0 := draw ! 0 AND 1]) of
        Inr public \<Rightarrow> retS (public, draw[0 := draw ! 0 AND 1])
      | Inl _ \<Rightarrow> signing_sample C fill n) u = (Inr (public, private), r')"
    by (auto simp: bindS_Inr_iff Let_def)
  show ?case
    using run Suc.IH [of u] by (cases "signing_public C (draw[0 := draw ! 0 AND 1])") auto
qed simp

lemma signing_keypair_public:
  "signing_keypair C fill r = (Inr (public, private), r') \<Longrightarrow> signing_public C private = Inr public"
  by (simp add: signing_keypair_def signing_sample_public)

section \<open>A concrete library\<close>

text \<open>An instance of the parameter that satisfies every law: padding instead of cryptography.\<close>

definition pad :: "nat \<Rightarrow> bytes \<Rightarrow> bytes" where
  "pad n d = take n (d @ replicate n 0)"

lemma length_pad [simp]: "length (pad n d) = n"
  by (simp add: pad_def)

definition toy_lib :: crypto_lib where
  "toy_lib =
     \<lparr>lib_init = True,
      lib_keygen = \<lambda>seed. Some ((pad 1568 [], pad 56 []), (pad 3168 [], pad 56 [])),
      lib_public = \<lambda>sk xsk. Some (pad 1568 [], pad 56 []),
      lib_enc = \<lambda>e pk xpk. Some (pad 1624 e, pad 32 e, pad 56 e),
      lib_dec = \<lambda>ct sk xsk. Some (pad 32 (take 1624 ct), pad 56 (take 1624 ct)),
      lib_x448_validate = \<lambda>pk. True,
      lib_hash = \<lambda>d. Some (pad 32 (drop 30 d)),
      lib_hmac = \<lambda>k d. Some (pad 32 (k @ d)),
      lib_hkdf = \<lambda>k s i. Some (pad 32 (k @ i)),
      lib_sign_public = \<lambda>k. Some (pad 67 k),
      lib_sign_validate = \<lambda>pk. True,
      lib_sign = \<lambda>k d. Some (pad 132 (pad 67 k)),
      lib_verify = \<lambda>pk s d. s = pad 132 pk\<rparr>"

lemma toy_lengths: "crypto_lengths toy_lib"
  by (simp add: crypto_lengths_def toy_lib_def)

lemma toy_signature: "signature_law toy_lib"
  by (simp add: signature_law_def toy_lib_def)

lemma pad_pad: "m \<le> n \<Longrightarrow> pad m (pad n e) = pad m e"
  by (auto simp: pad_def min_def take_append replicate_add [symmetric] intro!: nth_equalityI simp: nth_append)

lemma toy_kem: "kem_law toy_lib"
  by (simp add: kem_law_def toy_lib_def pad_pad)

lemma toy_ops:
  "invoke toy_lib v = ok_or v ECrypto" "validate_x448 toy_lib pk = Inr ()"
  "validate_signing toy_lib pk = Inr ()" "hash toy_lib d = Inr (pad 32 (drop 30 d))"
  "hmac_tag toy_lib k d = Inr (pad 32 (k @ d))" "signing_public toy_lib k = Inr (pad 67 k)"
  "sign toy_lib k d = Inr (pad 132 (pad 67 k))"
  by (simp_all add: toy_lib_def invoke_def validate_x448_def validate_signing_def hash_def hmac_tag_def
      signing_public_def sign_def)

lemma kem_chunks_ok_zero: "kem_chunks_ok (replicate n 0)"
proof (induction n rule: less_induct)
  case (less n)
  show ?case
  proof (cases "3 \<le> n")
    case True
    then obtain k where n: "n = Suc (Suc (Suc k))" by (metis Suc_le_D eval_nat_numeral(3) numeral_2_eq_2 Suc_le_mono One_nat_def)
    have "kem_low 0 0 = 0" "kem_high 0 0 = 0" by (simp_all add: kem_low_def kem_high_def)
    with less [of k] n show ?thesis by simp
  next
    case False
    then have "n = 0 \<or> n = 1 \<or> n = 2" by linarith
    then show ?thesis by (elim disjE) (simp_all add: numeral_2_eq_2)
  qed
qed

end
