(* ===== verification/Protocol.thy ===== *)
theory Protocol
  imports Crypto
begin

text \<open>
  The wire objects of \<^verbatim>\<open>pq/src/protocol.rs\<close>: identifiers and fixed-length binaries with their
  canonical text, bundles, transcripts and messages with their byte encodings, and the signing
  and checking of messages. Base64 and JSON are third-party parsers and so parameters.
\<close>

definition request_limit :: nat where
  "request_limit = 8192"

definition prepare_ttl :: u64 where
  "prepare_ttl = 600"

section \<open>Fixed-length binaries\<close>

record base64 =
  b64_encode :: "bytes \<Rightarrow> string"
  b64_decode :: "string \<Rightarrow> bytes option"

definition binary_serialize :: "base64 \<Rightarrow> bytes \<Rightarrow> string" where
  "binary_serialize B v = b64_encode B v"

text \<open>Deserializers fail with messages that no caller inspects, so they return an option.\<close>

definition binary_deserialize :: "base64 \<Rightarrow> nat \<Rightarrow> string \<Rightarrow> bytes option" where
  "binary_deserialize B N value =
     (if length value \<noteq> (N + 2) div 3 * 4 then None
      else case b64_decode B value of
        None \<Rightarrow> None
      | Some bs \<Rightarrow>
          if b64_encode B bs \<noteq> value then None
          else if length bs = N then Some bs else None)"

section \<open>Identifiers\<close>

datatype number = Number (num_get: u64)

instantiation number :: linorder
begin

definition less_eq_number :: "number \<Rightarrow> number \<Rightarrow> bool" where
  "less_eq_number a b \<longleftrightarrow> num_get a \<le> num_get b"

definition less_number :: "number \<Rightarrow> number \<Rightarrow> bool" where
  "less_number a b \<longleftrightarrow> num_get a < num_get b"

instance
  by standard (auto simp: less_eq_number_def less_number_def number.expand)

end

definition number_wf :: "number \<Rightarrow> bool" where
  "number_wf n \<longleftrightarrow> num_get n \<noteq> 0 \<and> num_get n \<le> i64_max"

definition number_new :: "u64 \<Rightarrow> number res" where
  "number_new value = (if value = 0 \<or> value > i64_max then Err EInvalid else Ok (Number value))"

definition number_next :: "number \<Rightarrow> number res" where
  "number_next n = bindR (ok_or (checked_add64 (num_get n) 1) EInvalid) number_new"

definition number_serialize :: "number \<Rightarrow> string" where
  "number_serialize n = dec_of_nat (unat (num_get n))"

definition number_deserialize :: "string \<Rightarrow> number option" where
  "number_deserialize value =
     (if value = [] \<or> hd value = CHR ''0'' \<or> \<not> list_all ascii_digit value then None
      else case parse_u64 value of
        None \<Rightarrow> None
      | Some v \<Rightarrow> (case number_new v of Inr n \<Rightarrow> Some n | Inl _ \<Rightarrow> None))"

section \<open>Bundles\<close>

record pq_bundle =
  bu_id :: bytes
  bu_revision :: number
  bu_wg :: bytes
  bu_kem :: bytes
  bu_x448 :: bytes
  bu_sig :: bytes

text \<open>What the array types of the struct guarantee.\<close>

definition bundle_wf :: "pq_bundle \<Rightarrow> bool" where
  "bundle_wf b \<longleftrightarrow> length (bu_id b) = 16 \<and> number_wf (bu_revision b) \<and> length (bu_wg b) = 32 \<and>
     length (bu_kem b) = 1568 \<and> length (bu_x448 b) = 56 \<and> length (bu_sig b) = 67"

definition bundle_validate :: "crypto_lib \<Rightarrow> pq_bundle \<Rightarrow> unit res" where
  "bundle_validate C b =
     bindR (validate_kem (bu_kem b)) (\<lambda>_.
     bindR (validate_x448 C (bu_x448 b)) (\<lambda>_.
     validate_signing C (bu_sig b)))"

definition bundle_encode :: "pq_bundle \<Rightarrow> bytes" where
  "bundle_encode b =
     bu_id b @ be64 (num_get (bu_revision b)) @ bu_wg b @ bu_kem b @ bu_x448 b @ bu_sig b"

section \<open>Transcripts\<close>

record transcript =
  tr_network_id :: bytes
  tr_initiator_id :: number
  tr_responder_id :: number
  tr_initiator :: pq_bundle
  tr_responder :: pq_bundle
  tr_sequence :: number
  tr_exchange_id :: bytes
  tr_operator_psk_id :: bytes
  tr_ciphertext :: bytes

definition transcript_wf :: "transcript \<Rightarrow> bool" where
  "transcript_wf t \<longleftrightarrow> length (tr_network_id t) = 16 \<and> number_wf (tr_initiator_id t) \<and>
     number_wf (tr_responder_id t) \<and> bundle_wf (tr_initiator t) \<and> bundle_wf (tr_responder t) \<and>
     number_wf (tr_sequence t) \<and> length (tr_exchange_id t) = 16 \<and>
     length (tr_operator_psk_id t) = 16 \<and> length (tr_ciphertext t) = 1624"

definition transcript_validate :: "crypto_lib \<Rightarrow> transcript \<Rightarrow> unit res" where
  "transcript_validate C t =
     bindR (guardR (\<not> tr_initiator_id t \<ge> tr_responder_id t) EInvalid) (\<lambda>_.
     bindR (bundle_validate C (tr_initiator t)) (\<lambda>_.
     bindR (bundle_validate C (tr_responder t)) (\<lambda>_.
     validate_x448 C (drop 1568 (tr_ciphertext t)))))"

definition transcript_encode :: "transcript \<Rightarrow> bytes" where
  "transcript_encode t =
     ascii ''innernet pq-psk v1 transcript'' @ [1] @ tr_network_id t @
     be64 (num_get (tr_initiator_id t)) @ be64 (num_get (tr_responder_id t)) @
     bundle_encode (tr_initiator t) @ bundle_encode (tr_responder t) @
     be64 (num_get (tr_sequence t)) @ tr_exchange_id t @ tr_operator_psk_id t @ tr_ciphertext t"

section \<open>Messages\<close>

datatype kind = KPropose | KReady | KCommit | KInstalled | KConfirmed | KAbort

fun kind_u8 :: "kind \<Rightarrow> u8" where
  "kind_u8 KPropose = 1"
| "kind_u8 KReady = 2"
| "kind_u8 KCommit = 3"
| "kind_u8 KInstalled = 4"
| "kind_u8 KConfirmed = 5"
| "kind_u8 KAbort = 6"

definition kind_try_from :: "u8 \<Rightarrow> kind res" where
  "kind_try_from v =
     (if v = 1 then Ok KPropose else if v = 2 then Ok KReady else if v = 3 then Ok KCommit
      else if v = 4 then Ok KInstalled else if v = 5 then Ok KConfirmed
      else if v = 6 then Ok KAbort else Err EInvalid)"

record message =
  msg_version :: u8
  msg_network_id :: bytes
  msg_initiator_id :: number
  msg_responder_id :: number
  msg_initiator_bundle_id :: bytes
  msg_responder_bundle_id :: bytes
  msg_sequence :: number
  msg_exchange_id :: bytes
  msg_transcript_hash :: bytes
  msg_sender_id :: number
  msg_type :: u8
  msg_tag :: bytes
  msg_signature :: bytes
  msg_ciphertext :: "bytes option"
  msg_operator_psk_id :: "bytes option"

definition message_wf :: "message \<Rightarrow> bool" where
  "message_wf m \<longleftrightarrow> length (msg_network_id m) = 16 \<and> number_wf (msg_initiator_id m) \<and>
     number_wf (msg_responder_id m) \<and> length (msg_initiator_bundle_id m) = 16 \<and>
     length (msg_responder_bundle_id m) = 16 \<and> number_wf (msg_sequence m) \<and>
     length (msg_exchange_id m) = 16 \<and> length (msg_transcript_hash m) = 32 \<and>
     number_wf (msg_sender_id m) \<and> length (msg_tag m) = 32 \<and> length (msg_signature m) = 132 \<and>
     pred_option (\<lambda>c. length c = 1624) (msg_ciphertext m) \<and>
     pred_option (\<lambda>i. length i = 16) (msg_operator_psk_id m)"

definition validate_shape :: "message \<Rightarrow> kind res" where
  "validate_shape m =
     bindR (kind_try_from (msg_type m)) (\<lambda>kind.
     bindR (guardR (\<not> (msg_version m \<noteq> 1 \<or> msg_initiator_id m \<ge> msg_responder_id m)) EInvalid) (\<lambda>_.
     let initiator = (msg_sender_id m = msg_initiator_id m);
         responder = (msg_sender_id m = msg_responder_id m) in
     bindR (guardR (\<not> (\<not> (initiator \<or> responder)
         \<or> (kind = KReady \<and> \<not> responder)
         \<or> (kind \<in> {KPropose, KCommit, KAbort} \<and> \<not> initiator))) EInvalid) (\<lambda>_.
     let proposal = (kind = KPropose) in
     bindR (guardR (\<not> ((msg_ciphertext m \<noteq> None) \<noteq> proposal
         \<or> (msg_operator_psk_id m \<noteq> None) \<noteq> proposal)) EInvalid) (\<lambda>_.
     Ok kind))))"

definition envelope :: "message \<Rightarrow> bytes" where
  "envelope m =
     ascii ''innernet pq-psk v1 message'' @ [msg_version m] @ msg_network_id m @
     be64 (num_get (msg_initiator_id m)) @ be64 (num_get (msg_responder_id m)) @
     msg_initiator_bundle_id m @ msg_responder_bundle_id m @ be64 (num_get (msg_sequence m)) @
     msg_exchange_id m @ msg_transcript_hash m @ be64 (num_get (msg_sender_id m)) @ [msg_type m]"

definition authenticate :: "crypto_lib \<Rightarrow> message \<Rightarrow> transcript \<Rightarrow> unit res" where
  "authenticate C m t =
     bindR (validate_shape m) (\<lambda>_.
     bindR (guardR (\<not> (msg_network_id m \<noteq> tr_network_id t
         \<or> msg_initiator_id m \<noteq> tr_initiator_id t
         \<or> msg_responder_id m \<noteq> tr_responder_id t
         \<or> msg_initiator_bundle_id m \<noteq> bu_id (tr_initiator t)
         \<or> msg_responder_bundle_id m \<noteq> bu_id (tr_responder t)
         \<or> msg_sequence m \<noteq> tr_sequence t
         \<or> msg_exchange_id m \<noteq> tr_exchange_id t)) EInvalid) (\<lambda>_.
     bindR (hash C (transcript_encode t)) (\<lambda>h.
     bindR (guardR (\<not> (msg_transcript_hash m \<noteq> h
         \<or> (case msg_ciphertext m of None \<Rightarrow> False | Some c \<Rightarrow> c \<noteq> tr_ciphertext t)
         \<or> (case msg_operator_psk_id m of None \<Rightarrow> False | Some i \<Rightarrow> i \<noteq> tr_operator_psk_id t))) EInvalid) (\<lambda>_.
     let b = (if msg_sender_id m = msg_initiator_id m then tr_initiator t else tr_responder t) in
     verify C (bu_sig b) (msg_signature m) (envelope m @ msg_tag m)))))"

definition confirmation_key :: "message \<Rightarrow> candidate \<Rightarrow> bytes" where
  "confirmation_key m cand =
     (if msg_sender_id m = msg_initiator_id m then cd_initiator_confirmation cand
      else cd_responder_confirmation cand)"

definition confirm :: "crypto_lib \<Rightarrow> message \<Rightarrow> candidate \<Rightarrow> unit res" where
  "confirm C m cand =
     bindR (validate_shape m) (\<lambda>_.
     bindR (hmac_tag C (confirmation_key m cand) (envelope m)) (\<lambda>tag.
     if tag = msg_tag m then Ok () else Err ECrypto))"

text \<open>The message before its tag and signature are filled in.\<close>

definition draft :: "transcript \<Rightarrow> kind \<Rightarrow> number \<Rightarrow> bytes \<Rightarrow> message" where
  "draft t kind sender h =
     \<lparr>msg_version = 1, msg_network_id = tr_network_id t,
      msg_initiator_id = tr_initiator_id t, msg_responder_id = tr_responder_id t,
      msg_initiator_bundle_id = bu_id (tr_initiator t),
      msg_responder_bundle_id = bu_id (tr_responder t),
      msg_sequence = tr_sequence t, msg_exchange_id = tr_exchange_id t,
      msg_transcript_hash = h, msg_sender_id = sender, msg_type = kind_u8 kind,
      msg_tag = replicate 32 0, msg_signature = replicate 132 0,
      msg_ciphertext = (if kind = KPropose then Some (tr_ciphertext t) else None),
      msg_operator_psk_id = (if kind = KPropose then Some (tr_operator_psk_id t) else None)\<rparr>"

definition signed :: "crypto_lib \<Rightarrow> transcript \<Rightarrow> kind \<Rightarrow> number \<Rightarrow> candidate \<Rightarrow> bytes \<Rightarrow> message res" where
  "signed C t kind sender cand signing_key =
     bindR (hash C (transcript_encode t)) (\<lambda>h.
     let m = draft t kind sender h in
     bindR (validate_shape m) (\<lambda>_.
     let key = (if sender = tr_initiator_id t then cd_initiator_confirmation cand
                else cd_responder_confirmation cand) in
     bindR (hmac_tag C key (envelope m)) (\<lambda>tag.
     let m1 = m\<lparr>msg_tag := tag\<rparr> in
     bindR (sign C signing_key (envelope m1 @ msg_tag m1)) (\<lambda>sig.
     Ok (m1\<lparr>msg_signature := sig\<rparr>)))))"

section \<open>Parsing a request body\<close>

text \<open>\<^verbatim>\<open>serde_json\<close>: the typed decoding of a message, and whether a key of the untyped value is
  an explicit null.\<close>

record json_message =
  js_message :: "bytes \<Rightarrow> message option"
  js_null :: "bytes \<Rightarrow> (string \<Rightarrow> bool) option"

definition parse_message :: "json_message \<Rightarrow> bytes \<Rightarrow> message res" where
  "parse_message J body =
     bindR (guardR (\<not> length body > request_limit) EInvalid) (\<lambda>_.
     bindR (ok_or (js_message J body) EInvalid) (\<lambda>m.
     bindR (ok_or (js_null J body) EInvalid) (\<lambda>null.
     bindR (guardR (\<not> list_ex null [''ciphertext'', ''operator_psk_id'']) EInvalid) (\<lambda>_.
     bindR (validate_shape m) (\<lambda>_.
     Ok m)))))"

section \<open>Facts about identifiers\<close>

lemma number_le_iff [simp]: "a \<le> b \<longleftrightarrow> num_get a \<le> num_get b" for a b :: number
  by (simp add: less_eq_number_def)

lemma number_less_iff [simp]: "a < b \<longleftrightarrow> num_get a < num_get b" for a b :: number
  by (simp add: less_number_def)

lemma number_eq_iff: "a = b \<longleftrightarrow> num_get a = num_get b" for a b :: number
  by (cases a; cases b) simp

lemma number_new_Ok [simp]: "number_new v = Inr n \<longleftrightarrow> n = Number v \<and> number_wf (Number v)"
  by (auto simp: number_new_def number_wf_def)

lemma number_next_Ok:
  "number_next n = Inr m \<longleftrightarrow> number_wf m \<and> unat (num_get m) = unat (num_get n) + 1"
proof
  assume "number_next n = Inr m"
  then show "number_wf m \<and> unat (num_get m) = unat (num_get n) + 1"
    by (auto simp: number_next_def bindR_Inr_iff dest: checked_add64_Some)
next
  assume m: "number_wf m \<and> unat (num_get m) = unat (num_get n) + 1"
  then have "unat (num_get n) + 1 < 2 ^ 64" using unat64_bound [of "num_get m"] by simp
  moreover from this m have "num_get n + 1 = num_get m"
    by (auto simp: word_unat_eq_iff unat_word_ariths)
  ultimately show "number_next n = Inr m"
    using m by (cases m) (simp add: number_next_def checked_add64_def)
qed

lemma number_next_wf: "number_next n = Inr m \<Longrightarrow> number_wf m"
  by (simp add: number_next_Ok)

lemma number_next_less: "number_next n = Inr m \<Longrightarrow> n < m"
  by (simp add: number_next_Ok word_less_nat_alt)

text \<open>Identifiers travel as text, and the text is canonical: a string deserializes to an
  identifier exactly when the identifier lies between 1 and \<^verbatim>\<open>i64::MAX\<close> and the string is the one
  that serialization produces. So every valid identifier survives the round trip, and no sign,
  leading zero, white space or over-long number is accepted.\<close>

theorem number_deserialize_canonical:
  "number_deserialize s = Some n \<longleftrightarrow> number_wf n \<and> s = number_serialize n"
proof
  assume des: "number_deserialize s = Some n"
  then have s: "list_all ascii_digit s" "s \<noteq> []" "hd s \<noteq> CHR ''0''"
    by (auto simp: number_deserialize_def split: if_splits)
  from des obtain v where v: "parse_u64 s = Some v" and n: "n = Number v" "number_wf n"
    by (auto simp: number_deserialize_def split: if_splits option.splits sum.splits)
  from v s have "unat v = nat_of_dec s"
    by (auto simp: parse_u64_digits unat_of_nat split: if_splits)
  with n dec_of_nat_of_dec [OF s] show "number_wf n \<and> s = number_serialize n"
    by (simp add: number_serialize_def)
next
  assume n: "number_wf n \<and> s = number_serialize n"
  then have "0 < unat (num_get n)"
    by (simp add: number_wf_def unat_gt_0)
  from dec_of_nat_hd [OF this] n show "number_deserialize s = Some n"
    by (cases n) (auto simp: number_deserialize_def number_serialize_def dec_of_nat_digits number_new_def number_wf_def split: sum.splits)
qed

section \<open>Facts about binaries\<close>

text \<open>What the callers rely on in base64: decoding inverts encoding, and three bytes become four
  characters, the last group padded.\<close>

definition base64_law :: "base64 \<Rightarrow> bool" where
  "base64_law B \<longleftrightarrow> (\<forall>v. b64_decode B (b64_encode B v) = Some v \<and>
     length (b64_encode B v) = (length v + 2) div 3 * 4)"

lemma base64_lawD:
  assumes "base64_law B"
  shows "b64_decode B (b64_encode B v) = Some v" "length (b64_encode B v) = (length v + 2) div 3 * 4"
  using assms unfolding base64_law_def by blast+

lemma binary_deserialize_canonical:
  assumes law: "base64_law B"
  shows "binary_deserialize B N s = Some v \<longleftrightarrow> length v = N \<and> s = binary_serialize B v"
proof
  assume "binary_deserialize B N s = Some v"
  then show "length v = N \<and> s = binary_serialize B v"
    by (auto simp: binary_deserialize_def binary_serialize_def split: if_splits option.splits)
next
  assume "length v = N \<and> s = binary_serialize B v"
  then show "binary_deserialize B N s = Some v"
    using base64_lawD [OF law, of v] by (simp add: binary_deserialize_def binary_serialize_def)
qed

section \<open>Encodings are injective\<close>

lemma length_bundle_encode [enc_simps]: "bundle_wf b \<Longrightarrow> length (bundle_encode b) = 1747"
  by (simp add: bundle_wf_def bundle_encode_def)

lemma bundle_encode_inject:
  "bundle_wf a \<Longrightarrow> bundle_wf b \<Longrightarrow> bundle_encode a = bundle_encode b \<Longrightarrow> a = b"
  by (simp add: bundle_wf_def bundle_encode_def number_eq_iff)

lemma length_transcript_encode [enc_simps]:
  "transcript_wf t \<Longrightarrow> length (transcript_encode t) = 5220"
  by (simp add: transcript_wf_def transcript_encode_def length_bundle_encode)

lemma transcript_inject:
  assumes "transcript_wf s" "transcript_wf t" "transcript_encode s = transcript_encode t"
  shows "s = t"
proof -
  note wf = assms(1,2) [unfolded transcript_wf_def]
  have eqs: "tr_network_id s = tr_network_id t" "tr_initiator_id s = tr_initiator_id t"
    "tr_responder_id s = tr_responder_id t"
    "bundle_encode (tr_initiator s) = bundle_encode (tr_initiator t)"
    "bundle_encode (tr_responder s) = bundle_encode (tr_responder t)"
    "tr_sequence s = tr_sequence t" "tr_exchange_id s = tr_exchange_id t"
    "tr_operator_psk_id s = tr_operator_psk_id t" "tr_ciphertext s = tr_ciphertext t"
    using assms(3) wf
    by (simp_all add: transcript_encode_def length_bundle_encode number_eq_iff)
  then show ?thesis using wf bundle_encode_inject by simp
qed

text \<open>The byte string that both sides hash and derive keys from determines the exchange: two
  transcripts with the same encoding agree in every field, including both key bundles. A fixed
  order of fixed-width fields behind a domain label leaves no two readings of the bytes.\<close>

theorem transcript_encode_injective:
  assumes "transcript_wf s" "transcript_wf t" "transcript_encode s = transcript_encode t"
  shows "s = t"
  using assms by (rule transcript_inject)

section \<open>Facts about messages\<close>

lemma kind_try_from_u8 [simp]: "kind_try_from (kind_u8 k) = Inr k"
  by (cases k) (simp_all add: kind_try_from_def)

lemma kind_try_from_Ok: "kind_try_from v = Inr k \<longleftrightarrow> v = kind_u8 k"
  by (cases k) (auto simp: kind_try_from_def)

lemma kind_u8_inject [simp]: "kind_u8 a = kind_u8 b \<longleftrightarrow> a = b"
  by (metis kind_try_from_u8 sum.inject(2))

lemma validate_shape_Ok:
  "validate_shape m = Inr k \<longleftrightarrow>
     msg_type m = kind_u8 k \<and> msg_version m = 1 \<and> msg_initiator_id m < msg_responder_id m \<and>
     (case k of
        KReady \<Rightarrow> msg_sender_id m = msg_responder_id m
      | KInstalled \<Rightarrow> msg_sender_id m \<in> {msg_initiator_id m, msg_responder_id m}
      | KConfirmed \<Rightarrow> msg_sender_id m \<in> {msg_initiator_id m, msg_responder_id m}
      | _ \<Rightarrow> msg_sender_id m = msg_initiator_id m) \<and>
     (k = KPropose \<longleftrightarrow> msg_ciphertext m \<noteq> None) \<and> (k = KPropose \<longleftrightarrow> msg_operator_psk_id m \<noteq> None)"
  by (cases k)
     (auto simp: validate_shape_def bindR_Inr_iff Let_def kind_try_from_Ok not_le)

text \<open>The role rules of messages: a message passes the shape check, and as kind \<open>k\<close>, exactly when
  its type byte is \<open>k\<close>'s, its version is 1, the initiator has the lower identifier, the sender is
  one of the two and is the responder for ready and the initiator for propose, commit and
  abort, and the proposal's two extra fields are present on proposals and on nothing else.\<close>

theorem validate_shape_iff:
  "validate_shape m = Inr k \<longleftrightarrow>
     msg_type m = kind_u8 k \<and> msg_version m = 1 \<and> msg_initiator_id m < msg_responder_id m \<and>
     (case k of
        KReady \<Rightarrow> msg_sender_id m = msg_responder_id m
      | KInstalled \<Rightarrow> msg_sender_id m \<in> {msg_initiator_id m, msg_responder_id m}
      | KConfirmed \<Rightarrow> msg_sender_id m \<in> {msg_initiator_id m, msg_responder_id m}
      | _ \<Rightarrow> msg_sender_id m = msg_initiator_id m) \<and>
     (k = KPropose \<longleftrightarrow> msg_ciphertext m \<noteq> None) \<and> (k = KPropose \<longleftrightarrow> msg_operator_psk_id m \<noteq> None)"
  by (rule validate_shape_Ok)

lemma validate_shape_cong:
  "msg_type m' = msg_type m \<Longrightarrow> msg_version m' = msg_version m \<Longrightarrow>
   msg_initiator_id m' = msg_initiator_id m \<Longrightarrow> msg_responder_id m' = msg_responder_id m \<Longrightarrow>
   msg_sender_id m' = msg_sender_id m \<Longrightarrow> msg_ciphertext m' = msg_ciphertext m \<Longrightarrow>
   msg_operator_psk_id m' = msg_operator_psk_id m \<Longrightarrow> validate_shape m' = validate_shape m"
  by (simp add: validate_shape_def)

lemma validate_shape_update [simp]:
  "validate_shape (m\<lparr>msg_tag := x\<rparr>) = validate_shape m"
  "validate_shape (m\<lparr>msg_signature := x\<rparr>) = validate_shape m"
  by (rule validate_shape_cong; simp)+

lemma envelope_update [simp]:
  "envelope (m\<lparr>msg_tag := x\<rparr>) = envelope m" "envelope (m\<lparr>msg_signature := x\<rparr>) = envelope m"
  by (simp_all add: envelope_def)

lemma envelope_inject:
  assumes "message_wf m" "message_wf n" "envelope m = envelope n"
  shows "msg_version m = msg_version n \<and> msg_network_id m = msg_network_id n \<and>
    msg_initiator_id m = msg_initiator_id n \<and> msg_responder_id m = msg_responder_id n \<and>
    msg_initiator_bundle_id m = msg_initiator_bundle_id n \<and>
    msg_responder_bundle_id m = msg_responder_bundle_id n \<and> msg_sequence m = msg_sequence n \<and>
    msg_exchange_id m = msg_exchange_id n \<and> msg_transcript_hash m = msg_transcript_hash n \<and>
    msg_sender_id m = msg_sender_id n \<and> msg_type m = msg_type n"
  using assms by (simp add: message_wf_def envelope_def number_eq_iff)

section \<open>Signing and checking agree\<close>

lemma authenticate_Ok:
  "authenticate C m t = Inr u \<longleftrightarrow>
     is_ok (validate_shape m) \<and> msg_network_id m = tr_network_id t \<and>
     msg_initiator_id m = tr_initiator_id t \<and> msg_responder_id m = tr_responder_id t \<and>
     msg_initiator_bundle_id m = bu_id (tr_initiator t) \<and>
     msg_responder_bundle_id m = bu_id (tr_responder t) \<and> msg_sequence m = tr_sequence t \<and>
     msg_exchange_id m = tr_exchange_id t \<and>
     hash C (transcript_encode t) = Inr (msg_transcript_hash m) \<and>
     pred_option (\<lambda>c. c = tr_ciphertext t) (msg_ciphertext m) \<and>
     pred_option (\<lambda>i. i = tr_operator_psk_id t) (msg_operator_psk_id m) \<and>
     verify C (bu_sig (if msg_sender_id m = msg_initiator_id m then tr_initiator t else tr_responder t))
       (msg_signature m) (envelope m @ msg_tag m) = Inr ()"
  by (auto simp: authenticate_def bindR_Inr_iff Let_def is_ok_iff split: option.splits)

lemma confirm_Ok:
  "confirm C m cand = Inr u \<longleftrightarrow>
     is_ok (validate_shape m) \<and> hmac_tag C (confirmation_key m cand) (envelope m) = Inr (msg_tag m)"
  by (auto simp: confirm_def bindR_Inr_iff is_ok_iff split: if_splits)

lemma draft_simps [simp]:
  "msg_version (draft t k s h) = 1" "msg_network_id (draft t k s h) = tr_network_id t"
  "msg_initiator_id (draft t k s h) = tr_initiator_id t"
  "msg_responder_id (draft t k s h) = tr_responder_id t"
  "msg_initiator_bundle_id (draft t k s h) = bu_id (tr_initiator t)"
  "msg_responder_bundle_id (draft t k s h) = bu_id (tr_responder t)"
  "msg_sequence (draft t k s h) = tr_sequence t" "msg_exchange_id (draft t k s h) = tr_exchange_id t"
  "msg_transcript_hash (draft t k s h) = h" "msg_sender_id (draft t k s h) = s"
  "msg_type (draft t k s h) = kind_u8 k"
  "msg_ciphertext (draft t k s h) = (if k = KPropose then Some (tr_ciphertext t) else None)"
  "msg_operator_psk_id (draft t k s h) = (if k = KPropose then Some (tr_operator_psk_id t) else None)"
  by (simp_all add: draft_def)

lemma validate_shape_draft:
  "is_ok (validate_shape (draft t k s h)) \<longleftrightarrow> tr_initiator_id t < tr_responder_id t \<and>
     (case k of
        KReady \<Rightarrow> s = tr_responder_id t
      | KInstalled \<Rightarrow> s \<in> {tr_initiator_id t, tr_responder_id t}
      | KConfirmed \<Rightarrow> s \<in> {tr_initiator_id t, tr_responder_id t}
      | _ \<Rightarrow> s = tr_initiator_id t)"
proof -
  have "validate_shape (draft t k s h) = Inr k' \<Longrightarrow> k' = k" for k'
    by (simp add: validate_shape_Ok)
  then have "is_ok (validate_shape (draft t k s h)) \<longleftrightarrow> validate_shape (draft t k s h) = Inr k"
    by (auto simp: is_ok_iff)
  then show ?thesis by (cases k) (simp_all add: validate_shape_Ok)
qed

lemma signed_Ok:
  "signed C t k s cand key = Inr m \<longleftrightarrow>
     (\<exists>h tag sig. hash C (transcript_encode t) = Inr h \<and> is_ok (validate_shape (draft t k s h)) \<and>
        hmac_tag C (if s = tr_initiator_id t then cd_initiator_confirmation cand
                    else cd_responder_confirmation cand) (envelope (draft t k s h)) = Inr tag \<and>
        sign C key (envelope (draft t k s h) @ tag) = Inr sig \<and>
        m = (draft t k s h)\<lparr>msg_tag := tag, msg_signature := sig\<rparr>)"
  unfolding signed_def Let_def bindR_Inr_iff is_ok_iff by auto

lemma signed_fields:
  assumes "signed C t k s cand key = Inr m"
  shows "msg_type m = kind_u8 k" "msg_sender_id m = s" "msg_exchange_id m = tr_exchange_id t"
    "msg_sequence m = tr_sequence t" "msg_initiator_id m = tr_initiator_id t"
    "msg_responder_id m = tr_responder_id t" "msg_network_id m = tr_network_id t"
    "msg_initiator_bundle_id m = bu_id (tr_initiator t)"
    "msg_responder_bundle_id m = bu_id (tr_responder t)"
    "hash C (transcript_encode t) = Inr (msg_transcript_hash m)"
  using assms by (auto simp: signed_Ok)

lemma signed_shape:
  assumes "signed C t k s cand key = Inr m"
  shows "validate_shape m = Inr k"
proof -
  obtain k' where "validate_shape m = Inr k'"
    using assms by (auto simp: signed_Ok is_ok_iff)
  moreover from this have "k' = k"
    using signed_fields(1) [OF assms] by (simp add: validate_shape_Ok)
  ultimately show ?thesis by simp
qed

lemma signed_authenticates:
  assumes "signature_law C"
    and "signing_public C key =
      Inr (bu_sig (if s = tr_initiator_id t then tr_initiator t else tr_responder t))"
    and "signed C t k s cand key = Inr m"
  shows "authenticate C m t = Inr ()"
proof -
  from assms(3) obtain h tag sig where m: "hash C (transcript_encode t) = Inr h"
    "is_ok (validate_shape (draft t k s h))" "sign C key (envelope (draft t k s h) @ tag) = Inr sig"
    "m = (draft t k s h)\<lparr>msg_tag := tag, msg_signature := sig\<rparr>"
    by (auto simp: signed_Ok)
  from sign_verifies [OF assms(1,2) m(3)] show ?thesis
    using m by (simp add: authenticate_Ok)
qed

lemma signed_confirms:
  assumes "signed C t k s cand key = Inr m"
  shows "confirm C m cand = Inr ()"
proof -
  from assms obtain h tag sig where m: "is_ok (validate_shape (draft t k s h))"
    "hmac_tag C (if s = tr_initiator_id t then cd_initiator_confirmation cand
        else cd_responder_confirmation cand) (envelope (draft t k s h)) = Inr tag"
    "m = (draft t k s h)\<lparr>msg_tag := tag, msg_signature := sig\<rparr>"
    by (auto simp: signed_Ok)
  then show ?thesis by (simp add: confirm_Ok confirmation_key_def)
qed

text \<open>C39. What a peer signs, the other side accepts. For every kind and either sender, a message
  built by \<open>signed\<close> over a transcript, with the sender's signing key, authenticates against that
  transcript and confirms against the same candidate: it authenticates because the signature
  law makes the bundle's public key verify it, and confirms because the tag was made with the
  sender's own confirmation key.\<close>

theorem signed_is_accepted:
  assumes "signature_law C"
    and "signing_public C key =
      Inr (bu_sig (if s = tr_initiator_id t then tr_initiator t else tr_responder t))"
    and "signed C t k s cand key = Inr m"
  shows "validate_shape m = Inr k \<and> authenticate C m t = Inr () \<and> confirm C m cand = Inr ()"
  using signed_shape [OF assms(3)] signed_authenticates [OF assms] signed_confirms [OF assms(3)] by simp

text \<open>A message is bound to one exchange. If one and the same message authenticates against
  two transcripts, they are the same transcript, unless they are two different byte strings with
  the same SHA3-256 digest: nothing of the exchange, keys and ciphertext included, can be
  exchanged under a valid message.\<close>

theorem authenticate_binds_transcript:
  assumes "authenticate C m s = Inr ()" "authenticate C m t = Inr ()"
    and "transcript_wf s" "transcript_wf t"
  shows "s = t \<or>
    (transcript_encode s \<noteq> transcript_encode t \<and> hash C (transcript_encode s) = hash C (transcript_encode t))"
  using assms transcript_inject [of s t] unfolding authenticate_Ok by auto

section \<open>A concrete exchange\<close>

definition sample_bundle :: "byte \<Rightarrow> pq_bundle" where
  "sample_bundle k = \<lparr>bu_id = replicate 16 k, bu_revision = Number 1, bu_wg = replicate 32 k,
     bu_kem = replicate 1568 0, bu_x448 = replicate 56 0, bu_sig = pad 67 [k]\<rparr>"

definition sample_transcript :: "byte \<Rightarrow> transcript" where
  "sample_transcript k = \<lparr>tr_network_id = replicate 16 1, tr_initiator_id = Number 2,
     tr_responder_id = Number 3, tr_initiator = sample_bundle 2, tr_responder = sample_bundle 3,
     tr_sequence = Number 1, tr_exchange_id = replicate 16 k, tr_operator_psk_id = replicate 16 0,
     tr_ciphertext = pad 1624 []\<rparr>"

definition sample_candidate :: candidate where
  "sample_candidate = \<lparr>cd_psk = replicate 32 1, cd_initiator_confirmation = replicate 32 2,
     cd_responder_confirmation = replicate 32 3\<rparr>"

lemma number_wf_numeral [simp]:
  "number_wf (Number 1)" "number_wf (Number 2)" "number_wf (Number 3)"
  by (simp_all add: number_wf_def i64_max_def)

lemma sample_bundle_wf: "bundle_wf (sample_bundle k)"
  by (simp add: sample_bundle_def bundle_wf_def)

lemma sample_transcript_wf: "transcript_wf (sample_transcript k)"
  by (simp add: sample_transcript_def transcript_wf_def sample_bundle_wf)

lemma sample_signed:
  "signed toy_lib (sample_transcript k) KPropose (Number 2) sample_candidate [2] = Inr
     ((draft (sample_transcript k) KPropose (Number 2) (pad 32 (drop 30 (transcript_encode (sample_transcript k)))))
        \<lparr>msg_tag := pad 32 (replicate 32 2 @ envelope (draft (sample_transcript k) KPropose (Number 2)
           (pad 32 (drop 30 (transcript_encode (sample_transcript k)))))),
         msg_signature := pad 132 (pad 67 [2])\<rparr>)"
  unfolding signed_Ok
  by (simp add: toy_ops sample_candidate_def sample_transcript_def validate_shape_draft)

theorem transcript_encode_injective_witness:
  "transcript_encode (sample_transcript 4) \<noteq> transcript_encode (sample_transcript 5)"
proof
  assume "transcript_encode (sample_transcript 4) = transcript_encode (sample_transcript 5)"
  with transcript_encode_injective [OF sample_transcript_wf sample_transcript_wf]
  have "sample_transcript 4 = sample_transcript 5" .
  then show False by (simp add: sample_transcript_def)
qed

theorem signed_is_accepted_witness:
  "\<exists>m. signed toy_lib (sample_transcript 7) KPropose (Number 2) sample_candidate [2] = Inr m \<and>
     authenticate toy_lib m (sample_transcript 7) = Inr () \<and> confirm toy_lib m sample_candidate = Inr ()"
proof -
  have pub: "signing_public toy_lib [2] = Inr (bu_sig (if Number 2 = tr_initiator_id (sample_transcript 7)
      then tr_initiator (sample_transcript 7) else tr_responder (sample_transcript 7)))"
    by (simp add: toy_ops sample_transcript_def sample_bundle_def)
  from signed_is_accepted [OF toy_signature pub sample_signed] sample_signed show ?thesis by blast
qed

text \<open>Two transcripts that differ in the ciphertext, a message that both accept, and the collision of
  the padding hash that this takes.\<close>

theorem authenticate_binds_transcript_witness:
  "\<exists>m t. t \<noteq> sample_transcript 7 \<and> authenticate toy_lib m (sample_transcript 7) = Inr () \<and>
     authenticate toy_lib m t = Inr () \<and>
     hash toy_lib (transcript_encode (sample_transcript 7)) = hash toy_lib (transcript_encode t)"
proof -
  let ?s = "sample_transcript 7"
  let ?t = "?s\<lparr>tr_ciphertext := pad 1624 [1]\<rparr>"
  have "pad 1624 ([] :: bytes) ! 0 \<noteq> pad 1624 [1] ! 0" by (simp add: pad_def)
  then have diff: "?s \<noteq> ?t" by (auto simp: sample_transcript_def)
  have wf: "transcript_wf ?t"
    using sample_transcript_wf [of 7] by (simp add: transcript_wf_def)
  have hash: "hash toy_lib (transcript_encode ?t) = hash toy_lib (transcript_encode ?s)"
    by (simp add: toy_ops pad_def transcript_encode_def sample_transcript_def)
  have "\<exists>m. signed toy_lib ?s KReady (Number 3) sample_candidate [3] = Inr m"
    unfolding signed_Ok
    by (simp add: toy_ops sample_candidate_def sample_transcript_def validate_shape_draft)
  then obtain m where m: "signed toy_lib ?s KReady (Number 3) sample_candidate [3] = Inr m" ..
  have auth: "authenticate toy_lib m ?s = Inr ()"
    using signed_authenticates [OF toy_signature _ m]
    by (auto simp: toy_ops sample_transcript_def sample_bundle_def)
  moreover have "msg_ciphertext m = None" "msg_operator_psk_id m = None"
    using m by (auto simp: signed_Ok)
  ultimately have auth': "authenticate toy_lib m ?t = Inr ()"
    by (auto simp: authenticate_Ok hash split: if_splits)
  from authenticate_binds_transcript [OF auth auth' sample_transcript_wf wf] diff auth auth'
  show ?thesis by metis
qed

end
