(* ===== verification/Decision.thy ===== *)
theory Decision
  imports Protocol
begin

text \<open>
  The transition model of one exchange (\<^verbatim>\<open>Phase\<close> and \<^verbatim>\<open>Decision\<close> of \<^verbatim>\<open>pq/src/protocol.rs\<close>). The
  mailbox server and both endpoints run the same machine, the server on the record it keeps and
  each endpoint on its own copy. The two-element arrays are pairs, the initiator's entry first.
\<close>

section \<open>The machine\<close>

datatype phase = PProposed | PReady | PCommitted | PComplete | PAborted

record decision =
  dc_phase :: phase
  dc_installed :: "bool \<times> bool"
  dc_confirmed :: "bool \<times> bool"

definition decision_default :: decision where
  "decision_default = \<lparr>dc_phase = PProposed, dc_installed = (False, False), dc_confirmed = (False, False)\<rparr>"

text \<open>The array entry of a side: index 0 is the initiator's, index 1 the responder's.\<close>

definition side_get :: "bool \<Rightarrow> bool \<times> bool \<Rightarrow> bool" where
  "side_get initiator a = (if initiator then fst a else snd a)"

definition side_set :: "bool \<Rightarrow> bool \<times> bool \<Rightarrow> bool \<times> bool" where
  "side_set initiator a = (if initiator then (True, snd a) else (fst a, True))"

definition advance :: "kind \<Rightarrow> bool \<Rightarrow> decision \<Rightarrow> decision res" where
  "advance k initiator d =
     (case (dc_phase d, k) of
        (PProposed, KReady) \<Rightarrow>
          if \<not> initiator then Ok (d\<lparr>dc_phase := PReady\<rparr>) else Err EConflict
      | (PReady, KCommit) \<Rightarrow>
          if initiator then Ok (d\<lparr>dc_phase := PCommitted\<rparr>) else Err EConflict
      | (PProposed, KAbort) \<Rightarrow>
          if initiator then Ok (d\<lparr>dc_phase := PAborted\<rparr>) else Err EConflict
      | (PReady, KAbort) \<Rightarrow>
          if initiator then Ok (d\<lparr>dc_phase := PAborted\<rparr>) else Err EConflict
      | (PCommitted, KInstalled) \<Rightarrow>
          if \<not> initiator \<or> side_get False (dc_installed d)
          then Ok (d\<lparr>dc_installed := side_set initiator (dc_installed d)\<rparr>) else Err EConflict
      | (PCommitted, KConfirmed) \<Rightarrow>
          if side_get initiator (dc_installed d) then
            let d1 = d\<lparr>dc_confirmed := side_set initiator (dc_confirmed d)\<rparr> in
            if dc_confirmed d1 = (True, True) then Ok (d1\<lparr>dc_phase := PComplete\<rparr>) else Ok d1
          else Err EConflict
      | _ \<Rightarrow> Err EConflict)"

definition expire :: "decision \<Rightarrow> decision" where
  "expire d = (if dc_phase d \<in> {PProposed, PReady} then d\<lparr>dc_phase := PAborted\<rparr> else d)"

definition terminal :: "decision \<Rightarrow> bool" where
  "terminal d \<longleftrightarrow> dc_phase d \<in> {PComplete, PAborted}"

section \<open>Runs of a transition system with a terminal phase\<close>

text \<open>
  What the server and the endpoints rely on in the machine they share, and what follows for any
  sequence of its steps, whatever order messages and expiry come in.
\<close>

locale phase_machine =
  fixes step :: "'e \<Rightarrow> 'd \<Rightarrow> 'd option"
    and expiry :: "'d \<Rightarrow> 'd"
    and final :: "'d \<Rightarrow> bool"
    and rank :: "'d \<Rightarrow> nat"
    and ok :: "'d \<Rightarrow> bool"
  assumes step_final: "final d \<Longrightarrow> step e d = None"
    and expiry_final: "final d \<Longrightarrow> expiry d = d"
    and step_rank: "step e d = Some d' \<Longrightarrow> rank d \<le> rank d'"
    and expiry_rank: "rank d \<le> rank (expiry d)"
    and step_ok: "ok d \<Longrightarrow> step e d = Some d' \<Longrightarrow> ok d'"
    and expiry_ok: "ok d \<Longrightarrow> ok (expiry d)"
begin

text \<open>A run: an event that the machine accepts moves it, a refused event leaves it, \<open>None\<close> is
  the passing of the deadline.\<close>

fun run :: "'e option list \<Rightarrow> 'd \<Rightarrow> 'd" where
  "run [] d = d"
| "run (None # es) d = run es (expiry d)"
| "run (Some e # es) d = run es (case step e d of None \<Rightarrow> d | Some d' \<Rightarrow> d')"

lemma run_append: "run (es @ fs) d = run fs (run es d)"
  by (induction es d rule: run.induct) simp_all

lemma run_final: "final d \<Longrightarrow> run es d = d"
  by (induction es d rule: run.induct) (simp_all add: step_final expiry_final)

lemma run_rank: "rank d \<le> rank (run es d)"
proof (induction es d rule: run.induct)
  case (2 es d)
  then show ?case using expiry_rank [of d] by simp
next
  case (3 e es d)
  then show ?case
    using step_rank [of e d] by (cases "step e d") (auto intro: order_trans)
qed simp

lemma run_ok: "ok d \<Longrightarrow> ok (run es d)"
proof (induction es d rule: run.induct)
  case (3 e es d)
  then show ?case by (cases "step e d") (auto intro: step_ok)
qed (auto intro: expiry_ok)

end

section \<open>The invariant of reachable decisions\<close>

definition decision_inv :: "decision \<Rightarrow> bool" where
  "decision_inv d \<longleftrightarrow>
     (dc_phase d \<in> {PProposed, PReady, PAborted} \<longrightarrow>
        dc_installed d = (False, False) \<and> dc_confirmed d = (False, False)) \<and>
     (side_get True (dc_installed d) \<longrightarrow> side_get False (dc_installed d)) \<and>
     (side_get True (dc_confirmed d) \<longrightarrow> side_get True (dc_installed d)) \<and>
     (side_get False (dc_confirmed d) \<longrightarrow> side_get False (dc_installed d)) \<and>
     (dc_phase d = PComplete \<longleftrightarrow> dc_confirmed d = (True, True))"

fun phase_rank :: "phase \<Rightarrow> nat" where
  "phase_rank PProposed = 0"
| "phase_rank PReady = 1"
| "phase_rank PCommitted = 2"
| "phase_rank PComplete = 3"
| "phase_rank PAborted = 3"

definition dc_rank :: "decision \<Rightarrow> nat" where
  "dc_rank d = 10 * phase_rank (dc_phase d) +
     of_bool (fst (dc_installed d)) + of_bool (snd (dc_installed d)) +
     of_bool (fst (dc_confirmed d)) + of_bool (snd (dc_confirmed d))"

definition dc_step :: "kind \<times> bool \<Rightarrow> decision \<Rightarrow> decision option" where
  "dc_step e d = (case advance (fst e) (snd e) d of Inr d' \<Rightarrow> Some d' | Inl _ \<Rightarrow> None)"

lemmas decision_defs = advance_def expire_def terminal_def side_get_def side_set_def Let_def

text \<open>Every accepted step, one equation per row of the match.\<close>

lemma advance_Ok:
  "advance k i d = Inr d' \<longleftrightarrow>
     (dc_phase d = PProposed \<and> k = KReady \<and> \<not> i \<and> d' = d\<lparr>dc_phase := PReady\<rparr>) \<or>
     (dc_phase d = PReady \<and> k = KCommit \<and> i \<and> d' = d\<lparr>dc_phase := PCommitted\<rparr>) \<or>
     (dc_phase d \<in> {PProposed, PReady} \<and> k = KAbort \<and> i \<and> d' = d\<lparr>dc_phase := PAborted\<rparr>) \<or>
     (dc_phase d = PCommitted \<and> k = KInstalled \<and> (\<not> i \<or> side_get False (dc_installed d)) \<and>
        d' = d\<lparr>dc_installed := side_set i (dc_installed d)\<rparr>) \<or>
     (dc_phase d = PCommitted \<and> k = KConfirmed \<and> side_get i (dc_installed d) \<and>
        d' = d\<lparr>dc_confirmed := side_set i (dc_confirmed d),
               dc_phase := if side_set i (dc_confirmed d) = (True, True) then PComplete else PCommitted\<rparr>)"
  by (cases "dc_phase d"; cases k; cases i)
     (simp_all add: advance_def Let_def side_get_def side_set_def, auto)

lemma advance_error: "advance k i d = Inl e \<Longrightarrow> e = EConflict"
  by (cases k; cases "dc_phase d") (auto simp: decision_defs split: if_splits)

lemma terminal_phase [simp]:
  "dc_phase d = PComplete \<Longrightarrow> terminal d" "dc_phase d = PAborted \<Longrightarrow> terminal d"
  by (simp_all add: terminal_def)

lemma advance_terminal: "terminal d \<Longrightarrow> advance k i d = Inl EConflict"
  by (auto simp: terminal_def advance_def split: phase.splits)

lemma advance_inv:
  assumes "decision_inv d" "advance k i d = Inr d'"
  shows "decision_inv d'"
  using assms(2) [unfolded advance_Ok] assms(1)
  by (elim disjE)
     (cases "dc_installed d"; cases "dc_confirmed d"; cases i;
      simp add: decision_inv_def side_get_def side_set_def; blast)+

lemma expire_inv: "decision_inv d \<Longrightarrow> decision_inv (expire d)"
  by (auto simp: decision_inv_def expire_def)

lemma decision_inv_default [simp]: "decision_inv decision_default"
  by (simp add: decision_inv_def decision_default_def side_get_def)

lemma dc_step_Some: "dc_step (k, i) d = Some d' \<longleftrightarrow> advance k i d = Inr d'"
  by (auto simp: dc_step_def split: sum.splits)

lemma side_set_rank:
  "of_bool (fst a) + of_bool (snd a) \<le> (of_bool (fst (side_set i a)) + of_bool (snd (side_set i a)) :: nat)"
  by (cases a; cases i) (simp_all add: side_set_def)

lemma advance_rank:
  assumes "advance k i d = Inr d'"
  shows "dc_rank d \<le> dc_rank d'"
  using assms [unfolded advance_Ok]
    side_set_rank [of "dc_installed d" i] side_set_rank [of "dc_confirmed d" i]
  by (elim disjE) (auto simp: dc_rank_def)

interpretation dm: phase_machine dc_step expire terminal dc_rank decision_inv
proof unfold_locales
  show "terminal d \<Longrightarrow> dc_step e d = None" for d e
    by (cases e) (simp add: dc_step_def advance_terminal)
  show "terminal d \<Longrightarrow> expire d = d" for d
    by (auto simp: terminal_def expire_def)
  show "dc_step e d = Some d' \<Longrightarrow> dc_rank d \<le> dc_rank d'" for e d d'
    by (cases e) (auto simp: dc_step_Some dest: advance_rank)
  show "dc_rank d \<le> dc_rank (expire d)" for d
    by (auto simp: expire_def dc_rank_def)
  show "decision_inv d \<Longrightarrow> dc_step e d = Some d' \<Longrightarrow> decision_inv d'" for e d d'
    by (cases e) (auto simp: dc_step_Some dest: advance_inv)
  show "decision_inv d \<Longrightarrow> decision_inv (expire d)" for d
    by (rule expire_inv)
qed

section \<open>Reachable decisions\<close>

inductive decision_reach :: "decision \<Rightarrow> bool" where
  reach_default: "decision_reach decision_default"
| reach_advance: "decision_reach d \<Longrightarrow> advance k i d = Inr d' \<Longrightarrow> decision_reach d'"
| reach_expire: "decision_reach d \<Longrightarrow> decision_reach (expire d)"

inductive_cases decision_reachE: "decision_reach d"

lemma reach_inv: "decision_reach d \<Longrightarrow> decision_inv d"
  by (induction rule: decision_reach.induct) (auto intro: advance_inv expire_inv)

text \<open>The receipts of a committed exchange in the one order that always works.\<close>

lemma reach_committed: "decision_reach \<lparr>dc_phase = PCommitted, dc_installed = (False, False), dc_confirmed = (False, False)\<rparr>"
proof -
  have "decision_reach \<lparr>dc_phase = PReady, dc_installed = (False, False), dc_confirmed = (False, False)\<rparr>"
    by (rule reach_advance [OF reach_default, of KReady False]) (simp add: advance_Ok decision_default_def)
  then show ?thesis
    by (rule reach_advance [of _ KCommit True]) (simp add: advance_Ok)
qed

lemma reach_receipts:
  assumes "decision_reach d" "dc_phase d = PCommitted"
  shows "decision_reach (d\<lparr>dc_installed := side_set False (dc_installed d)\<rparr>)"
    "side_get False (dc_installed d) \<Longrightarrow> decision_reach (d\<lparr>dc_installed := side_set True (dc_installed d)\<rparr>)"
    "side_get i (dc_installed d) \<Longrightarrow> side_set i (dc_confirmed d) \<noteq> (True, True) \<Longrightarrow>
      decision_reach (d\<lparr>dc_confirmed := side_set i (dc_confirmed d), dc_phase := PCommitted\<rparr>)"
    "side_get i (dc_installed d) \<Longrightarrow> side_set i (dc_confirmed d) = (True, True) \<Longrightarrow>
      decision_reach (d\<lparr>dc_confirmed := (True, True), dc_phase := PComplete\<rparr>)"
  using assms
    reach_advance [OF assms(1), of KInstalled False] reach_advance [OF assms(1), of KInstalled True]
    reach_advance [OF assms(1), of KConfirmed i]
  by (simp_all add: advance_Ok)

lemma inv_reach_committed:
  assumes inv: "decision_inv d" and ph: "dc_phase d = PCommitted"
  shows "decision_reach d"
proof -
  let ?D = "\<lambda>i c. \<lparr>dc_phase = PCommitted, dc_installed = i, dc_confirmed = c\<rparr>"
  have r00: "decision_reach (?D (False, False) (False, False))" by (rule reach_committed)
  have r01: "decision_reach (?D (False, True) (False, False))"
    using reach_receipts(1) [OF r00] by (simp add: side_set_def)
  have r11: "decision_reach (?D (True, True) (False, False))"
    using reach_receipts(2) [OF r01] by (simp add: side_set_def side_get_def)
  have c01: "decision_reach (?D (False, True) (False, True))"
    using reach_receipts(3) [OF r01, of False] by (simp add: side_set_def side_get_def)
  have c11: "decision_reach (?D (True, True) (False, True))"
    using reach_receipts(3) [OF r11, of False] by (simp add: side_set_def side_get_def)
  have c10: "decision_reach (?D (True, True) (True, False))"
    using reach_receipts(3) [OF r11, of True] by (simp add: side_set_def side_get_def)
  obtain i c where d: "d = ?D i c" using ph by (cases d) simp
  obtain a b e f where ic: "i = (a, b)" "c = (e, f)" by (cases i; cases c)
  show ?thesis
    using inv r00 r01 r11 c01 c11 c10 unfolding d ic
    by (cases a; cases b; cases e; cases f) (simp_all add: decision_inv_def side_get_def)
qed

lemma inv_reach:
  assumes "decision_inv d"
  shows "decision_reach d"
proof -
  have ready: "decision_reach \<lparr>dc_phase = PReady, dc_installed = (False, False), dc_confirmed = (False, False)\<rparr>"
    by (rule reach_advance [OF reach_default, of KReady False]) (simp add: advance_Ok decision_default_def)
  have aborted: "decision_reach \<lparr>dc_phase = PAborted, dc_installed = (False, False), dc_confirmed = (False, False)\<rparr>"
    using reach_expire [OF ready] by (simp add: expire_def)
  have "decision_inv \<lparr>dc_phase = PCommitted, dc_installed = (True, True), dc_confirmed = (False, True)\<rparr>"
    by (simp add: decision_inv_def side_get_def)
  from reach_receipts(4) [OF inv_reach_committed [OF this], of True]
  have complete: "decision_reach \<lparr>dc_phase = PComplete, dc_installed = (True, True), dc_confirmed = (True, True)\<rparr>"
    by (simp add: side_get_def side_set_def)
  show ?thesis
  proof (cases "dc_phase d = PCommitted")
    case True
    then show ?thesis using assms by (rule inv_reach_committed [rotated])
  next
    case False
    then show ?thesis
      using assms ready aborted complete reach_default
      by (cases d; cases "dc_phase d"; cases "dc_installed d"; cases "dc_confirmed d")
         (simp_all add: decision_inv_def side_get_def decision_default_def)
  qed
qed

text \<open>C38. The states an exchange can be in, whatever messages arrive in whatever order and
  whenever the deadline passes, are exactly those of the invariant: the initiator has installed
  only if the responder has, nobody has confirmed without having installed, nothing is
  installed before the commit or in an aborted exchange, and the exchange is complete exactly
  when both sides have confirmed.\<close>

theorem decision_reach_iff_inv: "decision_reach d \<longleftrightarrow> decision_inv d"
  using reach_inv inv_reach by blast

text \<open>The outcome is final and a commit is irrevocable: no sequence of messages and
  deadlines changes a complete or aborted decision, and after a commit no such sequence leads
  to an abort.\<close>

theorem decision_outcome_final:
  "(terminal d \<longrightarrow> dm.run es d = d) \<and>
   (dc_phase d = PCommitted \<longrightarrow> dc_phase (dm.run es d) \<in> {PCommitted, PComplete})"
proof (intro conjI impI)
  assume "terminal d" then show "dm.run es d = d" by (rule dm.run_final)
next
  assume "dc_phase d = PCommitted"
  then have "dc_phase d \<in> {PCommitted, PComplete}" by simp
  then show "dc_phase (dm.run es d) \<in> {PCommitted, PComplete}"
  proof (induction es d rule: dm.run.induct)
    case (2 es d)
    then have "expire d = d" by (auto simp: expire_def)
    with 2 show ?case by simp
  next
    case (3 e es d)
    obtain k i where e: "e = (k, i)" by (cases e)
    have "advance k i d = Inr d' \<Longrightarrow> dc_phase d' \<in> {PCommitted, PComplete}" for d'
      using "3.prems" by (auto simp: advance_Ok)
    then have "dc_phase (case dc_step e d of None \<Rightarrow> d | Some d' \<Rightarrow> d') \<in> {PCommitted, PComplete}"
      using "3.prems" unfolding e by (auto simp: dc_step_Some split: option.split)
    from "3.IH" [OF this] show ?case by simp
  qed simp
qed

theorem decision_outcome_final_witness:
  "terminal \<lparr>dc_phase = PAborted, dc_installed = (False, False), dc_confirmed = (False, False)\<rparr> \<and>
   dm.run [Some (KReady, False), None] \<lparr>dc_phase = PAborted, dc_installed = (False, False), dc_confirmed = (False, False)\<rparr>
     = \<lparr>dc_phase = PAborted, dc_installed = (False, False), dc_confirmed = (False, False)\<rparr> \<and>
   dc_phase (dm.run [Some (KAbort, True), None]
     \<lparr>dc_phase = PCommitted, dc_installed = (False, True), dc_confirmed = (False, False)\<rparr>) \<in> {PCommitted, PComplete}"
  using decision_outcome_final [of "\<lparr>dc_phase = PAborted, dc_installed = (False, False), dc_confirmed = (False, False)\<rparr>" "[Some (KReady, False), None]"]
    decision_outcome_final [of "\<lparr>dc_phase = PCommitted, dc_installed = (False, True), dc_confirmed = (False, False)\<rparr>" "[Some (KAbort, True), None]"]
  by (simp add: terminal_def)

text \<open>Reordering is harmless except for one race. Two messages of different sides that each
  change the same decision are accepted in either order, with the same result, unless the
  initiator's abort races the responder's ready.\<close>

theorem advance_commutes:
  assumes "decision_inv d" "advance k True d = Inr d1" "advance l False d = Inr d2"
    and "d1 \<noteq> d" "d2 \<noteq> d" "(k, l) \<noteq> (KAbort, KReady)"
  shows "advance l False d1 = advance k True d2"
proof -
  have ph: "dc_phase d = PCommitted" using assms(2,3,6) by (auto simp: advance_Ok)
  obtain a b c e where arr: "dc_installed d = (a, b)" "dc_confirmed d = (c, e)"
    by (cases "dc_installed d"; cases "dc_confirmed d")
  have k: "k = KInstalled \<and> b \<and> \<not> a \<and> d1 = d\<lparr>dc_installed := (True, b)\<rparr> \<or>
      k = KConfirmed \<and> a \<and> \<not> c \<and> d1 = d\<lparr>dc_confirmed := (True, e), dc_phase := if e then PComplete else PCommitted\<rparr>"
    using assms(1,2,4) ph arr by (cases d) (auto simp: advance_Ok side_get_def side_set_def decision_inv_def)
  have l: "l = KInstalled \<and> \<not> b \<and> d2 = d\<lparr>dc_installed := (a, True)\<rparr> \<or>
      l = KConfirmed \<and> b \<and> \<not> e \<and> d2 = d\<lparr>dc_confirmed := (c, True), dc_phase := if c then PComplete else PCommitted\<rparr>"
    using assms(1,3,5) ph arr by (cases d) (auto simp: advance_Ok side_get_def side_set_def decision_inv_def)
  show ?thesis
    using k l assms(1) ph arr
    by (cases d) (auto simp: advance_def side_get_def side_set_def Let_def decision_inv_def)
qed

text \<open>The responder's confirmation crosses the initiator's installation receipt.\<close>

theorem advance_commutes_witness:
  "advance KConfirmed False \<lparr>dc_phase = PCommitted, dc_installed = (True, True), dc_confirmed = (False, False)\<rparr>
   = advance KInstalled True \<lparr>dc_phase = PCommitted, dc_installed = (False, True), dc_confirmed = (False, True)\<rparr>"
  by (rule advance_commutes [of "\<lparr>dc_phase = PCommitted, dc_installed = (False, True), dc_confirmed = (False, False)\<rparr>"])
     (simp_all add: decision_inv_def advance_def side_get_def side_set_def Let_def)

text \<open>A committed exchange can always be finished: the receipts that are missing, the
  responder's installation first, bring any committed decision to completion.\<close>

theorem committed_completes:
  assumes "decision_inv d" "dc_phase d = PCommitted"
  shows "dc_phase (dm.run [Some (KInstalled, False), Some (KInstalled, True),
           Some (KConfirmed, False), Some (KConfirmed, True)] d) = PComplete"
  using assms
  by (cases d; cases "dc_installed d"; cases "dc_confirmed d")
     (auto simp: decision_inv_def dc_step_def advance_def side_get_def side_set_def Let_def)

theorem committed_completes_witness:
  "dc_phase (dm.run [Some (KInstalled, False), Some (KInstalled, True),
           Some (KConfirmed, False), Some (KConfirmed, True)]
     \<lparr>dc_phase = PCommitted, dc_installed = (False, True), dc_confirmed = (False, True)\<rparr>) = PComplete"
  by (rule committed_completes) (simp_all add: decision_inv_def side_get_def)

end
