(* ===== verification/Management.thy ===== *)
theory Management
  imports Protocol
begin

text \<open>
  Management-link secrets: \<^verbatim>\<open>StoredSecret\<close>, \<^verbatim>\<open>StagedLink\<close>, \<^verbatim>\<open>ManagementLink\<close> and \<^verbatim>\<open>ServerState\<close> of
  \<^verbatim>\<open>pq/src/state.rs\<close>, the secret key and enrollment of \<^verbatim>\<open>shared/src/management.rs\<close>, and the state
  updates of \<^verbatim>\<open>client-core/src/management.rs\<close>. The rotation protocol (stage, apply, confirm or
  roll back) is implemented twice, by the server's links and by the client's enrollment; its
  contract is the locale \<open>secret_rotation\<close>, interpreted on both.
\<close>

section \<open>Secrets at rest\<close>

definition secret_serialize :: "base64 \<Rightarrow> bytes \<Rightarrow> string" where
  "secret_serialize B v = b64_encode B v"

definition secret_deserialize :: "base64 \<Rightarrow> nat \<Rightarrow> string \<Rightarrow> bytes option" where
  "secret_deserialize B N text =
     (if length text \<noteq> (N + 2) div 3 * 4 then None
      else case b64_decode B text of
        None \<Rightarrow> None
      | Some v \<Rightarrow>
          if length v \<noteq> N then None
          else if b64_encode B v \<noteq> text then None
          else Some v)"

definition zero_psk :: bytes where
  "zero_psk = replicate 32 0"

section \<open>Links\<close>

record staged_link =
  sl_provision_id :: bytes
  sl_psk :: bytes

definition staged_validate :: "staged_link \<Rightarrow> unit res" where
  "staged_validate l = (if secret_same (sl_psk l) zero_psk then Err EInvalid else Ok ())"

definition staged_generate :: "'r random_source \<Rightarrow> ('r, pq_error, staged_link) comp" where
  "staged_generate fill =
     bindS (random fill 16) (\<lambda>pid.
     bindS (random fill 32) (\<lambda>psk.
     let link = \<lparr>sl_provision_id = pid, sl_psk = psk\<rparr> in
     bindS (liftS (staged_validate link)) (\<lambda>_.
     retS link)))"

record management_link =
  ml_provision_id :: bytes
  ml_psk :: bytes
  ml_verified :: bool
  ml_staged :: "staged_link option"
  ml_previous :: "staged_link option"

definition link_validate :: "management_link \<Rightarrow> unit res" where
  "link_validate l = (if secret_same (ml_psk l) zero_psk then Err EInvalid else Ok ())"

definition link_generate :: "'r random_source \<Rightarrow> ('r, pq_error, management_link) comp" where
  "link_generate fill =
     bindS (random fill 16) (\<lambda>pid.
     bindS (random fill 32) (\<lambda>psk.
     let link = \<lparr>ml_provision_id = pid, ml_psk = psk, ml_verified = False,
                 ml_staged = None, ml_previous = None\<rparr> in
     bindS (liftS (link_validate link)) (\<lambda>_.
     retS link)))"

text \<open>The rotation methods return the changed link; an error leaves the link as it was.\<close>

definition stage_rotation ::
    "'r random_source \<Rightarrow> bytes option \<Rightarrow> management_link \<Rightarrow> ('r, pq_error, management_link) comp" where
  "stage_rotation fill adopted l =
     (case ml_staged l of
        Some existing \<Rightarrow>
          (if (case adopted of None \<Rightarrow> False | Some key \<Rightarrow> \<not> secret_same key (sl_psk existing))
           then failS EConflict else retS l)
      | None \<Rightarrow>
          bindS (staged_generate fill) (\<lambda>staged.
          case adopted of
            None \<Rightarrow> retS (l\<lparr>ml_staged := Some staged\<rparr>)
          | Some secret \<Rightarrow>
              let staged1 = staged\<lparr>sl_psk := secret\<rparr> in
              bindS (liftS (staged_validate staged1)) (\<lambda>_.
              retS (l\<lparr>ml_staged := Some staged1\<rparr>))))"

definition apply_rotation :: "management_link \<Rightarrow> management_link res" where
  "apply_rotation l =
     (case ml_staged l of
        None \<Rightarrow> Err EConflict
      | Some staged \<Rightarrow>
          Ok (l\<lparr>ml_staged := None,
                ml_previous := Some \<lparr>sl_provision_id = ml_provision_id l, sl_psk = ml_psk l\<rparr>,
                ml_provision_id := sl_provision_id staged,
                ml_psk := sl_psk staged,
                ml_verified := False\<rparr>))"

definition confirm_rotation :: "management_link \<Rightarrow> management_link res" where
  "confirm_rotation l =
     (if ml_previous l = None then Err EConflict
      else if \<not> ml_verified l then Err EConflict
      else Ok (l\<lparr>ml_previous := None\<rparr>))"

definition rollback_rotation :: "management_link \<Rightarrow> management_link res" where
  "rollback_rotation l =
     (case ml_previous l of
        None \<Rightarrow> Err EConflict
      | Some previous \<Rightarrow>
          Ok (l\<lparr>ml_previous := None,
                ml_staged := None,
                ml_provision_id := sl_provision_id previous,
                ml_psk := sl_psk previous,
                ml_verified := True\<rparr>))"

definition force_active ::
    "'r random_source \<Rightarrow> bytes \<Rightarrow> management_link \<Rightarrow> ('r, pq_error, management_link) comp" where
  "force_active fill secret l =
     bindS (staged_generate fill) (\<lambda>forced0.
     let forced = forced0\<lparr>sl_psk := secret\<rparr> in
     bindS (liftS (staged_validate forced)) (\<lambda>_.
     retS (l\<lparr>ml_provision_id := sl_provision_id forced,
             ml_psk := sl_psk forced,
             ml_verified := False,
             ml_staged := None,
             ml_previous := None\<rparr>)))"

section \<open>The server's links\<close>

record server_state =
  sv_network_id :: bytes
  sv_server_id :: number
  sv_server_public_key :: bytes
  sv_links :: "(number, management_link) btree"

definition server_validate :: "server_state \<Rightarrow> unit res" where
  "server_validate s =
     bindR (guardR (\<not> (length (sv_links s) > 10000 \<or> bt_get (sv_server_id s) (sv_links s) \<noteq> None)) EInvalid) (\<lambda>_.
     for_each link_validate (bt_values (sv_links s)))"

definition provision ::
    "'r random_source \<Rightarrow> number \<Rightarrow> bytes option \<Rightarrow> server_state \<Rightarrow> ('r, pq_error, server_state) comp" where
  "provision fill peer adopted s =
     (if peer = sv_server_id s then failS EInvalid
      else case bt_get peer (sv_links s) of
        Some existing \<Rightarrow>
          (if (case adopted of None \<Rightarrow> False | Some key \<Rightarrow> \<not> secret_same key (ml_psk existing))
           then failS EConflict else retS s)
      | None \<Rightarrow>
          if length (sv_links s) \<ge> 10000 then failS EConflict
          else
            bindS (link_generate fill) (\<lambda>link.
            case adopted of
              None \<Rightarrow> retS (s\<lparr>sv_links := bt_insert peer link (sv_links s)\<rparr>)
            | Some secret \<Rightarrow>
                let link1 = link\<lparr>ml_psk := secret\<rparr> in
                bindS (liftS (link_validate link1)) (\<lambda>_.
                retS (s\<lparr>sv_links := bt_insert peer link1 (sv_links s)\<rparr>))))"

definition link_of :: "number \<Rightarrow> server_state \<Rightarrow> management_link res" where
  "link_of peer s =
     (if peer = sv_server_id s then Err EInvalid else ok_or (bt_get peer (sv_links s)) EInvalid)"

definition set_link :: "number \<Rightarrow> management_link \<Rightarrow> server_state \<Rightarrow> server_state" where
  "set_link peer l s = s\<lparr>sv_links := bt_insert peer l (sv_links s)\<rparr>"

definition server_stage_rotation ::
    "'r random_source \<Rightarrow> number \<Rightarrow> bytes option \<Rightarrow> server_state \<Rightarrow> ('r, pq_error, server_state) comp" where
  "server_stage_rotation fill peer adopted s =
     bindS (liftS (link_of peer s)) (\<lambda>l.
     bindS (stage_rotation fill adopted l) (\<lambda>l'.
     retS (set_link peer l' s)))"

definition server_apply_rotation :: "number \<Rightarrow> server_state \<Rightarrow> server_state res" where
  "server_apply_rotation peer s =
     bindR (link_of peer s) (\<lambda>l. bindR (apply_rotation l) (\<lambda>l'. Ok (set_link peer l' s)))"

definition server_confirm_rotation :: "number \<Rightarrow> server_state \<Rightarrow> server_state res" where
  "server_confirm_rotation peer s =
     bindR (link_of peer s) (\<lambda>l. bindR (confirm_rotation l) (\<lambda>l'. Ok (set_link peer l' s)))"

definition server_rollback_rotation :: "number \<Rightarrow> server_state \<Rightarrow> server_state res" where
  "server_rollback_rotation peer s =
     bindR (link_of peer s) (\<lambda>l. bindR (rollback_rotation l) (\<lambda>l'. Ok (set_link peer l' s)))"

definition server_force_active ::
    "'r random_source \<Rightarrow> number \<Rightarrow> bytes \<Rightarrow> server_state \<Rightarrow> ('r, pq_error, server_state) comp" where
  "server_force_active fill peer secret s =
     bindS (liftS (link_of peer s)) (\<lambda>l.
     bindS (force_active fill secret l) (\<lambda>l'.
     retS (set_link peer l' s)))"

section \<open>Enrollment artifacts and the client's copy\<close>

definition secret_key_from_bytes :: "bytes \<Rightarrow> bytes option" where
  "secret_key_from_bytes bs = (if bs = replicate 32 0 then None else Some bs)"

definition secret_key_deserialize :: "base64 \<Rightarrow> string \<Rightarrow> bytes option" where
  "secret_key_deserialize B text =
     (if length text \<noteq> 44 then None
      else case b64_decode B text of
        None \<Rightarrow> None
      | Some v \<Rightarrow>
          if length v \<noteq> 32 \<or> b64_encode B v \<noteq> text then None
          else secret_key_from_bytes v)"

text \<open>Peer identifiers are database keys, signed 64-bit integers.\<close>

record mgmt_enrollment =
  me_network_id :: bytes
  me_provision_id :: bytes
  me_peer_id :: "64 word"
  me_server_id :: "64 word"
  me_psk :: bytes

definition mgmt_enrollment_validate :: "mgmt_enrollment \<Rightarrow> bool" where
  "mgmt_enrollment_validate e \<longleftrightarrow>
     \<not> (sint (me_peer_id e) \<le> 0 \<or> sint (me_server_id e) \<le> 0 \<or> me_peer_id e = me_server_id e)"

record client_management =
  cm_active :: mgmt_enrollment
  cm_staged :: "mgmt_enrollment option"
  cm_previous :: "mgmt_enrollment option"

definition client_validate :: "client_management \<Rightarrow> bool" where
  "client_validate s \<longleftrightarrow> mgmt_enrollment_validate (cm_active s) \<and>
     list_all mgmt_enrollment_validate
       ((case cm_staged s of None \<Rightarrow> [] | Some e \<Rightarrow> [e]) @ (case cm_previous s of None \<Rightarrow> [] | Some e \<Rightarrow> [e]))"

text \<open>The closures that \<^verbatim>\<open>update_state\<close> applies; \<open>None\<close> is an error, which leaves the stored state.\<close>

definition client_adopt :: "mgmt_enrollment \<Rightarrow> client_management option" where
  "client_adopt e =
     (if mgmt_enrollment_validate e
      then Some \<lparr>cm_active = e, cm_staged = None, cm_previous = None\<rparr> else None)"

definition client_stage :: "mgmt_enrollment \<Rightarrow> client_management \<Rightarrow> client_management option" where
  "client_stage e s = (if mgmt_enrollment_validate e then Some (s\<lparr>cm_staged := Some e\<rparr>) else None)"

definition client_apply :: "client_management \<Rightarrow> client_management option" where
  "client_apply s =
     (case cm_staged s of
        None \<Rightarrow> None
      | Some staged \<Rightarrow> Some (s\<lparr>cm_staged := None, cm_previous := Some (cm_active s), cm_active := staged\<rparr>))"

definition client_confirm :: "client_management \<Rightarrow> client_management option" where
  "client_confirm s = (if cm_previous s = None then None else Some (s\<lparr>cm_previous := None\<rparr>))"

definition client_rollback :: "client_management \<Rightarrow> client_management option" where
  "client_rollback s =
     (case cm_previous s of
        None \<Rightarrow> None
      | Some previous \<Rightarrow> Some (s\<lparr>cm_previous := None, cm_staged := None, cm_active := previous\<rparr>))"

text \<open>\<^verbatim>\<open>update_state\<close> without the files: validate, update, validate, save.\<close>

definition client_update ::
    "(client_management \<Rightarrow> client_management option) \<Rightarrow> client_management \<Rightarrow> client_management option" where
  "client_update f s =
     (if \<not> client_validate s then None
      else case f s of
        None \<Rightarrow> None
      | Some updated \<Rightarrow> if client_validate updated then Some updated else None)"

section \<open>The contract of a rotation\<close>

text \<open>
  What an operator relies on at either end: staging leaves the live secret alone, applying
  promotes the staged secret and keeps the superseded one, confirming forgets it, and rolling
  back restores it.
\<close>

locale secret_rotation =
  fixes active :: "'s \<Rightarrow> 'k"
    and staged :: "'s \<Rightarrow> 'k option"
    and previous :: "'s \<Rightarrow> 'k option"
    and apply_op :: "'s \<Rightarrow> 's option"
    and confirm_op :: "'s \<Rightarrow> 's option"
    and rollback_op :: "'s \<Rightarrow> 's option"
    and may_confirm :: "'s \<Rightarrow> bool"
  assumes apply_None: "staged s = None \<Longrightarrow> apply_op s = None"
    and apply_Some: "staged s = Some k \<Longrightarrow> \<exists>s'. apply_op s = Some s' \<and> active s' = k \<and>
          staged s' = None \<and> previous s' = Some (active s)"
    and confirm_iff: "confirm_op s \<noteq> None \<longleftrightarrow> previous s \<noteq> None \<and> may_confirm s"
    and confirm_Some: "confirm_op s = Some s' \<Longrightarrow> active s' = active s \<and>
          staged s' = staged s \<and> previous s' = None"
    and rollback_None: "previous s = None \<Longrightarrow> rollback_op s = None"
    and rollback_Some: "previous s = Some k \<Longrightarrow> \<exists>s'. rollback_op s = Some s' \<and> active s' = k \<and>
          staged s' = None \<and> previous s' = None"
begin

lemma apply_rollback:
  assumes "apply_op s = Some t"
  shows "\<exists>u. rollback_op t = Some u \<and> active u = active s \<and> staged u = None \<and> previous u = None"
proof -
  have "staged s \<noteq> None" using assms apply_None [of s] by auto
  then obtain k where "staged s = Some k" by blast
  from apply_Some [OF this] assms have "previous t = Some (active s)" by auto
  then show ?thesis by (rule rollback_Some)
qed

lemma apply_once: "apply_op s = Some t \<Longrightarrow> apply_op t = None"
  using apply_None apply_Some by (metis not_Some_eq option.inject)

lemma rollback_once: "rollback_op s = Some t \<Longrightarrow> rollback_op t = None"
  using rollback_None rollback_Some by (metis not_Some_eq option.inject)

lemma confirm_then_stuck: "confirm_op s = Some t \<Longrightarrow> confirm_op t = None \<and> rollback_op t = None"
  using confirm_Some [of s t] confirm_iff [of t] rollback_None [of t] by auto

text \<open>No step invents a secret: what is live, staged or kept afterwards was live, staged or kept.\<close>

definition secrets :: "'s \<Rightarrow> 'k set" where
  "secrets s = insert (active s) (set_option (staged s) \<union> set_option (previous s))"

lemma secrets_step:
  assumes "apply_op s = Some t \<or> confirm_op s = Some t \<or> rollback_op s = Some t"
  shows "secrets t \<subseteq> secrets s"
  using assms
proof (elim disjE)
  assume a: "apply_op s = Some t"
  then obtain k where "staged s = Some k" using apply_None [of s] by fastforce
  with apply_Some [OF this] a show ?thesis by (auto simp: secrets_def)
next
  assume "confirm_op s = Some t"
  from confirm_Some [OF this] show ?thesis by (auto simp: secrets_def)
next
  assume a: "rollback_op s = Some t"
  then obtain k where "previous s = Some k" using rollback_None [of s] by fastforce
  with rollback_Some [OF this] a show ?thesis by (auto simp: secrets_def)
qed

end

definition ok_option :: "('e, 'a) result \<Rightarrow> 'a option" where
  "ok_option r = (case r of Inr x \<Rightarrow> Some x | Inl _ \<Rightarrow> None)"

lemma ok_option_simps [simp]:
  "ok_option (Inr x) = Some x" "ok_option (Inl e) = None"
  "ok_option r = Some x \<longleftrightarrow> r = Inr x"
  by (auto simp: ok_option_def split: sum.splits)

definition link_active :: "management_link \<Rightarrow> staged_link" where
  "link_active l = \<lparr>sl_provision_id = ml_provision_id l, sl_psk = ml_psk l\<rparr>"

interpretation link: secret_rotation link_active ml_staged ml_previous
  "\<lambda>l. ok_option (apply_rotation l)" "\<lambda>l. ok_option (confirm_rotation l)"
  "\<lambda>l. ok_option (rollback_rotation l)" ml_verified
  by unfold_locales
     (auto simp: apply_rotation_def confirm_rotation_def rollback_rotation_def link_active_def
       split: if_splits)

interpretation client: secret_rotation cm_active cm_staged cm_previous
  client_apply client_confirm client_rollback "\<lambda>s. True"
  by unfold_locales
     (auto simp: client_apply_def client_confirm_def client_rollback_def split: if_splits)

section \<open>Operations on a link as steps\<close>

datatype link_op =
    OpStage "bytes option"
  | OpApply
  | OpConfirm
  | OpRollback
  | OpForce bytes
  | OpVerified

fun link_exec ::
    "'r random_source \<Rightarrow> link_op \<Rightarrow> management_link \<Rightarrow> ('r, pq_error, management_link) comp" where
  "link_exec fill (OpStage adopted) l = stage_rotation fill adopted l"
| "link_exec fill OpApply l = liftS (apply_rotation l)"
| "link_exec fill OpConfirm l = liftS (confirm_rotation l)"
| "link_exec fill OpRollback l = liftS (rollback_rotation l)"
| "link_exec fill (OpForce secret) l = force_active fill secret l"
| "link_exec fill OpVerified l = retS (l\<lparr>ml_verified := True\<rparr>)"

inductive link_reach :: "'r random_source \<Rightarrow> management_link \<Rightarrow> bool" for fill where
  link_new: "link_generate fill r = (Inr l, r') \<Longrightarrow> link_reach fill l"
| link_adopted: "link_generate fill r = (Inr l, r') \<Longrightarrow> link_validate (l\<lparr>ml_psk := k\<rparr>) = Inr () \<Longrightarrow>
    link_reach fill (l\<lparr>ml_psk := k\<rparr>)"
| link_op: "link_reach fill l \<Longrightarrow> link_exec fill op l r = (Inr l', r') \<Longrightarrow> link_reach fill l'"

definition link_inv :: "management_link \<Rightarrow> bool" where
  "link_inv l \<longleftrightarrow> ml_psk l \<noteq> zero_psk \<and>
     pred_option (\<lambda>k. sl_psk k \<noteq> zero_psk) (ml_staged l) \<and>
     pred_option (\<lambda>k. sl_psk k \<noteq> zero_psk) (ml_previous l)"

lemma staged_generate_Ok:
  "staged_generate fill r = (Inr l, r') \<Longrightarrow> sl_psk l \<noteq> zero_psk"
  by (auto simp: staged_generate_def bindS_Inr_iff Let_def staged_validate_def secret_same_def split: if_splits)

lemma link_generate_Ok:
  "link_generate fill r = (Inr l, r') \<Longrightarrow>
   ml_psk l \<noteq> zero_psk \<and> ml_staged l = None \<and> ml_previous l = None \<and> \<not> ml_verified l"
  by (auto simp: link_generate_def bindS_Inr_iff Let_def link_validate_def secret_same_def split: if_splits)

lemma stage_rotation_Ok:
  assumes "stage_rotation fill adopted l r = (Inr l', r')"
  shows "l' = l \<and> ml_staged l \<noteq> None \<and> (\<forall>k. adopted = Some k \<longrightarrow> map_option sl_psk (ml_staged l) = Some k) \<or>
    ml_staged l = None \<and> (\<exists>s. l' = l\<lparr>ml_staged := Some s\<rparr> \<and> sl_psk s \<noteq> zero_psk \<and>
      (\<forall>k. adopted = Some k \<longrightarrow> sl_psk s = k))"
  using assms
  by (cases "ml_staged l"; cases adopted)
     (auto simp: stage_rotation_def bindS_Inr_iff Let_def staged_validate_def secret_same_def
      dest: staged_generate_Ok split: if_splits)

lemma force_active_Ok:
  assumes "force_active fill secret l r = (Inr l', r')"
  shows "ml_psk l' = secret \<and> secret \<noteq> zero_psk \<and> \<not> ml_verified l' \<and>
    ml_staged l' = None \<and> ml_previous l' = None"
  using assms
  by (auto simp: force_active_def bindS_Inr_iff Let_def staged_validate_def secret_same_def split: if_splits)

lemma rotation_Ok:
  "apply_rotation l = Inr l' \<longleftrightarrow> (\<exists>s. ml_staged l = Some s \<and>
     l' = l\<lparr>ml_staged := None, ml_previous := Some (link_active l), ml_provision_id := sl_provision_id s,
            ml_psk := sl_psk s, ml_verified := False\<rparr>)"
  "confirm_rotation l = Inr l' \<longleftrightarrow> ml_previous l \<noteq> None \<and> ml_verified l \<and> l' = l\<lparr>ml_previous := None\<rparr>"
  "rollback_rotation l = Inr l' \<longleftrightarrow> (\<exists>p. ml_previous l = Some p \<and>
     l' = l\<lparr>ml_previous := None, ml_staged := None, ml_provision_id := sl_provision_id p,
            ml_psk := sl_psk p, ml_verified := True\<rparr>)"
  by (auto simp: apply_rotation_def confirm_rotation_def rollback_rotation_def link_active_def
      split: option.splits if_splits)

lemma link_exec_inv:
  assumes "link_inv l" "link_exec fill op l r = (Inr l', r')"
  shows "link_inv l'"
  using assms
  by (cases op)
     (auto simp: link_inv_def rotation_Ok link_active_def dest!: stage_rotation_Ok force_active_Ok)

text \<open>No management link ever carries the all-zero secret, which WireGuard reads as "no preshared
  key": not the live secret, not a staged one, not one kept for roll-back, after any sequence of
  staging, applying, confirming, rolling back, forcing and verifying, and whatever the random
  source delivers or an operator supplies.\<close>

theorem link_never_zero:
  assumes "link_reach fill l"
  shows "link_inv l"
  using assms
proof (induction rule: link_reach.induct)
  case (link_op l op r l' r')
  show ?case by (rule link_exec_inv [OF link_op.IH link_op.hyps(2)])
qed (auto simp: link_inv_def link_validate_def secret_same_def dest: link_generate_Ok split: if_splits)

definition sample_fill :: "nat random_source" where
  "sample_fill n r = (Inr (replicate n (word_of_nat (r + 1))), r + 1)"

theorem link_never_zero_witness:
  "link_inv \<lparr>ml_provision_id = replicate 16 1, ml_psk = replicate 32 2, ml_verified = False,
     ml_staged = None, ml_previous = None\<rparr>"
proof (rule link_never_zero)
  show "link_reach sample_fill \<lparr>ml_provision_id = replicate 16 1, ml_psk = replicate 32 2,
      ml_verified = False, ml_staged = None, ml_previous = None\<rparr>"
    by (rule link_new [of _ 0 _ 2])
       (simp add: link_generate_def sample_fill_def random_def bindS_def link_validate_def
         secret_same_def zero_psk_def numeral_eq_Suc)
qed

text \<open>One rotation, begun on a link with a staged secret: applying makes that secret live and
  unverified and keeps the old one, it cannot be applied or confirmed again before somebody has
  verified it, a verified rotation confirms and then the old secret is gone for good, and up to
  that point rolling back restores the old secret and its provision identifier.\<close>

theorem rotation_cycle:
  assumes "apply_rotation l = Inr l1"
  shows "ml_staged l = Some (link_active l1) \<and> \<not> ml_verified l1 \<and>
    apply_rotation l1 = Inl EConflict \<and> confirm_rotation l1 = Inl EConflict \<and>
    (\<exists>l2. rollback_rotation l1 = Inr l2 \<and> link_active l2 = link_active l \<and> ml_verified l2 \<and>
       ml_staged l2 = None \<and> ml_previous l2 = None) \<and>
    (\<exists>l3. confirm_rotation (l1\<lparr>ml_verified := True\<rparr>) = Inr l3 \<and> link_active l3 = link_active l1 \<and>
       link_active l \<notin> set_option (ml_previous l3) \<and> rollback_rotation l3 = Inl EConflict)"
proof -
  obtain k where k: "ml_staged l = Some k"
    and l1: "l1 = l\<lparr>ml_staged := None, ml_previous := Some (link_active l), ml_provision_id := sl_provision_id k,
            ml_psk := sl_psk k, ml_verified := False\<rparr>"
    using assms by (auto simp: rotation_Ok)
  obtain l2 where "rollback_rotation l1 = Inr l2" "link_active l2 = link_active l"
      "ml_staged l2 = None" "ml_previous l2 = None"
    using link.apply_rollback [of l l1] assms by auto
  moreover from this have "ml_verified l2" by (auto simp: rotation_Ok)
  moreover have "confirm_rotation (l1\<lparr>ml_verified := True\<rparr>) = Inr (l1\<lparr>ml_verified := True, ml_previous := None\<rparr>)"
    by (simp add: rotation_Ok l1)
  ultimately show ?thesis
    unfolding l1 by (simp add: k link_active_def apply_rotation_def confirm_rotation_def rollback_rotation_def)
qed

theorem rotation_cycle_witness:
  "\<exists>l2. rollback_rotation \<lparr>ml_provision_id = [3], ml_psk = [4], ml_verified = False, ml_staged = None,
      ml_previous = Some \<lparr>sl_provision_id = [1], sl_psk = [2]\<rparr>\<rparr> = Inr l2 \<and>
    link_active l2 = \<lparr>sl_provision_id = [1], sl_psk = [2]\<rparr>"
  using rotation_cycle [of "\<lparr>ml_provision_id = [1], ml_psk = [2], ml_verified = True,
      ml_staged = Some \<lparr>sl_provision_id = [3], sl_psk = [4]\<rparr>, ml_previous = None\<rparr>"
      "\<lparr>ml_provision_id = [3], ml_psk = [4], ml_verified = False, ml_staged = None,
      ml_previous = Some \<lparr>sl_provision_id = [1], sl_psk = [2]\<rparr>\<rparr>"]
  by (auto simp: apply_rotation_def link_active_def)

text \<open>C40. Nothing stops a second rotation while the first is neither confirmed nor rolled back, and
  then the link forgets its last verified secret: after apply, stage, apply, rolling back leaves
  the first candidate live and marked verified, although it was never verified, and the secret
  that worked before is neither live, nor staged, nor kept.\<close>

theorem overlapping_rotation_loses_verified:
  assumes "apply_rotation l = Inr l1" "stage_rotation fill adopted l1 r = (Inr l2, r')"
    and "apply_rotation l2 = Inr l3" "rollback_rotation l3 = Inr l4"
  shows "\<not> ml_verified l1 \<and> \<not> ml_verified l2 \<and> \<not> ml_verified l3 \<and>
    ml_verified l4 \<and> link_active l4 = link_active l1 \<and> link.secrets l4 = {link_active l1}"
proof -
  have "\<not> ml_verified l1" "ml_staged l1 = None" using assms(1) by (auto simp: rotation_Ok)
  with stage_rotation_Ok [OF assms(2)] assms(3,4) show ?thesis
    by (auto simp: rotation_Ok link_active_def link.secrets_def)
qed

theorem overlapping_rotation_loses_verified_witness:
  "\<exists>l4. rollback_rotation \<lparr>ml_provision_id = [1], ml_psk = [5], ml_verified = False, ml_staged = None,
      ml_previous = Some \<lparr>sl_provision_id = [3], sl_psk = [4]\<rparr>\<rparr> = Inr l4 \<and> ml_verified l4"
proof -
  let ?l = "\<lparr>ml_provision_id = [1], ml_psk = [2], ml_verified = True,
      ml_staged = Some \<lparr>sl_provision_id = [3], sl_psk = [4]\<rparr>, ml_previous = None\<rparr>"
  let ?l1 = "\<lparr>ml_provision_id = [3], ml_psk = [4], ml_verified = False, ml_staged = None,
      ml_previous = Some \<lparr>sl_provision_id = [1], sl_psk = [2]\<rparr>\<rparr>"
  let ?l2 = "?l1\<lparr>ml_staged := Some \<lparr>sl_provision_id = [1], sl_psk = [5]\<rparr>\<rparr>"
  let ?l3 = "\<lparr>ml_provision_id = [1], ml_psk = [5], ml_verified = False, ml_staged = None,
      ml_previous = Some \<lparr>sl_provision_id = [3], sl_psk = [4]\<rparr>\<rparr>"
  let ?l4 = "\<lparr>ml_provision_id = [3], ml_psk = [4], ml_verified = True, ml_staged = None, ml_previous = None\<rparr>"
  let ?fill = "(\<lambda>n r. (Inr [1], r)) :: unit random_source"
  have "apply_rotation ?l = Inr ?l1" "apply_rotation ?l2 = Inr ?l3" "rollback_rotation ?l3 = Inr ?l4"
    by (simp_all add: apply_rotation_def rollback_rotation_def)
  moreover have "stage_rotation ?fill (Some [5]) ?l1 () = (Inr ?l2, ())"
    by (simp add: stage_rotation_def staged_generate_def random_def bindS_def staged_validate_def
        secret_same_def zero_psk_def numeral_eq_Suc)
  ultimately have "ml_verified ?l4"
    using overlapping_rotation_loses_verified [of ?l ?l1 ?fill "Some [5]" "()" ?l2 "()" ?l3 ?l4] by blast
  then show ?thesis by (simp add: rollback_rotation_def)
qed

section \<open>The server's table of links\<close>

definition server_inv :: "server_state \<Rightarrow> bool" where
  "server_inv s \<longleftrightarrow> bt_wf (sv_links s) \<and> bt_get (sv_server_id s) (sv_links s) = None \<and>
     length (sv_links s) \<le> 10000 \<and> (\<forall>p l. bt_get p (sv_links s) = Some l \<longrightarrow> link_inv l)"

lemma link_of_Ok: "link_of p s = Inr l \<longleftrightarrow> p \<noteq> sv_server_id s \<and> bt_get p (sv_links s) = Some l"
  by (auto simp: link_of_def)

lemma set_link_inv:
  assumes "server_inv s" "link_of p s = Inr l" "link_inv l'"
  shows "server_inv (set_link p l' s)"
proof -
  have "length (bt_insert p l' (sv_links s)) = length (sv_links s)"
    using assms(1,2) length_bt_insert [of "sv_links s" p l'] by (simp add: server_inv_def link_of_Ok)
  then show ?thesis
    using assms by (auto simp: server_inv_def set_link_def link_of_Ok)
qed

lemma provision_inv:
  assumes "server_inv s" "provision fill p adopted s r = (Inr s', r')"
  shows "server_inv s'"
proof (cases "bt_get p (sv_links s)")
  case (Some l)
  then show ?thesis
    using assms by (cases adopted) (auto simp: provision_def split: if_splits)
next
  case None
  then obtain l where s': "s' = s\<lparr>sv_links := bt_insert p l (sv_links s)\<rparr>" and l: "link_inv l"
    and p: "p \<noteq> sv_server_id s" and small: "length (sv_links s) < 10000"
    using assms(2)
    by (cases adopted)
       (auto simp: provision_def bindS_Inr_iff Let_def link_inv_def link_validate_def secret_same_def
         dest!: link_generate_Ok split: if_splits)
  have "length (bt_insert p l (sv_links s)) \<le> 10000"
    using length_bt_insert [of "sv_links s" p l] assms(1) small by (simp add: server_inv_def)
  with assms(1) s' l p show ?thesis by (auto simp: server_inv_def)
qed

lemma server_inv_valid:
  assumes "server_inv s"
  shows "server_validate s = Inr ()"
proof -
  have "link_validate l = Inr ()" if "l \<in> set (bt_values (sv_links s))" for l
  proof -
    from that obtain p where "(p, l) \<in> set (sv_links s)" by (auto simp: bt_values_def)
    with assms have "link_inv l" by (auto simp: server_inv_def bt_get_mem)
    then show ?thesis by (simp add: link_inv_def link_validate_def secret_same_def)
  qed
  with assms show ?thesis by (simp add: server_validate_def server_inv_def bindR_Inr_iff)
qed

lemmas server_step_defs = server_stage_rotation_def server_apply_rotation_def server_confirm_rotation_def
  server_rollback_rotation_def server_force_active_def

text \<open>The server's private state stays valid: provisioning a peer and every rotation step for a
  peer keep the server itself without a link, the table within its bound and every link's
  secrets nonzero, and what they produce passes the validation that the next start performs.\<close>

theorem server_operations_valid:
  assumes "server_inv s"
    and "provision fill p adopted s r = (Inr s', r') \<or>
      server_stage_rotation fill p adopted s r = (Inr s', r') \<or>
      server_apply_rotation p s = Inr s' \<or> server_confirm_rotation p s = Inr s' \<or>
      server_rollback_rotation p s = Inr s' \<or> server_force_active fill p secret s r = (Inr s', r')"
  shows "server_inv s' \<and> server_validate s' = Inr ()"
proof -
  have step: "server_inv (set_link p l' s)"
    if "link_of p s = Inr l" "link_exec fill op l r = (Inr l', r'')" for l op l' r''
    using set_link_inv [OF assms(1) that(1)] link_exec_inv [OF _ that(2)] assms(1) that(1)
    by (auto simp: server_inv_def link_of_Ok)
  have "server_inv s'"
    using assms(2)
  proof (elim disjE)
    assume "provision fill p adopted s r = (Inr s', r')"
    with assms(1) show ?thesis by (rule provision_inv)
  qed (use step [of _ "OpStage adopted"] step [of _ OpApply] step [of _ OpConfirm] step [of _ OpRollback]
         step [of _ "OpForce secret"] in \<open>auto simp: server_step_defs bindS_Inr_iff bindR_Inr_iff\<close>)
  then show ?thesis using server_inv_valid by simp
qed

lemma short_psk: "length k \<noteq> 32 \<Longrightarrow> k \<noteq> zero_psk"
  by (auto simp: zero_psk_def)

definition sample_server :: server_state where
  "sample_server = \<lparr>sv_network_id = [1], sv_server_id = Number 9, sv_server_public_key = [1],
     sv_links = [(Number 1, \<lparr>ml_provision_id = [1], ml_psk = [2], ml_verified = True,
       ml_staged = Some \<lparr>sl_provision_id = [3], sl_psk = [4]\<rparr>, ml_previous = None\<rparr>)]\<rparr>"

theorem server_operations_valid_witness:
  "\<exists>s'. server_apply_rotation (Number 1) sample_server = Inr s' \<and> server_validate s' = Inr ()"
proof -
  have "server_inv sample_server"
    by (auto simp: server_inv_def sample_server_def bt_wf_def bt_get_def link_inv_def short_psk
        split: if_splits)
  moreover obtain s' where s': "server_apply_rotation (Number 1) sample_server = Inr s'"
    by (simp add: server_apply_rotation_def sample_server_def link_of_def bt_get_def apply_rotation_def)
  ultimately show ?thesis
    using server_operations_valid [of sample_server sample_fill "Number 1" None 0 s' 0 "[]"] by blast
qed

end
