(* ===== verification/Api.thy ===== *)
theory Api
  imports Decision
begin

text \<open>
  The public, versioned objects of \<^verbatim>\<open>pq/src/api.rs\<close>: registrations, advertised bundles, the
  exchange records of the mailbox and their compaction. The JSON decoders and encoders are
  parameters.
\<close>

datatype lifecycle = LEnabled | LRetired

record advertised_bundle =
  ab_version :: u8
  ab_lifecycle :: lifecycle
  ab_bundle :: pq_bundle

record registration =
  rg_expected_revision :: "number option"
  rg_version :: u8
  rg_lifecycle :: lifecycle
  rg_bundle :: pq_bundle
  rg_emergency :: bool

definition registration_parse ::
    "crypto_lib \<Rightarrow> (bytes \<Rightarrow> registration option) \<Rightarrow> bytes \<Rightarrow> registration res" where
  "registration_parse C json body =
     bindR (guardR (\<not> length body > request_limit) EInvalid) (\<lambda>_.
     bindR (ok_or (json body) EInvalid) (\<lambda>value.
     bindR (guardR (\<not> (rg_version value \<noteq> 1 \<or>
         (rg_emergency value \<and> rg_lifecycle value \<noteq> LRetired))) EInvalid) (\<lambda>_.
     bindR (bundle_validate C (rg_bundle value)) (\<lambda>_.
     Ok value))))"

record message_digest =
  md_sender_id :: number
  md_type :: u8
  md_digest :: bytes

text \<open>\<^verbatim>\<open>serde_json::to_vec\<close> of a message is the parameter \<open>json\<close>.\<close>

definition message_digest_of ::
    "crypto_lib \<Rightarrow> (message \<Rightarrow> bytes option) \<Rightarrow> message \<Rightarrow> message_digest res" where
  "message_digest_of C json m =
     bindR (ok_or (json m) EInvalid) (\<lambda>body.
     bindR (hash C body) (\<lambda>d.
     Ok \<lparr>md_sender_id = msg_sender_id m, md_type = msg_type m, md_digest = d\<rparr>))"

record exchange =
  ex_network_id :: bytes
  ex_initiator_id :: number
  ex_responder_id :: number
  ex_initiator_bundle_id :: bytes
  ex_responder_bundle_id :: bytes
  ex_sequence :: number
  ex_exchange_id :: bytes
  ex_transcript_hash :: bytes
  ex_decision :: decision
  ex_created_at :: u64
  ex_prepare_expires_at :: u64
  ex_transcript :: "transcript option"
  ex_messages :: "message list"
  ex_receipts :: "message_digest list"
  ex_termination :: "string option"

definition compact :: "exchange \<Rightarrow> exchange" where
  "compact e = (if terminal (ex_decision e) then e\<lparr>ex_transcript := None, ex_messages := []\<rparr> else e)"

record ('p, 'c) state_page =
  pg_version :: u8
  pg_network_id :: bytes
  pg_visibility_revision :: number
  pg_peers :: "('p \<times> bool \<times> advertised_bundle option) list"
  pg_cidrs :: "'c list"
  pg_exchanges :: "exchange list"
  pg_next_cursor :: "string option"

lemma registration_parse_Ok:
  "registration_parse C json body = Inr r \<Longrightarrow>
   length body \<le> 8192 \<and> json body = Some r \<and> rg_version r = 1 \<and>
   (rg_emergency r \<longrightarrow> rg_lifecycle r = LRetired) \<and> bundle_validate C (rg_bundle r) = Inr ()"
  by (auto simp: registration_parse_def bindR_Inr_iff request_limit_def)

lemma compact_idem [simp]: "compact (compact e) = compact e"
  by (simp add: compact_def)

lemma compact_fields [simp]:
  "ex_decision (compact e) = ex_decision e" "ex_sequence (compact e) = ex_sequence e"
  "ex_exchange_id (compact e) = ex_exchange_id e" "ex_receipts (compact e) = ex_receipts e"
  "ex_initiator_id (compact e) = ex_initiator_id e" "ex_responder_id (compact e) = ex_responder_id e"
  "ex_initiator_bundle_id (compact e) = ex_initiator_bundle_id e"
  "ex_responder_bundle_id (compact e) = ex_responder_bundle_id e"
  "ex_termination (compact e) = ex_termination e" "ex_network_id (compact e) = ex_network_id e"
  "ex_prepare_expires_at (compact e) = ex_prepare_expires_at e" "ex_created_at (compact e) = ex_created_at e"
  "ex_transcript_hash (compact e) = ex_transcript_hash e"
  by (simp_all add: compact_def)

end
