(* ===== verification/Endpoint.thy ===== *)
theory Endpoint
  imports Api Management
begin

text \<open>
  The private snapshot of one endpoint (\<^verbatim>\<open>Identity\<close> and \<^verbatim>\<open>EndpointState\<close> of \<^verbatim>\<open>pq/src/state.rs\<close>): its
  identity, its registration with the mailbox, and one relationship per data peer, with the
  transitions that directory fetches and administrators cause. The exchange-driving transition
  is in \<open>Engine\<close>. A method whose errors precede every change returns the new state or an error.
\<close>

section \<open>Identity\<close>

datatype policy = PolStrict | PolPermissive | PolRetired

datatype enrollment = EnRegistering | EnAdvertised | EnRetiring | EnRetired

datatype rel_status = RsAdvertised | RsLegacy | RsPreparing | RsRecovering | RsConfirmed | RsBlocked

record identity =
  id_bundle :: pq_bundle
  id_kem :: bytes
  id_x448 :: bytes
  id_signing :: bytes

definition identity_generate ::
    "crypto_lib \<Rightarrow> 'r random_source \<Rightarrow> bytes \<Rightarrow> number \<Rightarrow> ('r, pq_error, identity) comp" where
  "identity_generate C fill wg revision =
     bindS (random fill 16) (\<lambda>bid.
     bindS (hybrid_keypair C fill) (\<lambda>(hybrid, private).
     bindS (signing_keypair C fill) (\<lambda>(signing, signing_private).
     retS \<lparr>id_bundle = \<lparr>bu_id = bid, bu_revision = revision, bu_wg = wg, bu_kem = hp_kem hybrid,
             bu_x448 = hp_x448 hybrid, bu_sig = signing\<rparr>,
           id_kem = hs_kem private, id_x448 = hs_x448 private, id_signing = signing_private\<rparr>)))"

definition hybrid_secret :: "identity \<Rightarrow> hybrid_secret_key" where
  "hybrid_secret i = \<lparr>hs_kem = id_kem i, hs_x448 = id_x448 i\<rparr>"

definition identity_validate :: "crypto_lib \<Rightarrow> identity \<Rightarrow> unit res" where
  "identity_validate C i =
     bindR (bundle_validate C (id_bundle i)) (\<lambda>_.
     bindR (hybrid_public C (hybrid_secret i)) (\<lambda>public.
     bindR (guardR (\<not> (hp_kem public \<noteq> bu_kem (id_bundle i) \<or> hp_x448 public \<noteq> bu_x448 (id_bundle i))) EInvalid) (\<lambda>_.
     bindR (signing_public C (id_signing i)) (\<lambda>spub.
     guardR (\<not> spub \<noteq> bu_sig (id_bundle i)) EInvalid))))"

section \<open>Relationships\<close>

text \<open>\<^verbatim>\<open>CandidateSecrets\<close> stores the three secrets of a candidate, so both are one record.\<close>

record pending =
  pd_transcript :: transcript
  pd_candidate :: candidate
  pd_decision :: decision
  pd_outbox :: "message list"
  pd_installation_intent :: bool
  pd_installed :: bool
  pd_confirmed :: bool
  pd_attempts :: u32
  pd_next_retry_at :: u64

record confirmed_psk =
  cf_local_bundle_id :: bytes
  cf_remote_bundle_id :: bytes
  cf_sequence :: number
  cf_exchange_id :: bytes
  cf_transcript_hash :: bytes
  cf_psk :: bytes
  cf_completed_at :: u64

record activity =
  ac_rx_bytes :: u64
  ac_tx_bytes :: u64
  ac_last_active_at :: u64

record relationship =
  rel_remote :: pq_bundle
  rel_sequence :: number
  rel_prior_pq :: bool
  rel_operator_psk_id :: bytes
  rel_operator_psk :: bytes
  rel_confirmed :: "confirmed_psk option"
  rel_pending :: "pending option"
  rel_gated :: bool
  rel_status :: rel_status
  rel_activity :: "activity option"

record endpoint =
  ep_network_id :: bytes
  ep_peer_id :: number
  ep_server_id :: number
  ep_server_public_key :: bytes
  ep_policy :: policy
  ep_identity :: identity
  ep_enrollment :: enrollment
  ep_registration :: registration
  ep_management :: management_link
  ep_relationships :: "(number, relationship) btree"

section \<open>Validation of a loaded snapshot\<close>

definition pending_validate :: "crypto_lib \<Rightarrow> endpoint \<Rightarrow> number \<Rightarrow> relationship \<Rightarrow> pending \<Rightarrow> unit res" where
  "pending_validate C ep other rel p =
     (let t = pd_transcript p in
      bindR (transcript_validate C t) (\<lambda>_.
      bindR (guardR (\<not> (tr_network_id t \<noteq> ep_network_id ep
          \<or> tr_initiator_id t \<noteq> min (ep_peer_id ep) other
          \<or> tr_responder_id t \<noteq> max (ep_peer_id ep) other
          \<or> tr_sequence t > rel_sequence rel
          \<or> length (pd_outbox p) > 8)) EInvalid) (\<lambda>_.
      let local = (if ep_peer_id ep < other then tr_initiator t else tr_responder t);
          remote = (if ep_peer_id ep < other then tr_responder t else tr_initiator t) in
      bindR (guardR (\<not> (local \<noteq> id_bundle (ep_identity ep) \<or> remote \<noteq> rel_remote rel)) EInvalid) (\<lambda>_.
      for_each (\<lambda>m.
        bindR (guardR (\<not> msg_sender_id m \<noteq> ep_peer_id ep) EInvalid) (\<lambda>_.
        bindR (authenticate C m t) (\<lambda>_.
        confirm C m (pd_candidate p)))) (pd_outbox p)))))"

definition relationship_validate :: "crypto_lib \<Rightarrow> endpoint \<Rightarrow> number \<times> relationship \<Rightarrow> unit res" where
  "relationship_validate C ep entry =
     (case entry of (other, rel) \<Rightarrow>
      bindR (guardR (\<not> (other = ep_peer_id ep \<or> other = ep_server_id ep)) EInvalid) (\<lambda>_.
      bindR (bundle_validate C (rel_remote rel)) (\<lambda>_.
      case rel_pending rel of
        None \<Rightarrow> Ok ()
      | Some p \<Rightarrow> pending_validate C ep other rel p)))"

definition endpoint_validate :: "crypto_lib \<Rightarrow> endpoint \<Rightarrow> unit res" where
  "endpoint_validate C ep =
     bindR (guardR (\<not> (ep_peer_id ep = ep_server_id ep \<or> length (ep_relationships ep) > 10000)) EInvalid) (\<lambda>_.
     bindR (identity_validate C (ep_identity ep)) (\<lambda>_.
     bindR (link_validate (ep_management ep)) (\<lambda>_.
     bindR (guardR (\<not> rg_bundle (ep_registration ep) \<noteq> id_bundle (ep_identity ep)) EInvalid) (\<lambda>_.
     for_each (relationship_validate C ep) (ep_relationships ep)))))"

section \<open>Registration and replacement\<close>

definition block_relationship :: "relationship \<Rightarrow> relationship" where
  "block_relationship r = r\<lparr>rel_gated := True, rel_status := RsBlocked\<rparr>"

definition replace_identity :: "crypto_lib \<Rightarrow> identity \<Rightarrow> endpoint \<Rightarrow> endpoint res" where
  "replace_identity C i ep =
     bindR (guardR (\<not> list_ex (\<lambda>r. rel_pending r \<noteq> None) (bt_values (ep_relationships ep))) EConflict) (\<lambda>_.
     let old = id_bundle (ep_identity ep) in
     bindR (guardR (\<not> (bu_wg (id_bundle i) \<noteq> bu_wg old \<or> bu_id (id_bundle i) = bu_id old)) EInvalid) (\<lambda>_.
     bindR (number_next (bu_revision old)) (\<lambda>next.
     bindR (guardR (\<not> bu_revision (id_bundle i) \<noteq> next) EInvalid) (\<lambda>_.
     bindR (identity_validate C i) (\<lambda>_.
     Ok (ep\<lparr>ep_registration := \<lparr>rg_expected_revision = Some (bu_revision old), rg_version = 1,
                rg_lifecycle = LEnabled, rg_bundle = id_bundle i, rg_emergency = False\<rparr>,
            ep_identity := i,
            ep_enrollment := EnRegistering,
            ep_relationships := bt_map block_relationship (ep_relationships ep)\<rparr>))))))"

definition accept_registration :: "advertised_bundle \<Rightarrow> endpoint \<Rightarrow> endpoint res" where
  "accept_registration adv ep =
     bindR (guardR (\<not> (ab_bundle adv \<noteq> rg_bundle (ep_registration ep)
         \<or> ab_lifecycle adv \<noteq> rg_lifecycle (ep_registration ep)
         \<or> ab_version adv \<noteq> 1)) EConflict) (\<lambda>_.
     Ok (ep\<lparr>ep_enrollment := (if ab_lifecycle adv = LEnabled then EnAdvertised else EnRetired)\<rparr>))"

definition disable :: "endpoint \<Rightarrow> endpoint res" where
  "disable ep =
     (if ep_enrollment ep = EnRetiring \<or> rg_lifecycle (ep_registration ep) = LRetired then Err EConflict
      else Ok (ep\<lparr>ep_registration := \<lparr>rg_expected_revision = Some (bu_revision (id_bundle (ep_identity ep))),
                     rg_version = 1, rg_lifecycle = LRetired, rg_bundle = id_bundle (ep_identity ep),
                     rg_emergency = False\<rparr>,
                  ep_enrollment := EnRetiring,
                  ep_relationships := bt_map (\<lambda>r. r\<lparr>rel_pending := None\<rparr>) (ep_relationships ep)\<rparr>))"

definition emergency_retire :: "endpoint \<Rightarrow> endpoint" where
  "emergency_retire ep =
     ep\<lparr>ep_registration := \<lparr>rg_expected_revision = Some (bu_revision (id_bundle (ep_identity ep))),
           rg_version = 1, rg_lifecycle = LRetired, rg_bundle = id_bundle (ep_identity ep),
           rg_emergency = True\<rparr>,
        ep_enrollment := EnRetiring,
        ep_relationships := bt_map (\<lambda>r. r\<lparr>rel_pending := None, rel_confirmed := None,
           rel_gated := True, rel_status := RsBlocked\<rparr>) (ep_relationships ep)\<rparr>"

section \<open>Directory observations\<close>

definition new_relationship :: "pq_bundle \<Rightarrow> relationship" where
  "new_relationship b =
     \<lparr>rel_remote = b, rel_sequence = Number 1, rel_prior_pq = False,
      rel_operator_psk_id = replicate 16 0, rel_operator_psk = replicate 32 0,
      rel_confirmed = None, rel_pending = None, rel_gated = False, rel_status = RsAdvertised,
      rel_activity = None\<rparr>"

text \<open>The refresh of a known remote: drop the pending exchange that is pinned to the old bundle.\<close>

definition refresh_remote :: "bool \<Rightarrow> pq_bundle \<Rightarrow> relationship \<Rightarrow> relationship" where
  "refresh_remote initiator b r =
     (let previous = rel_remote r;
          r1 = r\<lparr>rel_remote := b\<rparr> in
      if bu_id b \<noteq> bu_id previous then
        (case rel_pending r1 of
           None \<Rightarrow> r1
         | Some p \<Rightarrow>
             let slot = (if initiator then tr_responder (pd_transcript p) else tr_initiator (pd_transcript p)) in
             if bu_id slot = bu_id previous then r1\<lparr>rel_pending := None\<rparr> else r1)
      else r1)"

definition apply_lifecycle :: "lifecycle \<Rightarrow> relationship \<Rightarrow> relationship" where
  "apply_lifecycle lc r =
     (if lc = LRetired then r\<lparr>rel_status := RsBlocked, rel_pending := None\<rparr>
      else if rel_status r = RsBlocked \<and> \<not> rel_gated r then r\<lparr>rel_status := RsAdvertised\<rparr>
      else r)"

definition observe_remote ::
    "crypto_lib \<Rightarrow> number \<Rightarrow> pq_bundle \<Rightarrow> lifecycle \<Rightarrow> endpoint \<Rightarrow> endpoint res" where
  "observe_remote C other b lc ep =
     bindR (guardR (\<not> (other = ep_peer_id ep \<or> other = ep_server_id ep)) EInvalid) (\<lambda>_.
     bindR (bundle_validate C b) (\<lambda>_.
     case bt_get other (ep_relationships ep) of
       None \<Rightarrow>
         if lc = LRetired then Err EInvalid
         else Ok (ep\<lparr>ep_relationships :=
           bt_insert other (apply_lifecycle lc (new_relationship b)) (ep_relationships ep)\<rparr>)
     | Some r \<Rightarrow>
         bindR (guardR (\<not> (bu_revision b < bu_revision (rel_remote r)
             \<or> (bu_revision b = bu_revision (rel_remote r) \<and> b \<noteq> rel_remote r))) EConflict) (\<lambda>_.
         Ok (ep\<lparr>ep_relationships := bt_insert other
           (apply_lifecycle lc (refresh_remote (ep_peer_id ep < other) b r)) (ep_relationships ep)\<rparr>))))"

definition observe_activity :: "number \<Rightarrow> u64 \<Rightarrow> u64 \<Rightarrow> u64 \<Rightarrow> endpoint \<Rightarrow> endpoint res" where
  "observe_activity other now rx tx ep =
     bindR (ok_or (bt_get other (ep_relationships ep)) EInvalid) (\<lambda>r.
     let changed = (case rel_activity r of
           None \<Rightarrow> True
         | Some a \<Rightarrow> ac_rx_bytes a \<noteq> rx \<or> ac_tx_bytes a \<noteq> tx) in
     if changed then
       Ok (ep\<lparr>ep_relationships := bt_insert other
         (r\<lparr>rel_activity := Some \<lparr>ac_rx_bytes = rx, ac_tx_bytes = tx, ac_last_active_at = now\<rparr>\<rparr>)
         (ep_relationships ep)\<rparr>)
     else Ok ep)"

end
