(* ===== verification/Engine.thy ===== *)
theory Engine
  imports Endpoint
begin

text \<open>
  The exchange-driving engine of \<^verbatim>\<open>pq/src/engine.rs\<close>. \<^verbatim>\<open>reconcile\<close> borrows one relationship, the
  installer and the random source mutably, so the state of its parts is the record of those
  three, returned on the error path too. It is cut where the source has its blocks: the due test
  and the new proposal of the initiator, the answer of the responder, the absorption of the
  server's record, and the retry and phase match that drive a pending exchange.
\<close>

section \<open>Installers\<close>

record 'i installer =
  in_install :: "pq_bundle \<Rightarrow> candidate \<Rightarrow> ('i, pq_error, unit) comp"
  in_fresh :: "pq_bundle \<Rightarrow> ('i, pq_error, bool) comp"

record fake_state =
  fk_installed :: "bytes \<Rightarrow> bytes option"
  fk_seen :: "bytes set"

definition fake_installer :: "fake_state installer" where
  "fake_installer =
     \<lparr>in_install = \<lambda>b cand. modS (\<lambda>s. s\<lparr>fk_installed := (fk_installed s)(bu_id b \<mapsto> cd_psk cand),
                                         fk_seen := fk_seen s - {bu_id b}\<rparr>),
      in_fresh = \<lambda>b s. (Inr (bu_id b \<notin> fk_seen s), s\<lparr>fk_seen := insert (bu_id b) (fk_seen s)\<rparr>)\<rparr>"

datatype action = Send message | ActComplete | ActNone

section \<open>The durability test\<close>

definition same_exchange :: "exchange \<Rightarrow> pending \<Rightarrow> bool" where
  "same_exchange e p \<longleftrightarrow> ex_exchange_id e = tr_exchange_id (pd_transcript p) \<and>
     ex_sequence e = tr_sequence (pd_transcript p)"

definition durably_sent :: "exchange option \<Rightarrow> pending \<Rightarrow> number \<Rightarrow> bool" where
  "durably_sent remote p self_id =
     (case remote of
        None \<Rightarrow> False
      | Some e \<Rightarrow>
          if \<not> same_exchange e p then False
          else if terminal (ex_decision e) then True
          else if pd_outbox p = [] then True
          else list_ex (\<lambda>m. msg_sender_id m = self_id \<and> msg_type m = msg_type (last (pd_outbox p)))
                 (ex_messages e))"

section \<open>The state of one call\<close>

record ('i, 'r) eng =
  eg_rel :: relationship
  eg_inst :: 'i
  eg_rng :: 'r

definition on_rng :: "('r, pq_error, 'a) comp \<Rightarrow> (('i, 'r) eng, pq_error, 'a) comp" where
  "on_rng m s = (case m (eg_rng s) of (x, g) \<Rightarrow> (x, s\<lparr>eg_rng := g\<rparr>))"

definition on_inst :: "('i, pq_error, 'a) comp \<Rightarrow> (('i, 'r) eng, pq_error, 'a) comp" where
  "on_inst m s = (case m (eg_inst s) of (x, g) \<Rightarrow> (map_err (\<lambda>_. EInstaller) x, s\<lparr>eg_inst := g\<rparr>))"

definition upd_rel :: "(relationship \<Rightarrow> relationship) \<Rightarrow> (('i, 'r) eng, pq_error, unit) comp" where
  "upd_rel f = modS (\<lambda>s. s\<lparr>eg_rel := f (eg_rel s)\<rparr>)"

definition set_pending :: "pending option \<Rightarrow> (('i, 'r) eng, pq_error, unit) comp" where
  "set_pending p = upd_rel (\<lambda>r. r\<lparr>rel_pending := p\<rparr>)"

section \<open>Starting an exchange\<close>

definition rotation_due :: "u64 \<Rightarrow> u64 \<Rightarrow> u64 \<Rightarrow> relationship \<Rightarrow> bool" where
  "rotation_due now rotation_interval idle_timeout r =
     (case rel_confirmed r of
        None \<Rightarrow> True
      | Some c \<Rightarrow>
          let interval_elapsed = (sat_sub64 now (cf_completed_at c) \<ge> rotation_interval);
              idle_paused = (idle_timeout \<noteq> 0 \<and>
                (case rel_activity r of
                   None \<Rightarrow> False
                 | Some a \<Rightarrow> sat_sub64 now (ac_last_active_at a) \<ge> idle_timeout)) in
          interval_elapsed \<and> \<not> idle_paused)"

definition fresh_pending :: "transcript \<Rightarrow> candidate \<Rightarrow> decision \<Rightarrow> message \<Rightarrow> pending" where
  "fresh_pending t cand d m =
     \<lparr>pd_transcript = t, pd_candidate = cand, pd_decision = d, pd_outbox = [m],
      pd_installation_intent = False, pd_installed = False, pd_confirmed = False,
      pd_attempts = 0, pd_next_retry_at = 0\<rparr>"

definition proposal_transcript :: "endpoint \<Rightarrow> number \<Rightarrow> relationship \<Rightarrow> bytes \<Rightarrow> bytes \<Rightarrow> transcript" where
  "proposal_transcript ep other rel exchange_id ciphertext =
     \<lparr>tr_network_id = ep_network_id ep, tr_initiator_id = ep_peer_id ep, tr_responder_id = other,
      tr_initiator = id_bundle (ep_identity ep), tr_responder = rel_remote rel,
      tr_sequence = rel_sequence rel, tr_exchange_id = exchange_id,
      tr_operator_psk_id = rel_operator_psk_id rel, tr_ciphertext = ciphertext\<rparr>"

definition build_proposal ::
    "crypto_lib \<Rightarrow> 'r random_source \<Rightarrow> bytes \<Rightarrow> endpoint \<Rightarrow> number \<Rightarrow> relationship
      \<Rightarrow> (('i, 'r) eng, pq_error, action) comp" where
  "build_proposal C fill entropy ep other rel =
     bindS (on_rng (random fill 16)) (\<lambda>exchange_id.
     bindS (liftS (encapsulate C entropy
         \<lparr>hp_kem = bu_kem (rel_remote rel), hp_x448 = bu_x448 (rel_remote rel)\<rparr>)) (\<lambda>(ciphertext, shared).
     let t = proposal_transcript ep other rel exchange_id ciphertext in
     bindS (liftS (derive C (sh_kem shared) (sh_x448 shared) (rel_operator_psk rel) (transcript_encode t))) (\<lambda>cand.
     bindS (liftS (signed C t KPropose (ep_peer_id ep) cand (id_signing (ep_identity ep)))) (\<lambda>m.
     bindS (set_pending (Some (fresh_pending t cand decision_default m))) (\<lambda>_.
     retS (Send m))))))"

text \<open>The sequence is bumped before anything that can still fail.\<close>

definition start_proposal ::
    "crypto_lib \<Rightarrow> 'r random_source \<Rightarrow> bytes \<Rightarrow> endpoint \<Rightarrow> number \<Rightarrow> (('i, 'r) eng, pq_error, action) comp" where
  "start_proposal C fill entropy ep other =
     bindS (getS eg_rel) (\<lambda>rel.
     bindS (liftS (number_next (rel_sequence rel))) (\<lambda>next.
     bindS (upd_rel (\<lambda>r. r\<lparr>rel_sequence := next\<rparr>)) (\<lambda>_.
     build_proposal C fill entropy ep other rel)))"

section \<open>Answering a proposal\<close>

text \<open>The guards of the responder, and the transcript they let through.\<close>

definition acceptable_proposal :: "endpoint \<Rightarrow> number \<Rightarrow> pq_bundle \<Rightarrow> exchange option \<Rightarrow> (exchange \<times> transcript) option" where
  "acceptable_proposal ep other remote_bundle remote =
     (case remote of
        None \<Rightarrow> None
      | Some e \<Rightarrow>
          if dc_phase (ex_decision e) \<noteq> PProposed then None
          else case ex_transcript e of
            None \<Rightarrow> None
          | Some t \<Rightarrow>
              if tr_network_id t \<noteq> ep_network_id ep
                 \<or> tr_initiator_id t \<noteq> other
                 \<or> tr_responder_id t \<noteq> ep_peer_id ep
                 \<or> tr_initiator t \<noteq> remote_bundle
                 \<or> tr_responder t \<noteq> id_bundle (ep_identity ep)
              then None else Some (e, t))"

definition answer_proposal ::
    "crypto_lib \<Rightarrow> endpoint \<Rightarrow> number \<Rightarrow> exchange option \<Rightarrow> (('i, 'r) eng, pq_error, action) comp" where
  "answer_proposal C ep other remote =
     bindS (getS eg_rel) (\<lambda>rel.
     case acceptable_proposal ep other (rel_remote rel) remote of
       None \<Rightarrow> retS ActNone
     | Some (e, t) \<Rightarrow>
         bindS (liftS (decapsulate C (tr_ciphertext t) (hybrid_secret (ep_identity ep)))) (\<lambda>shared.
         bindS (liftS (derive C (sh_kem shared) (sh_x448 shared) (rel_operator_psk rel) (transcript_encode t))) (\<lambda>cand.
         bindS (liftS (ok_or (find (\<lambda>m. msg_sender_id m = other \<and> msg_type m = kind_u8 KPropose) (ex_messages e)) EInvalid)) (\<lambda>propose.
         bindS (liftS (authenticate C propose t)) (\<lambda>_.
         bindS (liftS (confirm C propose cand)) (\<lambda>_.
         bindS (liftS (advance KReady False decision_default)) (\<lambda>d.
         bindS (liftS (signed C t KReady (ep_peer_id ep) cand (id_signing (ep_identity ep)))) (\<lambda>m.
         bindS (set_pending (Some (fresh_pending t cand d m))) (\<lambda>_.
         retS (Send m))))))))))"

section \<open>Absorbing the server's record\<close>

text \<open>The loop over the other side's messages, over the local decision. A message the decision
  accepts must authenticate and confirm; what earlier messages changed stays when one fails.\<close>

fun absorb_messages ::
    "crypto_lib \<Rightarrow> transcript \<Rightarrow> candidate \<Rightarrow> message list \<Rightarrow> (decision, pq_error, unit) comp" where
  "absorb_messages C t cand [] = retS ()"
| "absorb_messages C t cand (m # ms) =
     bindS (liftS (validate_shape m)) (\<lambda>kind.
     bindS (getS (\<lambda>d. d)) (\<lambda>d.
     case advance kind (msg_sender_id m = tr_initiator_id t) d of
       Inl _ \<Rightarrow> absorb_messages C t cand ms
     | Inr trial \<Rightarrow>
         bindS (liftS (authenticate C m t)) (\<lambda>_.
         bindS (liftS (confirm C m cand)) (\<lambda>_.
         bindS (modS (\<lambda>_. trial)) (\<lambda>_.
         absorb_messages C t cand ms)))))"

definition absorb_remote :: "crypto_lib \<Rightarrow> number \<Rightarrow> exchange option \<Rightarrow> (pending, pq_error, unit) comp" where
  "absorb_remote C other remote p =
     (case remote of
        None \<Rightarrow> (Ok (), p)
      | Some e \<Rightarrow>
          if same_exchange e p then
            if terminal (ex_decision e) \<and> \<not> terminal (pd_decision p) then
              (Ok (), p\<lparr>pd_decision := ex_decision e\<rparr>)
            else
              (case absorb_messages C (pd_transcript p) (pd_candidate p)
                      (filter (\<lambda>m. msg_sender_id m = other) (ex_messages e)) (pd_decision p) of
                 (r, d) \<Rightarrow> (r, p\<lparr>pd_decision := d\<rparr>))
          else (Ok (), p))"

section \<open>Driving a pending exchange\<close>

definition push_message :: "message \<Rightarrow> pending \<Rightarrow> pending" where
  "push_message m p = p\<lparr>pd_outbox := pd_outbox p @ [m], pd_attempts := 0, pd_next_retry_at := 0\<rparr>"

text \<open>Sign the next message, advance the local decision by it, queue it and send it.\<close>

definition emit ::
    "crypto_lib \<Rightarrow> endpoint \<Rightarrow> kind \<Rightarrow> pending \<Rightarrow> (('i, 'r) eng, pq_error, action) comp" where
  "emit C ep k p =
     bindS (liftS (signed C (pd_transcript p) k (ep_peer_id ep) (pd_candidate p) (id_signing (ep_identity ep)))) (\<lambda>m.
     bindS (liftS (advance k (ep_peer_id ep = tr_initiator_id (pd_transcript p)) (pd_decision p))) (\<lambda>d.
     bindS (set_pending (Some (push_message m (p\<lparr>pd_decision := d\<rparr>)))) (\<lambda>_.
     retS (Send m))))"

definition drive_ready ::
    "crypto_lib \<Rightarrow> endpoint \<Rightarrow> bool \<Rightarrow> pending \<Rightarrow> (('i, 'r) eng, pq_error, action) comp" where
  "drive_ready C ep initiator p =
     (if initiator then
        bindS (liftS (signed C (pd_transcript p) KCommit (ep_peer_id ep) (pd_candidate p) (id_signing (ep_identity ep)))) (\<lambda>m.
        bindS (liftS (advance KCommit True (pd_decision p))) (\<lambda>d.
        bindS (set_pending (Some (push_message m (p\<lparr>pd_decision := d\<rparr>)))) (\<lambda>_.
        retS (Send m))))
      else retS ActNone)"

definition drive_committed ::
    "crypto_lib \<Rightarrow> 'i installer \<Rightarrow> endpoint \<Rightarrow> bool \<Rightarrow> pq_bundle \<Rightarrow> pending \<Rightarrow> (('i, 'r) eng, pq_error, action) comp" where
  "drive_committed C I ep initiator remote_bundle p =
     (if \<not> pd_installed p then
        if \<not> initiator \<or> side_get False (dc_installed (pd_decision p)) then
          bindS (on_inst (in_install I remote_bundle (pd_candidate p))) (\<lambda>_.
          let p1 = p\<lparr>pd_installed := True\<rparr> in
          bindS (set_pending (Some p1)) (\<lambda>_.
          emit C ep KInstalled p1))
        else retS ActNone
      else if \<not> pd_confirmed p then
        bindS (on_inst (in_fresh I remote_bundle)) (\<lambda>fresh.
        if fresh then
          let p1 = p\<lparr>pd_confirmed := True\<rparr> in
          bindS (set_pending (Some p1)) (\<lambda>_.
          emit C ep KConfirmed p1)
        else retS ActNone)
      else retS ActNone)"

definition drive_complete ::
    "crypto_lib \<Rightarrow> endpoint \<Rightarrow> pq_bundle \<Rightarrow> u64 \<Rightarrow> pending \<Rightarrow> (('i, 'r) eng, pq_error, action) comp" where
  "drive_complete C ep remote_bundle now p =
     bindS (liftS (hash C (transcript_encode (pd_transcript p)))) (\<lambda>h.
     bindS (upd_rel (\<lambda>r. r\<lparr>rel_confirmed := Some
         \<lparr>cf_local_bundle_id = bu_id (id_bundle (ep_identity ep)), cf_remote_bundle_id = bu_id remote_bundle,
          cf_sequence = tr_sequence (pd_transcript p), cf_exchange_id = tr_exchange_id (pd_transcript p),
          cf_transcript_hash = h, cf_psk = cd_psk (pd_candidate p), cf_completed_at = now\<rparr>,
        rel_prior_pq := True, rel_status := RsConfirmed, rel_pending := None\<rparr>)) (\<lambda>_.
     retS ActComplete))"

definition must_resend :: "exchange option \<Rightarrow> number \<Rightarrow> u64 \<Rightarrow> pending \<Rightarrow> bool" where
  "must_resend remote self_id now p \<longleftrightarrow>
     dc_phase (pd_decision p) \<noteq> PAborted \<and> \<not> durably_sent remote p self_id \<and>
     pd_next_retry_at p \<le> now \<and> pd_outbox p \<noteq> []"

definition drive ::
    "crypto_lib \<Rightarrow> 'i installer \<Rightarrow> endpoint \<Rightarrow> number \<Rightarrow> exchange option \<Rightarrow> u64 \<Rightarrow> pq_bundle \<Rightarrow> pending
      \<Rightarrow> (('i, 'r) eng, pq_error, action) comp" where
  "drive C I ep other remote now remote_bundle p =
     (if must_resend remote (ep_peer_id ep) now p then retS (Send (last (pd_outbox p)))
      else
        let initiator = (ep_peer_id ep < other) in
        case dc_phase (pd_decision p) of
          PAborted \<Rightarrow> bindS (set_pending None) (\<lambda>_. retS ActNone)
        | PProposed \<Rightarrow> retS ActNone
        | PReady \<Rightarrow> drive_ready C ep initiator p
        | PCommitted \<Rightarrow> drive_committed C I ep initiator remote_bundle p
        | PComplete \<Rightarrow> drive_complete C ep remote_bundle now p)"

section \<open>One reconciliation\<close>

definition reconcile_rel ::
    "crypto_lib \<Rightarrow> 'i installer \<Rightarrow> 'r random_source \<Rightarrow> bytes \<Rightarrow> endpoint \<Rightarrow> number \<Rightarrow> exchange option
      \<Rightarrow> u64 \<Rightarrow> u64 \<Rightarrow> u64 \<Rightarrow> (('i, 'r) eng, pq_error, action) comp" where
  "reconcile_rel C I fill entropy ep other remote now rotation_interval idle_timeout =
     bindS (getS eg_rel) (\<lambda>rel.
     if rel_gated rel \<or> rel_status rel = RsBlocked then retS ActNone
     else if ep_enrollment ep = EnRetiring then retS ActNone
     else case rel_pending rel of
       None \<Rightarrow>
         if ep_peer_id ep < other then
           if \<not> rotation_due now rotation_interval idle_timeout rel then retS ActNone
           else start_proposal C fill entropy ep other
         else answer_proposal C ep other remote
     | Some p \<Rightarrow>
         (case absorb_remote C other remote p of
            (r, p1) \<Rightarrow>
              bindS (set_pending (Some p1)) (\<lambda>_.
              bindS (liftS r) (\<lambda>_.
              drive C I ep other remote now (rel_remote rel) p1))))"

definition reconcile ::
    "crypto_lib \<Rightarrow> 'i installer \<Rightarrow> 'r random_source \<Rightarrow> bytes \<Rightarrow> number \<Rightarrow> exchange option
      \<Rightarrow> u64 \<Rightarrow> u64 \<Rightarrow> u64 \<Rightarrow> (endpoint \<times> 'i \<times> 'r, pq_error, action) comp" where
  "reconcile C I fill entropy other remote now rotation_interval idle_timeout =
     (\<lambda>(ep, i, g).
        if other = ep_peer_id ep \<or> other = ep_server_id ep then (Err EInvalid, (ep, i, g))
        else case bt_get other (ep_relationships ep) of
          None \<Rightarrow> (Err EInvalid, (ep, i, g))
        | Some rel \<Rightarrow>
            (case reconcile_rel C I fill entropy ep other remote now rotation_interval idle_timeout
                    \<lparr>eg_rel = rel, eg_inst = i, eg_rng = g\<rparr> of
               (a, s) \<Rightarrow>
                 (a, (ep\<lparr>ep_relationships := bt_insert other (eg_rel s) (ep_relationships ep)\<rparr>,
                      eg_inst s, eg_rng s))))"

section \<open>Backing off after a failed send\<close>

definition retry_bound :: "u32 \<Rightarrow> u64" where
  "retry_bound attempts = min 60 (push_bit (unat (min attempts 6)) 1)"

definition note_send_failure ::
    "'r random_source \<Rightarrow> number \<Rightarrow> u64 \<Rightarrow> (endpoint \<times> 'r, pq_error, unit) comp" where
  "note_send_failure fill other now = (\<lambda>(ep, g).
     case bt_get other (ep_relationships ep) of
       None \<Rightarrow> (Err EInvalid, (ep, g))
     | Some rel \<Rightarrow>
         (case rel_pending rel of
            None \<Rightarrow> (Err EInvalid, (ep, g))
          | Some p \<Rightarrow>
              let p1 = p\<lparr>pd_attempts := sat_add32 (pd_attempts p) 1\<rparr>;
                  store = (\<lambda>q. ep\<lparr>ep_relationships :=
                     bt_insert other (rel\<lparr>rel_pending := Some q\<rparr>) (ep_relationships ep)\<rparr>) in
              (case random fill 1 g of
                 (Inl e, g1) \<Rightarrow> (Err e, (store p1, g1))
               | (Inr bs, g1) \<Rightarrow>
                   let jitter = ucast (bs ! 0) mod retry_bound (pd_attempts p1) in
                   (Ok (), (store (p1\<lparr>pd_next_retry_at := sat_add64 now (min (jitter + 1) 60)\<rparr>), g1)))))"

end
