(* ===== verification/EngineProps.thy ===== *)
theory EngineProps
  imports Engine
begin

text \<open>
  What the engine guarantees: the frame of a call, the outcomes of its parts, the soundness of
  the pending exchange it keeps and of the messages it sends, and the behaviour of one
  reconciliation in each situation.
\<close>

section \<open>What a call may change\<close>

definition rel_frame :: "relationship \<Rightarrow> relationship \<Rightarrow> bool" where
  "rel_frame r r' \<longleftrightarrow> rel_remote r' = rel_remote r \<and> rel_operator_psk_id r' = rel_operator_psk_id r \<and>
     rel_operator_psk r' = rel_operator_psk r \<and> rel_gated r' = rel_gated r \<and>
     rel_activity r' = rel_activity r \<and> (rel_prior_pq r \<longrightarrow> rel_prior_pq r') \<and>
     rel_sequence r \<le> rel_sequence r'"

lemma rel_frame_refl [simp]: "rel_frame r r"
  by (simp add: rel_frame_def)

lemma rel_frame_trans [trans]: "rel_frame r s \<Longrightarrow> rel_frame s t \<Longrightarrow> rel_frame r t"
  by (auto simp: rel_frame_def)

abbreviation eng_frame :: "('i, 'r) eng \<Rightarrow> ('i, 'r) eng \<Rightarrow> bool" where
  "eng_frame s t \<equiv> rel_frame (eg_rel s) (eg_rel t)"

lemma eng_frame_refl: "reflp eng_frame"
  by (simp add: reflp_def)

lemma eng_frame_trans: "transp eng_frame"
  by (auto intro: transpI rel_frame_trans)

lemma keeps_on_rng [intro]: "keeps eng_frame (on_rng m)"
  by (auto simp: keeps_def on_rng_def split: prod.splits)

lemma keeps_on_inst [intro]: "keeps eng_frame (on_inst m)"
  by (auto simp: keeps_def on_inst_def split: prod.splits)

lemma keeps_upd_rel: "(\<And>r. rel_frame r (f r)) \<Longrightarrow> keeps eng_frame (upd_rel f)"
  by (auto simp: keeps_def upd_rel_def)

lemma keeps_set_pending [intro]: "keeps eng_frame (set_pending p)"
  unfolding set_pending_def by (rule keeps_upd_rel) (simp add: rel_frame_def)

lemmas eng_keeps = keeps_bindS [OF _ _ eng_frame_trans] keeps_simple [OF eng_frame_refl]
  keeps_on_rng keeps_on_inst keeps_set_pending

lemma emit_frame [intro]: "keeps eng_frame (emit C ep k p)"
  unfolding emit_def by (intro eng_keeps)

lemma drive_frame: "keeps eng_frame (drive C I ep other remote now b p)"
proof -
  have "keeps eng_frame (drive_ready C ep i p)" for i
    unfolding drive_ready_def by (auto intro!: eng_keeps)
  moreover have "keeps eng_frame (drive_committed C I ep i b p)" for i
    unfolding drive_committed_def Let_def by (auto intro!: eng_keeps emit_frame)
  moreover have "keeps eng_frame (drive_complete C ep b now p)"
    unfolding drive_complete_def by (intro eng_keeps keeps_upd_rel) (auto simp: rel_frame_def)
  ultimately show ?thesis
    unfolding drive_def Let_def by (auto intro!: eng_keeps split: phase.split)
qed

lemma answer_proposal_frame: "keeps eng_frame (answer_proposal C ep other remote)"
  unfolding answer_proposal_def by (intro eng_keeps) (auto intro!: eng_keeps split: option.split)

lemma upd_rel_run [simp]: "upd_rel f s = (Inr (), s\<lparr>eg_rel := f (eg_rel s)\<rparr>)"
  by (simp add: upd_rel_def)

lemma bindS_upd_rel [simp]: "bindS (upd_rel f) k s = k () (s\<lparr>eg_rel := f (eg_rel s)\<rparr>)"
  by (simp add: bindS_def)

text \<open>The two steps of a proposal.\<close>

lemma start_proposal_run:
  "start_proposal C fill entropy ep other s =
     (case number_next (rel_sequence (eg_rel s)) of
        Inl e \<Rightarrow> (Inl e, s)
      | Inr n \<Rightarrow> build_proposal C fill entropy ep other (eg_rel s) (s\<lparr>eg_rel := (eg_rel s)\<lparr>rel_sequence := n\<rparr>\<rparr>))"
  by (simp add: start_proposal_def split: sum.split)

lemma build_proposal_keeps:
  assumes "reflp R" "transp R" "keeps R (on_rng (random fill 16))" "\<And>p. keeps R (set_pending p)"
  shows "keeps R (build_proposal C fill entropy ep other r)"
  unfolding build_proposal_def Let_def
  using assms by (intro keeps_bindS) (auto intro!: keeps_bindS keeps_simple split: prod.split)

lemma build_proposal_frame: "keeps eng_frame (build_proposal C fill entropy ep other r)"
  by (rule build_proposal_keeps [OF eng_frame_refl eng_frame_trans]) auto

lemma start_proposal_cases:
  assumes "start_proposal C fill entropy ep other s = (a, s')"
  shows "rel_frame (eg_rel s) (eg_rel s')"
proof (cases "number_next (rel_sequence (eg_rel s))")
  case (Inl e)
  with assms show ?thesis by (auto simp: start_proposal_run)
next
  case (Inr n)
  define u where "u = s\<lparr>eg_rel := (eg_rel s)\<lparr>rel_sequence := n\<rparr>\<rparr>"
  have "rel_frame (eg_rel s) (eg_rel u)"
    using number_next_less [OF Inr] by (simp add: u_def rel_frame_def)
  also have "build_proposal C fill entropy ep other (eg_rel s) u = (a, s')"
    using assms Inr by (simp add: start_proposal_run u_def)
  from keepsD [OF build_proposal_frame this] have "rel_frame (eg_rel u) (eg_rel s')" .
  finally show ?thesis .
qed

text \<open>One call, case by case.\<close>

definition put_pending :: "pending option \<Rightarrow> ('i, 'r) eng \<Rightarrow> ('i, 'r) eng" where
  "put_pending p s = s\<lparr>eg_rel := (eg_rel s)\<lparr>rel_pending := p\<rparr>\<rparr>"

lemma set_pending_run [simp]: "set_pending p s = (Inr (), put_pending p s)"
  by (simp add: set_pending_def upd_rel_def put_pending_def)

lemma bindS_set_pending [simp]: "bindS (set_pending p) k s = k () (put_pending p s)"
  by (simp add: bindS_def)

lemma put_pending_simps [simp]:
  "rel_pending (eg_rel (put_pending p s)) = p" "eg_inst (put_pending p s) = eg_inst s"
  "eg_rng (put_pending p s) = eg_rng s" "put_pending p (put_pending q s) = put_pending p s"
  "rel_remote (eg_rel (put_pending p s)) = rel_remote (eg_rel s)"
  by (simp_all add: put_pending_def)

lemma put_pending_same [simp]: "rel_pending (eg_rel s) = p \<Longrightarrow> put_pending p s = s"
  by (auto simp: put_pending_def)

lemma put_pending_frame [simp]: "eng_frame s (put_pending p s)"
  by (simp add: put_pending_def rel_frame_def)

definition paused :: "endpoint \<Rightarrow> relationship \<Rightarrow> bool" where
  "paused ep r \<longleftrightarrow> rel_gated r \<or> rel_status r = RsBlocked \<or> ep_enrollment ep = EnRetiring"

lemma reconcile_rel_paused:
  "paused ep (eg_rel s) \<Longrightarrow> reconcile_rel C I fill entropy ep other remote now iv idle s = (Inr ActNone, s)"
  by (auto simp: reconcile_rel_def paused_def)

lemma reconcile_rel_new:
  "\<not> paused ep (eg_rel s) \<Longrightarrow> rel_pending (eg_rel s) = None \<Longrightarrow>
   reconcile_rel C I fill entropy ep other remote now iv idle s =
     (if ep_peer_id ep < other then
        if rotation_due now iv idle (eg_rel s) then start_proposal C fill entropy ep other s
        else (Inr ActNone, s)
      else answer_proposal C ep other remote s)"
  by (auto simp: reconcile_rel_def paused_def)

lemma reconcile_rel_pending:
  "\<not> paused ep (eg_rel s) \<Longrightarrow> rel_pending (eg_rel s) = Some p \<Longrightarrow> absorb_remote C other remote p = (r, p1) \<Longrightarrow>
   reconcile_rel C I fill entropy ep other remote now iv idle s =
     (case r of
        Inl e \<Rightarrow> (Inl e, put_pending (Some p1) s)
      | Inr _ \<Rightarrow> drive C I ep other remote now (rel_remote (eg_rel s)) p1 (put_pending (Some p1) s))"
  by (auto simp: reconcile_rel_def paused_def bindS_def split: sum.splits)

lemma reconcile_rel_frame:
  assumes "reconcile_rel C I fill entropy ep other remote now iv idle s = (a, s')"
  shows "eng_frame s s'"
proof (cases "paused ep (eg_rel s)")
  case True
  with assms show ?thesis by (simp add: reconcile_rel_paused)
next
  case run: False
  show ?thesis
  proof (cases "rel_pending (eg_rel s)")
    case None
    with assms run show ?thesis
      using start_proposal_cases keepsD [OF answer_proposal_frame]
      by (auto simp: reconcile_rel_new split: if_splits)
  next
    case (Some p)
    obtain r p1 where ab: "absorb_remote C other remote p = (r, p1)" by fastforce
    have "eng_frame s (put_pending (Some p1) s)" by simp
    also have "eng_frame (put_pending (Some p1) s) s'" if "r = Inr u" for u
      using assms run Some ab that keepsD [OF drive_frame] by (auto simp: reconcile_rel_pending)
    finally show ?thesis
      using assms run Some ab by (cases r) (auto simp: reconcile_rel_pending)
  qed
qed

section \<open>The outcomes of the parts\<close>

lemma on_rng_Inr: "on_rng m s = (Inr x, u) \<longleftrightarrow> (\<exists>g. m (eg_rng s) = (Inr x, g) \<and> u = s\<lparr>eg_rng := g\<rparr>)"
  by (auto simp: on_rng_def split: prod.splits)

lemma start_proposal_Ok:
  assumes "start_proposal C fill entropy ep other s = (Inr act, s')"
  shows "\<exists>n xid g ct sh cand m.
    number_next (rel_sequence (eg_rel s)) = Inr n \<and>
    random fill 16 (eg_rng s) = (Inr xid, g) \<and>
    encapsulate C entropy \<lparr>hp_kem = bu_kem (rel_remote (eg_rel s)), hp_x448 = bu_x448 (rel_remote (eg_rel s))\<rparr> = Inr (ct, sh) \<and>
    derive C (sh_kem sh) (sh_x448 sh) (rel_operator_psk (eg_rel s))
       (transcript_encode (proposal_transcript ep other (eg_rel s) xid ct)) = Inr cand \<and>
    signed C (proposal_transcript ep other (eg_rel s) xid ct) KPropose (ep_peer_id ep) cand
       (id_signing (ep_identity ep)) = Inr m \<and>
    act = Send m \<and>
    s' = s\<lparr>eg_rel := (eg_rel s)\<lparr>rel_sequence := n,
        rel_pending := Some (fresh_pending (proposal_transcript ep other (eg_rel s) xid ct) cand decision_default m)\<rparr>,
      eg_rng := g\<rparr>"
  using assms
  by (cases "number_next (rel_sequence (eg_rel s))")
     (simp_all add: start_proposal_run build_proposal_def bindS_Inr_iff Let_def on_rng_Inr put_pending_def split_beta, fastforce)

lemma answer_proposal_Ok:
  assumes "answer_proposal C ep other remote s = (Inr act, s')"
  shows "acceptable_proposal ep other (rel_remote (eg_rel s)) remote = None \<and> act = ActNone \<and> s' = s \<or>
    (\<exists>e t sh cand propose m.
      acceptable_proposal ep other (rel_remote (eg_rel s)) remote = Some (e, t) \<and>
      decapsulate C (tr_ciphertext t) (hybrid_secret (ep_identity ep)) = Inr sh \<and>
      derive C (sh_kem sh) (sh_x448 sh) (rel_operator_psk (eg_rel s)) (transcript_encode t) = Inr cand \<and>
      find (\<lambda>m. msg_sender_id m = other \<and> msg_type m = kind_u8 KPropose) (ex_messages e) = Some propose \<and>
      authenticate C propose t = Inr () \<and> confirm C propose cand = Inr () \<and>
      signed C t KReady (ep_peer_id ep) cand (id_signing (ep_identity ep)) = Inr m \<and>
      act = Send m \<and>
      s' = s\<lparr>eg_rel := (eg_rel s)\<lparr>rel_pending := Some (fresh_pending t cand
              (decision_default\<lparr>dc_phase := PReady\<rparr>) m)\<rparr>\<rparr>)"
  using assms
  by (auto simp: answer_proposal_def bindS_Inr_iff Let_def put_pending_def advance_Ok
      decision_default_def split: option.splits prod.splits)

lemma acceptable_proposal_Some:
  "acceptable_proposal ep other b remote = Some (e, t) \<longleftrightarrow>
     remote = Some e \<and> dc_phase (ex_decision e) = PProposed \<and> ex_transcript e = Some t \<and>
     tr_network_id t = ep_network_id ep \<and> tr_initiator_id t = other \<and> tr_responder_id t = ep_peer_id ep \<and>
     tr_initiator t = b \<and> tr_responder t = id_bundle (ep_identity ep)"
  by (auto simp: acceptable_proposal_def split: option.splits)

text \<open>Every decision that absorbing can produce came from the local one by accepted messages that
  authenticate and confirm, or is the server's terminal one.\<close>

lemma absorb_messages_inv:
  "decision_inv d \<Longrightarrow> absorb_messages C t cand ms d = (r, d') \<Longrightarrow> decision_inv d'"
proof (induction ms arbitrary: d)
  case (Cons m ms)
  let ?i = "msg_sender_id m = tr_initiator_id t"
  show ?case
  proof (cases "validate_shape m")
    case kind: (Inr kind)
    show ?thesis
    proof (cases "advance kind ?i d")
      case (Inl e)
      with Cons kind show ?thesis by simp
    next
      case (Inr trial)
      with Cons.prems have "decision_inv trial" by (auto intro: advance_inv)
      with Cons kind Inr show ?thesis
        by (cases "authenticate C m t"; cases "confirm C m cand") auto
    qed
  qed (use Cons.prems in simp)
qed simp

lemma absorb_remote_inv:
  assumes "decision_inv (pd_decision p)" "pred_option (\<lambda>e. decision_inv (ex_decision e)) remote"
    and "absorb_remote C other remote p = (r, p')"
  shows "decision_inv (pd_decision p')"
  using assms absorb_messages_inv
  by (auto simp: absorb_remote_def split: option.splits if_splits prod.splits)

lemma absorb_remote_fields:
  assumes "absorb_remote C other remote p = (r, p')"
  shows "pd_transcript p' = pd_transcript p" "pd_candidate p' = pd_candidate p"
    "pd_outbox p' = pd_outbox p" "pd_installed p' = pd_installed p" "pd_confirmed p' = pd_confirmed p"
    "pd_attempts p' = pd_attempts p" "pd_next_retry_at p' = pd_next_retry_at p"
  using assms by (auto simp: absorb_remote_def split: option.splits if_splits prod.splits)

definition rel_inv :: "relationship \<Rightarrow> bool" where
  "rel_inv r \<longleftrightarrow> pred_option (\<lambda>p. decision_inv (pd_decision p)) (rel_pending r)"

lemma rel_inv_put [simp]: "rel_inv (eg_rel (put_pending p s)) \<longleftrightarrow> pred_option (\<lambda>p. decision_inv (pd_decision p)) p"
  by (simp add: rel_inv_def)

lemma push_message_simps [simp]:
  "pd_decision (push_message m p) = pd_decision p" "pd_outbox (push_message m p) = pd_outbox p @ [m]"
  "pd_transcript (push_message m p) = pd_transcript p" "pd_candidate (push_message m p) = pd_candidate p"
  "pd_installed (push_message m p) = pd_installed p" "pd_confirmed (push_message m p) = pd_confirmed p"
  by (simp_all add: push_message_def)

lemma emit_run:
  assumes "emit C ep k p s = (a, s')"
  shows "(\<exists>e. a = Inl e) \<and> s' = s \<or>
    (\<exists>m d. a = Inr (Send m) \<and>
       signed C (pd_transcript p) k (ep_peer_id ep) (pd_candidate p) (id_signing (ep_identity ep)) = Inr m \<and>
       advance k (ep_peer_id ep = tr_initiator_id (pd_transcript p)) (pd_decision p) = Inr d \<and>
       s' = put_pending (Some (push_message m (p\<lparr>pd_decision := d\<rparr>))) s)"
  using assms by (auto simp: emit_def bindS_def split: sum.splits)

lemma emit_inv:
  assumes "emit C ep k p s = (a, s')" "decision_inv (pd_decision p)" "rel_inv (eg_rel s)"
  shows "rel_inv (eg_rel s')"
  using emit_run [OF assms(1)] assms(2,3) by (auto dest: advance_inv)

lemma emit_put_inv:
  assumes "emit C ep k p (put_pending (Some p) s) = (a, s')" "decision_inv (pd_decision p)"
  shows "rel_inv (eg_rel s')"
  using assms(1) by (rule emit_inv) (simp_all add: assms(2))

lemma drive_ready_run:
  assumes "drive_ready C ep i p s = (a, s')"
  shows "s' = s \<and> (a = Inr ActNone \<or> (\<exists>e. a = Inl e)) \<or>
    (\<exists>m d. i \<and> a = Inr (Send m) \<and>
       signed C (pd_transcript p) KCommit (ep_peer_id ep) (pd_candidate p) (id_signing (ep_identity ep)) = Inr m \<and>
       advance KCommit True (pd_decision p) = Inr d \<and>
       s' = put_pending (Some (push_message m (p\<lparr>pd_decision := d\<rparr>))) s)"
  using assms by (auto simp: drive_ready_def bindS_def split: sum.splits if_splits)

text \<open>The two actions on the installer, and the receipts that follow them.\<close>

lemma drive_committed_run:
  assumes "drive_committed C I ep i b p s = (a, s')"
  shows "s' = s \<and> a = Inr ActNone \<and>
      (if pd_installed p then pd_confirmed p else i \<and> \<not> side_get False (dc_installed (pd_decision p))) \<or>
    (\<exists>g. \<not> pd_installed p \<and> (i \<longrightarrow> side_get False (dc_installed (pd_decision p))) \<and>
       (\<exists>e. in_install I b (pd_candidate p) (eg_inst s) = (Inl e, g)) \<and>
       a = Inl EInstaller \<and> s' = s\<lparr>eg_inst := g\<rparr>) \<or>
    (\<exists>g. \<not> pd_installed p \<and> (i \<longrightarrow> side_get False (dc_installed (pd_decision p))) \<and>
       in_install I b (pd_candidate p) (eg_inst s) = (Inr (), g) \<and>
       emit C ep KInstalled (p\<lparr>pd_installed := True\<rparr>)
         (put_pending (Some (p\<lparr>pd_installed := True\<rparr>)) (s\<lparr>eg_inst := g\<rparr>)) = (a, s')) \<or>
    (\<exists>g. pd_installed p \<and> \<not> pd_confirmed p \<and> in_fresh I b (eg_inst s) = (Inr False, g) \<and>
       a = Inr ActNone \<and> s' = s\<lparr>eg_inst := g\<rparr>) \<or>
    (\<exists>g e. pd_installed p \<and> \<not> pd_confirmed p \<and> in_fresh I b (eg_inst s) = (Inl e, g) \<and>
       a = Inl EInstaller \<and> s' = s\<lparr>eg_inst := g\<rparr>) \<or>
    (\<exists>g. pd_installed p \<and> \<not> pd_confirmed p \<and> in_fresh I b (eg_inst s) = (Inr True, g) \<and>
       emit C ep KConfirmed (p\<lparr>pd_confirmed := True\<rparr>)
         (put_pending (Some (p\<lparr>pd_confirmed := True\<rparr>)) (s\<lparr>eg_inst := g\<rparr>)) = (a, s'))"
proof (cases "pd_installed p")
  case False
  obtain x g where "in_install I b (pd_candidate p) (eg_inst s) = (x, g)" by fastforce
  with False assms show ?thesis
    by (cases x) (auto simp: drive_committed_def Let_def bindS_def on_inst_def map_err_def split: if_splits)
next
  case True
  obtain x g where x: "in_fresh I b (eg_inst s) = (x, g)" by fastforce
  show ?thesis
  proof (cases x)
    case (Inr fresh)
    with True assms x show ?thesis
      by (cases fresh) (auto simp: drive_committed_def Let_def bindS_def on_inst_def map_err_def split: if_splits)
  qed (use True assms x in \<open>auto simp: drive_committed_def Let_def bindS_def on_inst_def map_err_def split: if_splits\<close>)
qed

lemma drive_complete_run:
  assumes "drive_complete C ep b now p s = (a, s')"
  shows "(\<exists>e. a = Inl e \<and> s' = s) \<or>
    (\<exists>h. hash C (transcript_encode (pd_transcript p)) = Inr h \<and> a = Inr ActComplete \<and>
      s' = s\<lparr>eg_rel := (eg_rel s)\<lparr>rel_confirmed := Some
         \<lparr>cf_local_bundle_id = bu_id (id_bundle (ep_identity ep)), cf_remote_bundle_id = bu_id b,
          cf_sequence = tr_sequence (pd_transcript p), cf_exchange_id = tr_exchange_id (pd_transcript p),
          cf_transcript_hash = h, cf_psk = cd_psk (pd_candidate p), cf_completed_at = now\<rparr>,
        rel_prior_pq := True, rel_status := RsConfirmed, rel_pending := None\<rparr>\<rparr>)"
  using assms by (auto simp: drive_complete_def bindS_def upd_rel_def split: sum.splits)

lemma drive_inv:
  assumes run: "drive C I ep other remote now b p s = (a, s')"
    and inv: "decision_inv (pd_decision p)" "rel_inv (eg_rel s)"
  shows "rel_inv (eg_rel s')"
proof (cases "must_resend remote (ep_peer_id ep) now p")
  case True
  with run inv show ?thesis by (simp add: drive_def)
next
  case False
  show ?thesis
  proof (cases "dc_phase (pd_decision p)")
    case PReady
    then have "drive_ready C ep (ep_peer_id ep < other) p s = (a, s')"
      using run False by (simp add: drive_def)
    from drive_ready_run [OF this] inv show ?thesis by (auto dest: advance_inv)
  next
    case PCommitted
    then have "drive_committed C I ep (ep_peer_id ep < other) b p s = (a, s')"
      using run False by (simp add: drive_def)
    from drive_committed_run [OF this] inv show ?thesis
      by (auto dest!: emit_put_inv)
  next
    case PComplete
    then have "drive_complete C ep b now p s = (a, s')" using run False by (simp add: drive_def)
    from drive_complete_run [OF this] inv show ?thesis by (auto simp: rel_inv_def)
  qed (use run False inv in \<open>auto simp: drive_def\<close>)
qed

lemma decision_inv_ready: "decision_inv (decision_default\<lparr>dc_phase := PReady\<rparr>)"
  by (simp add: decision_inv_def decision_default_def side_get_def)

section \<open>Sound pending exchanges\<close>

definition own_message :: "crypto_lib \<Rightarrow> endpoint \<Rightarrow> pending \<Rightarrow> message \<Rightarrow> bool" where
  "own_message C ep p m \<longleftrightarrow> msg_sender_id m = ep_peer_id ep \<and>
     authenticate C m (pd_transcript p) = Inr () \<and> confirm C m (pd_candidate p) = Inr ()"

text \<open>The transcript belongs to this pair of peers under their present bundles.\<close>

definition transcript_fits :: "endpoint \<Rightarrow> number \<Rightarrow> pq_bundle \<Rightarrow> transcript \<Rightarrow> bool" where
  "transcript_fits ep other remote t \<longleftrightarrow>
     tr_network_id t = ep_network_id ep \<and>
     (if ep_peer_id ep < other
      then tr_initiator_id t = ep_peer_id ep \<and> tr_responder_id t = other \<and>
           tr_initiator t = id_bundle (ep_identity ep) \<and> tr_responder t = remote
      else tr_initiator_id t = other \<and> tr_responder_id t = ep_peer_id ep \<and>
           tr_initiator t = remote \<and> tr_responder t = id_bundle (ep_identity ep))"

definition pending_sound :: "crypto_lib \<Rightarrow> endpoint \<Rightarrow> number \<Rightarrow> relationship \<Rightarrow> pending \<Rightarrow> bool" where
  "pending_sound C ep other rel p \<longleftrightarrow>
     transcript_fits ep other (rel_remote rel) (pd_transcript p) \<and> decision_inv (pd_decision p) \<and>
     pd_outbox p \<noteq> [] \<and> (\<forall>m \<in> set (pd_outbox p). own_message C ep p m)"

definition rel_sound :: "crypto_lib \<Rightarrow> endpoint \<Rightarrow> number \<Rightarrow> relationship \<Rightarrow> bool" where
  "rel_sound C ep other r \<longleftrightarrow> pred_option (pending_sound C ep other r) (rel_pending r)"

text \<open>An identity whose published keys belong to its private ones, as \<^verbatim>\<open>Identity::validate\<close> checks.\<close>

definition owns_identity :: "crypto_lib \<Rightarrow> endpoint \<Rightarrow> bool" where
  "owns_identity C ep \<longleftrightarrow>
     signing_public C (id_signing (ep_identity ep)) = Inr (bu_sig (id_bundle (ep_identity ep)))"

lemma identity_validate_owns: "identity_validate C (ep_identity ep) = Inr () \<Longrightarrow> owns_identity C ep"
  by (auto simp: identity_validate_def owns_identity_def bindR_Inr_iff)

definition engine_ok :: "crypto_lib \<Rightarrow> endpoint \<Rightarrow> number \<Rightarrow> bool" where
  "engine_ok C ep other \<longleftrightarrow> signature_law C \<and> owns_identity C ep \<and> other \<noteq> ep_peer_id ep"

lemma signed_own:
  assumes "engine_ok C ep other" "transcript_fits ep other b (pd_transcript p)"
    and m: "signed C (pd_transcript p) k (ep_peer_id ep) (pd_candidate p) (id_signing (ep_identity ep)) = Inr m"
  shows "own_message C ep p m"
proof -
  have "(if ep_peer_id ep = tr_initiator_id (pd_transcript p)
      then tr_initiator (pd_transcript p) else tr_responder (pd_transcript p)) = id_bundle (ep_identity ep)"
    using assms(1,2)
    by (cases "ep_peer_id ep < other") (auto simp: engine_ok_def transcript_fits_def simp del: number_less_iff)
  then show ?thesis
    using signed_authenticates [OF _ _ m] signed_confirms [OF m] signed_fields(2) [OF m] assms(1)
    by (simp add: own_message_def engine_ok_def owns_identity_def)
qed

lemma own_message_cong:
  "pd_transcript q = pd_transcript p \<Longrightarrow> pd_candidate q = pd_candidate p \<Longrightarrow>
   own_message C ep q m = own_message C ep p m"
  by (simp add: own_message_def)

lemma pending_sound_push:
  assumes "pending_sound C ep other rel p" "own_message C ep p m" "decision_inv d"
  shows "pending_sound C ep other rel (push_message m (p\<lparr>pd_decision := d\<rparr>))"
  using assms by (auto simp: pending_sound_def own_message_def)

lemma own_message_update [simp]:
  "own_message C ep (p\<lparr>pd_installed := x\<rparr>) m = own_message C ep p m"
  "own_message C ep (p\<lparr>pd_confirmed := x\<rparr>) m = own_message C ep p m"
  "own_message C ep (p\<lparr>pd_decision := d\<rparr>) m = own_message C ep p m"
  "own_message C ep (push_message n p) m = own_message C ep p m"
  by (simp_all add: own_message_def)

lemma pending_sound_update [simp]:
  "pending_sound C ep other rel (p\<lparr>pd_installed := x\<rparr>) = pending_sound C ep other rel p"
  "pending_sound C ep other rel (p\<lparr>pd_confirmed := x\<rparr>) = pending_sound C ep other rel p"
  by (simp_all add: pending_sound_def)

lemma pending_sound_rel: "rel_remote r' = rel_remote r \<Longrightarrow> pending_sound C ep other r' p = pending_sound C ep other r p"
  by (simp add: pending_sound_def)

lemma absorb_remote_sound:
  assumes "pending_sound C ep other rel p" "pred_option (\<lambda>e. decision_inv (ex_decision e)) remote"
    and "absorb_remote C other remote p = (r, p')"
  shows "pending_sound C ep other rel p'"
proof -
  have "own_message C ep p' m = own_message C ep p m" for m
    using absorb_remote_fields [OF assms(3)] by (intro own_message_cong)
  then show ?thesis
    using assms(1) absorb_remote_fields [OF assms(3)] absorb_remote_inv [OF _ assms(2,3)]
    by (simp add: pending_sound_def)
qed

text \<open>The message of an outcome, and what makes it authentic: it belongs to a sound pending
  exchange of the relationship as it is afterwards.\<close>

definition outcome_sound :: "crypto_lib \<Rightarrow> endpoint \<Rightarrow> number \<Rightarrow> action res \<Rightarrow> relationship \<Rightarrow> bool" where
  "outcome_sound C ep other a r \<longleftrightarrow> rel_sound C ep other r \<and>
     (\<forall>m. a = Inr (Send m) \<longrightarrow> (\<exists>p. rel_pending r = Some p \<and> own_message C ep p m \<and> m \<in> set (pd_outbox p)))"

lemma outcome_quiet:
  "rel_sound C ep other r \<Longrightarrow> (\<And>m. a \<noteq> Inr (Send m)) \<Longrightarrow> outcome_sound C ep other a r"
  by (simp add: outcome_sound_def)

lemma outcome_send:
  assumes "engine_ok C ep other" "pending_sound C ep other (eg_rel s) p" "decision_inv d"
    and "signed C (pd_transcript p) k (ep_peer_id ep) (pd_candidate p) (id_signing (ep_identity ep)) = Inr m"
  shows "outcome_sound C ep other (Inr (Send m))
    (eg_rel (put_pending (Some (push_message m (p\<lparr>pd_decision := d\<rparr>))) s))"
proof -
  have own: "own_message C ep p m"
    using signed_own [OF assms(1) _ assms(4), of "rel_remote (eg_rel s)"] assms(2)
    by (simp add: pending_sound_def)
  from pending_sound_push [OF assms(2) this assms(3)] own show ?thesis
    by (auto simp: outcome_sound_def rel_sound_def pending_sound_def)
qed

lemma rel_sound_put [simp]:
  "rel_sound C ep other (eg_rel (put_pending p s)) \<longleftrightarrow> pred_option (pending_sound C ep other (eg_rel s)) p"
  by (cases p) (simp_all add: rel_sound_def put_pending_def pending_sound_def)

lemma emit_sound:
  assumes "engine_ok C ep other" "emit C ep k p (put_pending (Some p) s) = (a, s')"
    and sound: "pending_sound C ep other (eg_rel s) p"
  shows "outcome_sound C ep other a (eg_rel s')"
proof -
  have p': "pending_sound C ep other (eg_rel (put_pending (Some p) s)) p"
    using sound by (simp add: pending_sound_def)
  show ?thesis
    using emit_run [OF assms(2)]
  proof (elim disjE exE conjE)
    fix m d
    assume "a = Inr (Send m)"
      "signed C (pd_transcript p) k (ep_peer_id ep) (pd_candidate p) (id_signing (ep_identity ep)) = Inr m"
      "advance k (ep_peer_id ep = tr_initiator_id (pd_transcript p)) (pd_decision p) = Inr d"
      "s' = put_pending (Some (push_message m (p\<lparr>pd_decision := d\<rparr>))) (put_pending (Some p) s)"
    then show ?thesis
      using outcome_send [OF assms(1) p', of d k m] sound
      by (auto simp: pending_sound_def dest: advance_inv)
  qed (use sound in \<open>auto intro!: outcome_quiet\<close>)
qed

lemma drive_sound:
  assumes ok: "engine_ok C ep other" and run: "drive C I ep other remote now b p s = (a, s')"
    and p: "rel_pending (eg_rel s) = Some p" and sound: "pending_sound C ep other (eg_rel s) p"
  shows "outcome_sound C ep other a (eg_rel s')"
proof -
  have quiet: "outcome_sound C ep other a (eg_rel s)" if "\<And>m. a \<noteq> Inr (Send m)"
    using that p sound by (intro outcome_quiet) (simp_all add: rel_sound_def)
  have put: "put_pending (Some p) s = s" using p by simp
  show ?thesis
  proof (cases "must_resend remote (ep_peer_id ep) now p")
    case True
    with run have "a = Inr (Send (last (pd_outbox p)))" "s' = s" by (simp_all add: drive_def)
    with p sound show ?thesis by (auto simp: outcome_sound_def rel_sound_def pending_sound_def)
  next
    case False
    note run = run [unfolded drive_def Let_def, simplified False if_False]
    show ?thesis
    proof (cases "dc_phase (pd_decision p)")
      case PReady
      then have "drive_ready C ep (ep_peer_id ep < other) p s = (a, s')" using run by simp
      from drive_ready_run [OF this] show ?thesis
        using quiet outcome_send [OF ok sound] sound
        by (auto simp: pending_sound_def dest: advance_inv)
    next
      case PCommitted
      then have "drive_committed C I ep (ep_peer_id ep < other) b p s = (a, s')" using run by simp
      from drive_committed_run [OF this] show ?thesis
        using quiet sound
        by (auto dest!: emit_sound [OF ok] simp: pending_sound_rel [of "eg_rel (s\<lparr>eg_inst := g\<rparr>)" "eg_rel s" for g])
    next
      case PComplete
      then have "drive_complete C ep b now p s = (a, s')" using run by simp
      from drive_complete_run [OF this] show ?thesis
        using quiet by (auto simp: outcome_sound_def rel_sound_def)
    qed (use run quiet in \<open>auto simp: outcome_sound_def rel_sound_def\<close>)
  qed
qed

lemma pending_sound_fresh:
  assumes "transcript_fits ep other (rel_remote r) t" "own_message C ep (fresh_pending t cand d m) m" "decision_inv d"
  shows "pending_sound C ep other r (fresh_pending t cand d m)"
  using assms by (simp add: pending_sound_def fresh_pending_def own_message_def)

lemma start_proposal_sound:
  assumes ok: "engine_ok C ep other" and lt: "ep_peer_id ep < other"
    and run: "start_proposal C fill entropy ep other s = (a, s')" and none: "rel_pending (eg_rel s) = None"
  shows "outcome_sound C ep other a (eg_rel s')"
proof (cases a)
  case (Inl e)
  have "rel_pending (eg_rel s') = None"
    using run none Inl
    by (auto simp: start_proposal_run build_proposal_def bindS_Inl_iff Let_def split_beta on_rng_def put_pending_def
        split: prod.splits sum.splits)
  with Inl show ?thesis by (simp add: outcome_sound_def rel_sound_def)
next
  case (Inr act)
  then obtain n xid g ct sh cand m where st:
    "signed C (proposal_transcript ep other (eg_rel s) xid ct) KPropose (ep_peer_id ep) cand
       (id_signing (ep_identity ep)) = Inr m" "act = Send m"
    "s' = s\<lparr>eg_rel := (eg_rel s)\<lparr>rel_sequence := n,
        rel_pending := Some (fresh_pending (proposal_transcript ep other (eg_rel s) xid ct) cand decision_default m)\<rparr>,
      eg_rng := g\<rparr>"
    using run by (auto dest!: start_proposal_Ok)
  let ?t = "proposal_transcript ep other (eg_rel s) xid ct"
  let ?p = "fresh_pending ?t cand decision_default m"
  have fits: "transcript_fits ep other (rel_remote (eg_rel s)) ?t"
    using lt by (simp add: transcript_fits_def proposal_transcript_def)
  have own: "own_message C ep ?p m"
    using signed_own [OF ok, of "rel_remote (eg_rel s)" ?p] fits st(1) by (simp add: fresh_pending_def)
  from pending_sound_fresh [OF fits own] st(2,3) Inr own show ?thesis
    by (simp add: outcome_sound_def rel_sound_def pending_sound_def fresh_pending_def)
qed

lemma answer_proposal_sound:
  assumes ok: "engine_ok C ep other" and ge: "\<not> ep_peer_id ep < other"
    and run: "answer_proposal C ep other remote s = (a, s')" and none: "rel_pending (eg_rel s) = None"
  shows "outcome_sound C ep other a (eg_rel s')"
proof (cases a)
  case (Inl e)
  have "s' = s"
    using run Inl by (auto simp: answer_proposal_def bindS_Inl_iff split: option.splits prod.splits)
  with none Inl show ?thesis by (simp add: outcome_sound_def rel_sound_def)
next
  case (Inr act)
  from answer_proposal_Ok [OF run [unfolded Inr]] show ?thesis
  proof (elim disjE exE conjE)
    fix e t sh cand propose m
    let ?d = "decision_default\<lparr>dc_phase := PReady\<rparr>"
    let ?p = "fresh_pending t cand ?d m"
    assume acc: "acceptable_proposal ep other (rel_remote (eg_rel s)) remote = Some (e, t)"
      and m: "signed C t KReady (ep_peer_id ep) cand (id_signing (ep_identity ep)) = Inr m"
      and act: "act = Send m" and s': "s' = s\<lparr>eg_rel := (eg_rel s)\<lparr>rel_pending := Some ?p\<rparr>\<rparr>"
    have fits: "transcript_fits ep other (rel_remote (eg_rel s)) t"
      using acc ge by (auto simp: transcript_fits_def acceptable_proposal_Some)
    have own: "own_message C ep ?p m"
      using signed_own [OF ok, of "rel_remote (eg_rel s)" ?p] fits m by (simp add: fresh_pending_def)
    have "decision_inv ?d" by (simp add: decision_inv_def decision_default_def side_get_def)
    from pending_sound_fresh [OF fits own this] s' act Inr own show ?thesis
      by (simp add: outcome_sound_def rel_sound_def pending_sound_def fresh_pending_def)
  qed (use none Inr in \<open>simp add: outcome_sound_def rel_sound_def\<close>)
qed

lemma reconcile_rel_sound:
  assumes ok: "engine_ok C ep other" and sound: "rel_sound C ep other (eg_rel s)"
    and remote: "pred_option (\<lambda>e. decision_inv (ex_decision e)) remote"
    and run: "reconcile_rel C I fill entropy ep other remote now iv idle s = (a, s')"
  shows "outcome_sound C ep other a (eg_rel s')"
proof (cases "paused ep (eg_rel s)")
  case True
  with run sound show ?thesis by (auto simp: reconcile_rel_paused intro: outcome_quiet)
next
  case active: False
  show ?thesis
  proof (cases "rel_pending (eg_rel s)")
    case None
    with run active ok sound show ?thesis
      by (auto simp: reconcile_rel_new simp del: number_less_iff split: if_splits
          intro: start_proposal_sound answer_proposal_sound outcome_quiet)
  next
    case (Some p)
    obtain r p1 where ab: "absorb_remote C other remote p = (r, p1)" by fastforce
    have p1: "pending_sound C ep other (eg_rel s) p1"
      using sound Some by (auto simp: rel_sound_def intro: absorb_remote_sound [OF _ remote ab])
    show ?thesis
    proof (cases r)
      case (Inl e)
      with run active Some ab p1 show ?thesis
        by (auto simp: reconcile_rel_pending intro!: outcome_quiet)
    next
      case (Inr u)
      with run active Some ab have
        "drive C I ep other remote now (rel_remote (eg_rel s)) p1 (put_pending (Some p1) s) = (a, s')"
        by (simp add: reconcile_rel_pending)
      from drive_sound [OF ok this] p1 show ?thesis by (simp add: pending_sound_def)
    qed
  qed
qed
section \<open>Reconciliation of an endpoint\<close>

definition endpoint_sound :: "crypto_lib \<Rightarrow> endpoint \<Rightarrow> bool" where
  "endpoint_sound C ep \<longleftrightarrow> bt_wf (ep_relationships ep) \<and>
     (\<forall>other r. bt_get other (ep_relationships ep) = Some r \<longrightarrow> rel_sound C ep other r)"

definition put_rel :: "number \<Rightarrow> relationship \<Rightarrow> endpoint \<Rightarrow> endpoint" where
  "put_rel other r ep = ep\<lparr>ep_relationships := bt_insert other r (ep_relationships ep)\<rparr>"

lemma rel_sound_put_rel [simp]:
  "rel_sound C (put_rel o1 r1 ep) other r = rel_sound C ep other r"
proof -
  have "pending_sound C (put_rel o1 r1 ep) other r = pending_sound C ep other r"
    by (simp add: fun_eq_iff pending_sound_def transcript_fits_def own_message_def put_rel_def)
  then show ?thesis by (simp add: rel_sound_def)
qed

lemma reconcile_run:
  assumes "reconcile C I fill entropy other remote now iv idle (ep, i, g) = (a, (ep', i', g'))"
  shows "(a = Inl EInvalid \<and> ep' = ep \<and> i' = i \<and> g' = g) \<or>
    (\<exists>r s. other \<noteq> ep_peer_id ep \<and> other \<noteq> ep_server_id ep \<and> bt_get other (ep_relationships ep) = Some r \<and>
      reconcile_rel C I fill entropy ep other remote now iv idle \<lparr>eg_rel = r, eg_inst = i, eg_rng = g\<rparr> = (a, s) \<and>
      ep' = put_rel other (eg_rel s) ep \<and> i' = eg_inst s \<and> g' = eg_rng s)"
  using assms by (auto simp: reconcile_def put_rel_def split: if_splits option.splits prod.splits)

text \<open>C1. Whatever a reconciliation does, and whether it succeeds or fails, it leaves the endpoint sound:
  each pending exchange is one between this endpoint and that peer under their present bundles,
  its decision is a reachable one, and its outbox holds only messages of this endpoint that
  authenticate against the exchange's transcript and confirm under its candidate. What it asks
  the caller to send is such a message, and only the one relationship has changed.\<close>

theorem reconcile_sound:
  assumes "reconcile C I fill entropy other remote now iv idle (ep, i, g) = (a, (ep', i', g'))"
    and "endpoint_sound C ep" "signature_law C" "owns_identity C ep"
    and "pred_option (\<lambda>e. decision_inv (ex_decision e)) remote"
  shows "endpoint_sound C ep' \<and>
    (a = Inl EInvalid \<and> ep' = ep \<or> (\<exists>r r'. bt_get other (ep_relationships ep) = Some r \<and>
       ep' = put_rel other r' ep \<and> rel_frame r r' \<and>
       (\<forall>m. a = Inr (Send m) \<longrightarrow> (\<exists>p. rel_pending r' = Some p \<and> own_message C ep p m))))"
  using reconcile_run [OF assms(1)]
proof (elim disjE exE conjE)
  fix r s
  assume ne: "other \<noteq> ep_peer_id ep" and r: "bt_get other (ep_relationships ep) = Some r"
    and run: "reconcile_rel C I fill entropy ep other remote now iv idle \<lparr>eg_rel = r, eg_inst = i, eg_rng = g\<rparr> = (a, s)"
    and ep': "ep' = put_rel other (eg_rel s) ep"
  have ok: "engine_ok C ep other" using assms(3,4) ne by (simp add: engine_ok_def)
  have "rel_sound C ep other (eg_rel \<lparr>eg_rel = r, eg_inst = i, eg_rng = g\<rparr>)"
    using assms(2) r by (simp add: endpoint_sound_def)
  from reconcile_rel_sound [OF ok this assms(5) run]
  have out: "outcome_sound C ep other a (eg_rel s)" .
  then have "endpoint_sound C ep'"
    using assms(2) unfolding ep' endpoint_sound_def rel_sound_put_rel
    by (auto simp: outcome_sound_def put_rel_def)
  moreover have "rel_frame r (eg_rel s)" using reconcile_rel_frame [OF run] by simp
  ultimately show ?thesis using out r ep' unfolding outcome_sound_def by blast
qed (use assms(2) in auto)

text \<open>A relationship that is gated or blocked, and every relationship while this endpoint retires,
  is left alone: reconciling asks for nothing and changes nothing, neither the endpoint nor the
  installer nor the random source.\<close>

theorem reconcile_paused:
  assumes "bt_wf (ep_relationships ep)" "bt_get other (ep_relationships ep) = Some r" "paused ep r"
    and "other \<noteq> ep_peer_id ep" "other \<noteq> ep_server_id ep"
  shows "reconcile C I fill entropy other remote now iv idle (ep, i, g) = (Inr ActNone, (ep, i, g))"
  using assms by (simp add: reconcile_def reconcile_rel_paused bt_insert_same)

section \<open>The installer is touched only after a commit\<close>

lemma on_rng_inst: "eg_inst (snd (on_rng m s)) = eg_inst s"
  by (simp add: on_rng_def split: prod.splits)

definition same_inst :: "('i, 'r) eng \<Rightarrow> ('i, 'r) eng \<Rightarrow> bool" where
  "same_inst s t \<longleftrightarrow> eg_inst t = eg_inst s"

lemma same_inst_rel: "reflp same_inst" "transp same_inst"
  by (auto simp: same_inst_def reflp_def intro: transpI)

lemmas inst_keeps = keeps_bindS [OF _ _ same_inst_rel(2)] keeps_simple [OF same_inst_rel(1)]

lemma keeps_same_inst [intro]:
  "keeps same_inst (on_rng m)" "keeps same_inst (upd_rel f)" "keeps same_inst (set_pending p)"
  by (auto simp: keeps_def same_inst_def on_rng_inst)

lemma start_proposal_inst:
  assumes "start_proposal C fill entropy ep other s = (a, s')"
  shows "same_inst s s'"
  using assms keepsD [OF build_proposal_keeps [OF same_inst_rel]]
  by (fastforce simp: start_proposal_run same_inst_def keeps_def on_rng_inst split: sum.splits)

lemma answer_proposal_inst: "keeps same_inst (answer_proposal C ep other remote)"
  unfolding answer_proposal_def
  by (intro inst_keeps) (auto intro!: inst_keeps keeps_same_inst split: option.split prod.split)

text \<open>C3. A preshared key reaches WireGuard only after the commit, and the responder goes first. If a
  reconciliation calls the installer, then the exchange, after absorbing the server's record, is
  committed, and either this side has not installed yet and, being the initiator, holds the
  responder's installation receipt, or it has installed and waits for a fresh handshake.\<close>

theorem installer_only_after_commit:
  assumes "reconcile_rel C I fill entropy ep other remote now iv idle s = (a, s')"
    and "eg_inst s' \<noteq> eg_inst s"
  shows "\<exists>p p1. rel_pending (eg_rel s) = Some p \<and> absorb_remote C other remote p = (Inr (), p1) \<and>
    \<not> paused ep (eg_rel s) \<and> dc_phase (pd_decision p1) = PCommitted \<and>
    (if pd_installed p1 then \<not> pd_confirmed p1
     else ep_peer_id ep < other \<longrightarrow> side_get False (dc_installed (pd_decision p1)))"
proof -
  have active: "\<not> paused ep (eg_rel s)"
    using assms by (auto simp: reconcile_rel_paused)
  have "rel_pending (eg_rel s) \<noteq> None"
  proof
    assume none: "rel_pending (eg_rel s) = None"
    have "same_inst s s'"
      using assms(1) active none start_proposal_inst keepsD [OF answer_proposal_inst]
      by (auto simp: reconcile_rel_new same_inst_def split: if_splits)
    with assms(2) show False by (simp add: same_inst_def)
  qed
  then obtain p where p: "rel_pending (eg_rel s) = Some p" by blast
  obtain r p1 where ab: "absorb_remote C other remote p = (r, p1)" by fastforce
  then have r: "r = Inr ()"
    using assms active p by (cases r) (auto simp: reconcile_rel_pending)
  define u where "u = put_pending (Some p1) s"
  have run: "drive C I ep other remote now (rel_remote (eg_rel s)) p1 u = (a, s')"
    using assms(1) active p ab r by (simp add: reconcile_rel_pending u_def)
  have moved: "eg_inst s' \<noteq> eg_inst u" using assms(2) by (simp add: u_def)
  have no_resend: "\<not> must_resend remote (ep_peer_id ep) now p1"
    using run moved by (auto simp: drive_def)
  note run = run [unfolded drive_def Let_def, simplified no_resend if_False]
  have committed: "dc_phase (pd_decision p1) = PCommitted"
  proof (cases "dc_phase (pd_decision p1)")
    case PReady
    then show ?thesis using run moved drive_ready_run by fastforce
  next
    case PComplete
    then show ?thesis using run moved drive_complete_run by fastforce
  qed (use run moved in auto)
  with run have "drive_committed C I ep (ep_peer_id ep < other) (rel_remote (eg_rel s)) p1 u = (a, s')" by simp
  from drive_committed_run [OF this] moved
  have "if pd_installed p1 then \<not> pd_confirmed p1
     else ep_peer_id ep < other \<longrightarrow> side_get False (dc_installed (pd_decision p1))"
    by auto
  with p ab r active committed show ?thesis by blast
qed

section \<open>Confirmed keys\<close>

definition same_confirmed :: "('i, 'r) eng \<Rightarrow> ('i, 'r) eng \<Rightarrow> bool" where
  "same_confirmed s t \<longleftrightarrow> rel_confirmed (eg_rel t) = rel_confirmed (eg_rel s) \<and>
     rel_status (eg_rel t) = rel_status (eg_rel s) \<and> rel_prior_pq (eg_rel t) = rel_prior_pq (eg_rel s)"

lemma same_confirmed_rel: "reflp same_confirmed" "transp same_confirmed"
  by (auto simp: same_confirmed_def reflp_def intro: transpI)

lemmas confirmed_keeps = keeps_bindS [OF _ _ same_confirmed_rel(2)] keeps_simple [OF same_confirmed_rel(1)]

lemma keeps_same_confirmed [intro]:
  "keeps same_confirmed (on_rng m)" "keeps same_confirmed (on_inst n)" "keeps same_confirmed (set_pending p)"
  "keeps same_confirmed (upd_rel (\<lambda>r. r\<lparr>rel_sequence := q\<rparr>))"
  by (auto simp: keeps_def same_confirmed_def on_rng_def on_inst_def put_pending_def split: prod.splits)

lemma start_proposal_confirmed:
  assumes "start_proposal C fill entropy ep other s = (a, s')"
  shows "same_confirmed s s'"
  using assms keepsD [OF build_proposal_keeps [OF same_confirmed_rel keeps_same_confirmed(1,3)]]
  by (fastforce simp: start_proposal_run same_confirmed_def split: sum.splits)

lemma answer_proposal_confirmed: "keeps same_confirmed (answer_proposal C ep other remote)"
  unfolding answer_proposal_def
  by (intro confirmed_keeps) (auto intro!: confirmed_keeps keeps_same_confirmed split: option.split prod.split)

lemma emit_confirmed: "keeps same_confirmed (emit C ep k p)"
  unfolding emit_def by (intro confirmed_keeps keeps_same_confirmed)

lemma drive_confirmed:
  assumes run: "drive C I ep other remote now b p s = (a, s')" and "a \<noteq> Inr ActComplete"
  shows "same_confirmed s s'"
proof -
  have ready: "keeps same_confirmed (drive_ready C ep i p)" for i
    unfolding drive_ready_def by (auto intro!: confirmed_keeps keeps_same_confirmed)
  have committed: "keeps same_confirmed (drive_committed C I ep i b p)" for i
    unfolding drive_committed_def Let_def by (auto intro!: confirmed_keeps keeps_same_confirmed emit_confirmed)
  have refl: "same_confirmed s s" by (simp add: same_confirmed_def)
  show ?thesis
  proof (cases "dc_phase (pd_decision p)")
    case PComplete
    with run have "s' = s \<or> drive_complete C ep b now p s = (a, s')" by (auto simp: drive_def split: if_splits)
    with assms(2) refl show ?thesis using drive_complete_run by blast
  next
    case PAborted
    then show ?thesis
      using run refl by (auto simp: drive_def same_confirmed_def put_pending_def split: if_splits)
  qed (use run refl in \<open>auto simp: drive_def split: if_splits dest: keepsD [OF ready] keepsD [OF committed]\<close>)
qed

lemma emit_not_complete: "emit C ep k p s \<noteq> (Inr ActComplete, s')"
  by (auto dest: emit_run)

lemma drive_reports_completion:
  assumes "drive C I ep other remote now b p s = (Inr ActComplete, s')"
  shows "dc_phase (pd_decision p) = PComplete \<and> drive_complete C ep b now p s = (Inr ActComplete, s')"
proof -
  have "\<not> must_resend remote (ep_peer_id ep) now p" using assms by (auto simp: drive_def)
  note run = assms [unfolded drive_def Let_def, simplified this if_False]
  have "drive_ready C ep i p s \<noteq> (Inr ActComplete, s')" for i
    by (auto dest: drive_ready_run)
  moreover have "drive_committed C I ep i b p s \<noteq> (Inr ActComplete, s')" for i
    by (auto dest: drive_committed_run simp: emit_not_complete)
  ultimately show ?thesis
    using run by (cases "dc_phase (pd_decision p)") auto
qed

text \<open>A confirmed key is replaced only by a completed exchange. Unless a reconciliation reports
  completion it keeps the confirmed key, the status and the record that post-quantum protection
  once existed, also when a new exchange aborts or fails; when it reports completion it stores
  the candidate of the pending exchange together with its sequence, its identifiers and the
  digest of its transcript, and drops the pending exchange.\<close>

theorem confirmed_only_by_completion:
  assumes "reconcile_rel C I fill entropy ep other remote now iv idle s = (a, s')"
  shows "if a = Inr ActComplete then
      \<exists>p p1 c. rel_pending (eg_rel s) = Some p \<and> absorb_remote C other remote p = (Inr (), p1) \<and>
        dc_phase (pd_decision p1) = PComplete \<and> rel_confirmed (eg_rel s') = Some c \<and>
        cf_psk c = cd_psk (pd_candidate p) \<and> cf_sequence c = tr_sequence (pd_transcript p) \<and>
        cf_exchange_id c = tr_exchange_id (pd_transcript p) \<and> cf_completed_at c = now \<and>
        hash C (transcript_encode (pd_transcript p)) = Inr (cf_transcript_hash c) \<and>
        cf_local_bundle_id c = bu_id (id_bundle (ep_identity ep)) \<and>
        cf_remote_bundle_id c = bu_id (rel_remote (eg_rel s)) \<and>
        rel_prior_pq (eg_rel s') \<and> rel_status (eg_rel s') = RsConfirmed \<and> rel_pending (eg_rel s') = None
    else same_confirmed s s'"
proof (cases "paused ep (eg_rel s)")
  case True
  with assms show ?thesis by (auto simp: reconcile_rel_paused same_confirmed_def)
next
  case active: False
  show ?thesis
  proof (cases "rel_pending (eg_rel s)")
    case None
    have refl: "same_confirmed s s" by (simp add: same_confirmed_def)
    have "a \<noteq> Inr ActComplete"
      using assms active None start_proposal_Ok [of C fill entropy ep other s ActComplete s']
        answer_proposal_Ok [of C ep other remote s ActComplete s']
      by (auto simp: reconcile_rel_new split: if_splits)
    moreover have "same_confirmed s s'"
      using assms active None refl
      by (auto simp: reconcile_rel_new split: if_splits
          dest: start_proposal_confirmed keepsD [OF answer_proposal_confirmed])
    ultimately show ?thesis by simp
  next
    case (Some p)
    obtain r p1 where ab: "absorb_remote C other remote p = (r, p1)" by fastforce
    have put: "same_confirmed s (put_pending (Some p1) s)"
      by (simp add: same_confirmed_def put_pending_def)
    show ?thesis
    proof (cases r)
      case (Inl e)
      with assms active Some ab put show ?thesis by (auto simp: reconcile_rel_pending)
    next
      case (Inr u)
      have run: "drive C I ep other remote now (rel_remote (eg_rel s)) p1 (put_pending (Some p1) s) = (a, s')"
        using assms active Some ab Inr by (simp add: reconcile_rel_pending)
      show ?thesis
      proof (cases "a = Inr ActComplete")
        case True
        with drive_reports_completion [of C I ep other remote now _ p1 _ s'] run
        have ph: "dc_phase (pd_decision p1) = PComplete"
          and compl: "drive_complete C ep (rel_remote (eg_rel s)) now p1 (put_pending (Some p1) s) = (a, s')"
          by auto
        from drive_complete_run [OF compl] True show ?thesis
          using Some ab Inr ph absorb_remote_fields [OF ab] by auto
      next
        case False
        from drive_confirmed [OF run False] put False show ?thesis by (auto simp: same_confirmed_def)
      qed
    qed
  qed
qed
section \<open>New exchanges\<close>

definition same_sequence :: "('i, 'r) eng \<Rightarrow> ('i, 'r) eng \<Rightarrow> bool" where
  "same_sequence s t \<longleftrightarrow> rel_sequence (eg_rel t) = rel_sequence (eg_rel s)"

text \<open>A new exchange never reuses a sequence number. When the initiator proposes, the proposal carries
  the sequence the relationship stood at and the relationship has moved to the next one, which
  is stored before anything that can still fail; so also a failed attempt burns its number.
  The proposal is a well-formed propose message between the two peers in their order.\<close>

theorem proposal_uses_fresh_sequence:
  assumes "reconcile_rel C I fill entropy ep other remote now iv idle s = (a, s')"
    and "\<not> paused ep (eg_rel s)" "rel_pending (eg_rel s) = None" "ep_peer_id ep < other"
    and "rotation_due now iv idle (eg_rel s)"
  shows "(case number_next (rel_sequence (eg_rel s)) of
            Inl e \<Rightarrow> a = Inl e \<and> s' = s
          | Inr n \<Rightarrow> rel_sequence (eg_rel s') = n \<and> rel_sequence (eg_rel s) < n) \<and>
    (\<forall>act. a = Inr act \<longrightarrow> (\<exists>m p. act = Send m \<and> rel_pending (eg_rel s') = Some p \<and>
       pd_decision p = decision_default \<and> pd_outbox p = [m] \<and>
       msg_sequence m = rel_sequence (eg_rel s) \<and> validate_shape m = Inr KPropose \<and>
       msg_initiator_id m = ep_peer_id ep \<and> msg_responder_id m = other))"
proof -
  have run: "start_proposal C fill entropy ep other s = (a, s')"
    using assms by (simp add: reconcile_rel_new)
  have "case number_next (rel_sequence (eg_rel s)) of
            Inl e \<Rightarrow> a = Inl e \<and> s' = s
          | Inr n \<Rightarrow> rel_sequence (eg_rel s') = n \<and> rel_sequence (eg_rel s) < n"
  proof (cases "number_next (rel_sequence (eg_rel s))")
    case (Inr n)
    have "keeps same_sequence (build_proposal C fill entropy ep other (eg_rel s))"
      by (rule build_proposal_keeps)
         (auto simp: same_sequence_def reflp_def keeps_def on_rng_def put_pending_def intro: transpI split: prod.splits)
    moreover have "build_proposal C fill entropy ep other (eg_rel s)
        (s\<lparr>eg_rel := (eg_rel s)\<lparr>rel_sequence := n\<rparr>\<rparr>) = (a, s')"
      using run Inr by (simp add: start_proposal_run)
    ultimately have "same_sequence (s\<lparr>eg_rel := (eg_rel s)\<lparr>rel_sequence := n\<rparr>\<rparr>) s'" by (rule keepsD)
    then show ?thesis using number_next_less [OF Inr] Inr by (simp add: same_sequence_def)
  qed (use run in \<open>simp add: start_proposal_run\<close>)
  moreover have "\<exists>m p. act = Send m \<and> rel_pending (eg_rel s') = Some p \<and>
       pd_decision p = decision_default \<and> pd_outbox p = [m] \<and>
       msg_sequence m = rel_sequence (eg_rel s) \<and> validate_shape m = Inr KPropose \<and>
       msg_initiator_id m = ep_peer_id ep \<and> msg_responder_id m = other" if "a = Inr act" for act
  proof -
    have ok: "start_proposal C fill entropy ep other s = (Inr act, s')" using run that by simp
    obtain n xid g ct cand m where
      m: "signed C (proposal_transcript ep other (eg_rel s) xid ct) KPropose (ep_peer_id ep) cand
        (id_signing (ep_identity ep)) = Inr m" and act: "act = Send m"
      and s': "s' = s\<lparr>eg_rel := (eg_rel s)\<lparr>rel_sequence := n,
        rel_pending := Some (fresh_pending (proposal_transcript ep other (eg_rel s) xid ct) cand decision_default m)\<rparr>,
        eg_rng := g\<rparr>"
      using start_proposal_Ok [OF ok] by blast
    show ?thesis
      using act s' signed_fields [OF m] signed_shape [OF m]
      by (simp add: fresh_pending_def proposal_transcript_def)
  qed
  ultimately show ?thesis by blast
qed

section \<open>Back-off\<close>

lemma unat_min6: "unat (min a 6 :: u32) = min (unat a) 6"
  by (auto simp: min_def word_le_nat_alt)

lemma unat_retry_bound: "unat (retry_bound a) = min 60 (2 ^ min (unat a) 6)"
proof -
  define k where "k = min (unat a) 6"
  have "k = 0 \<or> k = 1 \<or> k = 2 \<or> k = 3 \<or> k = 4 \<or> k = 5 \<or> k = 6"
    unfolding k_def by linarith
  then have "unat (push_bit k (1 :: u64)) = 2 ^ k"
    by (elim disjE) simp_all
  then show ?thesis
    unfolding retry_bound_def unat_min6 k_def [symmetric] by (auto simp: min_def word_le_nat_alt)
qed

lemma unat_mod_word: "unat (a mod b) = unat a mod unat (b :: u64)"
  by (simp add: unat_mod_distrib)

lemma note_send_failure_run:
  assumes "note_send_failure fill other now (ep, g) = (Inr (), (ep', g'))"
  obtains r p bs where "bt_get other (ep_relationships ep) = Some r" "rel_pending r = Some p"
    "ep' = put_rel other (r\<lparr>rel_pending := Some (p\<lparr>pd_attempts := sat_add32 (pd_attempts p) 1,
       pd_next_retry_at := sat_add64 now (min (ucast (bs ! 0 :: byte) mod retry_bound (sat_add32 (pd_attempts p) 1) + 1) 60)\<rparr>)\<rparr>) ep"
proof -
  obtain r where r: "bt_get other (ep_relationships ep) = Some r"
    using assms by (cases "bt_get other (ep_relationships ep)") (auto simp: note_send_failure_def)
  obtain p where p: "rel_pending r = Some p"
    using assms r by (cases "rel_pending r") (auto simp: note_send_failure_def)
  obtain x g1 where x: "random fill 1 g = (x, g1)" by fastforce
  then obtain bs where "x = Inr bs"
    using assms r p by (cases x) (auto simp: note_send_failure_def Let_def)
  with assms r p x have "ep' = put_rel other (r\<lparr>rel_pending := Some (p\<lparr>pd_attempts := sat_add32 (pd_attempts p) 1,
       pd_next_retry_at := sat_add64 now (min (ucast (bs ! 0 :: byte) mod retry_bound (sat_add32 (pd_attempts p) 1) + 1) 60)\<rparr>)\<rparr>) ep"
    by (simp add: note_send_failure_def Let_def put_rel_def)
  with r p show ?thesis by (rule that)
qed

text \<open>The back-off after a failed send is bounded: the retry is due between one and sixty seconds
  later, at most two to the number of consecutive failures, and never wraps; the failure count
  saturates, and nothing else of the endpoint changes.\<close>

theorem note_send_failure_backoff:
  assumes "note_send_failure fill other now (ep, g) = (Inr (), (ep', g'))"
  shows "\<exists>r p n. bt_get other (ep_relationships ep) = Some r \<and> rel_pending r = Some p \<and>
    ep' = put_rel other (r\<lparr>rel_pending := Some (p\<lparr>pd_attempts := sat_add32 (pd_attempts p) 1,
            pd_next_retry_at := sat_add64 now n\<rparr>)\<rparr>) ep \<and>
    1 \<le> unat n \<and> unat n \<le> min 60 (2 ^ min (unat (pd_attempts p) + 1) 6) \<and> now \<le> sat_add64 now n"
proof -
  obtain r p bs where r: "bt_get other (ep_relationships ep) = Some r" "rel_pending r = Some p"
    and ep': "ep' = put_rel other (r\<lparr>rel_pending := Some (p\<lparr>pd_attempts := sat_add32 (pd_attempts p) 1,
       pd_next_retry_at := sat_add64 now (min (ucast (bs ! 0 :: byte) mod retry_bound (sat_add32 (pd_attempts p) 1) + 1) 60)\<rparr>)\<rparr>) ep"
    using assms by (rule note_send_failure_run)
  define b where "b = retry_bound (sat_add32 (pd_attempts p) 1)"
  define j where "j = (ucast (bs ! 0 :: byte) mod b :: u64)"
  define n where "n = min (j + 1) 60"
  have "unat (sat_add32 (pd_attempts p) 1) = min (2 ^ 32 - 1) (unat (pd_attempts p) + 1)"
    by (simp add: unat_sat_add32)
  then have b: "unat b = min 60 (2 ^ min (unat (pd_attempts p) + 1) 6)"
    unfolding b_def unat_retry_bound by simp
  then have b_bounds: "0 < unat b" "unat b \<le> 60" by simp_all
  have "unat j < unat b"
    unfolding j_def unat_mod_word using b_bounds by simp
  moreover from this have "unat (j + 1) = unat j + 1"
    using b_bounds by (simp add: unat_word_ariths)
  ultimately have n: "1 \<le> unat n" "unat n \<le> unat b"
    using b_bounds by (simp_all add: n_def min_def word_le_nat_alt)
  have le: "now \<le> sat_add64 now n"
    using unat64_bound [of now] by (simp add: word_le_nat_alt unat_sat_add64)
  have ep'': "ep' = put_rel other (r\<lparr>rel_pending := Some (p\<lparr>pd_attempts := sat_add32 (pd_attempts p) 1,
            pd_next_retry_at := sat_add64 now n\<rparr>)\<rparr>) ep"
    unfolding ep' n_def j_def b_def ..
  show ?thesis
    by (rule exI [of _ r], rule exI [of _ p], rule exI [of _ n]) (use r ep'' n le b in simp)
qed

section \<open>Situations the engine does not leave\<close>

text \<open>C34. A pending exchange whose server record is gone or superseded is never given up while its
  decision waits for the other side: whatever the server shows of other exchanges and however
  often it is polled, the endpoint sends its last message again, or waits for its back-off, and
  its state stays exactly as it was. A responder that missed the end of an exchange therefore
  never answers the proposals of later ones.\<close>

theorem superseded_pending_is_stuck:
  assumes "\<not> paused ep (eg_rel s)" "rel_pending (eg_rel s) = Some p" "pd_outbox p \<noteq> []"
    and "pred_option (\<lambda>e. \<not> same_exchange e p) remote"
    and "dc_phase (pd_decision p) = PProposed \<or> dc_phase (pd_decision p) = PReady \<and> other < ep_peer_id ep"
  shows "reconcile_rel C I fill entropy ep other remote now iv idle s =
    (Inr (if pd_next_retry_at p \<le> now then Send (last (pd_outbox p)) else ActNone), s)"
proof -
  have ab: "absorb_remote C other remote p = (Inr (), p)"
    using assms(4) by (cases remote) (simp_all add: absorb_remote_def)
  have ds: "\<not> durably_sent remote p (ep_peer_id ep)"
    using assms(4) by (cases remote) (simp_all add: durably_sent_def)
  have put: "put_pending (Some p) s = s" using assms(2) by simp
  have le: "\<not> ep_peer_id ep < other" if "other < ep_peer_id ep" using that by simp
  show ?thesis
    using assms(3,5) le ds
    by (auto simp: reconcile_rel_pending [OF assms(1,2) ab] put drive_def must_resend_def drive_ready_def Let_def
        simp del: number_less_iff)
qed

text \<open>The engine can report completion without the server's receipt. While the back-off of a failed
  send has not run out, an exchange that is complete in the local copy only is finalised at
  once: the key is stored and the pending exchange dropped although the server has not recorded
  this side's last message.\<close>

theorem completes_without_receipt:
  assumes "\<not> paused ep (eg_rel s)" "rel_pending (eg_rel s) = Some p"
    and "dc_phase (pd_decision p) = PComplete" "absorb_remote C other remote p = (Inr (), p)"
    and "\<not> durably_sent remote p (ep_peer_id ep)" "now < pd_next_retry_at p"
    and "hash C (transcript_encode (pd_transcript p)) = Inr h"
  shows "\<exists>s'. reconcile_rel C I fill entropy ep other remote now iv idle s = (Inr ActComplete, s') \<and>
    rel_pending (eg_rel s') = None \<and> rel_status (eg_rel s') = RsConfirmed"
proof -
  have put: "put_pending (Some p) s = s" using assms(2) by simp
  show ?thesis
    using assms(3,5-7)
    by (simp add: reconcile_rel_pending [OF assms(1,2,4)] put drive_def must_resend_def drive_complete_def not_le)
qed
section \<open>Concrete runs\<close>

definition sample_identity :: "byte \<Rightarrow> identity" where
  "sample_identity k = \<lparr>id_bundle = sample_bundle k, id_kem = pad 3168 [], id_x448 = pad 56 [], id_signing = [k]\<rparr>"

definition sample_registration :: "byte \<Rightarrow> registration" where
  "sample_registration k = \<lparr>rg_expected_revision = None, rg_version = 1, rg_lifecycle = LEnabled,
     rg_bundle = sample_bundle k, rg_emergency = False\<rparr>"

definition sample_link :: management_link where
  "sample_link = \<lparr>ml_provision_id = replicate 16 1, ml_psk = replicate 32 2, ml_verified = False,
     ml_staged = None, ml_previous = None\<rparr>"

text \<open>The endpoint of peer \<open>k\<close> that knows one data peer.\<close>

definition sample_endpoint :: "byte \<Rightarrow> number \<Rightarrow> relationship \<Rightarrow> endpoint" where
  "sample_endpoint k other r =
     \<lparr>ep_network_id = replicate 16 1, ep_peer_id = Number (ucast k), ep_server_id = Number 1,
      ep_server_public_key = replicate 32 9, ep_policy = PolStrict, ep_identity = sample_identity k,
      ep_enrollment = EnAdvertised, ep_registration = sample_registration k, ep_management = sample_link,
      ep_relationships = [(other, r)]\<rparr>"

definition sample_pending :: "phase \<Rightarrow> message list \<Rightarrow> u64 \<Rightarrow> pending" where
  "sample_pending ph outbox retry =
     \<lparr>pd_transcript = sample_transcript 7, pd_candidate = sample_candidate,
      pd_decision = \<lparr>dc_phase = ph, dc_installed = (False, False), dc_confirmed = (False, False)\<rparr>,
      pd_outbox = outbox, pd_installation_intent = False, pd_installed = False, pd_confirmed = False,
      pd_attempts = 0, pd_next_retry_at = retry\<rparr>"

definition sample_rel :: "byte \<Rightarrow> pending option \<Rightarrow> relationship" where
  "sample_rel k p = (new_relationship (sample_bundle k))\<lparr>rel_pending := p\<rparr>"

definition sample_eng :: "relationship \<Rightarrow> (fake_state, nat) eng" where
  "sample_eng r = \<lparr>eg_rel = r, eg_inst = \<lparr>fk_installed = \<lambda>_. None, fk_seen = {}\<rparr>, eg_rng = 0\<rparr>"

lemma sample_eng_simps [simp]:
  "eg_rel (sample_eng r) = r" "fk_installed (eg_inst (sample_eng r)) b = None"
  "rel_pending (sample_rel k p) = p" "rel_sequence (sample_rel k p) = Number 1"
  "\<not> rel_gated (sample_rel k p)" "rel_status (sample_rel k p) = RsAdvertised"
  "rel_remote (sample_rel k p) = sample_bundle k" "rel_confirmed (sample_rel k p) = None"
  "ep_peer_id (sample_endpoint k other r) = Number (ucast k)"
  "ep_server_id (sample_endpoint k other r) = Number 1"
  "ep_relationships (sample_endpoint k other r) = [(other, r)]"
  "ep_enrollment (sample_endpoint k other r) = EnAdvertised"
  "ep_identity (sample_endpoint k other r) = sample_identity k"
  by (simp_all add: sample_eng_def sample_rel_def new_relationship_def sample_endpoint_def)

lemma sample_pending_simps [simp]:
  "pd_outbox (sample_pending ph ms n) = ms" "dc_phase (pd_decision (sample_pending ph ms n)) = ph"
  "pd_next_retry_at (sample_pending ph ms n) = n" "pd_installed (sample_pending ph ms n) = False"
  "pd_transcript (sample_pending ph ms n) = sample_transcript 7"
  by (simp_all add: sample_pending_def)

lemma sample_active [simp]: "\<not> paused (sample_endpoint k other r0) (sample_rel j p)"
  by (simp add: paused_def)

lemma sample_owns: "owns_identity toy_lib (sample_endpoint k other r)"
  by (simp add: owns_identity_def sample_identity_def sample_bundle_def toy_ops)

lemma absorb_nothing [simp]: "absorb_remote C other None p = (Inr (), p)"
  by (simp add: absorb_remote_def)

lemma durably_nothing [simp]: "\<not> durably_sent None p n"
  by (simp add: durably_sent_def)

theorem reconcile_sound_witness:
  "\<exists>a ep' i' g'. reconcile toy_lib fake_installer sample_fill [] (Number 3) None 0 0 0
      (sample_endpoint 2 (Number 3) (sample_rel 3 None), eg_inst (sample_eng (sample_rel 3 None)), 0)
      = (a, (ep', i', g')) \<and> endpoint_sound toy_lib ep'"
proof -
  let ?ep = "sample_endpoint 2 (Number 3) (sample_rel 3 None)"
  obtain a ep' i' g' where run: "reconcile toy_lib fake_installer sample_fill [] (Number 3) None 0 0 0
      (?ep, eg_inst (sample_eng (sample_rel 3 None)), 0) = (a, (ep', i', g'))"
    by (metis prod_cases3 surj_pair)
  have "endpoint_sound toy_lib ?ep"
    by (auto simp: endpoint_sound_def bt_wf_def bt_get_def rel_sound_def split: if_splits)
  from reconcile_sound [OF run this toy_signature sample_owns] run show ?thesis by auto
qed

theorem reconcile_paused_witness:
  "reconcile toy_lib fake_installer sample_fill [] (Number 3) None 0 0 0
     (sample_endpoint 2 (Number 3) (block_relationship (sample_rel 3 None)), \<lparr>fk_installed = \<lambda>_. None, fk_seen = {}\<rparr>, 0)
   = (Inr ActNone, (sample_endpoint 2 (Number 3) (block_relationship (sample_rel 3 None)), \<lparr>fk_installed = \<lambda>_. None, fk_seen = {}\<rparr>, 0))"
proof (rule reconcile_paused)
  show "paused (sample_endpoint 2 (Number 3) (block_relationship (sample_rel 3 None))) (block_relationship (sample_rel 3 None))"
    by (simp add: paused_def block_relationship_def)
qed (simp_all add: bt_wf_def bt_get_def)

definition sample_message :: message where
  "sample_message = draft (sample_transcript 7) KReady (Number 3) []"

lemma emit_inst: "emit C ep k p s = (a, s') \<Longrightarrow> eg_inst s' = eg_inst s"
  by (auto dest: emit_run)

theorem installer_only_after_commit_witness:
  "\<exists>a s'. reconcile_rel toy_lib fake_installer sample_fill [] (sample_endpoint 3 (Number 2) (sample_rel 2 None)) (Number 2) None 0 0 0
      (sample_eng (sample_rel 2 (Some (sample_pending PCommitted [] 0)))) = (a, s') \<and>
    eg_inst s' \<noteq> eg_inst (sample_eng (sample_rel 2 (Some (sample_pending PCommitted [] 0)))) \<and>
    dc_phase (pd_decision (sample_pending PCommitted [] 0)) = PCommitted"
proof -
  let ?p = "sample_pending PCommitted [] 0"
  let ?s = "sample_eng (sample_rel 2 (Some ?p))"
  let ?ep = "sample_endpoint 3 (Number 2) (sample_rel 2 None)"
  obtain a s' where run: "reconcile_rel toy_lib fake_installer sample_fill [] ?ep (Number 2) None 0 0 0 ?s = (a, s')"
    by fastforce
  have "put_pending (Some ?p) ?s = ?s" by simp
  with run have "drive toy_lib fake_installer ?ep (Number 2) None 0 (sample_bundle 2) ?p ?s = (a, s')"
    by (simp add: reconcile_rel_pending [of ?ep ?s ?p])
  then have "drive_committed toy_lib fake_installer ?ep False (sample_bundle 2) ?p ?s = (a, s')"
    by (simp add: drive_def must_resend_def)
  from drive_committed_run [OF this]
  have "fk_installed (eg_inst s') (replicate 16 2) = Some (cd_psk (pd_candidate ?p))"
    by (auto simp: fake_installer_def sample_bundle_def dest!: emit_inst)
  then have moved: "eg_inst s' \<noteq> eg_inst ?s" by (auto simp: sample_eng_def)
  from installer_only_after_commit [OF run moved] run moved show ?thesis by auto
qed

theorem confirmed_only_by_completion_witness:
  "\<exists>s'. reconcile_rel toy_lib fake_installer sample_fill [] (sample_endpoint 3 (Number 2) (sample_rel 2 None)) (Number 2) None 9 0 0
      (sample_eng (sample_rel 2 (Some (sample_pending PComplete [] 0)))) = (Inr ActComplete, s') \<and>
    map_option cf_psk (rel_confirmed (eg_rel s')) = Some (replicate 32 1)"
proof -
  let ?p = "sample_pending PComplete [] 0"
  let ?s = "sample_eng (sample_rel 2 (Some ?p))"
  let ?ep = "sample_endpoint 3 (Number 2) (sample_rel 2 None)"
  have "put_pending (Some ?p) ?s = ?s" by simp
  then obtain s' where run: "reconcile_rel toy_lib fake_installer sample_fill [] ?ep (Number 2) None 9 0 0 ?s
      = (Inr ActComplete, s')"
    by (simp add: reconcile_rel_pending [of ?ep ?s ?p] drive_def must_resend_def drive_complete_def toy_ops)
  from confirmed_only_by_completion [OF run] run show ?thesis
    by (auto simp: sample_pending_def sample_candidate_def)
qed

theorem proposal_uses_fresh_sequence_witness:
  "\<exists>a s'. reconcile_rel toy_lib fake_installer sample_fill [] (sample_endpoint 2 (Number 3) (sample_rel 3 None)) (Number 3) None 0 0 0
      (sample_eng (sample_rel 3 None)) = (a, s') \<and> rel_sequence (eg_rel s') = Number 2"
proof -
  let ?s = "sample_eng (sample_rel 3 None)"
  obtain a s' where run: "reconcile_rel toy_lib fake_installer sample_fill [] (sample_endpoint 2 (Number 3) (sample_rel 3 None))
      (Number 3) None 0 0 0 ?s = (a, s')" by fastforce
  have "number_next (Number 1) = Inr (Number 2)" by (simp add: number_next_Ok)
  with proposal_uses_fresh_sequence [OF run] run show ?thesis
    by (auto simp: rotation_due_def)
qed

theorem note_send_failure_backoff_witness:
  "\<exists>ep'. note_send_failure sample_fill (Number 3) 100
      (sample_endpoint 2 (Number 3) (sample_rel 3 (Some (sample_pending PProposed [] 0))), 0) = (Inr (), (ep', 1)) \<and>
    ep' \<noteq> sample_endpoint 2 (Number 3) (sample_rel 3 (Some (sample_pending PProposed [] 0)))"
proof -
  let ?ep = "sample_endpoint 2 (Number 3) (sample_rel 3 (Some (sample_pending PProposed [] 0)))"
  obtain ep' where run: "note_send_failure sample_fill (Number 3) 100 (?ep, 0) = (Inr (), (ep', 1))"
    by (simp add: note_send_failure_def bt_get_def random_def sample_fill_def Let_def)
  obtain n where "1 \<le> unat n" and ep': "ep' = put_rel (Number 3) ((sample_rel 3 (Some (sample_pending PProposed [] 0)))
      \<lparr>rel_pending := Some ((sample_pending PProposed [] 0)\<lparr>pd_attempts := sat_add32 0 1,
         pd_next_retry_at := sat_add64 100 n\<rparr>)\<rparr>) ?ep"
    using note_send_failure_backoff [OF run] by (auto simp: bt_get_def sample_pending_def)
  have "sat_add32 0 1 = 1" by (simp add: sat_add32_def)
  with ep' have "ep' \<noteq> ?ep"
    by (auto simp: put_rel_def sample_endpoint_def sample_rel_def new_relationship_def sample_pending_def)
  with run show ?thesis by blast
qed

theorem superseded_pending_is_stuck_witness:
  "reconcile_rel toy_lib fake_installer sample_fill [] (sample_endpoint 3 (Number 2) (sample_rel 2 None)) (Number 2) None 5 0 0
     (sample_eng (sample_rel 2 (Some (sample_pending PReady [sample_message] 0))))
   = (Inr (Send sample_message), sample_eng (sample_rel 2 (Some (sample_pending PReady [sample_message] 0))))"
  using superseded_pending_is_stuck [of "sample_endpoint 3 (Number 2) (sample_rel 2 None)"
      "sample_eng (sample_rel 2 (Some (sample_pending PReady [sample_message] 0)))" "sample_pending PReady [sample_message] 0" None "Number 2"
      toy_lib fake_installer sample_fill "[]" 5 0 0]
  by simp

theorem completes_without_receipt_witness:
  "\<exists>s'. reconcile_rel toy_lib fake_installer sample_fill [] (sample_endpoint 3 (Number 2) (sample_rel 2 None)) (Number 2) None 3 0 0
     (sample_eng (sample_rel 2 (Some (sample_pending PComplete [sample_message] 5)))) = (Inr ActComplete, s') \<and>
   rel_pending (eg_rel s') = None"
  using completes_without_receipt [of "sample_endpoint 3 (Number 2) (sample_rel 2 None)"
      "sample_eng (sample_rel 2 (Some (sample_pending PComplete [sample_message] 5)))" "sample_pending PComplete [sample_message] 5"
      toy_lib "Number 2" None 3 _ fake_installer sample_fill "[]" 0 0]
  by (auto simp: toy_ops)

end
