(* ===== verification/EndpointProps.thy ===== *)
theory EndpointProps
  imports EngineProps
begin

text \<open>
  The life of an endpoint: one step relation for everything that changes it, what no step
  undoes, and what a directory fetch may change.
\<close>

section \<open>Everything that can happen to an endpoint\<close>

inductive ep_step :: "crypto_lib \<Rightarrow> 'i installer \<Rightarrow> 'r random_source \<Rightarrow> endpoint \<Rightarrow> endpoint \<Rightarrow> bool"
  for C I fill where
  step_observe: "observe_remote C other b lc ep = Inr ep' \<Longrightarrow> ep_step C I fill ep ep'"
| step_activity: "observe_activity other now rx tx ep = Inr ep' \<Longrightarrow> ep_step C I fill ep ep'"
| step_replace: "replace_identity C i ep = Inr ep' \<Longrightarrow> ep_step C I fill ep ep'"
| step_accept: "accept_registration adv ep = Inr ep' \<Longrightarrow> ep_step C I fill ep ep'"
| step_disable: "disable ep = Inr ep' \<Longrightarrow> ep_step C I fill ep ep'"
| step_emergency: "ep_step C I fill ep (emergency_retire ep)"
| step_reconcile: "reconcile C I fill entropy other remote now iv idle (ep, i, g) = (a, (ep', i', g')) \<Longrightarrow>
    ep_step C I fill ep ep'"
| step_backoff: "note_send_failure fill other now (ep, g) = (r, (ep', g')) \<Longrightarrow> ep_step C I fill ep ep'"

inductive_cases ep_stepE: "ep_step C I fill ep ep'"

definition rel_mono :: "relationship \<Rightarrow> relationship \<Rightarrow> bool" where
  "rel_mono r r' \<longleftrightarrow> (rel_gated r \<longrightarrow> rel_gated r') \<and> (rel_prior_pq r \<longrightarrow> rel_prior_pq r') \<and>
     rel_sequence r \<le> rel_sequence r' \<and> bu_revision (rel_remote r) \<le> bu_revision (rel_remote r') \<and>
     rel_operator_psk r' = rel_operator_psk r \<and> rel_operator_psk_id r' = rel_operator_psk_id r"

definition ep_mono :: "endpoint \<Rightarrow> endpoint \<Rightarrow> bool" where
  "ep_mono ep ep' \<longleftrightarrow> ep_network_id ep' = ep_network_id ep \<and> ep_peer_id ep' = ep_peer_id ep \<and>
     ep_server_id ep' = ep_server_id ep \<and> ep_server_public_key ep' = ep_server_public_key ep \<and>
     ep_policy ep' = ep_policy ep \<and> ep_management ep' = ep_management ep \<and>
     (\<forall>other r. bt_get other (ep_relationships ep) = Some r \<longrightarrow>
        (\<exists>r'. bt_get other (ep_relationships ep') = Some r' \<and> rel_mono r r'))"

lemma rel_mono_refl [simp]: "rel_mono r r"
  by (simp add: rel_mono_def)

lemma rel_mono_trans: "rel_mono r s \<Longrightarrow> rel_mono s t \<Longrightarrow> rel_mono r t"
  by (auto simp: rel_mono_def)

lemma ep_mono_refl [simp]: "ep_mono ep ep"
  by (auto simp: ep_mono_def)

lemma ep_mono_trans: "ep_mono a b \<Longrightarrow> ep_mono b c \<Longrightarrow> ep_mono a c"
  unfolding ep_mono_def by (metis rel_mono_trans)

lemma ep_mono_put:
  "bt_get other (ep_relationships ep) = Some r \<Longrightarrow> rel_mono r r' \<Longrightarrow> ep_mono ep (put_rel other r' ep)"
  by (auto simp: ep_mono_def put_rel_def)

lemma ep_mono_put_new:
  "bt_get other (ep_relationships ep) = None \<Longrightarrow> ep_mono ep (put_rel other r' ep)"
  by (auto simp: ep_mono_def put_rel_def)

lemma ep_mono_map:
  assumes "\<And>r. rel_mono r (f r)" "ep_relationships ep' = bt_map f (ep_relationships ep)"
    and "ep_network_id ep' = ep_network_id ep" "ep_peer_id ep' = ep_peer_id ep"
    "ep_server_id ep' = ep_server_id ep" "ep_server_public_key ep' = ep_server_public_key ep"
    "ep_policy ep' = ep_policy ep" "ep_management ep' = ep_management ep"
  shows "ep_mono ep ep'"
  using assms by (auto simp: ep_mono_def)

lemma frame_mono: "rel_frame r r' \<Longrightarrow> rel_mono r r'"
  by (auto simp: rel_frame_def rel_mono_def)

lemma refresh_mono:
  "bu_revision (rel_remote r) \<le> bu_revision b \<Longrightarrow> rel_mono r (apply_lifecycle lc (refresh_remote i b r))"
  by (auto simp: rel_mono_def apply_lifecycle_def refresh_remote_def Let_def split: option.splits)

lemma observe_remote_run:
  assumes "observe_remote C other b lc ep = Inr ep'"
  shows "other \<noteq> ep_peer_id ep \<and> other \<noteq> ep_server_id ep \<and> bundle_validate C b = Inr () \<and>
    (case bt_get other (ep_relationships ep) of
       None \<Rightarrow> lc = LEnabled \<and> ep' = put_rel other (new_relationship b) ep
     | Some r \<Rightarrow> bu_revision (rel_remote r) \<le> bu_revision b \<and>
         (bu_revision b = bu_revision (rel_remote r) \<longrightarrow> b = rel_remote r) \<and>
         ep' = put_rel other (apply_lifecycle lc (refresh_remote (ep_peer_id ep < other) b r)) ep)"
  using assms
  by (cases lc)
     (auto simp: observe_remote_def bindR_Inr_iff put_rel_def not_less apply_lifecycle_def new_relationship_def
       split: option.splits if_splits)

lemma observe_activity_run:
  assumes "observe_activity other now rx tx ep = Inr ep'"
  shows "ep' = ep \<or> (\<exists>r act. bt_get other (ep_relationships ep) = Some r \<and>
     ep' = put_rel other (r\<lparr>rel_activity := act\<rparr>) ep)"
  using assms by (auto simp: observe_activity_def bindR_Inr_iff put_rel_def Let_def split: if_splits)

lemma replace_identity_run:
  assumes "replace_identity C i ep = Inr ep'"
  shows "(\<forall>r \<in> set (bt_values (ep_relationships ep)). rel_pending r = None) \<and>
    bu_wg (id_bundle i) = bu_wg (id_bundle (ep_identity ep)) \<and>
    bu_id (id_bundle i) \<noteq> bu_id (id_bundle (ep_identity ep)) \<and>
    number_next (bu_revision (id_bundle (ep_identity ep))) = Inr (bu_revision (id_bundle i)) \<and>
    identity_validate C i = Inr () \<and>
    ep' = ep\<lparr>ep_registration := \<lparr>rg_expected_revision = Some (bu_revision (id_bundle (ep_identity ep))),
                rg_version = 1, rg_lifecycle = LEnabled, rg_bundle = id_bundle i, rg_emergency = False\<rparr>,
            ep_identity := i, ep_enrollment := EnRegistering,
            ep_relationships := bt_map block_relationship (ep_relationships ep)\<rparr>"
  using assms by (auto simp: replace_identity_def bindR_Inr_iff Let_def list_ex_iff)

lemma note_send_failure_any:
  assumes "note_send_failure fill other now (ep, g) = (x, (ep', g'))"
  shows "ep' = ep \<or> (\<exists>r q. bt_get other (ep_relationships ep) = Some r \<and>
     ep' = put_rel other (r\<lparr>rel_pending := q\<rparr>) ep)"
  using assms
  by (auto simp: note_send_failure_def put_rel_def Let_def split: option.splits prod.splits sum.splits)

lemma ep_step_mono: "ep_step C I fill ep ep' \<Longrightarrow> ep_mono ep ep'"
proof (induction rule: ep_step.induct)
  case (step_observe other b lc ep ep')
  from observe_remote_run [OF this] show ?case
    by (cases "bt_get other (ep_relationships ep)")
       (auto intro: ep_mono_put_new ep_mono_put refresh_mono simp del: number_le_iff number_less_iff)
next
  case (step_activity other now rx tx ep ep')
  from observe_activity_run [OF this] show ?case
    by (auto intro!: ep_mono_put simp: rel_mono_def)
next
  case (step_replace i ep ep')
  from replace_identity_run [OF this] show ?case
    by (auto intro!: ep_mono_map [of block_relationship] simp: rel_mono_def block_relationship_def)
next
  case (step_accept adv ep ep')
  then show ?case by (auto simp: accept_registration_def bindR_Inr_iff ep_mono_def)
next
  case (step_disable ep ep')
  then show ?case
    by (auto simp: disable_def rel_mono_def split: if_splits intro!: ep_mono_map [of "\<lambda>r. r\<lparr>rel_pending := None\<rparr>"])
next
  case (step_emergency ep)
  show ?case
    by (rule ep_mono_map [of "\<lambda>r. r\<lparr>rel_pending := None, rel_confirmed := None,
           rel_gated := True, rel_status := RsBlocked\<rparr>"]) (simp_all add: emergency_retire_def rel_mono_def)
next
  case (step_reconcile entropy other remote now iv idle ep i g a ep' i' g')
  from reconcile_run [OF this] show ?case
    by (auto intro!: ep_mono_put frame_mono dest!: reconcile_rel_frame)
next
  case (step_backoff other now ep g r ep' g')
  from note_send_failure_any [OF this] show ?case
    by (auto intro!: ep_mono_put simp: rel_mono_def)
qed

lemma ep_steps_mono: "(ep_step C I fill)\<^sup>*\<^sup>* ep ep' \<Longrightarrow> ep_mono ep ep'"
  by (induction rule: rtranclp_induct) (auto intro: ep_mono_trans ep_step_mono)

text \<open>Over its whole life, whatever is observed, reconciled, disabled, retired or replaced in
  whatever order, and failing calls included, an endpoint keeps its network, its own and the
  server's identity, its management secret and every relationship; and in a relationship the
  exchange sequence and the remote bundle's revision never go back, the record that
  post-quantum protection once existed is never erased, and the operator secret never changes.\<close>

theorem endpoint_history_monotone:
  assumes "(ep_step C I fill)\<^sup>*\<^sup>* ep ep'" "bt_get other (ep_relationships ep) = Some r"
  shows "ep_network_id ep' = ep_network_id ep \<and> ep_peer_id ep' = ep_peer_id ep \<and>
    ep_server_id ep' = ep_server_id ep \<and> ep_management ep' = ep_management ep \<and>
    (\<exists>r'. bt_get other (ep_relationships ep') = Some r' \<and> rel_sequence r \<le> rel_sequence r' \<and>
      bu_revision (rel_remote r) \<le> bu_revision (rel_remote r') \<and>
      (rel_prior_pq r \<longrightarrow> rel_prior_pq r') \<and> rel_operator_psk r' = rel_operator_psk r)"
  using ep_steps_mono [OF assms(1)] assms(2) by (fastforce simp: ep_mono_def rel_mono_def simp del: number_le_iff)

text \<open>The gate that identity replacement and emergency retirement close is never opened again: once
  a relationship is gated, no sequence of operations lifts the gate, and every later
  reconciliation of it does nothing. In particular a network that replaces an identity after
  a disable never rotates that relationship's key again.\<close>

theorem gate_never_lifted:
  assumes "(ep_step C I fill)\<^sup>*\<^sup>* ep ep'" "bt_get other (ep_relationships ep) = Some r" "rel_gated r"
    and "bt_wf (ep_relationships ep')" "other \<noteq> ep_peer_id ep" "other \<noteq> ep_server_id ep"
  shows "reconcile C J fill' entropy other remote now iv idle (ep', i, g) = (Inr ActNone, (ep', i, g))"
proof -
  have mono: "ep_mono ep ep'" using ep_steps_mono [OF assms(1)] .
  then obtain r' where "bt_get other (ep_relationships ep') = Some r'" "rel_gated r'"
    using assms(2,3) by (fastforce simp: ep_mono_def rel_mono_def)
  then show ?thesis
    using mono assms(4-6)
    by (simp add: reconcile_def reconcile_rel_paused paused_def bt_insert_same ep_mono_def)
qed

text \<open>A directory fetch is accepted for a data peer with a valid bundle only; a known peer's bundle
  may not go back in revision nor change within one revision. An accepted fetch stores exactly
  that bundle, drops the pending exchange if it is pinned to the superseded bundle, and blocks a
  retired remote without keeping any pending exchange.\<close>

theorem observe_remote_accepts_newer_only:
  assumes "observe_remote C other b lc ep = Inr ep'" "bt_get other (ep_relationships ep) = Some r"
  shows "bu_revision (rel_remote r) \<le> bu_revision b \<and>
    (bu_revision b = bu_revision (rel_remote r) \<longrightarrow> b = rel_remote r) \<and> bundle_validate C b = Inr () \<and>
    (\<exists>r'. bt_get other (ep_relationships ep') = Some r' \<and> rel_remote r' = b \<and>
      rel_confirmed r' = rel_confirmed r \<and> rel_gated r' = rel_gated r \<and>
      (lc = LRetired \<longrightarrow> rel_status r' = RsBlocked \<and> rel_pending r' = None) \<and>
      (\<forall>p. rel_pending r' = Some p \<longrightarrow> rel_pending r = Some p \<and>
         (bu_id b = bu_id (rel_remote r) \<or>
          bu_id (if ep_peer_id ep < other then tr_responder (pd_transcript p) else tr_initiator (pd_transcript p))
            \<noteq> bu_id (rel_remote r))))"
  using observe_remote_run [OF assms(1)] assms(2)
  by (auto simp: put_rel_def apply_lifecycle_def refresh_remote_def Let_def
      simp del: number_le_iff number_less_iff split: option.splits if_splits)

lemma responder_keeps_sequence:
  assumes "reconcile_rel C I fill entropy ep other remote now iv idle s = (a, s')" "other < ep_peer_id ep"
  shows "rel_sequence (eg_rel s') = rel_sequence (eg_rel s)"
proof -
  have R: "reflp same_sequence" "transp same_sequence" by (auto simp: same_sequence_def reflp_def intro: transpI)
  have keeps: "keeps same_sequence (set_pending p)" "keeps same_sequence (on_inst m)" for p m
    by (auto simp: keeps_def same_sequence_def on_inst_def put_pending_def split: prod.splits)
  note intros = keeps_bindS [OF _ _ R(2)] keeps_simple [OF R(1)] keeps
  have answer: "keeps same_sequence (answer_proposal C ep other remote)"
    unfolding answer_proposal_def by (auto intro!: intros split: option.split)
  have emit: "keeps same_sequence (emit C ep k p)" for k p
    unfolding emit_def by (intro intros)
  have "keeps same_sequence (upd_rel (\<lambda>r. r\<lparr>rel_confirmed := x, rel_prior_pq := y, rel_status := z, rel_pending := w\<rparr>))" for x y z w
    by (simp add: keeps_def same_sequence_def)
  then have drive: "keeps same_sequence (drive C I ep other remote now b p)" for b p
    unfolding drive_def drive_ready_def drive_committed_def drive_complete_def Let_def
    by (auto intro!: intros emit split: phase.split)
  have "\<not> ep_peer_id ep < other" using assms(2) by simp
  show ?thesis
  proof (cases "paused ep (eg_rel s)")
    case active: False
    show ?thesis
    proof (cases "rel_pending (eg_rel s)")
      case None
      with assms(1) active \<open>\<not> ep_peer_id ep < other\<close> have "answer_proposal C ep other remote s = (a, s')"
        by (simp add: reconcile_rel_new)
      from keepsD [OF answer this] show ?thesis by (simp add: same_sequence_def)
    next
      case (Some p)
      obtain r p1 where ab: "absorb_remote C other remote p = (r, p1)" by fastforce
      show ?thesis
      proof (cases r)
        case (Inl e)
        with assms(1) active Some ab show ?thesis by (auto simp: reconcile_rel_pending put_pending_def)
      next
        case (Inr u)
        with assms(1) active Some ab
        have "drive C I ep other remote now (rel_remote (eg_rel s)) p1 (put_pending (Some p1) s) = (a, s')"
          by (simp add: reconcile_rel_pending)
        from keepsD [OF drive this] show ?thesis by (simp add: same_sequence_def put_pending_def)
      qed
    qed
  qed (use assms(1) in \<open>simp add: reconcile_rel_paused\<close>)
qed

text \<open>The responder's snapshots stop validating. A responder never advances the sequence of its
  relationship, but the validation of a loaded snapshot demands that a pending exchange's
  sequence is not above it: whenever a reconciliation leaves a responder with a pending exchange
  numbered above the sequence the relationship had before, as from the second rotation on, the
  endpoint it leaves is rejected by \<^verbatim>\<open>EndpointState::validate\<close>.\<close>

theorem responder_snapshot_rejected:
  assumes "reconcile C I fill entropy other remote now iv idle (ep, i, g) = (a, (ep', i', g'))"
    and "other < ep_peer_id ep" "bt_wf (ep_relationships ep)" "bt_get other (ep_relationships ep) = Some r"
    and "bt_get other (ep_relationships ep') = Some r'" "rel_pending r' = Some p"
    and "rel_sequence r < tr_sequence (pd_transcript p)"
  shows "endpoint_validate C ep' \<noteq> Inr ()"
proof
  assume valid: "endpoint_validate C ep' = Inr ()"
  from reconcile_run [OF assms(1)] have "rel_sequence r' = rel_sequence r" "bt_wf (ep_relationships ep')"
    using assms(2-5) by (auto simp: put_rel_def dest: responder_keeps_sequence)
  moreover have "(other, r') \<in> set (ep_relationships ep')"
    using assms(5) calculation(2) by (simp add: bt_get_mem)
  ultimately show False
    using valid assms(6,7)
    by (auto simp: endpoint_validate_def relationship_validate_def pending_validate_def bindR_Inr_iff Let_def)
qed

section \<open>Concrete histories\<close>

theorem endpoint_history_monotone_witness:
  "\<exists>r'. bt_get (Number 3) (ep_relationships (emergency_retire (sample_endpoint 2 (Number 3) (sample_rel 3 None)))) = Some r' \<and>
    rel_sequence (sample_rel 3 None) \<le> rel_sequence r'"
proof -
  have "(ep_step toy_lib fake_installer sample_fill)\<^sup>*\<^sup>* (sample_endpoint 2 (Number 3) (sample_rel 3 None))
      (emergency_retire (sample_endpoint 2 (Number 3) (sample_rel 3 None)))"
    by (rule r_into_rtranclp) (rule step_emergency)
  from endpoint_history_monotone [OF this, of "Number 3" "sample_rel 3 None"] show ?thesis
    by (auto simp: bt_get_def simp del: number_le_iff)
qed

theorem gate_never_lifted_witness:
  "reconcile toy_lib fake_installer sample_fill [] (Number 3) None 0 0 0
     (emergency_retire (sample_endpoint 2 (Number 3) (block_relationship (sample_rel 3 None))), \<lparr>fk_installed = \<lambda>_. None, fk_seen = {}\<rparr>, 0)
   = (Inr ActNone, (emergency_retire (sample_endpoint 2 (Number 3) (block_relationship (sample_rel 3 None))), \<lparr>fk_installed = \<lambda>_. None, fk_seen = {}\<rparr>, 0))"
proof (rule gate_never_lifted)
  show "(ep_step toy_lib fake_installer sample_fill)\<^sup>*\<^sup>* (sample_endpoint 2 (Number 3) (block_relationship (sample_rel 3 None)))
      (emergency_retire (sample_endpoint 2 (Number 3) (block_relationship (sample_rel 3 None))))"
    by (rule r_into_rtranclp) (rule step_emergency)
  show "bt_get (Number 3) (ep_relationships (sample_endpoint 2 (Number 3) (block_relationship (sample_rel 3 None))))
      = Some (block_relationship (sample_rel 3 None))"
    by (simp add: bt_get_def)
qed (simp_all add: block_relationship_def bt_wf_def emergency_retire_def bt_map_def)

theorem observe_remote_accepts_newer_only_witness:
  "\<exists>ep' r'. observe_remote toy_lib (Number 3) (sample_bundle 3) LRetired
      (sample_endpoint 2 (Number 3) (sample_rel 3 (Some (sample_pending PProposed [] 0)))) = Inr ep' \<and>
    bt_get (Number 3) (ep_relationships ep') = Some r' \<and> rel_status r' = RsBlocked \<and> rel_pending r' = None"
proof -
  let ?r = "sample_rel 3 (Some (sample_pending PProposed [] 0))"
  have "bundle_validate toy_lib (sample_bundle 3) = Inr ()"
    by (simp add: bundle_validate_def validate_kem_def sample_bundle_def kem_chunks_ok_zero toy_ops)
  then obtain ep' where run: "observe_remote toy_lib (Number 3) (sample_bundle 3) LRetired (sample_endpoint 2 (Number 3) ?r) = Inr ep'"
    by (simp add: observe_remote_def bt_get_def)
  from observe_remote_accepts_newer_only [OF run, of ?r] run show ?thesis
    by (auto simp: bt_get_def)
qed

theorem responder_snapshot_rejected_witness:
  "endpoint_validate toy_lib (sample_endpoint 3 (Number 2) (sample_rel 2
     (Some ((sample_pending PProposed [sample_message] 0)\<lparr>pd_transcript := (sample_transcript 7)\<lparr>tr_sequence := Number 2\<rparr>\<rparr>)))) \<noteq> Inr ()"
proof -
  let ?p = "(sample_pending PProposed [sample_message] 0)\<lparr>pd_transcript := (sample_transcript 7)\<lparr>tr_sequence := Number 2\<rparr>\<rparr>"
  let ?ep = "sample_endpoint 3 (Number 2) (sample_rel 2 (Some ?p))"
  let ?s = "\<lparr>eg_rel = sample_rel 2 (Some ?p), eg_inst = \<lparr>fk_installed = \<lambda>_. None, fk_seen = {}\<rparr>, eg_rng = 0\<rparr>"
  have put: "put_pending (Some ?p) ?s = ?s" by (simp add: put_pending_def sample_rel_def)
  have "reconcile_rel toy_lib fake_installer sample_fill [] ?ep (Number 2) None 0 0 0 ?s = (Inr (Send sample_message), ?s)"
    using put by (simp add: reconcile_rel_pending [of ?ep ?s ?p] drive_def must_resend_def)
  then have "reconcile toy_lib fake_installer sample_fill [] (Number 2) None 0 0 0
      (?ep, \<lparr>fk_installed = \<lambda>_. None, fk_seen = {}\<rparr>, 0)
      = (Inr (Send sample_message), (?ep\<lparr>ep_relationships := [(Number 2, sample_rel 2 (Some ?p))]\<rparr>, \<lparr>fk_installed = \<lambda>_. None, fk_seen = {}\<rparr>, 0))"
    by (simp add: reconcile_def bt_get_def)
  moreover have "?ep\<lparr>ep_relationships := [(Number 2, sample_rel 2 (Some ?p))]\<rparr> = ?ep"
    by (simp add: sample_endpoint_def)
  ultimately have run: "reconcile toy_lib fake_installer sample_fill [] (Number 2) None 0 0 0
      (?ep, \<lparr>fk_installed = \<lambda>_. None, fk_seen = {}\<rparr>, 0) = (Inr (Send sample_message), (?ep, \<lparr>fk_installed = \<lambda>_. None, fk_seen = {}\<rparr>, 0))"
    by simp
  have get: "bt_get (Number 2) (ep_relationships ?ep) = Some (sample_rel 2 (Some ?p))"
    by (simp add: bt_get_def)
  show ?thesis
    by (rule responder_snapshot_rejected [OF run _ _ get get, of ?p])
       (simp_all add: bt_wf_def sample_transcript_def)
qed

end
