(* ===== verification/Agreement.thy ===== *)
theory Agreement
  imports EngineProps
begin

text \<open>
  The two ends of one exchange: the initiator's proposal, the server's record of it, and the
  responder's answer, with the laws of the cryptographic library as hypotheses.
\<close>

section \<open>Two endpoints and a record\<close>

text \<open>What the two endpoints of an exchange know of each other after a directory fetch and out-of-band
  provisioning: each holds the other's bundle, they share the network and the operator secret,
  and the responder's private keys belong to its bundle (\<^verbatim>\<open>Identity::validate\<close>).\<close>

definition peers_agree :: "crypto_lib \<Rightarrow> endpoint \<Rightarrow> relationship \<Rightarrow> endpoint \<Rightarrow> relationship \<Rightarrow> bool" where
  "peers_agree C ep1 r1 ep2 r2 \<longleftrightarrow>
     ep_network_id ep1 = ep_network_id ep2 \<and> ep_peer_id ep1 < ep_peer_id ep2 \<and>
     rel_remote r1 = id_bundle (ep_identity ep2) \<and> rel_remote r2 = id_bundle (ep_identity ep1) \<and>
     rel_operator_psk r1 = rel_operator_psk r2 \<and>
     owns_identity C ep1 \<and> owns_identity C ep2 \<and>
     hybrid_public C (hybrid_secret (ep_identity ep2)) =
       Inr \<lparr>hp_kem = bu_kem (id_bundle (ep_identity ep2)), hp_x448 = bu_x448 (id_bundle (ep_identity ep2))\<rparr>"

text \<open>The server's record right after the proposal.\<close>

definition proposed_record :: "transcript \<Rightarrow> message \<Rightarrow> exchange \<Rightarrow> bool" where
  "proposed_record t m e \<longleftrightarrow> ex_transcript e = Some t \<and> ex_messages e = [m] \<and>
     dc_phase (ex_decision e) = PProposed \<and> ex_exchange_id e = tr_exchange_id t \<and> ex_sequence e = tr_sequence t"

lemma proposal_outcome:
  assumes "signature_law C" "peers_agree C ep1 (eg_rel s1) ep2 r2"
    and "start_proposal C fill entropy ep1 (ep_peer_id ep2) s1 = (Inr (Send m), s1')"
  obtains p ct sh where "rel_pending (eg_rel s1') = Some p"
    "encapsulate C entropy \<lparr>hp_kem = bu_kem (id_bundle (ep_identity ep2)), hp_x448 = bu_x448 (id_bundle (ep_identity ep2))\<rparr> = Inr (ct, sh)"
    "tr_ciphertext (pd_transcript p) = ct"
    "derive C (sh_kem sh) (sh_x448 sh) (rel_operator_psk (eg_rel s1)) (transcript_encode (pd_transcript p)) = Inr (pd_candidate p)"
    "transcript_fits ep1 (ep_peer_id ep2) (id_bundle (ep_identity ep2)) (pd_transcript p)"
    "pd_decision p = decision_default"
    "signed C (pd_transcript p) KPropose (ep_peer_id ep1) (pd_candidate p) (id_signing (ep_identity ep1)) = Inr m"
    "own_message C ep1 p m"
proof -
  obtain n xid g ct sh cand where st:
    "encapsulate C entropy \<lparr>hp_kem = bu_kem (rel_remote (eg_rel s1)), hp_x448 = bu_x448 (rel_remote (eg_rel s1))\<rparr> = Inr (ct, sh)"
    "derive C (sh_kem sh) (sh_x448 sh) (rel_operator_psk (eg_rel s1))
       (transcript_encode (proposal_transcript ep1 (ep_peer_id ep2) (eg_rel s1) xid ct)) = Inr cand"
    "signed C (proposal_transcript ep1 (ep_peer_id ep2) (eg_rel s1) xid ct) KPropose (ep_peer_id ep1) cand
       (id_signing (ep_identity ep1)) = Inr m"
    "s1' = s1\<lparr>eg_rel := (eg_rel s1)\<lparr>rel_sequence := n,
        rel_pending := Some (fresh_pending (proposal_transcript ep1 (ep_peer_id ep2) (eg_rel s1) xid ct) cand decision_default m)\<rparr>,
      eg_rng := g\<rparr>"
    using start_proposal_Ok [OF assms(3)] by blast
  let ?t = "proposal_transcript ep1 (ep_peer_id ep2) (eg_rel s1) xid ct"
  let ?p = "fresh_pending ?t cand decision_default m"
  have ok: "engine_ok C ep1 (ep_peer_id ep2)"
    using assms(1,2) by (auto simp: engine_ok_def peers_agree_def)
  have fits: "transcript_fits ep1 (ep_peer_id ep2) (id_bundle (ep_identity ep2)) ?t"
    using assms(2) by (simp add: transcript_fits_def proposal_transcript_def peers_agree_def)
  have own: "own_message C ep1 ?p m"
    using signed_own [OF ok, of _ ?p] fits st(3) by (simp add: fresh_pending_def)
  show ?thesis
    by (rule that [of ?p ct sh])
       (use st fits own assms(2) in \<open>simp_all add: fresh_pending_def proposal_transcript_def peers_agree_def\<close>)
qed

lemma responder_candidate:
  assumes laws: "signature_law C" "kem_law C" and agree: "peers_agree C ep1 (eg_rel s1) ep2 (eg_rel s2)"
    and start: "start_proposal C fill entropy ep1 (ep_peer_id ep2) s1 = (Inr (Send m), s1')"
    and p: "rel_pending (eg_rel s1') = Some p" and e: "proposed_record (pd_transcript p) m e"
  shows "answer_proposal C ep2 (ep_peer_id ep1) (Some e) s2 =
    (case signed C (pd_transcript p) KReady (ep_peer_id ep2) (pd_candidate p) (id_signing (ep_identity ep2)) of
       Inl err \<Rightarrow> (Inl err, s2)
     | Inr ready \<Rightarrow> (Inr (Send ready), put_pending
         (Some (fresh_pending (pd_transcript p) (pd_candidate p) (decision_default\<lparr>dc_phase := PReady\<rparr>) ready)) s2))"
proof -
  obtain ct sh where st:
    "encapsulate C entropy \<lparr>hp_kem = bu_kem (id_bundle (ep_identity ep2)), hp_x448 = bu_x448 (id_bundle (ep_identity ep2))\<rparr> = Inr (ct, sh)"
    "tr_ciphertext (pd_transcript p) = ct"
    "derive C (sh_kem sh) (sh_x448 sh) (rel_operator_psk (eg_rel s1)) (transcript_encode (pd_transcript p)) = Inr (pd_candidate p)"
    "transcript_fits ep1 (ep_peer_id ep2) (id_bundle (ep_identity ep2)) (pd_transcript p)"
    "signed C (pd_transcript p) KPropose (ep_peer_id ep1) (pd_candidate p) (id_signing (ep_identity ep1)) = Inr m"
    "own_message C ep1 p m"
    using p by (auto intro: proposal_outcome [OF laws(1) agree start])
  have acc: "acceptable_proposal ep2 (ep_peer_id ep1) (rel_remote (eg_rel s2)) (Some e) = Some (e, pd_transcript p)"
    using e st(4) agree by (simp add: acceptable_proposal_Some proposed_record_def transcript_fits_def peers_agree_def)
  have dec: "decapsulate C (tr_ciphertext (pd_transcript p)) (hybrid_secret (ep_identity ep2)) = Inr sh"
    using decapsulate_encapsulate [OF laws(2) _ st(1)] agree st(2) by (simp add: peers_agree_def)
  have der: "derive C (sh_kem sh) (sh_x448 sh) (rel_operator_psk (eg_rel s2)) (transcript_encode (pd_transcript p)) = Inr (pd_candidate p)"
    using st(3) agree by (simp add: peers_agree_def)
  have find: "find (\<lambda>m. msg_sender_id m = ep_peer_id ep1 \<and> msg_type m = kind_u8 KPropose) (ex_messages e) = Some m"
    using e signed_fields [OF st(5)] by (simp add: proposed_record_def)
  have adv: "advance KReady False decision_default = Inr (decision_default\<lparr>dc_phase := PReady\<rparr>)"
    by (simp add: advance_Ok decision_default_def)
  show ?thesis
    using st(6)
    by (simp add: answer_proposal_def acc dec der find [simplified] adv own_message_def split: sum.split)
qed

lemma ready_absorbed:
  assumes laws: "signature_law C" and agree: "peers_agree C ep1 r1 ep2 r2"
    and fits: "transcript_fits ep1 (ep_peer_id ep2) (id_bundle (ep_identity ep2)) (pd_transcript p)"
    and dec: "pd_decision p = decision_default"
    and propose: "msg_sender_id m = ep_peer_id ep1"
    and ready: "signed C (pd_transcript p) KReady (ep_peer_id ep2) (pd_candidate p) (id_signing (ep_identity ep2)) = Inr ready"
    and e: "same_exchange e p" "ex_messages e = [m, ready]" "\<not> terminal (ex_decision e)"
  shows "absorb_remote C (ep_peer_id ep2) (Some e) p = (Inr (), p\<lparr>pd_decision := decision_default\<lparr>dc_phase := PReady\<rparr>\<rparr>)"
proof -
  have ne: "ep_peer_id ep1 \<noteq> ep_peer_id ep2" using agree by (auto simp: peers_agree_def)
  have ids: "tr_initiator_id (pd_transcript p) = ep_peer_id ep1" "tr_responder_id (pd_transcript p) = ep_peer_id ep2"
    "tr_responder (pd_transcript p) = id_bundle (ep_identity ep2)"
    using fits agree by (auto simp: transcript_fits_def peers_agree_def)
  have auth: "authenticate C ready (pd_transcript p) = Inr ()"
    using signed_authenticates [OF laws _ ready] agree ids ne by (simp add: peers_agree_def owns_identity_def)
  show ?thesis
    using e propose ne auth ids signed_fields [OF ready] signed_shape [OF ready] signed_confirms [OF ready] dec
    by (simp add: absorb_remote_def advance_def decision_default_def)
qed

text \<open>C2. Both ends derive the same key. Let two endpoints hold each other's current bundle and the same
  operator secret. Take the record the server holds after the initiator's proposal: unless its
  own signing fails, the responder answers it with a ready message, and its pending exchange has
  the initiator's transcript and the initiator's candidate, preshared key and both confirmation
  keys included. When the initiator then sees that message in the record, it authenticates and
  confirms it and moves to ready, so that its next step is the commit.\<close>

theorem exchange_keys_agree:
  assumes "signature_law C" "kem_law C" "peers_agree C ep1 (eg_rel s1) ep2 (eg_rel s2)"
    and "start_proposal C fill entropy ep1 (ep_peer_id ep2) s1 = (Inr (Send m), s1')"
    and "rel_pending (eg_rel s1') = Some p1" "proposed_record (pd_transcript p1) m e"
    and "answer_proposal C ep2 (ep_peer_id ep1) (Some e) s2 = (a, s2')"
  shows "(\<exists>err. a = Inl err \<and> s2' = s2 \<and>
      signed C (pd_transcript p1) KReady (ep_peer_id ep2) (pd_candidate p1) (id_signing (ep_identity ep2)) = Inl err) \<or>
    (\<exists>ready p2. a = Inr (Send ready) \<and> rel_pending (eg_rel s2') = Some p2 \<and>
      pd_transcript p2 = pd_transcript p1 \<and> pd_candidate p2 = pd_candidate p1 \<and>
      absorb_remote C (ep_peer_id ep2) (Some (e\<lparr>ex_messages := [m, ready], ex_decision := pd_decision p2\<rparr>)) p1
        = (Inr (), p1\<lparr>pd_decision := pd_decision p2\<rparr>) \<and> dc_phase (pd_decision p2) = PReady)"
proof (cases "signed C (pd_transcript p1) KReady (ep_peer_id ep2) (pd_candidate p1) (id_signing (ep_identity ep2))")
  case (Inl err)
  with responder_candidate [OF assms(1-6)] assms(7) show ?thesis by auto
next
  case (Inr ready)
  let ?d = "decision_default\<lparr>dc_phase := PReady\<rparr>"
  let ?p2 = "fresh_pending (pd_transcript p1) (pd_candidate p1) ?d ready"
  have a: "a = Inr (Send ready)" "s2' = put_pending (Some ?p2) s2"
    using responder_candidate [OF assms(1-6)] assms(7) Inr by auto
  obtain m': "pd_decision p1 = decision_default" "msg_sender_id m = ep_peer_id ep1"
    "transcript_fits ep1 (ep_peer_id ep2) (id_bundle (ep_identity ep2)) (pd_transcript p1)"
    using assms(5) by (auto intro: proposal_outcome [OF assms(1,3,4)] simp: own_message_def)
  have "absorb_remote C (ep_peer_id ep2) (Some (e\<lparr>ex_messages := [m, ready], ex_decision := ?d\<rparr>)) p1
      = (Inr (), p1\<lparr>pd_decision := ?d\<rparr>)"
    by (rule ready_absorbed [OF assms(1,3) m'(3,1,2) Inr])
       (use assms(6) in \<open>simp_all add: same_exchange_def proposed_record_def terminal_def\<close>)
  with a show ?thesis by (simp add: fresh_pending_def)
qed

section \<open>A concrete exchange of keys\<close>

lemma toy_derive: "\<exists>c. derive toy_lib k d psk t = Inr c"
  by (simp add: derive_def expand_def toy_ops) (simp add: toy_lib_def)

lemma toy_signed:
  assumes "is_ok (validate_shape (draft t k s (pad 32 (drop 30 (transcript_encode t)))))"
  shows "\<exists>m. signed toy_lib t k s cand key = Inr m"
  unfolding signed_Ok using assms by (simp add: toy_ops)

lemma toy_proposal:
  fixes s1 :: "(fake_state, nat) eng"
  assumes "s1 = sample_eng (sample_rel 3 None)" "ep1 = sample_endpoint 2 (Number 3) (sample_rel 3 None)"
  shows "\<exists>m s1' p. start_proposal toy_lib sample_fill [5] ep1 (Number 3) s1 = (Inr (Send m), s1') \<and>
    rel_pending (eg_rel s1') = Some p"
proof -
  have nx: "number_next (Number 1) = Inr (Number 2)" by (simp add: number_next_Ok)
  have enc: "encapsulate toy_lib [5] \<lparr>hp_kem = bu_kem (sample_bundle 3), hp_x448 = bu_x448 (sample_bundle 3)\<rparr>
      = Inr (pad 1624 [5], \<lparr>sh_kem = pad 32 [5], sh_x448 = pad 56 [5]\<rparr>)"
    by (simp add: encapsulate_def validate_kem_def sample_bundle_def kem_chunks_ok_zero toy_ops)
       (simp add: toy_lib_def)
  let ?t = "proposal_transcript ep1 (Number 3) (sample_rel 3 None) (replicate 16 1) (pad 1624 [5])"
  obtain c where c: "derive toy_lib (pad 32 [5]) (pad 56 [5]) (rel_operator_psk (sample_rel 3 None)) (transcript_encode ?t) = Inr c"
    using toy_derive by blast
  have "is_ok (validate_shape (draft ?t KPropose (Number 2) h))" for h
    by (simp add: validate_shape_draft proposal_transcript_def assms)
  then obtain m where m: "signed toy_lib ?t KPropose (Number 2) c [2] = Inr m"
    using toy_signed by blast
  have rng: "random sample_fill 16 (eg_rng (sample_eng r)) = (Inr (replicate 16 1), 1)" for r
    by (simp add: random_def sample_fill_def sample_eng_def)
  show ?thesis
    unfolding assms
    using m c
    by (simp add: start_proposal_run nx build_proposal_def Let_def bindS_def on_rng_def rng enc assms
        sample_identity_def sample_eng_def random_def sample_fill_def)
qed

theorem exchange_keys_agree_witness:
  "\<exists>m s1' p1 a s2'. start_proposal toy_lib sample_fill [5] (sample_endpoint 2 (Number 3) (sample_rel 3 None))
      (Number 3) (sample_eng (sample_rel 3 None)) = (Inr (Send m), s1') \<and>
    rel_pending (eg_rel s1') = Some p1 \<and>
    (\<exists>e. answer_proposal toy_lib (sample_endpoint 3 (Number 2) (sample_rel 2 None)) (Number 2) (Some e)
      (sample_eng (sample_rel 2 None)) = (a, s2')) \<and>
    map_option pd_candidate (rel_pending (eg_rel s2')) = Some (pd_candidate p1)"
proof -
  let ?ep1 = "sample_endpoint 2 (Number 3) (sample_rel 3 None)"
  let ?ep2 = "sample_endpoint 3 (Number 2) (sample_rel 2 None)"
  let ?s1 = "sample_eng (sample_rel 3 None)" and ?s2 = "sample_eng (sample_rel 2 None)"
  have agree: "peers_agree toy_lib ?ep1 (eg_rel ?s1) ?ep2 (eg_rel ?s2)"
    by (simp add: peers_agree_def sample_owns)
       (simp add: sample_endpoint_def sample_identity_def hybrid_secret_def hybrid_public_def toy_ops
         sample_bundle_def sample_rel_def new_relationship_def, simp add: toy_lib_def pad_def)
  obtain m s1' p1 where start: "start_proposal toy_lib sample_fill [5] ?ep1 (ep_peer_id ?ep2) ?s1 = (Inr (Send m), s1')"
    and p1: "rel_pending (eg_rel s1') = Some p1"
    using toy_proposal [OF refl refl] by auto
  let ?e = "\<lparr>ex_network_id = [], ex_initiator_id = Number 2, ex_responder_id = Number 3,
    ex_initiator_bundle_id = [], ex_responder_bundle_id = [], ex_sequence = tr_sequence (pd_transcript p1),
    ex_exchange_id = tr_exchange_id (pd_transcript p1), ex_transcript_hash = [], ex_decision = decision_default,
    ex_created_at = 0, ex_prepare_expires_at = 0, ex_transcript = Some (pd_transcript p1),
    ex_messages = [m], ex_receipts = [], ex_termination = None\<rparr>"
  have e: "proposed_record (pd_transcript p1) m ?e"
    by (simp add: proposed_record_def decision_default_def)
  obtain a s2' where ans: "answer_proposal toy_lib ?ep2 (ep_peer_id ?ep1) (Some ?e) ?s2 = (a, s2')" by fastforce
  have ids: "tr_initiator_id (pd_transcript p1) = Number 2" "tr_responder_id (pd_transcript p1) = Number 3"
    by (auto intro: proposal_outcome [OF toy_signature agree start] simp: p1 transcript_fits_def)
  have ready: "\<exists>r. signed toy_lib (pd_transcript p1) KReady (ep_peer_id ?ep2) (pd_candidate p1) key = Inr r" for key
    by (rule toy_signed) (simp add: validate_shape_draft ids)
  have cand: "map_option pd_candidate (rel_pending (eg_rel s2')) = Some (pd_candidate p1)"
    using exchange_keys_agree [OF toy_signature toy_kem agree start p1 e ans]
  proof (elim disjE exE conjE)
    fix err
    assume "signed toy_lib (pd_transcript p1) KReady (ep_peer_id ?ep2) (pd_candidate p1) (id_signing (ep_identity ?ep2)) = Inl err"
    with ready [of "id_signing (ep_identity ?ep2)"] show ?thesis by auto
  qed simp
  have "start_proposal toy_lib sample_fill [5] ?ep1 (Number 3) ?s1 = (Inr (Send m), s1')"
    "answer_proposal toy_lib ?ep2 (Number 2) (Some ?e) ?s2 = (a, s2')"
    using start ans by simp_all
  with p1 cand show ?thesis by blast
qed

end
