(* ===== verification/Database.thy ===== *)
theory Database
  imports Api "HOL-Library.List_Lexorder" "HOL-Library.Product_Lexorder"
begin

text \<open>
  The coordinating server's relational state (\<^verbatim>\<open>server/src/db\<close>): the error values and their
  HTTP status codes, the rows of the peer, CIDR and association tables with the constraints
  and triggers of their schemas, the operations on them, and which peers another peer may
  see. A table is an ordered map from its primary key; a statement that violates a
  constraint fails and changes nothing. Text columns hold what the code writes to them; the
  third-party parsers and printers of addresses are parameters.
\<close>

section \<open>Errors\<close>

datatype db_error = DbNoRows | DbConstraint | DbBusy | DbLocked | DbDiskFull | DbOther

datatype server_error =
    SUnauthorized | SNotFound | SInvalidQuery | SGone | SConflict | SPayloadTooLarge
  | SUnsupportedMedia | SRateLimited | SUnavailable | SPq pq_error | SDatabase db_error
  | SWireGuard | SIo | SJson | SHttp | SHyper

type_synonym 'a sres = "(server_error, 'a) result"

fun status_code :: "server_error \<Rightarrow> nat" where
  "status_code SUnauthorized = 401"
| "status_code SNotFound = 404"
| "status_code SGone = 410"
| "status_code SConflict = 409"
| "status_code (SPq EConflict) = 409"
| "status_code SPayloadTooLarge = 413"
| "status_code SUnsupportedMedia = 415"
| "status_code SRateLimited = 429"
| "status_code SUnavailable = 503"
| "status_code (SPq ERandom) = 503"
| "status_code (SPq _) = 400"
| "status_code SInvalidQuery = 400"
| "status_code SJson = 400"
| "status_code (SDatabase DbBusy) = 503"
| "status_code (SDatabase DbLocked) = 503"
| "status_code (SDatabase DbDiskFull) = 503"
| "status_code (SDatabase DbConstraint) = 400"
| "status_code (SDatabase DbNoRows) = 404"
| "status_code _ = 500"

text \<open>\<^verbatim>\<open>impl TryFrom<ServerError> for Response\<close>: the status and the \<^verbatim>\<open>Retry-After\<close> header.\<close>

definition error_response :: "server_error \<Rightarrow> nat \<times> string option" where
  "error_response e =
     (status_code e, if status_code e \<in> {429, 503} then Some ''1'' else None)"

section \<open>Rows\<close>

datatype ip_addr = IpV4 "32 word" | IpV6 "128 word"

record ip_net =
  net_addr :: ip_addr
  net_prefix :: u8

datatype host = HostDomain string | HostV4 "32 word" | HostV6 "128 word"

record host_port =
  hp_host :: host
  hp_port :: u16

text \<open>The crates \<^verbatim>\<open>ipnet\<close>, \<^verbatim>\<open>url\<close>, \<^verbatim>\<open>base64\<close> and \<^verbatim>\<open>serde_json\<close>, as far as these modules call them.\<close>

record net_lib =
  nl_contains :: "ip_net \<Rightarrow> ip_addr \<Rightarrow> bool"
  nl_covers :: "ip_net \<Rightarrow> ip_net \<Rightarrow> bool"
  nl_network :: "ip_net \<Rightarrow> ip_addr"
  nl_broadcast :: "ip_net \<Rightarrow> ip_addr"
  nl_endpoint_text :: "host_port \<Rightarrow> string"
  nl_endpoint_parse :: "string \<Rightarrow> host_port option"
  nl_candidates_text :: "host_port list \<Rightarrow> string option"
  nl_candidates_parse :: "string \<Rightarrow> host_port list option"
  nl_base64 :: base64

text \<open>\<^verbatim>\<open>CidrContents\<close> and \<^verbatim>\<open>PeerContents\<close>; their row identifiers are the keys of the tables.
  Times are seconds since the epoch.\<close>

record cidr =
  ci_name :: string
  ci_net :: ip_net
  ci_parent :: "int option"

record peer =
  pe_name :: string
  pe_ip :: ip_addr
  pe_cidr_id :: int
  pe_public_key :: string
  pe_endpoint :: "host_port option"
  pe_keepalive :: "u16 option"
  pe_is_admin :: bool
  pe_is_disabled :: bool
  pe_is_redeemed :: bool
  pe_invite_expires :: "int option"
  pe_candidates :: "host_port list"

record peer_row =
  pr_name :: string
  pr_ip :: ip_addr
  pr_cidr_id :: int
  pr_public_key :: string
  pr_endpoint :: "string option"
  pr_is_admin :: bool
  pr_is_disabled :: bool
  pr_is_redeemed :: bool
  pr_invite_expires :: "int option"
  pr_candidates :: "string option"
  pr_is_server :: bool

record bundle_row =
  br_version :: int
  br_bundle_id :: bytes
  br_bundle_revision :: int
  br_wg_public_key :: bytes
  br_kem_public_key :: bytes
  br_x448_public_key :: bytes
  br_sig_public_key :: bytes
  br_lifecycle :: string

text \<open>The \<^verbatim>\<open>record\<close> column is the JSON of the exchange, which the program reads back as it wrote
  it; the other columns are what the indexes and queries use.\<close>

record exchange_row =
  er_sequence :: int
  er_active :: bool
  er_prepare_expires_at :: int
  er_record :: exchange

type_synonym exchange_key = "int \<times> int \<times> bytes \<times> bytes"

record pq_db =
  db_network_id :: bytes
  db_revision :: int
  db_swept :: int
  db_max_peer_id :: int
  db_enabled :: bool
  db_management_ready :: bool
  db_peers :: "(int, peer_row) btree"
  db_cidrs :: "(int, cidr) btree"
  db_associations :: "(int, int \<times> int) btree"
  db_history :: "(bytes, int) btree"
  db_bundles :: "(int, bundle_row) btree"
  db_exchanges :: "(exchange_key, exchange_row) btree"

type_synonym 'a dbS = "(pq_db, server_error, 'a) comp"

definition i64_bound :: int where
  "i64_bound = 9223372036854775808"

section \<open>Statements\<close>

text \<open>A query reads; a write replaces the whole state or fails and leaves it; a transaction
  that ends in an error is rolled back when its guard is dropped.\<close>

definition askS :: "(pq_db \<Rightarrow> 'a sres) \<Rightarrow> 'a dbS" where
  "askS q s = (q s, s)"

definition execS :: "(pq_db \<Rightarrow> pq_db sres) \<Rightarrow> unit dbS" where
  "execS w s = (case w s of Inl e \<Rightarrow> (Inl e, s) | Inr t \<Rightarrow> (Inr (), t))"

definition transaction :: "'a dbS \<Rightarrow> 'a dbS" where
  "transaction m s = (case m s of (Inl e, _) \<Rightarrow> (Inl e, s) | (Inr x, t) \<Rightarrow> (Inr x, t))"

fun for_eachS :: "('a \<Rightarrow> ('s, 'e, unit) comp) \<Rightarrow> 'a list \<Rightarrow> ('s, 'e, unit) comp" where
  "for_eachS f [] s = (Inr (), s)"
| "for_eachS f (x # xs) s = bindS (f x) (\<lambda>_. for_eachS f xs) s"

fun mapR :: "('a \<Rightarrow> ('e, 'b) result) \<Rightarrow> 'a list \<Rightarrow> ('e, 'b list) result" where
  "mapR f [] = Inr []"
| "mapR f (x # xs) = bindR (f x) (\<lambda>y. bindR (mapR f xs) (\<lambda>ys. Inr (y # ys)))"

text \<open>The triggers \<^verbatim>\<open>pq_visibility_*\<close> that \<^verbatim>\<open>migrate\<close> puts on peers, CIDRs, associations and
  bundles: every inserted, updated or deleted row advances \<^verbatim>\<open>visibility_revision\<close>, whose check
  refuses a value that left the integers.\<close>

definition bump :: "pq_db \<Rightarrow> pq_db sres" where
  "bump db = (if db_revision db + 1 < i64_bound then Ok (db\<lparr>db_revision := db_revision db + 1\<rparr>)
     else Err (SDatabase DbConstraint))"

text \<open>The unique columns and the foreign key of \<^verbatim>\<open>peers\<close>, and the index \<^verbatim>\<open>one_server_role\<close>.\<close>

definition peer_fits :: "pq_db \<Rightarrow> int \<Rightarrow> peer_row \<Rightarrow> bool" where
  "peer_fits db i r \<longleftrightarrow>
     pr_cidr_id r \<in> set (bt_keys (db_cidrs db)) \<and>
     list_all (\<lambda>(j, q). j = i \<or> pr_name q \<noteq> pr_name r \<and> pr_ip q \<noteq> pr_ip r \<and>
       pr_public_key q \<noteq> pr_public_key r \<and> \<not> (pr_is_server q \<and> pr_is_server r)) (db_peers db)"

text \<open>The trigger \<^verbatim>\<open>pq_no_reused_peer_id\<close> before, \<^verbatim>\<open>pq_track_peer_id\<close> after an insertion.\<close>

definition insert_peer :: "int \<Rightarrow> peer_row \<Rightarrow> pq_db \<Rightarrow> pq_db sres" where
  "insert_peer i r db =
     (if i \<le> db_max_peer_id db \<or> i \<ge> i64_bound \<or> bt_get i (db_peers db) \<noteq> None \<or> \<not> peer_fits db i r
      then Err (SDatabase DbConstraint)
      else bump (db\<lparr>db_peers := bt_insert i r (db_peers db), db_max_peer_id := i\<rparr>))"

definition update_peer :: "int \<Rightarrow> (peer_row \<Rightarrow> peer_row) \<Rightarrow> pq_db \<Rightarrow> pq_db sres" where
  "update_peer i f db =
     (case bt_get i (db_peers db) of
        None \<Rightarrow> Ok db
      | Some r \<Rightarrow>
          if peer_fits db i (f r) then bump (db\<lparr>db_peers := bt_insert i (f r) (db_peers db)\<rparr>)
          else Err (SDatabase DbConstraint))"

text \<open>A deleted peer takes its bundle and its exchanges with it.\<close>

definition drop_exchanges :: "(exchange_key \<Rightarrow> exchange_row \<Rightarrow> bool) \<Rightarrow> pq_db \<Rightarrow> pq_db" where
  "drop_exchanges P db = db\<lparr>db_exchanges := filter (\<lambda>(k, r). \<not> P k r) (db_exchanges db)\<rparr>"

definition key_of_peer :: "int \<Rightarrow> exchange_key \<Rightarrow> bool" where
  "key_of_peer i k \<longleftrightarrow> fst k = i \<or> fst (snd k) = i"

definition delete_peer :: "int \<Rightarrow> pq_db \<Rightarrow> pq_db sres" where
  "delete_peer i db =
     (if bt_get i (db_peers db) = None then Ok db
      else
        let db1 = drop_exchanges (\<lambda>k r. key_of_peer i k) (db\<lparr>db_peers := bt_remove i (db_peers db)\<rparr>) in
        bindR (if bt_get i (db_bundles db) = None then Ok db1
               else bump (db1\<lparr>db_bundles := bt_remove i (db_bundles db)\<rparr>)) bump)"

section \<open>Addresses and names\<close>

text \<open>\<^verbatim>\<open>IpNetExt::is_assignable\<close>.\<close>

definition is_assignable :: "net_lib \<Rightarrow> ip_net \<Rightarrow> ip_addr \<Rightarrow> bool" where
  "is_assignable L n ip \<longleftrightarrow> nl_contains L n ip \<and>
     (case net_addr n of
        IpV4 _ \<Rightarrow> net_prefix n \<ge> 31 \<or> (ip \<noteq> nl_network L n \<and> ip \<noteq> nl_broadcast L n)
      | IpV6 _ \<Rightarrow> net_prefix n \<ge> 127 \<or> ip \<noteq> nl_network L n)"

definition host_char :: "char \<Rightarrow> bool" where
  "host_char c \<longleftrightarrow> ascii_digit c \<or> (97 \<le> (of_char c :: nat) \<and> (of_char c :: nat) \<le> 122)"

text \<open>The regular expression \<^verbatim>\<open>^([a-z0-9]-?)*[a-z0-9]$\<close> of host and peer names.\<close>

fun hostname_regex :: "string \<Rightarrow> bool" where
  "hostname_regex [] = False"
| "hostname_regex [c] = host_char c"
| "hostname_regex (c # d # s) = (host_char c \<and> (if d = CHR ''-'' then hostname_regex s else hostname_regex (d # s)))"

definition hostname_is_valid :: "string \<Rightarrow> bool" where
  "hostname_is_valid name \<longleftrightarrow> length name < 64 \<and> hostname_regex name"

definition hostname_from_str :: "string \<Rightarrow> (string, string) result" where
  "hostname_from_str name =
     (if hostname_is_valid name then Ok name
      else Err ''invalid hostname string (only alphanumeric with dashes)'')"

definition is_valid_name :: "string \<Rightarrow> bool" where
  "is_valid_name name \<longleftrightarrow> length name < 64 \<and> hostname_regex name"

definition key_from_base64 :: "net_lib \<Rightarrow> string \<Rightarrow> bytes option" where
  "key_from_base64 L key =
     (case b64_decode (nl_base64 L) key of
        None \<Rightarrow> None
      | Some bs \<Rightarrow> if length bs \<noteq> 32 then None else Some bs)"

section \<open>CIDRs\<close>

definition fresh_rowid :: "(int, 'a) btree \<Rightarrow> int" where
  "fresh_rowid m = (if m = [] then 1 else fst (last m) + 1)"

definition cidr_get :: "int \<Rightarrow> pq_db \<Rightarrow> cidr sres" where
  "cidr_get i db = ok_or (bt_get i (db_cidrs db)) (SDatabase DbNoRows)"

text \<open>\<^verbatim>\<open>Iterator::max_by_key\<close>: the last of the greatest elements.\<close>

definition max_by_key :: "('a \<Rightarrow> 'k::linorder) \<Rightarrow> 'a list \<Rightarrow> 'a option" where
  "max_by_key f xs = foldl (\<lambda>acc x. case acc of None \<Rightarrow> Some x
      | Some y \<Rightarrow> if f y \<le> f x then Some x else Some y) None xs"

definition cidr_overlaps :: "net_lib \<Rightarrow> ip_net \<Rightarrow> ip_net \<Rightarrow> bool" where
  "cidr_overlaps L cidr sibling \<longleftrightarrow>
     nl_contains L cidr (nl_network L sibling) \<or> nl_contains L cidr (nl_broadcast L sibling) \<or>
     nl_contains L sibling (nl_network L cidr) \<or> nl_contains L sibling (nl_broadcast L cidr)"

definition insert_cidr :: "cidr \<Rightarrow> pq_db \<Rightarrow> pq_db sres" where
  "insert_cidr c db =
     (if list_all (\<lambda>(j, d). ci_name d \<noteq> ci_name c \<and> ci_net d \<noteq> ci_net c) (db_cidrs db) \<and>
         pred_option (\<lambda>p. bt_get p (db_cidrs db) \<noteq> None) (ci_parent c)
      then bump (db\<lparr>db_cidrs := bt_insert (fresh_rowid (db_cidrs db)) c (db_cidrs db)\<rparr>)
      else Err (SDatabase DbConstraint))"

definition cidr_parent_check :: "net_lib \<Rightarrow> cidr \<Rightarrow> pq_db \<Rightarrow> unit sres" where
  "cidr_parent_check L c db =
     (case ci_parent c of
        None \<Rightarrow> Ok ()
      | Some parent_id \<Rightarrow>
          (case max_by_key (\<lambda>(i, d). net_prefix (ci_net d))
                  (filter (\<lambda>(i, d). nl_covers L (ci_net d) (ci_net c)) (db_cidrs db)) of
             None \<Rightarrow> Err SInvalidQuery
           | Some (closest, _) \<Rightarrow>
               if closest \<noteq> parent_id then Err SInvalidQuery
               else bindR (cidr_get parent_id db) (\<lambda>parent.
                 guardR (\<not> (\<not> nl_contains L (ci_net parent) (nl_network L (ci_net c)) \<or>
                            \<not> nl_contains L (ci_net parent) (nl_broadcast L (ci_net c))))
                   SInvalidQuery)))"

definition cidr_create :: "net_lib \<Rightarrow> cidr \<Rightarrow> (int \<times> cidr) dbS" where
  "cidr_create L c =
     bindS (getS (\<lambda>db. length (filter (\<lambda>(i, r). ci_parent c = Some (pr_cidr_id r)) (db_peers db)))) (\<lambda>attached_peers.
     bindS (liftS (guardR (\<not> attached_peers > 0) SInvalidQuery)) (\<lambda>_.
     bindS (askS (cidr_parent_check L c)) (\<lambda>_.
     bindS (getS (\<lambda>db. \<exists>(i, d) \<in> set (db_cidrs db). ci_parent d = ci_parent c \<and>
         cidr_overlaps L (ci_net c) (ci_net d))) (\<lambda>overlapping_sibling.
     bindS (liftS (guardR (\<not> overlapping_sibling) SInvalidQuery)) (\<lambda>_.
     bindS (getS (\<lambda>db. fresh_rowid (db_cidrs db))) (\<lambda>i.
     bindS (execS (insert_cidr c)) (\<lambda>_.
     retS (i, c))))))))"

text \<open>\<^verbatim>\<open>DatabaseCidr::update\<close> after the handler's \<^verbatim>\<open>get\<close>: only the name changes.\<close>

definition cidr_update :: "int \<Rightarrow> cidr \<Rightarrow> unit dbS" where
  "cidr_update i contents =
     bindS (askS (cidr_get i)) (\<lambda>self.
     execS (\<lambda>db.
       if list_all (\<lambda>(j, d). j = i \<or> ci_name d \<noteq> ci_name contents) (db_cidrs db)
       then bump (db\<lparr>db_cidrs := bt_insert i (self\<lparr>ci_name := ci_name contents\<rparr>) (db_cidrs db)\<rparr>)
       else Err (SDatabase DbConstraint)))"

definition cidr_referenced :: "int \<Rightarrow> pq_db \<Rightarrow> bool" where
  "cidr_referenced i db \<longleftrightarrow>
     (\<exists>(j, c) \<in> set (db_cidrs db). ci_parent c = Some i) \<or>
     (\<exists>(j, r) \<in> set (db_peers db). pr_cidr_id r = i) \<or>
     (\<exists>(j, a, b) \<in> set (db_associations db). a = i \<or> b = i)"

definition cidr_delete :: "int \<Rightarrow> unit dbS" where
  "cidr_delete i = execS (\<lambda>db.
     if bt_get i (db_cidrs db) = None then Ok db
     else if cidr_referenced i db then Err (SDatabase DbConstraint)
     else bump (db\<lparr>db_cidrs := bt_remove i (db_cidrs db)\<rparr>))"

section \<open>Associations\<close>

definition association_create :: "int \<Rightarrow> int \<Rightarrow> (int \<times> int \<times> int) dbS" where
  "association_create cidr_id_1 cidr_id_2 =
     bindS (getS (\<lambda>db. length (filter (\<lambda>(i, a, b). (a = cidr_id_1 \<and> b = cidr_id_2) \<or> (a = cidr_id_2 \<and> b = cidr_id_1))
         (db_associations db)))) (\<lambda>existing_associations.
     bindS (liftS (guardR (\<not> existing_associations > 0) SInvalidQuery)) (\<lambda>_.
     bindS (getS (\<lambda>db. length (filter (\<lambda>(i, c). i = cidr_id_1 \<or> i = cidr_id_2) (db_cidrs db)))) (\<lambda>existing_cidrs.
     bindS (liftS (guardR (\<not> existing_cidrs \<noteq> 2) SInvalidQuery)) (\<lambda>_.
     bindS (getS (\<lambda>db. fresh_rowid (db_associations db))) (\<lambda>i.
     bindS (execS (\<lambda>db. bump (db\<lparr>db_associations := bt_insert i (cidr_id_1, cidr_id_2) (db_associations db)\<rparr>))) (\<lambda>_.
     retS (i, cidr_id_1, cidr_id_2)))))))"

section \<open>Peers\<close>

definition persistent_keepalive_interval_secs :: u16 where
  "persistent_keepalive_interval_secs = 25"

text \<open>\<^verbatim>\<open>DatabasePeer::from_row\<close>.\<close>

definition peer_from_row :: "net_lib \<Rightarrow> peer_row \<Rightarrow> peer sres" where
  "peer_from_row L r =
     bindR (guardR (hostname_is_valid (pr_name r)) (SDatabase DbOther)) (\<lambda>_.
     bindR (guardR (pred_option (\<lambda>t. 0 \<le> t) (pr_invite_expires r)) (SDatabase DbOther)) (\<lambda>_.
     bindR (case pr_candidates r of None \<Rightarrow> Ok []
            | Some text \<Rightarrow> ok_or (nl_candidates_parse L text) (SDatabase DbOther)) (\<lambda>candidates.
     Ok \<lparr>pe_name = pr_name r, pe_ip = pr_ip r, pe_cidr_id = pr_cidr_id r,
         pe_public_key = pr_public_key r,
         pe_endpoint = Option.bind (pr_endpoint r) (nl_endpoint_parse L),
         pe_keepalive = Some persistent_keepalive_interval_secs,
         pe_is_admin = pr_is_admin r, pe_is_disabled = pr_is_disabled r,
         pe_is_redeemed = pr_is_redeemed r, pe_invite_expires = pr_invite_expires r,
         pe_candidates = candidates\<rparr>)))"

definition peer_get :: "net_lib \<Rightarrow> int \<Rightarrow> pq_db \<Rightarrow> peer sres" where
  "peer_get L i db = bindR (ok_or (bt_get i (db_peers db)) (SDatabase DbNoRows)) (peer_from_row L)"

definition peer_rows :: "net_lib \<Rightarrow> (int \<times> peer_row) list \<Rightarrow> (int \<times> peer) list sres" where
  "peer_rows L = mapR (\<lambda>(i, r). bindR (peer_from_row L r) (\<lambda>p. Ok (i, p)))"

definition peer_get_from_ip :: "net_lib \<Rightarrow> ip_addr \<Rightarrow> pq_db \<Rightarrow> (int \<times> peer) sres" where
  "peer_get_from_ip L ip db =
     bindR (ok_or (List.find (\<lambda>(i, r). pr_ip r = ip) (db_peers db)) (SDatabase DbNoRows)) (\<lambda>(i, r).
     bindR (peer_from_row L r) (\<lambda>p. Ok (i, p)))"

definition peer_list :: "net_lib \<Rightarrow> pq_db \<Rightarrow> (int \<times> peer) list sres" where
  "peer_list L db = peer_rows L (db_peers db)"

definition peer_list_enabled :: "net_lib \<Rightarrow> pq_db \<Rightarrow> (int \<times> peer) list sres" where
  "peer_list_enabled L db =
     peer_rows L (filter (\<lambda>(i, r). pr_is_redeemed r \<and> \<not> pr_is_disabled r) (db_peers db))"

definition peer_create :: "net_lib \<Rightarrow> peer \<Rightarrow> (int \<times> peer) dbS" where
  "peer_create L c =
     bindS (liftS (guardR (is_valid_name (pe_name c)) SInvalidQuery)) (\<lambda>_.
     bindS (askS (cidr_get (pe_cidr_id c))) (\<lambda>cidr.
     bindS (liftS (guardR (nl_contains L (ci_net cidr) (pe_ip c)) SInvalidQuery)) (\<lambda>_.
     bindS (liftS (guardR (is_assignable L (ci_net cidr) (pe_ip c)) SInvalidQuery)) (\<lambda>_.
     bindS (liftS (guardR (pred_option (\<lambda>t. 0 \<le> t \<and> t < i64_bound) (pe_invite_expires c)) SInvalidQuery)) (\<lambda>_.
     bindS (liftS (ok_or (nl_candidates_text L (pe_candidates c)) SJson)) (\<lambda>candidates.
     bindS (getS (\<lambda>db. db_max_peer_id db + 1)) (\<lambda>i.
     bindS (execS (insert_peer i
       \<lparr>pr_name = pe_name c, pr_ip = pe_ip c, pr_cidr_id = pe_cidr_id c, pr_public_key = pe_public_key c,
        pr_endpoint = map_option (nl_endpoint_text L) (pe_endpoint c), pr_is_admin = pe_is_admin c,
        pr_is_disabled = pe_is_disabled c, pr_is_redeemed = pe_is_redeemed c,
        pr_invite_expires = pe_invite_expires c, pr_candidates = Some candidates,
        pr_is_server = False\<rparr>)) (\<lambda>_.
     retS (i, c)))))))))"

text \<open>\<^verbatim>\<open>redeem\<close> on a peer loaded as \<open>self\<close>; the clock \<open>now\<close> counts nanoseconds. Its result is the
  peer with the fields the method sets.\<close>

definition peer_redeem :: "int \<Rightarrow> int \<Rightarrow> peer \<Rightarrow> string \<Rightarrow> peer dbS" where
  "peer_redeem now i self pubkey =
     bindS (liftS (guardR (\<not> pe_is_redeemed self) SGone)) (\<lambda>_.
     bindS (liftS (guardR (\<not> (\<exists>t \<in> set_option (pe_invite_expires self). t * 1000000000 < now)) SUnauthorized)) (\<lambda>_.
     bindS (getS (\<lambda>db. pred_option (\<lambda>r. \<not> pr_is_redeemed r) (bt_get i (db_peers db)) \<and> bt_get i (db_peers db) \<noteq> None)) (\<lambda>unredeemed.
     if unredeemed
     then bindS (execS (update_peer i (\<lambda>r. r\<lparr>pr_is_redeemed := True, pr_public_key := pubkey\<rparr>))) (\<lambda>_.
          retS (self\<lparr>pe_public_key := pubkey, pe_is_redeemed := True\<rparr>))
     else failS SNotFound)))"

fun delete_peers :: "int list \<Rightarrow> pq_db \<Rightarrow> pq_db sres" where
  "delete_peers [] db = Ok db"
| "delete_peers (i # is) db = bindR (delete_peer i db) (delete_peers is)"

definition delete_expired_invites :: "int \<Rightarrow> nat dbS" where
  "delete_expired_invites unix_now =
     bindS (liftS (guardR (unix_now < i64_bound) SInvalidQuery)) (\<lambda>_.
     bindS (getS (\<lambda>db. map fst (filter (\<lambda>(i, r). \<not> pr_is_redeemed r \<and>
         (\<exists>t \<in> set_option (pr_invite_expires r). t < unix_now)) (db_peers db)))) (\<lambda>expired.
     bindS (execS (delete_peers expired)) (\<lambda>_.
     retS (length expired))))"

section \<open>Who may see whom\<close>

text \<open>
  The recursive query of \<^verbatim>\<open>get_all_allowed_peers\<close>. \<^verbatim>\<open>parent_of\<close> walks from a CIDR to the root
  (\<^verbatim>\<open>UNION ALL\<close>, so it is bounded by fuel; \<open>parent_of_fuel\<close> of \<open>Visibility\<close> shows that one step for each
  row is enough), and \<^verbatim>\<open>associated_subcidrs\<close> is computed as SQLite does: rows leave a
  queue in order, and a child is queued unless it has been produced before.
\<close>

fun parent_of :: "nat \<Rightarrow> (int, cidr) btree \<Rightarrow> int \<Rightarrow> int list" where
  "parent_of 0 cs i = []"
| "parent_of (Suc n) cs i =
     (case bt_get i cs of
        None \<Rightarrow> []
      | Some c \<Rightarrow> i # (case ci_parent c of None \<Rightarrow> [] | Some p \<Rightarrow> parent_of n cs p))"

definition associated :: "(int, int \<times> int) btree \<Rightarrow> int list \<Rightarrow> int list" where
  "associated as parents = remdups
     (map (\<lambda>(i, a, b). b) (filter (\<lambda>(i, a, b). a \<in> set parents) as) @
      map (\<lambda>(i, a, b). a) (filter (\<lambda>(i, a, b). b \<in> set parents) as))"

definition new_children :: "(int, cidr) btree \<Rightarrow> int \<Rightarrow> int list \<Rightarrow> int list" where
  "new_children cs q seen = map fst (filter (\<lambda>(i, c). ci_parent c = Some q \<and> i \<notin> set seen) cs)"

lemma unseen_children:
  "length (filter (\<lambda>(i, c). i \<notin> set (seen @ new_children cs q seen)) cs) + length (new_children cs q seen)
     \<le> length (filter (\<lambda>(i, c). i \<notin> set seen) cs)"
proof -
  let ?new = "\<lambda>(i, c). ci_parent c = Some q \<and> i \<notin> set seen"
  have "length (filter (\<lambda>(i, c). i \<notin> set (seen @ new_children cs q seen)) ds) + length (filter ?new ds)
      \<le> length (filter (\<lambda>(i, c). i \<notin> set seen) ds)" if "set ds \<subseteq> set cs" for ds
    using that
  proof (induction ds)
    case (Cons d ds)
    have "\<not> (case d of (i, c) \<Rightarrow> i \<notin> set (seen @ new_children cs q seen))" if "?new d"
      using that Cons.prems by (cases d) (force simp: new_children_def)
    with Cons show ?case by (auto split: prod.splits)
  qed simp
  from this [of cs] show ?thesis by (simp add: new_children_def)
qed

function (sequential) sub_cidrs :: "(int, cidr) btree \<Rightarrow> int list \<Rightarrow> int list \<Rightarrow> int list" where
  "sub_cidrs cs [] seen = seen"
| "sub_cidrs cs (q # queue) seen =
     sub_cidrs cs (queue @ new_children cs q seen) (seen @ new_children cs q seen)"
  by pat_completeness auto

termination
proof (relation "measure (\<lambda>(cs, queue, seen). length queue + length (filter (\<lambda>(i, c). i \<notin> set seen) cs))")
  fix cs q queue seen
  show "((cs, queue @ new_children cs q seen, seen @ new_children cs q seen), cs, q # queue, seen)
      \<in> measure (\<lambda>(cs, queue, seen). length queue + length (filter (\<lambda>(i, c). i \<notin> set seen) cs))"
    using unseen_children [of seen cs q] by simp
qed simp

definition associated_subcidrs :: "pq_db \<Rightarrow> int \<Rightarrow> int list" where
  "associated_subcidrs db cidr_id =
     (let base = remdups ([cidr_id, 2] @
            associated (db_associations db) (parent_of (length (db_cidrs db)) (db_cidrs db) cidr_id))
      in sub_cidrs (db_cidrs db) base base)"

definition get_all_allowed_peers :: "net_lib \<Rightarrow> peer \<Rightarrow> pq_db \<Rightarrow> (int \<times> peer) list sres" where
  "get_all_allowed_peers L self db =
     peer_rows L (filter (\<lambda>(i, r). pr_cidr_id r \<in> set (associated_subcidrs db (pe_cidr_id self)) \<and>
        \<not> pr_is_disabled r \<and> pr_is_redeemed r) (db_peers db))"

end
