(* ===== verification/Admission.thy ===== *)
theory Admission
  imports Database
begin

text \<open>
  Bounded admission of mailbox requests (\<^verbatim>\<open>server/src/pq.rs\<close>): the configured limits, the token
  buckets, and the service whose semaphores and buckets a request must pass before its body
  is read. A semaphore is the number of its free permits; a permit that is dropped returns
  them. The clock is an argument: milliseconds since the service started.
\<close>

section \<open>Limits\<close>

record limits =
  lm_peer_active :: u32
  lm_global_active :: u32
  lm_peer_writes :: u64
  lm_global_writes :: u64
  lm_peer_rate :: u32
  lm_peer_burst :: u32
  lm_global_rate :: u32
  lm_global_burst :: u32
  lm_peer_ids :: u32
  lm_bundle_ids :: u32
  lm_database_bytes :: u64
  lm_recovery_reserve_bytes :: u64

definition limits_default :: limits where
  "limits_default = \<lparr>lm_peer_active = 64, lm_global_active = 4096, lm_peer_writes = 2,
     lm_global_writes = 64, lm_peer_rate = 8, lm_peer_burst = 16, lm_global_rate = 128,
     lm_global_burst = 256, lm_peer_ids = 10000, lm_bundle_ids = 100000,
     lm_database_bytes = 256 * 1024 * 1024, lm_recovery_reserve_bytes = 32 * 1024 * 1024\<rparr>"

definition limits_validate :: "limits \<Rightarrow> unit sres" where
  "limits_validate l =
     (if lm_peer_writes l < 2 \<or> lm_global_writes l < 2 \<or> lm_peer_writes l > lm_global_writes l \<or>
         lm_global_writes l > 256 \<or> lm_peer_rate l < 2 \<or> lm_global_rate l < 2 \<or>
         lm_peer_burst l < 2 \<or> lm_global_burst l < 2 \<or> lm_peer_active l = 0 \<or>
         lm_global_active l = 0 \<or> lm_peer_ids l = 0 \<or> lm_bundle_ids l = 0 \<or>
         lm_database_bytes l \<le> lm_recovery_reserve_bytes l \<or>
         lm_recovery_reserve_bytes l < ucast (lm_global_active l) * 4096
      then Err SInvalidQuery else Ok ())"

section \<open>Token buckets\<close>

record bucket =
  bk_tokens :: u64
  bk_last :: u64
  bk_rate :: u32
  bk_burst :: u32

definition bucket_new :: "u32 \<Rightarrow> u32 \<Rightarrow> u64 \<Rightarrow> bucket" where
  "bucket_new rate burst now =
     \<lparr>bk_tokens = ucast burst * 1000, bk_last = now, bk_rate = rate, bk_burst = burst\<rparr>"

text \<open>Tokens are thousandths, so a rate per second accrues per millisecond.\<close>

definition bucket_take :: "u64 \<Rightarrow> bucket \<Rightarrow> bool \<times> bucket" where
  "bucket_take now b =
     (let elapsed = sat_sub64 now (bk_last b);
          tokens = min (sat_add64 (bk_tokens b) (sat_mul64 elapsed (ucast (bk_rate b))))
            (ucast (bk_burst b) * 1000);
          b' = b\<lparr>bk_last := max (bk_last b) now\<rparr> in
      if tokens < 1000 then (False, b'\<lparr>bk_tokens := tokens\<rparr>)
      else (True, b'\<lparr>bk_tokens := tokens - 1000\<rparr>))"

section \<open>The service\<close>

record caller =
  cl_writes :: nat
  cl_new_writes :: nat
  cl_all :: bucket
  cl_new :: bucket

record service =
  sv_limits :: limits
  sv_writes :: nat
  sv_new_writes :: nat
  sv_reads :: nat
  sv_all :: bucket
  sv_new :: bucket
  sv_callers :: "(int, caller) btree"

definition service_with_clock :: "limits \<Rightarrow> u64 \<Rightarrow> service sres" where
  "service_with_clock l now =
     bindR (limits_validate l) (\<lambda>_.
     Ok \<lparr>sv_limits = l, sv_writes = unat (lm_global_writes l),
         sv_new_writes = unat (lm_global_writes l) - max (unat (lm_global_writes l) div 4) 1,
         sv_reads = 8, sv_all = bucket_new (lm_global_rate l) (lm_global_burst l) now,
         sv_new = bucket_new (lm_global_rate l div 2) (lm_global_burst l div 2) now,
         sv_callers = []\<rparr>)"

text \<open>What an admitted request holds until its \<^verbatim>\<open>Permit\<close> is dropped.\<close>

record permit =
  pm_peer :: int
  pm_new :: bool

definition fresh_caller :: "limits \<Rightarrow> u64 \<Rightarrow> caller" where
  "fresh_caller l now = \<lparr>cl_writes = unat (lm_peer_writes l), cl_new_writes = unat (lm_peer_writes l - 1),
     cl_all = bucket_new (lm_peer_rate l) (lm_peer_burst l) now,
     cl_new = bucket_new (lm_peer_rate l div 2) (lm_peer_burst l div 2) now\<rparr>"

text \<open>\<^verbatim>\<open>admission.peers.entry(peer).or_insert_with(..)\<close>.\<close>

definition caller_entry :: "service \<Rightarrow> u64 \<Rightarrow> int \<Rightarrow> caller" where
  "caller_entry s now peer =
     (case bt_get peer (sv_callers s) of Some c \<Rightarrow> c | None \<Rightarrow> fresh_caller (sv_limits s) now)"

text \<open>\<^verbatim>\<open>(new && !new_bucket.take(now)) || !all_bucket.take(now)\<close> on copies of the buckets: the
  admission of the pair and the buckets after it.\<close>

definition take_both :: "bool \<Rightarrow> u64 \<Rightarrow> bucket \<Rightarrow> bucket \<Rightarrow> (bucket \<times> bucket) option" where
  "take_both new now all_bucket new_bucket =
     (let (new_ok, new') = (if new then bucket_take now new_bucket else (True, new_bucket));
          (all_ok, all') = bucket_take now all_bucket in
      if new_ok \<and> all_ok then Some (all', new') else None)"

definition admit :: "u64 \<Rightarrow> int \<Rightarrow> bool \<Rightarrow> (service, server_error, permit) comp" where
  "admit now peer new =
     bindS (getS (\<lambda>s. bt_get peer (sv_callers s) = None \<and>
         length (sv_callers s) \<ge> unat (lm_peer_ids (sv_limits s)))) (\<lambda>full.
     bindS (liftS (guardR (\<not> full) SRateLimited)) (\<lambda>_.
     bindS (getS (\<lambda>s. take_both new now (sv_all s) (sv_new s))) (\<lambda>global.
     bindS (liftS (ok_or global SRateLimited)) (\<lambda>(global_all, global_new).
     bindS (getS (\<lambda>s. caller_entry s now peer)) (\<lambda>caller.
     bindS (modS (\<lambda>s. s\<lparr>sv_callers := bt_insert peer caller (sv_callers s)\<rparr>)) (\<lambda>_.
     bindS (liftS (ok_or (take_both new now (cl_all caller) (cl_new caller)) SRateLimited)) (\<lambda>(caller_all, caller_new).
     bindS (getS (\<lambda>s. sv_writes s > 0 \<and> cl_writes caller > 0 \<and>
         (new \<longrightarrow> sv_new_writes s > 0 \<and> cl_new_writes caller > 0))) (\<lambda>free.
     bindS (liftS (guardR free SRateLimited)) (\<lambda>_.
     bindS (modS (\<lambda>s. s\<lparr>
         sv_writes := sv_writes s - 1,
         sv_new_writes := (if new then sv_new_writes s - 1 else sv_new_writes s),
         sv_callers := bt_insert peer
           \<lparr>cl_writes = cl_writes caller - 1,
            cl_new_writes = (if new then cl_new_writes caller - 1 else cl_new_writes caller),
            cl_all = caller_all, cl_new = caller_new\<rparr> (sv_callers s),
         sv_all := global_all, sv_new := global_new\<rparr>)) (\<lambda>_.
     retS \<lparr>pm_peer = peer, pm_new = new\<rparr>))))))))))"

text \<open>Dropping the permit.\<close>

definition release :: "permit \<Rightarrow> service \<Rightarrow> service" where
  "release p s =
     (case bt_get (pm_peer p) (sv_callers s) of
        None \<Rightarrow> s
      | Some c \<Rightarrow> s\<lparr>
          sv_writes := Suc (sv_writes s),
          sv_new_writes := (if pm_new p then Suc (sv_new_writes s) else sv_new_writes s),
          sv_callers := bt_insert (pm_peer p)
            (c\<lparr>cl_writes := Suc (cl_writes c),
               cl_new_writes := (if pm_new p then Suc (cl_new_writes c) else cl_new_writes c)\<rparr>)
            (sv_callers s)\<rparr>)"

definition admit_read :: "(service, server_error, unit) comp" where
  "admit_read =
     bindS (getS (\<lambda>s. sv_reads s > 0)) (\<lambda>free.
     bindS (liftS (guardR free SRateLimited)) (\<lambda>_.
     modS (\<lambda>s. s\<lparr>sv_reads := sv_reads s - 1\<rparr>)))"

section \<open>The rate of a bucket\<close>

definition bucket_wf :: "bucket \<Rightarrow> bool" where
  "bucket_wf b \<longleftrightarrow> unat (bk_tokens b) \<le> unat (bk_burst b) * 1000"

lemma unat32_bound: "unat (x :: u32) < 4294967296"
  using unsigned_less [of x] by simp

lemma unat_widen [simp]: "unat (ucast (x :: u32) :: u64) = unat x"
  using unat32_bound [of x] by (simp add: unsigned_ucast_eq take_bit_nat_eq_self)

lemma unat_burst: "unat (ucast (x :: u32) * 1000 :: u64) = unat x * 1000"
  using unat32_bound [of x] by (simp add: unat_word_ariths)

lemma unat_min: "unat (min a b) = min (unat a) (unat b)"
  by (simp add: min_def word_le_nat_alt)

lemma unat_max: "unat (max a b) = max (unat a) (unat b)"
  by (simp add: max_def word_le_nat_alt)

lemma min_bound: "min (min a (x + min a y)) c \<le> x + (y :: nat)"
  by (auto simp: min_def)

lemma bucket_new_wf [simp]: "bucket_wf (bucket_new r b now)"
  by (simp add: bucket_wf_def bucket_new_def unat_burst)

lemma bucket_take_step:
  assumes "bucket_take now b = (ok, b')" "bucket_wf b"
  shows "bucket_wf b'" "bk_rate b' = bk_rate b" "bk_burst b' = bk_burst b"
    "bk_last b' = max (bk_last b) now"
    "unat (bk_tokens b') + (if ok then 1000 else 0)
       \<le> unat (bk_tokens b) + (unat (bk_last b') - unat (bk_last b)) * unat (bk_rate b)"
    "unat (bk_tokens b') + (if ok then 1000 else 0) \<le> unat (bk_burst b) * 1000"
proof -
  define t where "t = min (sat_add64 (bk_tokens b) (sat_mul64 (sat_sub64 now (bk_last b)) (ucast (bk_rate b))))
      (ucast (bk_burst b) * 1000)"
  have b': "b' = b\<lparr>bk_last := max (bk_last b) now, bk_tokens := (if ok then t - 1000 else t)\<rparr>"
    and ok: "ok \<longleftrightarrow> \<not> t < 1000"
    using assms(1) by (auto simp: bucket_take_def Let_def t_def [symmetric] split: if_splits)
  have t: "unat t = min (min (2 ^ 64 - 1) (unat (bk_tokens b) + min (2 ^ 64 - 1)
      ((unat now - unat (bk_last b)) * unat (bk_rate b)))) (unat (bk_burst b) * 1000)"
    unfolding t_def
    by (simp only: unat_min unat_burst unat_sat_add64 unat_sat_mul64 unat_sat_sub64 unat_widen)
  have minus: "unat (t - 1000) = unat t - 1000" "1000 \<le> unat t" if ok
    using ok that by (simp_all only: not_less word_le_nat_alt unat_sub) simp_all
  show "bk_rate b' = bk_rate b" "bk_burst b' = bk_burst b" and last: "bk_last b' = max (bk_last b) now"
    by (simp_all add: b')
  have top: "unat t \<le> unat (bk_burst b) * 1000" unfolding t by (rule min.cobounded2)
  then show "bucket_wf b'"
    using minus by (cases ok) (simp_all add: bucket_wf_def b')
  have "unat (bk_last b') - unat (bk_last b) = unat now - unat (bk_last b)"
    by (simp add: last unat_max)
  moreover have "unat t \<le> unat (bk_tokens b) + (unat now - unat (bk_last b)) * unat (bk_rate b)"
    unfolding t by (rule min_bound)
  moreover have "unat (bk_tokens b') + (if ok then 1000 else 0) = unat t"
    using minus by (cases ok) (simp_all add: b')
  ultimately show "unat (bk_tokens b') + (if ok then 1000 else 0)
       \<le> unat (bk_tokens b) + (unat (bk_last b') - unat (bk_last b)) * unat (bk_rate b)"
    and "unat (bk_tokens b') + (if ok then 1000 else 0) \<le> unat (bk_burst b) * 1000"
    using top by simp_all
qed

text \<open>A run of requests and how many of them were let through.\<close>

fun takes :: "u64 list \<Rightarrow> bucket \<Rightarrow> nat \<times> bucket" where
  "takes [] b = (0, b)"
| "takes (now # ts) b =
     (let (ok, b') = bucket_take now b; (n, b'') = takes ts b' in
      (if ok then Suc n else n, b''))"

lemma takes_step:
  "takes ts b = (n, b') \<Longrightarrow> bucket_wf b \<Longrightarrow>
   bucket_wf b' \<and> unat (bk_last b) \<le> unat (bk_last b') \<and>
   1000 * n + unat (bk_tokens b') \<le> unat (bk_tokens b) + (unat (bk_last b') - unat (bk_last b)) * unat (bk_rate b)"
proof (induction ts arbitrary: b n)
  case (Cons now ts)
  obtain ok c where take: "bucket_take now b = (ok, c)" by fastforce
  obtain m where rest: "takes ts c = (m, b')" and n: "n = (if ok then Suc m else m)"
    using Cons.prems(1) take by (auto split: prod.splits)
  note step = bucket_take_step [OF take Cons.prems(2)]
  have le: "unat (bk_last b) \<le> unat (bk_last c)"
    by (simp add: step(4) unat_max)
  from Cons.IH [OF rest step(1)] step(2) have IH: "bucket_wf b'" "unat (bk_last c) \<le> unat (bk_last b')"
    "1000 * m + unat (bk_tokens b') \<le> unat (bk_tokens c) + (unat (bk_last b') - unat (bk_last c)) * unat (bk_rate b)"
    by simp_all
  have "(unat (bk_last b') - unat (bk_last c)) * unat (bk_rate b) + (unat (bk_last c) - unat (bk_last b)) * unat (bk_rate b)
      = (unat (bk_last b') - unat (bk_last b)) * unat (bk_rate b)"
    using le IH(2) by (simp flip: add_mult_distrib)
  with IH step(5) le n show ?case by (auto split: if_splits)
qed simp

lemma takes_history:
  "takes ts (bucket_new rate burst now) = (n, b) \<Longrightarrow> bucket_wf b \<and> bk_rate b = rate \<and> bk_burst b = burst"
proof -
  have "takes ts c = (n, b) \<Longrightarrow> bucket_wf c \<Longrightarrow> bucket_wf b \<and> bk_rate b = bk_rate c \<and> bk_burst b = bk_burst c" for c
  proof (induction ts arbitrary: c n)
    case (Cons t ts)
    obtain ok d where take: "bucket_take t c = (ok, d)" by fastforce
    with Cons.prems obtain m where rest: "takes ts d = (m, b)" by (auto split: prod.splits)
    note step = bucket_take_step [OF take Cons.prems(2)]
    from Cons.IH [OF rest step(1)] step(2,3) show ?case by simp
  qed simp
  moreover have "bk_rate (bucket_new rate burst now) = rate" "bk_burst (bucket_new rate burst now) = burst"
    by (simp_all add: bucket_new_def)
  ultimately show "takes ts (bucket_new rate burst now) = (n, b) \<Longrightarrow> ?thesis" by (metis bucket_new_wf)
qed

text \<open>A run begins with what the cap leaves, however long the bucket was idle before.\<close>

lemma takes_rate:
  assumes "takes us (bucket_new rate burst now) = (m, b)" "takes (t # ts) b = (n, c)"
  shows "1000 * n \<le> 1000 * unat burst + (unat (bk_last c) - unat (max (bk_last b) t)) * unat rate"
proof -
  from takes_history [OF assms(1)] have b: "bucket_wf b" "bk_rate b = rate" "bk_burst b = burst" by simp_all
  obtain ok d where take: "bucket_take t b = (ok, d)" by fastforce
  obtain k where rest: "takes ts d = (k, c)" and n: "n = (if ok then Suc k else k)"
    using assms(2) take by (auto split: prod.splits)
  note first = bucket_take_step [OF take b(1)]
  from takes_step [OF rest first(1)]
  have "1000 * k + unat (bk_tokens c) \<le> unat (bk_tokens d) + (unat (bk_last c) - unat (bk_last d)) * unat (bk_rate d)" by simp
  with first(2,4,6) b n show ?thesis by (auto split: if_splits)
qed

section \<open>Permits\<close>

text \<open>What a rejected and what an admitted request leaves behind.\<close>

lemma admit_Inl:
  "admit now peer new s = (Inl e, s') \<Longrightarrow>
   e = SRateLimited \<and>
   (s' = s \<or> s' = s\<lparr>sv_callers := bt_insert peer (caller_entry s now peer) (sv_callers s)\<rparr>)"
  by (auto simp: admit_def bindS_def getS_def modS_def retS_def liftS_def split: prod.splits sum.splits)

lemma admit_Inr:
  assumes "admit now peer new s = (Inr p, s')"
  shows "p = \<lparr>pm_peer = peer, pm_new = new\<rparr> \<and>
   (\<exists>ga gn ca cn. take_both new now (sv_all s) (sv_new s) = Some (ga, gn) \<and>
      take_both new now (cl_all (caller_entry s now peer)) (cl_new (caller_entry s now peer)) = Some (ca, cn) \<and>
      0 < sv_writes s \<and> 0 < cl_writes (caller_entry s now peer) \<and>
      (new \<longrightarrow> 0 < sv_new_writes s \<and> 0 < cl_new_writes (caller_entry s now peer)) \<and>
      s' = s\<lparr>sv_writes := sv_writes s - 1,
         sv_new_writes := (if new then sv_new_writes s - 1 else sv_new_writes s),
         sv_callers := bt_insert peer
           \<lparr>cl_writes = cl_writes (caller_entry s now peer) - 1,
            cl_new_writes = (if new then cl_new_writes (caller_entry s now peer) - 1
              else cl_new_writes (caller_entry s now peer)),
            cl_all = ca, cl_new = cn\<rparr> (bt_insert peer (caller_entry s now peer) (sv_callers s)),
         sv_all := ga, sv_new := gn\<rparr>)"
  using assms
  by (auto simp: admit_def bindS_def getS_def modS_def retS_def liftS_def split: prod.splits sum.splits)

text \<open>The permits that are out, and the semaphores they came from.\<close>

definition new_capacity :: "limits \<Rightarrow> nat" where
  "new_capacity l = unat (lm_global_writes l) - max (unat (lm_global_writes l) div 4) 1"

definition of_peer :: "int \<Rightarrow> permit list \<Rightarrow> permit list" where
  "of_peer i ps = filter (\<lambda>p. pm_peer p = i) ps"

definition service_inv :: "limits \<Rightarrow> service \<times> permit list \<Rightarrow> bool" where
  "service_inv l sp \<longleftrightarrow> (case sp of (s, ps) \<Rightarrow>
     sv_limits s = l \<and> 2 \<le> unat (lm_peer_writes l) \<and>
     sv_writes s + length ps = unat (lm_global_writes l) \<and>
     sv_new_writes s + length (filter pm_new ps) = new_capacity l \<and>
     (\<forall>p \<in> set ps. bt_get (pm_peer p) (sv_callers s) \<noteq> None) \<and>
     (\<forall>i c. bt_get i (sv_callers s) = Some c \<longrightarrow>
        cl_writes c + length (of_peer i ps) = unat (lm_peer_writes l) \<and>
        cl_new_writes c + length (filter pm_new (of_peer i ps)) = unat (lm_peer_writes l) - 1))"

inductive serve_step :: "service \<times> permit list \<Rightarrow> service \<times> permit list \<Rightarrow> bool" where
  serve_admit: "admit now peer new s = (Inr p, s') \<Longrightarrow> serve_step (s, ps) (s', p # ps)"
| serve_reject: "admit now peer new s = (Inl e, s') \<Longrightarrow> serve_step (s, ps) (s', ps)"
| serve_release: "serve_step (s, qs @ p # ps) (release p s, qs @ ps)"
| serve_read: "admit_read s = (r, s') \<Longrightarrow> serve_step (s, ps) (s', ps)"

inductive_cases serve_stepE: "serve_step sp sp'"

lemma peer_writes_pred: "2 \<le> unat (x :: u64) \<Longrightarrow> unat (x - 1) = unat x - 1"
  by (simp add: unat_sub word_le_nat_alt)

lemma service_inv_entry:
  assumes "service_inv l (s, ps)"
  shows "cl_writes (caller_entry s now i) + length (of_peer i ps) = unat (lm_peer_writes l)"
    "cl_new_writes (caller_entry s now i) + length (filter pm_new (of_peer i ps)) = unat (lm_peer_writes l) - 1"
proof -
  have none: "of_peer i ps = []" if "bt_get i (sv_callers s) = None"
    using assms that by (force simp: service_inv_def of_peer_def filter_empty_conv)
  show "cl_writes (caller_entry s now i) + length (of_peer i ps) = unat (lm_peer_writes l)"
    "cl_new_writes (caller_entry s now i) + length (filter pm_new (of_peer i ps)) = unat (lm_peer_writes l) - 1"
    using assms none
    by (auto simp: service_inv_def caller_entry_def fresh_caller_def peer_writes_pred split: option.splits)
qed

lemma service_inv_admit:
  assumes inv: "service_inv l (s, ps)" and run: "admit now peer new s = (Inr p, s')"
  shows "service_inv l (s', p # ps)"
proof -
  note entry = service_inv_entry [OF inv, of now peer]
  from admit_Inr [OF run] obtain ga gn ca cn where p: "p = \<lparr>pm_peer = peer, pm_new = new\<rparr>"
    and free: "0 < sv_writes s" "0 < cl_writes (caller_entry s now peer)"
      "new \<Longrightarrow> 0 < sv_new_writes s" "new \<Longrightarrow> 0 < cl_new_writes (caller_entry s now peer)"
    and s': "s' = s\<lparr>sv_writes := sv_writes s - 1,
         sv_new_writes := (if new then sv_new_writes s - 1 else sv_new_writes s),
         sv_callers := bt_insert peer
           \<lparr>cl_writes = cl_writes (caller_entry s now peer) - 1,
            cl_new_writes = (if new then cl_new_writes (caller_entry s now peer) - 1
              else cl_new_writes (caller_entry s now peer)),
            cl_all = ca, cl_new = cn\<rparr> (bt_insert peer (caller_entry s now peer) (sv_callers s)),
         sv_all := ga, sv_new := gn\<rparr>" by blast
  from inv entry free show ?thesis
    by (auto simp: service_inv_def p s' of_peer_def split: if_splits)
qed

lemma service_inv_reject:
  "service_inv l (s, ps) \<Longrightarrow> admit now peer new s = (Inl e, s') \<Longrightarrow> service_inv l (s', ps)"
  using service_inv_entry [of l s ps now peer]
  by (auto simp: service_inv_def split: if_splits dest!: admit_Inl)

lemma service_inv_release:
  assumes "service_inv l (s, qs @ p # ps)"
  shows "service_inv l (release p s, qs @ ps)"
proof -
  from assms obtain c where c: "bt_get (pm_peer p) (sv_callers s) = Some c"
    by (auto simp: service_inv_def)
  with assms show ?thesis
    by (fastforce simp: service_inv_def release_def of_peer_def split: if_splits)
qed

lemma service_inv_step: "serve_step sp sp' \<Longrightarrow> service_inv l sp \<Longrightarrow> service_inv l sp'"
proof (induction rule: serve_step.induct)
  case (serve_read s r s' ps)
  then show ?case
    by (auto simp: service_inv_def admit_read_def bindS_def getS_def modS_def liftS_def guardR_def
        split: if_splits)
qed (blast intro: service_inv_admit service_inv_reject service_inv_release)+

lemma service_inv_start: "service_with_clock l now = Inr s \<Longrightarrow> service_inv l (s, [])"
proof -
  assume start: "service_with_clock l now = Inr s"
  then have "\<not> lm_peer_writes l < 2" "\<not> lm_global_writes l < 2"
    by (auto simp: service_with_clock_def limits_validate_def bindR_Inr_iff split: if_splits)
  then have "2 \<le> unat (lm_peer_writes l)" by (simp add: word_less_nat_alt)
  with start show ?thesis
    by (auto simp: service_with_clock_def service_inv_def new_capacity_def bindR_Inr_iff)
qed

lemma service_inv_reach:
  "serve_step\<^sup>*\<^sup>* (s, []) sp \<Longrightarrow> service_with_clock l now = Inr s \<Longrightarrow> service_inv l sp"
  by (induction rule: rtranclp_induct) (auto intro: service_inv_start service_inv_step)

lemma rejected_admit:
  assumes "admit now peer new s = (Inl e, s')"
  shows "e = SRateLimited \<and> sv_writes s' = sv_writes s \<and> sv_new_writes s' = sv_new_writes s \<and>
    sv_all s' = sv_all s \<and> sv_new s' = sv_new s \<and>
    (\<forall>i. bt_get i (sv_callers s') = bt_get i (sv_callers s) \<or>
       bt_get i (sv_callers s) = None \<and> i = peer \<and> bt_get i (sv_callers s') = Some (fresh_caller (sv_limits s) now))"
  using admit_Inl [OF assms] by (auto simp: caller_entry_def split: option.splits if_splits)

lemma permits_bounded:
  assumes "service_with_clock l now = Inr s" "serve_step\<^sup>*\<^sup>* (s, []) (s', ps)"
  shows "sv_writes s' + length ps = unat (lm_global_writes l) \<and>
    length (filter pm_new ps) + max (unat (lm_global_writes l) div 4) 1 \<le> unat (lm_global_writes l) \<and>
    length (of_peer i ps) \<le> unat (lm_peer_writes l) \<and>
    length (filter pm_new (of_peer i ps)) < unat (lm_peer_writes l)"
proof -
  have inv: "service_inv l (s', ps)" by (rule service_inv_reach [OF assms(2,1)])
  from assms(1) have "\<not> lm_global_writes l < 2"
    by (auto simp: service_with_clock_def limits_validate_def bindR_Inr_iff split: if_splits)
  then have "2 \<le> unat (lm_global_writes l)" by (simp add: word_less_nat_alt)
  then have "max (unat (lm_global_writes l) div 4) 1 \<le> unat (lm_global_writes l)" by simp
  moreover have "sv_new_writes s' + length (filter pm_new ps) = new_capacity l"
    using inv by (simp add: service_inv_def)
  ultimately have new: "length (filter pm_new ps) + max (unat (lm_global_writes l) div 4) 1 \<le> unat (lm_global_writes l)"
    unfolding new_capacity_def by linarith
  have "length (of_peer i ps) \<le> unat (lm_peer_writes l)"
    "length (filter pm_new (of_peer i ps)) \<le> unat (lm_peer_writes l) - 1"
    using service_inv_entry [OF inv, of now i] by linarith+
  moreover have "sv_writes s' + length ps = unat (lm_global_writes l)" "2 \<le> unat (lm_peer_writes l)"
    using inv by (simp_all add: service_inv_def)
  ultimately show ?thesis using new by linarith
qed

section \<open>Properties\<close>

text \<open>C37. Token buckets bound the rate in every stretch of time: whatever requests came before, and however
  long none came, any run of requests lets through at most the burst plus the rate times the time
  from its first request to its end on the bucket's clock.\<close>

theorem bucket_rate_bound:
  assumes "takes us (bucket_new rate burst now) = (m, b)" "takes (t # ts) b = (n, c)"
  shows "1000 * n \<le> 1000 * unat burst + (unat (bk_last c) - unat (max (bk_last b) t)) * unat rate"
  using assms by (rule takes_rate)

text \<open>After an hour without requests a burst of two is let through, and one more half a second later.\<close>

theorem bucket_rate_bound_witness:
  "takes [0] (bucket_new 2 2 0) = (1, \<lparr>bk_tokens = 1000, bk_last = 0, bk_rate = 2, bk_burst = 2\<rparr>) \<and>
   takes [3600000, 3600000, 3600000, 3600600] \<lparr>bk_tokens = 1000, bk_last = 0, bk_rate = 2, bk_burst = 2\<rparr>
     = (3, \<lparr>bk_tokens = 200, bk_last = 3600600, bk_rate = 2, bk_burst = 2\<rparr>) \<and>
   1000 * 3 \<le> 1000 * unat (2 :: u32) + (unat (3600600 :: u64) - unat (3600000 :: u64)) * unat (2 :: u32)"
proof -
  let ?b = "\<lparr>bk_tokens = 1000, bk_last = 0, bk_rate = 2, bk_burst = 2\<rparr>"
  have start: "takes [0] (bucket_new 2 2 0) = (1, ?b)"
    by (simp add: bucket_new_def bucket_take_def sat_sub64_def sat_mul64_def sat_add64_def Let_def min_def max_def)
  have run: "takes [3600000, 3600000, 3600000, 3600600] ?b
      = (3, \<lparr>bk_tokens = 200, bk_last = 3600600, bk_rate = 2, bk_burst = 2\<rparr>)"
    by (simp add: bucket_take_def sat_sub64_def sat_mul64_def sat_add64_def Let_def min_def max_def)
  from bucket_rate_bound [OF start run] start run show ?thesis by (simp add: max_def)
qed

text \<open>C36. Whatever is admitted, rejected and released in whatever order, every write permit is
  either free or out, new work never holds the last quarter of the global permits or the last
  permit of a peer, and no peer holds more than its share.\<close>

theorem admission_keeps_reserve:
  assumes "service_with_clock l now = Inr s" "serve_step\<^sup>*\<^sup>* (s, []) (s', ps)"
  shows "sv_writes s' + length ps = unat (lm_global_writes l) \<and>
    length (filter pm_new ps) + max (unat (lm_global_writes l) div 4) 1 \<le> unat (lm_global_writes l) \<and>
    length (of_peer i ps) \<le> unat (lm_peer_writes l) \<and>
    length (filter pm_new (of_peer i ps)) < unat (lm_peer_writes l)"
  using assms by (rule permits_bounded)

theorem admission_keeps_reserve_witness:
  "\<exists>s s' p. service_with_clock limits_default 0 = Inr s \<and> admit 0 7 True s = (Inr p, s') \<and>
     sv_writes s' + 1 = 64 \<and> length (of_peer 7 [p]) \<le> 2"
proof -
  obtain s where start: "service_with_clock limits_default 0 = Inr s"
    by (simp add: service_with_clock_def limits_validate_def limits_default_def)
  have take: "take_both True 0 (bucket_new 128 256 0) (bucket_new 64 128 0)
      = Some (bucket_new 128 256 0\<lparr>bk_tokens := 255000\<rparr>, bucket_new 64 128 0\<lparr>bk_tokens := 127000\<rparr>)"
    "take_both True 0 (bucket_new 8 16 0) (bucket_new 4 8 0)
      = Some (bucket_new 8 16 0\<lparr>bk_tokens := 15000\<rparr>, bucket_new 4 8 0\<lparr>bk_tokens := 7000\<rparr>)"
    by (simp_all add: take_both_def bucket_new_def bucket_take_def sat_sub64_def sat_mul64_def sat_add64_def)
  have s: "sv_limits s = limits_default" "sv_all s = bucket_new 128 256 0" "sv_new s = bucket_new 64 128 0"
    "sv_callers s = []" "sv_writes s = 64" "sv_new_writes s = 48"
    using start by (auto simp: service_with_clock_def limits_validate_def limits_default_def)
  have "fst (admit 0 7 True s) = Inr \<lparr>pm_peer = 7, pm_new = True\<rparr>"
    by (simp add: admit_def s take caller_entry_def fresh_caller_def limits_default_def guardR_def
        bindS_def getS_def modS_def retS_def liftS_def)
  then obtain s' where run: "admit 0 7 True s = (Inr \<lparr>pm_peer = 7, pm_new = True\<rparr>, s')"
    by (cases "admit 0 7 True s") simp
  have "serve_step\<^sup>*\<^sup>* (s, []) (s', [\<lparr>pm_peer = 7, pm_new = True\<rparr>])"
    by (rule r_into_rtranclp, rule serve_admit, rule run)
  from admission_keeps_reserve [OF start this, of 7] start run show ?thesis
    by (auto simp: limits_default_def)
qed

text \<open>A rejected request is not charged: no bucket, permit count or other peer's entry
  changes, whatever stage rejected it; at most the requester's own fresh entry appears.\<close>

theorem rejected_admission_is_free:
  assumes "admit now peer new s = (Inl e, s')"
  shows "e = SRateLimited \<and> sv_writes s' = sv_writes s \<and> sv_new_writes s' = sv_new_writes s \<and>
    sv_all s' = sv_all s \<and> sv_new s' = sv_new s \<and>
    (\<forall>i. bt_get i (sv_callers s') = bt_get i (sv_callers s) \<or>
       bt_get i (sv_callers s) = None \<and> i = peer \<and> bt_get i (sv_callers s') = Some (fresh_caller (sv_limits s) now))"
  using assms by (rule rejected_admit)

theorem rejected_admission_is_free_witness:
  "\<exists>s s'. service_with_clock limits_default 0 = Inr s \<and>
     admit 0 7 True (s\<lparr>sv_writes := 0\<rparr>) = (Inl SRateLimited, s') \<and> sv_all s' = sv_all s"
proof -
  obtain s where start: "service_with_clock limits_default 0 = Inr s"
    by (simp add: service_with_clock_def limits_validate_def limits_default_def)
  have "\<not> is_ok (fst (admit 0 7 True (s\<lparr>sv_writes := 0\<rparr>)))"
    using admit_Inr [of 0 7 True "s\<lparr>sv_writes := 0\<rparr>"] by (cases "admit 0 7 True (s\<lparr>sv_writes := 0\<rparr>)") (auto simp: is_ok_iff)
  then obtain e s' where run: "admit 0 7 True (s\<lparr>sv_writes := 0\<rparr>) = (Inl e, s')"
    by (cases "admit 0 7 True (s\<lparr>sv_writes := 0\<rparr>)"; cases "fst (admit 0 7 True (s\<lparr>sv_writes := 0\<rparr>))") auto
  from rejected_admission_is_free [OF run] start run show ?thesis by auto
qed

end
