(* ===== verification/Mailbox.thy ===== *)
theory Mailbox
  imports Admission
begin

text \<open>
  The transactional mailbox of the coordinating server (\<^verbatim>\<open>server/src/db/pq.rs\<close>): who may use it,
  the published bundles and their registration, the exchange records and the submission of
  protocol messages, termination and the sweep of expired and revoked work. Every write runs
  the sweep first and rolls back only itself when it fails.
\<close>

section \<open>The network row and roles\<close>

text \<open>The libraries the module calls: cryptography, address parsing, the JSON of a message and the
  length of the JSON of a record, and the size of the database file.\<close>

record mail_lib =
  ml_crypto :: crypto_lib
  ml_net :: net_lib
  ml_json :: "message \<Rightarrow> bytes option"
  ml_record_len :: "exchange \<Rightarrow> nat"
  ml_page_count :: "pq_db \<Rightarrow> u64"
  ml_page_size :: u64

definition network :: "pq_db \<Rightarrow> (bytes \<times> int) sres" where
  "network db = bindR (guardR (length (db_network_id db) = 16) SUnavailable) (\<lambda>_.
     Ok (db_network_id db, db_revision db))"

definition ready :: "pq_db \<Rightarrow> bool" where
  "ready db \<longleftrightarrow> db_enabled db \<and> db_management_ready db \<and>
     length (filter (\<lambda>(i, r). pr_is_server r \<and> \<not> pr_is_disabled r \<and> pr_is_redeemed r) (db_peers db)) = 1"

definition set_management_ready :: "bool \<Rightarrow> unit dbS" where
  "set_management_ready b = modS (\<lambda>db. db\<lparr>db_management_ready := b\<rparr>)"

definition enable :: "unit dbS" where
  "enable =
     bindS (getS db_management_ready) (\<lambda>management_ready.
     bindS (liftS (guardR management_ready SInvalidQuery)) (\<lambda>_.
     modS (\<lambda>db. db\<lparr>db_enabled := True\<rparr>)))"

definition identify_server :: "string \<Rightarrow> ip_addr \<Rightarrow> int dbS" where
  "identify_server public_key address = transaction (
     bindS (askS (\<lambda>db. ok_or (List.find (\<lambda>(i, r). pr_public_key r = public_key \<and> pr_ip r = address \<and>
         \<not> pr_is_disabled r \<and> pr_is_redeemed r) (db_peers db)) (SDatabase DbNoRows))) (\<lambda>(i, _).
     bindS (getS (\<lambda>db. map_option fst (List.find (\<lambda>(j, r). pr_is_server r) (db_peers db)))) (\<lambda>prior.
     bindS (liftS (guardR (\<not> (\<exists>j \<in> set_option prior. j \<noteq> i)) SConflict)) (\<lambda>_.
     bindS (getS (\<lambda>db. pred_option pr_is_server (bt_get i (db_peers db)))) (\<lambda>already.
     bindS (if already then retS () else execS (update_peer i (\<lambda>r. r\<lparr>pr_is_server := True\<rparr>))) (\<lambda>_.
     retS i))))))"

definition is_server :: "int \<Rightarrow> pq_db \<Rightarrow> bool sres" where
  "is_server i db = bindR (ok_or (bt_get i (db_peers db)) (SDatabase DbNoRows)) (\<lambda>r. Ok (pr_is_server r))"

definition caller :: "net_lib \<Rightarrow> int \<Rightarrow> string \<Rightarrow> pq_db \<Rightarrow> peer sres" where
  "caller L i key db =
     bindR (peer_get L i db) (\<lambda>peer.
     if pe_is_disabled peer \<or> \<not> pe_is_redeemed peer \<or> pe_public_key peer \<noteq> key
     then Err SUnauthorized else Ok peer)"

definition pair_allowed :: "net_lib \<Rightarrow> int \<Rightarrow> int \<Rightarrow> pq_db \<Rightarrow> unit sres" where
  "pair_allowed L first second db =
     (if first \<le> 0 \<or> second \<le> 0 \<or> first = second then Err SUnauthorized else
      bindR (is_server first db) (\<lambda>s1. if s1 then Err SUnauthorized else
      bindR (is_server second db) (\<lambda>s2. if s2 then Err SUnauthorized else
      bindR (peer_get L first db) (\<lambda>a.
      bindR (peer_get L second db) (\<lambda>b.
      if pe_is_disabled a \<or> pe_is_disabled b \<or> \<not> pe_is_redeemed a \<or> \<not> pe_is_redeemed b
      then Err SUnauthorized else
      bindR (get_all_allowed_peers L a db) (\<lambda>of_a. if second \<notin> fst ` set of_a then Err SUnauthorized else
      bindR (get_all_allowed_peers L b db) (\<lambda>of_b. if first \<notin> fst ` set of_b then Err SUnauthorized else
      Ok ())))))))"

section \<open>Published bundles\<close>

definition sized :: "nat \<Rightarrow> bytes \<Rightarrow> bytes sres" where
  "sized n v = bindR (guardR (length v = n) SUnavailable) (\<lambda>_. Ok v)"

definition bundle_of_row :: "crypto_lib \<Rightarrow> bundle_row \<Rightarrow> advertised_bundle sres" where
  "bundle_of_row C r =
     bindR (sized 16 (br_bundle_id r)) (\<lambda>bid.
     bindR (map_err SPq (number_new (word_of_int (br_bundle_revision r)))) (\<lambda>revision.
     bindR (sized 32 (br_wg_public_key r)) (\<lambda>wg.
     bindR (sized 1568 (br_kem_public_key r)) (\<lambda>kem.
     bindR (sized 56 (br_x448_public_key r)) (\<lambda>x448.
     bindR (sized 67 (br_sig_public_key r)) (\<lambda>sig.
     let b = \<lparr>bu_id = bid, bu_revision = revision, bu_wg = wg,
              bu_kem = kem, bu_x448 = x448, bu_sig = sig\<rparr> in
     bindR (map_err SPq (bundle_validate C b)) (\<lambda>_.
     bindR (if br_lifecycle r = ''enabled'' then Ok LEnabled
            else if br_lifecycle r = ''retired'' then Ok LRetired else Err SUnavailable) (\<lambda>lifecycle.
     bindR (guardR (\<not> br_version r \<noteq> 1) SUnavailable) (\<lambda>_.
     Ok \<lparr>ab_version = 1, ab_lifecycle = lifecycle, ab_bundle = b\<rparr>)))))))))"

definition stored_bundle :: "crypto_lib \<Rightarrow> int \<Rightarrow> pq_db \<Rightarrow> advertised_bundle option sres" where
  "stored_bundle C peer db =
     (case bt_get peer (db_bundles db) of
        None \<Rightarrow> Ok None
      | Some r \<Rightarrow> bindR (bundle_of_row C r) (\<lambda>b. Ok (Some b)))"

definition active_bundle :: "mail_lib \<Rightarrow> int \<Rightarrow> pq_db \<Rightarrow> pq_bundle sres" where
  "active_bundle M peer db =
     bindR (stored_bundle (ml_crypto M) peer db) (\<lambda>found.
     bindR (ok_or found SConflict) (\<lambda>advertised.
     if ab_lifecycle advertised \<noteq> LEnabled then Err SConflict else
     bindR (peer_get (ml_net M) peer db) (\<lambda>current.
     bindR (ok_or (key_from_base64 (ml_net M) (pe_public_key current)) SConflict) (\<lambda>wg.
     if wg \<noteq> bu_wg (ab_bundle advertised) then Err SConflict
     else Ok (ab_bundle advertised)))))"

definition budget :: "mail_lib \<Rightarrow> limits \<Rightarrow> bool \<Rightarrow> pq_db \<Rightarrow> unit sres" where
  "budget M l new_bundle db =
     (if sat_add64 (sat_mul64 (ml_page_count M db) (ml_page_size M)) 32768
           > lm_database_bytes l - lm_recovery_reserve_bytes l \<or>
         length (db_peers db) > unat (lm_peer_ids l) \<or>
         length (db_history db) > unat (lm_bundle_ids l) \<or>
         (new_bundle \<and> length (db_history db) = unat (lm_bundle_ids l))
      then Err SRateLimited else Ok ())"

section \<open>Exchange records\<close>

definition key_of :: "exchange \<Rightarrow> exchange_key" where
  "key_of e = (sint (num_get (ex_initiator_id e)), sint (num_get (ex_responder_id e)),
     ex_initiator_bundle_id e, ex_responder_bundle_id e)"

definition pair_of :: "exchange_key \<Rightarrow> int \<times> int" where
  "pair_of k = (fst k, fst (snd k))"

text \<open>The checks of \<^verbatim>\<open>pq_exchanges\<close>, its foreign keys and the unique index of active exchanges.\<close>

definition exchange_fits :: "mail_lib \<Rightarrow> pq_db \<Rightarrow> exchange_key \<Rightarrow> exchange_row \<Rightarrow> bool" where
  "exchange_fits M db k r \<longleftrightarrow>
     0 < fst k \<and> fst k < fst (snd k) \<and>
     length (fst (snd (snd k))) = 16 \<and> length (snd (snd (snd k))) = 16 \<and>
     er_sequence r > 0 \<and> ml_record_len M (er_record r) \<le> 32768 \<and>
     bt_get (fst k) (db_peers db) \<noteq> None \<and> bt_get (fst (snd k)) (db_peers db) \<noteq> None \<and>
     (er_active r \<longrightarrow> list_all (\<lambda>(k', r'). k' = k \<or> \<not> er_active r' \<or> pair_of k' \<noteq> pair_of k) (db_exchanges db))"

definition i64_of :: "u64 \<Rightarrow> server_error \<Rightarrow> int sres" where
  "i64_of x e = (if x \<le> i64_max then Ok (uint x) else Err e)"

definition save :: "mail_lib \<Rightarrow> exchange \<Rightarrow> unit dbS" where
  "save M e =
     bindS (liftS (i64_of (ex_prepare_expires_at e) SInvalidQuery)) (\<lambda>expires.
     execS (\<lambda>db.
       let row = \<lparr>er_sequence = sint (num_get (ex_sequence e)),
                  er_active = (\<not> terminal (ex_decision e)),
                  er_prepare_expires_at = expires, er_record = e\<rparr> in
       if exchange_fits M db (key_of e) row
       then Ok (db\<lparr>db_exchanges := bt_insert (key_of e) row (db_exchanges db)\<rparr>)
       else Err (SDatabase DbConstraint)))"

definition load_pair :: "int \<Rightarrow> int \<Rightarrow> pq_db \<Rightarrow> exchange list" where
  "load_pair first second db =
     map (\<lambda>(k, r). er_record r)
       (filter (\<lambda>(k, r). pair_of k = (min first second, max first second)) (db_exchanges db))"

definition visit :: "(exchange_key \<Rightarrow> exchange_row \<Rightarrow> bool) \<Rightarrow> (exchange \<Rightarrow> unit dbS) \<Rightarrow> unit dbS" where
  "visit P operation =
     bindS (getS (\<lambda>db. map fst (filter (\<lambda>(k, r). P k r) (db_exchanges db)))) (\<lambda>keys.
     for_eachS (\<lambda>k. bindS (askS (\<lambda>db. ok_or (map_option er_record (bt_get k (db_exchanges db))) (SDatabase DbNoRows)))
       operation) keys)"

definition set_phase :: "phase \<Rightarrow> exchange \<Rightarrow> exchange" where
  "set_phase ph e = e\<lparr>ex_decision := (ex_decision e)\<lparr>dc_phase := ph\<rparr>\<rparr>"

definition terminate_peer :: "mail_lib \<Rightarrow> int \<Rightarrow> string \<Rightarrow> unit dbS" where
  "terminate_peer M i reason =
     visit (\<lambda>k r. er_active r \<and> key_of_peer i k)
       (\<lambda>e. save M (compact ((set_phase PAborted e)\<lparr>ex_termination := Some reason\<rparr>)))"

section \<open>The sweep\<close>

text \<open>What the sweep makes of one record; \<open>changed\<close> tells that visibility has changed since the
  last sweep.\<close>

definition due :: "u64 \<Rightarrow> exchange \<Rightarrow> exchange" where
  "due now e = (if now \<ge> ex_prepare_expires_at e then e\<lparr>ex_decision := expire (ex_decision e)\<rparr> else e)"

definition revoked :: "exchange \<Rightarrow> exchange" where
  "revoked e = (set_phase PAborted e)\<lparr>ex_termination := Some ''revoked''\<rparr>"

definition sweep_finish :: "mail_lib \<Rightarrow> u64 \<Rightarrow> exchange \<Rightarrow> unit dbS" where
  "sweep_finish M now e =
     (if terminal (ex_decision (due now e)) then save M (compact (due now e)) else retS ())"

definition sweep_record :: "mail_lib \<Rightarrow> u64 \<Rightarrow> bool \<Rightarrow> exchange \<Rightarrow> unit dbS" where
  "sweep_record M now changed e =
     bindS (if \<not> changed then retS e
       else bindS (getS (pair_allowed (ml_net M) (sint (num_get (ex_initiator_id e))) (sint (num_get (ex_responder_id e)))))
         (\<lambda>allowed. case allowed of
            Inr _ \<Rightarrow> retS e
          | Inl err \<Rightarrow>
              if err \<in> {SUnauthorized, SNotFound, SDatabase DbNoRows} then retS (revoked e)
              else failS err))
       (sweep_finish M now)"

definition sweep_selects :: "bool \<Rightarrow> int \<Rightarrow> exchange_key \<Rightarrow> exchange_row \<Rightarrow> bool" where
  "sweep_selects changed time k r \<longleftrightarrow>
     (if changed then er_active r \<and> time \<ge> 0
      else er_active r \<and> dc_phase (ex_decision (er_record r)) \<in> {PProposed, PReady} \<and>
        er_prepare_expires_at r \<le> time)"

definition sweep_inner :: "mail_lib \<Rightarrow> u64 \<Rightarrow> unit dbS" where
  "sweep_inner M now =
     bindS (getS (\<lambda>db. db_revision db \<noteq> db_swept db)) (\<lambda>changed.
     bindS (liftS (i64_of now SUnavailable)) (\<lambda>time.
     bindS (visit (sweep_selects changed time) (sweep_record M now changed)) (\<lambda>_.
     if changed then modS (\<lambda>db. db\<lparr>db_swept := db_revision db\<rparr>) else retS ())))"

definition sweep :: "mail_lib \<Rightarrow> u64 \<Rightarrow> unit dbS" where
  "sweep M now = transaction (sweep_inner M now)"

text \<open>\<^verbatim>\<open>write\<close>: the sweep and the operation in one transaction, with a savepoint between.\<close>

definition db_write :: "mail_lib \<Rightarrow> u64 \<Rightarrow> 'a dbS \<Rightarrow> 'a dbS" where
  "db_write M now operation s =
     (case sweep_inner M now s of
        (Inl e, _) \<Rightarrow> (Inl e, s)
      | (Inr _, swept) \<Rightarrow>
          (case operation swept of
             (Inl e, _) \<Rightarrow> (Inl e, swept)
           | (Inr x, t) \<Rightarrow> (Inr x, t)))"

section \<open>Registration\<close>

definition bundle_row_of :: "registration \<Rightarrow> bundle_row" where
  "bundle_row_of request = (let b = rg_bundle request in
     \<lparr>br_version = 1, br_bundle_id = bu_id b,
      br_bundle_revision = sint (num_get (bu_revision b)),
      br_wg_public_key = bu_wg b, br_kem_public_key = bu_kem b,
      br_x448_public_key = bu_x448 b, br_sig_public_key = bu_sig b,
      br_lifecycle = (if rg_lifecycle request = LEnabled then ''enabled'' else ''retired'')\<rparr>)"

definition bundle_fits :: "pq_db \<Rightarrow> int \<Rightarrow> bundle_row \<Rightarrow> bool" where
  "bundle_fits db i r \<longleftrightarrow>
     bt_get i (db_peers db) \<noteq> None \<and> bt_get (br_bundle_id r) (db_history db) \<noteq> None \<and>
     list_all (\<lambda>(j, q). j = i \<or> br_bundle_id q \<noteq> br_bundle_id r) (db_bundles db) \<and>
     br_bundle_revision r > 0 \<and> length (br_wg_public_key r) = 32 \<and> length (br_kem_public_key r) = 1568 \<and>
     length (br_x448_public_key r) = 56 \<and> length (br_sig_public_key r) = 67"

text \<open>The upsert of \<^verbatim>\<open>pq_bundles\<close>; an update leaves the version column alone.\<close>

definition put_bundle :: "int \<Rightarrow> bundle_row \<Rightarrow> pq_db \<Rightarrow> pq_db sres" where
  "put_bundle i r db =
     (let r' = (case bt_get i (db_bundles db) of None \<Rightarrow> r | Some old \<Rightarrow> r\<lparr>br_version := br_version old\<rparr>) in
      if bundle_fits db i r' then bump (db\<lparr>db_bundles := bt_insert i r' (db_bundles db)\<rparr>)
      else Err (SDatabase DbConstraint))"

definition insert_history :: "bytes \<Rightarrow> int \<Rightarrow> pq_db \<Rightarrow> pq_db sres" where
  "insert_history bid i db =
     (if bt_get bid (db_history db) = None \<and> length bid = 16 \<and> 0 < i
      then Ok (db\<lparr>db_history := bt_insert bid i (db_history db)\<rparr>)
      else Err (SDatabase DbConstraint))"

definition desired_of :: "registration \<Rightarrow> advertised_bundle" where
  "desired_of request =
     \<lparr>ab_version = rg_version request, ab_lifecycle = rg_lifecycle request, ab_bundle = rg_bundle request\<rparr>"

definition next_revision :: "number option \<Rightarrow> number res" where
  "next_revision expected = (case expected of None \<Rightarrow> number_new 1 | Some n \<Rightarrow> number_next n)"

definition revision_of :: "advertised_bundle option \<Rightarrow> number option" where
  "revision_of current = map_option (\<lambda>b. bu_revision (ab_bundle b)) current"

text \<open>The branches of a registration that changes something.\<close>

definition register_enabled :: "mail_lib \<Rightarrow> int \<Rightarrow> registration \<Rightarrow> limits \<Rightarrow> advertised_bundle option \<Rightarrow> unit dbS" where
  "register_enabled M i request l current =
     bindS (askS (budget M l True)) (\<lambda>_.
     bindS (liftS (guardR (\<not> (\<exists>b \<in> set_option current.
         bu_id (ab_bundle b) = bu_id (rg_bundle request))) SConflict)) (\<lambda>_.
     bindS (getS (\<lambda>db. bt_get (bu_id (rg_bundle request)) (db_history db) \<noteq> None)) (\<lambda>reused.
     bindS (liftS (guardR (\<not> reused) SConflict)) (\<lambda>_.
     execS (insert_history (bu_id (rg_bundle request)) i)))))"

definition register_retired :: "mail_lib \<Rightarrow> int \<Rightarrow> registration \<Rightarrow> number \<Rightarrow> advertised_bundle option \<Rightarrow> unit dbS" where
  "register_retired M i request nxt current =
     bindS (liftS (ok_or current SConflict)) (\<lambda>b.
     bindS (liftS (guardR (\<not> (ab_bundle b)\<lparr>bu_revision := nxt\<rparr> \<noteq> rg_bundle request) SConflict)) (\<lambda>_.
     terminate_peer M i ''retired''))"

definition register_inner :: "mail_lib \<Rightarrow> int \<Rightarrow> string \<Rightarrow> registration \<Rightarrow> limits \<Rightarrow> advertised_bundle dbS" where
  "register_inner M i key request l =
     bindS (getS ready) (\<lambda>is_ready.
     bindS (liftS (guardR is_ready SUnavailable)) (\<lambda>_.
     bindS (askS (caller (ml_net M) i key)) (\<lambda>_.
     bindS (askS (is_server i)) (\<lambda>server.
     bindS (liftS (guardR (\<not> server) SUnauthorized)) (\<lambda>_.
     bindS (askS (stored_bundle (ml_crypto M) i)) (\<lambda>current.
     bindS (liftS (map_err SPq (bundle_validate (ml_crypto M) (rg_bundle request)))) (\<lambda>_.
     bindS (liftS (guardR (\<not> (rg_version request \<noteq> 1 \<or>
         (rg_emergency request \<and> rg_lifecycle request \<noteq> LRetired))) SInvalidQuery)) (\<lambda>_.
     bindS (liftS (ok_or (key_from_base64 (ml_net M) key) SInvalidQuery)) (\<lambda>wg.
     bindS (liftS (guardR (\<not> wg \<noteq> bu_wg (rg_bundle request)) SInvalidQuery)) (\<lambda>_.
     bindS (liftS (map_err SPq (next_revision (rg_expected_revision request)))) (\<lambda>nxt.
     bindS (liftS (guardR (\<not> bu_revision (rg_bundle request) \<noteq> nxt) SConflict)) (\<lambda>_.
     if current = Some (desired_of request) then retS (desired_of request) else
     bindS (liftS (guardR (\<not> revision_of current \<noteq> rg_expected_revision request) SConflict)) (\<lambda>_.
     bindS (getS (\<lambda>db. list_ex (\<lambda>(k, r). er_active r \<and> key_of_peer i k) (db_exchanges db))) (\<lambda>active.
     bindS (liftS (guardR (\<not> (active \<and> \<not> (rg_emergency request \<and> rg_lifecycle request = LRetired))) SConflict)) (\<lambda>_.
     bindS (case rg_lifecycle request of
              LEnabled \<Rightarrow> register_enabled M i request l current
            | LRetired \<Rightarrow> register_retired M i request nxt current) (\<lambda>_.
     bindS (execS (put_bundle i (bundle_row_of request))) (\<lambda>_.
     bindS (modS (drop_exchanges (\<lambda>k r. \<not> er_active r \<and> key_of_peer i k))) (\<lambda>_.
     retS (desired_of request)))))))))))))))))))"

definition register :: "mail_lib \<Rightarrow> int \<Rightarrow> string \<Rightarrow> registration \<Rightarrow> limits \<Rightarrow> u64 \<Rightarrow> advertised_bundle dbS" where
  "register M i key request l now = db_write M now (register_inner M i key request l)"

section \<open>Submission\<close>

text \<open>A message of the sequence that is stored: a retry, a conflict or the next step.\<close>

definition submit_current :: "mail_lib \<Rightarrow> bool \<Rightarrow> message \<Rightarrow> kind \<Rightarrow> message_digest \<Rightarrow> exchange \<Rightarrow> exchange dbS" where
  "submit_current M initiator m kind digest record =
     bindS (liftS (guardR (\<not> (msg_exchange_id m \<noteq> ex_exchange_id record \<or>
         msg_transcript_hash m \<noteq> ex_transcript_hash record)) SConflict)) (\<lambda>_.
     if digest \<in> set (ex_receipts record) then retS record else
     bindS (liftS (guardR (\<not> (terminal (ex_decision record) \<or>
         list_ex (\<lambda>r. md_sender_id r = msg_sender_id m \<and> md_type r = msg_type m) (ex_receipts record))) SConflict)) (\<lambda>_.
     bindS (liftS (ok_or (ex_transcript record) SUnavailable)) (\<lambda>t.
     bindS (liftS (map_err SPq (authenticate (ml_crypto M) m t))) (\<lambda>_.
     bindS (liftS (map_err SPq (advance kind initiator (ex_decision record)))) (\<lambda>d.
     let record' = compact (record\<lparr>ex_decision := d, ex_messages := ex_messages record @ [m],
           ex_receipts := ex_receipts record @ [digest]\<rparr>) in
     bindS (save M record') (\<lambda>_.
     retS record'))))))"

definition active_count :: "(exchange_key \<Rightarrow> bool) \<Rightarrow> pq_db \<Rightarrow> nat" where
  "active_count P db = length (filter (\<lambda>(k, r). er_active r \<and> P k) (db_exchanges db))"

text \<open>A proposal that opens a new exchange.\<close>

definition submit_proposal ::
    "mail_lib \<Rightarrow> int \<Rightarrow> int \<Rightarrow> message \<Rightarrow> kind \<Rightarrow> message_digest \<Rightarrow> bytes \<Rightarrow> pq_bundle \<Rightarrow> pq_bundle \<Rightarrow>
     exchange list \<Rightarrow> limits \<Rightarrow> u64 \<Rightarrow> exchange dbS" where
  "submit_proposal M i other m kind digest network_id first second records l now =
     bindS (liftS (guardR (\<not> (kind \<noteq> KPropose \<or>
         list_ex (\<lambda>r. \<not> terminal (ex_decision r)) records)) SConflict)) (\<lambda>_.
     bindS (askS (budget M l False)) (\<lambda>_.
     bindS (getS (active_count (\<lambda>_. True))) (\<lambda>global.
     bindS (getS (\<lambda>db. list_ex (\<lambda>peer. active_count (key_of_peer peer) db \<ge> unat (lm_peer_active l) \<or>
         global \<ge> unat (lm_global_active l)) [i, other])) (\<lambda>limited.
     bindS (liftS (guardR (\<not> limited) SRateLimited)) (\<lambda>_.
     bindS (liftS (ok_or (msg_operator_psk_id m) SInvalidQuery)) (\<lambda>psk_id.
     bindS (liftS (ok_or (msg_ciphertext m) SInvalidQuery)) (\<lambda>ciphertext.
     let t = \<lparr>tr_network_id = network_id, tr_initiator_id = msg_initiator_id m,
              tr_responder_id = msg_responder_id m, tr_initiator = first, tr_responder = second,
              tr_sequence = msg_sequence m, tr_exchange_id = msg_exchange_id m,
              tr_operator_psk_id = psk_id, tr_ciphertext = ciphertext\<rparr> in
     bindS (liftS (map_err SPq (transcript_validate (ml_crypto M) t))) (\<lambda>_.
     bindS (liftS (map_err SPq (authenticate (ml_crypto M) m t))) (\<lambda>_.
     bindS (liftS (map_err SPq (hash (ml_crypto M) (transcript_encode t)))) (\<lambda>h.
     bindS (liftS (ok_or (checked_add64 now prepare_ttl) SInvalidQuery)) (\<lambda>expires.
     let record = \<lparr>ex_network_id = network_id, ex_initiator_id = msg_initiator_id m,
           ex_responder_id = msg_responder_id m, ex_initiator_bundle_id = bu_id first,
           ex_responder_bundle_id = bu_id second, ex_sequence = msg_sequence m,
           ex_exchange_id = msg_exchange_id m, ex_transcript_hash = h,
           ex_decision = decision_default, ex_created_at = now, ex_prepare_expires_at = expires,
           ex_transcript = Some t, ex_messages = [m], ex_receipts = [digest], ex_termination = None\<rparr> in
     bindS (save M record) (\<lambda>_.
     retS record))))))))))))"

definition submit_inner :: "mail_lib \<Rightarrow> int \<Rightarrow> string \<Rightarrow> int \<Rightarrow> message \<Rightarrow> limits \<Rightarrow> u64 \<Rightarrow> exchange dbS" where
  "submit_inner M i key other m l now =
     bindS (getS ready) (\<lambda>is_ready.
     bindS (liftS (guardR is_ready SUnavailable)) (\<lambda>_.
     bindS (askS (caller (ml_net M) i key)) (\<lambda>_.
     bindS (askS (pair_allowed (ml_net M) i other)) (\<lambda>_.
     bindS (liftS (map_err SPq (validate_shape m))) (\<lambda>kind.
     bindS (liftS (guardR (\<not> (num_get (msg_sender_id m) \<noteq> word_of_int i \<or>
         num_get (msg_initiator_id m) \<noteq> word_of_int (min i other) \<or>
         num_get (msg_responder_id m) \<noteq> word_of_int (max i other))) SUnauthorized)) (\<lambda>_.
     bindS (askS network) (\<lambda>(network_id, _).
     bindS (askS (active_bundle M (min i other))) (\<lambda>first.
     bindS (askS (active_bundle M (max i other))) (\<lambda>second.
     bindS (liftS (guardR (\<not> (msg_network_id m \<noteq> network_id \<or>
         msg_initiator_bundle_id m \<noteq> bu_id first \<or>
         msg_responder_bundle_id m \<noteq> bu_id second)) SConflict)) (\<lambda>_.
     bindS (getS (load_pair i other)) (\<lambda>records.
     bindS (liftS (map_err SPq (message_digest_of (ml_crypto M) (ml_json M) m))) (\<lambda>digest.
     case List.find (\<lambda>r. ex_initiator_bundle_id r = bu_id first \<and>
            ex_responder_bundle_id r = bu_id second) records of
       None \<Rightarrow> submit_proposal M i other m kind digest network_id first second records l now
     | Some record \<Rightarrow>
         if msg_sequence m < ex_sequence record then failS SConflict
         else if msg_sequence m = ex_sequence record
         then submit_current M (i < other) m kind digest record
         else submit_proposal M i other m kind digest network_id first second records l now))))))))))))"

definition submit :: "mail_lib \<Rightarrow> int \<Rightarrow> string \<Rightarrow> int \<Rightarrow> message \<Rightarrow> limits \<Rightarrow> u64 \<Rightarrow> exchange dbS" where
  "submit M i key other m l now = db_write M now (submit_inner M i key other m l now)"

end
