(* ===== verification/Visibility.thy ===== *)
theory Visibility
  imports Database
begin

text \<open>
  What the recursive query of \<^verbatim>\<open>DatabasePeer::get_all_allowed_peers\<close> computes: its two
  fixpoints against an inductive account of the CIDR tree, the fuel of the walk to the root,
  and the peers it returns.
\<close>

section \<open>The tree of CIDRs\<close>

inductive descends :: "(int, cidr) btree \<Rightarrow> int \<Rightarrow> int \<Rightarrow> bool" for cs where
  here: "descends cs a a"
| child: "descends cs a p \<Longrightarrow> (i, c) \<in> set cs \<Longrightarrow> ci_parent c = Some p \<Longrightarrow> descends cs a i"

inductive_cases descendsE: "descends cs a i"

text \<open>A CIDR is only ever inserted below one that is already there, and its parent never
  changes, so identifiers grow down the tree.\<close>

definition cidrs_wf :: "(int, cidr) btree \<Rightarrow> bool" where
  "cidrs_wf cs \<longleftrightarrow> bt_wf cs \<and> list_all (\<lambda>(i, c). pred_option (\<lambda>p. p < i \<and> p \<in> fst ` set cs) (ci_parent c)) cs"

lemma descends_trans: "descends cs b i \<Longrightarrow> descends cs a b \<Longrightarrow> descends cs a i"
  by (induction rule: descends.induct) (auto intro: child)

lemma descends_up:
  assumes "bt_wf cs" "bt_get i cs = Some c"
  shows "descends cs a i \<longleftrightarrow> a = i \<or> (\<exists>p. ci_parent c = Some p \<and> descends cs a p)"
proof -
  have "(i, d) \<in> set cs \<longleftrightarrow> d = c" for d using assms bt_get_mem [OF assms(1)] by auto
  then show ?thesis by (subst descends.simps) auto
qed

lemma descends_root: "bt_get i cs = None \<Longrightarrow> descends cs a i \<longleftrightarrow> a = i"
  by (subst descends.simps) (force simp: bt_get_None)

text \<open>The queue holds the produced rows whose children are still to be produced.\<close>

lemma sub_cidrs_sound:
  "i \<in> set (sub_cidrs cs queue seen) \<Longrightarrow> set queue \<subseteq> set seen \<Longrightarrow> \<exists>b \<in> set seen. descends cs b i"
proof (induction cs queue seen rule: sub_cidrs.induct)
  case (1 cs seen)
  then show ?case by (auto intro: here)
next
  case (2 cs q queue seen)
  then obtain b where b: "b \<in> set (seen @ new_children cs q seen)" "descends cs b i" by auto
  show ?case
  proof (cases "b \<in> set seen")
    case False
    with b(1) obtain c where "(b, c) \<in> set cs" "ci_parent c = Some q" by (auto simp: new_children_def)
    then have "descends cs q b" by (blast intro: child here)
    with b(2) "2.prems"(2) show ?thesis by (auto intro: descends_trans)
  qed (use b in blast)
qed

lemma sub_cidrs_seen: "set seen \<subseteq> set (sub_cidrs cs queue seen)"
  by (induction cs queue seen rule: sub_cidrs.induct) auto

lemma sub_cidrs_closed:
  "(\<And>p i c. p \<in> set seen \<Longrightarrow> p \<notin> set queue \<Longrightarrow> (i, c) \<in> set cs \<Longrightarrow> ci_parent c = Some p \<Longrightarrow> i \<in> set seen) \<Longrightarrow>
   p \<in> set (sub_cidrs cs queue seen) \<Longrightarrow> (i, c) \<in> set cs \<Longrightarrow> ci_parent c = Some p \<Longrightarrow>
   i \<in> set (sub_cidrs cs queue seen)"
proof (induction cs queue seen rule: sub_cidrs.induct)
  case (2 cs q queue seen)
  show ?case
    unfolding sub_cidrs.simps
  proof (rule "2.IH")
    fix p i c
    assume p: "p \<in> set (seen @ new_children cs q seen)" "p \<notin> set (queue @ new_children cs q seen)"
      and c: "(i, c) \<in> set cs" "ci_parent c = Some p"
    show "i \<in> set (seen @ new_children cs q seen)"
    proof (cases "p = q")
      case True
      with c show ?thesis by (force simp: new_children_def)
    qed (use "2.prems"(1) [of p i c] p c in auto)
  qed (use "2.prems" in simp_all)
qed auto

lemma sub_cidrs_iff: "i \<in> set (sub_cidrs cs base base) \<longleftrightarrow> (\<exists>b \<in> set base. descends cs b i)"
proof
  assume "\<exists>b \<in> set base. descends cs b i"
  then obtain b where "b \<in> set base" and "descends cs b i" by blast
  from this(2) this(1) show "i \<in> set (sub_cidrs cs base base)"
    by (induction rule: descends.induct)
      (use sub_cidrs_seen sub_cidrs_closed [of base base cs] in \<open>blast+\<close>)
qed (use sub_cidrs_sound in blast)

text \<open>Fuel: the walk visits strictly smaller identifiers of the table, each at most once.\<close>

lemma parent_of_bound:
  "cidrs_wf cs \<Longrightarrow> length (filter (\<lambda>(j, c). j \<le> i) cs) \<le> n \<Longrightarrow> n \<le> m \<Longrightarrow> parent_of m cs i = parent_of n cs i"
proof (induction n arbitrary: m i)
  case 0
  have "bt_get i cs = None"
  proof (rule ccontr)
    assume "bt_get i cs \<noteq> None"
    then obtain c where "(i, c) \<in> set cs" by (auto simp: bt_get_def dest: map_of_SomeD)
    with 0 show False by (auto simp: filter_empty_conv)
  qed
  then show ?case by (cases m) simp_all
next
  case (Suc n)
  from Suc.prems(3) obtain m' where m: "m = Suc m'" "n \<le> m'" by (cases m) auto
  show ?case
  proof (cases "bt_get i cs")
    case (Some c)
    then have c: "(i, c) \<in> set cs" by (auto simp: bt_get_def dest: map_of_SomeD)
    have "parent_of m' cs p = parent_of n cs p" if p: "ci_parent c = Some p" for p
    proof (rule Suc.IH [OF Suc.prems(1) _ m(2)])
      have less: "p < i" using Suc.prems(1) c p by (auto simp: cidrs_wf_def list_all_iff)
      have "length (filter (\<lambda>(j, c). j \<le> p) cs) < length (filter (\<lambda>(j, c). j \<le> i) cs)"
        using c
      proof (induction cs)
        case (Cons d ds)
        have "length (filter (\<lambda>(j, c). j \<le> p) ds) \<le> length (filter (\<lambda>(j, c). j \<le> i) ds)"
          using less by (induction ds) auto
        with Cons less show ?case by (cases d) (fastforce simp: less_Suc_eq_le)
      qed simp
      with Suc.prems(2) show "length (filter (\<lambda>(j, c). j \<le> p) cs) \<le> n" by simp
    qed
    with m Some show ?thesis by (simp split: option.splits)
  qed (simp add: m)
qed

lemma parent_of_fuel:
  "cidrs_wf cs \<Longrightarrow> length cs \<le> m \<Longrightarrow> parent_of m cs i = parent_of (length cs) cs i"
  by (rule parent_of_bound) (simp_all add: length_filter_le)

lemma parent_of_ancestors:
  "cidrs_wf cs \<Longrightarrow> length cs \<le> n \<Longrightarrow> a \<in> set (parent_of n cs i) \<longleftrightarrow>
   i \<in> fst ` set cs \<and> descends cs a i"
proof (induction "nat (i - Min (insert i (fst ` set cs)))" arbitrary: i rule: less_induct)
  case less
  show ?case
  proof (cases "bt_get i cs")
    case None
    then have "i \<notin> fst ` set cs" by (metis bt_get_None)
    moreover have "parent_of n cs i = []" using None by (cases n) simp_all
    ultimately show ?thesis by force
  next
    case (Some c)
    then have i: "i \<in> fst ` set cs" "(i, c) \<in> set cs"
      by (force simp: bt_get_def dest: map_of_SomeD)+
    from less.prems(2) i obtain n' where n: "n = Suc n'" by (cases n; cases cs) auto
    have wf: "bt_wf cs" using less.prems(1) by (simp add: cidrs_wf_def)
    have unfold: "parent_of n cs i = i # (case ci_parent c of None \<Rightarrow> [] | Some p \<Rightarrow> parent_of n cs p)"
      using parent_of_fuel [OF less.prems(1), of "Suc n" i] parent_of_fuel [OF less.prems(1), of n i]
        less.prems(2) Some by (simp split: option.splits)
    have IH: "a \<in> set (parent_of n cs p) \<longleftrightarrow> descends cs a p" if p: "ci_parent c = Some p" for p
    proof -
      have p': "p < i" "p \<in> fst ` set cs" using less.prems(1) i p by (auto simp: cidrs_wf_def list_all_iff)
      let ?M = "Min (fst ` set cs)"
      have "?M \<le> p" using p' by simp
      with p' have "?M < i" by linarith
      then have "nat (p - Min (insert p (fst ` set cs))) < nat (i - Min (insert i (fst ` set cs)))"
        using p' i by (simp add: insert_absorb)
      from less.hyps [OF this less.prems] p' show ?thesis by simp
    qed
    show ?thesis
      using unfold IH descends_up [OF wf Some, of a] i
      by (auto split: option.splits intro: here)
  qed
qed

section \<open>The peers a peer is allowed to see\<close>

text \<open>CIDR \<open>y\<close> is visible from CIDR \<open>x\<close>: below it, below the infrastructure CIDR 2, or below a
  CIDR associated with an ancestor of \<open>x\<close>.\<close>

definition sees :: "pq_db \<Rightarrow> int \<Rightarrow> int \<Rightarrow> bool" where
  "sees db x y \<longleftrightarrow> descends (db_cidrs db) x y \<or> descends (db_cidrs db) 2 y \<or>
     (\<exists>i a b. (i, a, b) \<in> set (db_associations db) \<and> x \<in> fst ` set (db_cidrs db) \<and>
        (descends (db_cidrs db) a x \<and> descends (db_cidrs db) b y \<or>
         descends (db_cidrs db) b x \<and> descends (db_cidrs db) a y))"

lemma associated_iff:
  "c \<in> set (associated as parents) \<longleftrightarrow>
   (\<exists>i a b. (i, a, b) \<in> set as \<and> (a \<in> set parents \<and> c = b \<or> b \<in> set parents \<and> c = a))"
  by (force simp: associated_def)

lemma associated_subcidrs_iff:
  assumes "cidrs_wf (db_cidrs db)"
  shows "y \<in> set (associated_subcidrs db x) \<longleftrightarrow> sees db x y"
proof -
  let ?cs = "db_cidrs db"
  let ?up = "parent_of (length ?cs) ?cs x"
  have up: "a \<in> set ?up \<longleftrightarrow> x \<in> fst ` set ?cs \<and> descends ?cs a x" for a
    using parent_of_ancestors [OF assms order_refl] .
  have "y \<in> set (associated_subcidrs db x) \<longleftrightarrow> descends ?cs x y \<or> descends ?cs 2 y \<or>
      (\<exists>c \<in> set (associated (db_associations db) ?up). descends ?cs c y)"
    by (simp only: associated_subcidrs_def Let_def sub_cidrs_iff set_remdups set_append) auto
  also have "(\<exists>c \<in> set (associated (db_associations db) ?up). descends ?cs c y) \<longleftrightarrow>
      (\<exists>i a b. (i, a, b) \<in> set (db_associations db) \<and>
         (a \<in> set ?up \<and> descends ?cs b y \<or> b \<in> set ?up \<and> descends ?cs a y))"
    by (simp only: Bex_def associated_iff) blast
  also have "\<dots> \<longleftrightarrow> (\<exists>i a b. (i, a, b) \<in> set (db_associations db) \<and> x \<in> fst ` set ?cs \<and>
        (descends ?cs a x \<and> descends ?cs b y \<or> descends ?cs b x \<and> descends ?cs a y))"
    by (simp only: up) blast
  finally show ?thesis by (simp only: sees_def)
qed

lemma mapR_Inr: "mapR f xs = Inr ys \<Longrightarrow> list_all2 (\<lambda>x y. f x = Inr y) xs ys"
  by (induction xs arbitrary: ys) (auto simp: bindR_Inr_iff)

lemma peer_rows_mem:
  assumes "peer_rows L rows = Inr ps"
  shows "(i, p) \<in> set ps \<longleftrightarrow> (\<exists>r. (i, r) \<in> set rows \<and> peer_from_row L r = Inr p)"
proof -
  from assms have all: "list_all2 (\<lambda>x y. (case x of (i, r) \<Rightarrow> bindR (peer_from_row L r) (\<lambda>p. Ok (i, p))) = Inr y) rows ps"
    unfolding peer_rows_def by (rule mapR_Inr)
  then show ?thesis
    by (induction rows ps rule: list_all2_induct) (auto simp: bindR_Inr_iff)
qed

lemma allowed_peers_spec:
  assumes "cidrs_wf (db_cidrs db)" "bt_wf (db_peers db)" "get_all_allowed_peers L self db = Inr ps"
  shows "(i, p) \<in> set ps \<longleftrightarrow> (\<exists>r. bt_get i (db_peers db) = Some r \<and> peer_from_row L r = Inr p \<and>
     \<not> pr_is_disabled r \<and> pr_is_redeemed r \<and> sees db (pe_cidr_id self) (pr_cidr_id r))"
  using peer_rows_mem [OF assms(3) [unfolded get_all_allowed_peers_def], of i p]
  by (simp add: associated_subcidrs_iff [OF assms(1)] bt_get_mem [OF assms(2)]) blast

end
