(* ===== verification/MailboxProps.thy ===== *)
theory MailboxProps
  imports Mailbox Visibility
begin

text \<open>
  The mailbox keeps its invariants: what the exchange table holds, what each operation leaves
  of the rest of the database, and what a sweep has achieved when it returns.
\<close>

text \<open>Exchange keys are tuples that the proofs quantify over as wholes.\<close>

declare split_paired_All [simp del] split_paired_Ex [simp del]

section \<open>Loops and rolled-back blocks\<close>

lemma for_eachS_keeps:
  assumes "\<And>x. keeps R (f x)" "reflp R" "transp R"
  shows "keeps R (for_eachS f xs)"
proof (induction xs)
  case Nil
  from assms(2) show ?case by (simp add: keeps_def reflpD)
next
  case (Cons x xs)
  have "keeps R (bindS (f x) (\<lambda>_. for_eachS f xs))"
    by (intro keeps_bindS assms Cons)
  then show ?case by (simp add: keeps_def)
qed

lemma keeps_bind:
  "reflp R \<Longrightarrow> transp R \<Longrightarrow> keeps R m \<Longrightarrow> (\<And>x. keeps R (k x)) \<Longrightarrow> keeps R (bindS m k)"
  by (rule keeps_bindS)

lemma keeps_basic [intro, simp]:
  assumes "reflp R"
  shows "keeps R (retS x)" "keeps R (failS e)" "keeps R (liftS r)" "keeps R (getS f)" "keeps R (askS q)"
  using assms by (simp_all add: keeps_def reflpD askS_def)

lemma keeps_modS: "(\<And>s. R s (g s)) \<Longrightarrow> keeps R (modS g)"
  by (simp add: keeps_def)

lemma keeps_execS: "reflp R \<Longrightarrow> (\<And>s t. w s = Inr t \<Longrightarrow> R s t) \<Longrightarrow> keeps R (execS w)"
  by (auto simp: keeps_def execS_def reflpD split: sum.splits)

lemma keeps_transaction: "reflp R \<Longrightarrow> keeps R m \<Longrightarrow> keeps R (transaction m)"
  by (auto simp: keeps_def transaction_def reflpD split: prod.splits sum.splits) (metis snd_conv)

lemma keeps_db_write:
  assumes "reflp R" "transp R" "keeps R (sweep_inner M now)" "keeps R m"
  shows "keeps R (db_write M now m)"
proof (rule keepsI)
  fix s r t assume run: "db_write M now m s = (r, t)"
  obtain r1 s1 where sw: "sweep_inner M now s = (r1, s1)" by fastforce
  obtain r2 s2 where op: "m s1 = (r2, s2)" by fastforce
  have "R s s1" "R s1 s2" using keepsD [OF assms(3) sw] keepsD [OF assms(4) op] .
  with run sw op show "R s t"
    using reflpD [OF assms(1)] transpD [OF assms(2)]
    by (auto simp: db_write_def split: sum.splits)
qed

lemma execS_Inr [simp]: "execS w s = (Inr u, t) \<longleftrightarrow> w s = Inr t"
  by (auto simp: execS_def split: sum.splits)

lemma execS_Inl: "execS w s = (Inl e, t) \<Longrightarrow> t = s \<and> w s = Inl e"
  by (auto simp: execS_def split: sum.splits)

lemma askS_Inr [simp]: "askS q s = (Inr x, t) \<longleftrightarrow> q s = Inr x \<and> t = s"
  by (auto simp: askS_def)

text \<open>A run that succeeded, read step by step.\<close>

lemma bind_lift_Inr: "bindS (liftS r) k s = (Inr y, t) \<longleftrightarrow> (\<exists>x. r = Inr x \<and> k x s = (Inr y, t))"
  by (cases r) simp_all

lemma bind_ask_Inr: "bindS (askS q) k s = (Inr y, t) \<longleftrightarrow> (\<exists>x. q s = Inr x \<and> k x s = (Inr y, t))"
  by (auto simp: bindS_Inr_iff)

lemma bind_exec_Inr: "bindS (execS w) k s = (Inr y, t) \<longleftrightarrow> (\<exists>u. w s = Inr u \<and> k () u = (Inr y, t))"
  by (auto simp: bindS_Inr_iff)

lemmas run_simps = bind_lift_Inr bind_ask_Inr bind_exec_Inr

section \<open>What the mailbox leaves alone\<close>

text \<open>Everything but the exchange table and the mark of the last sweep.\<close>

definition same_directory :: "pq_db \<Rightarrow> pq_db \<Rightarrow> bool" where
  "same_directory s t \<longleftrightarrow>
     t = s\<lparr>db_swept := db_swept t, db_exchanges := db_exchanges t\<rparr>"

lemma same_directory_refl [simp]: "reflp same_directory"
  by (simp add: reflp_def same_directory_def)

lemma same_directory_fields:
  "same_directory s t \<longleftrightarrow> db_network_id t = db_network_id s \<and> db_revision t = db_revision s \<and>
     db_max_peer_id t = db_max_peer_id s \<and> db_enabled t = db_enabled s \<and>
     db_management_ready t = db_management_ready s \<and> db_peers t = db_peers s \<and>
     db_cidrs t = db_cidrs s \<and> db_associations t = db_associations s \<and>
     db_history t = db_history s \<and> db_bundles t = db_bundles s"
  unfolding same_directory_def by (cases s, cases t) auto

lemma same_directory_trans [simp]: "transp same_directory"
  by (simp add: transp_def same_directory_fields)

lemma same_directory_exchanges [simp]: "same_directory s (s\<lparr>db_exchanges := x\<rparr>)"
  by (simp add: same_directory_fields)

lemma directory_queries:
  assumes "same_directory s t"
  shows "ready t = ready s" "caller L i key t = caller L i key s" "is_server i t = is_server i s"
    "network t = network s" "pair_allowed L i j t = pair_allowed L i j s"
    "stored_bundle C i t = stored_bundle C i s" "active_bundle M i t = active_bundle M i s"
  using assms
  by (simp_all add: same_directory_fields ready_def caller_def is_server_def network_def pair_allowed_def
      stored_bundle_def active_bundle_def peer_get_def get_all_allowed_peers_def associated_subcidrs_def
      cong: if_cong)

lemma save_run:
  "save M e s = (Inr u, t) \<longleftrightarrow>
   ex_prepare_expires_at e \<le> i64_max \<and>
   (let row = \<lparr>er_sequence = sint (num_get (ex_sequence e)), er_active = (\<not> terminal (ex_decision e)),
               er_prepare_expires_at = uint (ex_prepare_expires_at e), er_record = e\<rparr> in
    exchange_fits M s (key_of e) row \<and> t = s\<lparr>db_exchanges := bt_insert (key_of e) row (db_exchanges s)\<rparr>)"
  by (auto simp: save_def run_simps i64_of_def Let_def bindS_Inr_iff split: if_splits)

lemma save_fails: "save M e s = (Inl err, t) \<Longrightarrow> t = s"
  by (auto simp: save_def bindS_Inl_iff dest: execS_Inl)

lemma save_keeps: "keeps same_directory (save M e)"
proof (rule keepsI)
  fix s r t assume "save M e s = (r, t)"
  then show "same_directory s t"
    using save_fails [of M e s _ t] by (cases r) (auto simp: save_run Let_def same_directory_fields)
qed

lemma visit_keeps:
  "reflp R \<Longrightarrow> transp R \<Longrightarrow> (\<And>e. keeps R (op e)) \<Longrightarrow> keeps R (visit P op)"
  unfolding visit_def by (intro keeps_bind for_eachS_keeps keeps_basic)

lemma sweep_finish_keeps: "keeps same_directory (sweep_finish M now e)"
  by (simp add: sweep_finish_def save_keeps)

lemma sweep_record_keeps: "keeps same_directory (sweep_record M now changed e)"
  unfolding sweep_record_def
  by (intro keeps_bind same_directory_refl same_directory_trans sweep_finish_keeps)
    (auto intro!: keeps_bind split: sum.split)

lemma sweep_keeps: "keeps same_directory (sweep_inner M now)"
  unfolding sweep_inner_def
  by (intro keeps_bind same_directory_refl same_directory_trans visit_keeps sweep_record_keeps keeps_basic)
    (auto intro!: keeps_modS simp: same_directory_fields)

lemma terminate_keeps: "keeps same_directory (terminate_peer M i reason)"
  unfolding terminate_peer_def by (intro visit_keeps save_keeps same_directory_refl same_directory_trans)

section \<open>The exchange table\<close>

text \<open>What an exchange may look like when it is saved, and what the table holds.\<close>

definition exch_ok :: "exchange \<Rightarrow> bool" where
  "exch_ok e \<longleftrightarrow>
     (if terminal (ex_decision e) then ex_transcript e = None \<and> ex_messages e = [] else ex_transcript e \<noteq> None) \<and>
     (decision_inv (ex_decision e) \<or> dc_phase (ex_decision e) = PAborted)"

definition row_ok :: "exchange_key \<Rightarrow> exchange_row \<Rightarrow> bool" where
  "row_ok k r \<longleftrightarrow> k = key_of (er_record r) \<and> exch_ok (er_record r) \<and>
     er_active r = (\<not> terminal (ex_decision (er_record r))) \<and>
     er_sequence r = sint (num_get (ex_sequence (er_record r))) \<and>
     er_prepare_expires_at r = uint (ex_prepare_expires_at (er_record r)) \<and>
     0 < fst k \<and> fst k < fst (snd k)"

definition one_active :: "(exchange_key, exchange_row) btree \<Rightarrow> bool" where
  "one_active t \<longleftrightarrow> (\<forall>k r k' r'. bt_get k t = Some r \<longrightarrow> bt_get k' t = Some r' \<longrightarrow>
     er_active r \<longrightarrow> er_active r' \<longrightarrow> pair_of k = pair_of k' \<longrightarrow> k = k')"

definition mailbox_ok :: "pq_db \<Rightarrow> bool" where
  "mailbox_ok db \<longleftrightarrow> bt_wf (db_exchanges db) \<and> one_active (db_exchanges db) \<and>
     (\<forall>k r. bt_get k (db_exchanges db) = Some r \<longrightarrow> row_ok k r)"

lemma mailbox_ok_row: "mailbox_ok s \<Longrightarrow> bt_get k (db_exchanges s) = Some r \<Longrightarrow> row_ok k r"
  unfolding mailbox_ok_def by blast

lemma mailbox_ok_wf: "mailbox_ok s \<Longrightarrow> bt_wf (db_exchanges s)"
  unfolding mailbox_ok_def by blast

lemma one_activeD:
  "one_active t \<Longrightarrow> bt_get k t = Some r \<Longrightarrow> bt_get k' t = Some r' \<Longrightarrow>
   er_active r \<Longrightarrow> er_active r' \<Longrightarrow> pair_of k = pair_of k' \<Longrightarrow> k = k'"
  unfolding one_active_def by blast

lemma mailbox_ok_save:
  assumes "mailbox_ok s" "exch_ok e" "save M e s = (r, t)"
  shows "mailbox_ok t"
proof (cases r)
  case (Inl err)
  with assms save_fails show ?thesis by metis
next
  case (Inr u)
  define row where "row = \<lparr>er_sequence = sint (num_get (ex_sequence e)), er_active = (\<not> terminal (ex_decision e)),
               er_prepare_expires_at = uint (ex_prepare_expires_at e), er_record = e\<rparr>"
  from Inr assms(3) have fits: "exchange_fits M s (key_of e) row"
    and t: "t = s\<lparr>db_exchanges := bt_insert (key_of e) row (db_exchanges s)\<rparr>"
    by (simp_all add: save_run Let_def row_def)
  have wf: "bt_wf (db_exchanges s)" using assms(1) by (simp add: mailbox_ok_def)
  have ok: "row_ok (key_of e) row"
    using fits assms(2) by (simp add: row_ok_def row_def exchange_fits_def)
  have alone: "er_active row \<Longrightarrow> bt_get k (db_exchanges s) = Some r' \<Longrightarrow> er_active r' \<Longrightarrow>
      pair_of k = pair_of (key_of e) \<Longrightarrow> k = key_of e" for k r'
    using fits bt_get_mem [OF wf, of k r'] by (force simp: exchange_fits_def list_all_iff)
  have "one_active (db_exchanges t)"
    unfolding one_active_def
  proof (intro allI impI)
    fix k r1 k' r2
    assume get: "bt_get k (db_exchanges t) = Some r1" "bt_get k' (db_exchanges t) = Some r2"
      and active: "er_active r1" "er_active r2" and pair: "pair_of k = pair_of k'"
    show "k = k'"
    proof (cases "k = key_of e"; cases "k' = key_of e")
      assume "k = key_of e" "k' \<noteq> key_of e"
      with get active pair alone [of k' r2] show ?thesis by (simp add: t)
    next
      assume "k \<noteq> key_of e" "k' = key_of e"
      with get active pair alone [of k r1] show ?thesis by (simp add: t)
    next
      assume "k \<noteq> key_of e" "k' \<noteq> key_of e"
      with get have "bt_get k (db_exchanges s) = Some r1" "bt_get k' (db_exchanges s) = Some r2"
        by (simp_all add: t)
      moreover have "one_active (db_exchanges s)" using assms(1) unfolding mailbox_ok_def by blast
      ultimately show ?thesis using active pair by (blast intro: one_activeD)
    qed simp
  qed
  with assms(1) ok show ?thesis by (auto simp: mailbox_ok_def t split: if_splits)
qed

text \<open>An invariant as a relation between the states before and after.\<close>

definition invR :: "('s \<Rightarrow> bool) \<Rightarrow> 's \<Rightarrow> 's \<Rightarrow> bool" where
  "invR I s t \<longleftrightarrow> (I s \<longrightarrow> I t)"

lemma invR_refl [simp]: "reflp (invR I)"
  by (simp add: reflp_def invR_def)

lemma invR_trans [simp]: "transp (invR I)"
  by (simp add: transp_def invR_def)

text \<open>An operation of \<^verbatim>\<open>visit\<close> runs on records of the table.\<close>

definition on_rows :: "(pq_db \<Rightarrow> bool) \<Rightarrow> (exchange \<Rightarrow> unit dbS) \<Rightarrow> bool" where
  "on_rows I op \<longleftrightarrow> (\<forall>s k row r t. I s \<longrightarrow> bt_get k (db_exchanges s) = Some row \<longrightarrow>
     op (er_record row) s = (r, t) \<longrightarrow> I t)"

lemma visit_inv:
  assumes "on_rows I op" "I s" "visit P op s = (r, t)"
  shows "I t"
proof -
  define f where "f = (\<lambda>k. bindS (askS (\<lambda>db. ok_or (map_option er_record (bt_get k (db_exchanges db))) (SDatabase DbNoRows))) op)"
  have step: "I t" if run: "f k s = (r, t)" and s: "I s" for k s r t
  proof (cases "bt_get k (db_exchanges s)")
    case None
    with that show ?thesis by (simp add: f_def bindS_def askS_def)
  next
    case (Some row)
    with run have "op (er_record row) s = (r, t)" by (simp add: f_def bindS_def askS_def)
    with assms(1) s Some show ?thesis unfolding on_rows_def by blast
  qed
  have keep: "keeps (invR I) (for_eachS f keys)" for keys
    by (rule for_eachS_keeps, rule keepsI) (auto simp: invR_def dest: step)
  have "for_eachS f (map fst (filter (\<lambda>(k, r). P k r) (db_exchanges s))) s = (r, t)"
    using assms(3) by (simp add: visit_def f_def)
  with keepsD [OF keep] assms(2) show ?thesis by (auto simp: invR_def)
qed

lemma exch_ok_compact:
  "decision_inv (ex_decision e) \<or> dc_phase (ex_decision e) = PAborted \<Longrightarrow>
   (\<not> terminal (ex_decision e) \<Longrightarrow> ex_transcript e \<noteq> None) \<Longrightarrow> exch_ok (compact e)"
  by (simp add: exch_ok_def compact_def)

lemma expire_keeps_ok:
  "decision_inv d \<or> dc_phase d = PAborted \<Longrightarrow> decision_inv (expire d) \<or> dc_phase (expire d) = PAborted"
  by (auto simp: expire_def)

lemma row_exch_ok: "mailbox_ok s \<Longrightarrow> bt_get k (db_exchanges s) = Some row \<Longrightarrow> exch_ok (er_record row)"
  by (drule (1) mailbox_ok_row) (simp add: row_ok_def)

text \<open>What the sweep makes of a record.\<close>

lemma sweep_finish_run:
  assumes "sweep_finish M now e s = (r, t)"
  obtains (kept) "t = s" "r = Inr ()" "\<not> terminal (ex_decision (due now e))"
  | (saved) "terminal (ex_decision (due now e))" "save M (compact (due now e)) s = (r, t)"
  using assms by (auto simp: sweep_finish_def split: if_splits)

lemma sweep_record_cases:
  assumes "sweep_record M now changed e s = (r, t)"
  obtains (failed) err where "r = Inl err" "t = s"
  | (allowed) "changed \<longrightarrow> pair_allowed (ml_net M) (sint (num_get (ex_initiator_id e))) (sint (num_get (ex_responder_id e))) s = Inr ()"
      "sweep_finish M now e s = (r, t)"
  | (gone) "sweep_finish M now (revoked e) s = (r, t)"
proof (cases changed)
  case False
  with assms allowed show ?thesis by (simp add: sweep_record_def)
next
  case True
  show ?thesis
  proof (cases "pair_allowed (ml_net M) (sint (num_get (ex_initiator_id e))) (sint (num_get (ex_responder_id e))) s")
    case (Inr u)
    with True assms allowed show ?thesis by (simp add: sweep_record_def bindS_def)
  next
    case (Inl err)
    with True assms gone failed [of err] show ?thesis
      by (cases "err \<in> {SUnauthorized, SNotFound, SDatabase DbNoRows}") (auto simp: sweep_record_def bindS_def)
  qed
qed

lemma due_ok:
  assumes "exch_ok e"
  shows "exch_ok (compact (due now e))" "exch_ok (compact (due now (revoked e)))"
    "key_of (due now e) = key_of e" "key_of (due now (revoked e)) = key_of e"
    "terminal (ex_decision (due now (revoked e)))"
  using assms expire_keeps_ok [of "ex_decision e"]
  by (auto simp: due_def revoked_def set_phase_def exch_ok_def key_of_def terminal_def expire_def compact_def
      split: if_splits)

lemma key_of_compact [simp]: "key_of (compact e) = key_of e"
  by (simp add: key_of_def)

lemma sweep_on_rows: "on_rows mailbox_ok (sweep_record M now changed)"
  unfolding on_rows_def
proof (intro allI impI)
  fix s k row r t
  assume ok: "mailbox_ok s" and get: "bt_get k (db_exchanges s) = Some row"
    and run: "sweep_record M now changed (er_record row) s = (r, t)"
  note row = row_exch_ok [OF ok get]
  from run show "mailbox_ok t"
    by (cases rule: sweep_record_cases)
      (auto elim!: sweep_finish_run intro: ok mailbox_ok_save [OF ok] due_ok [OF row])
qed

lemma mailbox_ok_swept [simp]: "mailbox_ok (s\<lparr>db_swept := x\<rparr>) = mailbox_ok s"
  by (simp add: mailbox_ok_def)

lemma mailbox_ok_sweep:
  assumes "mailbox_ok s" "sweep_inner M now s = (r, t)"
  shows "mailbox_ok t"
proof -
  note visited = visit_inv [OF sweep_on_rows assms(1)]
  show ?thesis
    using assms
    by (auto simp: sweep_inner_def bindS_def i64_of_def dest: visited split: prod.splits sum.splits if_splits)
qed

lemma terminate_on_rows:
  "on_rows mailbox_ok (\<lambda>e. save M (compact ((set_phase PAborted e)\<lparr>ex_termination := Some reason\<rparr>)))"
proof -
  have "exch_ok (compact ((set_phase PAborted e)\<lparr>ex_termination := Some reason\<rparr>))" for e
    by (rule exch_ok_compact) (simp_all add: set_phase_def terminal_def)
  then show ?thesis unfolding on_rows_def by (blast intro: mailbox_ok_save)
qed

lemma mailbox_ok_terminate: "mailbox_ok s \<Longrightarrow> terminate_peer M i reason s = (r, t) \<Longrightarrow> mailbox_ok t"
  unfolding terminate_peer_def by (rule visit_inv [OF terminate_on_rows])

section \<open>What a sweep has achieved\<close>

text \<open>A row that a sweep at time \<open>now\<close> leaves.\<close>

definition live_row :: "net_lib \<Rightarrow> pq_db \<Rightarrow> u64 \<Rightarrow> bool \<Rightarrow> exchange_key \<Rightarrow> exchange_row option \<Rightarrow> bool" where
  "live_row L db now changed k found \<longleftrightarrow> (\<forall>r. found = Some r \<longrightarrow> er_active r \<longrightarrow>
     \<not> (dc_phase (ex_decision (er_record r)) \<in> {PProposed, PReady} \<and> ex_prepare_expires_at (er_record r) \<le> now) \<and>
     (changed \<longrightarrow> pair_allowed L (fst k) (fst (snd k)) db = Inr ()))"

lemma sweep_step:
  assumes ok: "mailbox_ok s" and dir: "same_directory db s"
    and get: "bt_get k (db_exchanges s) = Some row" and active: "er_active row"
    and run: "sweep_record M now changed (er_record row) s = (Inr (), t)"
  shows "live_row (ml_net M) db now changed k (bt_get k (db_exchanges t)) \<and>
    (\<forall>k'. k' \<noteq> k \<longrightarrow> bt_get k' (db_exchanges t) = bt_get k' (db_exchanges s))"
proof -
  have row: "row_ok k row" using mailbox_ok_row [OF ok get] .
  then have key: "k = key_of (er_record row)" and live: "\<not> terminal (ex_decision (er_record row))"
    and good: "exch_ok (er_record row)"
    using active by (auto simp: row_ok_def)
  have saved: ?thesis if "save M (compact e2) s = (Inr (), t)" "terminal (ex_decision e2)" "key_of e2 = k" for e2
    using that by (auto simp: save_run Let_def live_row_def)
  from run show ?thesis
  proof (cases rule: sweep_record_cases)
    case allowed
    from allowed(2) show ?thesis
    proof (cases rule: sweep_finish_run)
      case kept
      with allowed(1) live get key directory_queries(5) [OF dir] show ?thesis
        by (auto simp: live_row_def key_of_def due_def expire_def terminal_def split: if_splits)
    qed (use due_ok [OF good] key saved in blast)
  next
    case gone
    then show ?thesis
      by (cases rule: sweep_finish_run) (use due_ok [OF good] key saved in blast)+
  qed simp
qed

lemma selected_rows:
  assumes "mailbox_ok s" "bt_get k (db_exchanges s) = Some r"
  shows "k \<in> set (map fst (filter (\<lambda>(k, r). P k r) (db_exchanges s))) \<longleftrightarrow> P k r"
proof -
  have "(k, r') \<in> set (db_exchanges s) \<longleftrightarrow> r' = r" for r'
    using bt_get_mem [OF mailbox_ok_wf [OF assms(1)]] assms(2) by auto
  then show ?thesis by (cases k) force
qed

definition load_row :: "(exchange \<Rightarrow> unit dbS) \<Rightarrow> exchange_key \<Rightarrow> unit dbS" where
  "load_row op k = bindS (askS (\<lambda>db. ok_or (map_option er_record (bt_get k (db_exchanges db))) (SDatabase DbNoRows))) op"

lemma visit_loop:
  "visit P op s = for_eachS (load_row op) (map fst (filter (\<lambda>(k, r). P k r) (db_exchanges s))) s"
  by (simp add: visit_def load_row_def [abs_def])

text \<open>The sweep's loop: each visited row ends live or terminal, the others are untouched.\<close>

lemma sweep_loop:
  assumes "for_eachS (load_row (sweep_record M now changed)) ks x = (Inr (), v)" "mailbox_ok x"
    "same_directory s x" "distinct ks"
    "\<forall>k \<in> set ks. \<exists>r. bt_get k (db_exchanges x) = Some r \<and> er_active r"
  shows "mailbox_ok v \<and> same_directory s v \<and>
      (\<forall>k \<in> set ks. live_row (ml_net M) s now changed k (bt_get k (db_exchanges v))) \<and>
      (\<forall>k. k \<notin> set ks \<longrightarrow> bt_get k (db_exchanges v) = bt_get k (db_exchanges x))"
  using assms
proof (induction ks arbitrary: x)
  case (Cons k ks)
  from Cons.prems(1) obtain y where y: "load_row (sweep_record M now changed) k x = (Inr (), y)"
    and rest: "for_eachS (load_row (sweep_record M now changed)) ks y = (Inr (), v)"
    by (auto simp: bindS_Inr_iff)
  from Cons.prems(5) obtain row where row: "bt_get k (db_exchanges x) = Some row" "er_active row" by auto
  from y row have step: "sweep_record M now changed (er_record row) x = (Inr (), y)"
    by (simp add: load_row_def bindS_Inr_iff)
  from sweep_step [OF Cons.prems(2,3) row step]
  have live: "live_row (ml_net M) s now changed k (bt_get k (db_exchanges y))"
    and frame: "\<And>k'. k' \<noteq> k \<Longrightarrow> bt_get k' (db_exchanges y) = bt_get k' (db_exchanges x)" by auto
  have y_ok: "mailbox_ok y"
    using sweep_on_rows Cons.prems(2) row(1) step unfolding on_rows_def by blast
  have y_dir: "same_directory s y"
    using keepsD [OF sweep_record_keeps step] Cons.prems(3) same_directory_trans by (meson transpD)
  have rest_rows: "\<forall>k' \<in> set ks. \<exists>r. bt_get k' (db_exchanges y) = Some r \<and> er_active r"
  proof
    fix k' assume k': "k' \<in> set ks"
    with Cons.prems(4) have "k' \<noteq> k" by auto
    with k' Cons.prems(5) frame [of k'] show "\<exists>r. bt_get k' (db_exchanges y) = Some r \<and> er_active r" by simp
  qed
  from Cons.prems(4) have "distinct ks" "k \<notin> set ks" by simp_all
  with Cons.IH [OF rest y_ok y_dir _ rest_rows] live frame show ?case by simp
qed simp

lemma sweep_record_swept: "keeps (\<lambda>a b. db_swept b = db_swept a) (sweep_record M now changed e)"
proof (rule keepsI)
  have save: "db_swept t = db_swept s" if "save M e s = (r, t)" for e s r t
    using that save_fails [of M e s _ t] by (cases r) (auto simp: save_run Let_def)
  fix s r t assume "sweep_record M now changed e s = (r, t)"
  then show "db_swept t = db_swept s"
    by (cases rule: sweep_record_cases) (auto elim!: sweep_finish_run dest: save)
qed

lemma selected_active:
  "mailbox_ok s \<Longrightarrow> k \<in> set (map fst (filter (\<lambda>(k, r). sweep_selects changed time k r) (db_exchanges s))) \<Longrightarrow>
   \<exists>r. bt_get k (db_exchanges s) = Some r \<and> er_active r"
  using bt_get_mem [of "db_exchanges s"] mailbox_ok_wf [of s]
  by (auto simp: sweep_selects_def split: if_splits)

lemma sweep_run:
  assumes "sweep_inner M now s = (Inr u, t)"
  obtains v where "now \<le> i64_max"
    "visit (sweep_selects (db_revision s \<noteq> db_swept s) (uint now))
       (sweep_record M now (db_revision s \<noteq> db_swept s)) s = (Inr (), v)"
    "t = (if db_revision s \<noteq> db_swept s then v\<lparr>db_swept := db_revision v\<rparr> else v)"
  using assms by (auto simp: sweep_inner_def i64_of_def bindS_Inr_iff split: if_splits)

text \<open>A successful sweep: no active record is left whose preparation has run out, nor, when
  visibility had changed, one between peers that may no longer exchange keys; what had
  already ended is untouched.\<close>

lemma sweep_post:
  assumes ok: "mailbox_ok s" and run: "sweep_inner M now s = (Inr u, t)"
  shows "mailbox_ok t \<and> same_directory s t \<and> db_swept t = db_revision s \<and> now \<le> i64_max \<and>
    (\<forall>k. live_row (ml_net M) s now (db_revision s \<noteq> db_swept s) k (bt_get k (db_exchanges t))) \<and>
    (\<forall>k r. bt_get k (db_exchanges s) = Some r \<longrightarrow> \<not> er_active r \<longrightarrow> bt_get k (db_exchanges t) = Some r)"
proof -
  define changed where "changed = (db_revision s \<noteq> db_swept s)"
  define keys where "keys = map fst (filter (\<lambda>(k, r). sweep_selects changed (uint now) k r) (db_exchanges s))"
  from sweep_run [OF run] obtain v where now: "now \<le> i64_max"
    and visit: "visit (sweep_selects changed (uint now)) (sweep_record M now changed) s = (Inr (), v)"
    and t: "t = (if changed then v\<lparr>db_swept := db_revision v\<rparr> else v)"
    unfolding changed_def by blast
  have loop: "for_eachS (load_row (sweep_record M now changed)) keys s = (Inr (), v)"
    using visit by (simp only: visit_loop keys_def)
  have "distinct keys"
    using mailbox_ok_wf [OF ok] by (simp add: keys_def bt_wf_def strict_sorted_iff distinct_map_filter)
  moreover have "same_directory s s" by (simp add: same_directory_fields)
  moreover have "\<forall>k \<in> set keys. \<exists>r. bt_get k (db_exchanges s) = Some r \<and> er_active r"
    unfolding keys_def using selected_active [OF ok] by blast
  ultimately have v_ok: "mailbox_ok v" and dir: "same_directory s v"
    and visited: "\<And>k. k \<in> set keys \<Longrightarrow> live_row (ml_net M) s now changed k (bt_get k (db_exchanges v))"
    and other: "\<And>k. k \<notin> set keys \<Longrightarrow> bt_get k (db_exchanges v) = bt_get k (db_exchanges s)"
    using sweep_loop [OF loop ok] by blast+
  have sel: "k \<in> set keys \<longleftrightarrow> sweep_selects changed (uint now) k r" if "bt_get k (db_exchanges s) = Some r" for k r
    unfolding keys_def by (rule selected_rows [OF ok that])
  have live: "live_row (ml_net M) s now changed k (bt_get k (db_exchanges v))" for k
  proof (cases "k \<in> set keys")
    case False
    have "er_prepare_expires_at r = uint (ex_prepare_expires_at (er_record r))" if "bt_get k (db_exchanges s) = Some r" for r
      using mailbox_ok_row [OF ok that] by (simp add: row_ok_def)
    with False other [of k] sel [of k] show ?thesis
      by (auto simp: live_row_def sweep_selects_def word_le_def split: if_splits)
  qed (rule visited)
  have still: "bt_get k (db_exchanges v) = Some r" if "bt_get k (db_exchanges s) = Some r" "\<not> er_active r" for k r
    using sel [OF that(1)] that other [of k] by (auto simp: sweep_selects_def split: if_splits)
  have "db_swept v = db_swept s"
    using keepsD [OF visit_keeps [OF _ _ sweep_record_swept] visit] by (simp add: reflp_def transp_def)
  then have "db_swept t = db_revision s"
    using t dir by (auto simp: changed_def same_directory_fields)
  with v_ok dir live still now t show ?thesis
    unfolding changed_def [symmetric] by (auto simp: same_directory_fields)
qed

end
