(* ===== verification/SubmitProps.thy ===== *)
theory SubmitProps
  imports MailboxProps
begin

text \<open>
  Writes of the mailbox: what a write with its sweep and savepoint does, when a message is
  accepted, what an accepted message stores, and that repeating it changes nothing.
\<close>

declare split_paired_All [simp del] split_paired_Ex [simp del]

section \<open>Writes\<close>

text \<open>An operation that may run behind the savepoint of \<^verbatim>\<open>write\<close>: it keeps the tables' invariant
  when it succeeds.\<close>

locale mailbox_operation =
  fixes operation :: "'a dbS"
  assumes inner_ok: "mailbox_ok s \<Longrightarrow> operation s = (Inr x, t) \<Longrightarrow> mailbox_ok t"
begin

lemma write_done:
  "db_write M now operation s = (Inr x, t) \<Longrightarrow>
   \<exists>u. sweep_inner M now s = (Inr (), u) \<and> operation u = (Inr x, t)"
  by (auto simp: db_write_def split: prod.splits sum.splits)

lemma write_failed:
  "db_write M now operation s = (Inl e, t) \<Longrightarrow> t = s \<or> sweep_inner M now s = (Inr (), t)"
  by (auto simp: db_write_def split: prod.splits sum.splits)

lemma write_ok:
  assumes "mailbox_ok s" "db_write M now operation s = (r, t)"
  shows "mailbox_ok t"
proof (cases r)
  case (Inl e)
  with assms write_failed mailbox_ok_sweep show ?thesis by blast
next
  case (Inr x)
  with assms write_done obtain u where "sweep_inner M now s = (Inr (), u)" "operation u = (Inr x, t)" by blast
  with assms(1) mailbox_ok_sweep inner_ok show ?thesis by blast
qed

end

section \<open>The gate of a submission\<close>

definition submit_gate ::
    "mail_lib \<Rightarrow> int \<Rightarrow> string \<Rightarrow> int \<Rightarrow> message \<Rightarrow> kind \<Rightarrow> bytes \<Rightarrow> pq_bundle \<Rightarrow> pq_bundle \<Rightarrow>
     message_digest \<Rightarrow> pq_db \<Rightarrow> bool" where
  "submit_gate M i key other m kind nid first second digest s \<longleftrightarrow>
     ready s \<and> (\<exists>p. caller (ml_net M) i key s = Inr p) \<and> pair_allowed (ml_net M) i other s = Inr () \<and>
     validate_shape m = Inr kind \<and>
     num_get (msg_sender_id m) = word_of_int i \<and>
     num_get (msg_initiator_id m) = word_of_int (min i other) \<and>
     num_get (msg_responder_id m) = word_of_int (max i other) \<and>
     (\<exists>rev. network s = Inr (nid, rev)) \<and>
     active_bundle M (min i other) s = Inr first \<and> active_bundle M (max i other) s = Inr second \<and>
     msg_network_id m = nid \<and> msg_initiator_bundle_id m = bu_id first \<and>
     msg_responder_bundle_id m = bu_id second \<and>
     message_digest_of (ml_crypto M) (ml_json M) m = Inr digest"

definition submit_found ::
    "mail_lib \<Rightarrow> int \<Rightarrow> int \<Rightarrow> message \<Rightarrow> kind \<Rightarrow> bytes \<Rightarrow> pq_bundle \<Rightarrow> pq_bundle \<Rightarrow>
     message_digest \<Rightarrow> limits \<Rightarrow> u64 \<Rightarrow> exchange dbS" where
  "submit_found M i other m kind nid first second digest l now s =
     (case List.find (\<lambda>r. ex_initiator_bundle_id r = bu_id first \<and>
            ex_responder_bundle_id r = bu_id second) (load_pair i other s) of
       None \<Rightarrow> submit_proposal M i other m kind digest nid first second (load_pair i other s) l now
     | Some record \<Rightarrow>
         if msg_sequence m < ex_sequence record then failS SConflict
         else if msg_sequence m = ex_sequence record
         then submit_current M (i < other) m kind digest record
         else submit_proposal M i other m kind digest nid first second (load_pair i other s) l now) s"

lemma submit_gate_directory:
  "same_directory s t \<Longrightarrow> submit_gate M i key other m kind nid first second digest t
     = submit_gate M i key other m kind nid first second digest s"
  by (simp add: submit_gate_def directory_queries)

lemma submit_inner_gate:
  "submit_gate M i key other m kind nid first second digest s \<Longrightarrow>
   submit_inner M i key other m l now s = submit_found M i other m kind nid first second digest l now s"
  by (auto simp: submit_gate_def submit_inner_def submit_found_def bindS_def askS_def map_err_def)

lemma submit_inner_Inr:
  assumes "submit_inner M i key other m l now s = (Inr e, t)"
  obtains kind nid first second digest where
    "submit_gate M i key other m kind nid first second digest s"
    "submit_found M i other m kind nid first second digest l now s = (Inr e, t)"
  using assms
  by (auto simp: submit_inner_def run_simps submit_gate_def submit_found_def simp del: number_less_iff)

section \<open>The record of a pair of bundles\<close>

lemma find_record:
  assumes "mailbox_ok s"
  shows "List.find (\<lambda>r. ex_initiator_bundle_id r = b1 \<and> ex_responder_bundle_id r = b2) (load_pair i other s)
    = map_option er_record (bt_get (min i other, max i other, b1, b2) (db_exchanges s))"
    (is "_ = map_option _ (bt_get ?k _)")
proof -
  have wf: "bt_wf (db_exchanges s)" by (rule mailbox_ok_wf [OF assms])
  have key: "k = key_of (er_record r)" if "(k, r) \<in> set (db_exchanges s)" for k r
    using that bt_get_mem [OF wf] mailbox_ok_row [OF assms] by (auto simp: row_ok_def)
  have split: "?k = key_of x \<longleftrightarrow> pair_of (key_of x) = (min i other, max i other) \<and>
      ex_initiator_bundle_id x = b1 \<and> ex_responder_bundle_id x = b2" for x
    by (auto simp: key_of_def pair_of_def)
  have mem: "x \<in> set (load_pair i other s) \<longleftrightarrow> (\<exists>k r. (k, r) \<in> set (db_exchanges s) \<and> x = er_record r \<and>
      pair_of k = (min i other, max i other))" for x
    by (force simp: load_pair_def)
  show ?thesis
  proof (cases "bt_get ?k (db_exchanges s)")
    case None
    have "List.find (\<lambda>r. ex_initiator_bundle_id r = b1 \<and> ex_responder_bundle_id r = b2) (load_pair i other s) = None"
      unfolding find_None_iff
    proof
      assume "\<exists>x. x \<in> set (load_pair i other s) \<and> ex_initiator_bundle_id x = b1 \<and> ex_responder_bundle_id x = b2"
      then obtain k r where kr: "(k, r) \<in> set (db_exchanges s)" "pair_of k = (min i other, max i other)"
        "ex_initiator_bundle_id (er_record r) = b1" "ex_responder_bundle_id (er_record r) = b2"
        unfolding mem by blast
      with key split have "k = ?k" by metis
      with kr None bt_get_mem [OF wf] show False by auto
    qed
    with None show ?thesis by simp
  next
    case (Some row)
    then have row: "(?k, row) \<in> set (db_exchanges s)" using bt_get_mem [OF wf] by blast
    let ?P = "\<lambda>r. ex_initiator_bundle_id r = b1 \<and> ex_responder_bundle_id r = b2"
    have unique: "x = er_record row" if x: "x \<in> set (load_pair i other s)" "?P x" for x
    proof -
      from x(1) obtain k r where kr: "(k, r) \<in> set (db_exchanges s)" "x = er_record r"
        "pair_of k = (min i other, max i other)" unfolding mem by blast
      with x(2) key split have "k = ?k" by metis
      with kr Some bt_get_mem [OF wf] show ?thesis by auto
    qed
    have "er_record row \<in> set (load_pair i other s)" "?P (er_record row)"
      using row key [OF row] split by (auto simp: mem pair_of_def)
    then have "List.find ?P (load_pair i other s) \<noteq> None" unfolding find_None_iff by blast
    then obtain x where x: "List.find ?P (load_pair i other s) = Some x" by blast
    then have "x \<in> set (load_pair i other s)" "?P x" by (auto simp: find_Some_iff)
    with unique x Some show ?thesis by simp
  qed
qed

section \<open>Accepted messages\<close>

lemma submit_current_Inr:
  assumes "submit_current M initiator m kind digest record s = (Inr e, t)"
  shows "msg_exchange_id m = ex_exchange_id record \<and> msg_transcript_hash m = ex_transcript_hash record \<and>
    (digest \<in> set (ex_receipts record) \<and> e = record \<and> t = s \<or>
     digest \<notin> set (ex_receipts record) \<and> \<not> terminal (ex_decision record) \<and>
     (\<exists>tr d. ex_transcript record = Some tr \<and> authenticate (ml_crypto M) m tr = Inr () \<and>
        advance kind initiator (ex_decision record) = Inr d \<and>
        e = compact (record\<lparr>ex_decision := d, ex_messages := ex_messages record @ [m],
          ex_receipts := ex_receipts record @ [digest]\<rparr>) \<and>
        save M e s = (Inr (), t)))"
  using assms
  by (auto simp: submit_current_def run_simps Let_def bindS_Inr_iff split: if_splits)

lemma submit_proposal_Inr:
  assumes "submit_proposal M i other m kind digest nid first second records l now s = (Inr e, t)"
  shows "kind = KPropose \<and> (\<forall>r \<in> set records. terminal (ex_decision r)) \<and>
    (\<exists>tr. authenticate (ml_crypto M) m tr = Inr () \<and> hash (ml_crypto M) (transcript_encode tr) = Inr (ex_transcript_hash e) \<and>
       ex_transcript e = Some tr) \<and>
    ex_initiator_id e = msg_initiator_id m \<and> ex_responder_id e = msg_responder_id m \<and>
    ex_initiator_bundle_id e = bu_id first \<and> ex_responder_bundle_id e = bu_id second \<and>
    ex_sequence e = msg_sequence m \<and> ex_exchange_id e = msg_exchange_id m \<and>
    ex_decision e = decision_default \<and> ex_receipts e = [digest] \<and>
    checked_add64 now prepare_ttl = Some (ex_prepare_expires_at e) \<and>
    save M e s = (Inr (), t)"
  using assms
  by (auto simp: submit_proposal_def run_simps Let_def bindS_Inr_iff list_ex_iff)

lemma submit_found_Inr:
  assumes "mailbox_ok s" "submit_found M i other m kind nid first second digest l now s = (Inr e, t)"
  obtains
    (current) row where "bt_get (min i other, max i other, bu_id first, bu_id second) (db_exchanges s) = Some row"
      "msg_sequence m = ex_sequence (er_record row)"
      "submit_current M (i < other) m kind digest (er_record row) s = (Inr e, t)"
  | (opened) "submit_proposal M i other m kind digest nid first second (load_pair i other s) l now s = (Inr e, t)"
      "pred_option (\<lambda>row. ex_sequence (er_record row) < msg_sequence m)
        (bt_get (min i other, max i other, bu_id first, bu_id second) (db_exchanges s))"
proof (cases "bt_get (min i other, max i other, bu_id first, bu_id second) (db_exchanges s)")
  case None
  with assms(2) opened show ?thesis by (simp add: submit_found_def find_record [OF assms(1)])
next
  case (Some row)
  with assms(2) opened current show ?thesis
    by (auto simp: submit_found_def find_record [OF assms(1)] not_less less_le simp del: number_less_iff split: if_splits)
qed

lemma exch_ok_current:
  assumes "exch_ok record" "advance k i (ex_decision record) = Inr d" "ex_transcript record \<noteq> None"
    "\<not> terminal (ex_decision record)"
  shows "exch_ok (compact (record\<lparr>ex_decision := d, ex_messages := ms, ex_receipts := rs\<rparr>))"
proof (rule exch_ok_compact)
  have "decision_inv (ex_decision record)" using assms(1,4) by (auto simp: exch_ok_def terminal_def)
  then have "decision_inv d" using assms(2) by (rule advance_inv)
  then show "decision_inv (ex_decision (record\<lparr>ex_decision := d, ex_messages := ms, ex_receipts := rs\<rparr>)) \<or>
      dc_phase (ex_decision (record\<lparr>ex_decision := d, ex_messages := ms, ex_receipts := rs\<rparr>)) = PAborted" by simp
qed (use assms(3) in simp)

lemma decision_default_ok [simp]: "decision_inv decision_default" "\<not> terminal decision_default"
  by (simp_all add: decision_default_def decision_inv_def terminal_def side_get_def)

lemma mailbox_ok_submit:
  assumes ok: "mailbox_ok s" and run: "submit_inner M i key other m l now s = (Inr e, t)"
  shows "mailbox_ok t"
proof -
  obtain kind nid first second digest where
    "submit_gate M i key other m kind nid first second digest s"
    and found: "submit_found M i other m kind nid first second digest l now s = (Inr e, t)"
    by (rule submit_inner_Inr [OF run])
  from ok found show ?thesis
  proof (cases rule: submit_found_Inr)
    case (current row)
    have row: "exch_ok (er_record row)" using row_exch_ok [OF ok current(1)] .
    from submit_current_Inr [OF current(3)] show ?thesis
    proof (elim conjE disjE exE)
      fix tr d assume "ex_transcript (er_record row) = Some tr" "\<not> terminal (ex_decision (er_record row))"
        "advance kind (i < other) (ex_decision (er_record row)) = Inr d"
        "e = compact ((er_record row)\<lparr>ex_decision := d, ex_messages := ex_messages (er_record row) @ [m],
          ex_receipts := ex_receipts (er_record row) @ [digest]\<rparr>)" and save: "save M e s = (Inr (), t)"
      with row have "exch_ok e" by (auto intro: exch_ok_current)
      with ok save show ?thesis by (blast intro: mailbox_ok_save)
    qed (use ok in simp)
  next
    case opened
    from submit_proposal_Inr [OF opened(1)] have new: "ex_decision e = decision_default"
      "ex_transcript e \<noteq> None" "save M e s = (Inr (), t)" by blast+
    then have "exch_ok e" by (simp add: exch_ok_def)
    with ok new(3) show ?thesis by (blast intro: mailbox_ok_save)
  qed
qed

interpretation submitting: mailbox_operation "submit_inner M i key other m l now"
  by unfold_locales (rule mailbox_ok_submit)

text \<open>A sweep with nothing due and no change of visibility does nothing.\<close>

lemma sweep_noop:
  assumes "mailbox_ok s" "now \<le> i64_max" "db_swept s = db_revision s"
    and "\<And>k. live_row L s' now False k (bt_get k (db_exchanges s))"
  shows "sweep_inner M now s = (Inr (), s)"
proof -
  have "\<not> sweep_selects False (uint now) k r" if "(k, r) \<in> set (db_exchanges s)" for k r
  proof -
    have get: "bt_get k (db_exchanges s) = Some r"
      using that bt_get_mem [OF mailbox_ok_wf [OF assms(1)]] by blast
    with assms(4) [of k] mailbox_ok_row [OF assms(1) get] show ?thesis
      by (auto simp: live_row_def sweep_selects_def row_ok_def word_le_def)
  qed
  then have "filter (\<lambda>(k, r). sweep_selects False (uint now) k r) (db_exchanges s) = []"
    by (auto simp: filter_empty_conv)
  then have "visit (sweep_selects False (uint now)) (sweep_record M now False) s = (Inr (), s)"
    by (simp add: visit_loop)
  with assms(2,3) show ?thesis by (simp add: sweep_inner_def i64_of_def bindS_def)
qed

section \<open>Repeating an accepted message\<close>

lemma word_id: "0 < i \<Longrightarrow> i < i64_bound \<Longrightarrow> sint (word_of_int i :: u64) = i"
  by (simp add: i64_bound_def signed_of_int signed_take_bit_int_eq_self)

lemma gate_key:
  assumes "submit_gate M i key other m kind nid first second digest s" "i < i64_bound" "other < i64_bound"
  shows "sint (num_get (msg_initiator_id m)) = min i other" "sint (num_get (msg_responder_id m)) = max i other"
proof -
  from assms(1) have "0 < i" "0 < other" by (auto simp: submit_gate_def pair_allowed_def split: if_splits)
  with assms show "sint (num_get (msg_initiator_id m)) = min i other" "sint (num_get (msg_responder_id m)) = max i other"
    using word_id [of "min i other"] word_id [of "max i other"] by (simp_all add: submit_gate_def)
qed

lemma live_after_advance:
  assumes "advance k i d = Inr d'" "dc_phase d' \<in> {PProposed, PReady}"
  shows "dc_phase d \<in> {PProposed, PReady}"
  using assms unfolding advance_Ok by (auto split: if_splits)

lemma submit_inner_stores:
  assumes ok: "mailbox_ok s" and run: "submit_inner M i key other m l now s = (Inr e, t)"
    and ids: "i < i64_bound" "other < i64_bound"
    and live: "\<And>k. live_row L s' now False k (bt_get k (db_exchanges s))"
  shows "submit_inner M i key other m l now t = (Inr e, t) \<and> db_swept t = db_swept s \<and> same_directory s t \<and>
    (\<forall>k. live_row L s' now False k (bt_get k (db_exchanges t)))"
proof -
  obtain kind nid first second digest where
    gate: "submit_gate M i key other m kind nid first second digest s"
    and found: "submit_found M i other m kind nid first second digest l now s = (Inr e, t)"
    by (rule submit_inner_Inr [OF run])
  let ?k = "(min i other, max i other, bu_id first, bu_id second)"
  note t_ok = mailbox_ok_submit [OF ok run]
  have again: "submit_inner M i key other m l now t = (Inr e, t)"
    if "same_directory s t" "bt_get ?k (db_exchanges t) = Some row" "er_record row = e"
      "msg_sequence m = ex_sequence e" "msg_exchange_id m = ex_exchange_id e"
      "msg_transcript_hash m = ex_transcript_hash e" "digest \<in> set (ex_receipts e)" for row
  proof -
    have "submit_gate M i key other m kind nid first second digest t"
      using gate submit_gate_directory [OF that(1)] by simp
    from submit_inner_gate [OF this] show ?thesis
      using that by (simp add: submit_found_def find_record [OF t_ok] submit_current_def)
  qed
  have stored: ?thesis
    if save: "save M e s = (Inr (), t)" and key: "key_of e = ?k"
      and match: "msg_sequence m = ex_sequence e" "msg_exchange_id m = ex_exchange_id e"
        "msg_transcript_hash m = ex_transcript_hash e" "digest \<in> set (ex_receipts e)"
      and due: "\<not> terminal (ex_decision e) \<Longrightarrow> dc_phase (ex_decision e) \<in> {PProposed, PReady} \<Longrightarrow> \<not> ex_prepare_expires_at e \<le> now"
  proof -
    have dir: "same_directory s t" by (rule keepsD [OF save_keeps save])
    obtain row where row: "bt_get ?k (db_exchanges t) = Some row" "er_record row = e"
      using save key by (auto simp: save_run Let_def)
    have "live_row L s' now False k (bt_get k (db_exchanges t))" for k
      using save due live [of k] by (auto simp: save_run Let_def live_row_def)
    moreover have "db_swept t = db_swept s" using save by (auto simp: save_run Let_def)
    ultimately show ?thesis using again [OF dir row match] dir by blast
  qed
  from ok found show ?thesis
  proof (cases rule: submit_found_Inr)
    case (current row)
    note row = mailbox_ok_row [OF ok current(1)]
    from submit_current_Inr [OF current(3)] show ?thesis
    proof (elim conjE disjE exE)
      assume "digest \<in> set (ex_receipts (er_record row))" "e = er_record row" "t = s"
      with run live show ?thesis by (simp add: same_directory_fields)
    next
      fix tr d
      assume active: "\<not> terminal (ex_decision (er_record row))"
        and d: "advance kind (i < other) (ex_decision (er_record row)) = Inr d"
        and e: "e = compact ((er_record row)\<lparr>ex_decision := d, ex_messages := ex_messages (er_record row) @ [m],
          ex_receipts := ex_receipts (er_record row) @ [digest]\<rparr>)"
        and save: "save M e s = (Inr (), t)"
        and match: "msg_exchange_id m = ex_exchange_id (er_record row)" "msg_transcript_hash m = ex_transcript_hash (er_record row)"
      show ?thesis
      proof (rule stored [OF save])
        show "key_of e = ?k" using row by (simp add: e key_of_def row_ok_def)
        assume "dc_phase (ex_decision e) \<in> {PProposed, PReady}"
        with d live_after_advance have "dc_phase (ex_decision (er_record row)) \<in> {PProposed, PReady}"
          by (fastforce simp: e)
        with live [of ?k] current(1) row active show "\<not> ex_prepare_expires_at e \<le> now"
          by (auto simp: e live_row_def row_ok_def)
      qed (use match current(2) in \<open>simp_all add: e\<close>)
    qed
  next
    case opened
    note new = submit_proposal_Inr [OF opened(1)]
    show ?thesis
    proof (rule stored)
      show "save M e s = (Inr (), t)" using new by blast
      show "key_of e = ?k" using new gate_key [OF gate ids] by (simp add: key_of_def)
      show "msg_transcript_hash m = ex_transcript_hash e" using new by (auto simp: authenticate_Ok)
      have "unat (ex_prepare_expires_at e) = unat now + unat prepare_ttl"
        using new checked_add64_Some by blast
      then show "\<not> ex_prepare_expires_at e \<le> now"
        by (simp add: word_le_nat_alt prepare_ttl_def)
    qed (use new in auto)
  qed
qed

lemma submit_retry:
  assumes "mailbox_ok s" "i < i64_bound" "other < i64_bound" "submit M i key other m l now s = (Inr e, t)"
  shows "submit M i key other m l now t = (Inr e, t)"
proof -
  from submitting.write_done [OF assms(4) [unfolded submit_def]] obtain u where
    sweep: "sweep_inner M now s = (Inr (), u)" and run: "submit_inner M i key other m l now u = (Inr e, t)" by blast
  note post = sweep_post [OF assms(1) sweep]
  then have u: "mailbox_ok u" "db_swept u = db_revision u" "now \<le> i64_max" by (auto simp: same_directory_fields)
  have "live_row (ml_net M) s now False k (bt_get k (db_exchanges u))" for k
    using post by (auto simp: live_row_def)
  from submit_inner_stores [OF u(1) run assms(2,3) this]
  have again: "submit_inner M i key other m l now t = (Inr e, t)" and t: "db_swept t = db_revision t"
    "\<And>k. live_row (ml_net M) s now False k (bt_get k (db_exchanges t))"
    using u(2) by (auto simp: same_directory_fields)
  from sweep_noop [OF mailbox_ok_submit [OF u(1) run] u(3) t, of M] again show ?thesis
    by (simp add: submit_def db_write_def)
qed

end
