(* ===== verification/RegisterProps.thy ===== *)
theory RegisterProps
  imports SubmitProps
begin

text \<open>
  Registration of bundles: what a successful registration required and stored, that what is
  stored reads back as what was returned, and that repeating it changes nothing.
\<close>

declare split_paired_All [simp del] split_paired_Ex [simp del]

section \<open>Dropping exchanges\<close>

lemma bt_get_filter:
  "bt_wf m \<Longrightarrow> bt_get k (filter (\<lambda>(k, r). P k r) m)
     = (case bt_get k m of None \<Rightarrow> None | Some r \<Rightarrow> if P k r then Some r else None)"
proof (induction m)
  case (Cons d m)
  obtain k' r where d: "d = (k', r)" by (cases d)
  have m: "bt_wf m" and above: "\<forall>x \<in> fst ` set m. k' < x"
    using Cons.prems by (auto simp: bt_wf_def d)
  have "bt_get k' m = None" using above bt_get_None [of k' m] by auto
  moreover have "bt_get k' (filter (\<lambda>(k, r). P k r) m) = None"
    using above bt_get_None [of k' "filter (\<lambda>(k, r). P k r) m"] by auto
  ultimately show ?case
    using Cons.IH [OF m] by (cases "k = k'") (simp_all add: d bt_get_def)
qed (simp add: bt_get_def)

lemma mailbox_ok_filter:
  assumes "mailbox_ok s"
  shows "mailbox_ok (drop_exchanges P s)"
proof -
  have wf: "bt_wf (db_exchanges s)" by (rule mailbox_ok_wf [OF assms])
  have get: "bt_get k (db_exchanges (drop_exchanges P s)) = Some r \<Longrightarrow> bt_get k (db_exchanges s) = Some r" for k r
    by (auto simp: drop_exchanges_def bt_get_filter [OF wf] split: option.splits if_splits)
  have "bt_wf (db_exchanges (drop_exchanges P s))"
    using wf by (auto simp: drop_exchanges_def bt_wf_def sorted_wrt_map sorted_wrt_filter)
  moreover have "one_active (db_exchanges (drop_exchanges P s))"
    using assms get one_activeD unfolding mailbox_ok_def one_active_def by blast
  ultimately show ?thesis
    using get mailbox_ok_row [OF assms] unfolding mailbox_ok_def by blast
qed

lemma mailbox_ok_other: "db_exchanges t = db_exchanges s \<Longrightarrow> mailbox_ok t = mailbox_ok s"
  by (simp add: mailbox_ok_def)

section \<open>A successful registration\<close>

definition register_gate :: "mail_lib \<Rightarrow> int \<Rightarrow> string \<Rightarrow> registration \<Rightarrow> pq_db \<Rightarrow> bool" where
  "register_gate M i key request s \<longleftrightarrow>
     ready s \<and> (\<exists>p. caller (ml_net M) i key s = Inr p) \<and> is_server i s = Inr False \<and>
     bundle_validate (ml_crypto M) (rg_bundle request) = Inr () \<and> rg_version request = 1 \<and>
     (rg_emergency request \<longrightarrow> rg_lifecycle request = LRetired) \<and>
     key_from_base64 (ml_net M) key = Some (bu_wg (rg_bundle request)) \<and>
     next_revision (rg_expected_revision request) = Inr (bu_revision (rg_bundle request))"

lemma register_inner_Inr:
  assumes "register_inner M i key request l s = (Inr e, t)"
  obtains (retry) "register_gate M i key request s" "e = desired_of request" "t = s"
      "stored_bundle (ml_crypto M) i s = Inr (Some e)"
  | (changed) current u v where "register_gate M i key request s" "e = desired_of request"
      "stored_bundle (ml_crypto M) i s = Inr current" "current \<noteq> Some e"
      "revision_of current = rg_expected_revision request"
      "(case rg_lifecycle request of LEnabled \<Rightarrow> register_enabled M i request l current
        | LRetired \<Rightarrow> register_retired M i request (bu_revision (rg_bundle request)) current) s = (Inr (), u)"
      "put_bundle i (bundle_row_of request) u = Inr v"
      "t = drop_exchanges (\<lambda>k r. \<not> er_active r \<and> key_of_peer i k) v"
      "rg_emergency request \<or> \<not> list_ex (\<lambda>(k, r). er_active r \<and> key_of_peer i k) (db_exchanges s)"
proof -
  from assms have run: "register_gate M i key request s \<and> e = desired_of request \<and>
     (t = s \<and> stored_bundle (ml_crypto M) i s = Inr (Some e) \<or>
      (\<exists>current u v. stored_bundle (ml_crypto M) i s = Inr current \<and> current \<noteq> Some e \<and>
         revision_of current = rg_expected_revision request \<and>
         (case rg_lifecycle request of LEnabled \<Rightarrow> register_enabled M i request l current
           | LRetired \<Rightarrow> register_retired M i request (bu_revision (rg_bundle request)) current) s = (Inr (), u) \<and>
         put_bundle i (bundle_row_of request) u = Inr v \<and>
         t = drop_exchanges (\<lambda>k r. \<not> er_active r \<and> key_of_peer i k) v \<and>
         (rg_emergency request \<or> \<not> list_ex (\<lambda>(k, r). er_active r \<and> key_of_peer i k) (db_exchanges s))))"
    by (auto simp: register_inner_def run_simps bindS_Inr_iff register_gate_def split: if_splits)
  then show ?thesis using retry changed by blast
qed

lemma register_enabled_Inr:
  "register_enabled M i request l current s = (Inr (), u) \<longleftrightarrow>
   budget M l True s = Inr () \<and>
   \<not> (\<exists>b \<in> set_option current. bu_id (ab_bundle b) = bu_id (rg_bundle request)) \<and>
   bt_get (bu_id (rg_bundle request)) (db_history s) = None \<and>
   insert_history (bu_id (rg_bundle request)) i s = Inr u"
  by (auto simp: register_enabled_def run_simps)

lemma register_retired_Inr:
  "register_retired M i request nxt current s = (Inr (), u) \<longleftrightarrow>
   (\<exists>b. current = Some b \<and> (ab_bundle b)\<lparr>bu_revision := nxt\<rparr> = rg_bundle request \<and>
      terminate_peer M i ''retired'' s = (Inr (), u))"
  by (auto simp: register_retired_def run_simps)

lemma insert_history_run:
  "insert_history bid i s = Inr u \<longleftrightarrow> bt_get bid (db_history s) = None \<and> length bid = 16 \<and> 0 < i \<and>
   u = s\<lparr>db_history := bt_insert bid i (db_history s)\<rparr>"
  by (auto simp: insert_history_def)

lemma bump_run: "bump s = Inr t \<longleftrightarrow> db_revision s + 1 < i64_bound \<and> t = s\<lparr>db_revision := db_revision s + 1\<rparr>"
  by (auto simp: bump_def)

definition stored_row :: "int \<Rightarrow> bundle_row \<Rightarrow> pq_db \<Rightarrow> bundle_row" where
  "stored_row i r db = (case bt_get i (db_bundles db) of None \<Rightarrow> r | Some old \<Rightarrow> r\<lparr>br_version := br_version old\<rparr>)"

lemma put_bundle_run:
  "put_bundle i r s = Inr t \<longleftrightarrow> bundle_fits s i (stored_row i r s) \<and> db_revision s + 1 < i64_bound \<and>
   t = s\<lparr>db_bundles := bt_insert i (stored_row i r s) (db_bundles s), db_revision := db_revision s + 1\<rparr>"
  by (auto simp: put_bundle_def Let_def stored_row_def bump_def)

text \<open>The state before the upsert: a new history entry, or the peer's exchanges terminated.\<close>

lemma register_branch:
  assumes "(case rg_lifecycle request of LEnabled \<Rightarrow> register_enabled M i request l current
        | LRetired \<Rightarrow> register_retired M i request nxt current) s = (Inr (), u)"
  shows "rg_lifecycle request = LEnabled \<and> bt_get (bu_id (rg_bundle request)) (db_history s) = None \<and>
      u = s\<lparr>db_history := bt_insert (bu_id (rg_bundle request)) i (db_history s)\<rparr> \<or>
    rg_lifecycle request = LRetired \<and> same_directory s u \<and> terminate_peer M i ''retired'' s = (Inr (), u) \<and>
      (\<exists>b. current = Some b \<and> bu_id (ab_bundle b) = bu_id (rg_bundle request))"
proof (cases "rg_lifecycle request")
  case LEnabled
  with assms show ?thesis by (auto simp: register_enabled_Inr insert_history_run)
next
  case LRetired
  with assms obtain b where b: "current = Some b" "(ab_bundle b)\<lparr>bu_revision := nxt\<rparr> = rg_bundle request"
    and run: "terminate_peer M i ''retired'' s = (Inr (), u)" by (auto simp: register_retired_Inr)
  have "bu_id (ab_bundle b) = bu_id ((ab_bundle b)\<lparr>bu_revision := nxt\<rparr>)" by simp
  also note b(2)
  finally have "\<exists>b. current = Some b \<and> bu_id (ab_bundle b) = bu_id (rg_bundle request)" using b(1) by blast
  with LRetired run keepsD [OF terminate_keeps run] show ?thesis by blast
qed

lemma mailbox_ok_register:
  assumes ok: "mailbox_ok s" and run: "register_inner M i key request l s = (Inr e, t)"
  shows "mailbox_ok t"
  using run
proof (cases rule: register_inner_Inr)
  case (changed current u v)
  have "mailbox_ok u"
    using register_branch [OF changed(6)] ok mailbox_ok_terminate mailbox_ok_other [of u s] by auto
  moreover have "db_exchanges v = db_exchanges u" using changed(7) by (auto simp: put_bundle_run)
  ultimately have "mailbox_ok v" by (simp add: mailbox_ok_other [of v u])
  with changed(8) show ?thesis by (simp add: mailbox_ok_filter)
qed (use ok in simp)

interpretation registering: mailbox_operation "register_inner M i key request l"
  by unfold_locales (rule mailbox_ok_register)

section \<open>Reading a registration back\<close>

lemma number_roundtrip: "number_wf n \<Longrightarrow> number_new (num_get n) = Inr n"
  by (cases n) simp

lemma bundle_of_stored:
  assumes "bundle_validate C (rg_bundle request) = Inr ()" "rg_version request = 1"
    and "number_wf (bu_revision (rg_bundle request))"
    and "length (bu_id (rg_bundle request)) = 16" "bundle_fits s i (bundle_row_of request)"
  shows "bundle_of_row C (bundle_row_of request) = Inr (desired_of request)"
  using assms
  by (cases "rg_bundle request"; cases "rg_lifecycle request")
    (simp_all add: bundle_of_row_def bundle_row_of_def sized_def Let_def bundle_fits_def desired_of_def map_err_def
      number_roundtrip)

lemma next_revision_wf: "next_revision x = Inr n \<Longrightarrow> number_wf n"
  by (auto simp: next_revision_def dest: number_next_wf split: option.splits)

lemma bundle_row_version:
  "stored_bundle C i s = Inr (Some b) \<Longrightarrow> \<exists>r. bt_get i (db_bundles s) = Some r \<and> br_version r = 1 \<and>
     bu_id (ab_bundle b) = br_bundle_id r \<and> length (br_bundle_id r) = 16"
  by (auto simp: stored_bundle_def bundle_of_row_def sized_def bindR_Inr_iff Let_def split: option.splits if_splits)

lemma no_stored_bundle: "stored_bundle C i s = Inr None \<Longrightarrow> bt_get i (db_bundles s) = None"
  by (auto simp: stored_bundle_def bindR_Inr_iff split: option.splits)

text \<open>What the branch leaves for the upsert, and what the upsert then writes.\<close>

lemma register_changed_state:
  assumes "register_inner M i key request l s = (Inr e, t)" "stored_bundle (ml_crypto M) i s \<noteq> Inr (Some e)"
  shows "bt_get i (db_bundles t) = Some (bundle_row_of request) \<and> db_peers t = db_peers s \<and>
    db_cidrs t = db_cidrs s \<and> db_associations t = db_associations s \<and> db_enabled t = db_enabled s \<and>
    db_management_ready t = db_management_ready s \<and> db_max_peer_id t = db_max_peer_id s \<and>
    db_network_id t = db_network_id s \<and>
    db_bundles t = bt_insert i (bundle_row_of request) (db_bundles s) \<and>
    db_history t = (if rg_lifecycle request = LEnabled then bt_insert (bu_id (rg_bundle request)) i (db_history s) else db_history s) \<and>
    length (bu_id (rg_bundle request)) = 16 \<and> bundle_fits t i (bundle_row_of request) \<and>
    (if rg_lifecycle request = LEnabled then bt_get (bu_id (rg_bundle request)) (db_history s) = None
     else \<exists>r. bt_get i (db_bundles s) = Some r \<and> br_bundle_id r = bu_id (rg_bundle request))"
  using assms(1)
proof (cases rule: register_inner_Inr)
  case (changed current u v)
  note branch = register_branch [OF changed(6)]
  have bundles: "db_bundles u = db_bundles s" using branch by (auto simp: same_directory_fields)
  have row: "stored_row i (bundle_row_of request) u = bundle_row_of request"
  proof (cases current)
    case None
    with changed(3) no_stored_bundle bundles show ?thesis by (auto simp: stored_row_def)
  next
    case (Some b)
    with changed(3) bundle_row_version [of "ml_crypto M" i s b] bundles show ?thesis
      by (auto simp: stored_row_def bundle_row_of_def Let_def)
  qed
  have v: "v = u\<lparr>db_bundles := bt_insert i (bundle_row_of request) (db_bundles u), db_revision := db_revision u + 1\<rparr>"
    and fits: "bundle_fits u i (bundle_row_of request)"
    using changed(7) by (auto simp: put_bundle_run row)
  have len: "length (bu_id (rg_bundle request)) = 16"
    using branch changed(3,6) bundle_row_version [of "ml_crypto M" i s]
    by (auto simp: register_enabled_Inr insert_history_run)
  have fits_t: "bundle_fits t i (bundle_row_of request)"
  proof -
    have "list_all (\<lambda>(j, q). j = i \<or> br_bundle_id q \<noteq> br_bundle_id r) (bt_insert i r m)"
      if "list_all (\<lambda>(j, q). j = i \<or> br_bundle_id q \<noteq> br_bundle_id r) m" for r and m :: "(int, bundle_row) btree"
      using that by (induction i r m rule: bt_insert.induct) auto
    with fits show ?thesis by (auto simp: bundle_fits_def changed(8) v drop_exchanges_def)
  qed
  have retired: "\<exists>r. bt_get i (db_bundles s) = Some r \<and> br_bundle_id r = bu_id (rg_bundle request)"
    if "rg_lifecycle request = LRetired"
    using that branch changed(3) bundle_row_version [of "ml_crypto M" i s] by auto
  from branch show ?thesis
    using fits_t len retired by (elim disjE conjE) (simp_all add: changed(8) v drop_exchanges_def same_directory_fields)
qed (use assms(2) in simp)

lemma register_reads_back:
  assumes "register_inner M i key request l s = (Inr e, t)"
  shows "stored_bundle (ml_crypto M) i t = Inr (Some e)" "register_inner M i key request l t = (Inr e, t)"
proof -
  have gate: "register_gate M i key request s" and e: "e = desired_of request"
    using assms by (auto elim: register_inner_Inr)
  have stored: "stored_bundle (ml_crypto M) i t = Inr (Some e)"
  proof (cases "stored_bundle (ml_crypto M) i s = Inr (Some e)")
    case True
    with assms show ?thesis by (cases rule: register_inner_Inr) auto
  next
    case False
    note st = register_changed_state [OF assms False]
    have "bundle_of_row (ml_crypto M) (bundle_row_of request) = Inr (desired_of request)"
      using gate next_revision_wf st
      by (intro bundle_of_stored) (auto simp: register_gate_def)
    with st e show ?thesis by (simp add: stored_bundle_def)
  qed
  show "stored_bundle (ml_crypto M) i t = Inr (Some e)" by (rule stored)
  have "register_gate M i key request t"
  proof (cases "stored_bundle (ml_crypto M) i s = Inr (Some e)")
    case True
    from assms have "t = s" using True by (cases rule: register_inner_Inr) auto
    with gate show ?thesis by simp
  next
    case False
    from gate register_changed_state [OF assms False] show ?thesis
      by (simp add: register_gate_def ready_def caller_def peer_get_def is_server_def)
  qed
  with stored e show "register_inner M i key request l t = (Inr e, t)"
    by (auto simp: register_gate_def register_inner_def bindS_def askS_def desired_of_def)
qed

end
