(* ===== verification/Admin.thy ===== *)
theory Admin
  imports Mailbox
begin

text \<open>
  The administrative writes that touch the mailbox in the same transaction (\<^verbatim>\<open>server/src/db/peer.rs\<close>,
  \<^verbatim>\<open>association.rs\<close>), and the creation and migration of the database (\<^verbatim>\<open>server/src/db/mod.rs\<close>).
\<close>

section \<open>Peers and associations\<close>

text \<open>\<^verbatim>\<open>update\<close> of a peer loaded as \<open>self\<close>; only some fields may change.\<close>

definition peer_update :: "mail_lib \<Rightarrow> int \<Rightarrow> peer \<Rightarrow> peer \<Rightarrow> peer dbS" where
  "peer_update M i self contents =
     bindS (liftS (guardR (is_valid_name (pe_name contents)) SInvalidQuery)) (\<lambda>_.
     let new_contents = self\<lparr>pe_name := pe_name contents, pe_endpoint := pe_endpoint contents,
           pe_is_admin := pe_is_admin contents, pe_is_disabled := pe_is_disabled contents,
           pe_candidates := pe_candidates contents\<rparr> in
     bindS (liftS (ok_or (nl_candidates_text (ml_net M) (pe_candidates new_contents)) SJson)) (\<lambda>new_candidates.
     bindS (transaction (
       bindS (execS (update_peer i (\<lambda>r. r\<lparr>pr_name := pe_name new_contents,
           pr_endpoint := map_option (nl_endpoint_text (ml_net M)) (pe_endpoint new_contents),
           pr_is_admin := pe_is_admin new_contents, pr_is_disabled := pe_is_disabled new_contents,
           pr_candidates := Some new_candidates\<rparr>))) (\<lambda>_.
       if pe_is_disabled new_contents then terminate_peer M i ''disabled'' else retS ()))) (\<lambda>_.
     retS new_contents)))"

definition peer_disable :: "mail_lib \<Rightarrow> int \<Rightarrow> unit dbS" where
  "peer_disable M i = transaction (
     bindS (getS (\<lambda>db. bt_get i (db_peers db) \<noteq> None)) (\<lambda>found.
     bindS (execS (update_peer i (\<lambda>r. r\<lparr>pr_is_disabled := True\<rparr>))) (\<lambda>_.
     if \<not> found then failS SNotFound else terminate_peer M i ''disabled'')))"

definition delete_association :: "int \<Rightarrow> pq_db \<Rightarrow> pq_db sres" where
  "delete_association i db =
     (if bt_get i (db_associations db) = None then Ok db
      else bump (db\<lparr>db_associations := bt_remove i (db_associations db)\<rparr>))"

definition association_delete :: "mail_lib \<Rightarrow> int \<Rightarrow> unit dbS" where
  "association_delete M i = transaction (
     bindS (execS (delete_association i)) (\<lambda>_.
     sweep_inner M 0))"

section \<open>Creation and migration\<close>

text \<open>What the versions of the schema differ in: the columns added to \<^verbatim>\<open>peers\<close> and the tables,
  columns and triggers of \<^verbatim>\<open>pq_schema.sql\<close>, summed up by the network row they come with.\<close>

record schema =
  sc_user_version :: int
  sc_tables :: bool
  sc_invite_expires :: bool
  sc_candidates :: bool
  sc_peer_ids :: "int list"
  sc_network :: "(bytes \<times> int) option"

datatype sql_error = SqlInvalidQuery | SqlFailure

type_synonym 'a schemaS = "(schema, sql_error, 'a) comp"

definition invite_expiration_version :: int where
  "invite_expiration_version = 1"

definition endpoint_candidates_version :: int where
  "endpoint_candidates_version = 2"

definition current_version :: int where
  "current_version = 3"

definition add_column :: "(schema \<Rightarrow> bool) \<Rightarrow> (schema \<Rightarrow> schema) \<Rightarrow> unit schemaS" where
  "add_column has add =
     bindS (getS (\<lambda>s. sc_tables s \<and> \<not> has s)) (\<lambda>fits.
     bindS (liftS (guardR fits SqlFailure)) (\<lambda>_. modS add))"

text \<open>\<^verbatim>\<open>drawn\<close> is the network identifier drawn, if the generator works.\<close>

definition migrate :: "bytes option \<Rightarrow> int \<Rightarrow> unit schemaS" where
  "migrate drawn old_version =
     bindS (if old_version < invite_expiration_version
       then add_column sc_invite_expires (\<lambda>s. s\<lparr>sc_invite_expires := True\<rparr>) else retS ()) (\<lambda>_.
     bindS (if old_version < endpoint_candidates_version
       then add_column sc_candidates (\<lambda>s. s\<lparr>sc_candidates := True\<rparr>) else retS ()) (\<lambda>_.
     bindS (if old_version < 3
       then bindS (getS (\<lambda>s. list_ex (\<lambda>i. i \<le> 0) (sc_peer_ids s))) (\<lambda>invalid.
            bindS (liftS (guardR (\<not> invalid) SqlInvalidQuery)) (\<lambda>_.
            bindS (liftS (ok_or drawn SqlInvalidQuery)) (\<lambda>network_id.
            bindS (getS (\<lambda>s. sc_tables s \<and> sc_network s = None)) (\<lambda>fits.
            bindS (liftS (guardR fits SqlFailure)) (\<lambda>_.
            modS (\<lambda>s. s\<lparr>sc_network := Some (network_id, fold max (sc_peer_ids s) 0)\<rparr>))))))
       else retS ()) (\<lambda>_.
     if old_version \<noteq> current_version then modS (\<lambda>s. s\<lparr>sc_user_version := current_version\<rparr>)
     else retS ())))"

definition schema_transaction :: "unit schemaS \<Rightarrow> unit schemaS" where
  "schema_transaction m s = (case m s of (Inl e, _) \<Rightarrow> (Inl e, s) | (Inr x, t) \<Rightarrow> (Inr x, t))"

definition auto_migrate :: "bytes option \<Rightarrow> unit schemaS" where
  "auto_migrate drawn =
     bindS (getS sc_user_version) (\<lambda>old_version.
     bindS (liftS (guardR (0 \<le> old_version \<and> old_version \<le> current_version) SqlInvalidQuery)) (\<lambda>_.
     schema_transaction (
       bindS (getS sc_user_version) (\<lambda>old_version.
       bindS (liftS (guardR (0 \<le> old_version \<and> old_version \<le> current_version) SqlInvalidQuery)) (\<lambda>_.
       migrate drawn old_version)))))"

definition create :: "bytes option \<Rightarrow> unit schemaS" where
  "create drawn = schema_transaction (
     bindS (getS sc_tables) (\<lambda>exist.
     bindS (liftS (guardR (\<not> exist) SqlFailure)) (\<lambda>_.
     bindS (modS (\<lambda>s. s\<lparr>sc_tables := True, sc_invite_expires := True, sc_candidates := True, sc_peer_ids := []\<rparr>)) (\<lambda>_.
     migrate drawn 2))))"

text \<open>A database that this program wrote at its version.\<close>

definition schema_ok :: "schema \<Rightarrow> bool" where
  "schema_ok s \<longleftrightarrow> 0 \<le> sc_user_version s \<and> sc_user_version s \<le> 3 \<and> sc_tables s \<and>
     (sc_invite_expires s \<longleftrightarrow> 1 \<le> sc_user_version s) \<and>
     (sc_candidates s \<longleftrightarrow> 2 \<le> sc_user_version s) \<and>
     (sc_network s \<noteq> None \<longleftrightarrow> 3 \<le> sc_user_version s)"

lemma migrate_run:
  assumes "schema_ok s" "\<forall>i \<in> set (sc_peer_ids s). 0 < i"
  shows "auto_migrate (Some nid) s = (Inr (),
     s\<lparr>sc_user_version := 3, sc_invite_expires := True, sc_candidates := True,
       sc_network := (if sc_user_version s = 3 then sc_network s else Some (nid, fold max (sc_peer_ids s) 0))\<rparr>)"
proof -
  have "\<not> list_ex (\<lambda>i. i \<le> 0) (sc_peer_ids s)" using assms(2) by (auto simp: list_ex_iff)
  moreover have "sc_user_version s \<in> {0, 1, 2, 3}" using assms(1) by (auto simp: schema_ok_def)
  ultimately show ?thesis
    using assms(1)
    by (cases s) (auto simp: auto_migrate_def schema_transaction_def migrate_def add_column_def schema_ok_def
      current_version_def invite_expiration_version_def endpoint_candidates_version_def bindS_def guardR_def
      getS_def modS_def liftS_def retS_def)
qed

lemma migrate_fails: "auto_migrate drawn s = (Inl e, t) \<Longrightarrow> t = s"
  by (auto simp: auto_migrate_def schema_transaction_def bindS_Inl_iff split: prod.splits sum.splits)

lemma fold_max_base: "n \<le> fold max xs (n :: int)"
proof (induction xs arbitrary: n)
  case (Cons x xs)
  from Cons [of "max x n"] show ?case by simp
qed simp

lemma fold_max_bound: "i \<in> set xs \<Longrightarrow> i \<le> fold max xs (n :: int)"
proof (induction xs arbitrary: n)
  case (Cons x xs)
  with fold_max_base [of "max x n" xs] show ?case by auto
qed simp

text \<open>Migrating any database of an earlier version succeeds and makes it current: the columns
  and the network row are there, the largest peer identifier covers every peer, and migrating
  again changes nothing.\<close>

theorem migration_reaches_current:
  assumes "schema_ok s" "\<forall>i \<in> set (sc_peer_ids s). 0 < i"
  shows "\<exists>t. auto_migrate (Some nid) s = (Inr (), t) \<and> sc_user_version t = current_version \<and> schema_ok t \<and>
    sc_peer_ids t = sc_peer_ids s \<and> auto_migrate (Some nid') t = (Inr (), t) \<and>
    (sc_user_version s < 3 \<longrightarrow> (\<exists>m. sc_network t = Some (nid, m) \<and> (\<forall>i \<in> set (sc_peer_ids s). i \<le> m)))"
proof -
  define t where "t = s\<lparr>sc_user_version := 3, sc_invite_expires := True, sc_candidates := True,
       sc_network := (if sc_user_version s = 3 then sc_network s else Some (nid, fold max (sc_peer_ids s) 0))\<rparr>"
  have t: "schema_ok t" "sc_peer_ids t = sc_peer_ids s" "sc_user_version t = 3"
    using assms(1) by (auto simp: t_def schema_ok_def)
  then have "auto_migrate (Some nid') t = (Inr (), t)"
    using migrate_run [of t nid'] assms(2) by (auto simp: t_def)
  then show ?thesis
    using migrate_run [OF assms, of nid] t fold_max_bound
    by (auto simp: current_version_def t_def)
qed

theorem migration_reaches_current_witness:
  "\<exists>t. auto_migrate (Some (replicate 16 1))
      \<lparr>sc_user_version = 1, sc_tables = True, sc_invite_expires = True, sc_candidates = False,
       sc_peer_ids = [1, 5, 3], sc_network = None\<rparr> = (Inr (), t) \<and> sc_user_version t = 3 \<and>
     (\<exists>m. sc_network t = Some (replicate 16 1, m) \<and> 5 \<le> m)"
  using migration_reaches_current [of "\<lparr>sc_user_version = 1, sc_tables = True, sc_invite_expires = True,
      sc_candidates = False, sc_peer_ids = [1, 5, 3], sc_network = None\<rparr>" "replicate 16 1" "[]"]
  by (auto simp: schema_ok_def current_version_def)

end
