(* ===== verification/ServerProps.thy ===== *)
theory ServerProps
  imports RegisterProps Admin
begin

text \<open>
  The coordinating server over time: every operation of the database, in any order and with
  any outcome, keeps the invariant of the tables, never forgets a bundle identifier and never
  hands out a peer identifier again.
\<close>

declare split_paired_All [simp del] split_paired_Ex [simp del]

section \<open>The invariant of the database\<close>

text \<open>Every exchange is one of the bundles its two peers now publish.\<close>

definition bundle_id_of :: "int \<Rightarrow> pq_db \<Rightarrow> bytes option" where
  "bundle_id_of i db = map_option br_bundle_id (bt_get i (db_bundles db))"

definition key_current :: "pq_db \<Rightarrow> exchange_key \<Rightarrow> bool" where
  "key_current db k \<longleftrightarrow> bundle_id_of (fst k) db = Some (fst (snd (snd k))) \<and>
     bundle_id_of (fst (snd k)) db = Some (snd (snd (snd k)))"

definition exchange_keys :: "pq_db \<Rightarrow> exchange_key set" where
  "exchange_keys db = fst ` set (db_exchanges db)"

definition server_ok :: "pq_db \<Rightarrow> bool" where
  "server_ok db \<longleftrightarrow> mailbox_ok db \<and> (\<forall>k \<in> exchange_keys db. key_current db k) \<and> db_max_peer_id db < i64_bound \<and> bt_wf (db_peers db) \<and> cidrs_wf (db_cidrs db) \<and>
     (\<forall>i r. bt_get i (db_peers db) = Some r \<longrightarrow> i \<le> db_max_peer_id db) \<and>
     (\<forall>i r. bt_get i (db_bundles db) = Some r \<longrightarrow> bt_get (br_bundle_id r) (db_history db) = Some i)"

text \<open>So a pair of peers has at most one record.\<close>

lemma one_record:
  assumes "server_ok s" "k \<in> exchange_keys s" "k' \<in> exchange_keys s" "pair_of k = pair_of k'"
  shows "k = k'"
proof -
  have "key_current s k" "key_current s k'" using assms(1-3) by (simp_all add: server_ok_def)
  with assms(4) show ?thesis
    by (cases k rule: prod_cases4; cases k' rule: prod_cases4) (auto simp: key_current_def pair_of_def)
qed

definition grows :: "pq_db \<Rightarrow> pq_db \<Rightarrow> bool" where
  "grows s t \<longleftrightarrow> db_max_peer_id s \<le> db_max_peer_id t \<and>
     (\<forall>b p. bt_get b (db_history s) = Some p \<longrightarrow> bt_get b (db_history t) = Some p) \<and>
     (\<forall>i. bt_get i (db_peers t) \<noteq> None \<longrightarrow> bt_get i (db_peers s) \<noteq> None \<or> db_max_peer_id s < i)"

definition evolves :: "pq_db \<Rightarrow> pq_db \<Rightarrow> bool" where
  "evolves s t \<longleftrightarrow> (server_ok s \<longrightarrow> server_ok t \<and> grows s t)"

lemma grows_refl: "grows s s"
  by (simp add: grows_def)

lemma grows_trans: "grows s t \<Longrightarrow> grows t u \<Longrightarrow> grows s u"
  unfolding grows_def by (meson order.trans le_less_trans)

lemma evolves_refl [simp]: "reflp evolves"
  by (simp add: reflp_def evolves_def grows_refl)

lemma evolves_trans [simp]: "transp evolves"
  by (auto simp: transp_def evolves_def intro: grows_trans)

text \<open>Statements that leave peers, bundles and their history alone.\<close>

lemma exchange_keys_other [simp]:
  "exchange_keys (s\<lparr>db_revision := a\<rparr>) = exchange_keys s" "exchange_keys (s\<lparr>db_swept := a\<rparr>) = exchange_keys s"
  "exchange_keys (s\<lparr>db_max_peer_id := a\<rparr>) = exchange_keys s" "exchange_keys (s\<lparr>db_enabled := b\<rparr>) = exchange_keys s"
  "exchange_keys (s\<lparr>db_management_ready := b\<rparr>) = exchange_keys s" "exchange_keys (s\<lparr>db_peers := c\<rparr>) = exchange_keys s"
  "exchange_keys (s\<lparr>db_cidrs := d\<rparr>) = exchange_keys s" "exchange_keys (s\<lparr>db_associations := e\<rparr>) = exchange_keys s"
  "exchange_keys (s\<lparr>db_history := f\<rparr>) = exchange_keys s" "exchange_keys (s\<lparr>db_bundles := g\<rparr>) = exchange_keys s"
  by (simp_all add: exchange_keys_def)

lemma key_current_bundles: "db_bundles t = db_bundles s \<Longrightarrow> key_current t = key_current s"
  by (simp add: key_current_def bundle_id_of_def fun_eq_iff)

lemma evolves_other:
  assumes "exchange_keys t \<subseteq> exchange_keys s" "db_max_peer_id t = db_max_peer_id s" "db_history t = db_history s" "db_bundles t = db_bundles s"
    "bt_wf (db_peers s) \<longrightarrow> bt_wf (db_peers t)" "\<And>i. bt_get i (db_peers t) \<noteq> None \<Longrightarrow> bt_get i (db_peers s) \<noteq> None"
    "mailbox_ok s \<Longrightarrow> mailbox_ok t" "cidrs_wf (db_cidrs s) \<Longrightarrow> cidrs_wf (db_cidrs t)"
  shows "evolves s t"
  unfolding evolves_def server_ok_def grows_def key_current_bundles [OF assms(4)]
  using assms by (auto 0 3 dest!: assms(6))

lemma evolves_directory:
  assumes "keeps same_directory m"
    and "\<And>s r t. mailbox_ok s \<Longrightarrow> m s = (r, t) \<Longrightarrow> mailbox_ok t \<and> exchange_keys t \<subseteq> exchange_keys s"
  shows "keeps evolves m"
proof (rule keepsI)
  fix s r t assume run: "m s = (r, t)"
  show "evolves s t"
  proof (cases "mailbox_ok s")
    case True
    with keepsD [OF assms(1) run] assms(2) [OF True run] show ?thesis
      by (auto simp: same_directory_fields intro!: evolves_other)
  qed (simp add: evolves_def server_ok_def)
qed

text \<open>Rewriting records leaves their keys.\<close>

definition keys_within :: "exchange_key set \<Rightarrow> pq_db \<Rightarrow> bool" where
  "keys_within K db \<longleftrightarrow> mailbox_ok db \<and> exchange_keys db \<subseteq> K"

lemma save_keys:
  "save M e s = (r, t) \<Longrightarrow> exchange_keys t \<subseteq> insert (key_of e) (exchange_keys s)"
proof (cases r)
  case (Inl err)
  assume "save M e s = (r, t)" with Inl save_fails show ?thesis by blast
next
  case (Inr u)
  assume "save M e s = (r, t)" with Inr show ?thesis
    by (auto simp: save_run Let_def exchange_keys_def bt_keys_insert)
qed

lemma row_key: "mailbox_ok s \<Longrightarrow> bt_get k (db_exchanges s) = Some row \<Longrightarrow> key_of (er_record row) \<in> exchange_keys s"
  using mailbox_ok_row [of s k row] bt_get_mem [OF mailbox_ok_wf, of s k row] by (force simp: row_ok_def exchange_keys_def)

lemma keys_within_save:
  assumes "keys_within K s" "bt_get k (db_exchanges s) = Some row" "key_of e = key_of (er_record row)"
    "exch_ok e" "save M e s = (r, t)"
  shows "keys_within K t"
proof -
  have s: "mailbox_ok s" "exchange_keys s \<subseteq> K" using assms(1) by (simp_all add: keys_within_def)
  have "key_of e \<in> exchange_keys s" using row_key [OF s(1) assms(2)] assms(3) by simp
  then have "exchange_keys t \<subseteq> exchange_keys s" using save_keys [OF assms(5)] by (simp add: insert_absorb)
  with s mailbox_ok_save [OF s(1) assms(4,5)] show ?thesis
    unfolding keys_within_def by (blast intro: subset_trans)
qed

lemma sweep_within: "on_rows (keys_within K) (sweep_record M now changed)"
  unfolding on_rows_def
proof (intro allI impI)
  fix s k row r t
  assume ok: "keys_within K s" and get: "bt_get k (db_exchanges s) = Some row"
    and run: "sweep_record M now changed (er_record row) s = (r, t)"
  have "mailbox_ok s" using ok by (simp add: keys_within_def)
  note row = due_ok [OF row_exch_ok [OF this get]]
  note saved = keys_within_save [OF ok get _ row(1)] keys_within_save [OF ok get _ row(2)]
  from run show "keys_within K t"
  proof (cases rule: sweep_record_cases)
    case allowed
    from allowed(2) saved(1) row(3) ok show ?thesis by (cases rule: sweep_finish_run) simp_all
  next
    case gone
    from gone saved(2) row(4) ok show ?thesis by (cases rule: sweep_finish_run) simp_all
  qed (use ok in simp)
qed

lemma terminate_within:
  "on_rows (keys_within K) (\<lambda>e. save M (compact ((set_phase PAborted e)\<lparr>ex_termination := Some reason\<rparr>)))"
proof -
  have "exch_ok (compact ((set_phase PAborted e)\<lparr>ex_termination := Some reason\<rparr>))" for e
    by (rule exch_ok_compact) (simp_all add: set_phase_def terminal_def)
  moreover have "key_of (compact ((set_phase PAborted e)\<lparr>ex_termination := Some reason\<rparr>)) = key_of e" for e
    by (simp add: key_of_def set_phase_def)
  ultimately show ?thesis unfolding on_rows_def by (blast intro: keys_within_save)
qed

lemma keys_within_swept [simp]: "keys_within K (s\<lparr>db_swept := x\<rparr>) = keys_within K s"
  by (simp add: keys_within_def)

lemma sweep_keys:
  assumes "mailbox_ok s" "sweep_inner M now s = (r, t)"
  shows "keys_within (exchange_keys s) t"
proof -
  have s: "keys_within (exchange_keys s) s" using assms(1) by (simp add: keys_within_def)
  note visited = visit_inv [OF sweep_within s]
  show ?thesis
    using assms s
    by (auto simp: sweep_inner_def bindS_def i64_of_def dest: visited split: prod.splits sum.splits if_splits)
qed

lemma terminate_keys:
  assumes "mailbox_ok s" "terminate_peer M i reason s = (r, t)"
  shows "keys_within (exchange_keys s) t"
  using assms visit_inv [OF terminate_within, of "exchange_keys s" s]
  by (simp add: keys_within_def terminate_peer_def)

lemma evolves_sweep: "keeps evolves (sweep_inner M now)"
  using sweep_keys by (intro evolves_directory sweep_keeps) (simp add: keys_within_def)

lemma evolves_terminate: "keeps evolves (terminate_peer M i reason)"
  using terminate_keys by (intro evolves_directory terminate_keeps) (simp add: keys_within_def)

section \<open>Statements\<close>

lemma evolves_bump: "bump s = Inr t \<Longrightarrow> evolves s t"
  by (auto simp: bump_run mailbox_ok_def intro!: evolves_other)

lemma evolves_bumped: "bump s = Inr t \<Longrightarrow> evolves r s \<Longrightarrow> evolves r t"
  using evolves_bump evolves_trans by (meson transpD)

lemma evolves_insert_peer:
  assumes "insert_peer i r s = Inr t"
  shows "evolves s t"
proof -
  have "key_current t = key_current s" "exchange_keys t = exchange_keys s"
    using assms by (auto simp: insert_peer_def bump_run split: if_splits intro!: key_current_bundles)
  with assms show ?thesis
    by (auto simp: insert_peer_def evolves_def server_ok_def grows_def mailbox_ok_def bump_run split: if_splits)
qed

lemma evolves_update_peer: "update_peer i f s = Inr t \<Longrightarrow> evolves s t"
  by (auto simp: update_peer_def bump_run mailbox_ok_def intro!: evolves_other split: option.splits if_splits)

lemma evolves_drop: "evolves s (drop_exchanges P s)"
proof (rule evolves_other)
  assume "mailbox_ok s" then show "mailbox_ok (drop_exchanges P s)" by (rule mailbox_ok_filter)
qed (auto simp: drop_exchanges_def exchange_keys_def)

lemma evolves_delete_peer:
  assumes "delete_peer i s = Inr t"
  shows "evolves s t"
proof (cases "bt_get i (db_peers s) = None")
  case False
  let ?s1 = "s\<lparr>db_peers := bt_remove i (db_peers s)\<rparr>"
  let ?s2 = "drop_exchanges (\<lambda>k r. key_of_peer i k) ?s1"
  have s1: "evolves s ?s1"
    by (rule evolves_other) (auto simp: mailbox_ok_def split: if_splits)
  have s2: "evolves s ?s2" using s1 evolves_drop evolves_trans by (meson transpD)
  show ?thesis
  proof (cases "bt_get i (db_bundles s) = None")
    case True
    with False assms have "bump ?s2 = Inr t" by (auto simp: delete_peer_def Let_def split: if_splits)
    then show ?thesis using s2 by (rule evolves_bumped)
  next
    case held: False
    let ?s3 = "?s2\<lparr>db_bundles := bt_remove i (db_bundles s)\<rparr>"
    from held False assms obtain u where u: "bump ?s3 = Inr u" "bump u = Inr t"
      by (auto simp: delete_peer_def Let_def bindR_Inr_iff split: if_splits)
    have "key_current ?s3 k" if "k \<in> exchange_keys ?s3" "key_current ?s2 k" for k
      using that by (auto simp: exchange_keys_def drop_exchanges_def key_current_def bundle_id_of_def key_of_peer_def)
    then have "evolves ?s2 ?s3"
      by (auto simp: evolves_def server_ok_def grows_def mailbox_ok_def drop_exchanges_def split: if_splits)
    with s2 have "evolves s ?s3" using evolves_trans by (meson transpD)
    with u show ?thesis by (blast intro: evolves_bumped)
  qed
qed (use assms evolves_refl in \<open>auto simp: delete_peer_def reflp_def\<close>)

lemma evolves_delete_peers: "delete_peers is s = Inr t \<Longrightarrow> evolves s t"
proof (induction "is" arbitrary: s)
  case (Cons i "is")
  then obtain u where "delete_peer i s = Inr u" "delete_peers is u = Inr t" by (auto simp: bindR_Inr_iff)
  with Cons.IH evolves_delete_peer show ?case using evolves_trans by (meson transpD)
qed (use evolves_refl in \<open>auto simp: reflp_def\<close>)

section \<open>CIDRs\<close>

lemma sorted_last: "sorted xs \<Longrightarrow> x \<in> set xs \<Longrightarrow> x \<le> (last xs :: int)"
  by (induction xs) (auto split: if_splits)

lemma fresh_rowid_above: "bt_wf m \<Longrightarrow> j \<in> fst ` set m \<Longrightarrow> j < fresh_rowid m"
  using sorted_last [of "map fst m" j]
  by (auto simp: fresh_rowid_def bt_wf_def strict_sorted_iff last_map)

lemma bt_insert_set: "bt_wf m \<Longrightarrow> (j, d) \<in> set (bt_insert k v m) \<longleftrightarrow> (if j = k then d = v else (j, d) \<in> set m)"
  using bt_get_mem [of "bt_insert k v m" j d] bt_get_mem [of m j d] by auto

lemma cidrs_wf_iff:
  "cidrs_wf cs \<longleftrightarrow> bt_wf cs \<and>
   (\<forall>i c p. (i, c) \<in> set cs \<longrightarrow> ci_parent c = Some p \<longrightarrow> p < i \<and> p \<in> fst ` set cs)"
  by (force simp: cidrs_wf_def list_all_iff pred_option_def)

lemma cidrs_wf_insert:
  assumes "cidrs_wf m" "\<And>p. ci_parent c = Some p \<Longrightarrow> p < k \<and> p \<in> fst ` set m"
  shows "cidrs_wf (bt_insert k c m)"
proof -
  have wf: "bt_wf m" using assms(1) by (simp add: cidrs_wf_def)
  show ?thesis
    unfolding cidrs_wf_iff
  proof (intro conjI allI impI)
    fix i d p assume d: "(i, d) \<in> set (bt_insert k c m)" "ci_parent d = Some p"
    then have "p < i \<and> p \<in> fst ` set m"
      using assms unfolding cidrs_wf_iff bt_insert_set [OF wf] by (auto split: if_splits)
    then show "p < i" "p \<in> fst ` set (bt_insert k c m)" by (simp_all add: bt_keys_insert)
  qed (simp add: wf)
qed

lemma evolves_insert_cidr: "insert_cidr c s = Inr t \<Longrightarrow> evolves s t"
proof -
  assume run: "insert_cidr c s = Inr t"
  then have parent: "pred_option (\<lambda>p. bt_get p (db_cidrs s) \<noteq> None) (ci_parent c)"
    and bump: "bump (s\<lparr>db_cidrs := bt_insert (fresh_rowid (db_cidrs s)) c (db_cidrs s)\<rparr>) = Inr t"
    by (auto simp: insert_cidr_def split: if_splits)
  have "cidrs_wf (bt_insert (fresh_rowid (db_cidrs s)) c (db_cidrs s))" if wf: "cidrs_wf (db_cidrs s)"
  proof (rule cidrs_wf_insert [OF wf])
    fix p assume "ci_parent c = Some p"
    with parent have "p \<in> fst ` set (db_cidrs s)" by (simp add: bt_get_None)
    then show "p < fresh_rowid (db_cidrs s) \<and> p \<in> fst ` set (db_cidrs s)"
      using wf fresh_rowid_above [of "db_cidrs s" p] by (simp add: cidrs_wf_def)
  qed
  then have "evolves s (s\<lparr>db_cidrs := bt_insert (fresh_rowid (db_cidrs s)) c (db_cidrs s)\<rparr>)"
    by (intro evolves_other) (simp_all add: mailbox_ok_def)
  with bump show ?thesis by (rule evolves_bumped)
qed

lemma evolves_cidr_name:
  assumes "bt_get i (db_cidrs s) = Some self"
  shows "evolves s (s\<lparr>db_cidrs := bt_insert i (self\<lparr>ci_name := n\<rparr>) (db_cidrs s)\<rparr>)"
proof (rule evolves_other)
  assume wf: "cidrs_wf (db_cidrs s)"
  have "bt_wf (db_cidrs s)" using wf by (simp add: cidrs_wf_def)
  then have "(i, self) \<in> set (db_cidrs s)" using assms bt_get_mem by metis
  then have "p < i \<and> p \<in> fst ` set (db_cidrs s)" if "ci_parent (self\<lparr>ci_name := n\<rparr>) = Some p" for p
    using wf that unfolding cidrs_wf_iff by auto
  then show "cidrs_wf (db_cidrs (s\<lparr>db_cidrs := bt_insert i (self\<lparr>ci_name := n\<rparr>) (db_cidrs s)\<rparr>))"
    using wf by (auto intro!: cidrs_wf_insert)
qed (simp_all add: mailbox_ok_def)

lemma evolves_cidr_remove:
  assumes "\<not> cidr_referenced i s"
  shows "evolves s (s\<lparr>db_cidrs := bt_remove i (db_cidrs s)\<rparr>)"
proof (rule evolves_other)
  assume wf: "cidrs_wf (db_cidrs s)"
  have "bt_wf (bt_remove i (db_cidrs s))" using wf by (simp add: cidrs_wf_def)
  moreover have "p < j \<and> p \<in> fst ` set (bt_remove i (db_cidrs s))"
    if "(j, c) \<in> set (bt_remove i (db_cidrs s))" "ci_parent c = Some p" for j c p
  proof -
    from that have jc: "(j, c) \<in> set (db_cidrs s)" by (simp add: bt_remove_def)
    with assms that(2) have "p \<noteq> i" by (auto simp: cidr_referenced_def)
    moreover have "p < j" "p \<in> fst ` set (db_cidrs s)" using wf jc that(2) unfolding cidrs_wf_iff by blast+
    ultimately show ?thesis by (force simp: bt_remove_def)
  qed
  ultimately show "cidrs_wf (db_cidrs (s\<lparr>db_cidrs := bt_remove i (db_cidrs s)\<rparr>))"
    by (simp add: cidrs_wf_iff)
qed (simp_all add: mailbox_ok_def)

section \<open>Operations\<close>

named_theorems evolves_ops \<open>operations that keep the invariant of the database\<close>

lemma evolves_exec: "(\<And>s t. w s = Inr t \<Longrightarrow> evolves s t) \<Longrightarrow> keeps evolves (execS w)"
  by (rule keeps_execS) simp_all

lemma keeps_evolves_bind: "keeps evolves m \<Longrightarrow> (\<And>x. keeps evolves (k x)) \<Longrightarrow> keeps evolves (bindS m k)"
  by (rule keeps_bind) simp_all

lemma keeps_evolves_basic:
  "keeps evolves (retS x)" "keeps evolves (failS e)" "keeps evolves (liftS r)" "keeps evolves (getS f)"
  "keeps evolves (askS q)"
  by simp_all

lemmas evolves_intros = keeps_evolves_bind keeps_evolves_basic evolves_exec keeps_transaction [OF evolves_refl]

lemma evolves_cidr_create [evolves_ops]: "keeps evolves (cidr_create L c)"
  unfolding cidr_create_def by (intro evolves_intros) (rule evolves_insert_cidr)

lemma evolves_cidr_update [evolves_ops]: "keeps evolves (cidr_update i contents)"
proof (rule keepsI)
  fix s r t assume run: "cidr_update i contents s = (r, t)"
  show "evolves s t"
  proof (cases "bt_get i (db_cidrs s)")
    case None
    with run show ?thesis
      using evolves_refl by (auto simp: cidr_update_def cidr_get_def bindS_def askS_def reflp_def)
  next
    case (Some self)
    let ?u = "s\<lparr>db_cidrs := bt_insert i (self\<lparr>ci_name := ci_name contents\<rparr>) (db_cidrs s)\<rparr>"
    have "t = s \<or> bump ?u = Inr t"
      using run Some
      by (auto simp: cidr_update_def cidr_get_def bindS_def askS_def execS_def split: sum.splits if_splits)
    then show ?thesis
      using evolves_cidr_name [OF Some] evolves_bumped evolves_refl by (metis reflpD)
  qed
qed

lemma evolves_cidr_delete [evolves_ops]: "keeps evolves (cidr_delete i)"
  unfolding cidr_delete_def
proof (rule evolves_exec)
  fix s t
  assume run: "(if bt_get i (db_cidrs s) = None then Ok s
     else if cidr_referenced i s then Err (SDatabase DbConstraint)
     else bump (s\<lparr>db_cidrs := bt_remove i (db_cidrs s)\<rparr>)) = Inr t"
  then have "t = s \<or> \<not> cidr_referenced i s \<and> bump (s\<lparr>db_cidrs := bt_remove i (db_cidrs s)\<rparr>) = Inr t"
    by (auto split: if_splits)
  then show "evolves s t" using evolves_cidr_remove evolves_bumped evolves_refl by (metis reflpD)
qed

lemma evolves_associations: "evolves s (s\<lparr>db_associations := x\<rparr>)"
  by (rule evolves_other) (simp_all add: mailbox_ok_def)

lemma evolves_association_create [evolves_ops]: "keeps evolves (association_create a b)"
  unfolding association_create_def
  by (intro evolves_intros) (blast intro: evolves_bumped evolves_associations)

lemma evolves_delete_association: "delete_association i s = Inr t \<Longrightarrow> evolves s t"
  using evolves_refl
  by (auto simp: delete_association_def reflp_def split: if_splits intro: evolves_bumped evolves_associations)

lemma evolves_association_delete [evolves_ops]: "keeps evolves (association_delete M i)"
  unfolding association_delete_def
  by (intro evolves_intros evolves_sweep) (rule evolves_delete_association)

lemma evolves_peer_create [evolves_ops]: "keeps evolves (peer_create L c)"
  unfolding peer_create_def by (intro evolves_intros) (rule evolves_insert_peer)

lemma evolves_peer_update [evolves_ops]: "keeps evolves (peer_update M i self contents)"
  unfolding peer_update_def Let_def
  by (intro evolves_intros) (auto intro: evolves_update_peer evolves_terminate)

lemma evolves_peer_disable [evolves_ops]: "keeps evolves (peer_disable M i)"
  unfolding peer_disable_def
  by (intro evolves_intros) (auto intro: evolves_update_peer evolves_terminate)

lemma evolves_peer_redeem [evolves_ops]: "keeps evolves (peer_redeem now i self pubkey)"
  unfolding peer_redeem_def
  by (intro evolves_intros) (auto intro!: evolves_intros intro: evolves_update_peer)

lemma evolves_expired [evolves_ops]: "keeps evolves (delete_expired_invites now)"
  unfolding delete_expired_invites_def by (intro evolves_intros) (rule evolves_delete_peers)

lemma evolves_identify [evolves_ops]: "keeps evolves (identify_server key addr)"
  unfolding identify_server_def
  by (intro evolves_intros) (auto intro!: evolves_intros intro: evolves_update_peer split: prod.split)

lemma evolves_flags [evolves_ops]: "keeps evolves enable" "keeps evolves (set_management_ready b)"
proof -
  have flag: "evolves s (s\<lparr>db_enabled := x\<rparr>)" "evolves s (s\<lparr>db_management_ready := x\<rparr>)" for s x
    by (rule evolves_other; simp add: mailbox_ok_def)+
  show "keeps evolves enable" "keeps evolves (set_management_ready b)"
    unfolding enable_def set_management_ready_def
    by (intro evolves_intros keeps_modS flag)+
qed

lemma evolves_sweep_op [evolves_ops]: "keeps evolves (sweep M now)"
  unfolding sweep_def by (intro evolves_intros evolves_sweep)

text \<open>A write of the mailbox keeps what its operation keeps when it succeeds.\<close>

lemma evolves_write:
  assumes "\<And>s x t. operation s = (Inr x, t) \<Longrightarrow> evolves s t"
  shows "keeps evolves (db_write M now operation)"
proof (rule keepsI)
  fix s r t assume run: "db_write M now operation s = (r, t)"
  obtain r1 u where sw: "sweep_inner M now s = (r1, u)" by fastforce
  have su: "evolves s u" by (rule keepsD [OF evolves_sweep sw])
  have "t = s \<or> t = u \<or> (\<exists>x. operation u = (Inr x, t))"
    using run sw by (auto simp: db_write_def split: sum.splits prod.splits)
  then show "evolves s t"
    using su assms evolves_refl evolves_trans by (meson reflpD transpD)
qed

lemma submit_inner_directory: "keeps same_directory (submit_inner M i key other m l now)"
  unfolding submit_inner_def submit_proposal_def submit_current_def Let_def
  by (intro keeps_bind same_directory_refl same_directory_trans keeps_basic)
    (auto intro!: keeps_bind save_keeps split: option.split prod.split)

lemma active_bundle_id: "active_bundle M p s = Inr b \<Longrightarrow> bundle_id_of p s = Some (bu_id b)"
  using bundle_row_version [of "ml_crypto M" p s]
  by (fastforce simp: active_bundle_def bindR_Inr_iff bundle_id_of_def split: if_splits)

text \<open>A submission writes the record of the bundles that the pair publishes.\<close>

lemma submit_keys:
  assumes ok: "server_ok s" and run: "submit_inner M i key other m l now s = (Inr e, t)"
    and k: "k \<in> exchange_keys t"
  shows "key_current s k"
proof -
  have mail: "mailbox_ok s" using ok by (simp add: server_ok_def)
  obtain kind nid first second digest where
    gate: "submit_gate M i key other m kind nid first second digest s"
    and found: "submit_found M i other m kind nid first second digest l now s = (Inr e, t)"
    by (rule submit_inner_Inr [OF run])
  have "key_current s (key_of e) \<and> exchange_keys t \<subseteq> insert (key_of e) (exchange_keys s) \<or> t = s"
    using mail found
  proof (cases rule: submit_found_Inr)
    case (current row)
    have old: "key_current s (key_of (er_record row))"
      using ok row_key [OF mail current(1)] by (simp add: server_ok_def)
    from submit_current_Inr [OF current(3)] show ?thesis
    proof (elim conjE disjE exE)
      fix tr d
      assume e: "e = compact ((er_record row)\<lparr>ex_decision := d, ex_messages := ex_messages (er_record row) @ [m],
          ex_receipts := ex_receipts (er_record row) @ [digest]\<rparr>)" and saved: "save M e s = (Inr (), t)"
      have "key_of e = key_of (er_record row)" unfolding e by (simp add: key_of_def)
      with old save_keys [OF saved] show ?thesis by simp
    qed simp
  next
    case opened
    note new = submit_proposal_Inr [OF opened(1)]
    have peers: "bt_get i (db_peers s) \<noteq> None" "bt_get other (db_peers s) \<noteq> None"
      using gate unfolding submit_gate_def pair_allowed_def is_server_def
      by (auto simp: bindR_Inr_iff split: if_splits)
    then have "i < i64_bound" "other < i64_bound" using ok by (force simp: server_ok_def)+
    from gate_key [OF gate this] have "key_of e = (min i other, max i other, bu_id first, bu_id second)"
      using new by (simp add: key_of_def)
    moreover have "bundle_id_of (min i other) s = Some (bu_id first)" "bundle_id_of (max i other) s = Some (bu_id second)"
      using gate active_bundle_id [of M _ s] by (auto simp: submit_gate_def)
    ultimately have "key_current s (key_of e)" by (simp add: key_current_def)
    moreover have "exchange_keys t \<subseteq> insert (key_of e) (exchange_keys s)" using save_keys [of M e s "Inr ()" t] new by simp
    ultimately show ?thesis by blast
  qed
  with k ok show ?thesis by (auto simp: server_ok_def)
qed

lemma evolves_submit [evolves_ops]: "keeps evolves (submit M i key other m l now)"
  unfolding submit_def
proof (rule evolves_write)
  fix s e t assume run: "submit_inner M i key other m l now s = (Inr e, t)"
  have dir: "same_directory s t" by (rule keepsD [OF submit_inner_directory run])
  then have bundles: "key_current t = key_current s"
    by (intro key_current_bundles) (simp add: same_directory_fields)
  show "evolves s t"
    unfolding evolves_def
  proof
    assume ok: "server_ok s"
    have mail: "mailbox_ok s" "mailbox_ok t"
      using ok mailbox_ok_submit [OF _ run] by (simp_all add: server_ok_def)
    with submit_keys [OF ok run] ok dir show "server_ok t \<and> grows s t"
      by (auto simp: server_ok_def grows_def bundles same_directory_fields)
  qed
qed

text \<open>A registration drops or keeps current every exchange of the peer.\<close>

lemma register_keys:
  assumes ok: "server_ok s" and run: "register_inner M i key request l s = (Inr e, t)"
    and changed: "stored_bundle (ml_crypto M) i s \<noteq> Inr (Some e)" and k: "k \<in> exchange_keys t"
  shows "key_current t k"
proof -
  have mail: "mailbox_ok s" using ok by (simp add: server_ok_def)
  note st = register_changed_state [OF run changed]
  from run show ?thesis
  proof (cases rule: register_inner_Inr)
    case (changed current u v)
    have ex: "db_exchanges v = db_exchanges u" using changed(7) by (auto simp: put_bundle_run)
    have "k \<in> exchange_keys u"
      using k changed(8) ex by (auto simp: exchange_keys_def drop_exchanges_def)
    have "exchange_keys u \<subseteq> exchange_keys s"
      using register_branch [OF changed(6)] terminate_keys [OF mail, of M i "''retired''" "Inr ()" u]
      by (auto simp: keys_within_def)
    with \<open>k \<in> exchange_keys u\<close> ok have old: "key_current s k" by (auto simp: server_ok_def)
    have others: "bundle_id_of j t = bundle_id_of j s" if "j \<noteq> i" for j
      using st that by (simp add: bundle_id_of_def)
    show ?thesis
    proof (cases "key_of_peer i k")
      case False
      with old others show ?thesis by (simp add: key_current_def key_of_peer_def)
    next
      case True
      have "rg_lifecycle request \<noteq> LEnabled"
      proof
        assume enabled: "rg_lifecycle request = LEnabled"
        then have "db_exchanges u = db_exchanges s" using register_branch [OF changed(6)] by auto
        with enabled changed(1,9) k True ex changed(8) show False
          by (auto simp: register_gate_def exchange_keys_def drop_exchanges_def list_ex_iff)
      qed
      then have "bundle_id_of i t = bundle_id_of i s"
        using st by (auto simp: bundle_id_of_def bundle_row_of_def Let_def)
      with old others show ?thesis unfolding key_current_def by metis
    qed
  qed (use assms(3) in simp)
qed

lemma evolves_register_inner:
  assumes run: "register_inner M i key request l s = (Inr e, t)"
  shows "evolves s t"
proof (cases "stored_bundle (ml_crypto M) i s = Inr (Some e)")
  case True
  from run have "t = s" using True by (cases rule: register_inner_Inr) auto
  then show ?thesis using evolves_refl by (simp add: reflpD)
next
  case False
  note st = register_changed_state [OF run False]
  show ?thesis
    unfolding evolves_def
  proof
    assume ok: "server_ok s"
    have hist: "bt_get b (db_history t) = Some p" if "bt_get b (db_history s) = Some p" for b p
      using st that by (auto split: if_splits)
    have owner: "bt_get (br_bundle_id r) (db_history t) = Some j" if "bt_get j (db_bundles t) = Some r" for j r
    proof (cases "j = i")
      case True
      have "br_bundle_id (bundle_row_of request) = bu_id (rg_bundle request)"
        by (simp add: bundle_row_of_def Let_def)
      moreover have "bt_get (br_bundle_id ra) (db_history s) = Some i" if "bt_get i (db_bundles s) = Some ra" for ra
        using ok that unfolding server_ok_def by blast
      moreover have "r = bundle_row_of request" using st that True by simp
      ultimately show ?thesis using st True
        by (cases "rg_lifecycle request") auto
    next
      case False
      with st that have "bt_get j (db_bundles s) = Some r" by simp
      with ok hist show ?thesis by (simp add: server_ok_def)
    qed
    have "mailbox_ok t" "\<forall>k \<in> exchange_keys t. key_current t k"
      using ok mailbox_ok_register [OF _ run] register_keys [OF ok run False] by (simp_all add: server_ok_def)
    with ok st hist owner show "server_ok t \<and> grows s t"
      by (simp add: server_ok_def grows_def)
  qed
qed

lemma evolves_register [evolves_ops]: "keeps evolves (register M i key request l now)"
  unfolding register_def by (rule evolves_write) (rule evolves_register_inner)

section \<open>The life of a server\<close>

text \<open>Any request, administrative command or sweep, with any result.\<close>

inductive server_step :: "mail_lib \<Rightarrow> pq_db \<Rightarrow> pq_db \<Rightarrow> bool" for M where
  do_register: "register M i key request l now s = (r1, t) \<Longrightarrow> server_step M s t"
| do_submit: "submit M i key other m l now s = (r2, t) \<Longrightarrow> server_step M s t"
| do_sweep: "sweep M now s = (r3, t) \<Longrightarrow> server_step M s t"
| do_cidr_create: "cidr_create (ml_net M) c s = (r4, t) \<Longrightarrow> server_step M s t"
| do_cidr_update: "cidr_update i c s = (r5, t) \<Longrightarrow> server_step M s t"
| do_cidr_delete: "cidr_delete i s = (r6, t) \<Longrightarrow> server_step M s t"
| do_associate: "association_create a b s = (r7, t) \<Longrightarrow> server_step M s t"
| do_dissociate: "association_delete M i s = (r8, t) \<Longrightarrow> server_step M s t"
| do_peer_create: "peer_create (ml_net M) p s = (r9, t) \<Longrightarrow> server_step M s t"
| do_peer_update: "peer_update M i self p s = (r10, t) \<Longrightarrow> server_step M s t"
| do_peer_disable: "peer_disable M i s = (r11, t) \<Longrightarrow> server_step M s t"
| do_redeem: "peer_redeem clock i self pubkey s = (r12, t) \<Longrightarrow> server_step M s t"
| do_expire: "delete_expired_invites clock s = (r13, t) \<Longrightarrow> server_step M s t"
| do_identify: "identify_server key addr s = (r14, t) \<Longrightarrow> server_step M s t"
| do_enable: "enable s = (r15, t) \<Longrightarrow> server_step M s t"
| do_management: "set_management_ready b s = (r16, t) \<Longrightarrow> server_step M s t"

lemma server_step_evolves: "server_step M s t \<Longrightarrow> evolves s t"
  by (induction rule: server_step.induct) (erule evolves_ops [THEN keepsD])+

lemma server_life: "(server_step M)\<^sup>*\<^sup>* s t \<Longrightarrow> evolves s t"
proof (induction rule: rtranclp_induct)
  case base
  then show ?case using evolves_refl by (simp add: reflpD)
next
  case (step t u)
  with server_step_evolves show ?case using evolves_trans by (meson transpD)
qed

end
