(* ===== verification/MailboxClaims.thy ===== *)
theory MailboxClaims
  imports ServerProps
begin

text \<open>
  What the coordinating server promises, on concrete data and in general: the properties of the
  mailbox and of the directory behind it.
\<close>

declare split_paired_All [simp del] split_paired_Ex [simp del]

section \<open>A concrete server\<close>

text \<open>A base64 with the lengths of base64: the bytes, filling, and a last character for the remainder.\<close>

definition toy_base64 :: base64 where
  "toy_base64 = \<lparr>
     b64_encode = \<lambda>v. if v = [] then [] else
       map (\<lambda>b. char_of (unat b)) v @ replicate ((length v + 2) div 3 * 4 - length v - 1) (CHR ''='') @
       [char_of ((length v + 2) div 3 * 3 - length v)],
     b64_decode = \<lambda>s. if s = [] then Some [] else
       Some (map of_char (take (length s div 4 * 3 - of_char (last s)) s))\<rparr>"

lemma byte_char: "(of_char (char_of (unat (b :: byte))) :: byte) = b"
proof -
  have "unat b < 256" using unsigned_less [of b] by simp
  then have "(of_char (char_of (unat b)) :: nat) = unat b" by (simp add: take_bit_nat_eq_self)
  then have "(of_nat (of_char (char_of (unat b)) :: nat) :: byte) = of_nat (unat b)" by simp
  then show ?thesis by (simp only: of_nat_of_char) simp
qed

lemma toy_base64_law: "base64_law toy_base64"
  unfolding base64_law_def
proof (intro allI conjI)
  fix v :: bytes
  define q where "q = (length v + 2) div 3"
  have q: "length v \<le> q * 3" "q * 3 < length v + 3" unfolding q_def by presburger+
  have fold_q: "Suc (Suc (length v)) div 3 = q" by (simp add: q_def)
  then have room: "v \<noteq> [] \<Longrightarrow> length v + 1 \<le> q * 4" by (cases v) auto
  then show len: "length (b64_encode toy_base64 v) = (length v + 2) div 3 * 4"
    using q by (auto simp: toy_base64_def fold_q)
  have small: "(q * 3 - length v) mod 256 = q * 3 - length v" using q by simp
  show "b64_decode toy_base64 (b64_encode toy_base64 v) = Some v"
  proof (cases "v = []")
    case False
    then have "Suc (length v + (q * 4 - Suc (length v))) = q * 4" using room by simp
    moreover have "q * 3 - (q * 3 - length v) = length v" using q by simp
    ultimately show ?thesis
      using False by (simp add: toy_base64_def fold_q small byte_char comp_def)
  qed (simp add: toy_base64_def)
qed

definition sample_net :: net_lib where
  "sample_net = \<lparr>nl_contains = \<lambda>_ _. True, nl_covers = \<lambda>_ _. True, nl_network = net_addr,
     nl_broadcast = net_addr, nl_endpoint_text = \<lambda>_. [], nl_endpoint_parse = \<lambda>_. None,
     nl_candidates_text = \<lambda>_. Some [], nl_candidates_parse = \<lambda>_. Some [],
     nl_base64 = toy_base64\<rparr>"

definition sample_mail :: mail_lib where
  "sample_mail = \<lparr>ml_crypto = toy_lib, ml_net = sample_net, ml_json = \<lambda>m. Some [msg_type m],
     ml_record_len = \<lambda>_. 0, ml_page_count = \<lambda>_. 1, ml_page_size = 4096\<rparr>"

definition sample_key :: "byte \<Rightarrow> string" where
  "sample_key k = b64_encode toy_base64 (replicate 32 k)"

definition sample_row :: "byte \<Rightarrow> bool \<Rightarrow> peer_row" where
  "sample_row k server = \<lparr>pr_name = ''p'' @ (if server then ''s'' else if k = 2 then ''a'' else ''b''),
     pr_ip = IpV4 (ucast k), pr_cidr_id = 2, pr_public_key = sample_key k, pr_endpoint = None,
     pr_is_admin = False, pr_is_disabled = False, pr_is_redeemed = True, pr_invite_expires = None,
     pr_candidates = None, pr_is_server = server\<rparr>"

definition sample_cidr :: "int option \<Rightarrow> cidr" where
  "sample_cidr parent = \<lparr>ci_name = ''net'', ci_net = \<lparr>net_addr = IpV4 0, net_prefix = 8\<rparr>, ci_parent = parent\<rparr>"

definition sample_request :: "byte \<Rightarrow> registration" where
  "sample_request k = \<lparr>rg_expected_revision = None, rg_version = 1, rg_lifecycle = LEnabled,
     rg_bundle = sample_bundle k, rg_emergency = False\<rparr>"

definition sample_db :: pq_db where
  "sample_db = \<lparr>db_network_id = replicate 16 1, db_revision = 9, db_swept = 9, db_max_peer_id = 3,
     db_enabled = True, db_management_ready = True,
     db_peers = [(1, sample_row 1 True), (2, sample_row 2 False), (3, sample_row 3 False)],
     db_cidrs = [(1, sample_cidr None), (2, sample_cidr (Some 1))], db_associations = [],
     db_history = [(replicate 16 2, 2), (replicate 16 3, 3)],
     db_bundles = [(2, bundle_row_of (sample_request 2)), (3, bundle_row_of (sample_request 3))],
     db_exchanges = []\<rparr>"

lemma sample_mail_simps [simp]:
  "ml_crypto sample_mail = toy_lib" "ml_net sample_mail = sample_net" "ml_json sample_mail m = Some [msg_type m]"
  "ml_record_len sample_mail e = 0" "ml_page_count sample_mail db = 1" "ml_page_size sample_mail = 4096"
  by (simp_all add: sample_mail_def)

lemma sample_ok: "server_ok sample_db"
  by (auto simp: server_ok_def mailbox_ok_def one_active_def sample_db_def bt_wf_def cidrs_wf_def sample_cidr_def
      bt_get_def bundle_row_of_def Let_def sample_request_def sample_bundle_def exchange_keys_def i64_bound_def
      split: if_splits)

lemma sample_from_row: "peer_from_row sample_net (sample_row k b) = Inr
   \<lparr>pe_name = pr_name (sample_row k b), pe_ip = IpV4 (ucast k), pe_cidr_id = 2, pe_public_key = sample_key k,
    pe_endpoint = None, pe_keepalive = Some 25, pe_is_admin = False, pe_is_disabled = False,
    pe_is_redeemed = True, pe_invite_expires = None, pe_candidates = []\<rparr>"
  by (simp add: peer_from_row_def sample_row_def hostname_is_valid_def host_char_def
      persistent_keepalive_interval_secs_def)

lemma sample_get [simp]:
  "bt_get 2 (db_peers sample_db) = Some (sample_row 2 False)" "bt_get 3 (db_peers sample_db) = Some (sample_row 3 False)"
  by (simp_all add: sample_db_def bt_get_def)

lemma sample_server [simp]: "is_server 2 sample_db = Inr False" "is_server 3 sample_db = Inr False"
  by (simp_all add: is_server_def) (simp_all add: sample_row_def)

lemma sample_sub: "2 \<in> set (associated_subcidrs sample_db 2)"
  using associated_subcidrs_iff [of sample_db 2 2] sample_ok
  by (simp add: server_ok_def sees_def here)

lemma sample_allowed:
  assumes "pe_cidr_id self = 2"
  shows "\<exists>ps. get_all_allowed_peers sample_net self sample_db = Inr ps \<and> 2 \<in> fst ` set ps \<and> 3 \<in> fst ` set ps"
proof -
  let ?rows = "[(1, sample_row 1 True), (2, sample_row 2 False), (3, sample_row 3 False)]"
  have "filter (\<lambda>(i, r). pr_cidr_id r \<in> set (associated_subcidrs sample_db (pe_cidr_id self)) \<and>
        \<not> pr_is_disabled r \<and> pr_is_redeemed r) (db_peers sample_db) = ?rows"
    using sample_sub assms by (simp add: sample_db_def sample_row_def)
  then show ?thesis
    unfolding get_all_allowed_peers_def
    by (simp add: peer_rows_def sample_from_row)
qed

lemma sample_pair: "pair_allowed sample_net 2 3 sample_db = Inr ()"
proof -
  obtain a b where get: "peer_get sample_net 2 sample_db = Inr a" "peer_get sample_net 3 sample_db = Inr b"
    and fields: "\<not> pe_is_disabled a" "\<not> pe_is_disabled b" "pe_is_redeemed a" "pe_is_redeemed b"
      "pe_cidr_id a = 2" "pe_cidr_id b = 2"
    by (simp add: peer_get_def sample_from_row)
  obtain as bs where "get_all_allowed_peers sample_net a sample_db = Inr as" "3 \<in> fst ` set as"
    "get_all_allowed_peers sample_net b sample_db = Inr bs" "2 \<in> fst ` set bs"
    using sample_allowed fields by metis
  then show ?thesis
    by (simp add: pair_allowed_def get fields)
qed

lemma sample_key_decode [simp]: "key_from_base64 sample_net (sample_key k) = Some (replicate 32 k)"
  using base64_lawD [OF toy_base64_law, of "replicate 32 k"]
  by (simp add: key_from_base64_def sample_net_def sample_key_def)

lemma sample_bundle_valid: "bundle_validate toy_lib (sample_bundle k) = Inr ()"
  by (simp add: bundle_validate_def sample_bundle_def validate_kem_def kem_chunks_ok_zero toy_ops)

lemma sample_stored:
  assumes "k \<in> {2, 3}"
  shows "bundle_of_row toy_lib (bundle_row_of (sample_request k)) = Inr (desired_of (sample_request k))"
proof (rule bundle_of_stored [of _ _ sample_db "uint k"])
  show "bundle_validate toy_lib (rg_bundle (sample_request k)) = Inr ()"
    by (simp add: sample_request_def sample_bundle_valid)
  show "bundle_fits sample_db (uint k) (bundle_row_of (sample_request k))"
    using assms by (auto simp: bundle_fits_def bundle_row_of_def Let_def sample_db_def bt_get_def sample_request_def sample_bundle_def)
qed (simp_all add: sample_request_def sample_bundle_def)

lemma sample_published:
  "active_bundle sample_mail 2 sample_db = Inr (sample_bundle 2)"
  "active_bundle sample_mail 3 sample_db = Inr (sample_bundle 3)"
proof -
  have rows: "bt_get 2 (db_bundles sample_db) = Some (bundle_row_of (sample_request 2))"
    "bt_get 3 (db_bundles sample_db) = Some (bundle_row_of (sample_request 3))"
    by (simp_all add: sample_db_def bt_get_def)
  show "active_bundle sample_mail 2 sample_db = Inr (sample_bundle 2)"
    "active_bundle sample_mail 3 sample_db = Inr (sample_bundle 3)"
    unfolding active_bundle_def stored_bundle_def rows
    by (simp_all add: sample_stored) (simp_all add: desired_of_def sample_request_def peer_get_def sample_from_row sample_bundle_def)
qed

text \<open>A proposal from peer 2 to peer 3 and its acceptance.\<close>

definition sample_post :: message where
  "sample_post = (draft (sample_transcript 7) KPropose (Number 2) (pad 32 (drop 30 (transcript_encode (sample_transcript 7)))))
        \<lparr>msg_tag := pad 32 (replicate 32 2 @ envelope (draft (sample_transcript 7) KPropose (Number 2)
           (pad 32 (drop 30 (transcript_encode (sample_transcript 7)))))),
         msg_signature := pad 132 (pad 67 [2])\<rparr>"

lemma sample_post_signed: "signed toy_lib (sample_transcript 7) KPropose (Number 2) sample_candidate [2] = Inr sample_post"
  unfolding sample_post_def by (rule sample_signed)

lemma sample_post_fields:
  "msg_sender_id sample_post = Number 2" "msg_initiator_id sample_post = Number 2"
  "msg_responder_id sample_post = Number 3" "msg_network_id sample_post = replicate 16 1"
  "msg_initiator_bundle_id sample_post = replicate 16 2" "msg_responder_bundle_id sample_post = replicate 16 3"
  "msg_sequence sample_post = Number 1" "msg_exchange_id sample_post = replicate 16 7"
  "msg_operator_psk_id sample_post = Some (replicate 16 0)" "msg_ciphertext sample_post = Some (pad 1624 [])"
  "msg_type sample_post = 1"
  by (simp_all add: sample_post_def draft_def sample_transcript_def sample_bundle_def)

lemma sample_post_shape: "validate_shape sample_post = Inr KPropose"
  unfolding sample_post_def
  using validate_shape_draft [of "sample_transcript 7" KPropose "Number 2"]
  by (simp add: validate_shape_def draft_def sample_transcript_def kind_try_from_def Let_def)

lemma sample_post_authentic: "authenticate toy_lib sample_post (sample_transcript 7) = Inr ()"
  using signed_authenticates [OF toy_signature _ sample_post_signed]
  by (auto simp: toy_ops sample_transcript_def sample_bundle_def)

lemma sample_gate: "\<exists>digest. submit_gate sample_mail 2 (sample_key 2) 3 sample_post KPropose (replicate 16 1)
    (sample_bundle 2) (sample_bundle 3) digest sample_db"
proof -
  have ready: "ready sample_db"
    by (simp add: ready_def) (simp add: sample_db_def sample_row_def)
  have caller: "\<exists>p. caller sample_net 2 (sample_key 2) sample_db = Inr p"
    by (simp add: caller_def peer_get_def sample_from_row)
  have net: "network sample_db = Inr (replicate 16 1, 9)"
    by (simp add: network_def sample_db_def)
  have digest: "\<exists>digest. message_digest_of toy_lib (ml_json sample_mail) sample_post = Inr digest"
    by (simp add: message_digest_of_def toy_ops)
  show ?thesis
    using ready caller net digest sample_pair sample_published sample_post_shape
    by (auto simp: submit_gate_def sample_post_fields sample_bundle_def)
qed

lemma sample_proposal: "\<exists>e t. submit_proposal sample_mail 2 3 sample_post KPropose digest (replicate 16 1) (sample_bundle 2)
      (sample_bundle 3) [] limits_default 0 sample_db = (Inr e, t)"
proof -
  have none: "db_exchanges sample_db = []" by (simp add: sample_db_def)
  have t: "\<lparr>tr_network_id = replicate 16 1, tr_initiator_id = Number 2, tr_responder_id = Number 3,
      tr_initiator = sample_bundle 2, tr_responder = sample_bundle 3, tr_sequence = Number 1,
      tr_exchange_id = replicate 16 7, tr_operator_psk_id = replicate 16 0, tr_ciphertext = pad 1624 []\<rparr> = sample_transcript 7"
    by (simp add: sample_transcript_def)
  have valid: "transcript_validate toy_lib (sample_transcript 7) = Inr ()"
    unfolding transcript_validate_def
    by (simp add: sample_transcript_def sample_bundle_valid toy_ops)
  have room: "budget sample_mail limits_default False sample_db = Inr ()"
    by (simp add: budget_def limits_default_def sat_mul64_def sat_add64_def) (simp add: sample_db_def)
  have lims: "lm_peer_active limits_default = 64" "lm_global_active limits_default = 4096"
    by (simp_all add: limits_default_def)
  have saved: "\<exists>u. save sample_mail e sample_db = (Inr (), u)"
    if "ex_initiator_id e = Number 2" "ex_responder_id e = Number 3" "ex_prepare_expires_at e = 600"
      "ex_initiator_bundle_id e = replicate 16 2" "ex_responder_bundle_id e = replicate 16 3" "ex_sequence e = Number 1" for e
    using that by (simp add: save_run Let_def exchange_fits_def key_of_def none i64_max_def)
  have ids: "bu_id (sample_bundle 2) = replicate 16 2" "bu_id (sample_bundle 3) = replicate 16 3"
    by (simp_all add: sample_bundle_def)
  show ?thesis
    by (auto simp: submit_proposal_def run_simps bindS_Inr_iff room active_count_def none lims
        sample_post_fields t valid sample_post_authentic toy_ops Let_def checked_add64_def prepare_ttl_def ids intro!: saved)
qed

lemma sample_submit: "\<exists>e t. submit sample_mail 2 (sample_key 2) 3 sample_post limits_default 0 sample_db = (Inr e, t)"
proof -
  obtain digest where gate: "submit_gate sample_mail 2 (sample_key 2) 3 sample_post KPropose (replicate 16 1)
    (sample_bundle 2) (sample_bundle 3) digest sample_db" using sample_gate by blast
  have none: "db_exchanges sample_db = []" by (simp add: sample_db_def)
  obtain e u where "submit_proposal sample_mail 2 3 sample_post KPropose digest (replicate 16 1) (sample_bundle 2)
      (sample_bundle 3) [] limits_default 0 sample_db = (Inr e, u)"
    using sample_proposal [of digest] by blast
  then have "submit_inner sample_mail 2 (sample_key 2) 3 sample_post limits_default 0 sample_db = (Inr e, u)"
    by (simp add: submit_inner_gate [OF gate] submit_found_def load_pair_def none)
  moreover have "sweep_inner sample_mail 0 sample_db = (Inr (), sample_db)"
    by (rule sweep_noop [of _ _ sample_net sample_db])
      (use sample_ok in \<open>simp_all add: server_ok_def sample_db_def live_row_def\<close>)
  ultimately show ?thesis by (auto simp: submit_def db_write_def)
qed

lemma register_retry:
  "register_gate M i key request s \<Longrightarrow> stored_bundle (ml_crypto M) i s = Inr (Some (desired_of request)) \<Longrightarrow>
   register_inner M i key request l s = (Inr (desired_of request), s)"
  by (auto simp: register_gate_def register_inner_def bindS_def askS_def desired_of_def)

lemma sample_register_gate: "k \<in> {2, 3} \<Longrightarrow> db_peers s = db_peers sample_db \<Longrightarrow> db_enabled s \<Longrightarrow> db_management_ready s \<Longrightarrow>
  register_gate sample_mail (uint k) (sample_key k) (sample_request k) s"
  using sample_bundle_valid [of k]
  by (auto simp: register_gate_def ready_def caller_def is_server_def peer_get_def sample_from_row sample_request_def
      next_revision_def) (simp_all add: sample_db_def bt_get_def sample_row_def sample_from_row [unfolded sample_row_def] sample_bundle_def)

section \<open>Properties\<close>

text \<open>C5. Repeating an accepted message is harmless: whatever a submission returned, submitting the
  same message again at the same time returns the same exchange and leaves the database as the
  first submission left it, so a client whose reply was lost may simply retry.\<close>

theorem submit_retry_idempotent:
  assumes "mailbox_ok s" "i < i64_bound" "other < i64_bound" "submit M i key other m l now s = (Inr e, t)"
  shows "submit M i key other m l now t = (Inr e, t)"
  using assms by (rule submit_retry)

theorem submit_retry_idempotent_witness:
  "\<exists>e t. submit sample_mail 2 (sample_key 2) 3 sample_post limits_default 0 sample_db = (Inr e, t) \<and>
     submit sample_mail 2 (sample_key 2) 3 sample_post limits_default 0 t = (Inr e, t)"
proof -
  obtain e t where run: "submit sample_mail 2 (sample_key 2) 3 sample_post limits_default 0 sample_db = (Inr e, t)"
    using sample_submit by blast
  have "mailbox_ok sample_db" using sample_ok by (simp add: server_ok_def)
  from submit_retry_idempotent [OF this _ _ run] run show ?thesis by (auto simp: i64_bound_def)
qed

text \<open>C4. Whatever the server is asked to do, in whatever order and with whatever outcome, its tables
  keep their invariant: a pair of peers has at most one record, of the bundles the two now publish,
  a record is active exactly while its decision is open, a finished record carries no transcript and
  no messages, every decision is one the protocol can reach or an abort, and every published bundle
  is one its owner enrolled.\<close>

theorem server_tables_invariant:
  assumes "server_ok s" "(server_step M)\<^sup>*\<^sup>* s t"
  shows "server_ok t \<and> mailbox_ok t \<and>
    (\<forall>k r. bt_get k (db_exchanges t) = Some r \<longrightarrow> row_ok k r \<and> key_current t k \<and>
       (\<forall>k' r'. bt_get k' (db_exchanges t) = Some r' \<longrightarrow> pair_of k = pair_of k' \<longrightarrow> k = k'))"
proof -
  have ok: "server_ok t" using server_life [OF assms(2)] assms(1) by (simp add: evolves_def)
  then have mail: "mailbox_ok t" by (simp add: server_ok_def)
  have "k \<in> exchange_keys t" if "bt_get k (db_exchanges t) = Some r" for k r
    using that bt_get_None [of k "db_exchanges t"] by (auto simp: exchange_keys_def)
  with ok mail one_record [OF ok] mailbox_ok_row [OF mail] show ?thesis
    unfolding server_ok_def by blast
qed

theorem server_tables_invariant_witness:
  "\<exists>e t. submit sample_mail 2 (sample_key 2) 3 sample_post limits_default 0 sample_db = (Inr e, t) \<and> server_ok t"
proof -
  obtain e t where run: "submit sample_mail 2 (sample_key 2) 3 sample_post limits_default 0 sample_db = (Inr e, t)"
    using sample_submit by blast
  have "(server_step sample_mail)\<^sup>*\<^sup>* sample_db t" using do_submit [OF run] by (rule r_into_rtranclp)
  from server_tables_invariant [OF sample_ok this] run show ?thesis by blast
qed

text \<open>A sweep that succeeds leaves no active exchange whose preparation time is over and, when
  visibility had changed, none between peers that may no longer exchange keys; it marks the change
  as handled and leaves finished records alone.\<close>

theorem sweep_postcondition:
  assumes "mailbox_ok s" "sweep M now s = (Inr u, t)"
  shows "mailbox_ok t \<and> db_swept t = db_revision t \<and>
    (\<forall>k r. bt_get k (db_exchanges t) = Some r \<longrightarrow> er_active r \<longrightarrow>
       \<not> (dc_phase (ex_decision (er_record r)) \<in> {PProposed, PReady} \<and> ex_prepare_expires_at (er_record r) \<le> now) \<and>
       (db_revision s \<noteq> db_swept s \<longrightarrow> pair_allowed (ml_net M) (fst k) (fst (snd k)) t = Inr ())) \<and>
    (\<forall>k r. bt_get k (db_exchanges s) = Some r \<longrightarrow> \<not> er_active r \<longrightarrow> bt_get k (db_exchanges t) = Some r)"
proof -
  from assms(2) have "sweep_inner M now s = (Inr u, t)"
    by (auto simp: sweep_def transaction_def split: prod.splits sum.splits)
  note post = sweep_post [OF assms(1) this]
  then have dir: "same_directory s t" by blast
  then have "db_revision t = db_revision s" by (simp add: same_directory_fields)
  with post show ?thesis
    unfolding live_row_def directory_queries(5) [OF dir] by simp
qed

theorem sweep_postcondition_witness:
  "\<exists>t. sweep sample_mail 0 sample_db = (Inr (), t) \<and> db_swept t = db_revision t"
proof -
  have ok: "mailbox_ok sample_db" using sample_ok by (simp add: server_ok_def)
  have "sweep_inner sample_mail 0 sample_db = (Inr (), sample_db)"
    by (rule sweep_noop [of _ _ sample_net sample_db])
      (use sample_ok in \<open>simp_all add: server_ok_def sample_db_def live_row_def\<close>)
  then have "sweep sample_mail 0 sample_db = (Inr (), sample_db)" by (simp add: sweep_def transaction_def)
  from sweep_postcondition [OF ok this] this show ?thesis by blast
qed

text \<open>C35. A registration is a compare-and-swap: it succeeds only for the revision after the one the
  caller named, and only if that was the current one or the request is a repetition; afterwards the
  server publishes exactly what it returned, and repeating the request changes nothing.\<close>

theorem register_compare_and_swap:
  assumes "register_inner M i key request l s = (Inr e, t)"
  shows "e = desired_of request \<and> stored_bundle (ml_crypto M) i t = Inr (Some e) \<and>
    next_revision (rg_expected_revision request) = Inr (bu_revision (ab_bundle e)) \<and>
    register_inner M i key request l t = (Inr e, t) \<and>
    (stored_bundle (ml_crypto M) i s = Inr (Some e) \<and> t = s \<or>
     (\<exists>current. stored_bundle (ml_crypto M) i s = Inr current \<and> revision_of current = rg_expected_revision request))"
  using assms
proof (cases rule: register_inner_Inr)
  case retry
  with register_reads_back [OF assms] show ?thesis by (simp add: register_gate_def desired_of_def)
next
  case (changed current u v)
  with register_reads_back [OF assms] show ?thesis by (simp add: register_gate_def desired_of_def)
qed

theorem register_compare_and_swap_witness:
  "\<exists>t. register_inner sample_mail 2 (sample_key 2) (sample_request 2) limits_default
      (sample_db\<lparr>db_bundles := [], db_history := []\<rparr>) = (Inr (desired_of (sample_request 2)), t) \<and>
    stored_bundle toy_lib 2 t = Inr (Some (desired_of (sample_request 2)))"
proof -
  let ?s = "sample_db\<lparr>db_bundles := [], db_history := []\<rparr>"
  have gate: "register_gate sample_mail 2 (sample_key 2) (sample_request 2) ?s"
    using sample_register_gate [of 2 ?s] by (simp add: sample_db_def)
  have room: "budget sample_mail limits_default True ?s = Inr ()"
    by (simp add: budget_def limits_default_def sat_mul64_def sat_add64_def) (simp add: sample_db_def)
  have st: "stored_bundle toy_lib 2 ?s = Inr None" "bt_get 2 (db_bundles ?s) = None" "db_exchanges ?s = []"
    by (simp_all add: stored_bundle_def sample_db_def)
  have branch: "register_enabled sample_mail 2 (sample_request 2) limits_default None ?s
      = (Inr (), ?s\<lparr>db_history := [(replicate 16 2, 2)]\<rparr>)"
    using room by (simp add: register_enabled_Inr insert_history_run sample_request_def sample_bundle_def)
  have fits: "put_bundle 2 (bundle_row_of (sample_request 2)) (?s\<lparr>db_history := [(replicate 16 2, 2)]\<rparr>) \<noteq> Inl e" for e
    using st
    by (simp add: put_bundle_def bundle_fits_def bundle_row_of_def Let_def sample_request_def sample_bundle_def bump_def
        bt_get_def i64_bound_def) (simp add: sample_db_def)
  then obtain v where v: "put_bundle 2 (bundle_row_of (sample_request 2)) (?s\<lparr>db_history := [(replicate 16 2, 2)]\<rparr>) = Inr v"
    by (meson sum.exhaust)
  obtain t where run: "register_inner sample_mail 2 (sample_key 2) (sample_request 2) limits_default ?s
      = (Inr (desired_of (sample_request 2)), t)"
    using gate branch v st
    by (auto simp: register_inner_def register_gate_def run_simps bindS_Inr_iff sample_request_def revision_of_def)
  from register_compare_and_swap [OF run] run show ?thesis by auto
qed

text \<open>A bundle identifier belongs for ever to the peer that enrolled it: once it is in the history,
  after any later life of the server an enrolment under it succeeds only as the repetition of its
  owner's own current registration, and changes nothing.\<close>

theorem bundle_id_never_reused:
  assumes "server_ok s" "(server_step M)\<^sup>*\<^sup>* s t" "bt_get (bu_id (rg_bundle request)) (db_history s) = Some p"
    and "register_inner M' i key request l t = (Inr e, u)" "rg_lifecycle request = LEnabled"
  shows "p = i \<and> u = t \<and> stored_bundle (ml_crypto M') i t = Inr (Some e)"
proof -
  have ok: "server_ok t" and hist: "bt_get (bu_id (rg_bundle request)) (db_history t) = Some p"
    using server_life [OF assms(2)] assms(1,3) unfolding evolves_def grows_def by blast+
  have stored: "stored_bundle (ml_crypto M') i t = Inr (Some e)"
    using register_changed_state [OF assms(4)] assms(5) hist by fastforce
  then obtain r where r: "bt_get i (db_bundles t) = Some r" "bu_id (ab_bundle e) = br_bundle_id r"
    using bundle_row_version by blast
  from assms(4) have e: "e = desired_of request" by (cases rule: register_inner_Inr) auto
  have "bt_get (br_bundle_id r) (db_history t) = Some i"
    using ok r(1) unfolding server_ok_def by blast
  with r(2) e hist have "p = i" by (simp add: desired_of_def)
  moreover have "u = t" using assms(4) stored by (cases rule: register_inner_Inr) auto
  ultimately show ?thesis using stored by blast
qed

theorem bundle_id_never_reused_witness:
  "\<exists>e. register_inner sample_mail 2 (sample_key 2) (sample_request 2) limits_default sample_db = (Inr e, sample_db) \<and>
     stored_bundle toy_lib 2 sample_db = Inr (Some e)"
proof -
  have gate: "register_gate sample_mail 2 (sample_key 2) (sample_request 2) sample_db"
    using sample_register_gate [of 2 sample_db] by (simp add: sample_db_def)
  have "stored_bundle toy_lib 2 sample_db = Inr (Some (desired_of (sample_request 2)))"
    by (simp add: stored_bundle_def sample_db_def bt_get_def sample_stored)
  with gate have run: "register_inner sample_mail 2 (sample_key 2) (sample_request 2) limits_default sample_db
      = (Inr (desired_of (sample_request 2)), sample_db)"
    by (intro register_retry) simp_all
  have "bt_get (bu_id (rg_bundle (sample_request 2))) (db_history sample_db) = Some 2"
    by (simp add: sample_db_def sample_request_def sample_bundle_def bt_get_def)
  from bundle_id_never_reused [OF sample_ok rtranclp.rtrancl_refl this run] run show ?thesis
    by (auto simp: sample_request_def)
qed

text \<open>Peer identifiers are never reused: however the server has lived since a state, a peer created
  now gets an identifier above every identifier that state had ever handed out, deleted invitations
  included.\<close>

theorem peer_id_never_reused:
  assumes "server_ok s" "(server_step M)\<^sup>*\<^sup>* s t" "peer_create L c t = (Inr (j, c'), u)"
  shows "db_max_peer_id s < j \<and> bt_get j (db_peers s) = None \<and> bt_get j (db_peers u) \<noteq> None \<and> db_max_peer_id u = j"
proof -
  have mono: "db_max_peer_id s \<le> db_max_peer_id t"
    using server_life [OF assms(2)] assms(1) unfolding evolves_def grows_def by blast
  from assms(3) have "j = db_max_peer_id t + 1" and new: "bt_get j (db_peers u) \<noteq> None" "db_max_peer_id u = j"
    by (auto simp: peer_create_def run_simps bindS_Inr_iff insert_peer_def bump_run split: if_splits)
  with mono have "db_max_peer_id s < j" by simp
  moreover have "bt_get j (db_peers s) = None"
    using assms(1) \<open>db_max_peer_id s < j\<close> unfolding server_ok_def by (meson not_less option.exhaust)
  ultimately show ?thesis using new by blast
qed

definition sample_invitee :: peer where
  "sample_invitee = \<lparr>pe_name = ''new'', pe_ip = IpV4 9, pe_cidr_id = 2, pe_public_key = ''k'', pe_endpoint = None,
     pe_keepalive = None, pe_is_admin = False, pe_is_disabled = False, pe_is_redeemed = False,
     pe_invite_expires = Some 5, pe_candidates = []\<rparr>"

definition sample_invited :: peer_row where
  "sample_invited = \<lparr>pr_name = ''new'', pr_ip = IpV4 9, pr_cidr_id = 2, pr_public_key = ''k'', pr_endpoint = None,
     pr_is_admin = False, pr_is_disabled = False, pr_is_redeemed = False, pr_invite_expires = Some 5,
     pr_candidates = Some [], pr_is_server = False\<rparr>"

lemma sample_create:
  assumes "db_cidrs s = db_cidrs sample_db" "db_peers s = db_peers sample_db" "db_max_peer_id s = m"
    "3 \<le> m" "m < 100" "db_revision s < 100"
  shows "peer_create sample_net sample_invitee s = (Inr (m + 1, sample_invitee),
    s\<lparr>db_peers := bt_insert (m + 1) sample_invited (db_peers s), db_max_peer_id := m + 1, db_revision := db_revision s + 1\<rparr>)"
proof -
  have "length (sample_key j) \<noteq> length ''k''" for j
    using base64_lawD [OF toy_base64_law, of "replicate 32 j"] by (simp add: sample_key_def)
  then have "sample_key j \<noteq> ''k''" for j by metis
  then have fits: "peer_fits s (m + 1) sample_invited"
    using assms(1,2) by (simp add: peer_fits_def sample_invited_def sample_db_def sample_row_def bt_keys_def)
  have absent: "bt_get (m + 1) (db_peers s) = None"
    using assms(2,4) by (simp add: sample_db_def bt_get_def)
  have cidr: "cidr_get 2 s = Inr (sample_cidr (Some 1))"
    using assms(1) by (simp add: cidr_get_def sample_db_def bt_get_def)
  have ins: "insert_peer (m + 1) sample_invited s = Inr (s\<lparr>db_peers := bt_insert (m + 1) sample_invited (db_peers s),
      db_max_peer_id := m + 1, db_revision := db_revision s + 1\<rparr>)"
    using assms(3-6) fits absent by (simp add: insert_peer_def bump_def i64_bound_def)
  show ?thesis
    using ins cidr assms(3)
    by (simp add: peer_create_def bindS_def askS_def execS_def sample_invitee_def is_valid_name_def host_char_def
        ascii_digit_def sample_net_def is_assignable_def sample_cidr_def i64_bound_def sample_invited_def)
qed

theorem peer_id_never_reused_witness:
  "\<exists>u v t. peer_create sample_net sample_invitee sample_db = (Inr (4, sample_invitee), u) \<and>
     delete_expired_invites 6 u = (Inr 1, v) \<and> bt_get 4 (db_peers v) = None \<and>
     peer_create sample_net sample_invitee v = (Inr (5, sample_invitee), t) \<and> bt_get 5 (db_peers t) \<noteq> None"
proof -
  let ?u = "sample_db\<lparr>db_peers := bt_insert 4 sample_invited (db_peers sample_db), db_max_peer_id := 4, db_revision := 10\<rparr>"
  let ?v = "sample_db\<lparr>db_max_peer_id := 4, db_revision := 11\<rparr>"
  have u: "peer_create sample_net sample_invitee sample_db = (Inr (4, sample_invitee), ?u)"
    using sample_create [of sample_db 3] by (simp add: sample_db_def)
  have expire: "delete_expired_invites 6 ?u = (Inr 1, ?v)"
    by (simp add: delete_expired_invites_def bindS_def execS_def sample_db_def sample_row_def sample_invited_def
        delete_peer_def bt_get_def Let_def bump_def i64_bound_def bt_remove_def drop_exchanges_def)
  obtain t where t: "peer_create sample_net sample_invitee ?v = (Inr (5, sample_invitee), t)"
    using sample_create [of ?v 4] by (simp add: sample_db_def)
  have "(server_step sample_mail)\<^sup>*\<^sup>* sample_db ?v"
  proof -
    have "server_step sample_mail sample_db ?u" using u by (intro do_peer_create) simp
    moreover have "server_step sample_mail ?u ?v" using expire by (rule do_expire)
    ultimately show ?thesis by (meson rtranclp.rtrancl_into_rtrancl rtranclp.rtrancl_refl)
  qed
  from peer_id_never_reused [OF sample_ok this t] have "bt_get 5 (db_peers t) \<noteq> None" by blast
  moreover have "bt_get 4 (db_peers ?v) = None" by (simp add: sample_db_def bt_get_def)
  ultimately show ?thesis using u expire t by blast
qed

text \<open>C6. The recursive query computes the visibility rule: a peer is returned exactly when it is
  enabled and redeemed and its CIDR lies below the asker's, below the infrastructure CIDR, or below
  a CIDR associated with an ancestor of the asker's; the last case is symmetric.\<close>

theorem allowed_peers_correct:
  assumes "cidrs_wf (db_cidrs db)" "bt_wf (db_peers db)" "get_all_allowed_peers L self db = Inr ps"
  shows "((i, p) \<in> set ps \<longleftrightarrow> (\<exists>r. bt_get i (db_peers db) = Some r \<and> peer_from_row L r = Inr p \<and>
     \<not> pr_is_disabled r \<and> pr_is_redeemed r \<and> sees db (pe_cidr_id self) (pr_cidr_id r)))"
  using assms by (rule allowed_peers_spec)

theorem allowed_peers_correct_witness:
  "\<exists>ps p. get_all_allowed_peers sample_net (sample_invitee) sample_db = Inr ps \<and> (3, p) \<in> set ps"
proof -
  obtain ps where ps: "get_all_allowed_peers sample_net sample_invitee sample_db = Inr ps"
    using sample_allowed [of sample_invitee] by (auto simp: sample_invitee_def)
  have "sees sample_db (pe_cidr_id sample_invitee) (pr_cidr_id (sample_row 3 False))"
    by (simp add: sees_def sample_invitee_def sample_row_def here)
  then show ?thesis
    using allowed_peers_correct [OF _ _ ps, of 3] sample_ok ps sample_from_row [of 3 False]
    by (auto simp: server_ok_def sample_row_def)
qed

text \<open>What the mailbox refuses: a message older than the stored exchange, one of the stored
  sequence that names another exchange or transcript, and, unless it is an exact repetition, one
  that comes after the end or repeats a sender's message type. Nothing is stored.\<close>

theorem stale_message_refused:
  assumes "mailbox_ok s" "submit_gate M i key other m kind nid first second digest s"
    and "bt_get (min i other, max i other, bu_id first, bu_id second) (db_exchanges s) = Some row"
    and "msg_sequence m < ex_sequence (er_record row) \<or>
      msg_sequence m = ex_sequence (er_record row) \<and>
        (msg_exchange_id m \<noteq> ex_exchange_id (er_record row) \<or>
         msg_transcript_hash m \<noteq> ex_transcript_hash (er_record row) \<or>
         digest \<notin> set (ex_receipts (er_record row)) \<and>
           (terminal (ex_decision (er_record row)) \<or>
            list_ex (\<lambda>r. md_sender_id r = msg_sender_id m \<and> md_type r = msg_type m) (ex_receipts (er_record row))))"
  shows "submit_inner M i key other m l now s = (Inl SConflict, s)"
  using assms(3,4)
  by (auto simp: submit_inner_gate [OF assms(2)] submit_found_def find_record [OF assms(1)] submit_current_def
      bindS_def guardR_def)

text \<open>A second proposal of peer 2 with the sequence of the first and another exchange identifier.\<close>

definition sample_clash :: message where
  "sample_clash = sample_post\<lparr>msg_exchange_id := replicate 16 8\<rparr>"

lemma sample_clash_gate:
  assumes "submit_gate sample_mail 2 (sample_key 2) 3 sample_post KPropose nid first second digest s"
  shows "\<exists>digest. submit_gate sample_mail 2 (sample_key 2) 3 sample_clash KPropose nid first second digest s"
proof -
  have "validate_shape sample_clash = validate_shape sample_post"
    by (simp add: validate_shape_def sample_clash_def sample_post_fields Let_def)
  moreover have "\<exists>digest. message_digest_of toy_lib (ml_json sample_mail) sample_clash = Inr digest"
    by (simp add: message_digest_of_def toy_ops)
  ultimately show ?thesis using assms by (auto simp: submit_gate_def sample_clash_def)
qed

theorem stale_message_refused_witness:
  "\<exists>t. submit_inner sample_mail 2 (sample_key 2) 3 sample_clash limits_default 0 t = (Inl SConflict, t)"
proof -
  obtain digest where gate: "submit_gate sample_mail 2 (sample_key 2) 3 sample_post KPropose (replicate 16 1)
    (sample_bundle 2) (sample_bundle 3) digest sample_db" using sample_gate by blast
  from sample_proposal [of digest] obtain e t where run: "submit_proposal sample_mail 2 3 sample_post KPropose digest
    (replicate 16 1) (sample_bundle 2) (sample_bundle 3) [] limits_default 0 sample_db = (Inr e, t)" by blast
  have none: "db_exchanges sample_db = []" by (simp add: sample_db_def)
  have inner: "submit_inner sample_mail 2 (sample_key 2) 3 sample_post limits_default 0 sample_db = (Inr e, t)"
    using run by (simp add: submit_inner_gate [OF gate] submit_found_def load_pair_def none)
  have ok: "mailbox_ok sample_db" using sample_ok by (simp add: server_ok_def)
  note new = submit_proposal_Inr [OF run]
  then have save: "save sample_mail e sample_db = (Inr (), t)" by blast
  then have "same_directory sample_db t" by (rule keepsD [OF save_keeps])
  with gate have "submit_gate sample_mail 2 (sample_key 2) 3 sample_post KPropose (replicate 16 1)
    (sample_bundle 2) (sample_bundle 3) digest t" using submit_gate_directory by blast
  from sample_clash_gate [OF this] obtain digest' where
    clash: "submit_gate sample_mail 2 (sample_key 2) 3 sample_clash KPropose (replicate 16 1)
    (sample_bundle 2) (sample_bundle 3) digest' t" by blast
  obtain row where row: "bt_get (key_of e) (db_exchanges t) = Some row" "er_record row = e"
    using save by (auto simp: save_run Let_def)
  have "key_of e = (min 2 3, max 2 3, bu_id (sample_bundle 2), bu_id (sample_bundle 3))"
    using new by (simp add: key_of_def sample_post_fields)
  with row have "bt_get (min 2 3, max 2 3, bu_id (sample_bundle 2), bu_id (sample_bundle 3)) (db_exchanges t) = Some row"
    by simp
  moreover have "msg_sequence sample_clash = ex_sequence (er_record row)"
    "msg_exchange_id sample_clash \<noteq> ex_exchange_id (er_record row)"
    using new row by (simp_all add: sample_clash_def sample_post_fields)
  ultimately show ?thesis
    using stale_message_refused [OF mailbox_ok_submit [OF ok inner] clash] by blast
qed

end
