(* ===== verification/Store.thy ===== *)
theory Store
  imports Crypto
begin

text \<open>
  The private state store (\<^verbatim>\<open>pq/src/store.rs\<close>): opening it through trusted directories, and
  loading and atomically replacing the one state file. The file system is what POSIX promises
  of the calls used: the volatile directory is what processes see, the durable one is what a
  crash may fall back to, and a file's bytes survive a crash once the file has been synced.
  Which calls fail is a parameter; JSON is a parameter with its round-trip law.
\<close>

unbundle bit_operations_syntax

section \<open>Files, errors and the handle\<close>

datatype store_error = StIo | StUnsafe | StBusy | StCorrupt | StNewer | StConflict

datatype file_kind = Regular | Directory | Symlink | Special

record inode =
  fl_kind :: file_kind
  fl_uid :: u32
  fl_mode :: u32
  fl_nlink :: nat
  fl_bytes :: bytes
  fl_synced :: bool

record disk =
  dk_entries :: "string \<rightharpoonup> inode"
  dk_durable :: "string \<rightharpoonup> inode"

text \<open>\<^verbatim>\<open>Store\<close>; its directory and lock descriptors stand for the \<open>disk\<close> it owns.\<close>

record store =
  st_generation :: u64
  st_fresh :: bool
  st_digest :: "bytes option"

datatype syscall =
    OpenState | ReadState | CreateTemp | WriteTemp | SyncTemp | RenameTemp | UnlinkTemp | SyncDirectory
  | CreateExport | OpenExport | ReadExport | WriteExport | SyncExport

datatype boundary = BeforeWrite | AfterFileSync | AfterRename | AfterDirectorySync

text \<open>The process and its luck: the calls that fail, how much a failing write still writes, the
  random suffix drawn, and the injected fault of the tests.\<close>

record store_env =
  ev_uid :: u32
  ev_umask :: u32
  ev_fails :: "syscall \<Rightarrow> bool"
  ev_written :: nat
  ev_suffix :: "bytes option"
  ev_fault :: "boundary \<Rightarrow> bool"

record 'v envelope_lib =
  en_crypto :: crypto_lib
  en_print :: "u8 \<Rightarrow> u64 \<Rightarrow> 'v \<Rightarrow> bytes option"
  en_version :: "bytes \<Rightarrow> u8 option"
  en_generation :: "bytes \<Rightarrow> (u8 \<times> u64) option"
  en_parse :: "bytes \<Rightarrow> (u8 \<times> u64 \<times> 'v) option"

text \<open>What is printed can be read back, also by the partial readers of its first fields.\<close>

definition envelope_law :: "'v envelope_lib \<Rightarrow> bool" where
  "envelope_law J \<longleftrightarrow> (\<forall>v g x bs. en_print J v g x = Some bs \<longrightarrow>
     bs \<noteq> [] \<and> en_version J bs = Some v \<and> en_generation J bs = Some (v, g) \<and> en_parse J bs = Some (v, g, x))"

definition max_bytes :: nat where
  "max_bytes = 16 * 1024 * 1024"

definition state_name :: string where
  "state_name = ''state.json''"

text \<open>The state of a call: the handle, the disk, and every disk the call has gone through.\<close>

record world =
  wd_store :: store
  wd_disk :: disk
  wd_log :: "disk list"

type_synonym 'a storeS = "(world, store_error, 'a) comp"

definition change_disk :: "(disk \<Rightarrow> disk) \<Rightarrow> unit storeS" where
  "change_disk f = modS (\<lambda>w. w\<lparr>wd_disk := f (wd_disk w), wd_log := wd_log w @ [f (wd_disk w)]\<rparr>)"

section \<open>Reading\<close>

definition owned_file :: "u32 \<Rightarrow> inode \<Rightarrow> (store_error, unit) result" where
  "owned_file uid f =
     guardR (\<not> (fl_kind f \<noteq> Regular \<or> fl_uid f \<noteq> uid \<or> fl_mode f AND 4095 \<noteq> 384 \<or> fl_nlink f \<noteq> 1)) StUnsafe"

text \<open>\<^verbatim>\<open>open_at\<close> of an existing name; links are not followed.\<close>

definition open_existing :: "store_env \<Rightarrow> string \<Rightarrow> disk \<Rightarrow> (store_error, inode option) result" where
  "open_existing E name d =
     (if ev_fails E OpenState then Err StIo
      else case dk_entries d name of
        None \<Rightarrow> Ok None
      | Some f \<Rightarrow> if fl_kind f = Symlink then Err StIo else Ok (Some f))"

definition read_state :: "store_env \<Rightarrow> disk \<Rightarrow> (store_error, bytes) result" where
  "read_state E d =
     bindR (open_existing E state_name d) (\<lambda>opened.
     bindR (ok_or opened StCorrupt) (\<lambda>f.
     bindR (owned_file (ev_uid E) f) (\<lambda>_.
     bindR (guardR (\<not> (length (fl_bytes f) = 0 \<or> length (fl_bytes f) > max_bytes)) StCorrupt) (\<lambda>_.
     bindR (guardR (\<not> ev_fails E ReadState) StIo) (\<lambda>_.
     let bs = take (max_bytes + 1) (fl_bytes f) in
     bindR (guardR (\<not> length bs > max_bytes) StCorrupt) (\<lambda>_. Ok bs))))))"

definition load :: "'v envelope_lib \<Rightarrow> store_env \<Rightarrow> 'v storeS" where
  "load J E =
     bindS (getS (\<lambda>w. read_state E (wd_disk w))) (\<lambda>opened.
     bindS (liftS opened) (\<lambda>bs.
     bindS (liftS (ok_or (en_version J bs) StCorrupt)) (\<lambda>version.
     bindS (liftS (guardR (\<not> version > 1) StNewer)) (\<lambda>_.
     bindS (liftS (guardR (\<not> version \<noteq> 1) StCorrupt)) (\<lambda>_.
     bindS (liftS (ok_or (en_parse J bs) StCorrupt)) (\<lambda>(_, generation, v).
     bindS (liftS (guardR (\<not> generation = 0) StCorrupt)) (\<lambda>_.
     bindS (modS (\<lambda>w. w\<lparr>wd_store := (wd_store w)\<lparr>st_generation := generation, st_fresh := False\<rparr>\<rparr>)) (\<lambda>_.
     bindS (liftS (map_err (\<lambda>_. StCorrupt) (hash (en_crypto J) bs))) (\<lambda>digest.
     bindS (modS (\<lambda>w. w\<lparr>wd_store := (wd_store w)\<lparr>st_digest := Some digest\<rparr>\<rparr>)) (\<lambda>_.
     retS v))))))))))"

section \<open>Saving\<close>

definition hex_digit :: "nat \<Rightarrow> char" where
  "hex_digit n = (if n < 10 then digit_char n else char_of (87 + n))"

definition hex_byte :: "byte \<Rightarrow> string" where
  "hex_byte b = [hex_digit (unat b div 16), hex_digit (unat b mod 16)]"

definition temp_name :: "bytes \<Rightarrow> string" where
  "temp_name suffix = ''.pending-'' @ concat (map hex_byte suffix)"

text \<open>Before writing, the handle must still be the one that wrote what is there.\<close>

definition check_current :: "'v envelope_lib \<Rightarrow> store_env \<Rightarrow> store \<Rightarrow> disk \<Rightarrow> (store_error, unit) result" where
  "check_current J E st d =
     bindR (read_state E d) (\<lambda>bs.
     bindR (ok_or (en_generation J bs) StCorrupt) (\<lambda>(version, generation).
     bindR (guardR (\<not> version > 1) StNewer) (\<lambda>_.
     bindR (guardR (\<not> version \<noteq> 1) StCorrupt) (\<lambda>_.
     bindR (guardR (\<not> generation \<noteq> st_generation st) StConflict) (\<lambda>_.
     bindR (map_err (\<lambda>_. StCorrupt) (hash (en_crypto J) bs)) (\<lambda>digest.
     guardR (\<not> st_digest st \<noteq> Some digest) StConflict))))))"

definition new_file :: "store_env \<Rightarrow> inode" where
  "new_file E = \<lparr>fl_kind = Regular, fl_uid = ev_uid E, fl_mode = 384 AND NOT (ev_umask E),
     fl_nlink = 1, fl_bytes = [], fl_synced = False\<rparr>"

text \<open>\<^verbatim>\<open>O_CREAT | O_EXCL\<close>: an existing name is refused.\<close>

definition create_temp :: "store_env \<Rightarrow> string \<Rightarrow> unit storeS" where
  "create_temp E name =
     bindS (getS (\<lambda>w. dk_entries (wd_disk w) name \<noteq> None)) (\<lambda>exists.
     bindS (liftS (guardR (\<not> ev_fails E CreateTemp \<and> \<not> exists) StIo)) (\<lambda>_.
     change_disk (\<lambda>d. d\<lparr>dk_entries := (dk_entries d)(name \<mapsto> new_file E)\<rparr>)))"

definition update_entry :: "string \<Rightarrow> (inode \<Rightarrow> inode) \<Rightarrow> disk \<Rightarrow> disk" where
  "update_entry name f d = d\<lparr>dk_entries := (dk_entries d)(name := map_option f (dk_entries d name))\<rparr>"

definition write_temp :: "store_env \<Rightarrow> string \<Rightarrow> bytes \<Rightarrow> unit storeS" where
  "write_temp E name bs =
     (if ev_fails E WriteTemp
      then bindS (change_disk (update_entry name (\<lambda>f. f\<lparr>fl_bytes := take (ev_written E) bs, fl_synced := False\<rparr>)))
             (\<lambda>_. failS StIo)
      else change_disk (update_entry name (\<lambda>f. f\<lparr>fl_bytes := bs, fl_synced := False\<rparr>)))"

definition sync_temp :: "store_env \<Rightarrow> string \<Rightarrow> unit storeS" where
  "sync_temp E name =
     bindS (liftS (guardR (\<not> ev_fails E SyncTemp) StIo)) (\<lambda>_.
     change_disk (update_entry name (\<lambda>f. f\<lparr>fl_synced := True\<rparr>)))"

text \<open>\<^verbatim>\<open>renameat\<close> replaces the target atomically.\<close>

definition rename_temp :: "store_env \<Rightarrow> string \<Rightarrow> unit storeS" where
  "rename_temp E name =
     bindS (liftS (guardR (\<not> ev_fails E RenameTemp) StIo)) (\<lambda>_.
     change_disk (\<lambda>d. d\<lparr>dk_entries := (dk_entries d)(state_name := dk_entries d name, name := None)\<rparr>))"

definition sync_directory :: "store_env \<Rightarrow> unit storeS" where
  "sync_directory E =
     bindS (liftS (guardR (\<not> ev_fails E SyncDirectory) StIo)) (\<lambda>_.
     change_disk (\<lambda>d. d\<lparr>dk_durable := dk_entries d\<rparr>))"

definition fault_at :: "store_env \<Rightarrow> boundary \<Rightarrow> unit storeS" where
  "fault_at E b = liftS (guardR (\<not> ev_fault E b) StIo)"

definition replace_state :: "store_env \<Rightarrow> string \<Rightarrow> bytes \<Rightarrow> unit storeS" where
  "replace_state E name bs =
     bindS (fault_at E BeforeWrite) (\<lambda>_.
     bindS (write_temp E name bs) (\<lambda>_.
     bindS (sync_temp E name) (\<lambda>_.
     bindS (fault_at E AfterFileSync) (\<lambda>_.
     bindS (rename_temp E name) (\<lambda>_.
     bindS (fault_at E AfterRename) (\<lambda>_.
     bindS (sync_directory E) (\<lambda>_.
     fault_at E AfterDirectorySync)))))))"

text \<open>After a failure only the temporary file is removed; whether that works does not matter.\<close>

definition or_unlink :: "store_env \<Rightarrow> string \<Rightarrow> unit storeS \<Rightarrow> unit storeS" where
  "or_unlink E name m w =
     (case m w of
        (Inr _, w') \<Rightarrow> (Inr (), w')
      | (Inl e, w') \<Rightarrow>
          (Inl e, if ev_fails E UnlinkTemp \<or> dk_entries (wd_disk w') name = None then w'
             else snd (change_disk (\<lambda>d. d\<lparr>dk_entries := (dk_entries d)(name := None)\<rparr>) w')))"

definition save_checked :: "'v envelope_lib \<Rightarrow> store_env \<Rightarrow> 'v \<Rightarrow> unit storeS" where
  "save_checked J E v =
     bindS (getS (\<lambda>w. checked_add64 (st_generation (wd_store w)) 1)) (\<lambda>next_generation.
     bindS (liftS (ok_or next_generation StConflict)) (\<lambda>generation.
     bindS (getS (\<lambda>w.
         if st_fresh (wd_store w)
         then (if open_existing E state_name (wd_disk w) = Ok None then Ok () else Err StConflict)
         else check_current J E (wd_store w) (wd_disk w))) (\<lambda>checked.
     bindS (liftS checked) (\<lambda>_.
     bindS (liftS (ok_or (en_print J 1 generation v) StCorrupt)) (\<lambda>bs.
     bindS (liftS (guardR (\<not> length bs > max_bytes) StCorrupt)) (\<lambda>_.
     bindS (liftS (ok_or (ev_suffix E) StCorrupt)) (\<lambda>suffix.
     bindS (create_temp E (temp_name suffix)) (\<lambda>_.
     bindS (liftS (owned_file (ev_uid E) (new_file E))) (\<lambda>_.
     bindS (or_unlink E (temp_name suffix) (replace_state E (temp_name suffix) bs)) (\<lambda>_.
     bindS (modS (\<lambda>w. w\<lparr>wd_store := (wd_store w)\<lparr>st_generation := generation, st_fresh := False\<rparr>\<rparr>)) (\<lambda>_.
     bindS (liftS (map_err (\<lambda>_. StCorrupt) (hash (en_crypto J) bs))) (\<lambda>digest.
     modS (\<lambda>w. w\<lparr>wd_store := (wd_store w)\<lparr>st_digest := Some digest\<rparr>\<rparr>)))))))))))))"

text \<open>\<^verbatim>\<open>Store::save\<close> injects no fault.\<close>

definition store_save :: "'v envelope_lib \<Rightarrow> store_env \<Rightarrow> 'v \<Rightarrow> unit storeS" where
  "store_save J E v = save_checked J (E\<lparr>ev_fault := (\<lambda>_. False)\<rparr>) v"

section \<open>Exporting\<close>

definition export_char :: "char \<Rightarrow> bool" where
  "export_char c \<longleftrightarrow> ascii_digit c \<or> (65 \<le> (of_char c :: nat) \<and> (of_char c :: nat) \<le> 90) \<or>
     (97 \<le> (of_char c :: nat) \<and> (of_char c :: nat) \<le> 122) \<or> c \<in> {CHR ''-'', CHR ''_'', CHR ''.''}"

definition export_name_ok :: "string \<Rightarrow> bool" where
  "export_name_ok name \<longleftrightarrow> \<not> (name = [] \<or> length name > 128 \<or> hd name = CHR ''.'' \<or> \<not> list_all export_char name \<or>
     name \<in> {''state.json'', ''owner.lock''})"

text \<open>An existing file is compared, never overwritten.\<close>

definition export_again :: "store_env \<Rightarrow> bytes \<Rightarrow> inode \<Rightarrow> (store_error, unit) result" where
  "export_again E bs f =
     bindR (guardR (\<not> ev_fails E OpenExport \<and> fl_kind f \<noteq> Symlink) StIo) (\<lambda>_.
     bindR (owned_file (ev_uid E) f) (\<lambda>_.
     bindR (guardR (\<not> ev_fails E ReadExport) StIo) (\<lambda>_.
     guardR (take (1024 * 1024 + 1) (fl_bytes f) = bs) StConflict)))"

definition export :: "store_env \<Rightarrow> string \<Rightarrow> bytes \<Rightarrow> unit storeS" where
  "export E name bs =
     bindS (liftS (guardR (\<not> (\<not> export_name_ok name \<or> length bs > 1024 * 1024)) StUnsafe)) (\<lambda>_.
     bindS (liftS (guardR (\<not> ev_fails E CreateExport) StIo)) (\<lambda>_.
     bindS (getS (\<lambda>w. dk_entries (wd_disk w) name)) (\<lambda>found.
     case found of
       Some f \<Rightarrow> liftS (export_again E bs f)
     | None \<Rightarrow>
         bindS (change_disk (\<lambda>d. d\<lparr>dk_entries := (dk_entries d)(name \<mapsto> new_file E)\<rparr>)) (\<lambda>_.
         bindS (liftS (owned_file (ev_uid E) (new_file E))) (\<lambda>_.
         bindS (if ev_fails E WriteExport
           then bindS (change_disk (update_entry name (\<lambda>f. f\<lparr>fl_bytes := take (ev_written E) bs\<rparr>))) (\<lambda>_. failS StIo)
           else change_disk (update_entry name (\<lambda>f. f\<lparr>fl_bytes := bs\<rparr>))) (\<lambda>_.
         bindS (liftS (guardR (\<not> ev_fails E SyncExport) StIo)) (\<lambda>_.
         bindS (change_disk (update_entry name (\<lambda>f. f\<lparr>fl_synced := True\<rparr>))) (\<lambda>_.
         sync_directory E))))))))"

section \<open>Opening\<close>

datatype path_part = RootDir | CurDir | ParentDir | Normal string

record dir_node =
  dn_kind :: file_kind
  dn_uid :: u32
  dn_mode :: u32

text \<open>The part of the file system \<^verbatim>\<open>open\<close> walks: directories by their absolute path, and the lock
  files in them with who holds them.\<close>

record tree =
  tr_nodes :: "string list \<rightharpoonup> dir_node"
  tr_lock_files :: "string list \<rightharpoonup> inode"
  tr_held :: "string list \<Rightarrow> bool"

datatype open_call = OpenDir "string list" | MakeDir "string list" | SyncDir "string list" | OpenLock | TakeLock

record open_env =
  oe_uid :: u32
  oe_umask :: u32
  oe_fails :: "open_call \<Rightarrow> bool"

type_synonym 'a openS = "(tree, store_error, 'a) comp"

definition made_dir :: "open_env \<Rightarrow> dir_node" where
  "made_dir E = \<lparr>dn_kind = Directory, dn_uid = oe_uid E, dn_mode = 448 AND NOT (oe_umask E)\<rparr>"

text \<open>Open a directory or, when it is absent and may be created, make it first; the result tells
  whether it was made.\<close>

definition open_directory :: "open_env \<Rightarrow> bool \<Rightarrow> string list \<Rightarrow> (dir_node \<times> bool) openS" where
  "open_directory E create dir =
     bindS (liftS (guardR (\<not> oe_fails E (OpenDir dir)) StIo)) (\<lambda>_.
     bindS (getS (\<lambda>t. tr_nodes t dir)) (\<lambda>found.
     case found of
       Some n \<Rightarrow> if dn_kind n = Directory then retS (n, False) else failS StIo
     | None \<Rightarrow>
         if \<not> create then failS StIo else
         bindS (liftS (guardR (\<not> oe_fails E (MakeDir dir)) StIo)) (\<lambda>_.
         bindS (modS (\<lambda>t. t\<lparr>tr_nodes := (tr_nodes t)(dir \<mapsto> made_dir E)\<rparr>)) (\<lambda>_.
         bindS (liftS (guardR (\<not> oe_fails E (SyncDir (butlast dir))) StIo)) (\<lambda>_.
         retS (made_dir E, True))))))"

definition trusted_parent :: "u32 \<Rightarrow> dir_node \<Rightarrow> bool" where
  "trusted_parent uid n \<longleftrightarrow>
     \<not> (dn_uid n \<noteq> 0 \<and> dn_uid n \<noteq> uid \<or>
        dn_mode n AND 18 \<noteq> 0 \<and> \<not> (dn_uid n = 0 \<and> dn_mode n AND 512 \<noteq> 0))"

definition private_dir :: "u32 \<Rightarrow> dir_node \<Rightarrow> bool" where
  "private_dir uid n \<longleftrightarrow> \<not> (dn_uid n \<noteq> uid \<or> dn_mode n AND 4095 \<noteq> 448)"

fun open_walk :: "open_env \<Rightarrow> bool \<Rightarrow> path_part list \<Rightarrow> string list \<Rightarrow> bool \<Rightarrow> (string list \<times> bool) openS" where
  "open_walk E create [] dir fresh = retS (dir, fresh)"
| "open_walk E create (part # rest) dir fresh =
     (case part of
        Normal name \<Rightarrow>
          bindS (liftS (guardR (CHR 0x00 \<notin> set name) StUnsafe)) (\<lambda>_.
          bindS (open_directory E create (dir @ [name])) (\<lambda>(n, made).
          bindS (liftS (guardR (if rest = [] then private_dir (oe_uid E) n else trusted_parent (oe_uid E) n) StUnsafe)) (\<lambda>_.
          open_walk E create rest (dir @ [name]) (if made then rest = [] else fresh))))
      | _ \<Rightarrow> failS StUnsafe)"

definition open_lock :: "open_env \<Rightarrow> string list \<Rightarrow> unit openS" where
  "open_lock E dir =
     bindS (liftS (guardR (\<not> oe_fails E OpenLock) StIo)) (\<lambda>_.
     bindS (getS (\<lambda>t. tr_lock_files t dir)) (\<lambda>found.
     let f = (case found of
           Some f \<Rightarrow> f
         | None \<Rightarrow> \<lparr>fl_kind = Regular, fl_uid = oe_uid E, fl_mode = 384 AND NOT (oe_umask E),
             fl_nlink = 1, fl_bytes = [], fl_synced = False\<rparr>) in
     bindS (liftS (guardR (fl_kind f \<noteq> Symlink) StIo)) (\<lambda>_.
     bindS (modS (\<lambda>t. t\<lparr>tr_lock_files := (tr_lock_files t)(dir \<mapsto> f)\<rparr>)) (\<lambda>_.
     bindS (liftS (owned_file (oe_uid E) f)) (\<lambda>_.
     bindS (liftS (guardR (\<not> oe_fails E TakeLock) StIo)) (\<lambda>_.
     bindS (getS (\<lambda>t. tr_held t dir)) (\<lambda>held.
     bindS (liftS (guardR (\<not> held) StBusy)) (\<lambda>_.
     modS (\<lambda>t. t\<lparr>tr_held := (tr_held t)(dir := True)\<rparr>)))))))))"

text \<open>A handle that is dropped releases its lock, also when \<^verbatim>\<open>open\<close> itself fails after taking it.\<close>

definition close_store :: "string list \<Rightarrow> tree \<Rightarrow> tree" where
  "close_store dir t = t\<lparr>tr_held := (tr_held t)(dir := False)\<rparr>"

definition open_store :: "open_env \<Rightarrow> path_part list \<Rightarrow> bool \<Rightarrow> (string list \<times> store) openS" where
  "open_store E parts create =
     bindS (liftS (guardR (parts \<noteq> [] \<and> hd parts = RootDir) StUnsafe)) (\<lambda>_.
     bindS (liftS (guardR (\<not> length parts < 2) StUnsafe)) (\<lambda>_.
     bindS (liftS (guardR (\<not> oe_fails E (OpenDir [])) StIo)) (\<lambda>_.
     bindS (open_walk E create (tl parts) [] False) (\<lambda>(dir, fresh).
     bindS (open_lock E dir) (\<lambda>_.
     bindS (if oe_fails E (SyncDir dir) then bindS (modS (close_store dir)) (\<lambda>_. failS StIo) else retS ()) (\<lambda>_.
     retS (dir, \<lparr>st_generation = 0, st_fresh = fresh, st_digest = None\<rparr>)))))))"

end
