(* ===== verification/StoreProps.thy ===== *)
theory StoreProps
  imports Store
begin

text \<open>
  What the private store promises: replacing the state is atomic under crashes at any point, a
  handle that no longer matches the disk never overwrites it, and an opened store is owned,
  private and locked.
\<close>

section \<open>Crashes and restarts\<close>

definition survives :: "inode option \<Rightarrow> inode option \<Rightarrow> bool" where
  "survives before after \<longleftrightarrow>
     (case (before, after) of
        (None, None) \<Rightarrow> True
      | (Some f, Some g) \<Rightarrow> g = f\<lparr>fl_bytes := fl_bytes g, fl_synced := True\<rparr> \<and> (fl_synced f \<longrightarrow> fl_bytes g = fl_bytes f)
      | _ \<Rightarrow> False)"

definition crash :: "disk \<Rightarrow> disk \<Rightarrow> bool" where
  "crash d d' \<longleftrightarrow> dk_durable d' = dk_entries d' \<and>
     (\<forall>name. survives (dk_entries d name) (dk_entries d' name) \<or> survives (dk_durable d name) (dk_entries d' name))"

definition calm :: "u32 \<Rightarrow> store_env" where
  "calm uid = \<lparr>ev_uid = uid, ev_umask = 0, ev_fails = (\<lambda>_. False), ev_written = 0, ev_suffix = None, ev_fault = (\<lambda>_. False)\<rparr>"

text \<open>What a process finds that opens the store afresh.\<close>

definition reopened :: "'v envelope_lib \<Rightarrow> u32 \<Rightarrow> disk \<Rightarrow> (store_error, 'v) result" where
  "reopened J uid d = fst (load J (calm uid)
     \<lparr>wd_store = \<lparr>st_generation = 0, st_fresh = False, st_digest = None\<rparr>, wd_disk = d, wd_log = []\<rparr>)"

section \<open>The handle and its file\<close>

definition state_file :: "'v envelope_lib \<Rightarrow> u32 \<Rightarrow> inode \<Rightarrow> u64 \<Rightarrow> 'v \<Rightarrow> bool" where
  "state_file J uid f g v \<longleftrightarrow> owned_file uid f = Inr () \<and> fl_bytes f \<noteq> [] \<and> length (fl_bytes f) \<le> max_bytes \<and> fl_synced f \<and>
     en_version J (fl_bytes f) = Some 1 \<and> en_generation J (fl_bytes f) = Some (1, g) \<and>
     en_parse J (fl_bytes f) = Some (1, g, v) \<and> g \<noteq> 0 \<and> is_ok (hash (en_crypto J) (fl_bytes f))"

definition store_inv :: "'v envelope_lib \<Rightarrow> u32 \<Rightarrow> store \<Rightarrow> disk \<Rightarrow> 'v option \<Rightarrow> bool" where
  "store_inv J uid st d held \<longleftrightarrow> dk_durable d state_name = dk_entries d state_name \<and>
     (case held of
        None \<Rightarrow> st_fresh st \<and> st_generation st = 0 \<and> dk_entries d state_name = None
      | Some v \<Rightarrow> \<not> st_fresh st \<and> (\<exists>f. dk_entries d state_name = Some f \<and> state_file J uid f (st_generation st) v \<and>
          hash (en_crypto J) (fl_bytes f) = Inr (the (st_digest st)) \<and> st_digest st \<noteq> None))"

lemma temp_not_state [simp]: "temp_name suffix \<noteq> state_name" "state_name \<noteq> temp_name suffix"
  by (simp_all add: temp_name_def state_name_def)

lemma not_symlink: "owned_file uid f = Inr () \<Longrightarrow> fl_kind f = Regular"
  by (simp add: owned_file_def)

lemma read_state_file:
  "dk_entries d state_name = Some f \<Longrightarrow> state_file J uid f g v \<Longrightarrow> read_state (calm uid) d = Inr (fl_bytes f)"
  using not_symlink [of uid f]
  by (simp add: read_state_def open_existing_def calm_def state_file_def)

lemma reopened_file:
  "dk_entries d state_name = Some f \<Longrightarrow> state_file J uid f g v \<Longrightarrow> reopened J uid d = Inr v"
  using read_state_file [of d f J uid g v]
  by (auto simp: reopened_def load_def state_file_def is_ok_iff)

lemma reopened_absent: "dk_entries d state_name = None \<Longrightarrow> reopened J uid d = Inl StCorrupt"
  by (simp add: reopened_def load_def read_state_def open_existing_def calm_def)

lemma crash_state:
  assumes "crash d d'" "\<And>f. dk_entries d state_name = Some f \<Longrightarrow> fl_synced f"
    "\<And>f. dk_durable d state_name = Some f \<Longrightarrow> fl_synced f"
  shows "dk_entries d' state_name \<in> {dk_entries d state_name, dk_durable d state_name}"
proof -
  have "survives a b \<Longrightarrow> (\<And>f. a = Some f \<Longrightarrow> fl_synced f) \<Longrightarrow> b = a" for a b
    by (auto simp: survives_def split: option.splits)
  then show ?thesis using assms unfolding crash_def by (metis insert_iff)
qed

section \<open>Replacing the file\<close>

text \<open>The disks a save goes through.\<close>

definition between :: "inode option \<Rightarrow> inode option \<Rightarrow> disk \<Rightarrow> bool" where
  "between old new d \<longleftrightarrow> dk_entries d state_name \<in> {old, new} \<and> dk_durable d state_name \<in> {old, new}"

lemma replace_state_between:
  assumes run: "replace_state E name bs w = (r, w')" and name: "name \<noteq> state_name"
    and temp: "dk_entries (wd_disk w) name = Some (new_file E)"
    and old: "dk_entries (wd_disk w) state_name = old" "dk_durable (wd_disk w) state_name = old"
  shows "wd_store w' = wd_store w \<and> between old (Some ((new_file E)\<lparr>fl_bytes := bs, fl_synced := True\<rparr>)) (wd_disk w') \<and>
    (dk_entries (wd_disk w') state_name = old \<longrightarrow> dk_durable (wd_disk w') state_name = old \<or>
       old = Some ((new_file E)\<lparr>fl_bytes := bs, fl_synced := True\<rparr>)) \<and>
    (\<forall>d \<in> set (wd_log w') - set (wd_log w). between old (Some ((new_file E)\<lparr>fl_bytes := bs, fl_synced := True\<rparr>)) d)"
  using assms
  by (auto simp: replace_state_def bindS_def fault_at_def write_temp_def sync_temp_def rename_temp_def sync_directory_def
      change_disk_def update_entry_def between_def guardR_def split: if_splits)

lemma or_unlink_between:
  assumes run: "or_unlink E name m w = (r, w')" and m: "m w = (r1, w1)" and name: "name \<noteq> state_name"
    and ok: "wd_store w1 = wd_store w" "between old new (wd_disk w1)" "\<forall>d \<in> set (wd_log w1) - X. between old new d"
  shows "r = r1 \<and> wd_store w' = wd_store w \<and> between old new (wd_disk w') \<and>
    (\<forall>d \<in> set (wd_log w') - X. between old new d) \<and>
    dk_entries (wd_disk w') state_name = dk_entries (wd_disk w1) state_name \<and>
    dk_durable (wd_disk w') = dk_durable (wd_disk w1)"
  using assms by (auto simp: or_unlink_def change_disk_def between_def split: sum.splits if_splits)

lemma replace_state_done:
  assumes "replace_state E name bs w = (Inr u, w')" "name \<noteq> state_name" "dk_entries (wd_disk w) name = Some (new_file E)"
  shows "dk_entries (wd_disk w') state_name = Some ((new_file E)\<lparr>fl_bytes := bs, fl_synced := True\<rparr>) \<and>
    dk_durable (wd_disk w') state_name = Some ((new_file E)\<lparr>fl_bytes := bs, fl_synced := True\<rparr>)"
  using assms
  by (auto simp: replace_state_def bindS_def fault_at_def write_temp_def sync_temp_def rename_temp_def sync_directory_def
      change_disk_def update_entry_def guardR_def split: if_splits)

definition check_handle :: "'v envelope_lib \<Rightarrow> store_env \<Rightarrow> world \<Rightarrow> (store_error, unit) result" where
  "check_handle J E w =
     (if st_fresh (wd_store w)
      then (if open_existing E state_name (wd_disk w) = Ok None then Ok () else Err StConflict)
      else check_current J E (wd_store w) (wd_disk w))"

definition same_state :: "world \<Rightarrow> world \<Rightarrow> bool" where
  "same_state w w' \<longleftrightarrow> wd_store w' = wd_store w \<and>
     dk_entries (wd_disk w') state_name = dk_entries (wd_disk w) state_name \<and>
     dk_durable (wd_disk w') state_name = dk_durable (wd_disk w) state_name \<and>
     (\<forall>d \<in> set (wd_log w') - set (wd_log w).
        dk_entries d state_name = dk_entries (wd_disk w) state_name \<and>
        dk_durable d state_name = dk_durable (wd_disk w) state_name)"

lemma save_checked_folded: "save_checked J E v =
     bindS (getS (\<lambda>w. checked_add64 (st_generation (wd_store w)) 1)) (\<lambda>next_generation.
     bindS (liftS (ok_or next_generation StConflict)) (\<lambda>generation.
     bindS (getS (check_handle J E)) (\<lambda>checked.
     bindS (liftS checked) (\<lambda>_.
     bindS (liftS (ok_or (en_print J 1 generation v) StCorrupt)) (\<lambda>bs.
     bindS (liftS (guardR (\<not> length bs > max_bytes) StCorrupt)) (\<lambda>_.
     bindS (liftS (ok_or (ev_suffix E) StCorrupt)) (\<lambda>suffix.
     bindS (create_temp E (temp_name suffix)) (\<lambda>_.
     bindS (liftS (owned_file (ev_uid E) (new_file E))) (\<lambda>_.
     bindS (or_unlink E (temp_name suffix) (replace_state E (temp_name suffix) bs)) (\<lambda>_.
     bindS (modS (\<lambda>w. w\<lparr>wd_store := (wd_store w)\<lparr>st_generation := generation, st_fresh := False\<rparr>\<rparr>)) (\<lambda>_.
     bindS (liftS (map_err (\<lambda>_. StCorrupt) (hash (en_crypto J) bs))) (\<lambda>digest.
     modS (\<lambda>w. w\<lparr>wd_store := (wd_store w)\<lparr>st_digest := Some digest\<rparr>\<rparr>)))))))))))))"
  unfolding save_checked_def check_handle_def [abs_def] ..

definition stored_handle :: "'v envelope_lib \<Rightarrow> u64 \<Rightarrow> bytes \<Rightarrow> world \<Rightarrow> world" where
  "stored_handle J generation bs w = w\<lparr>wd_store := (wd_store w)\<lparr>st_generation := generation, st_fresh := False,
     st_digest := (case hash (en_crypto J) bs of Inl _ \<Rightarrow> st_digest (wd_store w) | Inr digest \<Rightarrow> Some digest)\<rparr>\<rparr>"

lemma save_checked_cases [consumes 1, case_names refused replaced]:
  assumes run: "save_checked J E v w = (r, w')"
  obtains
    e where "r = Inl e" "same_state w w'"
  | generation bs name w1 r1 w2 where
      "checked_add64 (st_generation (wd_store w)) 1 = Some generation" "check_handle J E w = Inr ()"
      "en_print J 1 generation v = Some bs" "length bs \<le> max_bytes" "name \<noteq> state_name"
      "owned_file (ev_uid E) (new_file E) = Inr ()" "same_state w w1" "dk_entries (wd_disk w1) name = Some (new_file E)"
      "or_unlink E name (replace_state E name bs) w1 = (r1, w2)"
      "r1 = Inr () \<and> w' = stored_handle J generation bs w2 \<and> is_ok r = is_ok (hash (en_crypto J) bs) \<or>
       (\<exists>e. r1 = Inl e \<and> r = Inl e \<and> w' = w2)"
proof -
  have refl: "same_state w w" by (simp add: same_state_def)
  show ?thesis
  proof (cases "checked_add64 (st_generation (wd_store w)) 1")
    case None
    with run refl that(1) show ?thesis by (auto simp: save_checked_def)
  next
    case (Some generation)
    show ?thesis
    proof (cases "check_handle J E w = Inr () \<and> (\<exists>bs. en_print J 1 generation v = Some bs \<and> length bs \<le> max_bytes) \<and>
        (\<exists>suffix. ev_suffix E = Some suffix \<and> \<not> ev_fails E CreateTemp \<and> dk_entries (wd_disk w) (temp_name suffix) = None)")
      case False
      have "r \<noteq> Inr () \<and> w' = w"
        using run Some False
        by (cases "check_handle J E w")
          (auto simp: save_checked_folded bindS_def create_temp_def guardR_def ok_or_def
            split: option.splits if_splits)
      with refl that(1) show ?thesis by (cases r) auto
    next
      case True
      then obtain bs suffix where ready: "check_handle J E w = Inr ()" "en_print J 1 generation v = Some bs"
        "length bs \<le> max_bytes" "ev_suffix E = Some suffix" "\<not> ev_fails E CreateTemp"
        "dk_entries (wd_disk w) (temp_name suffix) = None" by blast
      define w1 where "w1 = snd (change_disk (\<lambda>d. d\<lparr>dk_entries := (dk_entries d)(temp_name suffix \<mapsto> new_file E)\<rparr>) w)"
      have w1: "same_state w w1" "dk_entries (wd_disk w1) (temp_name suffix) = Some (new_file E)"
        by (auto simp: w1_def change_disk_def same_state_def)
      obtain r1 w2 where u: "or_unlink E (temp_name suffix) (replace_state E (temp_name suffix) bs) w1 = (r1, w2)"
        by fastforce
      have body: "save_checked J E v w = (case owned_file (ev_uid E) (new_file E) of Inl e \<Rightarrow> (Inl e, w1)
         | Inr _ \<Rightarrow> (case r1 of Inl e \<Rightarrow> (Inl e, w2) | Inr _ \<Rightarrow>
            (map_err (\<lambda>_. StCorrupt) (map_err (\<lambda>_. StCorrupt) (case hash (en_crypto J) bs of Inl e \<Rightarrow> Inl e | Inr _ \<Rightarrow> Inr ())),
             stored_handle J generation bs w2)))"
        using Some ready u
        by (auto simp: save_checked_folded bindS_def create_temp_def w1_def change_disk_def stored_handle_def
            map_err_def split: sum.split)
      show ?thesis
      proof (cases "owned_file (ev_uid E) (new_file E)")
        case (Inl e)
        with body run w1 that(1) show ?thesis by simp
      next
        case (Inr _)
        with body run u w1 Some ready show ?thesis
          by (intro that(2) [of generation bs "temp_name suffix" w1 r1 w2]) (auto split: sum.splits)
      qed
    qed
  qed
qed

section \<open>Atomicity\<close>

definition hash_works :: "crypto_lib \<Rightarrow> bool" where
  "hash_works C \<longleftrightarrow> (\<forall>bs. is_ok (hash C bs))"

definition found :: "'v option \<Rightarrow> (store_error, 'v) result" where
  "found held = (case held of None \<Rightarrow> Inl StCorrupt | Some v \<Rightarrow> Inr v)"

definition poisoned :: "'v envelope_lib \<Rightarrow> world \<Rightarrow> bool" where
  "poisoned J w \<longleftrightarrow> (\<forall>E. \<not> is_ok (check_handle J E w))"

lemma poisoned_save: "poisoned J w \<Longrightarrow> \<exists>e. save_checked J E v w = (Inl e, w)"
  by (cases "checked_add64 (st_generation (wd_store w)) 1"; cases "check_handle J E w")
    (auto simp: poisoned_def save_checked_folded is_ok_iff)

lemma new_state_file:
  "envelope_law J \<Longrightarrow> hash_works (en_crypto J) \<Longrightarrow> en_print J 1 g v = Some bs \<Longrightarrow> length bs \<le> max_bytes \<Longrightarrow>
   owned_file uid (new_file E) = Inr () \<Longrightarrow> g \<noteq> 0 \<Longrightarrow>
   state_file J uid ((new_file E)\<lparr>fl_bytes := bs, fl_synced := True\<rparr>) g v"
  by (simp add: state_file_def envelope_law_def hash_works_def owned_file_def)

lemma state_file_synced: "state_file J uid f g v \<Longrightarrow> fl_synced f"
  by (simp add: state_file_def)

lemma reopened_old:
  assumes "dk_entries d state_name = old" "\<And>f. old = Some f \<Longrightarrow> state_file J uid f g (the held)" "old = None \<longleftrightarrow> held = None"
  shows "reopened J uid d = found held"
proof (cases old)
  case None
  with assms(1,3) reopened_absent show ?thesis by (simp add: found_def)
next
  case (Some f)
  with reopened_file [OF _ assms(2)] assms(1,3) show ?thesis by (auto simp: found_def)
qed

lemma between_reopened:
  assumes "between old (Some f1) d" "crash d d'" "state_file J uid f1 g v"
    "\<And>f. old = Some f \<Longrightarrow> state_file J uid f g0 (the held)" "old = None \<longleftrightarrow> held = None"
  shows "reopened J uid d' \<in> {found held, Inr v}"
proof -
  have synced: "fl_synced f" if "old = Some f \<or> f = f1" for f
    using that
  proof
    assume "old = Some f" from state_file_synced [OF assms(4) [OF this]] show ?thesis .
  next
    assume "f = f1" with state_file_synced [OF assms(3)] show ?thesis by simp
  qed
  have "dk_entries d' state_name \<in> {dk_entries d state_name, dk_durable d state_name}"
  proof (intro crash_state [OF assms(2)])
    fix f
    { assume "dk_entries d state_name = Some f"
      with assms(1) have "old = Some f \<or> f = f1" unfolding between_def by force
      with synced show "fl_synced f" . }
    { assume "dk_durable d state_name = Some f"
      with assms(1) have "old = Some f \<or> f = f1" unfolding between_def by force
      with synced show "fl_synced f" . }
  qed
  with assms(1) have "dk_entries d' state_name = old \<or> dk_entries d' state_name = Some f1"
    by (auto simp: between_def)
  with reopened_old [OF _ assms(4,5)] reopened_file [OF _ assms(3)] show ?thesis by blast
qed

lemma check_handle_newer:
  assumes "dk_entries (wd_disk w) state_name = Some f" "fl_kind f \<noteq> Symlink"
    "\<not> st_fresh (wd_store w) \<Longrightarrow> en_generation J (fl_bytes f) = Some (1, g)" "g \<noteq> st_generation (wd_store w)"
    "length (fl_bytes f) \<le> max_bytes"
  shows "poisoned J w"
proof -
  have "read_state E (wd_disk w) = Inr bs \<Longrightarrow> bs = fl_bytes f" for E bs
    using assms(1,5) by (auto simp: read_state_def open_existing_def res_simps Let_def split: if_splits)
  then show ?thesis
    using assms
    by (auto simp: poisoned_def check_handle_def check_current_def is_ok_iff res_simps open_existing_def split: if_splits)
qed

lemma save_atomic:
  assumes law: "envelope_law J" "hash_works (en_crypto J)"
    and inv: "store_inv J (ev_uid E) (wd_store w) (wd_disk w) held"
    and run: "save_checked J E v w = (r, w')"
  shows "(\<forall>d \<in> set (wd_log w') - set (wd_log w). \<forall>d'. crash d d' \<longrightarrow> reopened J (ev_uid E) d' \<in> {found held, Inr v}) \<and>
    (\<forall>u. r = Inr u \<longrightarrow> store_inv J (ev_uid E) (wd_store w') (wd_disk w') (Some v)) \<and>
    (\<forall>e. r = Inl e \<longrightarrow> store_inv J (ev_uid E) (wd_store w') (wd_disk w') held \<or> poisoned J w')"
proof -
  let ?old = "dk_entries (wd_disk w) state_name"
  have old: "dk_durable (wd_disk w) state_name = ?old" "?old = None \<longleftrightarrow> held = None"
    "\<And>f. ?old = Some f \<Longrightarrow> state_file J (ev_uid E) f (st_generation (wd_store w)) (the held)"
    using inv by (auto simp: store_inv_def split: option.splits)
  have same: "store_inv J (ev_uid E) (wd_store x) (wd_disk x) held" if "wd_store x = wd_store w"
    "dk_entries (wd_disk x) state_name = ?old" "dk_durable (wd_disk x) state_name = ?old" for x
    using inv that by (cases held) (simp_all add: store_inv_def)
  from run show ?thesis
  proof (cases rule: save_checked_cases)
    case (refused e)
    have "reopened J (ev_uid E) d' = found held" if "d \<in> set (wd_log w') - set (wd_log w)" "crash d d'" for d d'
    proof -
      have d: "dk_entries d state_name = ?old" "dk_durable d state_name = ?old"
        using refused(2) that(1) old(1) by (auto simp: same_state_def)
      with crash_state [OF that(2)] old(3) [THEN state_file_synced] have "dk_entries d' state_name = ?old" by simp
      then show ?thesis by (rule reopened_old [OF _ old(3,2)])
    qed
    moreover have "store_inv J (ev_uid E) (wd_store w') (wd_disk w') held"
      using same [of w'] refused(2) old(1) by (simp add: same_state_def)
    ultimately show ?thesis using refused(1) by auto
  next
    case (replaced g bs name w1 r1 w2)
    let ?new = "(new_file E)\<lparr>fl_bytes := bs, fl_synced := True\<rparr>"
    have g: "unat g = unat (st_generation (wd_store w)) + 1"
      using checked_add64_Some [OF replaced(1)] by simp
    then have new: "state_file J (ev_uid E) ?new g v"
      by (intro new_state_file law replaced(3,4,6)) auto
    obtain w3 where body: "replace_state E name bs w1 = (r1, w3)"
      using replaced(9) by (auto simp: or_unlink_def split: prod.splits sum.splits)
    have at: "dk_entries (wd_disk w1) state_name = ?old" "dk_durable (wd_disk w1) state_name = ?old"
      "wd_store w1 = wd_store w"
      using replaced(7) old by (auto simp: same_state_def)
    note body_ok = replace_state_between [OF body replaced(5,8) at(1,2)]
    have "\<forall>d \<in> set (wd_log w1) - set (wd_log w). between ?old (Some ?new) d"
      using replaced(7) old by (auto simp: same_state_def between_def)
    with body_ok have "\<forall>d \<in> set (wd_log w3) - set (wd_log w). between ?old (Some ?new) d" by blast
    with or_unlink_between [OF replaced(9) body replaced(5)] body_ok
    have u: "wd_store w2 = wd_store w" "\<forall>d \<in> set (wd_log w2) - set (wd_log w). between ?old (Some ?new) d"
      "dk_entries (wd_disk w2) state_name = dk_entries (wd_disk w3) state_name"
      "dk_durable (wd_disk w2) = dk_durable (wd_disk w3)" "between ?old (Some ?new) (wd_disk w2)"
      using at(3) by auto
    have logged: "reopened J (ev_uid E) d' \<in> {found held, Inr v}" if "d \<in> set (wd_log w2) - set (wd_log w)" "crash d d'" for d d'
      by (rule between_reopened [OF _ that(2) new old(3,2)]) (use u(2) that(1) in blast)
    from replaced(10) show ?thesis
    proof (elim disjE exE conjE)
      assume finished: "r1 = Inr ()" and w': "w' = stored_handle J g bs w2" and "is_ok r = is_ok (hash (en_crypto J) bs)"
      then have "is_ok r" using law(2) by (simp add: hash_works_def)
      moreover have "store_inv J (ev_uid E) (wd_store w') (wd_disk w') (Some v)"
      proof -
        obtain digest where "hash (en_crypto J) bs = Inr digest" using law(2) by (auto simp: hash_works_def is_ok_iff)
        then show ?thesis
          using replace_state_done [OF body [unfolded finished] replaced(5,8)] u(3,4) new
          by (simp add: store_inv_def w' stored_handle_def)
      qed
      ultimately show ?thesis using logged by (auto simp: w' stored_handle_def)
    next
      fix e assume fail: "r = Inl e" "w' = w2"
      have "poisoned J w2" if "dk_entries (wd_disk w2) state_name = Some ?new"
        by (rule check_handle_newer [OF that]) (use new u(1) g replaced(4) in \<open>auto simp: state_file_def new_file_def\<close>)
      moreover have "dk_durable (wd_disk w2) state_name = ?old" if "dk_entries (wd_disk w2) state_name = ?old"
        using that u(3,4) body_ok by (auto simp: between_def)
      ultimately have "store_inv J (ev_uid E) (wd_store w2) (wd_disk w2) held \<or> poisoned J w2"
        using same [of w2] u(1,5) by (auto simp: between_def)
      with logged fail show ?thesis by auto
    qed
  qed
qed

lemma load_after:
  assumes "store_inv J uid (wd_store w) (wd_disk w) (Some v)"
  shows "\<exists>w'. load J (calm uid) w = (Inr v, w') \<and> store_inv J uid (wd_store w') (wd_disk w') (Some v) \<and>
    wd_store w' = wd_store w \<and> wd_disk w' = wd_disk w"
proof -
  obtain f where f: "dk_entries (wd_disk w) state_name = Some f" "state_file J uid f (st_generation (wd_store w)) v"
    "hash (en_crypto J) (fl_bytes f) = Inr (the (st_digest (wd_store w)))" "st_digest (wd_store w) \<noteq> None" "\<not> st_fresh (wd_store w)"
    using assms by (auto simp: store_inv_def)
  obtain g digest l where w: "w = \<lparr>wd_store = \<lparr>st_generation = g, st_fresh = False, st_digest = Some digest\<rparr>,
      wd_disk = wd_disk w, wd_log = l\<rparr>"
    using f(4,5) by (cases w; cases "wd_store w") auto
  have g: "st_generation (wd_store w) = g" "the (st_digest (wd_store w)) = digest" by (subst w, simp)+
  have "load J (calm uid) w = (Inr v, w)"
    using read_state_file [OF f(1,2)] f(2,3) unfolding g by (subst (1 2) w) (simp add: load_def state_file_def)
  with assms show ?thesis by blast
qed

section \<open>The contract of a private store\<close>

text \<open>What the callers of \<^verbatim>\<open>Store::save\<close> rely on: a save that succeeds holds the new value, one that
  fails holds the old one or leaves a handle that never writes again.\<close>

locale durable_cell =
  fixes put :: "'v \<Rightarrow> ('w, 'e, unit) comp"
    and holds :: "'w \<Rightarrow> 'v option \<Rightarrow> bool"
    and broken :: "'w \<Rightarrow> bool"
  assumes put_Ok: "holds w held \<Longrightarrow> put v w = (Inr u, w') \<Longrightarrow> holds w' (Some v)"
    and put_Err: "holds w held \<Longrightarrow> put v w = (Inl e, w') \<Longrightarrow> holds w' held \<or> broken w'"
    and broken_put: "broken w \<Longrightarrow> \<exists>e. put v w = (Inl e, w)"
begin

lemma put_cases:
  assumes "holds w held \<or> broken w" "put v w = (r, w')"
  shows "(r = Inr () \<and> holds w' (Some v)) \<or> (\<not> is_ok r \<and> (holds w' held \<or> broken w'))"
proof (cases "broken w")
  case True
  with broken_put [OF True, of v] assms(2) show ?thesis by auto
next
  case False
  with assms(1) have ok: "holds w held" by blast
  show ?thesis
  proof (cases r)
    case (Inl e)
    with put_Err [OF ok] assms(2) show ?thesis by auto
  next
    case (Inr u)
    with put_Ok [OF ok] assms(2) show ?thesis by auto
  qed
qed

end

definition cell_holds :: "'v envelope_lib \<Rightarrow> store_env \<Rightarrow> world \<Rightarrow> 'v option \<Rightarrow> bool" where
  "cell_holds J E w held \<longleftrightarrow> envelope_law J \<and> hash_works (en_crypto J) \<and>
     store_inv J (ev_uid E) (wd_store w) (wd_disk w) held"

interpretation private_store: durable_cell "store_save J E" "cell_holds J E" "poisoned J" for J E
proof
  fix w w' :: world and held v u
  assume "cell_holds J E w held" "store_save J E v w = (Inr u, w')"
  then show "cell_holds J E w' (Some v)"
    using save_atomic [of J "E\<lparr>ev_fault := (\<lambda>_. False)\<rparr>" w held v "Inr u" w']
    by (simp add: cell_holds_def store_save_def)
next
  fix w w' :: world and held v e
  assume "cell_holds J E w held" "store_save J E v w = (Inl e, w')"
  then show "cell_holds J E w' held \<or> poisoned J w'"
    using save_atomic [of J "E\<lparr>ev_fault := (\<lambda>_. False)\<rparr>" w held v "Inl e" w']
    by (auto simp: cell_holds_def store_save_def)
next
  fix w :: world and v assume "poisoned J w"
  then show "\<exists>e. store_save J E v w = (Inl e, w)" by (simp add: store_save_def poisoned_save)
qed

section \<open>Opening\<close>

definition trusted_path :: "u32 \<Rightarrow> tree \<Rightarrow> string list \<Rightarrow> bool" where
  "trusted_path uid t dir \<longleftrightarrow> dir \<noteq> [] \<and>
     (\<forall>n. 0 < n \<longrightarrow> n < length dir \<longrightarrow>
        (\<exists>x. tr_nodes t (take n dir) = Some x \<and> dn_kind x = Directory \<and> trusted_parent uid x)) \<and>
     (\<exists>x. tr_nodes t dir = Some x \<and> dn_kind x = Directory \<and> private_dir uid x)"

definition more_dirs :: "tree \<Rightarrow> tree \<Rightarrow> bool" where
  "more_dirs t t' \<longleftrightarrow> tr_lock_files t' = tr_lock_files t \<and> tr_held t' = tr_held t \<and>
     (\<forall>p x. tr_nodes t p = Some x \<longrightarrow> tr_nodes t' p = Some x)"

lemma open_directory_Ok:
  "open_directory E create dir t = (Inr (x, made), t') \<Longrightarrow>
   more_dirs t t' \<and> tr_nodes t' dir = Some x \<and> dn_kind x = Directory \<and> (made \<longrightarrow> tr_nodes t dir = None)"
  by (auto simp: open_directory_def made_dir_def more_dirs_def bindS_def guardR_def split: option.splits if_splits)

lemma open_walk_Ok:
  "open_walk E create parts dir fresh t = (Inr (final, fresh'), t') \<Longrightarrow>
   more_dirs t t' \<and> (\<exists>names. parts = map Normal names \<and> final = dir @ names \<and>
     (\<forall>n. 0 < n \<longrightarrow> n < length names \<longrightarrow>
        (\<exists>x. tr_nodes t' (dir @ take n names) = Some x \<and> dn_kind x = Directory \<and> trusted_parent (oe_uid E) x)) \<and>
     (names \<noteq> [] \<longrightarrow> (\<exists>x. tr_nodes t' final = Some x \<and> dn_kind x = Directory \<and> private_dir (oe_uid E) x)) \<and>
     (fresh' \<longrightarrow> \<not> fresh \<longrightarrow> names \<noteq> [] \<and> tr_nodes t final = None))"
proof (induction parts arbitrary: dir fresh t)
  case Nil
  then show ?case by (simp add: more_dirs_def)
next
  case (Cons part rest)
  from Cons.prems obtain name x made t1 where part: "part = Normal name"
    and opened: "open_directory E create (dir @ [name]) t = (Inr (x, made), t1)"
    and check: "if rest = [] then private_dir (oe_uid E) x else trusted_parent (oe_uid E) x"
    and walk: "open_walk E create rest (dir @ [name]) (if made then rest = [] else fresh) t1 = (Inr (final, fresh'), t')"
    by (auto simp: bindS_Inr_iff split: path_part.splits)
  note o = open_directory_Ok [OF opened]
  obtain names where ih: "more_dirs t1 t'" "rest = map Normal names" "final = (dir @ [name]) @ names"
    "\<And>n. 0 < n \<Longrightarrow> n < length names \<Longrightarrow>
        \<exists>x. tr_nodes t' ((dir @ [name]) @ take n names) = Some x \<and> dn_kind x = Directory \<and> trusted_parent (oe_uid E) x"
    "names \<noteq> [] \<Longrightarrow> \<exists>x. tr_nodes t' final = Some x \<and> dn_kind x = Directory \<and> private_dir (oe_uid E) x"
    "fresh' \<Longrightarrow> \<not> (if made then rest = [] else fresh) \<Longrightarrow> names \<noteq> [] \<and> tr_nodes t1 final = None"
    using Cons.IH [OF walk] by blast
  have x: "tr_nodes t' (dir @ [name]) = Some x" using o ih(1) by (simp add: more_dirs_def)
  show ?case
  proof (intro conjI exI [of _ "name # names"] allI impI)
    show "more_dirs t t'" using o ih(1) by (simp add: more_dirs_def)
    fix n assume n: "0 < n" "n < length (name # names)"
    show "\<exists>x. tr_nodes t' (dir @ take n (name # names)) = Some x \<and> dn_kind x = Directory \<and> trusted_parent (oe_uid E) x"
    proof (cases "n = 1")
      case True
      with n ih(2) check have "trusted_parent (oe_uid E) x" by auto
      with True x o show ?thesis by simp
    next
      case False
      with n ih(4) [of "n - 1"] show ?thesis by (cases n) simp_all
    qed
  next
    show "\<exists>x. tr_nodes t' final = Some x \<and> dn_kind x = Directory \<and> private_dir (oe_uid E) x"
      using ih(2,3,5) x o check by (cases names) auto
  next
    assume "fresh'" "\<not> fresh"
    show "tr_nodes t final = None"
    proof (cases "made \<and> rest = []")
      case True
      with o ih(2,3) show ?thesis by simp
    next
      case False
      with ih(6) \<open>fresh'\<close> \<open>\<not> fresh\<close> have "tr_nodes t1 final = None" by auto
      then show ?thesis using o by (cases "tr_nodes t final") (auto simp: more_dirs_def)
    qed
  qed (use part ih in auto)
qed

lemma open_lock_Ok:
  "open_lock E dir t = (Inr u, t') \<Longrightarrow>
   \<not> tr_held t dir \<and> tr_held t' dir \<and> tr_nodes t' = tr_nodes t \<and>
   (\<exists>f. tr_lock_files t' dir = Some f \<and> owned_file (oe_uid E) f = Inr ())"
  by (auto simp: open_lock_def bindS_Inr_iff Let_def)

lemma open_store_Ok:
  assumes "open_store E parts create t = (Inr (dir, st), t')"
  shows "trusted_path (oe_uid E) t' dir \<and> tr_held t' dir \<and> \<not> tr_held t dir \<and> parts = RootDir # map Normal dir \<and>
    st_generation st = 0 \<and> st_digest st = None \<and> (st_fresh st \<longrightarrow> tr_nodes t dir = None)"
proof -
  obtain fresh t1 where parts: "parts \<noteq> []" "hd parts = RootDir" "\<not> length parts < 2"
    and walk: "open_walk E create (tl parts) [] False t = (Inr (dir, fresh), t1)"
    and lock: "open_lock E dir t1 = (Inr (), t')"
    and st: "st = \<lparr>st_generation = 0, st_fresh = fresh, st_digest = None\<rparr>"
    using assms by (auto simp: open_store_def bindS_Inr_iff split: if_splits)
  have "length (tl parts) \<noteq> 0" using parts(3) by (cases parts) auto
  with open_walk_Ok [OF walk] have w: "more_dirs t t1" "tl parts = map Normal dir" "dir \<noteq> []"
    "trusted_path (oe_uid E) t1 dir" "fresh \<longrightarrow> tr_nodes t dir = None"
    by (auto simp: trusted_path_def)
  have "parts = RootDir # tl parts" using parts(1,2) by (cases parts) auto
  with w(2) have "parts = RootDir # map Normal dir" by simp
  with w open_lock_Ok [OF lock] st show ?thesis by (auto simp: trusted_path_def more_dirs_def)
qed

text \<open>While a handle is open its directory cannot be opened again.\<close>

lemma open_excludes:
  assumes "open_store E parts create t = (Inr (dir, st), t')" "tr_held t'' dir"
  shows "\<not> is_ok (fst (open_store E' parts create' t''))"
proof
  assume "is_ok (fst (open_store E' parts create' t''))"
  then obtain dir' st' u where again: "open_store E' parts create' t'' = (Inr (dir', st'), u)"
    by (cases "open_store E' parts create' t''") (auto simp: is_ok_iff)
  from open_store_Ok [OF assms(1)] open_store_Ok [OF again] have "map Normal dir' = map Normal dir" by simp
  then have "dir' = dir" by (rule map_injective) (simp add: inj_def)
  with open_store_Ok [OF again] assms(2) show False by simp
qed

section \<open>Sample data\<close>

text \<open>A store of single bytes, printed as version, generation and value.\<close>

definition sample_envelope :: "byte envelope_lib" where
  "sample_envelope = \<lparr>en_crypto = toy_lib,
     en_print = (\<lambda>v g x. Some ([v] @ be64 g @ [x])),
     en_version = (\<lambda>bs. case bs of [] \<Rightarrow> None | v # _ \<Rightarrow> Some v),
     en_generation = (\<lambda>bs. if length bs = 10 then Some (hd bs, of_be64 (take 8 (tl bs))) else None),
     en_parse = (\<lambda>bs. if length bs = 10 then Some (hd bs, of_be64 (take 8 (tl bs)), last bs) else None)\<rparr>"

lemma sample_envelope_law: "envelope_law sample_envelope"
  by (simp add: envelope_law_def sample_envelope_def)

lemma toy_hash_works: "hash_works (en_crypto sample_envelope)"
  by (simp add: hash_works_def sample_envelope_def toy_ops)

definition sample_env :: store_env where
  "sample_env = (calm 7)\<lparr>ev_suffix := Some [1, 171]\<rparr>"

definition sample_world :: world where
  "sample_world = \<lparr>wd_store = \<lparr>st_generation = 0, st_fresh = True, st_digest = None\<rparr>,
     wd_disk = \<lparr>dk_entries = Map.empty, dk_durable = Map.empty\<rparr>, wd_log = []\<rparr>"

lemma sample_save:
  "\<exists>w'. save_checked sample_envelope sample_env 5 sample_world = (Inr (), w')"
  by (simp add: save_checked_def sample_world_def sample_env_def calm_def open_existing_def checked_add64_def
      sample_envelope_def max_bytes_def create_temp_def change_disk_def new_file_def owned_file_def or_unlink_def
      replace_state_def fault_at_def write_temp_def sync_temp_def rename_temp_def sync_directory_def toy_ops bindS_def)

lemma crash_calm:
  assumes "dk_durable d = dk_entries d" "\<And>name f. dk_entries d name = Some f \<Longrightarrow> fl_synced f"
  shows "crash d d"
proof -
  have "survives (dk_entries d name) (dk_entries d name)" for name
    using assms(2) [of name] by (cases "dk_entries d name") (auto simp: survives_def)
  with assms(1) show ?thesis by (simp add: crash_def)
qed

definition sample_tree :: tree where
  "sample_tree = \<lparr>tr_nodes = [[''var''] \<mapsto> \<lparr>dn_kind = Directory, dn_uid = 0, dn_mode = 493\<rparr>],
     tr_lock_files = Map.empty, tr_held = (\<lambda>_. False)\<rparr>"

definition sample_open :: open_env where
  "sample_open = \<lparr>oe_uid = 7, oe_umask = 0, oe_fails = (\<lambda>_. False)\<rparr>"

section \<open>Properties\<close>

text \<open>C7. Saving is atomic: whatever call fails and whenever the machine stops, the state file reads
  back as the old or as the new value; a save that succeeds has made the new value durable, and
  after one that fails the handle still holds the old value or refuses every later save.\<close>

theorem save_is_atomic:
  assumes "envelope_law J" "hash_works (en_crypto J)"
    and "store_inv J (ev_uid E) (wd_store w) (wd_disk w) held" "save_checked J E v w = (r, w')"
  shows "(\<forall>d \<in> set (wd_log w') - set (wd_log w). \<forall>d'. crash d d' \<longrightarrow> reopened J (ev_uid E) d' \<in> {found held, Inr v}) \<and>
    (\<forall>u. r = Inr u \<longrightarrow> store_inv J (ev_uid E) (wd_store w') (wd_disk w') (Some v)) \<and>
    (\<forall>e. r = Inl e \<longrightarrow> store_inv J (ev_uid E) (wd_store w') (wd_disk w') held \<or>
       (\<forall>E' v'. \<exists>e. save_checked J E' v' w' = (Inl e, w')))"
  using save_atomic [OF assms] poisoned_save [of J w'] by blast

theorem save_is_atomic_witness:
  "\<exists>w' w''. save_checked sample_envelope sample_env 5 sample_world = (Inr (), w') \<and>
     load sample_envelope (calm 7) w' = (Inr 5, w'')"
proof -
  obtain w' where run: "save_checked sample_envelope sample_env 5 sample_world = (Inr (), w')"
    using sample_save by blast
  have inv: "store_inv sample_envelope (ev_uid sample_env) (wd_store sample_world) (wd_disk sample_world) None"
    by (simp add: store_inv_def sample_world_def)
  from save_is_atomic [OF sample_envelope_law toy_hash_works inv run]
  have "store_inv sample_envelope 7 (wd_store w') (wd_disk w') (Some 5)" by (simp add: sample_env_def calm_def)
  from load_after [OF this] run show ?thesis by blast
qed

text \<open>An opened store is private and trusted: every directory on the way is a real directory of
  root or the user that others cannot write (or is sticky), the last one is the user's with mode
  0700, and while the handle lives nobody else can open it.\<close>

theorem opened_store_is_private:
  assumes "open_store E parts create t = (Inr (dir, st), t')"
  shows "trusted_path (oe_uid E) t' dir \<and> parts = RootDir # map Normal dir \<and> \<not> tr_held t dir \<and>
    (\<forall>t'' E' create'. tr_held t'' dir \<longrightarrow> \<not> is_ok (fst (open_store E' parts create' t''))) \<and> tr_held t' dir \<and>
    (st_fresh st \<longrightarrow> tr_nodes t dir = None)"
  using open_store_Ok [OF assms] open_excludes [OF assms] by blast

theorem opened_store_is_private_witness:
  "\<exists>t'. open_store sample_open [RootDir, Normal ''var'', Normal ''net''] True sample_tree
      = (Inr ([''var'', ''net''], \<lparr>st_generation = 0, st_fresh = True, st_digest = None\<rparr>), t') \<and>
     trusted_path 7 t' [''var'', ''net'']"
proof -
  have "\<exists>t'. open_store sample_open [RootDir, Normal ''var'', Normal ''net''] True sample_tree
      = (Inr ([''var'', ''net''], \<lparr>st_generation = 0, st_fresh = True, st_digest = None\<rparr>), t')"
    by (simp add: open_store_def open_directory_def sample_open_def sample_tree_def made_dir_def trusted_parent_def
        private_dir_def open_lock_def owned_file_def bindS_def Let_def)
  then obtain t' where run: "open_store sample_open [RootDir, Normal ''var'', Normal ''net''] True sample_tree
      = (Inr ([''var'', ''net''], \<lparr>st_generation = 0, st_fresh = True, st_digest = None\<rparr>), t')" by blast
  from opened_store_is_private [OF run] run show ?thesis by (auto simp: sample_open_def)
qed

end
