(* ===== verification/Pages.thy ===== *)
theory Pages
  imports Mailbox
begin

text \<open>
  The opt-in mailbox interface of the server (\<^verbatim>\<open>server/src/api/pq.rs\<close>, \<^verbatim>\<open>api/mod.rs\<close>): the
  admission of requests before their bodies are read, the authenticated cursors, and the pages
  of the state a peer may see.
\<close>

section \<open>Endpoints\<close>

definition is_host_unspecified :: "host_port \<Rightarrow> bool" where
  "is_host_unspecified e = (case hp_host e of HostV4 ip \<Rightarrow> ip = 0 | HostV6 ip \<Rightarrow> ip = 0 | HostDomain _ \<Rightarrow> False)"

text \<open>One round of \<^verbatim>\<open>inject_endpoints\<close>; a socket address is an endpoint with a numeric host.\<close>

definition inject_endpoint :: "(string \<Rightarrow> host_port option) \<Rightarrow> peer \<Rightarrow> peer" where
  "inject_endpoint endpoints p =
     (let wg = endpoints (pe_public_key p);
          p1 = (case pe_endpoint p of
             None \<Rightarrow> p\<lparr>pe_endpoint := wg\<rparr>
           | Some e \<Rightarrow>
               if is_host_unspecified e
               then (case wg of
                  Some w \<Rightarrow> p\<lparr>pe_endpoint := Some \<lparr>hp_host = hp_host w, hp_port = hp_port e\<rparr>\<rparr>
                | None \<Rightarrow> p\<lparr>pe_endpoint := None\<rparr>)
               else p) in
      (case wg of
         None \<Rightarrow> p1
       | Some w \<Rightarrow>
           if pe_endpoint p1 \<noteq> Some w \<and> w \<notin> set (pe_candidates p1)
           then p1\<lparr>pe_candidates := pe_candidates p1 @ [w]\<rparr> else p1))"

section \<open>Cursors\<close>

text \<open>The fields are the requester, the visibility revision, the stage and the last identifier.\<close>

definition cursor_bytes :: "u64 \<times> u64 \<times> u64 \<times> u64 \<Rightarrow> bytes" where
  "cursor_bytes = (\<lambda>(a, b, c, d). be64 a @ be64 b @ be64 c @ be64 d)"

definition encode_cursor :: "mail_lib \<Rightarrow> bytes \<Rightarrow> u64 \<times> u64 \<times> u64 \<times> u64 \<Rightarrow> string sres" where
  "encode_cursor M key vals =
     bindR (map_err SPq (hmac_tag (ml_crypto M) key (cursor_bytes vals))) (\<lambda>tag.
     Ok (binary_serialize (nl_base64 (ml_net M)) (cursor_bytes vals @ tag)))"

definition decode_cursor :: "mail_lib \<Rightarrow> bytes \<Rightarrow> string \<Rightarrow> u64 \<Rightarrow> u64 \<Rightarrow> (u64 \<times> int) sres" where
  "decode_cursor M key s requester revision =
     bindR (ok_or (binary_deserialize (nl_base64 (ml_net M)) 64 s) SInvalidQuery) (\<lambda>bs.
     bindR (map_err SPq (hmac_tag (ml_crypto M) key (take 32 bs))) (\<lambda>tag.
     bindR (guardR (tag = drop 32 bs) SInvalidQuery) (\<lambda>_.
     let f = (\<lambda>i. of_be64 (take 8 (drop (8 * i) bs))) in
     bindR (guardR (\<not> (f 0 \<noteq> requester \<or> f 1 \<noteq> revision)) SConflict) (\<lambda>_.
     bindR (guardR (\<not> (f 2 > 2 \<or> f 3 > i64_max)) SInvalidQuery) (\<lambda>_.
     Ok (f 2, uint (f 3)))))))"

section \<open>One page\<close>

datatype page_value =
    VPeer int peer bool "advertised_bundle option"
  | VCidr int cidr
  | VExchange exchange

text \<open>The lengths of the JSON the page is made of.\<close>

record page_lib =
  pl_mail :: mail_lib
  pl_bundle_len :: "advertised_bundle \<Rightarrow> nat option"
  pl_value_len :: "page_value \<Rightarrow> nat option"

record page_state =
  ps_stage :: u64
  ps_after :: int
  ps_pq_bytes :: nat
  ps_total_bytes :: nat
  ps_count :: nat
  ps_peers :: "((int \<times> peer) \<times> bool \<times> advertised_bundle option) list"
  ps_cidrs :: "(int \<times> cidr) list"
  ps_exchanges :: "exchange list"

datatype pick = NextStage | Skip int | Item int page_value nat

definition peer_item :: "page_lib \<Rightarrow> (string \<Rightarrow> host_port option) \<Rightarrow> pq_db \<Rightarrow> int \<times> peer \<Rightarrow> pick sres" where
  "peer_item P endpoints db = (\<lambda>(i, p).
     bindR (stored_bundle (ml_crypto (pl_mail P)) i db) (\<lambda>advertised.
     bindR (case advertised of
              None \<Rightarrow> Ok ()
            | Some b \<Rightarrow>
                bindR (ok_or (key_from_base64 (ml_net (pl_mail P)) (pe_public_key p)) SConflict) (\<lambda>wg.
                guardR (\<not> wg \<noteq> bu_wg (ab_bundle b)) SConflict)) (\<lambda>_.
     bindR (case advertised of
              None \<Rightarrow> Ok 64
            | Some b \<Rightarrow> bindR (ok_or (pl_bundle_len P b) SJson) (\<lambda>n. Ok (n + 64))) (\<lambda>size.
     bindR (is_server i db) (\<lambda>server.
     Ok (Item i (VPeer i (inject_endpoint endpoints p) server advertised) size))))))"

text \<open>The other side of every exchange of a peer, and the next one after a given identifier.\<close>

definition other_of :: "int \<Rightarrow> exchange_key \<Rightarrow> int" where
  "other_of self k = (if fst k = self then fst (snd k) else fst k)"

definition mailbox_of :: "int \<Rightarrow> pq_db \<Rightarrow> (int \<times> exchange) list" where
  "mailbox_of self db =
     map (\<lambda>(k, r). (other_of self k, er_record r)) (filter (\<lambda>(k, r). key_of_peer self k) (db_exchanges db))"

definition next_exchange :: "int \<Rightarrow> int \<Rightarrow> pq_db \<Rightarrow> (int \<times> exchange) option" where
  "next_exchange self after db =
     (case sort_key fst (filter (\<lambda>(other, e). other > after) (mailbox_of self db)) of [] \<Rightarrow> None | x # _ \<Rightarrow> Some x)"

definition pick_item ::
    "page_lib \<Rightarrow> (string \<Rightarrow> host_port option) \<Rightarrow> (int \<times> peer) list \<Rightarrow> int \<Rightarrow> pq_db \<Rightarrow> u64 \<Rightarrow> int \<Rightarrow> pick sres" where
  "pick_item P endpoints peers self db stage after =
     (if stage = 0 then
        (case List.find (\<lambda>(i, p). i > after) peers of
           None \<Rightarrow> Ok NextStage
         | Some x \<Rightarrow> peer_item P endpoints db x)
      else if stage = 1 then
        (case List.find (\<lambda>(i, c). i > after) (db_cidrs db) of
           None \<Rightarrow> Ok NextStage
         | Some (i, c) \<Rightarrow> Ok (Item i (VCidr i c) 0))
      else
        (case next_exchange self after db of
           None \<Rightarrow> Ok NextStage
         | Some (other, e) \<Rightarrow>
             (case pair_allowed (ml_net (pl_mail P)) self other db of
                Inr _ \<Rightarrow> Ok (Item other (VExchange e) (ml_record_len (pl_mail P) e))
              | Inl err \<Rightarrow> if err \<in> {SUnauthorized, SNotFound} then Ok (Skip other) else Err err)))"

definition next_stage :: "page_state \<Rightarrow> page_state" where
  "next_stage st = (if ps_stage st < 2 then st\<lparr>ps_stage := ps_stage st + 1, ps_after := 0\<rparr> else st\<lparr>ps_stage := 3\<rparr>)"

definition push_item :: "int \<Rightarrow> page_value \<Rightarrow> nat \<Rightarrow> nat \<Rightarrow> page_state \<Rightarrow> page_state" where
  "push_item i v pq_size len st =
     (case v of
        VPeer j p server b \<Rightarrow> st\<lparr>ps_peers := ps_peers st @ [((j, p), server, b)]\<rparr>
      | VCidr j c \<Rightarrow> st\<lparr>ps_cidrs := ps_cidrs st @ [(j, c)]\<rparr>
      | VExchange e \<Rightarrow> st\<lparr>ps_exchanges := ps_exchanges st @ [e]\<rparr>)
     \<lparr>ps_pq_bytes := ps_pq_bytes st + pq_size, ps_total_bytes := ps_total_bytes st + len,
      ps_count := Suc (ps_count st), ps_after := i\<rparr>"

text \<open>The loop ends: it moves to a later identifier of its stage or to the next stage.\<close>

definition stage_ids :: "(int \<times> peer) list \<Rightarrow> int \<Rightarrow> pq_db \<Rightarrow> u64 \<Rightarrow> int list" where
  "stage_ids peers self db stage =
     (if stage = 0 then map fst peers else if stage = 1 then map fst (db_cidrs db) else map fst (mailbox_of self db))"

definition ahead :: "(int \<times> peer) list \<Rightarrow> int \<Rightarrow> pq_db \<Rightarrow> page_state \<Rightarrow> nat" where
  "ahead peers self db st = length (filter (\<lambda>i. i > ps_after st) (stage_ids peers self db (ps_stage st)))"

lemma find_later: "List.find (\<lambda>(i, x). i > after) xs = Some (j, y) \<Longrightarrow> j > after \<and> (j, y) \<in> set xs"
  by (auto simp: find_Some_iff dest: nth_mem)

lemma next_exchange_later:
  "next_exchange self after db = Some (j, e) \<Longrightarrow> j > after \<and> (j, e) \<in> set (mailbox_of self db)"
proof -
  assume "next_exchange self after db = Some (j, e)"
  then obtain rest where "sort_key fst (filter (\<lambda>(other, e). other > after) (mailbox_of self db)) = (j, e) # rest"
    by (auto simp only: next_exchange_def split: list.splits)
  from arg_cong [OF this, of set] show ?thesis by auto
qed

lemma peer_item_Ok: "peer_item P endpoints db (i, p) = Inr k \<Longrightarrow>
  \<exists>advertised server size. k = Item i (VPeer i (inject_endpoint endpoints p) server advertised) size \<and>
    stored_bundle (ml_crypto (pl_mail P)) i db = Inr advertised \<and> is_server i db = Inr server"
  by (auto simp: peer_item_def res_simps)

lemma pick_later:
  assumes "pick_item P endpoints peers self db stage after = Inr k" "k = Skip i \<or> k = Item i v n"
  shows "i > after \<and> i \<in> set (stage_ids peers self db stage)"
  using assms
  by (auto simp: pick_item_def stage_ids_def image_iff split: if_splits option.splits prod.splits sum.splits
      dest!: find_later next_exchange_later peer_item_Ok) force+

lemma fewer_ahead:
  "i > ps_after st \<Longrightarrow> i \<in> set (stage_ids peers self db (ps_stage st)) \<Longrightarrow>
   length (filter (\<lambda>j. j > i) (stage_ids peers self db (ps_stage st))) < ahead peers self db st"
  unfolding ahead_def
proof -
  let ?ids = "stage_ids peers self db (ps_stage st)"
  assume later: "i > ps_after st" "i \<in> set ?ids"
  have "length (filter (\<lambda>j. j > i) ?ids) = length (filter (\<lambda>j. j > i) (filter (\<lambda>j. j > ps_after st) ?ids))"
    using later(1) by (simp add: conj_commute) (metis (no_types, lifting) filter_cong less_trans)
  also have "\<dots> < length (filter (\<lambda>j. j > ps_after st) ?ids)"
    using later by (intro length_filter_less [of i]) auto
  finally show "length (filter (\<lambda>j. j > i) ?ids) < length (filter (\<lambda>j. j > ps_after st) ?ids)" .
qed

lemma stage_cases: "(s :: u64) < 3 \<Longrightarrow> s = 0 \<or> s = 1 \<or> s = 2"
proof -
  assume "s < 3"
  then have "unat s < 3" by (simp add: word_less_nat_alt)
  then have "unat s = unat (0 :: u64) \<or> unat s = unat (1 :: u64) \<or> unat s = unat (2 :: u64)" by auto
  then show ?thesis by (simp only: word_unat_eq_iff)
qed

lemma next_stage_later: "ps_stage st < 3 \<Longrightarrow> unat (ps_stage (next_stage st)) = Suc (unat (ps_stage st))"
  by (auto simp: next_stage_def dest: stage_cases)

lemma push_item_fields [simp]:
  "ps_stage (push_item i v m n st) = ps_stage st" "ps_after (push_item i v m n st) = i"
  "ps_count (push_item i v m n st) = Suc (ps_count st)"
  by (auto simp: push_item_def split: page_value.splits)

function page_loop ::
    "page_lib \<Rightarrow> (string \<Rightarrow> host_port option) \<Rightarrow> (int \<times> peer) list \<Rightarrow> int \<Rightarrow> pq_db \<Rightarrow> page_state \<Rightarrow> page_state sres" where
  "page_loop P endpoints peers self db st =
     (if \<not> (ps_stage st < 3 \<and> ps_count st < 32) then Ok st
      else case pick_item P endpoints peers self db (ps_stage st) (ps_after st) of
        Inl err \<Rightarrow> Err err
      | Inr NextStage \<Rightarrow> page_loop P endpoints peers self db (next_stage st)
      | Inr (Skip i) \<Rightarrow> page_loop P endpoints peers self db (st\<lparr>ps_after := i\<rparr>)
      | Inr (Item i v pq_size) \<Rightarrow>
          (case pl_value_len P v of
             None \<Rightarrow> Err SJson
           | Some len \<Rightarrow>
               if ps_pq_bytes st + pq_size > 128 * 1024 \<or> ps_total_bytes st + (len + 1) > 1024 * 1024
               then (if ps_count st = 0 then Err SUnavailable else Ok st)
               else page_loop P endpoints peers self db (push_item i v pq_size (len + 1) st)))"
  by pat_completeness auto

termination
proof (relation "measures [\<lambda>(P, endpoints, peers, self, db, st). 3 - unat (ps_stage st),
    \<lambda>(P, endpoints, peers, self, db, st). ahead peers self db st]")
qed (auto simp: next_stage_later word_less_nat_alt ahead_def [of _ _ _ "_ \<lparr> ps_after := _ \<rparr>"] ahead_def [of _ _ _ "push_item _ _ _ _ _"]
    intro!: fewer_ahead dest: pick_later)

type_synonym server_page = "(int \<times> peer, int \<times> cidr) state_page"

definition first_state :: "u64 \<Rightarrow> int \<Rightarrow> page_state" where
  "first_state stage after = \<lparr>ps_stage = stage, ps_after = after, ps_pq_bytes = 512, ps_total_bytes = 512, ps_count = 0,
     ps_peers = [], ps_cidrs = [], ps_exchanges = []\<rparr>"

definition page_of ::
    "page_lib \<Rightarrow> bytes \<Rightarrow> int \<Rightarrow> bytes \<Rightarrow> int \<Rightarrow> number \<Rightarrow> page_state \<Rightarrow> server_page sres" where
  "page_of P key self network_id revision visibility st =
     bindR (if ps_stage st < 3
            then bindR (encode_cursor (pl_mail P) key
                   (word_of_int self, word_of_int revision, ps_stage st, word_of_int (ps_after st))) (\<lambda>c. Ok (Some c))
            else Ok None) (\<lambda>next_cursor.
     Ok \<lparr>pg_version = 1, pg_network_id = network_id, pg_visibility_revision = visibility,
         pg_peers = ps_peers st, pg_cidrs = ps_cidrs st, pg_exchanges = ps_exchanges st,
         pg_next_cursor = next_cursor\<rparr>)"

definition page ::
    "page_lib \<Rightarrow> (string \<Rightarrow> host_port option) \<Rightarrow> bytes \<Rightarrow> u64 \<Rightarrow> int \<Rightarrow> string \<Rightarrow> string option \<Rightarrow> server_page dbS" where
  "page P endpoints key now self public_key cursor = transaction (
     bindS (getS ready) (\<lambda>is_ready.
     bindS (liftS (guardR is_ready SUnavailable)) (\<lambda>_.
     bindS (askS (caller (ml_net (pl_mail P)) self public_key)) (\<lambda>me.
     bindS (sweep_inner (pl_mail P) now) (\<lambda>_.
     bindS (askS network) (\<lambda>(network_id, revision).
     bindS (liftS (case cursor of
              None \<Rightarrow> Ok (0, 0)
            | Some c \<Rightarrow> decode_cursor (pl_mail P) key c (word_of_int self) (word_of_int revision))) (\<lambda>(stage, after).
     bindS (liftS (map_err SPq (number_new (word_of_int revision)))) (\<lambda>visibility.
     bindS (askS (get_all_allowed_peers (ml_net (pl_mail P)) me)) (\<lambda>peers.
     bindS (askS (\<lambda>db. page_loop P endpoints (sort_key fst peers) self db (first_state stage after))) (\<lambda>st.
     liftS (page_of P key self network_id revision visibility st)))))))))))"

section \<open>Requests\<close>

text \<open>What the handlers look at: a header that occurs is its text, if it is visible ASCII. The body
  arrives within five seconds and the limit, or does not.\<close>

datatype body_input = BodyTimeout | BodyOverLimit | Body bytes

record request =
  rq_query :: "string option"
  rq_content_types :: "string option list"
  rq_has_encoding :: bool
  rq_content_lengths :: "string option list"
  rq_body :: body_input

definition request_body :: "request \<Rightarrow> bytes sres" where
  "request_body req =
     bindR (guardR (\<not> (length (rq_content_types req) \<noteq> 1 \<or>
         hd (rq_content_types req) \<noteq> Some ''application/json'' \<or>
         rq_has_encoding req)) SUnsupportedMedia) (\<lambda>_.
     bindR (guardR (\<not> length (rq_content_lengths req) > 1) SInvalidQuery) (\<lambda>_.
     bindR (case rq_content_lengths req of
              [] \<Rightarrow> Ok ()
            | v # _ \<Rightarrow>
                bindR (ok_or v SInvalidQuery) (\<lambda>text.
                bindR (ok_or (parse_u64 text) SInvalidQuery) (\<lambda>len.
                guardR (\<not> len > word_of_nat request_limit) SPayloadTooLarge))) (\<lambda>_.
     case rq_body req of
       BodyTimeout \<Rightarrow> Err SInvalidQuery
     | BodyOverLimit \<Rightarrow> Err SPayloadTooLarge
     | Body bs \<Rightarrow> if length bs > request_limit then Err SPayloadTooLarge else Ok bs)))"

text \<open>The session: the peer as the connection was matched to it, and whether the service runs.\<close>

record session =
  ss_peer_id :: int
  ss_peer :: peer
  ss_service :: bool

definition user_capable :: "session \<Rightarrow> bool" where
  "user_capable s \<longleftrightarrow> \<not> pe_is_disabled (ss_peer s) \<and> pe_is_redeemed (ss_peer s)"

definition admin_capable :: "session \<Rightarrow> bool" where
  "admin_capable s \<longleftrightarrow> pe_is_admin (ss_peer s) \<and> user_capable s"

definition redeemable :: "session \<Rightarrow> bool" where
  "redeemable s \<longleftrightarrow> \<not> pe_is_disabled (ss_peer s) \<and> \<not> pe_is_redeemed (ss_peer s)"

definition session_service :: "session \<Rightarrow> unit sres" where
  "session_service s =
     bindR (guardR (user_capable s) SUnauthorized) (\<lambda>_. guardR (ss_service s) SUnavailable)"

text \<open>A handler changes the admission state and the database.\<close>

record front =
  fr_service :: service
  fr_db :: pq_db

type_synonym 'a frontS = "(front, server_error, 'a) comp"

definition on_service :: "(service, server_error, 'a) comp \<Rightarrow> 'a frontS" where
  "on_service m f = (case m (fr_service f) of (r, s) \<Rightarrow> (r, f\<lparr>fr_service := s\<rparr>))"

definition on_db :: "'a dbS \<Rightarrow> 'a frontS" where
  "on_db m f = (case m (fr_db f) of (r, d) \<Rightarrow> (r, f\<lparr>fr_db := d\<rparr>))"

text \<open>The rest of a handler owns its permit: the body is read with it in scope, and the blocking task it
  is moved into binds it to \<^verbatim>\<open>_permit\<close>, so it is dropped when the rest returns, whatever the result.\<close>

definition releasing :: "permit \<Rightarrow> 'a frontS \<Rightarrow> 'a frontS" where
  "releasing p m f = (case m f of (r, g) \<Rightarrow> (r, g\<lparr>fr_service := release p (fr_service g)\<rparr>))"

record front_lib =
  fl_pages :: page_lib
  fl_registration :: "bytes \<Rightarrow> registration option"
  fl_message :: json_message
  fl_query :: "string \<Rightarrow> (string \<times> string) list"
  fl_endpoints :: "string \<Rightarrow> host_port option"
  fl_cursor_key :: bytes

definition register_handler :: "front_lib \<Rightarrow> u64 \<Rightarrow> u64 \<Rightarrow> request \<Rightarrow> session \<Rightarrow> advertised_bundle frontS" where
  "register_handler F monotonic epoch req session =
     bindS (liftS (session_service session)) (\<lambda>_.
     bindS (liftS (case rq_query req of
              None \<Rightarrow> Ok False
            | Some q \<Rightarrow> if q = ''retire=1'' then Ok True else Err SInvalidQuery)) (\<lambda>retirement.
     bindS (on_service (admit monotonic (ss_peer_id session) (\<not> retirement))) (\<lambda>permit.
     releasing permit (
       bindS (liftS (request_body req)) (\<lambda>bs.
       bindS (liftS (map_err SPq (registration_parse (ml_crypto (pl_mail (fl_pages F))) (fl_registration F) bs))) (\<lambda>r.
       bindS (liftS (guardR (\<not> retirement \<noteq> (rg_lifecycle r = LRetired)) SInvalidQuery)) (\<lambda>_.
       bindS (getS (\<lambda>f. sv_limits (fr_service f))) (\<lambda>limits.
       on_db (register (pl_mail (fl_pages F)) (ss_peer_id session) (pe_public_key (ss_peer session)) r limits epoch)))))))))"

definition phase_of_query :: "string option \<Rightarrow> u8 sres" where
  "phase_of_query q =
     (if q = None \<or> q = Some ''phase=1'' then Ok 1
      else if q = Some ''phase=2'' then Ok 2
      else if q = Some ''phase=3'' then Ok 3
      else if q = Some ''phase=4'' then Ok 4
      else if q = Some ''phase=5'' then Ok 5
      else if q = Some ''phase=6'' then Ok 6
      else Err SInvalidQuery)"

definition handshake_handler ::
    "front_lib \<Rightarrow> u64 \<Rightarrow> u64 \<Rightarrow> request \<Rightarrow> session \<Rightarrow> string \<Rightarrow> exchange frontS" where
  "handshake_handler F monotonic epoch req session other =
     bindS (liftS (ok_or (number_deserialize other) SInvalidQuery)) (\<lambda>n.
     bindS (liftS (session_service session)) (\<lambda>_.
     bindS (liftS (phase_of_query (rq_query req))) (\<lambda>phase.
     bindS (on_service (admit monotonic (ss_peer_id session) (phase = kind_u8 KPropose))) (\<lambda>permit.
     releasing permit (
       bindS (liftS (request_body req)) (\<lambda>bs.
       bindS (liftS (map_err SPq (parse_message (fl_message F) bs))) (\<lambda>m.
       bindS (liftS (guardR (\<not> msg_type m \<noteq> phase) SInvalidQuery)) (\<lambda>_.
       bindS (getS (\<lambda>f. sv_limits (fr_service f))) (\<lambda>limits.
       on_db (submit (pl_mail (fl_pages F)) (ss_peer_id session) (pe_public_key (ss_peer session))
         (sint (num_get n)) m limits epoch))))))))))"

fun state_query :: "(string \<times> string) list \<Rightarrow> bool \<Rightarrow> string option \<Rightarrow> (bool \<times> string option) sres" where
  "state_query [] version cursor = Ok (version, cursor)"
| "state_query ((k, v) # rest) version cursor =
     (if k = ''pq_version'' \<and> \<not> version \<and> v = ''1'' then state_query rest True cursor
      else if k = ''cursor'' \<and> cursor = None \<and> v \<noteq> [] then state_query rest version (Some v)
      else Err SInvalidQuery)"

text \<open>A permit to read is bound in the same way, in the task that makes the page.\<close>

definition end_read :: "'a frontS \<Rightarrow> 'a frontS" where
  "end_read m f = (case m f of (r, g) \<Rightarrow> (r, g\<lparr>fr_service := (fr_service g)\<lparr>sv_reads := Suc (sv_reads (fr_service g))\<rparr>\<rparr>))"

definition state_handler :: "front_lib \<Rightarrow> u64 \<Rightarrow> request \<Rightarrow> session \<Rightarrow> server_page frontS" where
  "state_handler F epoch req session =
     bindS (liftS (session_service session)) (\<lambda>_.
     bindS (liftS (ok_or (rq_query req) SInvalidQuery)) (\<lambda>query.
     bindS (liftS (guardR (\<not> length query > 256) SInvalidQuery)) (\<lambda>_.
     bindS (liftS (state_query (fl_query F query) False None)) (\<lambda>(version, cursor).
     bindS (liftS (guardR version SInvalidQuery)) (\<lambda>_.
     bindS (on_service admit_read) (\<lambda>_.
     end_read (on_db (page (fl_pages F) (fl_endpoints F) (fl_cursor_key F) epoch
       (ss_peer_id session) (pe_public_key (ss_peer session)) cursor))))))))"

end
