(* ===== verification/PageProps.thy ===== *)
theory PageProps
  imports Pages MailboxProps Visibility
begin

text \<open>
  What the paged interface promises: a cursor is accepted only if the server issued it for the
  same requester and revision, and following the cursors delivers everything once.
\<close>

section \<open>Cursors\<close>

lemma length_cursor_bytes [simp]: "length (cursor_bytes vals) = 32"
  by (cases vals) (simp add: cursor_bytes_def)

lemma cursor_fields:
  "of_be64 (take 8 (cursor_bytes (a, b, c, d))) = a"
  "of_be64 (take 8 (drop 8 (cursor_bytes (a, b, c, d)))) = b"
  "of_be64 (take 8 (drop 16 (cursor_bytes (a, b, c, d)))) = c"
  "of_be64 (drop 24 (cursor_bytes (a, b, c, d))) = d"
  by (simp_all add: cursor_bytes_def)

lemma cursor_bytes_of:
  assumes "length bs = 32"
  shows "cursor_bytes (of_be64 (take 8 bs), of_be64 (take 8 (drop 8 bs)), of_be64 (take 8 (drop 16 bs)),
    of_be64 (take 8 (drop 24 bs))) = bs"
  using assms take_add [of 8 24 bs] take_add [of 8 16 "drop 8 bs"] take_add [of 8 8 "drop 16 bs"]
  by (simp add: cursor_bytes_def be64_of_be64)

lemma decode_cursor_iff:
  assumes "base64_law (nl_base64 (ml_net M))" "\<And>bs tag. hmac_tag (ml_crypto M) key bs = Inr tag \<Longrightarrow> length tag = 32"
  shows "decode_cursor M key s requester revision = Inr (stage, after) \<longleftrightarrow>
    stage \<le> 2 \<and> (\<exists>last \<le> i64_max. after = uint last \<and>
      encode_cursor M key (requester, revision, stage, last) = Inr s)"
proof
  assume "decode_cursor M key s requester revision = Inr (stage, after)"
  then obtain bs tag where bs: "binary_deserialize (nl_base64 (ml_net M)) 64 s = Some bs"
    "hmac_tag (ml_crypto M) key (take 32 bs) = Inr tag" "tag = drop 32 bs"
    "of_be64 (take 8 bs) = requester" "of_be64 (take 8 (drop 8 bs)) = revision"
    "stage = of_be64 (take 8 (drop 16 bs))" "after = uint (of_be64 (take 8 (drop 24 bs)))"
    "\<not> stage > 2" "\<not> of_be64 (take 8 (drop 24 bs)) > i64_max"
    by (auto simp: decode_cursor_def res_simps Let_def)
  then have s: "length bs = 64" "s = binary_serialize (nl_base64 (ml_net M)) bs"
    using binary_deserialize_canonical [OF assms(1)] by auto
  let ?last = "of_be64 (take 8 (drop 24 bs))"
  have "cursor_bytes (requester, revision, stage, ?last) = take 32 bs"
    using cursor_bytes_of [of "take 32 bs"] s(1) bs(4-6) by (simp add: drop_take min_def)
  then have "encode_cursor M key (requester, revision, stage, ?last) = Inr s"
    using bs(2,3) s(2) by (simp add: encode_cursor_def)
  with bs show "stage \<le> 2 \<and> (\<exists>last \<le> i64_max. after = uint last \<and>
      encode_cursor M key (requester, revision, stage, last) = Inr s)" by (auto simp: not_less)
next
  assume "stage \<le> 2 \<and> (\<exists>last \<le> i64_max. after = uint last \<and> encode_cursor M key (requester, revision, stage, last) = Inr s)"
  then obtain last tag where c: "stage \<le> 2" "last \<le> i64_max" "after = uint last"
    "hmac_tag (ml_crypto M) key (cursor_bytes (requester, revision, stage, last)) = Inr tag"
    "s = binary_serialize (nl_base64 (ml_net M)) (cursor_bytes (requester, revision, stage, last) @ tag)"
    by (auto simp: encode_cursor_def res_simps)
  with assms(2) have "binary_deserialize (nl_base64 (ml_net M)) 64 s = Some (cursor_bytes (requester, revision, stage, last) @ tag)"
    using binary_deserialize_canonical [OF assms(1)] by simp
  with c show "decode_cursor M key s requester revision = Inr (stage, after)"
    by (simp add: decode_cursor_def cursor_fields not_less)
qed

section \<open>The order of delivery\<close>

lemma find_splits:
  assumes "sorted_wrt (<) (map fst xs)" "List.find (\<lambda>(i, x). i > a) xs = Some (j, y)"
  shows "filter (\<lambda>(i, x). i > (a :: int)) xs = (j, y) # filter (\<lambda>(i, x). i > j) xs"
  using assms
proof (induction xs)
  case (Cons x xs)
  then show ?case
  proof (cases "fst x > a")
    case True
    with Cons.prems have x: "x = (j, y)" by (auto split: prod.splits)
    have "filter (\<lambda>(i, x). i > j) xs = xs" "filter (\<lambda>(i, x). i > a) xs = xs"
      using Cons.prems(1) x True by (auto intro!: filter_True)
    with x True show ?thesis by simp
  next
    case False
    with Cons.prems(2) have find: "List.find (\<lambda>(i, x). i > a) xs = Some (j, y)" by (auto split: prod.splits)
    with Cons.prems(1) find_later have "fst x < j" by fastforce
    with Cons.IH [OF _ find] Cons.prems(1) False show ?thesis by (cases x) simp
  qed
qed simp

lemma find_none: "List.find (\<lambda>(i, x). i > a) xs = None \<Longrightarrow> filter (\<lambda>(i, x). i > (a :: int)) xs = []"
  by (auto simp: find_None_iff filter_empty_conv)

text \<open>The mailbox of a peer in the order of the other sides.\<close>

definition sorted_mailbox :: "int \<Rightarrow> pq_db \<Rightarrow> (int \<times> exchange) list" where
  "sorted_mailbox self db = sort_key fst (mailbox_of self db)"

lemma strict_sort_key:
  "distinct (map fst xs) \<Longrightarrow> sorted_wrt (<) (map fst (sort_key fst (xs :: (int \<times> 'a) list)))"
proof -
  assume "distinct (map fst xs)"
  then have "distinct (map fst (sort_key fst xs))"
    by (metis distinct_map distinct_sort set_sort)
  moreover have "sorted (map fst (sort_key fst xs))" by simp
  ultimately show ?thesis by (simp add: strict_sorted_iff)
qed

lemma next_exchange_find:
  "next_exchange self after db = List.find (\<lambda>(i, e). i > after) (sorted_mailbox self db)"
proof -
  have "sort_key fst (filter (\<lambda>(i, e). i > after) (mailbox_of self db)) = filter (\<lambda>(i, e). i > after) (sorted_mailbox self db)"
    by (simp add: sorted_mailbox_def filter_sort)
  moreover have "List.find P xs = (case filter P xs of [] \<Rightarrow> None | x # _ \<Rightarrow> Some x)" for P and xs :: "(int \<times> exchange) list"
    by (induction xs) auto
  ultimately show ?thesis by (simp add: next_exchange_def)
qed

text \<open>What a walk still has to deliver from a position on, and what of it a page contains.\<close>

definition peers_left :: "(int \<times> peer) list \<Rightarrow> page_state \<Rightarrow> (int \<times> peer) list" where
  "peers_left peers st = (if ps_stage st = 0 then filter (\<lambda>(i, p). i > ps_after st) peers else [])"

definition cidrs_left :: "pq_db \<Rightarrow> page_state \<Rightarrow> (int \<times> cidr) list" where
  "cidrs_left db st = (if ps_stage st = 0 then filter (\<lambda>(i, c). i > 0) (db_cidrs db)
     else if ps_stage st = 1 then filter (\<lambda>(i, c). i > ps_after st) (db_cidrs db) else [])"

definition exchanges_left :: "int \<Rightarrow> pq_db \<Rightarrow> page_state \<Rightarrow> (int \<times> exchange) list" where
  "exchanges_left self db st = (if ps_stage st < 2 then filter (\<lambda>(i, e). i > 0) (sorted_mailbox self db)
     else if ps_stage st = 2 then filter (\<lambda>(i, e). i > ps_after st) (sorted_mailbox self db) else [])"

definition peer_entry ::
    "page_lib \<Rightarrow> (string \<Rightarrow> host_port option) \<Rightarrow> pq_db \<Rightarrow> int \<times> peer \<Rightarrow> ((int \<times> peer) \<times> bool \<times> advertised_bundle option) sres" where
  "peer_entry P endpoints db = (\<lambda>(i, p).
     bindR (stored_bundle (ml_crypto (pl_mail P)) i db) (\<lambda>advertised.
     bindR (is_server i db) (\<lambda>server. Ok ((i, inject_endpoint endpoints p), server, advertised))))"

definition may_exchange :: "page_lib \<Rightarrow> int \<Rightarrow> pq_db \<Rightarrow> int \<times> exchange \<Rightarrow> bool" where
  "may_exchange P self db x \<longleftrightarrow> pair_allowed (ml_net (pl_mail P)) self (fst x) db = Inr ()"

definition delivers ::
    "page_lib \<Rightarrow> (string \<Rightarrow> host_port option) \<Rightarrow> (int \<times> peer) list \<Rightarrow> int \<Rightarrow> pq_db \<Rightarrow> page_state \<Rightarrow> page_state \<Rightarrow> bool" where
  "delivers P endpoints peers self db st st' \<longleftrightarrow>
     (\<exists>ps es. peers_left peers st = ps @ peers_left peers st' \<and> mapR (peer_entry P endpoints db) ps = Inr es \<and>
        ps_peers st' = ps_peers st @ es) \<and>
     (\<exists>cs. cidrs_left db st = cs @ cidrs_left db st' \<and> ps_cidrs st' = ps_cidrs st @ cs) \<and>
     (\<exists>es. exchanges_left self db st = es @ exchanges_left self db st' \<and>
        ps_exchanges st' = ps_exchanges st @ map snd (filter (may_exchange P self db) es))"

lemma mapR_append: "mapR f xs = Inr ys \<Longrightarrow> mapR f xs' = Inr ys' \<Longrightarrow> mapR f (xs @ xs') = Inr (ys @ ys')"
  by (induction xs arbitrary: ys) (auto simp: res_simps)

lemma delivers_refl: "delivers P endpoints peers self db st st"
  by (auto simp: delivers_def intro!: exI [of _ "[]"])

lemma delivers_trans:
  assumes "delivers P endpoints peers self db a b" "delivers P endpoints peers self db b c"
  shows "delivers P endpoints peers self db a c"
proof -
  obtain ps es cs xs where ab: "peers_left peers a = ps @ peers_left peers b" "mapR (peer_entry P endpoints db) ps = Inr es"
    "ps_peers b = ps_peers a @ es" "cidrs_left db a = cs @ cidrs_left db b" "ps_cidrs b = ps_cidrs a @ cs"
    "exchanges_left self db a = xs @ exchanges_left self db b"
    "ps_exchanges b = ps_exchanges a @ map snd (filter (may_exchange P self db) xs)"
    using assms(1) unfolding delivers_def by blast
  obtain ps' es' cs' xs' where bc: "peers_left peers b = ps' @ peers_left peers c" "mapR (peer_entry P endpoints db) ps' = Inr es'"
    "ps_peers c = ps_peers b @ es'" "cidrs_left db b = cs' @ cidrs_left db c" "ps_cidrs c = ps_cidrs b @ cs'"
    "exchanges_left self db b = xs' @ exchanges_left self db c"
    "ps_exchanges c = ps_exchanges b @ map snd (filter (may_exchange P self db) xs')"
    using assms(2) unfolding delivers_def by blast
  show ?thesis
    unfolding delivers_def
    by (intro conjI exI [of _ "ps @ ps'"] exI [of _ "es @ es'"] exI [of _ "cs @ cs'"] exI [of _ "xs @ xs'"])
      (use ab bc mapR_append in auto)
qed

lemma stage_values [simp]: "\<not> (3 :: u64) < 2" "(3 :: u64) \<noteq> 0" "(3 :: u64) \<noteq> 2" "(3 :: u64) \<noteq> 1"
  by simp_all

text \<open>One round of the loop.\<close>

lemma delivers_next_stage:
  assumes "ps_stage st < 3" "pick_item P endpoints peers self db (ps_stage st) (ps_after st) = Inr NextStage"
  shows "delivers P endpoints peers self db st (next_stage st)"
  using stage_cases [OF assms(1)] assms(2) find_none [of "ps_after st" peers] find_none [of "ps_after st" "db_cidrs db"]
    find_none [of "ps_after st" "sorted_mailbox self db"]
  by (auto simp: pick_item_def delivers_def next_stage_def peers_left_def cidrs_left_def exchanges_left_def
      next_exchange_find filter_empty_conv split: option.splits sum.splits if_splits dest: peer_item_Ok)

lemma delivers_skip:
  assumes "ps_stage st < 3" "pick_item P endpoints peers self db (ps_stage st) (ps_after st) = Inr (Skip i)"
    "distinct (map fst (mailbox_of self db))"
  shows "delivers P endpoints peers self db st (st\<lparr>ps_after := i\<rparr>)"
proof -
  have two: "ps_stage st = 2"
    using stage_cases [OF assms(1)] assms(2) by (auto simp: pick_item_def split: option.splits dest: peer_item_Ok)
  with assms(2) obtain e err where e: "next_exchange self (ps_after st) db = Some (i, e)"
    "pair_allowed (ml_net (pl_mail P)) self i db = Inl err"
    by (auto simp: pick_item_def split: option.splits sum.splits if_splits)
  from find_splits [OF strict_sort_key [OF assms(3), folded sorted_mailbox_def] e(1) [unfolded next_exchange_find]] two e(2)
  show ?thesis
    by (auto simp: delivers_def peers_left_def cidrs_left_def exchanges_left_def may_exchange_def intro!: exI [of _ "[(i, e)]"])
qed

lemma delivers_item:
  assumes "ps_stage st < 3" "pick_item P endpoints peers self db (ps_stage st) (ps_after st) = Inr (Item i v m)"
    "distinct (map fst (mailbox_of self db))" "sorted_wrt (<) (map fst peers)" "sorted_wrt (<) (map fst (db_cidrs db))"
  shows "delivers P endpoints peers self db st (push_item i v m n st)"
  using stage_cases [OF assms(1)]
proof (elim disjE)
  assume z: "ps_stage st = 0"
  with assms(2) obtain j p where p: "List.find (\<lambda>(i, x). i > ps_after st) peers = Some (j, p)"
    "peer_item P endpoints db (j, p) = Inr (Item i v m)"
    by (auto simp: pick_item_def split: option.splits)
  from peer_item_Ok [OF p(2)] obtain advertised server where v: "j = i" "v = VPeer i (inject_endpoint endpoints p) server advertised"
    "stored_bundle (ml_crypto (pl_mail P)) i db = Inr advertised" "is_server i db = Inr server" by auto
  from find_splits [OF assms(4) p(1)] v z show ?thesis
    by (auto simp: delivers_def peers_left_def cidrs_left_def exchanges_left_def push_item_def peer_entry_def
        intro!: exI [of _ "[(i, p)]"])
next
  assume one: "ps_stage st = 1"
  with assms(2) obtain c where c: "List.find (\<lambda>(i, c). i > ps_after st) (db_cidrs db) = Some (i, c)" "v = VCidr i c"
    by (auto simp: pick_item_def split: option.splits)
  from find_splits [OF assms(5) c(1)] c one show ?thesis
    by (auto simp: delivers_def peers_left_def cidrs_left_def exchanges_left_def push_item_def intro!: exI [of _ "[(i, c)]"])
next
  assume two: "ps_stage st = 2"
  with assms(2) obtain e where e: "next_exchange self (ps_after st) db = Some (i, e)"
    "pair_allowed (ml_net (pl_mail P)) self i db = Inr ()" "v = VExchange e"
    by (auto simp: pick_item_def split: option.splits sum.splits if_splits)
  from find_splits [OF strict_sort_key [OF assms(3), folded sorted_mailbox_def] e(1) [unfolded next_exchange_find]] two e(2,3)
  show ?thesis
    by (auto simp: delivers_def peers_left_def cidrs_left_def exchanges_left_def may_exchange_def push_item_def intro!: exI [of _ "[(i, e)]"])
qed

section \<open>The loop over the stages\<close>

declare page_loop.simps [simp del]

definition left :: "(int \<times> peer) list \<Rightarrow> int \<Rightarrow> pq_db \<Rightarrow> page_state \<Rightarrow> nat" where
  "left peers self db st =
     length (peers_left peers st) + length (cidrs_left db st) + length (exchanges_left self db st)"

text \<open>What \<^verbatim>\<open>page\<close> may assume of the rows: each listing is in the order of its identifiers, once each.\<close>

definition listed :: "(int \<times> peer) list \<Rightarrow> int \<Rightarrow> pq_db \<Rightarrow> bool" where
  "listed peers self db \<longleftrightarrow> sorted_wrt (<) (map fst peers) \<and> sorted_wrt (<) (map fst (db_cidrs db)) \<and>
     distinct (map fst (mailbox_of self db))"

text \<open>The limits of a page: entries, bytes of bundles and records, and bytes in all.\<close>

definition page_fits :: "page_state \<Rightarrow> bool" where
  "page_fits st \<longleftrightarrow> ps_stage st \<le> 3 \<and> ps_count st \<le> 32 \<and> ps_pq_bytes st \<le> 131072 \<and> ps_total_bytes st \<le> 1048576 \<and>
     ps_count st = length (ps_peers st) + length (ps_cidrs st) + length (ps_exchanges st)"

lemma delivers_left: "delivers P endpoints peers self db st st' \<Longrightarrow> left peers self db st' \<le> left peers self db st"
  by (auto simp: delivers_def left_def)

lemma push_item_counts:
  "ps_pq_bytes (push_item i v m n st) = ps_pq_bytes st + m" "ps_total_bytes (push_item i v m n st) = ps_total_bytes st + n"
  "length (ps_peers (push_item i v m n st)) + length (ps_cidrs (push_item i v m n st)) + length (ps_exchanges (push_item i v m n st))
     = Suc (length (ps_peers st) + length (ps_cidrs st) + length (ps_exchanges st))"
  by (auto simp: push_item_def split: page_value.splits)

lemma item_left:
  assumes "ps_stage st < 3" "pick_item P endpoints peers self db (ps_stage st) (ps_after st) = Inr (Item i v m)" "listed peers self db"
  shows "left peers self db (push_item i v m n st) < left peers self db st"
proof -
  have "delivers P endpoints peers self db st (push_item i v m n st)"
    using assms by (intro delivers_item) (simp_all add: listed_def)
  moreover have "length (ps_peers (push_item i v m n st)) + length (ps_cidrs (push_item i v m n st)) + length (ps_exchanges (push_item i v m n st))
      \<le> length (ps_peers st) + length (ps_cidrs st) + length (ps_exchanges st) +
        (left peers self db st - left peers self db (push_item i v m n st))"
    if "delivers P endpoints peers self db st (push_item i v m n st)"
  proof -
    have counts: "mapR f xs = Inr ys \<Longrightarrow> length ys = length xs"
      for f :: "int \<times> peer \<Rightarrow> ((int \<times> peer) \<times> bool \<times> advertised_bundle option) sres" and xs ys
      by (induction xs arbitrary: ys) (auto simp: res_simps)
    from that show ?thesis
      unfolding delivers_def left_def
      by (elim conjE exE) (simp add: counts le_add1 add.commute le_diff_conv length_filter_le trans_le_add1)
  qed
  ultimately show ?thesis using push_item_counts(3) [of i v m n st] by simp
qed

lemma page_loop_run:
  assumes "page_loop P endpoints peers self db st = Inr st'" "listed peers self db" "page_fits st"
  shows "delivers P endpoints peers self db st st' \<and> page_fits st' \<and>
    left peers self db st' + ps_count st' \<le> left peers self db st + ps_count st \<and>
    (ps_stage st' < 3 \<longrightarrow> 0 < ps_count st')"
  using assms
proof (induction P endpoints peers self db st rule: page_loop.induct)
  case (1 P endpoints peers self db st)
  show ?case
  proof (cases "ps_stage st < 3 \<and> ps_count st < 32")
    case False
    then have "st' = st" using "1.prems"(1) by (simp add: page_loop.simps)
    then show ?thesis using False "1.prems"(3) by (auto simp: delivers_refl page_fits_def)
  next
    case here: True
    then obtain k where k: "pick_item P endpoints peers self db (ps_stage st) (ps_after st) = Inr k"
      using "1.prems"(1) by (subst (asm) page_loop.simps) (auto split: sum.splits)
    have step: "?thesis" if "delivers P endpoints peers self db st u" "page_fits u"
      "left peers self db u + ps_count u \<le> left peers self db st + ps_count st"
      "page_loop P endpoints peers self db u = Inr st'"
      "page_loop P endpoints peers self db u = Inr st' \<Longrightarrow> listed peers self db \<Longrightarrow> page_fits u \<Longrightarrow>
        delivers P endpoints peers self db u st' \<and> page_fits st' \<and>
        left peers self db st' + ps_count st' \<le> left peers self db u + ps_count u \<and> (ps_stage st' < 3 \<longrightarrow> 0 < ps_count st')" for u
      using that(5) [OF that(4) "1.prems"(2) that(2)] that(1,3) delivers_trans by fastforce
    show ?thesis
    proof (cases k)
      case NextStage
      have "page_loop P endpoints peers self db (next_stage st) = Inr st'"
        using "1.prems"(1) here k NextStage by (subst (asm) page_loop.simps) simp
      moreover have "delivers P endpoints peers self db st (next_stage st)"
        using delivers_next_stage here k NextStage by simp
      moreover have "page_fits (next_stage st)"
        using "1.prems"(3) stage_cases [of "ps_stage st"] here by (auto simp: page_fits_def next_stage_def)
      ultimately show ?thesis
        using "1.IH"(1) here k NextStage delivers_left by (intro step) (auto simp: next_stage_def)
    next
      case (Skip i)
      have "page_loop P endpoints peers self db (st\<lparr>ps_after := i\<rparr>) = Inr st'"
        using "1.prems"(1) here k Skip by (subst (asm) page_loop.simps) simp
      moreover have "delivers P endpoints peers self db st (st\<lparr>ps_after := i\<rparr>)"
        using delivers_skip here k Skip "1.prems"(2) by (simp add: listed_def)
      moreover have "page_fits (st\<lparr>ps_after := i\<rparr>)" using "1.prems"(3) by (simp add: page_fits_def)
      ultimately show ?thesis
        using "1.IH"(2) here k Skip delivers_left by (intro step) (auto simp: next_stage_def)
    next
      case (Item i v m)
      from "1.prems"(1) here k Item obtain len where len: "pl_value_len P v = Some len"
        by (subst (asm) page_loop.simps) (auto split: option.splits)
      show ?thesis
      proof (cases "ps_pq_bytes st + m > 128 * 1024 \<or> ps_total_bytes st + (len + 1) > 1024 * 1024")
        case True
        then have "st' = st \<and> ps_count st \<noteq> 0"
          using "1.prems"(1) here k Item len by (subst (asm) page_loop.simps) (auto split: if_splits)
        then show ?thesis using "1.prems"(3) by (auto simp: delivers_refl)
      next
        case fits: False
        have "page_loop P endpoints peers self db (push_item i v m (len + 1) st) = Inr st'"
          using "1.prems"(1) here k Item len fits by (subst (asm) page_loop.simps) simp
        moreover have "delivers P endpoints peers self db st (push_item i v m (len + 1) st)"
          using delivers_item here k Item "1.prems"(2) by (simp add: listed_def)
        moreover have "page_fits (push_item i v m (len + 1) st)"
          using "1.prems"(3) fits here push_item_counts [of i v m "len + 1" st] by (simp add: page_fits_def)
        moreover have "left peers self db (push_item i v m (len + 1) st) < left peers self db st"
          using here k Item "1.prems"(2) by (intro item_left) simp_all
        ultimately show ?thesis
          using "1.IH"(3) here k Item len fits by (intro step) auto
      qed
    qed
  qed
qed

section \<open>Pages that succeed\<close>

text \<open>Every entry fits on a page of its own and names a row that can be read; identifiers are rows'
  identifiers.\<close>

definition row_id :: "int \<Rightarrow> bool" where
  "row_id i \<longleftrightarrow> i < i64_bound"

definition fits_alone :: "page_lib \<Rightarrow> page_value \<Rightarrow> nat \<Rightarrow> bool" where
  "fits_alone P v n \<longleftrightarrow> n \<le> 130560 \<and> (\<exists>len \<le> 1048063. pl_value_len P v = Some len)"

definition servable ::
    "page_lib \<Rightarrow> (string \<Rightarrow> host_port option) \<Rightarrow> (int \<times> peer) list \<Rightarrow> int \<Rightarrow> pq_db \<Rightarrow> bool" where
  "servable P endpoints peers self db \<longleftrightarrow>
     (\<forall>x \<in> set peers. row_id (fst x) \<and> (\<exists>v n. peer_item P endpoints db x = Inr (Item (fst x) v n) \<and> fits_alone P v n)) \<and>
     (\<forall>x \<in> set (db_cidrs db). row_id (fst x) \<and> fits_alone P (VCidr (fst x) (snd x)) 0) \<and>
     (\<forall>x \<in> set (mailbox_of self db). row_id (fst x) \<and>
        (case pair_allowed (ml_net (pl_mail P)) self (fst x) db of
           Inr _ \<Rightarrow> fits_alone P (VExchange (snd x)) (ml_record_len (pl_mail P) (snd x))
         | Inl err \<Rightarrow> err \<in> {SUnauthorized, SNotFound}))"

lemma servable_pick:
  assumes "servable P endpoints peers self db" "stage < 3"
  shows "\<exists>k. pick_item P endpoints peers self db stage after = Inr k \<and>
    (\<forall>i v n. k = Item i v n \<longrightarrow> fits_alone P v n) \<and> (\<forall>i v n. k = Item i v n \<or> k = Skip i \<longrightarrow> row_id i)"
  using stage_cases [OF assms(2)]
proof (elim disjE)
  assume z: "stage = 0"
  show ?thesis
  proof (cases "List.find (\<lambda>(i, p). i > after) peers")
    case (Some x)
    obtain i p where x: "x = (i, p)" by (cases x)
    with Some find_later have "(i, p) \<in> set peers" by fastforce
    with assms(1) have "row_id i" "\<exists>v n. peer_item P endpoints db (i, p) = Inr (Item i v n) \<and> fits_alone P v n"
      unfolding servable_def by force+
    with Some x z show ?thesis by (auto simp: pick_item_def)
  qed (use z in \<open>simp add: pick_item_def\<close>)
next
  assume one: "stage = 1"
  show ?thesis
  proof (cases "List.find (\<lambda>(i, c). i > after) (db_cidrs db)")
    case (Some x)
    obtain i c where x: "x = (i, c)" by (cases x)
    with Some find_later have "(i, c) \<in> set (db_cidrs db)" by fastforce
    with assms(1) have "row_id i \<and> fits_alone P (VCidr i c) 0" unfolding servable_def by force
    with Some x one show ?thesis by (simp add: pick_item_def)
  qed (use one in \<open>simp add: pick_item_def\<close>)
next
  assume two: "stage = 2"
  show ?thesis
  proof (cases "next_exchange self after db")
    case (Some x)
    obtain i e where x: "x = (i, e)" by (cases x)
    with Some next_exchange_later have "(i, e) \<in> set (mailbox_of self db)" by fastforce
    with assms(1) have "row_id (fst (i, e)) \<and> (case pair_allowed (ml_net (pl_mail P)) self (fst (i, e)) db of
           Inr _ \<Rightarrow> fits_alone P (VExchange (snd (i, e))) (ml_record_len (pl_mail P) (snd (i, e)))
         | Inl err \<Rightarrow> err \<in> {SUnauthorized, SNotFound})" unfolding servable_def by blast
    then show ?thesis using Some x two
      by (cases "pair_allowed (ml_net (pl_mail P)) self i db") (auto simp: pick_item_def)
  qed (use two in \<open>simp add: pick_item_def\<close>)
qed

lemma next_stage_fields [simp]:
  "ps_count (next_stage st) = ps_count st" "ps_pq_bytes (next_stage st) = ps_pq_bytes st"
  "ps_total_bytes (next_stage st) = ps_total_bytes st"
  "ps_after (next_stage st) = (if ps_stage st < 2 then 0 else ps_after st)"
  by (simp_all add: next_stage_def)

lemma page_loop_total:
  assumes "servable P endpoints peers self db"
    and "ps_count st = 0 \<Longrightarrow> ps_pq_bytes st = 512 \<and> ps_total_bytes st = 512"
    and "0 \<le> ps_after st \<and> row_id (ps_after st)"
  shows "\<exists>st'. page_loop P endpoints peers self db st = Inr st' \<and> 0 \<le> ps_after st' \<and> row_id (ps_after st')"
  using assms
proof (induction P endpoints peers self db st rule: page_loop.induct)
  case (1 P endpoints peers self db st)
  show ?case
  proof (cases "ps_stage st < 3 \<and> ps_count st < 32")
    case here: True
    obtain k where k: "pick_item P endpoints peers self db (ps_stage st) (ps_after st) = Inr k"
      "\<forall>i v n. k = Item i v n \<longrightarrow> fits_alone P v n" "\<forall>i v n. k = Item i v n \<or> k = Skip i \<longrightarrow> row_id i"
      using servable_pick [OF "1.prems"(1)] here by blast
    show ?thesis
    proof (cases k)
      case NextStage
      have "\<exists>st'. page_loop P endpoints peers self db (next_stage st) = Inr st' \<and> 0 \<le> ps_after st' \<and> row_id (ps_after st')"
        using "1.prems" by (intro "1.IH"(1) [OF _ k(1) NextStage])
          (use here in \<open>auto simp: row_id_def i64_bound_def\<close>)
      then show ?thesis using here k(1) NextStage by (subst page_loop.simps) simp
    next
      case (Skip i)
      have "i > ps_after st" using pick_later [OF k(1), of i] Skip by blast
      with k(3) Skip "1.prems" have "\<exists>st'. page_loop P endpoints peers self db (st\<lparr>ps_after := i\<rparr>) = Inr st' \<and>
          0 \<le> ps_after st' \<and> row_id (ps_after st')"
        by (intro "1.IH"(2) [OF _ k(1) Skip]) (use here in auto)
      then show ?thesis using here k(1) Skip by (subst page_loop.simps) simp
    next
      case (Item i v m)
      have later: "i > ps_after st" using pick_later [OF k(1), of i v m] Item by blast
      from k(2) Item obtain len where fits: "m \<le> 130560" "len \<le> 1048063" and len: "pl_value_len P v = Some len"
        by (auto simp: fits_alone_def)
      show ?thesis
      proof (cases "ps_pq_bytes st + m > 128 * 1024 \<or> ps_total_bytes st + (len + 1) > 1024 * 1024")
        case True
        have "ps_count st \<noteq> 0"
        proof
          assume "ps_count st = 0"
          from "1.prems"(2) [OF this] True fits show False by simp
        qed
        then show ?thesis using here k(1) Item len True "1.prems"(3) by (subst page_loop.simps) auto
      next
        case False
        have "\<exists>st'. page_loop P endpoints peers self db (push_item i v m (len + 1) st) = Inr st' \<and>
            0 \<le> ps_after st' \<and> row_id (ps_after st')"
          using later k(3) Item "1.prems" by (intro "1.IH"(3) [OF _ k(1) Item len False]) (use here in auto)
        then show ?thesis using here k(1) Item len False by (subst page_loop.simps) simp
      qed
    qed
  qed (use "1.prems"(3) in \<open>simp add: page_loop.simps\<close>)
qed

section \<open>A page of a database at rest\<close>

text \<open>A database on which a peer's requests change nothing: the service is ready, nothing is left to
  sweep, and the rows of the directory can be read.\<close>

definition at_rest ::
    "page_lib \<Rightarrow> u64 \<Rightarrow> int \<Rightarrow> string \<Rightarrow> bytes \<Rightarrow> int \<Rightarrow> number \<Rightarrow> (int \<times> peer) list \<Rightarrow> pq_db \<Rightarrow> bool" where
  "at_rest P now self public_key nid revision visibility peers db \<longleftrightarrow>
     ready db \<and> sweep_inner (pl_mail P) now db = (Inr (), db) \<and> network db = Inr (nid, revision) \<and>
     number_new (word_of_int revision) = Inr visibility \<and>
     (\<exists>me. caller (ml_net (pl_mail P)) self public_key db = Inr me \<and>
        get_all_allowed_peers (ml_net (pl_mail P)) me db = Inr peers)"

definition signs :: "mail_lib \<Rightarrow> bytes \<Rightarrow> bool" where
  "signs M key \<longleftrightarrow> base64_law (nl_base64 (ml_net M)) \<and> (\<forall>bs. \<exists>tag. hmac_tag (ml_crypto M) key bs = Inr tag \<and> length tag = 32)"

text \<open>A cursor stands for a stage and the last identifier delivered.\<close>

definition at_cursor :: "mail_lib \<Rightarrow> bytes \<Rightarrow> int \<Rightarrow> int \<Rightarrow> string option \<Rightarrow> u64 \<Rightarrow> int \<Rightarrow> bool" where
  "at_cursor M key self revision cursor stage after \<longleftrightarrow> stage \<le> 2 \<and> 0 \<le> after \<and> row_id after \<and>
     (case cursor of None \<Rightarrow> stage = 0 \<and> after = 0
      | Some c \<Rightarrow> encode_cursor M key (word_of_int self, word_of_int revision, stage, word_of_int after) = Inr c)"

lemma word_row_id: "0 \<le> i \<Longrightarrow> row_id i \<Longrightarrow> uint (word_of_int i :: u64) = i \<and> (word_of_int i :: u64) \<le> i64_max"
  by (simp add: row_id_def i64_bound_def i64_max_def word_le_def unsigned_of_int take_bit_int_eq_self)

lemma at_cursor_decode:
  assumes "signs M key" "at_cursor M key self revision cursor stage after"
  shows "(case cursor of None \<Rightarrow> Ok (0, 0)
     | Some c \<Rightarrow> decode_cursor M key c (word_of_int self) (word_of_int revision)) = Inr (stage, after)"
proof (cases cursor)
  case (Some c)
  have tags: "hmac_tag (ml_crypto M) key bs = Inr tag \<Longrightarrow> length tag = 32" for bs tag
    using assms(1) unfolding signs_def by (metis sum.inject(2))
  have "stage \<le> 2 \<and> (\<exists>last \<le> i64_max. after = uint last \<and>
      encode_cursor M key (word_of_int self, word_of_int revision, stage, last) = Inr c)"
    using assms(2) Some word_row_id [of after] unfolding at_cursor_def by auto
  with assms(1) tags Some show ?thesis by (simp add: decode_cursor_iff signs_def)
qed (use assms(2) in \<open>simp add: at_cursor_def\<close>)

lemma encode_cursor_total: "signs M key \<Longrightarrow> \<exists>c. encode_cursor M key vals = Inr c"
  unfolding signs_def encode_cursor_def by (metis bindR_simps(2) map_err_simps(2))

lemma page_at_rest:
  assumes rest: "at_rest P now self public_key nid revision visibility peers db"
    and key: "signs (pl_mail P) key" and serve: "servable P endpoints (sort_key fst peers) self db"
    and cursor: "at_cursor (pl_mail P) key self revision cursor stage after"
  obtains st pg where "page P endpoints key now self public_key cursor db = (Inr pg, db)"
    "page_loop P endpoints (sort_key fst peers) self db (first_state stage after) = Inr st"
    "pg_version pg = 1" "pg_network_id pg = nid" "pg_visibility_revision pg = visibility"
    "pg_peers pg = ps_peers st" "pg_cidrs pg = ps_cidrs st" "pg_exchanges pg = ps_exchanges st"
    "if ps_stage st < 3 then \<exists>c. pg_next_cursor pg = Some c \<and>
       at_cursor (pl_mail P) key self revision (Some c) (ps_stage st) (ps_after st)
     else pg_next_cursor pg = None"
proof -
  have pos: "0 \<le> after \<and> row_id after" using cursor by (simp add: at_cursor_def)
  obtain st where st: "page_loop P endpoints (sort_key fst peers) self db (first_state stage after) = Inr st"
    "0 \<le> ps_after st" "row_id (ps_after st)"
    using page_loop_total [OF serve, of "first_state stage after"] pos by (auto simp: first_state_def)
  obtain c where c: "encode_cursor (pl_mail P) key
      (word_of_int self, word_of_int revision, ps_stage st, word_of_int (ps_after st)) = Inr c"
    using encode_cursor_total [OF key] by blast
  let ?pg = "\<lparr>pg_version = 1, pg_network_id = nid, pg_visibility_revision = visibility,
      pg_peers = ps_peers st, pg_cidrs = ps_cidrs st, pg_exchanges = ps_exchanges st,
      pg_next_cursor = (if ps_stage st < 3 then Some c else None)\<rparr>"
  have of: "page_of P key self nid revision visibility st = Inr ?pg"
    using c by (simp add: page_of_def)
  have "page P endpoints key now self public_key cursor db = (Inr ?pg, db)"
  proof -
    from rest obtain me where me: "caller (ml_net (pl_mail P)) self public_key db = Inr me"
      "get_all_allowed_peers (ml_net (pl_mail P)) me db = Inr peers"
      and at: "ready db" "sweep_inner (pl_mail P) now db = (Inr (), db)" "network db = Inr (nid, revision)"
      and "number_new (word_of_int revision) = Inr visibility"
      unfolding at_rest_def by blast
    then have num: "map_err SPq (number_new (word_of_int revision)) = Inr visibility" by (simp only: map_err_simps)
    show ?thesis
      by (simp add: page_def transaction_def bindS_def askS_def me at num at_cursor_decode [OF key cursor] st(1) of
          del: map_err_iff)
  qed
  moreover have "at_cursor (pl_mail P) key self revision (Some c) (ps_stage st) (ps_after st)" if "ps_stage st < 3"
    using that st c stage_cases [OF that] by (auto simp: at_cursor_def)
  ultimately show ?thesis using st(1) by (intro that [of ?pg st]) simp_all
qed

end
