(* ===== verification/Sync.thy ===== *)
theory Sync
  imports Pages Engine Store
begin

text \<open>
  One cycle of a client (\<^verbatim>\<open>client-core/src/rest_client.rs\<close>, \<^verbatim>\<open>client-core/src/pq_sync.rs\<close>): the
  requests to the coordinating server, the first registration, the walk over the pages of the
  state, and one step of every visible relationship, saved before it is sent. The HTTP agent,
  JSON and the percent-encoding of cursors are parameters.
\<close>

section \<open>The REST client\<close>

datatype send_failure =
    StatusCode u16 | SendIo | SendTimeout | HostNotFound | ConnectionFailed | ProtocolFailure | SendOther

datatype rest_error = RequestBuild | RequestSend send_failure | RequestSerialize | ResponseDeserialize | ResponseRead

definition has_status_of :: "u16 \<Rightarrow> rest_error \<Rightarrow> bool" where
  "has_status_of code e = (case e of RequestSend (StatusCode s) \<Rightarrow> s = code | _ \<Rightarrow> False)"

definition is_transport_error :: "rest_error \<Rightarrow> bool" where
  "is_transport_error e =
     (case e of RequestSend f \<Rightarrow> f \<in> {SendIo, SendTimeout, HostNotFound, ConnectionFailed, ProtocolFailure} | _ \<Rightarrow> False)"

record http_request =
  hq_method :: string
  hq_uri :: string
  hq_headers :: "(string \<times> string) list"
  hq_payload :: string

text \<open>A request that cannot be built, the exchange itself, and a body that cannot be read.\<close>

record 't agent =
  ag_builds :: "http_request \<Rightarrow> bool"
  ag_run :: "http_request \<Rightarrow> ('t, send_failure, string option) comp"

record server_info =
  si_internal_endpoint :: string
  si_public_key :: string

record json_lib =
  js_page :: "string \<Rightarrow> server_page option"
  js_exchange :: "string \<Rightarrow> exchange option"
  js_advertised :: "string \<Rightarrow> advertised_bundle option"
  js_registration :: "registration \<Rightarrow> string option"
  js_message :: "message \<Rightarrow> string option"
  js_percent :: "string \<Rightarrow> string"

record 't rest_client =
  rc_agent :: "'t agent"
  rc_server :: server_info
  rc_json :: json_lib

text \<open>An error of a callee, as the caller's error.\<close>

definition errS :: "('e \<Rightarrow> 'f) \<Rightarrow> ('s, 'e, 'a) comp \<Rightarrow> ('s, 'f, 'a) comp" where
  "errS f m s = (case m s of (r, t) \<Rightarrow> (map_err f r, t))"

text \<open>\<^verbatim>\<open>RestClient::request\<close>; a form is the result of its serialization.\<close>

definition rest_request ::
    "'t rest_client \<Rightarrow> string \<Rightarrow> string \<Rightarrow> string option option \<Rightarrow> (string \<Rightarrow> 'a option) \<Rightarrow> ('t, rest_error, 'a) comp" where
  "rest_request R verb path form parse =
     bindS (liftS (case form of None \<Rightarrow> Ok [] | Some text \<Rightarrow> ok_or text RequestSerialize)) (\<lambda>payload.
     let request = \<lparr>hq_method = verb,
           hq_uri = ''http://'' @ si_internal_endpoint (rc_server R) @ ''/v1'' @ path,
           hq_headers = [(''X-Innernet-Server-Key'', si_public_key (rc_server R)), (''content-type'', ''application/json'')],
           hq_payload = payload\<rparr> in
     bindS (liftS (guardR (ag_builds (rc_agent R) request) RequestBuild)) (\<lambda>_.
     bindS (errS RequestSend (ag_run (rc_agent R) request)) (\<lambda>response.
     bindS (liftS (ok_or response ResponseRead)) (\<lambda>body.
     liftS (ok_or (parse (if body = [] then ''null'' else body)) ResponseDeserialize)))))"

definition http :: "'t rest_client \<Rightarrow> string \<Rightarrow> string \<Rightarrow> (string \<Rightarrow> 'a option) \<Rightarrow> ('t, rest_error, 'a) comp" where
  "http R verb path parse = rest_request R verb path None parse"

definition http_form ::
    "'t rest_client \<Rightarrow> string \<Rightarrow> string \<Rightarrow> string option \<Rightarrow> (string \<Rightarrow> 'a option) \<Rightarrow> ('t, rest_error, 'a) comp" where
  "http_form R verb path form parse = rest_request R verb path (Some form) parse"

section \<open>The transport\<close>

text \<open>The error carries nothing the callers look at.\<close>

datatype transport_error = TConflict | TOther

record 't transport =
  tp_get :: "string option \<Rightarrow> ('t, transport_error, server_page) comp"
  tp_put :: "number \<Rightarrow> u8 \<Rightarrow> message \<Rightarrow> ('t, transport_error, exchange) comp"

definition rest_error :: "rest_error \<Rightarrow> transport_error" where
  "rest_error e = (if has_status_of 409 e then TConflict else TOther)"

definition cursor_query :: "json_lib \<Rightarrow> string \<Rightarrow> string" where
  "cursor_query J cursor = ''/user/state?pq_version=1&cursor='' @ js_percent J cursor"

definition rest_transport :: "'t rest_client \<Rightarrow> 't transport" where
  "rest_transport R =
     \<lparr>tp_get = \<lambda>cursor. errS rest_error (http R ''GET''
        (case cursor of Some c \<Rightarrow> cursor_query (rc_json R) c | None \<Rightarrow> ''/user/state?pq_version=1'') (js_page (rc_json R))),
      tp_put = \<lambda>other phase m. errS rest_error (http_form R ''PUT''
        (''/user/pq-handshake/'' @ dec_of_nat (unat (num_get other)) @ ''?phase='' @ dec_of_nat (unat phase))
        (js_message (rc_json R) m) (js_exchange (rc_json R)))\<rparr>"

section \<open>Registration\<close>

datatype sync_error =
    SyRest rest_error | SyMissing | SyPq pq_error | SyStore store_error | SyFetch

text \<open>The parts of a first activation that a call may change.\<close>

record ('t, 'r) activation =
  av_transport :: 't
  av_rng :: 'r
  av_world :: world

definition on_transport :: "('t, 'e, 'a) comp \<Rightarrow> (('t, 'r) activation, 'e, 'a) comp" where
  "on_transport m s = (case m (av_transport s) of (x, t) \<Rightarrow> (x, s\<lparr>av_transport := t\<rparr>))"

definition on_rng_of :: "('r, 'e, 'a) comp \<Rightarrow> (('t, 'r) activation, 'e, 'a) comp" where
  "on_rng_of m s = (case m (av_rng s) of (x, g) \<Rightarrow> (x, s\<lparr>av_rng := g\<rparr>))"

definition on_world :: "(world, 'e, 'a) comp \<Rightarrow> (('t, 'r) activation, 'e, 'a) comp" where
  "on_world m s = (case m (av_world s) of (x, w) \<Rightarrow> (x, s\<lparr>av_world := w\<rparr>))"

definition new_endpoint :: "bytes \<Rightarrow> number \<Rightarrow> number \<Rightarrow> identity \<Rightarrow> management_link \<Rightarrow> endpoint" where
  "new_endpoint network_id self_id server_id identity management =
     \<lparr>ep_network_id = network_id, ep_peer_id = self_id, ep_server_id = server_id,
      ep_server_public_key = replicate 32 0, ep_policy = PolStrict, ep_identity = identity,
      ep_enrollment = EnAdvertised,
      ep_registration = \<lparr>rg_expected_revision = None, rg_version = 1, rg_lifecycle = LEnabled,
        rg_bundle = id_bundle identity, rg_emergency = False\<rparr>,
      ep_management = management, ep_relationships = []\<rparr>"

definition register_endpoint ::
    "crypto_lib \<Rightarrow> base64 \<Rightarrow> 'r random_source \<Rightarrow> 't rest_client \<Rightarrow> bytes \<Rightarrow> (('t, 'r) activation, sync_error, endpoint) comp" where
  "register_endpoint C B fill R own =
     bindS (on_transport (errS SyRest (http R ''GET'' ''/user/state?pq_version=1'' (js_page (rc_json R))))) (\<lambda>page.
     bindS (liftS (ok_or (List.find (\<lambda>((i, p), server, pq). pe_public_key p = b64_encode B own) (pg_peers page)) SyMissing)) (\<lambda>me.
     bindS (liftS (ok_or (List.find (\<lambda>((i, p), server, pq). server) (pg_peers page)) SyMissing)) (\<lambda>server_entry.
     bindS (liftS (map_err (\<lambda>_. SyMissing) (number_new (word_of_int (fst (fst me)))))) (\<lambda>self_id.
     bindS (liftS (map_err (\<lambda>_. SyMissing) (number_new (word_of_int (fst (fst server_entry)))))) (\<lambda>server_id.
     bindS (liftS (map_err (\<lambda>_. SyMissing) (number_new 1))) (\<lambda>revision.
     bindS (on_rng_of (errS SyPq (identity_generate C fill own revision))) (\<lambda>identity.
     bindS (on_rng_of (errS SyPq (link_generate fill))) (\<lambda>management.
     let state = new_endpoint (pg_network_id page) self_id server_id identity management in
     bindS (on_transport (errS SyRest (http_form R ''PUT'' ''/user/pq-keys''
        (js_registration (rc_json R) (ep_registration state)) (js_advertised (rc_json R))))) (\<lambda>_.
     retS state)))))))))"

text \<open>\<^verbatim>\<open>open_or_register\<close>, after \<^verbatim>\<open>Store::open\<close> has made the handle of \<open>av_world\<close>.\<close>

definition open_or_register ::
    "crypto_lib \<Rightarrow> base64 \<Rightarrow> endpoint envelope_lib \<Rightarrow> store_env \<Rightarrow> 'r random_source \<Rightarrow> 't rest_client \<Rightarrow> bytes \<Rightarrow> bool
      \<Rightarrow> (('t, 'r) activation, sync_error, endpoint) comp" where
  "open_or_register C B J E fill R own permissive =
     bindS (getS (\<lambda>s. st_fresh (wd_store (av_world s)))) (\<lambda>fresh.
     bindS (if fresh
        then bindS (register_endpoint C B fill R own) (\<lambda>state.
             bindS (on_world (errS SyStore (store_save J E state))) (\<lambda>_. retS state))
        else on_world (errS SyStore (load J E))) (\<lambda>state.
     retS (state\<lparr>ep_policy := (if permissive then PolPermissive else PolStrict)\<rparr>)))"

definition submit_pending_registration :: "'t rest_client \<Rightarrow> ('t \<times> endpoint, sync_error, unit) comp" where
  "submit_pending_registration R = (\<lambda>(t, ep).
     if \<not> (ep_enrollment ep = EnRegistering \<or> ep_enrollment ep = EnRetiring) then (Ok (), (t, ep))
     else
       (case http_form R ''PUT''
            (if rg_lifecycle (ep_registration ep) = LRetired then ''/user/pq-keys?retire=1'' else ''/user/pq-keys'')
            (js_registration (rc_json R) (ep_registration ep)) (js_advertised (rc_json R)) t of
          (Inl e, t') \<Rightarrow> (Err (SyRest e), (t', ep))
        | (Inr response, t') \<Rightarrow>
            (case accept_registration response ep of
               Inl e \<Rightarrow> (Err (SyPq e), (t', ep))
             | Inr ep' \<Rightarrow> (Ok (), (t', ep')))))"

section \<open>Walking the state\<close>

type_synonym peer_state = "(int \<times> peer) \<times> bool \<times> advertised_bundle option"

text \<open>The loop may go on for ever, if the server keeps answering with conflicts: then it is \<open>None\<close>.\<close>

partial_function (option) fetch_pages ::
    "'t transport \<Rightarrow> peer_state list \<Rightarrow> exchange list \<Rightarrow> string option \<Rightarrow> 't
      \<Rightarrow> ((sync_error + peer_state list \<times> exchange list) \<times> 't) option" where
  "fetch_pages T peers exchanges cursor t =
     (case tp_get T cursor t of
        (Inr pg, t') \<Rightarrow>
          (case pg_next_cursor pg of
             Some c \<Rightarrow> fetch_pages T (peers @ pg_peers pg) (exchanges @ pg_exchanges pg) (Some c) t'
           | None \<Rightarrow> Some (Ok (peers @ pg_peers pg, exchanges @ pg_exchanges pg), t'))
      | (Inl TConflict, t') \<Rightarrow> fetch_pages T [] [] None t'
      | (Inl TOther, t') \<Rightarrow> Some (Err SyFetch, t'))"

definition fetch_state :: "'t transport \<Rightarrow> 't \<Rightarrow> ((sync_error + peer_state list \<times> exchange list) \<times> 't) option" where
  "fetch_state T t = fetch_pages T [] [] None t"

section \<open>One cycle\<close>

definition exchange_for :: "exchange list \<Rightarrow> number \<Rightarrow> number \<Rightarrow> exchange option" where
  "exchange_for exchanges self_id other =
     List.find (\<lambda>e. (ex_initiator_id e = self_id \<and> ex_responder_id e = other) \<or>
       (ex_initiator_id e = other \<and> ex_responder_id e = self_id)) exchanges"

text \<open>The calls of a cycle that leave the process, with their results, in order.\<close>

datatype call =
    SaveCall endpoint "(store_error, unit) result"
  | PutCall number u8 message "(transport_error, exchange) result"

record ('t, 'i, 'r) cycle =
  cy_transport :: 't
  cy_world :: world
  cy_state :: endpoint
  cy_inst :: 'i
  cy_rng :: 'r
  cy_calls :: "call list"

text \<open>What a cycle is given. The file system and the entropy inside the cryptographic library differ
  from call to call, so they depend on the number of calls before.\<close>

record ('t, 'i, 'r) sync_lib =
  sl_crypto :: crypto_lib
  sl_base64 :: base64
  sl_envelope :: "endpoint envelope_lib"
  sl_env :: "nat \<Rightarrow> store_env"
  sl_fill :: "'r random_source"
  sl_entropy :: "nat \<Rightarrow> bytes"
  sl_installer :: "'i installer"
  sl_transport :: "'t transport"

record sync_args =
  sa_now :: u64
  sa_rotation_interval :: u64
  sa_idle_timeout :: u64
  sa_device :: "(bytes \<times> u64 \<times> u64) list option"

definition save_state :: "('t, 'i, 'r) sync_lib \<Rightarrow> (('t, 'i, 'r) cycle, store_error, unit) comp" where
  "save_state L cy =
     (case store_save (sl_envelope L) (sl_env L (length (cy_calls cy))) (cy_state cy) (cy_world cy) of
        (r, w) \<Rightarrow> (r, cy\<lparr>cy_world := w, cy_calls := cy_calls cy @ [SaveCall (cy_state cy) r]\<rparr>))"

definition put_message ::
    "('t, 'i, 'r) sync_lib \<Rightarrow> number \<Rightarrow> message \<Rightarrow> (('t, 'i, 'r) cycle, transport_error, exchange) comp" where
  "put_message L other m cy =
     (case tp_put (sl_transport L) other (msg_type m) m (cy_transport cy) of
        (r, t) \<Rightarrow> (r, cy\<lparr>cy_transport := t, cy_calls := cy_calls cy @ [PutCall other (msg_type m) m r]\<rparr>))"

text \<open>A failed send is noted with a backoff, and that is saved too.\<close>

definition send_message ::
    "('t, 'i, 'r) sync_lib \<Rightarrow> u64 \<Rightarrow> number \<Rightarrow> message \<Rightarrow> ('t, 'i, 'r) cycle \<Rightarrow> ('t, 'i, 'r) cycle" where
  "send_message L now other m cy =
     (case put_message L other m cy of
        (Inr _, cy1) \<Rightarrow> cy1
      | (Inl _, cy1) \<Rightarrow>
          (case note_send_failure (sl_fill L) other now (cy_state cy1, cy_rng cy1) of
             (r, (ep, g)) \<Rightarrow>
               let cy2 = cy1\<lparr>cy_state := ep, cy_rng := g\<rparr> in
               if is_ok r then snd (save_state L cy2) else cy2))"

definition advance_peer ::
    "('t, 'i, 'r) sync_lib \<Rightarrow> sync_args \<Rightarrow> number \<Rightarrow> exchange option \<Rightarrow> ('t, 'i, 'r) cycle \<Rightarrow> ('t, 'i, 'r) cycle" where
  "advance_peer L A other exchange cy =
     (case reconcile (sl_crypto L) (sl_installer L) (sl_fill L) (sl_entropy L (length (cy_calls cy))) other exchange
             (sa_now A) (sa_rotation_interval A) (sa_idle_timeout A) (cy_state cy, cy_inst cy, cy_rng cy) of
        (r, (ep, i, g)) \<Rightarrow>
          let cy1 = cy\<lparr>cy_state := ep, cy_inst := i, cy_rng := g\<rparr> in
          (case r of
             Inl _ \<Rightarrow> cy1
           | Inr action \<Rightarrow>
               (case save_state L cy1 of
                  (Inl _, cy2) \<Rightarrow> cy2
                | (Inr _, cy2) \<Rightarrow>
                    (case action of Send m \<Rightarrow> send_message L (sa_now A) other m cy2 | _ \<Rightarrow> cy2))))"

definition sample_activity ::
    "('t, 'i, 'r) sync_lib \<Rightarrow> sync_args \<Rightarrow> number \<Rightarrow> peer \<Rightarrow> endpoint \<Rightarrow> endpoint" where
  "sample_activity L A other p ep =
     (case sa_device A of
        None \<Rightarrow> ep
      | Some device_peers \<Rightarrow>
          (case List.find (\<lambda>(key, rx, tx). b64_encode (sl_base64 L) key = pe_public_key p) device_peers of
             None \<Rightarrow> ep
           | Some (_, rx, tx) \<Rightarrow>
               (case observe_activity other (sa_now A) rx tx ep of Inl _ \<Rightarrow> ep | Inr ep' \<Rightarrow> ep')))"

definition apply_entry ::
    "('t, 'i, 'r) sync_lib \<Rightarrow> sync_args \<Rightarrow> exchange list \<Rightarrow> number \<Rightarrow> number \<Rightarrow> peer_state \<Rightarrow> ('t, 'i, 'r) cycle
      \<Rightarrow> ('t, 'i, 'r) cycle" where
  "apply_entry L A exchanges self_id server_id = (\<lambda>((i, p), server, pq) cy.
     if server then cy else
     (case number_new (word_of_int i) of
        Inl _ \<Rightarrow> cy
      | Inr other \<Rightarrow>
          if other = self_id \<or> other = server_id then cy else
          (case pq of
             None \<Rightarrow> cy
           | Some advertised \<Rightarrow>
               (case observe_remote (sl_crypto L) other (ab_bundle advertised) (ab_lifecycle advertised) (cy_state cy) of
                  Inl _ \<Rightarrow> cy
                | Inr ep \<Rightarrow>
                    advance_peer L A other (exchange_for exchanges self_id other)
                      (cy\<lparr>cy_state := sample_activity L A other p ep\<rparr>)))))"

fun apply_entries ::
    "('t, 'i, 'r) sync_lib \<Rightarrow> sync_args \<Rightarrow> exchange list \<Rightarrow> number \<Rightarrow> number \<Rightarrow> peer_state list \<Rightarrow> ('t, 'i, 'r) cycle
      \<Rightarrow> ('t, 'i, 'r) cycle" where
  "apply_entries L A exchanges self_id server_id [] cy = cy"
| "apply_entries L A exchanges self_id server_id (entry # entries) cy =
     apply_entries L A exchanges self_id server_id entries (apply_entry L A exchanges self_id server_id entry cy)"

definition apply_state ::
    "('t, 'i, 'r) sync_lib \<Rightarrow> sync_args \<Rightarrow> peer_state list \<Rightarrow> exchange list \<Rightarrow> ('t, 'i, 'r) cycle \<Rightarrow> ('t, 'i, 'r) cycle" where
  "apply_state L A peers exchanges cy =
     apply_entries L A exchanges (ep_peer_id (cy_state cy)) (ep_server_id (cy_state cy)) peers cy"

definition sync :: "('t, 'i, 'r) sync_lib \<Rightarrow> sync_args \<Rightarrow> ('t, 'i, 'r) cycle
    \<Rightarrow> ((sync_error, unit) result \<times> ('t, 'i, 'r) cycle) option" where
  "sync L A cy =
     (case fetch_state (sl_transport L) (cy_transport cy) of
        None \<Rightarrow> None
      | Some (Inl e, t) \<Rightarrow> Some (Err e, cy\<lparr>cy_transport := t\<rparr>)
      | Some (Inr (peers, exchanges), t) \<Rightarrow>
          Some (Ok (), apply_state L A peers exchanges (cy\<lparr>cy_transport := t\<rparr>)))"

end
