(* ===== verification/SyncProps.thy ===== *)
theory SyncProps
  imports Sync PageProps StoreProps EndpointProps MailboxClaims
begin

text \<open>
  What a client's cycle promises: following the server's cursors ends and delivers everything the
  peer may see once, and no message leaves the process before the state that holds it is durable.
\<close>

declare split_paired_All [simp del] split_paired_Ex [simp del]

section \<open>A source of pages\<close>

text \<open>What \<^verbatim>\<open>fetch_state\<close> needs of a transport: at a cursor from which \<open>ps\<close> and \<open>xs\<close> are still to come,
  a page delivers a first part of them and a cursor for the rest, which is less.\<close>

locale page_source =
  fixes get :: "string option \<Rightarrow> ('t, transport_error, server_page) comp"
    and at :: "'t \<Rightarrow> string option \<Rightarrow> peer_state list \<Rightarrow> exchange list \<Rightarrow> nat \<Rightarrow> bool"
  assumes page_at: "at t c ps xs n \<Longrightarrow> \<exists>pg. get c t = (Inr pg, t) \<and>
    (case pg_next_cursor pg of
       None \<Rightarrow> ps = pg_peers pg \<and> xs = pg_exchanges pg
     | Some d \<Rightarrow> \<exists>ps' xs' m. m < n \<and> ps = pg_peers pg @ ps' \<and> xs = pg_exchanges pg @ xs' \<and> at t (Some d) ps' xs' m)"
begin

lemma pages_delivered:
  assumes "at t c ps xs n" "tp_get T = get"
  shows "fetch_pages T ps0 xs0 c t = Some (Inr (ps0 @ ps, xs0 @ xs), t)"
  using assms(1)
proof (induction n arbitrary: c ps xs ps0 xs0 rule: less_induct)
  case (less n)
  from page_at [OF less.prems] obtain pg where pg: "get c t = (Inr pg, t)"
    and rest: "case pg_next_cursor pg of
       None \<Rightarrow> ps = pg_peers pg \<and> xs = pg_exchanges pg
     | Some d \<Rightarrow> \<exists>ps' xs' m. m < n \<and> ps = pg_peers pg @ ps' \<and> xs = pg_exchanges pg @ xs' \<and> at t (Some d) ps' xs' m"
    by blast
  show ?case
  proof (cases "pg_next_cursor pg")
    case None
    with pg rest assms(2) show ?thesis by (subst fetch_pages.simps) simp
  next
    case (Some d)
    with rest obtain ps' xs' m where m: "m < n" "ps = pg_peers pg @ ps'" "xs = pg_exchanges pg @ xs'" "at t (Some d) ps' xs' m"
      by auto
    with less.IH [OF m(1,4)] pg Some assms(2) show ?thesis by (subst fetch_pages.simps) simp
  qed
qed

lemma everything_fetched:
  "at t None ps xs n \<Longrightarrow> tp_get T = get \<Longrightarrow> fetch_state T t = Some (Inr (ps, xs), t)"
  by (simp add: fetch_state_def pages_delivered)

end

section \<open>The server as a source\<close>

text \<open>An error of the server, as the client sees its status.\<close>

definition seen_error :: "server_error \<Rightarrow> transport_error" where
  "seen_error e = rest_error (RequestSend (StatusCode (word_of_nat (status_code e))))"

definition server_get ::
    "page_lib \<Rightarrow> (string \<Rightarrow> host_port option) \<Rightarrow> bytes \<Rightarrow> u64 \<Rightarrow> int \<Rightarrow> string
      \<Rightarrow> string option \<Rightarrow> (pq_db, transport_error, server_page) comp" where
  "server_get P endpoints key now self public_key cursor = errS seen_error (page P endpoints key now self public_key cursor)"

text \<open>The peers and the exchanges that are delivered from a position on.\<close>

definition peers_from ::
    "page_lib \<Rightarrow> (string \<Rightarrow> host_port option) \<Rightarrow> (int \<times> peer) list \<Rightarrow> pq_db \<Rightarrow> page_state \<Rightarrow> peer_state list sres" where
  "peers_from P endpoints peers db st = mapR (peer_entry P endpoints db) (peers_left peers st)"

definition exchanges_from :: "page_lib \<Rightarrow> int \<Rightarrow> pq_db \<Rightarrow> page_state \<Rightarrow> exchange list" where
  "exchanges_from P self db st = map snd (filter (may_exchange P self db) (exchanges_left self db st))"

definition server_at ::
    "page_lib \<Rightarrow> (string \<Rightarrow> host_port option) \<Rightarrow> bytes \<Rightarrow> u64 \<Rightarrow> int \<Rightarrow> string
      \<Rightarrow> pq_db \<Rightarrow> string option \<Rightarrow> peer_state list \<Rightarrow> exchange list \<Rightarrow> nat \<Rightarrow> bool" where
  "server_at P endpoints key now self public_key db cursor ps xs n \<longleftrightarrow>
     signs (pl_mail P) key \<and>
     (\<exists>nid revision visibility peers stage after.
        at_rest P now self public_key nid revision visibility peers db \<and>
        servable P endpoints (sort_key fst peers) self db \<and> listed (sort_key fst peers) self db \<and>
        at_cursor (pl_mail P) key self revision cursor stage after \<and>
        peers_from P endpoints (sort_key fst peers) db (first_state stage after) = Inr ps \<and>
        xs = exchanges_from P self db (first_state stage after) \<and>
        n = left (sort_key fst peers) self db (first_state stage after))"

lemma mapR_append_iff: "mapR f (xs @ ys) = Inr zs \<longleftrightarrow> (\<exists>as bs. mapR f xs = Inr as \<and> mapR f ys = Inr bs \<and> zs = as @ bs)"
  by (induction xs arbitrary: zs) (auto simp: res_simps)

lemma left_position:
  "peers_left peers (first_state (ps_stage st) (ps_after st)) = peers_left peers st"
  "cidrs_left db (first_state (ps_stage st) (ps_after st)) = cidrs_left db st"
  "exchanges_left self db (first_state (ps_stage st) (ps_after st)) = exchanges_left self db st"
  "left peers self db (first_state (ps_stage st) (ps_after st)) = left peers self db st"
  by (simp_all add: peers_left_def cidrs_left_def exchanges_left_def left_def first_state_def)

lemma nothing_left: "\<not> ps_stage st < 3 \<Longrightarrow> peers_left peers st = [] \<and> exchanges_left self db st = []"
proof -
  assume "\<not> ps_stage st < 3"
  then have "3 \<le> unat (ps_stage st)" by (simp add: word_less_nat_alt)
  then have "ps_stage st \<noteq> 0 \<and> \<not> ps_stage st < 2 \<and> ps_stage st \<noteq> 2" by (auto simp: word_less_nat_alt)
  then show ?thesis by (simp add: peers_left_def exchanges_left_def)
qed

lemma delivers_first:
  assumes "delivers P endpoints peers self db (first_state stage after) st"
    "peers_from P endpoints peers db (first_state stage after) = Inr ps"
  shows "\<exists>ps'. peers_from P endpoints peers db st = Inr ps' \<and> ps = ps_peers st @ ps'"
    "exchanges_from P self db (first_state stage after) = ps_exchanges st @ exchanges_from P self db st"
proof -
  have empty: "ps_peers (first_state stage after) = []" "ps_exchanges (first_state stage after) = []"
    by (simp_all add: first_state_def)
  from assms(1) obtain qs es where "peers_left peers (first_state stage after) = qs @ peers_left peers st"
    "mapR (peer_entry P endpoints db) qs = Inr es" "ps_peers st = es"
    unfolding delivers_def empty append_Nil by blast
  with assms(2) show "\<exists>ps'. peers_from P endpoints peers db st = Inr ps' \<and> ps = ps_peers st @ ps'"
    by (auto simp: peers_from_def mapR_append_iff)
  from assms(1) show "exchanges_from P self db (first_state stage after) = ps_exchanges st @ exchanges_from P self db st"
    unfolding delivers_def empty append_Nil exchanges_from_def by auto
qed

lemma server_page_at:
  assumes "server_at P endpoints key now self public_key db cursor ps xs n"
  shows "\<exists>pg. server_get P endpoints key now self public_key cursor db = (Inr pg, db) \<and>
    (case pg_next_cursor pg of
       None \<Rightarrow> ps = pg_peers pg \<and> xs = pg_exchanges pg
     | Some d \<Rightarrow> \<exists>ps' xs' m. m < n \<and> ps = pg_peers pg @ ps' \<and> xs = pg_exchanges pg @ xs' \<and>
         server_at P endpoints key now self public_key db (Some d) ps' xs' m)"
proof -
  from assms obtain nid revision visibility peers stage after where key: "signs (pl_mail P) key"
    and rest: "at_rest P now self public_key nid revision visibility peers db"
    and serve: "servable P endpoints (sort_key fst peers) self db" and rows: "listed (sort_key fst peers) self db"
    and cursor: "at_cursor (pl_mail P) key self revision cursor stage after"
    and ps: "peers_from P endpoints (sort_key fst peers) db (first_state stage after) = Inr ps"
    and xs: "xs = exchanges_from P self db (first_state stage after)"
    and n: "n = left (sort_key fst peers) self db (first_state stage after)"
    unfolding server_at_def by blast
  let ?ps = "sort_key fst peers"
  obtain st pg where pg: "page P endpoints key now self public_key cursor db = (Inr pg, db)"
    and run: "page_loop P endpoints ?ps self db (first_state stage after) = Inr st"
    and fields: "pg_peers pg = ps_peers st" "pg_exchanges pg = ps_exchanges st"
    and nxt: "if ps_stage st < 3 then \<exists>c. pg_next_cursor pg = Some c \<and>
         at_cursor (pl_mail P) key self revision (Some c) (ps_stage st) (ps_after st) else pg_next_cursor pg = None"
    by (rule page_at_rest [OF rest key serve cursor])
  have "page_fits (first_state stage after)"
    using cursor by (auto simp: page_fits_def first_state_def at_cursor_def intro: order_trans)
  from page_loop_run [OF run rows this] have del: "delivers P endpoints ?ps self db (first_state stage after) st"
    and less: "left ?ps self db st + ps_count st \<le> left ?ps self db (first_state stage after)" "ps_stage st < 3 \<longrightarrow> 0 < ps_count st"
    by (auto simp: first_state_def)
  obtain ps' where ps': "peers_from P endpoints ?ps db st = Inr ps'" "ps = ps_peers st @ ps'"
    using delivers_first(1) [OF del ps] by blast
  note xs' = delivers_first(2) [OF del ps]
  have get: "server_get P endpoints key now self public_key cursor db = (Inr pg, db)"
    by (simp add: server_get_def errS_def pg)
  show ?thesis
  proof (cases "ps_stage st < 3")
    case False
    with nothing_left [OF False] ps' xs' xs nxt fields get show ?thesis
      by (auto simp: peers_from_def exchanges_from_def)
  next
    case True
    with nxt obtain c where c: "pg_next_cursor pg = Some c" "at_cursor (pl_mail P) key self revision (Some c) (ps_stage st) (ps_after st)"
      by auto
    have "server_at P endpoints key now self public_key db (Some c) ps' (exchanges_from P self db st) (left ?ps self db st)"
      unfolding server_at_def
      by (intro conjI exI [of _ nid] exI [of _ revision] exI [of _ visibility] exI [of _ peers] exI [of _ "ps_stage st"]
          exI [of _ "ps_after st"])
        (use key rest serve rows c(2) ps'(1) in \<open>simp_all add: peers_from_def exchanges_from_def left_position\<close>)
    moreover have "left ?ps self db st < n" using less True n by linarith
    ultimately show ?thesis using get c ps' xs xs' fields by auto
  qed
qed

interpretation server_pages: page_source
  "server_get P endpoints key now self public_key" "server_at P endpoints key now self public_key"
  for P endpoints key now self public_key
  by unfold_locales (rule server_page_at)

text \<open>The listings of a database in its invariant.\<close>

lemma mapR_fst: "mapR f rows = Inr ps \<Longrightarrow> (\<And>x y. f x = Inr y \<Longrightarrow> fst y = fst x) \<Longrightarrow> map fst ps = map fst rows"
  by (induction rows arbitrary: ps) (auto simp: res_simps)

lemma mailbox_distinct:
  assumes "server_ok db"
  shows "distinct (map fst (mailbox_of self db))"
proof -
  have mail: "mailbox_ok db" using assms by (simp add: server_ok_def)
  let ?rows = "filter (\<lambda>(k, r). key_of_peer self k) (db_exchanges db)"
  have "distinct (map fst (db_exchanges db))"
    using mailbox_ok_wf [OF mail] by (simp add: bt_wf_def strict_sorted_iff)
  then have keys: "distinct (map fst ?rows)" by (rule distinct_map_filter)
  have "inj_on (other_of self) (fst ` set ?rows)"
  proof (rule inj_onI)
    fix k k' assume k: "k \<in> fst ` set ?rows" "k' \<in> fst ` set ?rows" and same: "other_of self k = other_of self k'"
    then obtain r r' where rows: "(k, r) \<in> set (db_exchanges db)" "(k', r') \<in> set (db_exchanges db)"
      and mine: "key_of_peer self k" "key_of_peer self k'" by auto
    then have "row_ok k r" "row_ok k' r'"
      using mailbox_ok_row [OF mail] bt_get_mem [OF mailbox_ok_wf [OF mail]] by blast+
    then have "pair_of k = pair_of k'"
      using mine same by (auto simp: row_ok_def key_of_peer_def other_of_def pair_of_def split: if_splits)
    with rows show "k = k'" by (intro one_record [OF assms]) (force simp: exchange_keys_def)+
  qed
  with keys have "distinct (map (other_of self) (map fst ?rows))" by (simp only: distinct_map set_map)
  then show ?thesis by (simp add: mailbox_of_def comp_def case_prod_unfold)
qed

lemma server_listed:
  assumes "server_ok db" "at_rest P now self public_key nid revision visibility peers db"
  shows "listed (sort_key fst peers) self db"
proof -
  from assms(2) obtain me where "get_all_allowed_peers (ml_net (pl_mail P)) me db = Inr peers"
    by (auto simp: at_rest_def)
  then have "map fst peers = map fst (filter (\<lambda>(i, r). pr_cidr_id r \<in> set (associated_subcidrs db (pe_cidr_id me)) \<and>
      \<not> pr_is_disabled r \<and> pr_is_redeemed r) (db_peers db))"
    unfolding get_all_allowed_peers_def peer_rows_def by (rule mapR_fst) (auto simp: res_simps)
  moreover have "distinct (map fst (db_peers db))"
    using assms(1) by (simp add: server_ok_def bt_wf_def strict_sorted_iff)
  ultimately have "distinct (map fst peers)" by (simp add: distinct_map_filter)
  then show ?thesis
    using strict_sort_key mailbox_distinct [OF assms(1)] assms(1)
    by (simp add: listed_def server_ok_def cidrs_wf_def bt_wf_def)
qed

lemma servable_entries:
  assumes "\<forall>x \<in> set xs. \<exists>v n. peer_item P endpoints db x = Inr (Item (fst x) v n)"
  shows "\<exists>ps. mapR (peer_entry P endpoints db) xs = Inr ps"
  using assms
proof (induction xs)
  case (Cons x xs)
  then obtain v n where "peer_item P endpoints db x = Inr (Item (fst x) v n)" by auto
  then have "\<exists>e. peer_entry P endpoints db x = Inr e"
    using peer_item_Ok [of P endpoints db "fst x" "snd x"] by (cases x) (auto simp: peer_entry_def)
  with Cons show ?case by auto
qed simp

lemma mailbox_positive:
  assumes "mailbox_ok db" "x \<in> set (mailbox_of self db)"
  shows "0 < fst x"
proof -
  from assms(2) obtain k r where kr: "(k, r) \<in> set (db_exchanges db)" "fst x = other_of self k"
    by (auto simp: mailbox_of_def)
  then have "row_ok k r" using mailbox_ok_row [OF assms(1)] bt_get_mem [OF mailbox_ok_wf [OF assms(1)]] by blast
  with kr(2) show ?thesis by (auto simp: row_ok_def other_of_def)
qed

text \<open>C29. Following the cursors of a server whose database is at rest ends, meets no error, and
  delivers every peer the caller may see, in order and once, with the bundle it publishes, and every
  exchange the caller may still use, once: the pages of the server and the loop of the client fit
  together, whatever the sizes of the entries make the pages contain.\<close>

theorem fetch_state_complete:
  assumes "server_ok db" and rest: "at_rest P now self public_key nid revision visibility peers db"
    and key: "signs (pl_mail P) key" and serve: "servable P endpoints (sort_key fst peers) self db"
    and get: "tp_get T = server_get P endpoints key now self public_key"
  shows "\<exists>ps. mapR (peer_entry P endpoints db) (filter (\<lambda>(i, p). 0 < i) (sort_key fst peers)) = Inr ps \<and>
    fetch_state T db = Some (Inr (ps, map snd (filter (may_exchange P self db) (sorted_mailbox self db))), db)"
proof -
  note rows = server_listed [OF assms(1) rest]
  have start: "at_cursor (pl_mail P) key self revision None 0 0"
    by (simp add: at_cursor_def row_id_def i64_bound_def)
  have "filter (\<lambda>(i, e). 0 < i) (sorted_mailbox self db) = sorted_mailbox self db"
    using mailbox_positive [of db _ self] assms(1) by (fastforce simp: sorted_mailbox_def server_ok_def intro!: filter_True)
  then have xs: "exchanges_from P self db (first_state 0 0) = map snd (filter (may_exchange P self db) (sorted_mailbox self db))"
    by (simp add: exchanges_from_def exchanges_left_def first_state_def)
  have "\<exists>ps. mapR (peer_entry P endpoints db) (filter (\<lambda>(i, p). 0 < i) (sort_key fst peers)) = Inr ps"
    using serve by (intro servable_entries) (auto simp: servable_def)
  then obtain ps where ps: "mapR (peer_entry P endpoints db) (filter (\<lambda>(i, p). 0 < i) (sort_key fst peers)) = Inr ps" by blast
  then have "peers_from P endpoints (sort_key fst peers) db (first_state 0 0) = Inr ps"
    by (simp add: peers_from_def peers_left_def first_state_def)
  then have "server_at P endpoints key now self public_key db None ps (exchanges_from P self db (first_state 0 0))
      (left (sort_key fst peers) self db (first_state 0 0))"
    unfolding server_at_def using key rest serve rows start by blast
  from server_pages.everything_fetched [OF this get] ps xs show ?thesis by auto
qed

text \<open>The sample server, as peer 2 sees it.\<close>

definition sample_pages :: page_lib where
  "sample_pages = \<lparr>pl_mail = sample_mail, pl_bundle_len = (\<lambda>_. Some 900), pl_value_len = (\<lambda>_. Some 300)\<rparr>"

definition sample_peer :: "byte \<Rightarrow> bool \<Rightarrow> peer" where
  "sample_peer k b = \<lparr>pe_name = pr_name (sample_row k b), pe_ip = IpV4 (ucast k), pe_cidr_id = 2, pe_public_key = sample_key k,
    pe_endpoint = None, pe_keepalive = Some 25, pe_is_admin = False, pe_is_disabled = False,
    pe_is_redeemed = True, pe_invite_expires = None, pe_candidates = []\<rparr>"

definition sample_peers :: "(int \<times> peer) list" where
  "sample_peers = [(1, sample_peer 1 True), (2, sample_peer 2 False), (3, sample_peer 3 False)]"

lemma sample_signs: "signs sample_mail [1]"
  using toy_base64_law by (simp add: signs_def sample_net_def toy_ops)

lemma sample_seen_peers: "get_all_allowed_peers sample_net (sample_peer 2 False) sample_db = Inr sample_peers"
proof -
  let ?rows = "[(1, sample_row 1 True), (2, sample_row 2 False), (3, sample_row 3 False)]"
  have "filter (\<lambda>(i, r). pr_cidr_id r \<in> set (associated_subcidrs sample_db (pe_cidr_id (sample_peer 2 False))) \<and>
        \<not> pr_is_disabled r \<and> pr_is_redeemed r) (db_peers sample_db) = ?rows"
    using sample_sub by (simp add: sample_db_def sample_row_def sample_peer_def)
  then show ?thesis
    unfolding get_all_allowed_peers_def
    by (simp add: peer_rows_def sample_from_row sample_peers_def sample_peer_def)
qed

lemma sample_rest: "at_rest sample_pages 0 2 (sample_key 2) (replicate 16 1) 9 (Number 9) sample_peers sample_db"
proof -
  have mail: "mailbox_ok sample_db" using sample_ok by (simp add: server_ok_def)
  have sweep: "sweep_inner sample_mail 0 sample_db = (Inr (), sample_db)"
    by (rule sweep_noop [OF mail, of _ sample_net sample_db]) (simp_all add: sample_db_def live_row_def)
  have caller: "caller sample_net 2 (sample_key 2) sample_db = Inr (sample_peer 2 False)"
    by (simp add: caller_def peer_get_def sample_from_row sample_peer_def)
  have "ready sample_db" "network sample_db = Inr (replicate 16 1, 9)"
    by (simp_all add: ready_def network_def sample_db_def sample_row_def)
  with sweep caller sample_seen_peers show ?thesis
    by (auto simp: at_rest_def sample_pages_def number_wf_def i64_max_def)
qed

lemma sample_sorted: "sort_key fst sample_peers = sample_peers"
  by (simp add: sample_peers_def)

lemma sample_item:
  assumes "x \<in> set sample_peers"
  shows "\<exists>v n. peer_item sample_pages (\<lambda>_. None) sample_db x = Inr (Item (fst x) v n) \<and> fits_alone sample_pages v n"
proof -
  have rows: "bt_get 1 (db_bundles sample_db) = None" "bt_get 2 (db_bundles sample_db) = Some (bundle_row_of (sample_request 2))"
    "bt_get 3 (db_bundles sample_db) = Some (bundle_row_of (sample_request 3))"
    by (simp_all add: sample_db_def bt_get_def)
  have first: "is_server 1 sample_db = Inr True" by (simp add: is_server_def sample_db_def bt_get_def sample_row_def)
  have stored: "stored_bundle toy_lib 1 sample_db = Inr None" "stored_bundle toy_lib 2 sample_db = Inr (Some (desired_of (sample_request 2)))"
    "stored_bundle toy_lib 3 sample_db = Inr (Some (desired_of (sample_request 3)))"
    by (simp_all add: stored_bundle_def rows sample_stored)
  have wg: "bu_wg (ab_bundle (desired_of (sample_request k))) = replicate 32 k" for k
    by (simp add: desired_of_def sample_request_def sample_bundle_def)
  have key: "pe_public_key (sample_peer k b) = sample_key k" for k b by (simp add: sample_peer_def)
  have lib: "pl_mail sample_pages = sample_mail" "pl_bundle_len sample_pages b = Some 900" "pl_value_len sample_pages v = Some 300" for b v
    by (simp_all add: sample_pages_def)
  from assms show ?thesis
    by (auto simp: sample_peers_def peer_item_def stored first lib fits_alone_def key wg)
qed

lemma sample_servable: "servable sample_pages (\<lambda>_. None) (sort_key fst sample_peers) 2 sample_db"
  unfolding servable_def sample_sorted
proof (intro conjI ballI)
  fix x assume "x \<in> set sample_peers"
  then show "\<exists>v n. peer_item sample_pages (\<lambda>_. None) sample_db x = Inr (Item (fst x) v n) \<and> fits_alone sample_pages v n"
    "row_id (fst x)"
    by (simp_all add: sample_item) (auto simp: sample_peers_def row_id_def i64_bound_def)
qed (auto simp: sample_db_def mailbox_of_def row_id_def i64_bound_def fits_alone_def sample_pages_def)

theorem fetch_state_complete_witness:
  "\<exists>ps. fetch_state \<lparr>tp_get = server_get sample_pages (\<lambda>_. None) [1] 0 2 (sample_key 2), tp_put = (\<lambda>_ _ _ t. (Inl TOther, t))\<rparr> sample_db
     = Some (Inr (ps, []), sample_db) \<and> length ps = 3"
proof -
  let ?T = "\<lparr>tp_get = server_get sample_pages (\<lambda>_. None) [1] 0 2 (sample_key 2), tp_put = (\<lambda>_ _ _ t. (Inl TOther, t))\<rparr>"
  have key: "signs (pl_mail sample_pages) [1]" using sample_signs by (simp add: sample_pages_def)
  obtain ps where ps: "mapR (peer_entry sample_pages (\<lambda>_. None) sample_db) (filter (\<lambda>(i, p). 0 < i) (sort_key fst sample_peers)) = Inr ps"
    and run: "fetch_state ?T sample_db
      = Some (Inr (ps, map snd (filter (may_exchange sample_pages 2 sample_db) (sorted_mailbox 2 sample_db))), sample_db)"
    using fetch_state_complete [OF sample_ok sample_rest key sample_servable, of ?T] by auto
  have "filter (\<lambda>(i, p). 0 < i) (sort_key fst sample_peers) = sample_peers" "sorted_mailbox 2 sample_db = []"
    by (simp_all add: sample_sorted sorted_mailbox_def mailbox_of_def) (simp_all add: sample_peers_def sample_db_def)
  with list_all2_lengthD [OF mapR_Inr [OF ps]] run show ?thesis by (simp add: sample_peers_def)
qed

section \<open>What is sent is queued\<close>

definition queued :: "message \<Rightarrow> relationship \<Rightarrow> bool" where
  "queued m r \<longleftrightarrow> (\<exists>p. rel_pending r = Some p \<and> m \<in> set (pd_outbox p))"

lemma emit_queued: "emit C ep k p s = (Inr (Send m), s') \<Longrightarrow> queued m (eg_rel s')"
  by (auto simp: emit_def bindS_Inr_iff set_pending_def upd_rel_def push_message_def queued_def)

lemma drive_queued:
  assumes "drive C I ep other remote now b p s = (Inr (Send m), s')" "rel_pending (eg_rel s) = Some p"
  shows "queued m (eg_rel s')"
  using assms
  by (auto simp: drive_def Let_def must_resend_def drive_ready_def drive_committed_def drive_complete_def bindS_Inr_iff
      set_pending_def upd_rel_def push_message_def queued_def emit_queued [unfolded queued_def]
      split: if_splits phase.splits)

lemma build_proposal_queued: "build_proposal C fill entropy ep other rel s = (Inr (Send m), s') \<Longrightarrow> queued m (eg_rel s')"
  by (auto simp: build_proposal_def bindS_Inr_iff Let_def set_pending_def upd_rel_def fresh_pending_def queued_def)

lemma answer_proposal_queued: "answer_proposal C ep other remote s = (Inr (Send m), s') \<Longrightarrow> queued m (eg_rel s')"
  by (auto simp: answer_proposal_def bindS_Inr_iff set_pending_def upd_rel_def fresh_pending_def queued_def
      split: option.splits)

lemma reconcile_queued:
  assumes "reconcile C I fill entropy other remote now iv idle (ep, i, g) = (Inr (Send m), (ep', i', g'))"
  shows "pred_option (queued m) (bt_get other (ep_relationships ep')) \<and> bt_get other (ep_relationships ep') \<noteq> None"
proof -
  from reconcile_run [OF assms] obtain r s where
    run: "reconcile_rel C I fill entropy ep other remote now iv idle \<lparr>eg_rel = r, eg_inst = i, eg_rng = g\<rparr> = (Inr (Send m), s)"
    and ep': "ep' = put_rel other (eg_rel s) ep" by auto
  have "queued m (eg_rel s)"
    using run
    by (auto simp: reconcile_rel_def start_proposal_def bindS_Inr_iff set_pending_def upd_rel_def
        split: if_splits option.splits prod.splits dest: build_proposal_queued answer_proposal_queued drive_queued)
  then show ?thesis by (simp add: ep' put_rel_def)
qed

section \<open>Saved before it is sent\<close>

text \<open>The last state whose save succeeded, and the order of the calls: a message is put on the
  transport right after a save that succeeded, of a state whose outbox holds it.\<close>

fun last_saved :: "endpoint option \<Rightarrow> call list \<Rightarrow> endpoint option" where
  "last_saved held [] = held"
| "last_saved held (SaveCall ep r # cs) = last_saved (if is_ok r then Some ep else held) cs"
| "last_saved held (PutCall other ph m r # cs) = last_saved held cs"

definition saved_queue :: "number \<Rightarrow> message \<Rightarrow> call \<Rightarrow> bool" where
  "saved_queue other m c \<longleftrightarrow> (\<exists>ep r. c = SaveCall ep (Inr ()) \<and>
     bt_get other (ep_relationships ep) = Some r \<and> queued m r)"

definition puts_saved :: "call list \<Rightarrow> bool" where
  "puts_saved cs \<longleftrightarrow> (\<forall>before other ph m r later. cs = before @ PutCall other ph m r # later \<longrightarrow>
     before \<noteq> [] \<and> saved_queue other m (last before))"

lemma last_saved_append [simp]: "last_saved held (cs @ ds) = last_saved (last_saved held cs) ds"
  by (induction held cs rule: last_saved.induct) simp_all

lemma snoc_split: "cs @ [c] = before @ x # later \<longleftrightarrow>
  (later = [] \<and> x = c \<and> before = cs) \<or> (\<exists>l. later = l @ [c] \<and> cs = before @ x # l)"
  by (cases later rule: rev_cases) auto

lemma puts_saved_Nil [simp]: "puts_saved []"
  by (simp add: puts_saved_def)

lemma puts_saved_save [simp]: "puts_saved (cs @ [SaveCall ep r]) \<longleftrightarrow> puts_saved cs"
  unfolding puts_saved_def snoc_split by blast

lemma puts_saved_put [simp]:
  "puts_saved (cs @ [PutCall other ph m r]) \<longleftrightarrow> puts_saved cs \<and> cs \<noteq> [] \<and> saved_queue other m (last cs)"
  unfolding puts_saved_def snoc_split by blast

text \<open>What every call of a cycle keeps: the order of the calls, and the disk that holds the last
  state saved, unless a failed save has left the handle useless.\<close>

definition cycle_ok :: "('t, 'i, 'r) sync_lib \<Rightarrow> endpoint option \<Rightarrow> ('t, 'i, 'r) cycle \<Rightarrow> bool" where
  "cycle_ok L held cy \<longleftrightarrow> puts_saved (cy_calls cy) \<and>
     (cell_holds (sl_envelope L) (sl_env L 0) (cy_world cy) (last_saved held (cy_calls cy)) \<or>
      poisoned (sl_envelope L) (cy_world cy))"

definition same_user :: "('t, 'i, 'r) sync_lib \<Rightarrow> bool" where
  "same_user L \<longleftrightarrow> (\<forall>n. ev_uid (sl_env L n) = ev_uid (sl_env L 0))"

lemma cell_holds_env: "ev_uid E = ev_uid E' \<Longrightarrow> cell_holds J E w held = cell_holds J E' w held"
  by (simp add: cell_holds_def)

lemma cycle_ok_cong:
  "cy_calls cy' = cy_calls cy \<Longrightarrow> cy_world cy' = cy_world cy \<Longrightarrow> cycle_ok L held cy' = cycle_ok L held cy"
  by (simp add: cycle_ok_def)

lemma save_state_ok:
  assumes "same_user L" "cycle_ok L held cy" "save_state L cy = (r, cy')"
  shows "cycle_ok L held cy' \<and> cy_calls cy' = cy_calls cy @ [SaveCall (cy_state cy) r] \<and> cy_state cy' = cy_state cy \<and>
    cy_rng cy' = cy_rng cy \<and> cy_inst cy' = cy_inst cy \<and> cy_transport cy' = cy_transport cy"
proof -
  let ?J = "sl_envelope L" and ?E = "sl_env L (length (cy_calls cy))"
  obtain w where run: "store_save ?J ?E (cy_state cy) (cy_world cy) = (r, w)"
    and cy': "cy' = cy\<lparr>cy_world := w, cy_calls := cy_calls cy @ [SaveCall (cy_state cy) r]\<rparr>"
    using assms(3) by (auto simp: save_state_def split: prod.splits)
  have env: "cell_holds ?J ?E w' h = cell_holds ?J (sl_env L 0) w' h" for w' h
    using assms(1) by (intro cell_holds_env) (simp add: same_user_def)
  have "cell_holds ?J ?E (cy_world cy) (last_saved held (cy_calls cy)) \<or> poisoned ?J (cy_world cy)"
    using assms(2) by (simp add: cycle_ok_def env)
  from private_store.put_cases [OF this run]
  have "cell_holds ?J (sl_env L 0) w (last_saved held (cy_calls cy')) \<or> poisoned ?J w"
    by (auto simp: env cy')
  with assms(2) show ?thesis by (simp add: cycle_ok_def cy')
qed

lemma send_message_ok:
  assumes "same_user L" "cycle_ok L held cy" "cy_calls cy \<noteq> []" "saved_queue other m (last (cy_calls cy))"
  shows "cycle_ok L held (send_message L now other m cy)"
proof -
  obtain r t where "tp_put (sl_transport L) other (msg_type m) m (cy_transport cy) = (r, t)" by fastforce
  then have put: "put_message L other m cy = (r, cy\<lparr>cy_transport := t,
      cy_calls := cy_calls cy @ [PutCall other (msg_type m) m r]\<rparr>)"
    by (simp add: put_message_def)
  let ?cy = "cy\<lparr>cy_transport := t, cy_calls := cy_calls cy @ [PutCall other (msg_type m) m r]\<rparr>"
  have cy: "cycle_ok L held ?cy" using assms(2-4) by (simp add: cycle_ok_def)
  show ?thesis
  proof (cases r)
    case (Inr e)
    with put cy show ?thesis by (simp add: send_message_def)
  next
    case (Inl e)
    obtain q ep g where noted: "note_send_failure (sl_fill L) other now (cy_state cy, cy_rng cy) = (q, (ep, g))"
      by (metis prod_cases3)
    let ?cy2 = "?cy\<lparr>cy_state := ep, cy_rng := g\<rparr>"
    have cy2: "cycle_ok L held ?cy2" using cy by (simp add: cycle_ok_def)
    obtain s cy3 where save: "save_state L ?cy2 = (s, cy3)" by fastforce
    have "cycle_ok L held cy3" using save_state_ok [OF assms(1) cy2 save] by simp
    moreover have "send_message L now other m cy = (if is_ok q then cy3 else ?cy2)"
      using put noted save by (simp add: send_message_def Let_def Inl)
    ultimately show ?thesis using cy2 by simp
  qed
qed

lemma advance_peer_ok:
  assumes "same_user L" "cycle_ok L held cy"
  shows "cycle_ok L held (advance_peer L A other exchange cy)"
proof -
  obtain r ep i g where run: "reconcile (sl_crypto L) (sl_installer L) (sl_fill L) (sl_entropy L (length (cy_calls cy))) other exchange
      (sa_now A) (sa_rotation_interval A) (sa_idle_timeout A) (cy_state cy, cy_inst cy, cy_rng cy) = (r, (ep, i, g))"
    by (metis prod_cases4)
  let ?cy = "cy\<lparr>cy_state := ep, cy_inst := i, cy_rng := g\<rparr>"
  have cy: "cycle_ok L held ?cy" using assms(2) by (simp add: cycle_ok_def)
  obtain q cy2 where save: "save_state L ?cy = (q, cy2)" by fastforce
  note ok = save_state_ok [OF assms(1) cy save]
  show ?thesis
  proof (cases r)
    case (Inr action)
    show ?thesis
    proof (cases q)
      case (Inr u)
      show ?thesis
      proof (cases action)
        case (Send m)
        have "saved_queue other m (last (cy_calls cy2))"
          using reconcile_queued [OF run [unfolded \<open>r = Inr action\<close> Send]] ok \<open>q = Inr u\<close>
          by (auto simp: saved_queue_def)
        with ok have "cycle_ok L held (send_message L (sa_now A) other m cy2)"
          by (intro send_message_ok [OF assms(1)]) simp_all
        with run save \<open>r = Inr action\<close> Inr Send show ?thesis by (simp add: advance_peer_def Let_def)
      qed (use run save \<open>r = Inr action\<close> Inr ok in \<open>simp_all add: advance_peer_def Let_def\<close>)
    qed (use run save \<open>r = Inr action\<close> ok in \<open>simp add: advance_peer_def Let_def\<close>)
  qed (use run cy in \<open>simp add: advance_peer_def Let_def\<close>)
qed

text \<open>An entry is skipped, or its peer is advanced after what was observed of it.\<close>

lemma apply_entry_cases:
  obtains (skipped) "apply_entry L A exchanges self_id server_id entry cy = cy"
  | (advanced) other advertised ep where "\<not> fst (snd entry)" "number_new (word_of_int (fst (fst entry))) = Inr other"
      "other \<noteq> self_id" "other \<noteq> server_id" "snd (snd entry) = Some advertised"
      "observe_remote (sl_crypto L) other (ab_bundle advertised) (ab_lifecycle advertised) (cy_state cy) = Inr ep"
      "apply_entry L A exchanges self_id server_id entry cy = advance_peer L A other (exchange_for exchanges self_id other)
         (cy\<lparr>cy_state := sample_activity L A other (snd (fst entry)) ep\<rparr>)"
proof -
  obtain i p server pq where entry: "entry = ((i, p), server, pq)" by (metis prod.collapse)
  show thesis
  proof (cases "number_new (word_of_int i)")
    case (Inl e)
    then show ?thesis using skipped by (simp add: entry apply_entry_def del: number_new_Ok)
  next
    case (Inr other)
    show ?thesis
    proof (cases pq)
      case None
      with Inr show ?thesis using skipped by (simp add: entry apply_entry_def del: number_new_Ok)
    next
      case (Some advertised)
      show ?thesis
      proof (cases "observe_remote (sl_crypto L) other (ab_bundle advertised) (ab_lifecycle advertised) (cy_state cy)")
        case (Inl e)
        with Inr Some show ?thesis
          using skipped by (simp add: entry apply_entry_def del: number_new_Ok)
      next
        case seen: (Inr ep)
        with Inr Some show ?thesis
          using skipped advanced [of other advertised ep]
          by (cases "server \<or> other = self_id \<or> other = server_id")
            (auto simp: entry apply_entry_def simp del: number_new_Ok)
      qed
    qed
  qed
qed

lemma apply_entry_ok:
  assumes "same_user L" "cycle_ok L held cy"
  shows "cycle_ok L held (apply_entry L A exchanges self_id server_id entry cy)"
proof (cases rule: apply_entry_cases [of L A exchanges self_id server_id entry cy])
  case (advanced other advertised ep)
  have "cycle_ok L held (cy\<lparr>cy_state := sample_activity L A other (snd (fst entry)) ep\<rparr>)"
    using assms(2) by (simp add: cycle_ok_def)
  with advanced(7) assms(1) show ?thesis by (simp add: advance_peer_ok)
qed (use assms in simp)

lemma apply_entries_ok:
  "same_user L \<Longrightarrow> cycle_ok L held cy \<Longrightarrow> cycle_ok L held (apply_entries L A exchanges self_id server_id entries cy)"
  by (induction entries arbitrary: cy) (simp_all add: apply_entry_ok)

section \<open>What a cycle leaves alone\<close>

text \<open>A relationship a cycle may touch: of a peer that is listed with a bundle, and that is neither the
  endpoint nor the server.\<close>

definition addressed :: "peer_state list \<Rightarrow> number \<Rightarrow> number \<Rightarrow> number \<Rightarrow> bool" where
  "addressed peers self_id server_id j \<longleftrightarrow> j \<noteq> self_id \<and> j \<noteq> server_id \<and>
     (\<exists>i p advertised. ((i, p), False, Some advertised) \<in> set peers \<and> number_new (word_of_int i) = Inr j)"

text \<open>One call's change of the endpoint: a step of its life, of the relationship named.\<close>

definition ep_move :: "('t, 'i, 'r) sync_lib \<Rightarrow> (number \<Rightarrow> bool) \<Rightarrow> endpoint \<Rightarrow> endpoint \<Rightarrow> bool" where
  "ep_move L J ep ep' \<longleftrightarrow> (ep_step (sl_crypto L) (sl_installer L) (sl_fill L))\<^sup>*\<^sup>* ep ep' \<and>
     (\<forall>j. \<not> J j \<longrightarrow> bt_get j (ep_relationships ep') = bt_get j (ep_relationships ep))"

lemma ep_move_refl [simp]: "ep_move L J ep ep"
  by (simp add: ep_move_def)

lemma ep_move_trans: "ep_move L J a b \<Longrightarrow> ep_move L J b c \<Longrightarrow> ep_move L J a c"
  by (auto simp: ep_move_def intro: rtranclp_trans)

lemma put_rel_get [simp]: "bt_get j (ep_relationships (put_rel i r ep)) = (if j = i then Some r else bt_get j (ep_relationships ep))"
  by (simp add: put_rel_def)

lemma ep_move_step:
  assumes "ep_step (sl_crypto L) (sl_installer L) (sl_fill L) ep ep'" "ep' = ep \<or> (\<exists>r. ep' = put_rel i r ep)" "J i"
  shows "ep_move L J ep ep'"
proof -
  have "bt_get j (ep_relationships ep') = bt_get j (ep_relationships ep)" if "\<not> J j" for j
    using assms(2,3) that by (cases "j = i") auto
  with assms(1) show ?thesis by (simp add: ep_move_def r_into_rtranclp)
qed

lemma observe_move:
  "observe_remote (sl_crypto L) i b lc ep = Inr ep' \<Longrightarrow> J i \<Longrightarrow> ep_move L J ep ep'"
  using observe_remote_run [of "sl_crypto L" i b lc ep ep']
  by (intro ep_move_step [of L ep ep' i J]) (auto intro: step_observe split: option.splits)

lemma sample_move: "J i \<Longrightarrow> ep_move L J ep (sample_activity L A i p ep)"
proof -
  assume J: "J i"
  have "ep_move L J ep ep'" if "observe_activity i (sa_now A) rx tx ep = Inr ep'" for rx tx ep'
    using observe_activity_run [OF that] J by (intro ep_move_step [of L ep ep' i J] step_activity [OF that]) auto
  then show ?thesis
    by (simp add: sample_activity_def split: option.split sum.split prod.split)
qed

lemma save_state_same: "cy_state (snd (save_state L cy)) = cy_state cy"
  by (simp add: save_state_def split: prod.split)

lemma send_move: "J i \<Longrightarrow> ep_move L J (cy_state cy) (cy_state (send_message L now i m cy))"
proof -
  assume J: "J i"
  obtain r t where "tp_put (sl_transport L) i (msg_type m) m (cy_transport cy) = (r, t)" by fastforce
  then have put: "put_message L i m cy = (r, cy\<lparr>cy_transport := t, cy_calls := cy_calls cy @ [PutCall i (msg_type m) m r]\<rparr>)"
    by (simp add: put_message_def)
  obtain q ep g where noted: "note_send_failure (sl_fill L) i now (cy_state cy, cy_rng cy) = (q, (ep, g))"
    by (metis prod_cases3)
  have "ep_move L J (cy_state cy) ep"
    using note_send_failure_any [OF noted] J by (intro ep_move_step [of L _ ep i J] step_backoff [OF noted]) auto
  then show ?thesis
    by (cases r) (simp_all add: send_message_def put noted Let_def save_state_same)
qed

lemma advance_move: "J i \<Longrightarrow> ep_move L J (cy_state cy) (cy_state (advance_peer L A i exchange cy))"
proof -
  assume J: "J i"
  obtain r ep inst g where run: "reconcile (sl_crypto L) (sl_installer L) (sl_fill L) (sl_entropy L (length (cy_calls cy))) i exchange
      (sa_now A) (sa_rotation_interval A) (sa_idle_timeout A) (cy_state cy, cy_inst cy, cy_rng cy) = (r, (ep, inst, g))"
    by (metis prod_cases4)
  have move: "ep_move L J (cy_state cy) ep"
    using reconcile_run [OF run] J by (intro ep_move_step [of L _ ep i J] step_reconcile [OF run]) auto
  let ?cy = "cy\<lparr>cy_state := ep, cy_inst := inst, cy_rng := g\<rparr>"
  obtain q cy2 where save: "save_state L ?cy = (q, cy2)" by fastforce
  then have state: "cy_state cy2 = ep" using save_state_same [of L ?cy] by simp
  have sent: "ep_move L J (cy_state cy) (cy_state (send_message L (sa_now A) i m cy2))" for m
    using send_move [where J = J and L = L and cy = cy2 and now = "sa_now A" and m = m, OF J] move state ep_move_trans by metis
  show ?thesis
    using move state sent
    by (auto simp: advance_peer_def run Let_def save split: sum.split action.split)
qed

lemma apply_entry_move:
  assumes "entry \<in> set peers"
  shows "ep_move L (addressed peers self_id server_id) (cy_state cy)
    (cy_state (apply_entry L A exchanges self_id server_id entry cy))"
proof (cases rule: apply_entry_cases [of L A exchanges self_id server_id entry cy])
  case (advanced other advertised ep)
  let ?J = "addressed peers self_id server_id"
  have J: "?J other"
    unfolding addressed_def
    using advanced(1-5) assms by (metis prod.collapse)
  let ?ep = "sample_activity L A other (snd (fst entry)) ep"
  have "ep_move L (addressed peers self_id server_id) (cy_state cy) ?ep"
    using observe_move [where J = ?J, OF advanced(6) J] sample_move [where J = ?J, OF J] ep_move_trans by metis
  moreover have "ep_move L (addressed peers self_id server_id) ?ep
      (cy_state (advance_peer L A other (exchange_for exchanges self_id other) (cy\<lparr>cy_state := ?ep\<rparr>)))"
    using advance_move [where J = ?J and L = L and cy = "cy\<lparr>cy_state := ?ep\<rparr>", OF J] by simp
  ultimately show ?thesis unfolding advanced(7) by (rule ep_move_trans)
qed simp

lemma apply_entries_move:
  "set entries \<subseteq> set peers \<Longrightarrow> ep_move L (addressed peers self_id server_id) (cy_state cy)
     (cy_state (apply_entries L A exchanges self_id server_id entries cy))"
proof (induction entries arbitrary: cy)
  case (Cons entry entries)
  from Cons.prems have "entry \<in> set peers" "set entries \<subseteq> set peers" by simp_all
  with Cons.IH apply_entry_move show ?case by (metis apply_entries.simps(2) ep_move_trans)
qed simp

section \<open>A concrete cycle\<close>

text \<open>Peer 3, which has a message for peer 2 in its outbox, and a server that answers with a conflict.\<close>

definition sample_owner :: endpoint where
  "sample_owner = sample_endpoint 3 (Number 2) (sample_rel 2 (Some (sample_pending PReady [sample_message] 0)))"

definition owner_envelope :: "endpoint envelope_lib" where
  "owner_envelope = \<lparr>en_crypto = toy_lib,
     en_print = (\<lambda>v g x. if x = sample_owner then Some ([v] @ be64 g) else None),
     en_version = (\<lambda>bs. case bs of [] \<Rightarrow> None | v # _ \<Rightarrow> Some v),
     en_generation = (\<lambda>bs. if length bs = 9 then Some (hd bs, of_be64 (take 8 (tl bs))) else None),
     en_parse = (\<lambda>bs. if length bs = 9 then Some (hd bs, of_be64 (take 8 (tl bs)), sample_owner) else None)\<rparr>"

definition sample_sync :: "(unit, fake_state, nat) sync_lib" where
  "sample_sync = \<lparr>sl_crypto = toy_lib, sl_base64 = toy_base64, sl_envelope = owner_envelope, sl_env = (\<lambda>n. sample_env),
     sl_fill = sample_fill, sl_entropy = (\<lambda>n. []), sl_installer = fake_installer,
     sl_transport = \<lparr>tp_get = (\<lambda>c t. (Inl TOther, t)), tp_put = (\<lambda>n ph m t. (Inl TConflict, t))\<rparr>\<rparr>"

definition sample_args :: sync_args where
  "sample_args = \<lparr>sa_now = 5, sa_rotation_interval = 0, sa_idle_timeout = 0, sa_device = None\<rparr>"

definition sample_cycle :: "(unit, fake_state, nat) cycle" where
  "sample_cycle = \<lparr>cy_transport = (), cy_world = sample_world, cy_state = sample_owner,
     cy_inst = \<lparr>fk_installed = \<lambda>_. None, fk_seen = {}\<rparr>, cy_rng = 0, cy_calls = []\<rparr>"

definition sample_entry :: peer_state where
  "sample_entry = ((2, \<lparr>pe_name = ''pa'', pe_ip = IpV4 2, pe_cidr_id = 2, pe_public_key = sample_key 2,
    pe_endpoint = None, pe_keepalive = Some 25, pe_is_admin = False, pe_is_disabled = False,
    pe_is_redeemed = True, pe_invite_expires = None, pe_candidates = []\<rparr>),
    False, Some \<lparr>ab_version = 1, ab_lifecycle = LEnabled, ab_bundle = sample_bundle 2\<rparr>)"

lemma owner_envelope_law: "envelope_law owner_envelope" "hash_works toy_lib"
  using toy_hash_works by (auto simp: envelope_law_def owner_envelope_def hash_works_def sample_envelope_def split: if_splits)

lemma sample_cell: "cell_holds (sl_envelope sample_sync) (sl_env sample_sync 0) (cy_world sample_cycle) None"
  using owner_envelope_law
  by (simp add: cell_holds_def sample_sync_def sample_cycle_def sample_world_def store_inv_def owner_envelope_def)

lemma sample_observed:
  "observe_remote toy_lib (Number 2) (sample_bundle 2) LEnabled sample_owner = Inr sample_owner"
  using sample_bundle_valid [of 2]
  by (simp add: observe_remote_def sample_owner_def bt_get_def apply_lifecycle_def refresh_remote_def Let_def
      sample_rel_def new_relationship_def sample_endpoint_def)

lemma sample_reconciled:
  "reconcile toy_lib fake_installer sample_fill [] (Number 2) None 5 0 0 (sample_owner, \<lparr>fk_installed = \<lambda>_. None, fk_seen = {}\<rparr>, 0)
   = (Inr (Send sample_message), (sample_owner, \<lparr>fk_installed = \<lambda>_. None, fk_seen = {}\<rparr>, 0))"
  using superseded_pending_is_stuck [of sample_owner
      "sample_eng (sample_rel 2 (Some (sample_pending PReady [sample_message] 0)))" "sample_pending PReady [sample_message] 0" None "Number 2"
      toy_lib fake_installer sample_fill "[]" 5 0 0]
  by (simp add: reconcile_def sample_owner_def bt_get_def) (simp add: sample_eng_def sample_endpoint_def)

lemma sample_stored_owner: "\<exists>w. store_save owner_envelope sample_env sample_owner sample_world = (Inr (), w)"
  by (simp add: store_save_def save_checked_def sample_world_def sample_env_def calm_def open_existing_def checked_add64_def
      owner_envelope_def max_bytes_def create_temp_def change_disk_def new_file_def owned_file_def or_unlink_def
      replace_state_def fault_at_def write_temp_def sync_temp_def rename_temp_def sync_directory_def toy_ops bindS_def)

lemma sample_applied:
  "\<exists>later. cy_calls (apply_state sample_sync sample_args [sample_entry] [] sample_cycle) =
     [SaveCall sample_owner (Inr ())] @ PutCall (Number 2) (msg_type sample_message) sample_message (Inl TConflict) # later"
proof -
  obtain w where w: "store_save owner_envelope sample_env sample_owner sample_world = (Inr (), w)"
    using sample_stored_owner by blast
  let ?cy = "sample_cycle\<lparr>cy_world := w, cy_calls := [SaveCall sample_owner (Inr ())]\<rparr>"
  have ids: "ep_peer_id sample_owner = Number 3" "ep_server_id sample_owner = Number 1" "number_new 2 = Inr (Number 2)"
    by (simp_all add: sample_owner_def number_new_def number_wf_def i64_max_def)
  have "apply_state sample_sync sample_args [sample_entry] [] sample_cycle = send_message sample_sync 5 (Number 2) sample_message ?cy"
    using sample_observed sample_reconciled w ids
    by (simp add: apply_state_def apply_entry_def sample_entry_def sample_sync_def sample_args_def sample_cycle_def
        sample_activity_def exchange_for_def advance_peer_def save_state_def del: number_new_Ok)
  moreover have "\<exists>later. cy_calls (send_message sample_sync 5 (Number 2) sample_message ?cy) =
      cy_calls ?cy @ PutCall (Number 2) (msg_type sample_message) sample_message (Inl TConflict) # later"
  proof -
    obtain r t where "tp_put (sl_transport sample_sync) (Number 2) (msg_type sample_message) sample_message () = (r, t)"
      "r = Inl TConflict" by (simp add: sample_sync_def)
    then have put: "put_message sample_sync (Number 2) sample_message ?cy = (Inl TConflict, ?cy\<lparr>cy_transport := t,
        cy_calls := cy_calls ?cy @ [PutCall (Number 2) (msg_type sample_message) sample_message (Inl TConflict)]\<rparr>)"
      by (simp add: put_message_def sample_cycle_def)
    show ?thesis
      by (simp add: send_message_def put save_state_def Let_def split: prod.split)
  qed
  ultimately show ?thesis by simp
qed

section \<open>Properties of a cycle\<close>

text \<open>C8. In a cycle, whatever fails in it, no message is put on the transport before the state whose
  outbox holds it has been saved, by the very call before; and the state file then holds the state
  saved last, unless a save failed half-way and left a handle that refuses to write. So a message
  that a peer may have seen is never forgotten in a crash.\<close>

theorem saved_before_sent:
  assumes "same_user L" "cell_holds (sl_envelope L) (sl_env L 0) (cy_world cy) held" "cy_calls cy = []"
    and "cy' = apply_state L A peers exchanges cy"
  shows "(\<forall>before other ph m r later. cy_calls cy' = before @ PutCall other ph m r # later \<longrightarrow>
       (\<exists>ep rel. before \<noteq> [] \<and> last before = SaveCall ep (Inr ()) \<and>
          bt_get other (ep_relationships ep) = Some rel \<and> queued m rel)) \<and>
    (cell_holds (sl_envelope L) (sl_env L 0) (cy_world cy') (last_saved held (cy_calls cy')) \<or>
     poisoned (sl_envelope L) (cy_world cy'))"
proof -
  have "cycle_ok L held cy" using assms(2,3) by (simp add: cycle_ok_def)
  then have "cycle_ok L held cy'" using assms(1,4) by (simp add: apply_state_def apply_entries_ok)
  then show ?thesis unfolding cycle_ok_def puts_saved_def saved_queue_def by blast
qed


theorem saved_before_sent_witness:
  "\<exists>cy' later. cy' = apply_state sample_sync sample_args [sample_entry] [] sample_cycle \<and>
     cy_calls cy' = [SaveCall sample_owner (Inr ())] @ PutCall (Number 2) (msg_type sample_message) sample_message (Inl TConflict) # later \<and>
     (\<exists>rel. bt_get (Number 2) (ep_relationships sample_owner) = Some rel \<and> queued sample_message rel)"
proof -
  let ?cy = "apply_state sample_sync sample_args [sample_entry] [] sample_cycle"
  obtain later where calls: "cy_calls ?cy =
     [SaveCall sample_owner (Inr ())] @ PutCall (Number 2) (msg_type sample_message) sample_message (Inl TConflict) # later"
    using sample_applied by blast
  have "same_user sample_sync" "cy_calls sample_cycle = []" by (simp_all add: same_user_def sample_sync_def sample_cycle_def)
  from saved_before_sent [OF this(1) sample_cell this(2) refl, THEN conjunct1, rule_format, OF calls] calls
  show ?thesis by auto
qed

text \<open>A cycle changes nothing of the endpoint but relationships, and of those only the ones of peers
  that are listed with a bundle, never one with the endpoint itself or the coordinating server; each
  change is a step of the endpoint's life, so what holds over that life holds across cycles, and the
  secret of the management link is the same before and after.\<close>

theorem cycle_keeps_apart:
  assumes "cy' = apply_state L A peers exchanges cy"
  shows "(ep_step (sl_crypto L) (sl_installer L) (sl_fill L))\<^sup>*\<^sup>* (cy_state cy) (cy_state cy') \<and>
    ep_management (cy_state cy') = ep_management (cy_state cy) \<and>
    (\<forall>j. bt_get j (ep_relationships (cy_state cy')) \<noteq> bt_get j (ep_relationships (cy_state cy)) \<longrightarrow>
       j \<noteq> ep_peer_id (cy_state cy) \<and> j \<noteq> ep_server_id (cy_state cy) \<and>
       (\<exists>i p advertised. ((i, p), False, Some advertised) \<in> set peers \<and> number_new (word_of_int i) = Inr j))"
proof -
  have move: "ep_move L (addressed peers (ep_peer_id (cy_state cy)) (ep_server_id (cy_state cy))) (cy_state cy) (cy_state cy')"
    unfolding assms apply_state_def by (rule apply_entries_move) simp
  then have steps: "(ep_step (sl_crypto L) (sl_installer L) (sl_fill L))\<^sup>*\<^sup>* (cy_state cy) (cy_state cy')"
    by (simp add: ep_move_def)
  with move ep_steps_mono [OF steps] show ?thesis
    unfolding ep_move_def addressed_def ep_mono_def by blast
qed

theorem cycle_keeps_apart_witness:
  "\<exists>cy'. cy' = apply_state sample_sync sample_args [sample_entry] [] sample_cycle \<and> cy_calls cy' \<noteq> [] \<and>
     ep_management (cy_state cy') = sample_link"
  using cycle_keeps_apart [where L = sample_sync and A = sample_args and peers = "[sample_entry]" and exchanges = "[]" and cy = sample_cycle, OF refl] sample_applied
  by (auto simp: sample_cycle_def sample_owner_def sample_endpoint_def)

end
