(* ===== verification/Device.thy ===== *)
theory Device
  imports Database
begin

text \<open>
  WireGuard devices (\<^verbatim>\<open>wireguard-control/src/config.rs\<close>, \<^verbatim>\<open>device.rs\<close>, \<^verbatim>\<open>backends/kernel.rs\<close>): the
  builders of an update, its packing into netlink messages of bounded length, and the reading
  of a device. The netlink crates give the lengths of attributes; the kernel is a parameter.
\<close>

section \<open>Peers and devices\<close>

type_synonym socket_addr = "ip_addr \<times> u16"

record allowed_ip =
  al_address :: ip_addr
  al_cidr :: u8

record peer_config =
  pc_public_key :: bytes
  pc_preshared_key :: "bytes option"
  pc_endpoint :: "socket_addr option"
  pc_keepalive :: "u16 option"
  pc_allowed_ips :: "allowed_ip list"

text \<open>The time of the last handshake is in nanoseconds since the epoch.\<close>

record peer_info =
  pi_config :: peer_config
  pi_last_handshake :: "nat option"
  pi_rx_bytes :: u64
  pi_tx_bytes :: u64

record device =
  dv_name :: string
  dv_public_key :: "bytes option"
  dv_private_key :: "bytes option"
  dv_fwmark :: "u32 option"
  dv_listen_port :: "u16 option"
  dv_peers :: "peer_info list"

record peer_builder =
  pb_public_key :: bytes
  pb_preshared_key :: "bytes option"
  pb_endpoint :: "socket_addr option"
  pb_keepalive :: "u16 option"
  pb_allowed_ips :: "allowed_ip list"
  pb_replace_allowed_ips :: bool
  pb_remove_me :: bool

definition builder_new :: "bytes \<Rightarrow> peer_builder" where
  "builder_new key = \<lparr>pb_public_key = key, pb_preshared_key = None, pb_endpoint = None, pb_keepalive = None,
     pb_allowed_ips = [], pb_replace_allowed_ips = False, pb_remove_me = False\<rparr>"

definition set_preshared_key :: "bytes \<Rightarrow> peer_builder \<Rightarrow> peer_builder" where
  "set_preshared_key key b = b\<lparr>pb_preshared_key := Some key\<rparr>"

definition set_endpoint :: "socket_addr \<Rightarrow> peer_builder \<Rightarrow> peer_builder" where
  "set_endpoint address b = b\<lparr>pb_endpoint := Some address\<rparr>"

definition set_keepalive :: "u16 \<Rightarrow> peer_builder \<Rightarrow> peer_builder" where
  "set_keepalive interval b = b\<lparr>pb_keepalive := Some interval\<rparr>"

definition unset_keepalive :: "peer_builder \<Rightarrow> peer_builder" where
  "unset_keepalive b = set_keepalive 0 b"

definition add_allowed_ips :: "allowed_ip list \<Rightarrow> peer_builder \<Rightarrow> peer_builder" where
  "add_allowed_ips ips b = b\<lparr>pb_allowed_ips := pb_allowed_ips b @ ips\<rparr>"

definition add_allowed_ip :: "ip_addr \<Rightarrow> u8 \<Rightarrow> peer_builder \<Rightarrow> peer_builder" where
  "add_allowed_ip address prefix b = b\<lparr>pb_allowed_ips := pb_allowed_ips b @ [\<lparr>al_address = address, al_cidr = prefix\<rparr>]\<rparr>"

definition replace_allowed_ips :: "peer_builder \<Rightarrow> peer_builder" where
  "replace_allowed_ips b = b\<lparr>pb_replace_allowed_ips := True\<rparr>"

definition builder_remove :: "peer_builder \<Rightarrow> peer_builder" where
  "builder_remove b = b\<lparr>pb_remove_me := True\<rparr>"

lemmas builder_defs = builder_new_def set_preshared_key_def set_endpoint_def set_keepalive_def unset_keepalive_def
  add_allowed_ips_def add_allowed_ip_def replace_allowed_ips_def builder_remove_def

record device_update =
  du_private_key :: "bytes option"
  du_fwmark :: "u32 option"
  du_listen_port :: "u16 option"
  du_peers :: "peer_builder list"
  du_replace_peers :: bool

definition update_new :: device_update where
  "update_new = \<lparr>du_private_key = None, du_fwmark = None, du_listen_port = None, du_peers = [], du_replace_peers = False\<rparr>"

definition add_peers :: "peer_builder list \<Rightarrow> device_update \<Rightarrow> device_update" where
  "add_peers bs u = u\<lparr>du_peers := du_peers u @ bs\<rparr>"

definition add_peer :: "peer_builder \<Rightarrow> device_update \<Rightarrow> device_update" where
  "add_peer b u = u\<lparr>du_peers := du_peers u @ [b]\<rparr>"

section \<open>Netlink attributes\<close>

datatype ip_attr = AFamilyV4 | AFamilyV6 | AIpAddr ip_addr | ACidr u8

datatype peer_flag = RemoveMe | ReplaceAllowedIps

datatype peer_attr =
    PPublicKey bytes | PPresharedKey bytes | PEndpoint socket_addr | PKeepalive u16
  | PAllowedIps "ip_attr list list" | PFlags "peer_flag list" | PLastHandshake int int | PRxBytes u64 | PTxBytes u64

datatype dev_attr =
    DIfName string | DPrivateKey bytes | DPublicKey bytes | DFwmark u32 | DListenPort u16 | DReplacePeers
  | DPeers "peer_attr list list"

datatype io_error = IoNotFound | IoExists | IoInvalid | IoOther

fun find_map :: "('a \<Rightarrow> 'b option) \<Rightarrow> 'a list \<Rightarrow> 'b option" where
  "find_map f [] = None"
| "find_map f (x # xs) = (case f x of Some y \<Rightarrow> Some y | None \<Rightarrow> find_map f xs)"

definition allowed_ip_to_nla :: "allowed_ip \<Rightarrow> ip_attr list" where
  "allowed_ip_to_nla a =
     [case al_address a of IpV4 _ \<Rightarrow> AFamilyV4 | IpV6 _ \<Rightarrow> AFamilyV6, AIpAddr (al_address a), ACidr (al_cidr a)]"

definition allowed_ip_from_nla :: "ip_attr list \<Rightarrow> (io_error, allowed_ip) result" where
  "allowed_ip_from_nla attrs =
     bindR (ok_or (find_map (\<lambda>a. case a of AIpAddr x \<Rightarrow> Some x | _ \<Rightarrow> None) attrs) IoNotFound) (\<lambda>address.
     bindR (ok_or (find_map (\<lambda>a. case a of ACidr x \<Rightarrow> Some x | _ \<Rightarrow> None) attrs) IoNotFound) (\<lambda>prefix.
     Ok \<lparr>al_address = address, al_cidr = prefix\<rparr>))"

definition builder_flags :: "peer_builder \<Rightarrow> peer_flag list" where
  "builder_flags b = (if pb_remove_me b then [RemoveMe] else []) @ (if pb_replace_allowed_ips b then [ReplaceAllowedIps] else [])"

definition builder_to_nla :: "peer_builder \<Rightarrow> peer_attr list" where
  "builder_to_nla b =
     [PPublicKey (pb_public_key b)] @
     (case pb_endpoint b of Some e \<Rightarrow> [PEndpoint e] | None \<Rightarrow> []) @
     (case pb_preshared_key b of Some k \<Rightarrow> [PPresharedKey k] | None \<Rightarrow> []) @
     (case pb_keepalive b of Some i \<Rightarrow> [PKeepalive i] | None \<Rightarrow> []) @
     [PAllowedIps (map allowed_ip_to_nla (pb_allowed_ips b))] @
     (if builder_flags b \<noteq> [] then [PFlags (builder_flags b)] else [])"

fun mapR_nla :: "('a \<Rightarrow> (io_error, 'b) result) \<Rightarrow> 'a list \<Rightarrow> (io_error, 'b list) result" where
  "mapR_nla f [] = Ok []"
| "mapR_nla f (x # xs) = bindR (f x) (\<lambda>y. bindR (mapR_nla f xs) (\<lambda>ys. Ok (y # ys)))"

text \<open>A handshake time of zero is none; a negative one is refused.\<close>

definition handshake_time :: "int \<times> int \<Rightarrow> (io_error, nat option) result" where
  "handshake_time = (\<lambda>(seconds, nanos).
     if (seconds, nanos) = (0, 0) then Ok None
     else if seconds < 0 then Err IoOther
     else if nanos < 0 \<or> nanos \<ge> 2 ^ 32 then Err IoOther
     else Ok (Some (nat seconds * 1000000000 + nat nanos)))"

definition peer_info_from_nla :: "peer_attr list \<Rightarrow> (io_error, peer_info) result" where
  "peer_info_from_nla attrs =
     bindR (ok_or (find_map (\<lambda>a. case a of PPublicKey k \<Rightarrow> Some k | _ \<Rightarrow> None) attrs) IoNotFound) (\<lambda>key.
     let psk = find_map (\<lambda>a. case a of PPresharedKey k \<Rightarrow> Some k | _ \<Rightarrow> None) attrs;
         endpoint = find_map (\<lambda>a. case a of PEndpoint e \<Rightarrow> Some e | _ \<Rightarrow> None) attrs;
         keepalive = find_map (\<lambda>a. case a of PKeepalive i \<Rightarrow> Some i | _ \<Rightarrow> None) attrs;
         ips = (case find_map (\<lambda>a. case a of PAllowedIps l \<Rightarrow> Some l | _ \<Rightarrow> None) attrs of None \<Rightarrow> [] | Some l \<Rightarrow> l) in
     bindR (mapR_nla allowed_ip_from_nla ips) (\<lambda>allowed_ips.
     bindR (case find_map (\<lambda>a. case a of PLastHandshake s n \<Rightarrow> Some (s, n) | _ \<Rightarrow> None) attrs of
              None \<Rightarrow> Ok None | Some t \<Rightarrow> handshake_time t) (\<lambda>last_handshake.
     Ok \<lparr>pi_config = \<lparr>pc_public_key = key, pc_preshared_key = psk, pc_endpoint = endpoint,
           pc_keepalive = keepalive, pc_allowed_ips = allowed_ips\<rparr>,
         pi_last_handshake = last_handshake,
         pi_rx_bytes = (case find_map (\<lambda>a. case a of PRxBytes n \<Rightarrow> Some n | _ \<Rightarrow> None) attrs of None \<Rightarrow> 0 | Some n \<Rightarrow> n),
         pi_tx_bytes = (case find_map (\<lambda>a. case a of PTxBytes n \<Rightarrow> Some n | _ \<Rightarrow> None) attrs of None \<Rightarrow> 0 | Some n \<Rightarrow> n)\<rparr>)))"

text \<open>\<^verbatim>\<open>InterfaceName::from_str\<close>: at most 15 bytes, none of them NUL, a slash or white space.\<close>

datatype name_error = NameEmpty | NameTooLong | NameInvalidChars

definition name_char_bad :: "char \<Rightarrow> bool" where
  "name_char_bad c \<longleftrightarrow> c \<in> {CHR 0x00, CHR ''/'', CHR '' '', CHR 0x09, CHR 0x0A, CHR 0x0C, CHR 0x0D}"

definition interface_name :: "string \<Rightarrow> (name_error, string) result" where
  "interface_name name =
     bindR (guardR (\<not> length name = 0) NameEmpty) (\<lambda>_.
     bindR (guardR (\<not> length name > 16 - 1) NameTooLong) (\<lambda>_.
     bindR (guardR (\<not> list_ex name_char_bad name) NameInvalidChars) (\<lambda>_. Ok name)))"

definition device_from_nlas :: "dev_attr list \<Rightarrow> (io_error, device) result" where
  "device_from_nlas nlas =
     bindR (ok_or (find_map (\<lambda>a. case a of DIfName n \<Rightarrow> Some n | _ \<Rightarrow> None) nlas) IoNotFound) (\<lambda>n.
     bindR (map_err (\<lambda>_. IoInvalid) (interface_name n)) (\<lambda>name.
     bindR (mapR_nla peer_info_from_nla (concat (map (\<lambda>a. case a of DPeers ps \<Rightarrow> ps | _ \<Rightarrow> []) nlas))) (\<lambda>peers.
     Ok \<lparr>dv_name = name,
         dv_public_key = find_map (\<lambda>a. case a of DPublicKey k \<Rightarrow> Some k | _ \<Rightarrow> None) nlas,
         dv_private_key = find_map (\<lambda>a. case a of DPrivateKey k \<Rightarrow> Some k | _ \<Rightarrow> None) nlas,
         dv_fwmark = find_map (\<lambda>a. case a of DFwmark k \<Rightarrow> Some k | _ \<Rightarrow> None) nlas,
         dv_listen_port = find_map (\<lambda>a. case a of DListenPort k \<Rightarrow> Some k | _ \<Rightarrow> None) nlas,
         dv_peers = peers\<rparr>)))"

section \<open>Packing an update into messages\<close>

record nla_sizes =
  ns_max :: nat
  ns_attr :: "dev_attr \<Rightarrow> nat"
  ns_attrs :: "dev_attr list \<Rightarrow> nat"
  ns_peer :: "peer_attr list \<Rightarrow> nat"

record payload =
  py_iface :: string
  py_nlas :: "dev_attr list"
  py_len :: nat
  py_queue :: "dev_attr list list"

definition payload_new :: "nla_sizes \<Rightarrow> string \<Rightarrow> payload" where
  "payload_new N iface =
     \<lparr>py_iface = iface, py_nlas = [DIfName iface], py_len = ns_attrs N [DIfName iface], py_queue = []\<rparr>"

definition flush_nlas :: "nla_sizes \<Rightarrow> payload \<Rightarrow> payload" where
  "flush_nlas N p =
     (let nlas = filter (\<lambda>a. a \<noteq> DPeers []) (py_nlas p); template = [DIfName (py_iface p)] in
      if nlas \<noteq> [] \<and> nlas \<noteq> template
      then p\<lparr>py_nlas := template, py_len := ns_attrs N template, py_queue := py_queue p @ [nlas]\<rparr>
      else p\<lparr>py_nlas := nlas\<rparr>)"

definition push_nla :: "nla_sizes \<Rightarrow> dev_attr \<Rightarrow> payload \<Rightarrow> (io_error, payload) result" where
  "push_nla N a p =
     (let p1 = (if py_len p + ns_attr N a > ns_max N then flush_nlas N p else p) in
      if py_len p1 + ns_attr N a > ns_max N then Err IoInvalid
      else Ok (p1\<lparr>py_nlas := py_nlas p1 @ [a], py_len := py_len p1 + ns_attr N a\<rparr>))"

text \<open>The first list of peers gets one more; there is one where the code expects it (\<open>push_peer_expected\<close>).\<close>

fun into_peers :: "peer_attr list \<Rightarrow> dev_attr list \<Rightarrow> dev_attr list" where
  "into_peers q [] = []"
| "into_peers q (a # as) = (case a of DPeers ps \<Rightarrow> DPeers (ps @ [q]) # as | _ \<Rightarrow> a # into_peers q as)"

definition has_peers :: "dev_attr list \<Rightarrow> bool" where
  "has_peers nlas = list_ex (\<lambda>a. case a of DPeers _ \<Rightarrow> True | _ \<Rightarrow> False) nlas"

definition push_peer :: "nla_sizes \<Rightarrow> peer_attr list \<Rightarrow> payload \<Rightarrow> (io_error, payload) result" where
  "push_peer N q p =
     (let needs = \<not> has_peers (py_nlas p);
          full = py_len p + (ns_peer N q + (if needs then ns_attr N (DPeers []) else 0)) > ns_max N;
          p1 = (if full then flush_nlas N p else p) in
      bindR (if needs \<or> full then push_nla N (DPeers []) p1 else Ok p1) (\<lambda>p2.
      if py_len p2 + ns_peer N q > ns_max N then Err IoInvalid
      else Ok (p2\<lparr>py_nlas := into_peers q (py_nlas p2), py_len := py_len p2 + ns_peer N q\<rparr>)))"

fun push_peers :: "nla_sizes \<Rightarrow> peer_builder list \<Rightarrow> payload \<Rightarrow> (io_error, payload) result" where
  "push_peers N [] p = Ok p"
| "push_peers N (b # bs) p = bindR (push_peer N (builder_to_nla b) p) (push_peers N bs)"

definition push_if :: "nla_sizes \<Rightarrow> dev_attr option \<Rightarrow> payload \<Rightarrow> (io_error, payload) result" where
  "push_if N a p = (case a of None \<Rightarrow> Ok p | Some x \<Rightarrow> push_nla N x p)"

definition payload_finish :: "nla_sizes \<Rightarrow> payload \<Rightarrow> dev_attr list list" where
  "payload_finish N p = py_queue (flush_nlas N p)"

text \<open>The messages of \<^verbatim>\<open>apply\<close>.\<close>

definition apply_messages :: "nla_sizes \<Rightarrow> device_update \<Rightarrow> string \<Rightarrow> (io_error, dev_attr list list) result" where
  "apply_messages N u iface =
     bindR (push_if N (map_option DPrivateKey (du_private_key u)) (payload_new N iface)) (\<lambda>p1.
     bindR (push_if N (map_option DFwmark (du_fwmark u)) p1) (\<lambda>p2.
     bindR (push_if N (map_option DListenPort (du_listen_port u)) p2) (\<lambda>p3.
     bindR (push_if N (if du_replace_peers u then Some DReplacePeers else None) p3) (\<lambda>p4.
     bindR (push_peers N (du_peers u) p4) (\<lambda>p5.
     Ok (payload_finish N p5))))))"

text \<open>The kernel: links are added and deleted, devices are set and dumped.\<close>

record 'k kernel =
  kn_add :: "string \<Rightarrow> ('k, io_error, unit) comp"
  kn_del :: "string \<Rightarrow> ('k, io_error, unit) comp"
  kn_set :: "dev_attr list \<Rightarrow> ('k, io_error, unit) comp"
  kn_get :: "string \<Rightarrow> ('k, io_error, dev_attr list list) comp"

definition add_del :: "'k kernel \<Rightarrow> string \<Rightarrow> bool \<Rightarrow> ('k, io_error, unit) comp" where
  "add_del K iface add k =
     (case (if add then kn_add K iface k else kn_del K iface k) of
        (Inl e, k') \<Rightarrow> (if e \<noteq> IoExists then Err e else Ok (), k')
      | (Inr _, k') \<Rightarrow> (Ok (), k'))"

fun send_all :: "'k kernel \<Rightarrow> dev_attr list list \<Rightarrow> ('k, io_error, unit) comp" where
  "send_all K [] = retS ()"
| "send_all K (m # ms) = bindS (kn_set K m) (\<lambda>_. send_all K ms)"

definition apply_update :: "nla_sizes \<Rightarrow> 'k kernel \<Rightarrow> device_update \<Rightarrow> string \<Rightarrow> ('k, io_error, unit) comp" where
  "apply_update N K u iface =
     bindS (add_del K iface True) (\<lambda>_.
     bindS (liftS (apply_messages N u iface)) (\<lambda>messages.
     send_all K messages))"

definition device_get :: "'k kernel \<Rightarrow> string \<Rightarrow> ('k, io_error, device) comp" where
  "device_get K iface =
     bindS (kn_get K iface) (\<lambda>responses.
     liftS (device_from_nlas (concat responses)))"

end
