(* ===== verification/PeerSync.thy ===== *)
theory PeerSync
  imports Device
begin

text \<open>
  What a client makes of the peers it is told about: the comparison of the peers on its
  interface with the server's (\<^verbatim>\<open>shared/src/types.rs\<close>, \<^verbatim>\<open>shared/src/wg.rs\<close>), and the cached
  directory that pins their keys (\<^verbatim>\<open>client-core/src/data_store.rs\<close>). Name resolution and JSON
  are parameters.
\<close>

section \<open>One peer\<close>

definition peer_allowed_ip :: "peer \<Rightarrow> allowed_ip" where
  "peer_allowed_ip p =
     \<lparr>al_address = pe_ip p, al_cidr = (case pe_ip p of IpV4 _ \<Rightarrow> 32 | IpV6 _ \<Rightarrow> 128)\<rparr>"

datatype peer_change =
    ChAllowedIps "allowed_ip list" "allowed_ip list"
  | ChKeepalive "u16 option" "u16 option"
  | ChEndpoint "socket_addr option" "socket_addr option"
  | ChNatReattempt

record peer_diff =
  df_old :: "peer_config option"
  df_new :: "(int \<times> peer) option"
  df_builder :: peer_builder
  df_changes :: "peer_change list"

text \<open>What the comparison is given: base64, name resolution, and the clock in nanoseconds.\<close>

record diff_lib =
  dl_base64 :: base64
  dl_resolve :: "host_port \<Rightarrow> socket_addr option"
  dl_now :: nat

definition to_base64 :: "diff_lib \<Rightarrow> bytes \<Rightarrow> string" where
  "to_base64 D k = b64_encode (dl_base64 D) k"

definition key_of_text :: "diff_lib \<Rightarrow> string \<Rightarrow> bytes option" where
  "key_of_text D s =
     (case b64_decode (dl_base64 D) s of
        None \<Rightarrow> None | Some bs \<Rightarrow> if length bs \<noteq> 32 then None else Some bs)"

definition reject_after_time :: nat where
  "reject_after_time = 180 * 1000000000"

text \<open>A handshake in the future counts as none.\<close>

definition is_recently_connected :: "nat \<Rightarrow> peer_info \<Rightarrow> bool" where
  "is_recently_connected now i =
     (case pi_last_handshake i of
        None \<Rightarrow> False
      | Some t \<Rightarrow> if now < t then False else now - t \<le> reject_after_time)"

datatype diff_error = KeysDiffer | BadKey

definition diff_allowed_ips :: "peer_config option \<Rightarrow> peer \<Rightarrow> peer_builder \<times> peer_change list \<Rightarrow> peer_builder \<times> peer_change list" where
  "diff_allowed_ips old p = (\<lambda>(b, changes).
     let new_ips = [peer_allowed_ip p] in
     if old = None \<or> pred_option (\<lambda>c. pc_allowed_ips c \<noteq> new_ips) old
     then (add_allowed_ips new_ips (replace_allowed_ips b),
           changes @ [ChAllowedIps (case old of None \<Rightarrow> [] | Some c \<Rightarrow> pc_allowed_ips c) new_ips])
     else (b, changes))"

definition diff_keepalive :: "peer_config option \<Rightarrow> peer \<Rightarrow> peer_builder \<times> peer_change list \<Rightarrow> peer_builder \<times> peer_change list" where
  "diff_keepalive old p = (\<lambda>(b, changes).
     if old = None \<or> pred_option (\<lambda>c. pc_keepalive c \<noteq> pe_keepalive p) old
     then (case pe_keepalive p of Some n \<Rightarrow> set_keepalive n b | None \<Rightarrow> unset_keepalive b,
           changes @ [ChKeepalive (case old of None \<Rightarrow> None | Some c \<Rightarrow> pc_keepalive c) (pe_keepalive p)])
     else (b, changes))"

text \<open>The endpoint is left alone while the connection is stable.\<close>

definition diff_endpoint ::
    "diff_lib \<Rightarrow> peer_info option \<Rightarrow> peer \<Rightarrow> peer_builder \<times> peer_change list \<Rightarrow> peer_builder \<times> peer_change list" where
  "diff_endpoint D old_info p = (\<lambda>(b, changes).
     if pred_option (is_recently_connected (dl_now D)) old_info \<and> old_info \<noteq> None then (b, changes)
     else
       let resolved = (case pe_endpoint p of None \<Rightarrow> None | Some e \<Rightarrow> dl_resolve D e);
           old = map_option pi_config old_info in
       (case resolved of
          Some addr \<Rightarrow>
            if old = None \<or> pred_option (\<lambda>c. pc_endpoint c \<noteq> resolved) old
            then (set_endpoint addr b,
                  changes @ [ChEndpoint (case old of None \<Rightarrow> None | Some c \<Rightarrow> pc_endpoint c) (Some addr)])
            else (b, if pe_candidates p \<noteq> [] then changes @ [ChNatReattempt] else changes)
        | None \<Rightarrow> (b, if pe_candidates p \<noteq> [] then changes @ [ChNatReattempt] else changes)))"

text \<open>A key that cannot be read makes the original panic; here it is \<open>BadKey\<close>.\<close>

definition peer_config_builder ::
    "diff_lib \<Rightarrow> peer_info option \<Rightarrow> peer option \<Rightarrow> (diff_error, (peer_builder \<times> peer_change list) option) result" where
  "peer_config_builder D old_info new =
     (let old = map_option pi_config old_info in
      case (case (old, new) of
              (Some c, _) \<Rightarrow> Some (Ok (pc_public_key c))
            | (None, Some p) \<Rightarrow> Some (ok_or (key_of_text D (pe_public_key p)) BadKey)
            | (None, None) \<Rightarrow> None) of
        None \<Rightarrow> Ok None
      | Some key \<Rightarrow>
          bindR key (\<lambda>k.
          let b = builder_new k in
          case new of
            None \<Rightarrow> Ok (Some (builder_remove b, []))
          | Some p \<Rightarrow>
              if pe_is_disabled p then Ok (Some (builder_remove b, []))
              else
                let (b', changes) = diff_endpoint D old_info p (diff_keepalive old p (diff_allowed_ips old p (b, []))) in
                Ok (if changes \<noteq> [] then Some (b', changes) else None)))"

definition peer_diff_new ::
    "diff_lib \<Rightarrow> peer_info option \<Rightarrow> (int \<times> peer) option \<Rightarrow> (diff_error, peer_diff option) result" where
  "peer_diff_new D old_info new =
     (case (old_info, new) of
        (None, None) \<Rightarrow> Ok None
      | _ \<Rightarrow>
          bindR (guardR (\<not> (old_info \<noteq> None \<and> new \<noteq> None \<and>
              to_base64 D (pc_public_key (pi_config (the old_info))) \<noteq> pe_public_key (snd (the new)))) KeysDiffer) (\<lambda>_.
          bindR (peer_config_builder D old_info (map_option snd new)) (\<lambda>built.
          Ok (map_option (\<lambda>(b, changes). \<lparr>df_old = map_option pi_config old_info, df_new = new,
            df_builder = b, df_changes = changes\<rparr>) built))))"

section \<open>A whole interface\<close>

fun filter_mapR :: "('a \<Rightarrow> ('e, 'b option) result) \<Rightarrow> 'a list \<Rightarrow> ('e, 'b list) result" where
  "filter_mapR f [] = Ok []"
| "filter_mapR f (x # xs) =
     bindR (f x) (\<lambda>y. bindR (filter_mapR f xs) (\<lambda>ys. Ok (case y of None \<Rightarrow> ys | Some z \<Rightarrow> z # ys)))"

definition diff_listed :: "diff_lib \<Rightarrow> device \<Rightarrow> int \<times> peer \<Rightarrow> (diff_error, peer_diff option) result" where
  "diff_listed D dev = (\<lambda>(i, p).
     if pe_is_disabled p \<or>
        pe_public_key p = (case dv_public_key dev of None \<Rightarrow> [] | Some k \<Rightarrow> to_base64 D k)
     then Ok None
     else peer_diff_new D
       (List.find (\<lambda>c. to_base64 D (pc_public_key (pi_config c)) = pe_public_key p) (dv_peers dev)) (Some (i, p)))"

definition diff_removed :: "diff_lib \<Rightarrow> (int \<times> peer) list \<Rightarrow> peer_info \<Rightarrow> (diff_error, peer_diff option) result" where
  "diff_removed D peers existing =
     (if list_ex (\<lambda>(i, p). pe_public_key p = to_base64 D (pc_public_key (pi_config existing))) peers
      then Ok None else peer_diff_new D (Some existing) None)"

definition device_diff :: "diff_lib \<Rightarrow> device \<Rightarrow> (int \<times> peer) list \<Rightarrow> (diff_error, peer_diff list) result" where
  "device_diff D dev peers =
     bindR (filter_mapR (diff_listed D dev) peers) (\<lambda>modifications.
     bindR (filter_mapR (diff_removed D peers) (dv_peers dev)) (\<lambda>removals.
     Ok (modifications @ removals)))"

text \<open>\<^verbatim>\<open>wg::up\<close>, as far as it configures the device; the server is its first peer.\<close>

record server_peer =
  sp_public_key :: string
  sp_address :: ip_addr
  sp_endpoint :: socket_addr
  sp_preshared_key :: "bytes option"

definition server_builder :: "diff_lib \<Rightarrow> server_peer \<Rightarrow> peer_builder option" where
  "server_builder D s =
     map_option (\<lambda>k.
       let b = set_endpoint (sp_endpoint s) (set_keepalive 25
             (add_allowed_ip (sp_address s) (case sp_address s of IpV4 _ \<Rightarrow> 32 | IpV6 _ \<Rightarrow> 128) (builder_new k))) in
       (case sp_preshared_key s of None \<Rightarrow> b | Some psk \<Rightarrow> set_preshared_key psk b))
     (key_of_text D (sp_public_key s))"

section \<open>The cached directory\<close>

record directory =
  ds_peers :: "(int \<times> peer) list"
  ds_cidrs :: "(int \<times> cidr) list"

text \<open>A peer of a known address must have the known key; the address decides.\<close>

fun pin_peer :: "int \<times> peer \<Rightarrow> (int \<times> peer) list \<Rightarrow> (int \<times> peer) list option" where
  "pin_peer np [] = Some [np]"
| "pin_peer np (e # es) =
     (if pe_ip (snd e) = pe_ip (snd np)
      then (if pe_public_key (snd e) \<noteq> pe_public_key (snd np) then None else Some (np # es))
      else map_option (\<lambda>es'. e # es') (pin_peer np es))"

text \<open>On a conflict the peers handled before stay changed.\<close>

fun pin_peers :: "(int \<times> peer) list \<Rightarrow> (int \<times> peer) list \<Rightarrow> bool \<times> (int \<times> peer) list" where
  "pin_peers [] es = (True, es)"
| "pin_peers (np # nps) es = (case pin_peer np es of None \<Rightarrow> (False, es) | Some es' \<Rightarrow> pin_peers nps es')"

definition disable_absent :: "(int \<times> peer) list \<Rightarrow> (int \<times> peer) list \<Rightarrow> (int \<times> peer) list" where
  "disable_absent new_peers es =
     map (\<lambda>(i, p). if \<not> list_ex (\<lambda>(j, q). pe_public_key q = pe_public_key p) new_peers
       then (i, p\<lparr>pe_is_disabled := True\<rparr>) else (i, p)) es"

datatype store_failure = PinningError | WriteFailed

definition update_peers :: "(int \<times> peer) list \<Rightarrow> (directory, store_failure, unit) comp" where
  "update_peers new_peers d =
     (case pin_peers new_peers (ds_peers d) of
        (False, es) \<Rightarrow> (Err PinningError, d\<lparr>ds_peers := es\<rparr>)
      | (True, es) \<Rightarrow> (Ok (), d\<lparr>ds_peers := disable_absent new_peers es\<rparr>))"

text \<open>The file: rewound, truncated, and then written; any of these may fail, and the serialization too.\<close>

datatype write_fate = WriteSucceeds | RewindFails | TruncateFails | WriteFails nat

record directory_lib =
  dy_print :: "directory \<Rightarrow> string option"
  dy_parse :: "string \<Rightarrow> directory option"

definition write_directory :: "directory_lib \<Rightarrow> write_fate \<Rightarrow> directory \<Rightarrow> string \<Rightarrow> (store_failure, unit) result \<times> string" where
  "write_directory J fate d text_before =
     (case fate of
        RewindFails \<Rightarrow> (Err WriteFailed, text_before)
      | TruncateFails \<Rightarrow> (Err WriteFailed, text_before)
      | _ \<Rightarrow>
          (case dy_print J d of
             None \<Rightarrow> (Err WriteFailed, [])
           | Some s \<Rightarrow> (case fate of WriteFails n \<Rightarrow> (Err WriteFailed, take n s) | _ \<Rightarrow> (Ok (), s))))"

definition open_directory_file :: "directory_lib \<Rightarrow> string \<Rightarrow> directory" where
  "open_directory_file J s = (case dy_parse J s of None \<Rightarrow> \<lparr>ds_peers = [], ds_cidrs = []\<rparr> | Some d \<Rightarrow> d)"

definition update_peers_and_set_cidrs ::
    "directory_lib \<Rightarrow> write_fate \<Rightarrow> (int \<times> peer) list \<Rightarrow> (int \<times> cidr) list
      \<Rightarrow> (directory \<times> string, store_failure, unit) comp" where
  "update_peers_and_set_cidrs J fate new_peers new_cidrs = (\<lambda>(d, file_text).
     case update_peers new_peers d of
       (Inl e, d') \<Rightarrow> (Err e, (d', file_text))
     | (Inr _, d') \<Rightarrow>
         let d'' = d'\<lparr>ds_cidrs := new_cidrs\<rparr> in
         (case write_directory J fate d'' file_text of (r, s) \<Rightarrow> (r, (d'', s))))"

end
