(* ===== verification/Gate.thy ===== *)
theory Gate
  imports PeerSync Sync
begin

text \<open>
  The data gate of a client and the installer that works behind it (\<^verbatim>\<open>client-core/src/gate.rs\<close>,
  \<^verbatim>\<open>client-core/src/pq_install.rs\<close>): the nftables scripts, closing and opening the gate of an
  address, recreating a peer with a new preshared key, and looking for its first handshake.
  \<^verbatim>\<open>nft\<close> is a parameter that is given each command and its text.
\<close>

section \<open>Scripts\<close>

datatype nft_command =
    DeleteTable | CreateTable "allowed_ip list" | EnsureTable | AddElements "allowed_ip list" | DeleteElement allowed_ip

record 'g gate_lib =
  gl_show_ip :: "ip_addr \<Rightarrow> string"
  gl_nft :: "nft_command \<Rightarrow> string \<Rightarrow> ('g, io_error, unit) comp"

definition table_name :: "string \<Rightarrow> string" where
  "table_name iface = ''innernet_pq_data_'' @ iface"

definition element_text :: "'g gate_lib \<Rightarrow> allowed_ip \<Rightarrow> string" where
  "element_text G a = gl_show_ip G (al_address a) @ ''/'' @ dec_of_nat (unat (al_cidr a))"

definition is_v4 :: "allowed_ip \<Rightarrow> bool" where
  "is_v4 a = (case al_address a of IpV4 _ \<Rightarrow> True | IpV6 _ \<Rightarrow> False)"

definition split_by_family :: "'g gate_lib \<Rightarrow> allowed_ip list \<Rightarrow> string list \<times> string list" where
  "split_by_family G ips =
     (map (element_text G) (filter is_v4 ips), map (element_text G) (filter (\<lambda>a. \<not> is_v4 a) ips))"

fun join :: "string \<Rightarrow> string list \<Rightarrow> string" where
  "join sep [] = []"
| "join sep [s] = s"
| "join sep (s # t # rest) = s @ sep @ join sep (t # rest)"

definition newline :: string where
  "newline = [CHR 0x0A]"

definition quoted :: "string \<Rightarrow> string" where
  "quoted s = CHR 0x22 # s @ [CHR 0x22]"

definition spaces :: "nat \<Rightarrow> string" where
  "spaces n = replicate n (CHR '' '')"

text \<open>One rule, by its chain's direction, the interface and the set.\<close>

definition drop_rule :: "string \<Rightarrow> string \<Rightarrow> string \<Rightarrow> string \<Rightarrow> string" where
  "drop_rule side iface match set_name = side @ '' '' @ quoted iface @ '' '' @ match @ '' @'' @ set_name @ '' drop''"

definition chain_header :: "string \<Rightarrow> string" where
  "chain_header hook = ''type filter hook '' @ hook @ '' priority filter + 10; policy accept;''"

definition chain_rules :: "string \<Rightarrow> string \<Rightarrow> string list" where
  "chain_rules iface chain =
     (if chain \<noteq> ''output'' then
        [drop_rule ''iifname'' iface ''ip saddr'' ''blocked_v4'', drop_rule ''iifname'' iface ''ip6 saddr'' ''blocked_v6'']
      else []) @
     (if chain \<noteq> ''input'' then
        [drop_rule ''oifname'' iface ''ip daddr'' ''blocked_v4'', drop_rule ''oifname'' iface ''ip6 daddr'' ''blocked_v6'']
      else [])"

definition chains :: "string \<Rightarrow> string" where
  "chains iface = concat (map (\<lambda>chain.
     spaces 4 @ ''chain '' @ chain @ '' {'' @ newline @
     spaces 8 @ chain_header chain @ newline @
     concat (map (\<lambda>r. spaces 8 @ r @ newline) (chain_rules iface chain)) @
     spaces 4 @ ''}'' @ newline) [''input'', ''output'', ''forward''])"

definition elements_text :: "string list \<Rightarrow> string" where
  "elements_text es = (if es = [] then [] else newline @ spaces 17 @ ''elements = { '' @ join '', '' es @ '' }'')"

definition data_ruleset :: "'g gate_lib \<Rightarrow> string \<Rightarrow> allowed_ip list \<Rightarrow> string" where
  "data_ruleset G iface blocked = (case split_by_family G blocked of (v4, v6) \<Rightarrow>
     ''table inet '' @ table_name iface @ '' {'' @ newline @
     spaces 4 @ ''set blocked_v4 {'' @ newline @
     spaces 8 @ ''type ipv4_addr'' @ newline @
     spaces 8 @ ''flags interval'' @ elements_text v4 @ newline @
     spaces 4 @ ''}'' @ newline @
     spaces 4 @ ''set blocked_v6 {'' @ newline @
     spaces 8 @ ''type ipv6_addr'' @ newline @
     spaces 8 @ ''flags interval'' @ elements_text v6 @ newline @
     spaces 4 @ ''}'' @ newline @
     chains iface @ ''}'' @ newline)"

definition ensure_exists_ruleset :: "string \<Rightarrow> string" where
  "ensure_exists_ruleset iface = (let table = table_name iface in
     ''add table inet '' @ table @ newline @
     ''add set inet '' @ table @ '' blocked_v4 { type ipv4_addr; flags interval; }'' @ newline @
     ''add set inet '' @ table @ '' blocked_v6 { type ipv6_addr; flags interval; }'' @ newline @
     concat (map (\<lambda>chain. ''add chain inet '' @ table @ '' '' @ chain @ '' { '' @ chain_header chain @ '' }'' @ newline)
       [''input'', ''output'', ''forward'']) @
     concat (map (\<lambda>chain. concat (map (\<lambda>r. ''add rule inet '' @ table @ '' '' @ chain @ '' '' @ r @ newline)
       (chain_rules iface chain))) [''input'', ''output'', ''forward'']))"

definition add_script :: "'g gate_lib \<Rightarrow> string \<Rightarrow> allowed_ip list \<Rightarrow> string" where
  "add_script G iface ips = (case split_by_family G ips of (v4, v6) \<Rightarrow>
     (if v4 \<noteq> [] then ''add element inet '' @ table_name iface @ '' blocked_v4 { '' @ join '', '' v4 @ '' }'' @ newline else []) @
     (if v6 \<noteq> [] then ''add element inet '' @ table_name iface @ '' blocked_v6 { '' @ join '', '' v6 @ '' }'' @ newline else []))"

definition delete_script :: "'g gate_lib \<Rightarrow> string \<Rightarrow> allowed_ip \<Rightarrow> string" where
  "delete_script G iface a = ''delete element inet '' @ table_name iface @
     (if is_v4 a then '' blocked_v4 { '' else '' blocked_v6 { '') @ element_text G a @ '' }'' @ newline"

definition nft_text :: "'g gate_lib \<Rightarrow> string \<Rightarrow> nft_command \<Rightarrow> string" where
  "nft_text G iface c =
     (case c of
        DeleteTable \<Rightarrow> ''delete table inet '' @ table_name iface @ newline
      | CreateTable ips \<Rightarrow> data_ruleset G iface ips
      | EnsureTable \<Rightarrow> ensure_exists_ruleset iface
      | AddElements ips \<Rightarrow> add_script G iface ips
      | DeleteElement a \<Rightarrow> delete_script G iface a)"

definition run_nft :: "'g gate_lib \<Rightarrow> string \<Rightarrow> nft_command \<Rightarrow> ('g, io_error, unit) comp" where
  "run_nft G iface c = gl_nft G c (nft_text G iface c)"

section \<open>The gate\<close>

definition gate_clear :: "'g gate_lib \<Rightarrow> string \<Rightarrow> ('g, io_error, unit) comp" where
  "gate_clear G iface g = (Ok (), snd (run_nft G iface DeleteTable g))"

definition gate_apply_all :: "'g gate_lib \<Rightarrow> string \<Rightarrow> allowed_ip list \<Rightarrow> ('g, io_error, unit) comp" where
  "gate_apply_all G iface blocked =
     bindS (gate_clear G iface) (\<lambda>_. run_nft G iface (CreateTable blocked))"

definition gate_block :: "'g gate_lib \<Rightarrow> string \<Rightarrow> allowed_ip list \<Rightarrow> ('g, io_error, unit) comp" where
  "gate_block G iface ips =
     bindS (run_nft G iface EnsureTable) (\<lambda>_.
     if add_script G iface ips = [] then retS () else run_nft G iface (AddElements ips))"

text \<open>Whether an element could be deleted does not matter.\<close>

fun delete_all :: "'g gate_lib \<Rightarrow> string \<Rightarrow> allowed_ip list \<Rightarrow> 'g \<Rightarrow> 'g" where
  "delete_all G iface [] g = g"
| "delete_all G iface (a # as) g = delete_all G iface as (snd (run_nft G iface (DeleteElement a) g))"

definition gate_release :: "'g gate_lib \<Rightarrow> string \<Rightarrow> allowed_ip list \<Rightarrow> ('g, io_error, unit) comp" where
  "gate_release G iface ips g =
     (Ok (), delete_all G iface (filter is_v4 ips @ filter (\<lambda>a. \<not> is_v4 a) ips) g)"

section \<open>The installer\<close>

record ('k, 'g) node =
  no_kernel :: 'k
  no_gate :: 'g

record ('k, 'g) node_lib =
  nn_iface :: string
  nn_sizes :: nla_sizes
  nn_kernel :: "'k kernel"
  nn_gate :: "'g gate_lib"
  nn_diff :: diff_lib

definition on_kernel :: "('k, io_error, 'a) comp \<Rightarrow> (('k, 'g) node, io_error, 'a) comp" where
  "on_kernel m n = (case m (no_kernel n) of (r, k) \<Rightarrow> (r, n\<lparr>no_kernel := k\<rparr>))"

definition on_gate :: "('g, io_error, 'a) comp \<Rightarrow> (('k, 'g) node, io_error, 'a) comp" where
  "on_gate m n = (case m (no_gate n) of (r, g) \<Rightarrow> (r, n\<lparr>no_gate := g\<rparr>))"

definition find_peer :: "diff_lib \<Rightarrow> (int \<times> peer) list \<Rightarrow> pq_bundle \<Rightarrow> peer option" where
  "find_peer D peers bu = map_option snd (List.find (\<lambda>(i, p). pe_public_key p = to_base64 D (bu_wg bu)) peers)"

definition install_builder :: "diff_lib \<Rightarrow> bytes \<Rightarrow> peer \<Rightarrow> bytes \<Rightarrow> peer_builder" where
  "install_builder D key p psk =
     (let b = set_preshared_key psk (add_allowed_ip (al_address (peer_allowed_ip p)) (al_cidr (peer_allowed_ip p))
            (replace_allowed_ips (builder_new key)));
          b1 = (case pe_keepalive p of Some interval \<Rightarrow> set_keepalive interval b | None \<Rightarrow> b) in
      (case (case pe_endpoint p of None \<Rightarrow> None | Some e \<Rightarrow> dl_resolve D e) of
         Some address \<Rightarrow> set_endpoint address b1 | None \<Rightarrow> b1))"

definition set_device :: "('k, 'g) node_lib \<Rightarrow> peer_builder \<Rightarrow> (('k, 'g) node, pq_error, unit) comp" where
  "set_device N b =
     errS (\<lambda>_. EInstaller) (on_kernel (apply_update (nn_sizes N) (nn_kernel N) (add_peer b update_new) (nn_iface N)))"

definition real_install ::
    "('k, 'g) node_lib \<Rightarrow> (int \<times> peer) list \<Rightarrow> pq_bundle \<Rightarrow> candidate \<Rightarrow> (('k, 'g) node, pq_error, unit) comp" where
  "real_install N peers bu cand =
     bindS (liftS (ok_or (find_peer (nn_diff N) peers bu) EInstaller)) (\<lambda>p.
     bindS (liftS (ok_or (key_of_text (nn_diff N) (pe_public_key p)) EInstaller)) (\<lambda>key.
     bindS (errS (\<lambda>_. EInstaller) (on_gate (gate_block (nn_gate N) (nn_iface N) [peer_allowed_ip p]))) (\<lambda>_.
     bindS (set_device N (builder_remove (builder_new key))) (\<lambda>_.
     set_device N (install_builder (nn_diff N) key p (cd_psk cand))))))"

definition shows_handshake :: "bytes \<Rightarrow> device \<Rightarrow> bool" where
  "shows_handshake key dev =
     (case List.find (\<lambda>i. pc_public_key (pi_config i) = key) (dv_peers dev) of
        None \<Rightarrow> False | Some i \<Rightarrow> pi_last_handshake i \<noteq> None)"

definition real_fresh ::
    "('k, 'g) node_lib \<Rightarrow> (int \<times> peer) list \<Rightarrow> pq_bundle \<Rightarrow> (('k, 'g) node, pq_error, bool) comp" where
  "real_fresh N peers bu =
     bindS (liftS (ok_or (find_peer (nn_diff N) peers bu) EInstaller)) (\<lambda>p.
     bindS (liftS (ok_or (key_of_text (nn_diff N) (pe_public_key p)) EInstaller)) (\<lambda>key.
     bindS (errS (\<lambda>_. EInstaller) (on_kernel (device_get (nn_kernel N) (nn_iface N)))) (\<lambda>dev.
     if shows_handshake key dev
     then bindS (errS (\<lambda>_. EInstaller) (on_gate (gate_release (nn_gate N) (nn_iface N) [peer_allowed_ip p]))) (\<lambda>_. retS True)
     else retS False)))"

definition real_installer :: "('k, 'g) node_lib \<Rightarrow> (int \<times> peer) list \<Rightarrow> ('k, 'g) node installer" where
  "real_installer N peers = \<lparr>in_install = real_install N peers, in_fresh = real_fresh N peers\<rparr>"

section \<open>Which addresses are gated\<close>

definition blocked_allowed_ips :: "diff_lib \<Rightarrow> endpoint \<Rightarrow> (int \<times> peer) list \<Rightarrow> allowed_ip list" where
  "blocked_allowed_ips D ep peers =
     map peer_allowed_ip (List.map_filter (\<lambda>r. find_peer D peers (rel_remote r)) (bt_values (ep_relationships ep)))"

definition legacy_eligible :: "endpoint \<Rightarrow> number \<Rightarrow> bool \<Rightarrow> bool" where
  "legacy_eligible ep other has_bundle =
     (if ep_policy ep \<noteq> PolPermissive \<or> has_bundle then False
      else \<not> (case bt_get other (ep_relationships ep) of None \<Rightarrow> False | Some r \<Rightarrow> rel_prior_pq r))"

text \<open>A failure for one relationship does not keep the others from being looked at.\<close>

fun check_released :: "('k, 'g) node_lib \<Rightarrow> (int \<times> peer) list \<Rightarrow> relationship list \<Rightarrow> ('k, 'g) node \<Rightarrow> ('k, 'g) node" where
  "check_released N peers [] n = n"
| "check_released N peers (r # rs) n =
     check_released N peers rs
       (if rel_pending r \<noteq> None \<or> rel_confirmed r = None then n else snd (real_fresh N peers (rel_remote r) n))"

definition reconcile_gate :: "('k, 'g) node_lib \<Rightarrow> endpoint \<Rightarrow> (int \<times> peer) list \<Rightarrow> ('k, 'g) node \<Rightarrow> ('k, 'g) node" where
  "reconcile_gate N ep peers n =
     (if rg_lifecycle (ep_registration ep) = LRetired then n
      else check_released N peers (bt_values (ep_relationships ep)) n)"

text \<open>The pass of \<^verbatim>\<open>fetch\<close> over the peers of the PQ state: which to gate and which to release.\<close>

definition gate_entry :: "endpoint \<Rightarrow> bool \<Rightarrow> peer_state \<Rightarrow> allowed_ip list \<times> allowed_ip list \<Rightarrow> allowed_ip list \<times> allowed_ip list" where
  "gate_entry ep retiring = (\<lambda>((i, p), server, pq) (to_gate, to_release).
     if server then (to_gate, to_release) else
     (case number_new (word_of_int i) of
        Inl _ \<Rightarrow> (to_gate, to_release)
      | Inr other \<Rightarrow>
          if other = ep_server_id ep \<or> other = ep_peer_id ep then (to_gate, to_release)
          else
            let confirmed = (case bt_get other (ep_relationships ep) of None \<Rightarrow> False | Some r \<Rightarrow> rel_confirmed r \<noteq> None) in
            if confirmed \<and> \<not> retiring then (to_gate, to_release)
            else if \<not> retiring \<and> legacy_eligible ep other (pq \<noteq> None)
            then (to_gate, to_release @ [peer_allowed_ip p])
            else (to_gate @ [peer_allowed_ip p], to_release)))"

definition gate_lists :: "endpoint \<Rightarrow> peer_state list \<Rightarrow> allowed_ip list \<times> allowed_ip list" where
  "gate_lists ep pq_peers = fold (gate_entry ep (rg_lifecycle (ep_registration ep) = LRetired)) pq_peers ([], [])"

definition gate_pass :: "('k, 'g) node_lib \<Rightarrow> endpoint \<Rightarrow> peer_state list \<Rightarrow> (('k, 'g) node, io_error, unit) comp" where
  "gate_pass N ep pq_peers = (case gate_lists ep pq_peers of (to_gate, to_release) \<Rightarrow>
     bindS (if to_gate \<noteq> [] then on_gate (gate_block (nn_gate N) (nn_iface N) to_gate) else retS ()) (\<lambda>_.
     if to_release \<noteq> [] then on_gate (gate_release (nn_gate N) (nn_iface N) to_release) else retS ()))"

end
