(* ===== verification/Interface.thy ===== *)
theory Interface
  imports Gate
begin

text \<open>
  Bringing a client up and keeping it current: \<^verbatim>\<open>fetch\<close> of \<^verbatim>\<open>client-core/src/interface.rs\<close>, from
  the restored gate of a cold boot to the update of the cached directory, and the options that
  enable data keys (\<^verbatim>\<open>shared/src/pq.rs\<close>). Setting addresses and routes and writing the hosts file
  succeed or fail; the reporting of candidates and NAT traversal come after and are not modelled.
\<close>

section \<open>Options\<close>

record pq_options =
  po_enable :: bool
  po_permissive :: bool
  po_rotation_interval :: u64
  po_idle_timeout :: u64

definition pq_options_default :: pq_options where
  "pq_options_default = \<lparr>po_enable = False, po_permissive = False, po_rotation_interval = 300, po_idle_timeout = 900\<rparr>"

datatype option_error = PermissiveNeedsEnable | OnlyOnLinux | BadRotationInterval | BadIdleTimeout

definition pq_options_validate :: "bool \<Rightarrow> pq_options \<Rightarrow> (option_error, unit) result" where
  "pq_options_validate linux p =
     bindR (guardR (\<not> (po_permissive p \<and> \<not> po_enable p)) PermissiveNeedsEnable) (\<lambda>_.
     bindR (guardR (\<not> (po_enable p \<and> \<not> linux)) OnlyOnLinux) (\<lambda>_.
     bindR (guardR (\<not> (po_rotation_interval p = 0 \<or> po_rotation_interval p > u64_max div 4)) BadRotationInterval) (\<lambda>_.
     guardR (\<not> po_idle_timeout p > u64_max div 4) BadIdleTimeout)))"

section \<open>State and arguments\<close>

datatype fetch_error =
    FeManagementMissing | FeNotUp | FeHosts | FeStore store_error | FeGate | FeUp | FeDevice io_error
  | FeRest rest_error | FeNoCache | FeKey | FePq sync_error | FeDiff | FeDirectory store_failure

text \<open>The last part is what the ordinary update was given: the gate at that time, the endpoint state and
  the peers the gate was closed for, and the builders.\<close>

record ('t, 'r, 'k, 'g) client =
  cn_transport :: 't
  cn_rng :: 'r
  cn_world :: world
  cn_node :: "('k, 'g) node"
  cn_directory :: "directory \<times> string"
  cn_updates :: "('g \<times> (endpoint \<times> peer_state list) option \<times> peer_builder list) list"

record ('t, 'r, 'k, 'g) fetch_lib =
  ft_crypto :: crypto_lib
  ft_envelope :: "endpoint envelope_lib"
  ft_env :: "nat \<Rightarrow> store_env"
  ft_fill :: "'r random_source"
  ft_entropy :: "nat \<Rightarrow> bytes"
  ft_rest :: "'t rest_client"
  ft_state :: "string \<Rightarrow> ((int \<times> peer) list \<times> (int \<times> cidr) list) option"
  ft_node :: "('k, 'g) node_lib"
  ft_directory :: directory_lib

text \<open>What one call finds around it: the interface, the management link, the stores as they are opened,
  the configuration, and the clock.\<close>

record fetch_args =
  fa_interface_up :: bool
  fa_bring_up :: bool
  fa_pq :: pq_options
  fa_management_required :: bool
  fa_management_psk :: "bytes option"
  fa_pq_path_exists :: bool
  fa_boot_open :: "(store_error, store) result"
  fa_open :: "(store_error, store) result"
  fa_server :: "server_peer option"
  fa_server_key :: "bytes option"
  fa_listen_port :: "u16 option"
  fa_private_key :: bytes
  fa_link_ok :: bool
  fa_own_key :: "bytes option"
  fa_overrides :: "(ip_addr \<times> host_port) list"
  fa_now :: u64
  fa_hosts_ok :: bool
  fa_write :: write_fate

type_synonym ('t, 'r, 'k, 'g, 'a) fetchS = "(('t, 'r, 'k, 'g) client, fetch_error, 'a) comp"

definition at_node :: "(('k, 'g) node, 'e, 'a) comp \<Rightarrow> (('t, 'r, 'k, 'g) client, 'e, 'a) comp" where
  "at_node m c = (case m (cn_node c) of (r, n) \<Rightarrow> (r, c\<lparr>cn_node := n\<rparr>))"

definition at_transport :: "('t, 'e, 'a) comp \<Rightarrow> (('t, 'r, 'k, 'g) client, 'e, 'a) comp" where
  "at_transport m c = (case m (cn_transport c) of (r, t) \<Rightarrow> (r, c\<lparr>cn_transport := t\<rparr>))"

definition at_world :: "(world, 'e, 'a) comp \<Rightarrow> (('t, 'r, 'k, 'g) client, 'e, 'a) comp" where
  "at_world m c = (case m (cn_world c) of (r, w) \<Rightarrow> (r, c\<lparr>cn_world := w\<rparr>))"

definition at_activation :: "(('t, 'r) activation, 'e, 'a) comp \<Rightarrow> (('t, 'r, 'k, 'g) client, 'e, 'a) comp" where
  "at_activation m c =
     (case m \<lparr>av_transport = cn_transport c, av_rng = cn_rng c, av_world = cn_world c\<rparr> of
        (r, s) \<Rightarrow> (r, c\<lparr>cn_transport := av_transport s, cn_rng := av_rng s, cn_world := av_world s\<rparr>))"

text \<open>\<^verbatim>\<open>Store::open\<close> gives a handle on the one state directory.\<close>

definition with_handle :: "(store_error, store) result \<Rightarrow> ('t, 'r, 'k, 'g, unit) fetchS" where
  "with_handle opened =
     bindS (liftS (map_err FeStore opened)) (\<lambda>handle.
     modS (\<lambda>c. c\<lparr>cn_world := (cn_world c)\<lparr>wd_store := handle\<rparr>\<rparr>))"

section \<open>Before the server is asked\<close>

text \<open>On a cold boot the gate is restored from the cached directory, before the interface exists.\<close>

definition restore_gate :: "('t, 'r, 'k, 'g) fetch_lib \<Rightarrow> fetch_args \<Rightarrow> ('t, 'r, 'k, 'g, unit) fetchS" where
  "restore_gate L A =
     (if po_enable (fa_pq A) \<and> fa_pq_path_exists A then
        bindS (with_handle (fa_boot_open A)) (\<lambda>_.
        bindS (at_world (errS FeStore (load (ft_envelope L) (ft_env L 0)))) (\<lambda>ep.
        bindS (getS (\<lambda>c. blocked_allowed_ips (nn_diff (ft_node L)) ep (ds_peers (fst (cn_directory c))))) (\<lambda>blocked.
        at_node (errS (\<lambda>_. FeGate) (on_gate (gate_apply_all (nn_gate (ft_node L)) (nn_iface (ft_node L)) blocked))))))
      else retS ())"

text \<open>\<^verbatim>\<open>wg::up\<close>: the device first, then the link, whose steps succeed or not.\<close>

definition bring_up :: "('t, 'r, 'k, 'g) fetch_lib \<Rightarrow> fetch_args \<Rightarrow> ('t, 'r, 'k, 'g, unit) fetchS" where
  "bring_up L A =
     bindS (liftS (ok_or (fa_server A) FeUp)) (\<lambda>server.
     bindS (liftS (ok_or (server_builder (nn_diff (ft_node L)) (server\<lparr>sp_preshared_key := fa_management_psk A\<rparr>)) FeUp)) (\<lambda>b.
     bindS (at_node (errS FeDevice (on_kernel (apply_update (nn_sizes (ft_node L)) (nn_kernel (ft_node L))
         ((add_peer b update_new)\<lparr>du_listen_port := fa_listen_port A, du_private_key := Some (fa_private_key A)\<rparr>)
         (nn_iface (ft_node L)))))) (\<lambda>_.
     liftS (guardR (fa_link_ok A) FeUp))))"

definition fetch_boot :: "('t, 'r, 'k, 'g) fetch_lib \<Rightarrow> fetch_args \<Rightarrow> ('t, 'r, 'k, 'g, unit) fetchS" where
  "fetch_boot L A =
     bindS (liftS (guardR (\<not> (fa_management_required A \<and> fa_management_psk A = None)) FeManagementMissing)) (\<lambda>_.
     if fa_interface_up A then retS () else
     bindS (liftS (guardR (fa_bring_up A) FeNotUp)) (\<lambda>_.
     bindS (restore_gate L A) (\<lambda>_.
     bring_up L A)))"

section \<open>The directory\<close>

text \<open>The server's state or, when it cannot be reached, the cached one.\<close>

definition fetch_directory ::
    "('t, 'r, 'k, 'g) fetch_lib \<Rightarrow> ('t, 'r, 'k, 'g, ((int \<times> peer) list \<times> (int \<times> cidr) list) \<times> bool) fetchS" where
  "fetch_directory L c =
     (case http (ft_rest L) ''GET'' ''/user/state'' (ft_state L) (cn_transport c) of
        (Inr state, t) \<Rightarrow> (Ok (state, True), c\<lparr>cn_transport := t\<rparr>)
      | (Inl e, t) \<Rightarrow>
          (if \<not> is_transport_error e then Err (FeRest e)
           else if ds_peers (fst (cn_directory c)) = [] then Err FeNoCache
           else Ok ((ds_peers (fst (cn_directory c)), ds_cidrs (fst (cn_directory c))), False), c\<lparr>cn_transport := t\<rparr>))"

fun set_endpoint_of :: "ip_addr \<Rightarrow> host_port \<Rightarrow> (int \<times> peer) list \<Rightarrow> (int \<times> peer) list" where
  "set_endpoint_of ip e [] = []"
| "set_endpoint_of ip e ((i, p) # ps) =
     (if pe_ip p = ip then (i, p\<lparr>pe_endpoint := Some e\<rparr>) # ps else (i, p) # set_endpoint_of ip e ps)"

definition apply_overrides :: "(ip_addr \<times> host_port) list \<Rightarrow> (int \<times> peer) list \<Rightarrow> (int \<times> peer) list" where
  "apply_overrides overrides peers = fold (\<lambda>(ip, e). set_endpoint_of ip e) overrides peers"

section \<open>Activation\<close>

text \<open>The endpoint state, registered or loaded, with a pending registration submitted; that it could not
  be submitted or saved is only logged.\<close>

definition activate_state :: "('t, 'r, 'k, 'g) fetch_lib \<Rightarrow> fetch_args \<Rightarrow> ('t, 'r, 'k, 'g, endpoint) fetchS" where
  "activate_state L A =
     bindS (liftS (ok_or (fa_own_key A) FeKey)) (\<lambda>own.
     bindS (with_handle (fa_open A)) (\<lambda>_.
     bindS (at_activation (errS FePq (open_or_register (ft_crypto L) (dl_base64 (nn_diff (ft_node L))) (ft_envelope L)
        (ft_env L 1) (ft_fill L) (ft_rest L) own (po_permissive (fa_pq A))))) (\<lambda>ep c.
     case submit_pending_registration (ft_rest L) (cn_transport c, ep) of
       (r, (t, ep')) \<Rightarrow>
         (let c1 = c\<lparr>cn_transport := t\<rparr> in
          (Ok ep', if is_ok r then snd (at_world (store_save (ft_envelope L) (ft_env L 2) ep') c1) else c1)))))"

text \<open>Gating comes right after the PQ state was fetched, which may go on for ever.\<close>

definition activate ::
    "('t, 'r, 'k, 'g) fetch_lib \<Rightarrow> fetch_args \<Rightarrow> bool \<Rightarrow> ('t, 'r, 'k, 'g) client
      \<Rightarrow> ((fetch_error, (endpoint \<times> peer_state list \<times> exchange list) option) result \<times> ('t, 'r, 'k, 'g) client) option" where
  "activate L A reachable c =
     (if \<not> (po_enable (fa_pq A) \<and> reachable) then Some (Ok None, c) else
      (case activate_state L A c of
         (Inl e, c1) \<Rightarrow> Some (Err e, c1)
       | (Inr ep, c1) \<Rightarrow>
           (case fetch_state (rest_transport (ft_rest L)) (cn_transport c1) of
              None \<Rightarrow> None
            | Some (Inl e, t) \<Rightarrow> Some (Err (FePq e), c1\<lparr>cn_transport := t\<rparr>)
            | Some (Inr (pq_peers, exchanges), t) \<Rightarrow>
                (case at_node (gate_pass (ft_node L) ep pq_peers) (c1\<lparr>cn_transport := t\<rparr>) of
                   (Inl _, c2) \<Rightarrow> Some (Err FeGate, c2)
                 | (Inr _, c2) \<Rightarrow> Some (Ok (Some (ep, pq_peers, exchanges)), c2)))))"

section \<open>Peers and exchanges\<close>

text \<open>A rebuilt entry of the server keeps the management key.\<close>

definition protect_server :: "bytes option \<Rightarrow> bytes option \<Rightarrow> peer_builder list \<Rightarrow> peer_builder list" where
  "protect_server psk server_key bs =
     (case psk of
        None \<Rightarrow> bs
      | Some k \<Rightarrow> map (\<lambda>b. if server_key = Some (pb_public_key b) then set_preshared_key k b else b) bs)"

definition update_device ::
    "('t, 'r, 'k, 'g) fetch_lib \<Rightarrow> fetch_args \<Rightarrow> (int \<times> peer) list \<Rightarrow> (endpoint \<times> peer_state list) option
      \<Rightarrow> ('t, 'r, 'k, 'g, device) fetchS" where
  "update_device L A peers gated_for =
     bindS (at_node (errS FeDevice (on_kernel (device_get (nn_kernel (ft_node L)) (nn_iface (ft_node L)))))) (\<lambda>dev.
     bindS (liftS (map_err (\<lambda>_. FeDiff) (device_diff (nn_diff (ft_node L)) dev peers))) (\<lambda>modifications.
     let updates = protect_server (fa_management_psk A) (fa_server_key A) (map df_builder modifications) in
     bindS (if updates \<noteq> [] \<or> \<not> fa_interface_up A then
         bindS (modS (\<lambda>c. c\<lparr>cn_updates := cn_updates c @ [(no_gate (cn_node c), gated_for, updates)]\<rparr>)) (\<lambda>_.
         bindS (at_node (errS FeDevice (on_kernel (apply_update (nn_sizes (ft_node L)) (nn_kernel (ft_node L))
           (add_peers updates update_new) (nn_iface (ft_node L)))))) (\<lambda>_.
         liftS (guardR (fa_hosts_ok A) FeHosts)))
       else retS ()) (\<lambda>_.
     retS dev)))"

definition counters_of :: "device \<Rightarrow> (bytes \<times> u64 \<times> u64) list" where
  "counters_of dev = map (\<lambda>i. (pc_public_key (pi_config i), pi_rx_bytes i, pi_tx_bytes i)) (dv_peers dev)"

definition sync_lib_of :: "('t, 'r, 'k, 'g) fetch_lib \<Rightarrow> (int \<times> peer) list \<Rightarrow> ('t, ('k, 'g) node, 'r) sync_lib" where
  "sync_lib_of L peers =
     \<lparr>sl_crypto = ft_crypto L, sl_base64 = dl_base64 (nn_diff (ft_node L)), sl_envelope = ft_envelope L,
      sl_env = (\<lambda>n. ft_env L (n + 3)), sl_fill = ft_fill L, sl_entropy = ft_entropy L,
      sl_installer = real_installer (ft_node L) peers, sl_transport = rest_transport (ft_rest L)\<rparr>"

definition advance_all ::
    "('t, 'r, 'k, 'g) fetch_lib \<Rightarrow> fetch_args \<Rightarrow> (int \<times> peer) list \<Rightarrow> device
      \<Rightarrow> (endpoint \<times> peer_state list \<times> exchange list) option \<Rightarrow> ('t, 'r, 'k, 'g) client \<Rightarrow> ('t, 'r, 'k, 'g) client" where
  "advance_all L A peers dev activation c =
     (case activation of
        None \<Rightarrow> c
      | Some (ep, pq_peers, exchanges) \<Rightarrow>
          (let cy = apply_state (sync_lib_of L peers)
               \<lparr>sa_now = fa_now A, sa_rotation_interval = po_rotation_interval (fa_pq A),
                sa_idle_timeout = po_idle_timeout (fa_pq A), sa_device = Some (counters_of dev)\<rparr>
               pq_peers exchanges
               \<lparr>cy_transport = cn_transport c, cy_world = cn_world c, cy_state = ep, cy_inst = cn_node c,
                cy_rng = cn_rng c, cy_calls = []\<rparr> in
           c\<lparr>cn_transport := cy_transport cy, cn_world := cy_world cy, cn_rng := cy_rng cy,
             cn_node := reconcile_gate (ft_node L) (cy_state cy) peers (cy_inst cy)\<rparr>))"

definition update_directory ::
    "('t, 'r, 'k, 'g) fetch_lib \<Rightarrow> fetch_args \<Rightarrow> (int \<times> peer) list \<Rightarrow> (int \<times> cidr) list \<Rightarrow> ('t, 'r, 'k, 'g, unit) fetchS" where
  "update_directory L A peers cidrs c =
     (case update_peers_and_set_cidrs (ft_directory L) (fa_write A) peers cidrs (cn_directory c) of
        (r, d) \<Rightarrow> (map_err FeDirectory r, c\<lparr>cn_directory := d\<rparr>))"

section \<open>The whole\<close>

definition fetch_finish ::
    "('t, 'r, 'k, 'g) fetch_lib \<Rightarrow> fetch_args \<Rightarrow> (int \<times> peer) list \<Rightarrow> (int \<times> cidr) list
      \<Rightarrow> (endpoint \<times> peer_state list \<times> exchange list) option \<Rightarrow> ('t, 'r, 'k, 'g, unit) fetchS" where
  "fetch_finish L A peers cidrs activation =
     bindS (update_device L A peers (map_option (\<lambda>(ep, pq_peers, exchanges). (ep, pq_peers)) activation)) (\<lambda>dev.
     bindS (modS (advance_all L A peers dev activation)) (\<lambda>_.
     update_directory L A peers cidrs))"

definition fetch ::
    "('t, 'r, 'k, 'g) fetch_lib \<Rightarrow> fetch_args \<Rightarrow> ('t, 'r, 'k, 'g) client
      \<Rightarrow> ((fetch_error, unit) result \<times> ('t, 'r, 'k, 'g) client) option" where
  "fetch L A c =
     (case bindS (fetch_boot L A) (\<lambda>_. fetch_directory L) c of
        (Inl e, c1) \<Rightarrow> Some (Err e, c1)
      | (Inr ((peers, cidrs), reachable), c1) \<Rightarrow>
          (let peers' = apply_overrides (fa_overrides A) peers in
           (case activate L A reachable c1 of
              None \<Rightarrow> None
            | Some (Inl e, c2) \<Rightarrow> Some (Err e, c2)
            | Some (Inr activation, c2) \<Rightarrow> Some (fetch_finish L A peers' cidrs activation c2))))"

end
