(* ===== verification/DeviceProps.thy ===== *)
theory DeviceProps
  imports Device
begin

text \<open>
  An update is packed into messages without losing or reordering any part of it, each message
  names the interface and fits, and a kernel that handles messages one by one therefore ends
  where the update as a whole leads.
\<close>

section \<open>What a message says\<close>

text \<open>The parts of messages, their interface names and the grouping of peers aside.\<close>

type_synonym item = "dev_attr + peer_attr list"

fun items_of :: "dev_attr \<Rightarrow> item list" where
  "items_of (DIfName n) = []"
| "items_of (DPeers ps) = map Inr ps"
| "items_of a = [Inl a]"

definition items :: "dev_attr list \<Rightarrow> item list" where
  "items nlas = concat (map items_of nlas)"

definition update_items :: "device_update \<Rightarrow> item list" where
  "update_items u =
     (case du_private_key u of Some k \<Rightarrow> [Inl (DPrivateKey k)] | None \<Rightarrow> []) @
     (case du_fwmark u of Some f \<Rightarrow> [Inl (DFwmark f)] | None \<Rightarrow> []) @
     (case du_listen_port u of Some f \<Rightarrow> [Inl (DListenPort f)] | None \<Rightarrow> []) @
     (if du_replace_peers u then [Inl DReplacePeers] else []) @
     map (Inr \<circ> builder_to_nla) (du_peers u)"

text \<open>The lengths of attributes: a list is as long as its parts, a list of peers grows with each.\<close>

definition sizes_law :: "nla_sizes \<Rightarrow> bool" where
  "sizes_law N \<longleftrightarrow> (\<forall>as. ns_attrs N as = sum_list (map (ns_attr N) as)) \<and>
     (\<forall>ps q. ns_attr N (DPeers (ps @ [q])) = ns_attr N (DPeers ps) + ns_peer N q)"

lemma sizes_attrs: "sizes_law N \<Longrightarrow> ns_attrs N as = sum_list (map (ns_attr N) as)"
  by (simp add: sizes_law_def)

lemma sizes_snoc: "sizes_law N \<Longrightarrow> ns_attrs N (as @ [a]) = ns_attrs N as + ns_attr N a"
  by (simp add: sizes_attrs)

lemma sizes_peer: "sizes_law N \<Longrightarrow> ns_attr N (DPeers (ps @ [q])) = ns_attr N (DPeers ps) + ns_peer N q"
  by (simp add: sizes_law_def)

lemma items_simps [simp]:
  "items [] = []" "items (a # as) = items_of a @ items as" "items (as @ bs) = items as @ items bs"
  by (simp_all add: items_def)

section \<open>The payload\<close>

text \<open>A buffer starts with the name of the interface; its peers, if any, come last and are not empty.\<close>

definition plain :: "dev_attr \<Rightarrow> bool" where
  "plain a = (case a of DIfName _ \<Rightarrow> False | DPeers _ \<Rightarrow> False | _ \<Rightarrow> True)"

definition buffered :: "string \<Rightarrow> dev_attr list \<Rightarrow> bool" where
  "buffered iface nlas \<longleftrightarrow> (\<exists>as. list_all plain as \<and>
     (nlas = DIfName iface # as \<or> (\<exists>ps. ps \<noteq> [] \<and> nlas = DIfName iface # as @ [DPeers ps])))"

definition packed :: "nla_sizes \<Rightarrow> string \<Rightarrow> item list \<Rightarrow> payload \<Rightarrow> bool" where
  "packed N iface done_items p \<longleftrightarrow>
     py_iface p = iface \<and> buffered iface (py_nlas p) \<and> py_len p = ns_attrs N (py_nlas p) \<and>
     (py_nlas p = [DIfName iface] \<or> py_len p \<le> ns_max N) \<and>
     (\<forall>m \<in> set (py_queue p). buffered iface m \<and> ns_attrs N m \<le> ns_max N) \<and>
     concat (map items (py_queue p)) @ items (py_nlas p) = done_items"

lemma plain_items: "plain a \<Longrightarrow> items_of a = [Inl a]" "plain a \<Longrightarrow> a \<noteq> DPeers ps"
  by (auto simp: plain_def split: dev_attr.splits)

lemma plain_no_peers: "list_all plain as \<Longrightarrow> \<not> has_peers as" "list_all plain as \<Longrightarrow> filter (\<lambda>a. a \<noteq> DPeers []) as = as"
  by (induction as) (auto simp: has_peers_def plain_def split: dev_attr.splits)

lemma buffered_filter: "buffered iface nlas \<Longrightarrow> filter (\<lambda>a. a \<noteq> DPeers []) nlas = nlas"
  by (auto simp: buffered_def plain_no_peers)

lemma packed_new: "packed N iface [] (payload_new N iface)"
  by (auto simp: packed_def payload_new_def buffered_def)

text \<open>After a flush the buffer holds the name only.\<close>

lemma packed_flush:
  assumes "packed N iface done_items p"
  shows "packed N iface done_items (flush_nlas N p)" "py_nlas (flush_nlas N p) = [DIfName iface]"
proof -
  from assms have p: "py_iface p = iface" "buffered iface (py_nlas p)"
    and clean: "filter (\<lambda>a. a \<noteq> DPeers []) (py_nlas p) = py_nlas p"
    by (auto simp: packed_def buffered_filter)
  then have "py_nlas p \<noteq> []" by (auto simp: buffered_def)
  with assms p clean show "packed N iface done_items (flush_nlas N p)" "py_nlas (flush_nlas N p) = [DIfName iface]"
    by (auto simp: flush_nlas_def packed_def Let_def buffered_def)
qed

lemma packed_push:
  assumes law: "sizes_law N" and p: "packed N iface done_items p" "\<not> has_peers (py_nlas p)" and a: "plain a"
    and pushed: "push_nla N a p = Inr q"
  shows "packed N iface (done_items @ [Inl a]) q" "\<not> has_peers (py_nlas q)"
proof -
  define p1 where "p1 = (if py_len p + ns_attr N a > ns_max N then flush_nlas N p else p)"
  from p packed_flush [OF p(1)] have p1: "packed N iface done_items p1" "\<not> has_peers (py_nlas p1)"
    by (auto simp: p1_def has_peers_def)
  from pushed have q: "q = p1\<lparr>py_nlas := py_nlas p1 @ [a], py_len := py_len p1 + ns_attr N a\<rparr>"
    and fits: "py_len p1 + ns_attr N a \<le> ns_max N"
    by (auto simp: push_nla_def Let_def p1_def split: if_splits)
  from p1 obtain as where nlas: "py_nlas p1 = DIfName iface # as" "list_all plain as"
    by (fastforce simp: packed_def buffered_def has_peers_def)
  with a have "buffered iface (py_nlas p1 @ [a])"
    by (auto simp: buffered_def intro!: exI [of _ "as @ [a]"])
  with p1 q fits show "packed N iface (done_items @ [Inl a]) q" "\<not> has_peers (py_nlas q)"
    using a by (auto simp: packed_def sizes_snoc [OF law] plain_items has_peers_def plain_def split: dev_attr.splits)
qed

lemma into_peers_last: "\<not> has_peers as \<Longrightarrow> into_peers q (as @ [DPeers ps]) = as @ [DPeers (ps @ [q])]"
  by (induction as) (auto simp: has_peers_def split: dev_attr.splits)

text \<open>A peer is added where there is a list of peers; this is the list the code expects.\<close>

lemma packed_push_peer:
  assumes law: "sizes_law N" and p: "packed N iface done_items p" and pushed: "push_peer N q p = Inr p'"
  shows "packed N iface (done_items @ [Inr q]) p'"
proof -
  define needs where "needs = (\<not> has_peers (py_nlas p))"
  define full where "full = (py_len p + (ns_peer N q + (if needs then ns_attr N (DPeers []) else 0)) > ns_max N)"
  define p1 where "p1 = (if full then flush_nlas N p else p)"
  from packed_flush [OF p] p have p1: "packed N iface done_items p1" by (simp add: p1_def)
  then obtain as where as: "list_all plain as"
    and shape: "py_nlas p1 = DIfName iface # as \<or> (\<exists>ps. ps \<noteq> [] \<and> py_nlas p1 = DIfName iface # as @ [DPeers ps])"
    by (auto simp: packed_def buffered_def)
  have none: "\<not> has_peers (DIfName iface # as)" using plain_no_peers [OF as] by (simp add: has_peers_def)
  obtain p2 where p2: "(if needs \<or> full then push_nla N (DPeers []) p1 else Ok p1) = Inr p2"
    and fits: "py_len p2 + ns_peer N q \<le> ns_max N"
    and p': "p' = p2\<lparr>py_nlas := into_peers q (py_nlas p2), py_len := py_len p2 + ns_peer N q\<rparr>"
    using pushed unfolding push_peer_def Let_def needs_def full_def p1_def
    by (auto simp: res_simps split: if_splits)
  show ?thesis
  proof (cases "needs \<or> full")
    case True
    have empty: "\<not> has_peers (py_nlas p1)"
      using True packed_flush(2) [OF p] by (auto simp: p1_def needs_def has_peers_def)
    define p3 where "p3 = (if py_len p1 + ns_attr N (DPeers []) > ns_max N then flush_nlas N p1 else p1)"
    from packed_flush [OF p1] p1 empty have p3: "packed N iface done_items p3" "\<not> has_peers (py_nlas p3)"
      by (auto simp: p3_def has_peers_def)
    from p2 True have q2: "p2 = p3\<lparr>py_nlas := py_nlas p3 @ [DPeers []], py_len := py_len p3 + ns_attr N (DPeers [])\<rparr>"
      by (auto simp: push_nla_def Let_def p3_def split: if_splits)
    from p3 obtain bs where bs: "py_nlas p3 = DIfName iface # bs" "list_all plain bs"
      by (fastforce simp: packed_def buffered_def has_peers_def)
    then have "into_peers q (py_nlas p2) = DIfName iface # bs @ [DPeers [q]]"
      using into_peers_last [of "DIfName iface # bs" q "[]"] p3(2) q2 by simp
    moreover have "buffered iface (DIfName iface # bs @ [DPeers [q]])" using bs(2) by (auto simp: buffered_def)
    moreover have "py_len p2 + ns_peer N q = ns_attrs N (DIfName iface # bs @ [DPeers [q]])"
      using p3(1) bs(1) sizes_peer [OF law, of "[]" q] by (simp add: q2 packed_def sizes_attrs [OF law])
    ultimately show ?thesis
      using p3(1) bs(1) fits by (auto simp: p' q2 packed_def)
  next
    case False
    with p2 have p2_eq: "p2 = p1" "p1 = p" by (auto simp: p1_def)
    from False shape none p2_eq obtain ps where nlas: "py_nlas p1 = (DIfName iface # as) @ [DPeers ps]"
      by (auto simp: needs_def)
    have "into_peers q (py_nlas p1) = DIfName iface # as @ [DPeers (ps @ [q])]"
      unfolding nlas using into_peers_last [OF none] by simp
    moreover have "buffered iface (DIfName iface # as @ [DPeers (ps @ [q])])" using as by (auto simp: buffered_def)
    moreover have "py_len p1 + ns_peer N q = ns_attrs N (DIfName iface # as @ [DPeers (ps @ [q])])"
      using p1 nlas sizes_peer [OF law, of ps q] by (simp add: packed_def sizes_attrs [OF law])
    ultimately show ?thesis
      using p1 nlas fits by (auto simp: p' p2_eq(1) packed_def)
  qed
qed

lemma flush_len:
  assumes "packed N iface done_items p"
  shows "py_len (flush_nlas N p) = ns_attrs N [DIfName iface]"
  using packed_flush [OF assms] by (simp add: packed_def)

lemma push_total:
  assumes "packed N iface done_items p" "ns_attrs N [DIfName iface] + ns_attr N a \<le> ns_max N"
  shows "\<exists>q. push_nla N a p = Inr q"
  using assms flush_len [OF assms(1)] by (simp add: push_nla_def Let_def)

lemma push_peer_total:
  assumes law: "sizes_law N" and p: "packed N iface done_items p"
    and fits: "ns_attrs N [DIfName iface] + ns_attr N (DPeers []) + ns_peer N q \<le> ns_max N"
  shows "\<exists>p'. push_peer N q p = Inr p'"
proof -
  define needs where "needs = (\<not> has_peers (py_nlas p))"
  define full where "full = (py_len p + (ns_peer N q + (if needs then ns_attr N (DPeers []) else 0)) > ns_max N)"
  define p1 where "p1 = (if full then flush_nlas N p else p)"
  have len: "full \<Longrightarrow> py_len p1 = ns_attrs N [DIfName iface]"
    using flush_len [OF p] by (simp add: p1_def)
  have "\<exists>p2. (if needs \<or> full then push_nla N (DPeers []) p1 else Ok p1) = Inr p2 \<and> py_len p2 + ns_peer N q \<le> ns_max N"
  proof (cases "needs \<or> full")
    case True
    then have "py_len p1 + ns_attr N (DPeers []) + ns_peer N q \<le> ns_max N"
      using len fits by (cases full) (auto simp: full_def p1_def)
    with True show ?thesis by (auto simp: push_nla_def Let_def)
  qed (auto simp: full_def p1_def)
  then show ?thesis by (auto simp: push_peer_def Let_def needs_def full_def p1_def)
qed

section \<open>A whole update\<close>

lemma packed_push_if:
  assumes "sizes_law N" "packed N iface done_items p" "\<not> has_peers (py_nlas p)" "pred_option plain a"
    and "push_if N a p = Inr q"
  shows "packed N iface (done_items @ (case a of None \<Rightarrow> [] | Some x \<Rightarrow> [Inl x])) q \<and> \<not> has_peers (py_nlas q)"
  using assms packed_push [of N iface done_items p] by (auto simp: push_if_def split: option.splits)

lemma push_if_total:
  assumes "packed N iface done_items p"
    and "\<And>x. a = Some x \<Longrightarrow> ns_attrs N [DIfName iface] + ns_attr N x \<le> ns_max N"
  shows "\<exists>q. push_if N a p = Inr q"
  using assms push_total by (auto simp: push_if_def split: option.splits)

lemma packed_push_peers:
  assumes "sizes_law N"
  shows "packed N iface done_items p \<Longrightarrow> push_peers N bs p = Inr q \<Longrightarrow>
    packed N iface (done_items @ map (Inr \<circ> builder_to_nla) bs) q"
proof (induction bs arbitrary: p done_items)
  case (Cons b bs)
  from Cons.prems(2) obtain p1 where "push_peer N (builder_to_nla b) p = Inr p1" "push_peers N bs p1 = Inr q"
    by (auto simp: res_simps)
  with Cons.IH [OF packed_push_peer [OF assms Cons.prems(1)]] show ?case by simp
qed simp

lemma push_peers_total:
  assumes law: "sizes_law N"
    and fits: "\<forall>b \<in> set bs. ns_attrs N [DIfName iface] + ns_attr N (DPeers []) + ns_peer N (builder_to_nla b) \<le> ns_max N"
    and p: "packed N iface done_items p"
  shows "\<exists>q. push_peers N bs p = Inr q"
  using fits p
proof (induction bs arbitrary: p done_items)
  case (Cons b bs)
  from push_peer_total [OF law Cons.prems(2)] Cons.prems(1) obtain p1 where p1: "push_peer N (builder_to_nla b) p = Inr p1"
    by auto
  from Cons.IH [OF _ packed_push_peer [OF law Cons.prems(2) p1]] Cons.prems(1) show ?case by (simp add: p1)
qed simp

text \<open>Every part of the update fits beside the name of the interface.\<close>

definition update_fits :: "nla_sizes \<Rightarrow> string \<Rightarrow> device_update \<Rightarrow> bool" where
  "update_fits N iface u \<longleftrightarrow>
     (\<forall>x. Inl x \<in> set (update_items u) \<longrightarrow> ns_attrs N [DIfName iface] + ns_attr N x \<le> ns_max N) \<and>
     (\<forall>b \<in> set (du_peers u). ns_attrs N [DIfName iface] + ns_attr N (DPeers []) + ns_peer N (builder_to_nla b) \<le> ns_max N)"

lemma update_attrs:
  "update_items u =
     (case map_option DPrivateKey (du_private_key u) of None \<Rightarrow> [] | Some x \<Rightarrow> [Inl x]) @
     (case map_option DFwmark (du_fwmark u) of None \<Rightarrow> [] | Some x \<Rightarrow> [Inl x]) @
     (case map_option DListenPort (du_listen_port u) of None \<Rightarrow> [] | Some x \<Rightarrow> [Inl x]) @
     (case if du_replace_peers u then Some DReplacePeers else None of None \<Rightarrow> [] | Some x \<Rightarrow> [Inl x]) @
     map (Inr \<circ> builder_to_nla) (du_peers u)"
  by (simp add: update_items_def split: option.splits)

lemma plain_parts: "pred_option plain (map_option DPrivateKey k)" "pred_option plain (map_option DFwmark f)"
    "pred_option plain (map_option DListenPort l)" "pred_option plain (if c then Some DReplacePeers else None)"
  by (auto simp: option.pred_map o_def plain_def pred_option_def)

lemma messages_packed:
  assumes law: "sizes_law N" and messages: "apply_messages N u iface = Inr ms"
  shows "concat (map items ms) = update_items u \<and>
    (\<forall>m \<in> set ms. (\<exists>as. m = DIfName iface # as) \<and> ns_attrs N m \<le> ns_max N)"
proof -
  from messages obtain p1 p2 p3 p4 p5 where steps:
      "push_if N (map_option DPrivateKey (du_private_key u)) (payload_new N iface) = Inr p1"
      "push_if N (map_option DFwmark (du_fwmark u)) p1 = Inr p2"
      "push_if N (map_option DListenPort (du_listen_port u)) p2 = Inr p3"
      "push_if N (if du_replace_peers u then Some DReplacePeers else None) p3 = Inr p4"
      "push_peers N (du_peers u) p4 = Inr p5"
    and ms: "ms = payload_finish N p5"
    by (auto simp: apply_messages_def res_simps)
  have "packed N iface [] (payload_new N iface)" "\<not> has_peers (py_nlas (payload_new N iface))"
    by (simp_all add: packed_new) (simp add: payload_new_def has_peers_def)
  note p1 = packed_push_if [OF law this plain_parts(1) steps(1)]
  note p2 = packed_push_if [OF law conjunct1 [OF p1] conjunct2 [OF p1] plain_parts(2) steps(2)]
  note p3 = packed_push_if [OF law conjunct1 [OF p2] conjunct2 [OF p2] plain_parts(3) steps(3)]
  note p4 = packed_push_if [OF law conjunct1 [OF p3] conjunct2 [OF p3] plain_parts(4) steps(4)]
  have p5: "packed N iface (update_items u) p5"
    using packed_push_peers [OF law conjunct1 [OF p4] steps(5)] by (simp add: update_attrs)
  from packed_flush [OF p5] show ?thesis
    by (auto simp: ms payload_finish_def packed_def buffered_def)
qed

lemma messages_total:
  assumes law: "sizes_law N" and fits: "update_fits N iface u"
  shows "\<exists>ms. apply_messages N u iface = Inr ms"
proof -
  have one: "ns_attrs N [DIfName iface] + ns_attr N x \<le> ns_max N"
    if "map_option DPrivateKey (du_private_key u) = Some x \<or> map_option DFwmark (du_fwmark u) = Some x \<or>
      map_option DListenPort (du_listen_port u) = Some x \<or> (if du_replace_peers u then Some DReplacePeers else None) = Some x"
    for x
    using fits that unfolding update_fits_def update_attrs by auto
  have p0: "packed N iface [] (payload_new N iface)" "\<not> has_peers (py_nlas (payload_new N iface))"
    by (simp_all add: packed_new) (simp add: payload_new_def has_peers_def)
  from push_if_total [OF p0(1)] one obtain p1 where s1:
    "push_if N (map_option DPrivateKey (du_private_key u)) (payload_new N iface) = Inr p1" by metis
  note p1 = packed_push_if [OF law p0 plain_parts(1) s1]
  from push_if_total [OF conjunct1 [OF p1]] one obtain p2 where s2:
    "push_if N (map_option DFwmark (du_fwmark u)) p1 = Inr p2" by metis
  note p2 = packed_push_if [OF law conjunct1 [OF p1] conjunct2 [OF p1] plain_parts(2) s2]
  from push_if_total [OF conjunct1 [OF p2]] one obtain p3 where s3:
    "push_if N (map_option DListenPort (du_listen_port u)) p2 = Inr p3" by metis
  note p3 = packed_push_if [OF law conjunct1 [OF p2] conjunct2 [OF p2] plain_parts(3) s3]
  from push_if_total [OF conjunct1 [OF p3]] one obtain p4 where s4:
    "push_if N (if du_replace_peers u then Some DReplacePeers else None) p3 = Inr p4" by metis
  note p4 = packed_push_if [OF law conjunct1 [OF p3] conjunct2 [OF p3] plain_parts(4) s4]
  from push_peers_total [OF law _ conjunct1 [OF p4]] fits obtain p5 where "push_peers N (du_peers u) p4 = Inr p5"
    unfolding update_fits_def by blast
  with s1 s2 s3 s4 show ?thesis by (simp add: apply_messages_def)
qed

section \<open>What the kernel makes of it\<close>

text \<open>The documented effect of a peer in a \<^verbatim>\<open>WG_CMD_SET_DEVICE\<close>: it is removed, or created when absent
  and changed where it has attributes; an allowed IP belongs to one peer only, the last to ask.\<close>

definition peer_key :: "peer_info \<Rightarrow> bytes" where
  "peer_key i = pc_public_key (pi_config i)"

definition attr_key :: "peer_attr list \<Rightarrow> bytes option" where
  "attr_key q = find_map (\<lambda>a. case a of PPublicKey k \<Rightarrow> Some k | _ \<Rightarrow> None) q"

definition attr_ips :: "peer_attr list \<Rightarrow> allowed_ip list" where
  "attr_ips q = (case find_map (\<lambda>a. case a of PAllowedIps l \<Rightarrow> Some l | _ \<Rightarrow> None) q of
     None \<Rightarrow> [] | Some l \<Rightarrow> (case mapR_nla allowed_ip_from_nla l of Inl _ \<Rightarrow> [] | Inr ips \<Rightarrow> ips))"

definition has_flag :: "peer_flag \<Rightarrow> peer_attr list \<Rightarrow> bool" where
  "has_flag f q = list_ex (\<lambda>a. case a of PFlags fs \<Rightarrow> f \<in> set fs | _ \<Rightarrow> False) q"

definition fresh_info :: "bytes \<Rightarrow> peer_info" where
  "fresh_info key = \<lparr>pi_config = \<lparr>pc_public_key = key, pc_preshared_key = None, pc_endpoint = None,
     pc_keepalive = Some 0, pc_allowed_ips = []\<rparr>, pi_last_handshake = None, pi_rx_bytes = 0, pi_tx_bytes = 0\<rparr>"

definition changed_config :: "peer_attr list \<Rightarrow> peer_config \<Rightarrow> peer_config" where
  "changed_config q c = c\<lparr>
     pc_preshared_key := (case find_map (\<lambda>a. case a of PPresharedKey k \<Rightarrow> Some k | _ \<Rightarrow> None) q of
       None \<Rightarrow> pc_preshared_key c | Some k \<Rightarrow> Some k),
     pc_endpoint := (case find_map (\<lambda>a. case a of PEndpoint e \<Rightarrow> Some e | _ \<Rightarrow> None) q of
       None \<Rightarrow> pc_endpoint c | Some e \<Rightarrow> Some e),
     pc_keepalive := (case find_map (\<lambda>a. case a of PKeepalive i \<Rightarrow> Some i | _ \<Rightarrow> None) q of
       None \<Rightarrow> pc_keepalive c | Some i \<Rightarrow> Some i),
     pc_allowed_ips := (if has_flag ReplaceAllowedIps q then [] else filter (\<lambda>a. a \<notin> set (attr_ips q)) (pc_allowed_ips c)) @ attr_ips q\<rparr>"

definition drop_ips :: "allowed_ip list \<Rightarrow> peer_info \<Rightarrow> peer_info" where
  "drop_ips ips i = i\<lparr>pi_config := (pi_config i)\<lparr>pc_allowed_ips := filter (\<lambda>a. a \<notin> set ips) (pc_allowed_ips (pi_config i))\<rparr>\<rparr>"

definition change_peer :: "bytes \<Rightarrow> peer_attr list \<Rightarrow> peer_info list \<Rightarrow> peer_info list" where
  "change_peer key q ps =
     map (\<lambda>i. if peer_key i = key then i\<lparr>pi_config := changed_config q (pi_config i)\<rparr> else drop_ips (attr_ips q) i)
       (if key \<in> peer_key ` set ps then ps else ps @ [fresh_info key])"

definition set_peer :: "peer_attr list \<Rightarrow> peer_info list \<Rightarrow> peer_info list" where
  "set_peer q ps =
     (case attr_key q of
        None \<Rightarrow> ps
      | Some key \<Rightarrow> if has_flag RemoveMe q then filter (\<lambda>i. peer_key i \<noteq> key) ps else change_peer key q ps)"

fun set_item :: "item \<Rightarrow> peer_info list \<Rightarrow> peer_info list" where
  "set_item (Inr q) ps = set_peer q ps"
| "set_item (Inl DReplacePeers) ps = []"
| "set_item (Inl _) ps = ps"

text \<open>A kernel keeps the peers of the interface, \<open>peers\<close>; adding the interface leaves them, and a
  message that is accepted has the effect of its parts, in order.\<close>

definition kernel_law :: "'k kernel \<Rightarrow> string \<Rightarrow> ('k \<Rightarrow> peer_info list) \<Rightarrow> bool" where
  "kernel_law K iface peers \<longleftrightarrow>
     (\<forall>k. peers (snd (kn_add K iface k)) = peers k) \<and>
     (\<forall>m k k'. hd m = DIfName iface \<longrightarrow> kn_set K m k = (Inr (), k') \<longrightarrow> peers k' = fold set_item (items m) (peers k))"

lemma sent_all:
  assumes "kernel_law K iface peers" "\<forall>m \<in> set ms. \<exists>as. m = DIfName iface # as"
  shows "send_all K ms k = (Inr (), k') \<Longrightarrow> peers k' = fold set_item (concat (map items ms)) (peers k)"
  using assms(2)
proof (induction ms arbitrary: k)
  case (Cons m ms)
  from Cons.prems(1) obtain k1 where k1: "kn_set K m k = (Inr (), k1)" and sent: "send_all K ms k1 = (Inr (), k')"
    by (auto simp: bindS_Inr_iff)
  from Cons.prems(2) have "hd m = DIfName iface" by auto
  with k1 assms(1) have "peers k1 = fold set_item (items m) (peers k)" unfolding kernel_law_def by blast
  with Cons.IH [OF sent] Cons.prems(2) show ?case by simp
qed simp

lemma applied:
  assumes "kernel_law K iface peers" "sizes_law N" "apply_update N K u iface k = (Inr (), k')"
  shows "peers k' = fold set_item (update_items u) (peers k)"
proof -
  from assms(3) obtain k1 ms where k1: "add_del K iface True k = (Inr (), k1)" and ms: "apply_messages N u iface = Inr ms"
    and sent: "send_all K ms k1 = (Inr (), k')"
    by (auto simp: apply_update_def bindS_Inr_iff liftS_def)
  have "k1 = snd (kn_add K iface k)"
  proof (cases "kn_add K iface k")
    case (Pair r x)
    with k1 show ?thesis by (cases r) (simp_all add: add_del_def)
  qed
  with assms(1) have "peers k1 = peers k" by (simp add: kernel_law_def)
  with sent_all [OF assms(1) _ sent] messages_packed [OF assms(2) ms] show ?thesis by auto
qed

section \<open>Properties\<close>

text \<open>C30. However an update is spread over netlink messages, together they say exactly what the update
says, in its order, each names the interface and none is longer than the limit; and an update
whose parts fit beside the name is never refused.\<close>

theorem update_is_packed:
  assumes "sizes_law N"
  shows "(\<forall>ms. apply_messages N u iface = Inr ms \<longrightarrow> concat (map items ms) = update_items u \<and>
      (\<forall>m \<in> set ms. (\<exists>as. m = DIfName iface # as) \<and> ns_attrs N m \<le> ns_max N)) \<and>
    (update_fits N iface u \<longrightarrow> (\<exists>ms. apply_messages N u iface = Inr ms))"
  using assms messages_packed messages_total by blast

definition sample_sizes :: nla_sizes where
  "sample_sizes = \<lparr>ns_max = 40, ns_attr = (\<lambda>a. case a of DPeers ps \<Rightarrow> 4 + 20 * length ps | _ \<Rightarrow> 8),
     ns_attrs = (\<lambda>as. sum_list (map (\<lambda>a. case a of DPeers ps \<Rightarrow> 4 + 20 * length ps | _ \<Rightarrow> 8) as)), ns_peer = (\<lambda>q. 20)\<rparr>"

lemma sample_sizes_law: "sizes_law sample_sizes"
  by (simp add: sizes_law_def sample_sizes_def)

text \<open>Three peers and a port need three messages here.\<close>

theorem update_is_packed_witness:
  "\<exists>ms. apply_messages sample_sizes
      (add_peers (map (builder_new \<circ> replicate 32) [1, 2, 3]) (update_new\<lparr>du_listen_port := Some 51820\<rparr>)) ''wg0'' = Inr ms \<and>
    length ms = 3 \<and> concat (map items ms) = Inl (DListenPort 51820) # map (Inr \<circ> builder_to_nla \<circ> builder_new \<circ> replicate 32) [1, 2, 3]"
proof -
  let ?u = "add_peers (map (builder_new \<circ> replicate 32) [1, 2, 3]) (update_new\<lparr>du_listen_port := Some 51820\<rparr>)"
  have "update_fits sample_sizes ''wg0'' ?u"
    by (auto simp: update_fits_def update_items_def add_peers_def update_new_def sample_sizes_def)
  with update_is_packed [OF sample_sizes_law, of ?u "''wg0''"] obtain ms where
    ms: "apply_messages sample_sizes ?u ''wg0'' = Inr ms" "concat (map items ms) = update_items ?u" by blast
  from ms(1) have "length ms = 3"
    by (auto simp: apply_messages_def push_if_def add_peers_def update_new_def push_nla_def push_peer_def payload_new_def
        payload_finish_def flush_nlas_def has_peers_def sample_sizes_def Let_def)
  with ms show ?thesis by (auto simp: update_items_def add_peers_def update_new_def)
qed

end
