(* ===== verification/PeerSyncProps.thy ===== *)
theory PeerSyncProps
  imports PeerSync DeviceProps MailboxClaims
begin

text \<open>
  The cached directory pins the key of every address for good, as long as its file is written
  whole; and the comparison of an interface with the server's peers leads to those peers, keeps
  every preshared key, and has nothing left to do when it is repeated.
\<close>

section \<open>Pinning\<close>

definition binding :: "int \<times> peer \<Rightarrow> ip_addr \<times> string" where
  "binding = (\<lambda>(i, p). (pe_ip p, pe_public_key p))"

text \<open>The addresses of a directory are distinct; a set of bindings agrees when no address has two keys.\<close>

definition pinned :: "directory \<Rightarrow> bool" where
  "pinned d \<longleftrightarrow> distinct (map (pe_ip \<circ> snd) (ds_peers d))"

definition agreeing :: "(ip_addr \<times> string) set \<Rightarrow> bool" where
  "agreeing B \<longleftrightarrow> (\<forall>a k k'. (a, k) \<in> B \<longrightarrow> (a, k') \<in> B \<longrightarrow> k = k')"

definition bound :: "(int \<times> peer) list \<Rightarrow> (ip_addr \<times> string) set" where
  "bound es = set (map binding es)"

lemma binding_fields [simp]: "fst (binding e) = pe_ip (snd e)" "snd (binding e) = pe_public_key (snd e)"
  by (simp_all add: binding_def split_beta)

lemma binding_iff: "binding e = (a, k) \<longleftrightarrow> pe_ip (snd e) = a \<and> pe_public_key (snd e) = k"
  by (simp add: binding_def split_beta)

lemma bound_simps [simp]: "bound [] = {}" "bound (e # es) = insert (binding e) (bound es)"
  by (simp_all add: bound_def)

lemma bound_same: "map binding es = map binding fs @ extra \<Longrightarrow> bound es = bound fs \<union> set extra"
  by (simp add: bound_def)

lemma bound_ips: "map (pe_ip \<circ> snd) es = map fst (map binding es)"
  by simp

text \<open>With distinct addresses a list of bindings is a map.\<close>

lemma agreeing_distinct: "distinct (map fst bs) \<Longrightarrow> agreeing (set bs)"
  by (auto simp: agreeing_def dest: eq_key_imp_eq_value)

lemma pin_peer_Some:
  "pin_peer np es = Some es' \<Longrightarrow>
   map binding es' = map binding es \<and> binding np \<in> bound es \<or>
   map binding es' = map binding es @ [binding np] \<and> pe_ip (snd np) \<notin> fst ` bound es"
proof (induction es arbitrary: es')
  case (Cons e es)
  show ?case
  proof (cases "pe_ip (snd e) = pe_ip (snd np)")
    case True
    with Cons.prems have "es' = np # es" "binding np = binding e" by (auto simp: prod_eq_iff split: if_splits)
    then show ?thesis by simp
  next
    case False
    with Cons.prems obtain es1 where "pin_peer np es = Some es1" "es' = e # es1" by auto
    with Cons.IH False show ?thesis by auto
  qed
qed simp

lemma pin_peer_None:
  "distinct (map fst (map binding es)) \<Longrightarrow>
   pin_peer np es = None \<longleftrightarrow> (\<exists>k. (pe_ip (snd np), k) \<in> bound es \<and> k \<noteq> pe_public_key (snd np))"
proof (induction es)
  case (Cons e es)
  show ?case
  proof (cases "pe_ip (snd e) = pe_ip (snd np)")
    case True
    with Cons.prems have "(pe_ip (snd np), k) \<notin> bound es" for k
      by (auto simp: bound_def image_iff binding_iff eq_commute [of "(_, _)" "binding _"])
    with True show ?thesis by (auto simp: prod_eq_iff binding_iff eq_commute [of "(_, _)" "binding _"])
  next
    case False
    with Cons.IH Cons.prems show ?thesis by (auto simp: binding_iff eq_commute [of "(_, _)" "binding _"])
  qed
qed simp

text \<open>Pinning only adds bindings, and fails exactly when an address would get a second key.\<close>

lemma pin_peers_run:
  "distinct (map fst (map binding es)) \<Longrightarrow> pin_peers nps es = (good, es') \<Longrightarrow>
    (\<exists>extra. map binding es' = map binding es @ extra) \<and> distinct (map fst (map binding es')) \<and>
    (good \<longleftrightarrow> agreeing (bound es \<union> bound nps)) \<and> (good \<longrightarrow> bound es' = bound es \<union> bound nps)"
proof (induction nps arbitrary: es)
  case Nil
  then show ?case using agreeing_distinct [of "map binding es"] by (simp add: bound_def)
next
  case (Cons np nps)
  show ?case
  proof (cases "pin_peer np es")
    case None
    with pin_peer_None [OF Cons.prems(1)] obtain k where
      "(pe_ip (snd np), k) \<in> bound es" "k \<noteq> pe_public_key (snd np)" by auto
    moreover have "(pe_ip (snd np), pe_public_key (snd np)) \<in> bound (np # nps)"
      by (simp add: binding_def split_beta)
    ultimately have "\<not> agreeing (bound es \<union> bound (np # nps))"
      unfolding agreeing_def by blast
    with None Cons.prems show ?thesis by auto
  next
    case (Some es1)
    from Some Cons.prems(2) have run: "pin_peers nps es1 = (good, es')" by simp
    from pin_peer_Some [OF Some] show ?thesis
    proof (elim disjE conjE)
      assume same: "map binding es1 = map binding es" and known: "binding np \<in> bound es"
      then have "bound es1 = bound es" by (simp only: bound_def)
      moreover have "bound es \<union> bound (np # nps) = bound es \<union> bound nps" using known by auto
      moreover have "distinct (map fst (map binding es1))" using Cons.prems(1) same by metis
      ultimately show ?thesis using Cons.IH [OF _ run] same by metis
    next
      assume extra: "map binding es1 = map binding es @ [binding np]" and free: "pe_ip (snd np) \<notin> fst ` bound es"
      have "distinct (map fst (map binding es @ [binding np]))"
        using Cons.prems(1) free by (simp add: bound_def image_image)
      then have "distinct (map fst (map binding es1))" by (simp only: extra)
      note IH = Cons.IH [OF this run]
      have "bound es1 \<union> bound nps = bound es \<union> bound (np # nps)" by (auto simp: bound_same [OF extra])
      with IH extra show ?thesis by (metis append.assoc)
    qed
  qed
qed

lemma disable_absent_binding [simp]: "map binding (disable_absent new es) = map binding es"
  by (auto simp: disable_absent_def binding_def)

lemma update_peers_run:
  assumes "pinned d" "update_peers nps d = (r, d')"
  shows "pinned d' \<and> (\<exists>extra. map binding (ds_peers d') = map binding (ds_peers d) @ extra) \<and>
    (r = Inr () \<longleftrightarrow> agreeing (bound (ds_peers d) \<union> bound nps)) \<and>
    (r = Inr () \<longrightarrow> bound (ds_peers d') = bound (ds_peers d) \<union> bound nps)"
proof (cases "pin_peers nps (ds_peers d)")
  case (Pair good es)
  have pinned: "pinned c \<longleftrightarrow> distinct (map fst (map binding (ds_peers c)))" for c
    by (simp only: pinned_def bound_ips)
  from pin_peers_run [OF assms(1) [unfolded pinned] Pair]
  have run: "(\<exists>extra. map binding es = map binding (ds_peers d) @ extra) \<and> distinct (map fst (map binding es)) \<and>
    (good \<longleftrightarrow> agreeing (bound (ds_peers d) \<union> bound nps)) \<and> (good \<longrightarrow> bound es = bound (ds_peers d) \<union> bound nps)" .
  have r: "r = (if good then Inr () else Inl PinningError)"
    and d': "map binding (ds_peers d') = map binding es"
    using assms(2) Pair by (auto simp: update_peers_def split: bool.splits)
  from d' have "bound (ds_peers d') = bound es" by (simp only: bound_def)
  with run r d' show ?thesis unfolding pinned by auto
qed

definition run_updates ::
    "directory_lib \<Rightarrow> (write_fate \<times> (int \<times> peer) list \<times> (int \<times> cidr) list) list \<Rightarrow> directory \<times> string \<Rightarrow> directory \<times> string" where
  "run_updates J us s = foldl (\<lambda>s (fate, nps, cs). snd (update_peers_and_set_cidrs J fate nps cs s)) s us"

lemma update_directory:
  "ds_peers (fst (snd (update_peers_and_set_cidrs J fate nps cs (d, s)))) = ds_peers (snd (update_peers nps d))"
proof (cases "update_peers nps d")
  case (Pair r d')
  then show ?thesis by (cases r) (auto simp: update_peers_and_set_cidrs_def Let_def split: prod.splits)
qed

lemma run_updates_pinned:
  "pinned (fst s) \<Longrightarrow> pinned (fst (run_updates J us s)) \<and> bound (ds_peers (fst s)) \<subseteq> bound (ds_peers (fst (run_updates J us s)))"
proof (induction us arbitrary: s)
  case (Cons u us)
  obtain fate nps cs where u: "u = (fate, nps, cs)" by (cases u) auto
  obtain d file_text where s: "s = (d, file_text)" by (cases s)
  let ?s = "snd (update_peers_and_set_cidrs J fate nps cs s)"
  obtain r d' where step: "update_peers nps d = (r, d')" by (cases "update_peers nps d")
  from Cons.prems s have "pinned d" by simp
  note run = update_peers_run [OF this step]
  have same: "ds_peers (fst ?s) = ds_peers d'" by (simp add: s update_directory step)
  have "pinned (fst ?s)" "bound (ds_peers d) \<subseteq> bound (ds_peers (fst ?s))"
    using run by (auto simp: pinned_def same dest: bound_same)
  with Cons.IH [of ?s] show ?case by (auto simp: run_updates_def u s)
qed (simp add: run_updates_def)

section \<open>Interfaces\<close>

definition lookup :: "bytes \<Rightarrow> peer_info list \<Rightarrow> peer_info option" where
  "lookup k ps = List.find (\<lambda>i. peer_key i = k) ps"

lemma find_mapped: "List.find P (map f xs) = map_option f (List.find (P \<circ> f) xs)"
  by (induction xs) auto

lemma lookup_simps [simp]:
  "lookup k [] = None" "lookup k (i # ps) = (if peer_key i = k then Some i else lookup k ps)"
  by (simp_all add: lookup_def)

lemma lookup_append: "lookup k (ps @ qs) = (case lookup k ps of None \<Rightarrow> lookup k qs | Some i \<Rightarrow> Some i)"
  by (induction ps) auto

lemma lookup_None: "lookup k ps = None \<longleftrightarrow> k \<notin> peer_key ` set ps"
  by (induction ps) auto

lemma lookup_Some: "lookup k ps = Some i \<Longrightarrow> i \<in> set ps \<and> peer_key i = k"
  by (induction ps) (auto split: if_splits)

lemma lookup_filter: "lookup k (filter (\<lambda>i. peer_key i \<noteq> key) ps) = (if k = key then None else lookup k ps)"
  by (induction ps) auto

lemma nla_roundtrip: "mapR_nla allowed_ip_from_nla (map allowed_ip_to_nla ips) = Inr ips"
proof -
  have "allowed_ip_from_nla (allowed_ip_to_nla a) = Inr a" for a
    by (cases a; cases "al_address a") (auto simp: allowed_ip_from_nla_def allowed_ip_to_nla_def)
  then show ?thesis by (induction ips) auto
qed

lemma builder_nla [simp]:
  "attr_key (builder_to_nla b) = Some (pb_public_key b)"
  "attr_ips (builder_to_nla b) = pb_allowed_ips b"
  "has_flag RemoveMe (builder_to_nla b) = pb_remove_me b"
  "has_flag ReplaceAllowedIps (builder_to_nla b) = pb_replace_allowed_ips b"
  by (auto simp: attr_key_def attr_ips_def has_flag_def builder_to_nla_def builder_flags_def nla_roundtrip
      split: option.splits)

lemma builder_find [simp]:
  "find_map (\<lambda>a. case a of PPresharedKey k \<Rightarrow> Some k | _ \<Rightarrow> None) (builder_to_nla b) = pb_preshared_key b"
  "find_map (\<lambda>a. case a of PEndpoint e \<Rightarrow> Some e | _ \<Rightarrow> None) (builder_to_nla b) = pb_endpoint b"
  "find_map (\<lambda>a. case a of PKeepalive i \<Rightarrow> Some i | _ \<Rightarrow> None) (builder_to_nla b) = pb_keepalive b"
  by (auto simp: builder_to_nla_def split: option.splits)

text \<open>What a builder makes of its own peer.\<close>

definition built :: "peer_builder \<Rightarrow> peer_config \<Rightarrow> peer_config" where
  "built b c = c\<lparr>
     pc_preshared_key := (case pb_preshared_key b of None \<Rightarrow> pc_preshared_key c | Some k \<Rightarrow> Some k),
     pc_endpoint := (case pb_endpoint b of None \<Rightarrow> pc_endpoint c | Some e \<Rightarrow> Some e),
     pc_keepalive := (case pb_keepalive b of None \<Rightarrow> pc_keepalive c | Some i \<Rightarrow> Some i),
     pc_allowed_ips := (if pb_replace_allowed_ips b then []
       else filter (\<lambda>a. a \<notin> set (pb_allowed_ips b)) (pc_allowed_ips c)) @ pb_allowed_ips b\<rparr>"

lemma changed_built: "changed_config (builder_to_nla b) c = built b c"
  by (simp add: changed_config_def built_def)

lemma built_key [simp]: "pc_public_key (built b c) = pc_public_key c"
  by (simp add: built_def)

lemma drop_ips_key [simp]: "peer_key (drop_ips ips i) = peer_key i"
  by (simp add: peer_key_def drop_ips_def)

lemma fresh_info_key [simp]: "peer_key (fresh_info k) = k"
  by (simp add: peer_key_def fresh_info_def)

lemma lookup_set_peer:
  "lookup k (set_peer (builder_to_nla b) ps) =
     (if k = pb_public_key b
      then (if pb_remove_me b then None
            else Some (let i = (case lookup k ps of None \<Rightarrow> fresh_info k | Some i \<Rightarrow> i) in
                   i\<lparr>pi_config := built b (pi_config i)\<rparr>))
      else if pb_remove_me b then lookup k ps else map_option (drop_ips (pb_allowed_ips b)) (lookup k ps))"
proof -
  define f where "f i = (if peer_key i = pb_public_key b then i\<lparr>pi_config := changed_config (builder_to_nla b) (pi_config i)\<rparr>
    else drop_ips (pb_allowed_ips b) i)" for i
  have key: "peer_key (f i) = peer_key i" for i by (simp add: f_def peer_key_def changed_built drop_ips_def)
  have mapped: "lookup k (map f qs) = map_option f (lookup k qs)" for qs
    by (simp add: lookup_def find_mapped o_def key)
  show ?thesis
  proof (cases "pb_remove_me b")
    case True
    then show ?thesis by (simp add: set_peer_def lookup_filter)
  next
    case False
    let ?key = "pb_public_key b"
    define qs where "qs = (if ?key \<in> peer_key ` set ps then ps else ps @ [fresh_info ?key])"
    have set: "set_peer (builder_to_nla b) ps = map f qs"
      using False by (simp add: set_peer_def change_peer_def f_def qs_def)
    show ?thesis
    proof (cases "k = ?key")
      case True
      have "lookup k qs = Some (case lookup k ps of None \<Rightarrow> fresh_info k | Some i \<Rightarrow> i)"
      proof (cases "lookup k ps")
        case None
        then have "k \<notin> peer_key ` set ps" by (simp only: lookup_None) simp
        with None True show ?thesis by (simp add: lookup_append qs_def)
      next
        case (Some i)
        then have "k \<in> peer_key ` set ps" using lookup_Some by blast
        with Some True show ?thesis by (simp add: qs_def)
      qed
      moreover have "peer_key (case lookup k ps of None \<Rightarrow> fresh_info k | Some i \<Rightarrow> i) = k"
        by (auto split: option.splits dest: lookup_Some)
      ultimately show ?thesis using True [symmetric] False by (simp add: set mapped f_def changed_built Let_def)
    next
      case other: False
      have "peer_key (fresh_info ?key) \<noteq> k" using other by auto
      then have "lookup k qs = lookup k ps" by (simp add: qs_def lookup_append split: option.splits)
      moreover have "map_option f (lookup k ps) = map_option (drop_ips (pb_allowed_ips b)) (lookup k ps)"
        using other by (cases "lookup k ps") (auto simp: f_def dest: lookup_Some)
      ultimately show ?thesis using other False by (simp add: set mapped)
    qed
  qed
qed

section \<open>The effect of an update\<close>

definition effect :: "peer_builder list \<Rightarrow> peer_info list \<Rightarrow> peer_info list" where
  "effect bs ps = fold set_item (map (Inr \<circ> builder_to_nla) bs) ps"

lemma effect_simps [simp]:
  "effect [] ps = ps" "effect (b # bs) ps = effect bs (set_peer (builder_to_nla b) ps)"
  "effect (bs @ bs') ps = effect bs' (effect bs ps)"
  by (simp_all add: effect_def)

text \<open>What builders of other peers leave of a peer that holds the address \<open>x\<close>.\<close>

definition kept :: "allowed_ip \<Rightarrow> peer_info \<Rightarrow> peer_info \<Rightarrow> bool" where
  "kept x i j \<longleftrightarrow> peer_key j = peer_key i \<and> pi_last_handshake j = pi_last_handshake i \<and>
     pc_preshared_key (pi_config j) = pc_preshared_key (pi_config i) \<and>
     pc_endpoint (pi_config j) = pc_endpoint (pi_config i) \<and> pc_keepalive (pi_config j) = pc_keepalive (pi_config i) \<and>
     (pc_allowed_ips (pi_config i) = [x] \<longrightarrow> pc_allowed_ips (pi_config j) = [x])"

lemma kept_order: "kept x i i" "kept x i j \<Longrightarrow> kept x j k \<Longrightarrow> kept x i k"
  by (auto simp: kept_def)

lemma kept_option_order: "rel_option (kept x) p p" "rel_option (kept x) p q \<Longrightarrow> rel_option (kept x) q r \<Longrightarrow> rel_option (kept x) p r"
  by (cases p; cases q; cases r; auto intro: kept_order)+

lemma kept_drop: "x \<notin> set ips \<Longrightarrow> kept x i (drop_ips ips i)"
  by (auto simp: kept_def drop_ips_def peer_key_def)

lemma effect_others:
  "\<forall>b \<in> set bs. pb_public_key b \<noteq> k \<and> x \<notin> set (pb_allowed_ips b) \<Longrightarrow>
   rel_option (kept x) (lookup k ps) (lookup k (effect bs ps))"
proof (induction bs arbitrary: ps)
  case (Cons b bs)
  then have "rel_option (kept x) (lookup k ps) (lookup k (set_peer (builder_to_nla b) ps))"
    by (cases "lookup k ps") (auto simp: lookup_set_peer kept_drop intro: kept_order)
  moreover have "rel_option (kept x) (lookup k (set_peer (builder_to_nla b) ps)) (lookup k (effect (b # bs) ps))"
    using Cons by simp
  ultimately show ?case by (rule kept_option_order)
qed (simp add: kept_option_order)

definition after_own :: "peer_builder \<Rightarrow> peer_info option \<Rightarrow> peer_info option" where
  "after_own b found = (if pb_remove_me b then None
     else Some (let i = (case found of None \<Rightarrow> fresh_info (pb_public_key b) | Some i \<Rightarrow> i) in
        i\<lparr>pi_config := built b (pi_config i)\<rparr>))"

lemma effect_own:
  assumes "b \<in> set bs" "distinct (map pb_public_key bs)"
    and "\<forall>c \<in> set bs. pb_public_key c \<noteq> pb_public_key b \<longrightarrow> x \<notin> set (pb_allowed_ips c)"
  shows "\<exists>found. rel_option (kept x) (lookup (pb_public_key b) ps) found \<and>
    rel_option (kept x) (after_own b found) (lookup (pb_public_key b) (effect bs ps))"
proof -
  from assms(1) obtain bs1 bs2 where bs: "bs = bs1 @ b # bs2" by (meson split_list)
  let ?k = "pb_public_key b"
  from assms bs have others: "\<forall>c \<in> set bs1. pb_public_key c \<noteq> ?k \<and> x \<notin> set (pb_allowed_ips c)"
      "\<forall>c \<in> set bs2. pb_public_key c \<noteq> ?k \<and> x \<notin> set (pb_allowed_ips c)"
    by (force simp: image_iff)+
  define found where "found = lookup ?k (effect bs1 ps)"
  have "lookup ?k (set_peer (builder_to_nla b) (effect bs1 ps)) = after_own b found"
    by (simp add: lookup_set_peer after_own_def found_def)
  with effect_others [OF others(2), of "set_peer (builder_to_nla b) (effect bs1 ps)"] effect_others [OF others(1), of ps]
  show ?thesis by (auto simp: bs found_def)
qed

lemma effect_unnamed:
  assumes "k \<notin> pb_public_key ` set bs"
  shows "lookup k (effect bs ps) = None \<longleftrightarrow> lookup k ps = None"
  using assms
proof (induction bs arbitrary: ps)
  case (Cons b bs)
  then show ?case by (simp add: lookup_set_peer)
qed simp

lemma effect_removed:
  assumes "b \<in> set bs" "distinct (map pb_public_key bs)" "pb_remove_me b"
  shows "lookup (pb_public_key b) (effect bs ps) = None"
proof -
  from assms(1) obtain bs1 bs2 where bs: "bs = bs1 @ b # bs2" by (meson split_list)
  with assms(2) have "pb_public_key b \<notin> pb_public_key ` set bs2" by auto
  then show ?thesis using assms(3) by (simp add: bs effect_unnamed lookup_set_peer)
qed

section \<open>The builders of a comparison\<close>

definition wanted_keepalive :: "peer \<Rightarrow> u16" where
  "wanted_keepalive p = (case pe_keepalive p of None \<Rightarrow> 0 | Some n \<Rightarrow> n)"

definition wanted_endpoint :: "diff_lib \<Rightarrow> peer \<Rightarrow> socket_addr option" where
  "wanted_endpoint D p = (case pe_endpoint p of None \<Rightarrow> None | Some e \<Rightarrow> dl_resolve D e)"

definition connected_now :: "diff_lib \<Rightarrow> peer_info option \<Rightarrow> bool" where
  "connected_now D found = (case found of None \<Rightarrow> False | Some i \<Rightarrow> is_recently_connected (dl_now D) i)"

text \<open>The builder of an enabled peer, field by field.\<close>

definition wanted_builder :: "diff_lib \<Rightarrow> peer_info option \<Rightarrow> peer \<Rightarrow> bytes \<Rightarrow> peer_builder" where
  "wanted_builder D found p k =
     \<lparr>pb_public_key = k, pb_preshared_key = None,
      pb_endpoint = (if connected_now D found \<or> found \<noteq> None \<and> pc_endpoint (pi_config (the found)) = wanted_endpoint D p
        then None else wanted_endpoint D p),
      pb_keepalive = (if found \<noteq> None \<and> pc_keepalive (pi_config (the found)) = pe_keepalive p
        then None else Some (wanted_keepalive p)),
      pb_allowed_ips = (if found \<noteq> None \<and> pc_allowed_ips (pi_config (the found)) = [peer_allowed_ip p]
        then [] else [peer_allowed_ip p]),
      pb_replace_allowed_ips = (\<not> (found \<noteq> None \<and> pc_allowed_ips (pi_config (the found)) = [peer_allowed_ip p])),
      pb_remove_me = False\<rparr>"

lemma builder_formula:
  assumes "\<not> pe_is_disabled p"
    and "case found of None \<Rightarrow> key_of_text D (pe_public_key p) = Some k | Some i \<Rightarrow> peer_key i = k"
  shows "\<exists>r. peer_config_builder D found (Some p) = Inr r \<and>
    (case r of None \<Rightarrow> found \<noteq> None \<and> wanted_builder D found p k = builder_new k | Some (b, changes) \<Rightarrow> b = wanted_builder D found p k)"
proof (cases found)
  case None
  with assms show ?thesis
    by (auto simp: peer_config_builder_def Let_def diff_allowed_ips_def diff_keepalive_def diff_endpoint_def builder_defs
        wanted_builder_def wanted_keepalive_def wanted_endpoint_def connected_now_def split: option.splits)
next
  case (Some i)
  with assms have "pc_public_key (pi_config i) = k" by (simp add: peer_key_def)
  with assms(1) Some show ?thesis
    by (cases "is_recently_connected (dl_now D) i"; cases "pc_allowed_ips (pi_config i) = [peer_allowed_ip p]";
        cases "pc_keepalive (pi_config i) = pe_keepalive p"; cases "wanted_endpoint D p")
      (auto simp: peer_config_builder_def Let_def diff_allowed_ips_def diff_keepalive_def diff_endpoint_def builder_defs
        wanted_builder_def wanted_keepalive_def wanted_endpoint_def connected_now_def split: option.splits)
qed

definition found_of :: "('a \<Rightarrow> ('e, 'b option) result) \<Rightarrow> 'a \<Rightarrow> 'b option" where
  "found_of f x = (case f x of Inl _ \<Rightarrow> None | Inr z \<Rightarrow> z)"

lemma found_of_Some: "found_of f x = Some d \<longleftrightarrow> f x = Inr (Some d)"
  by (cases "f x") (auto simp: found_of_def)

lemma filter_mapR_total: "\<forall>x \<in> set xs. is_ok (f x) \<Longrightarrow> filter_mapR f xs = Inr (List.map_filter (found_of f) xs)"
  by (induction xs) (auto simp: is_ok_iff found_of_def List.map_filter_def split: option.splits)

lemma distinct_map_filter:
  "distinct (map f xs) \<Longrightarrow> (\<And>x k. x \<in> set xs \<Longrightarrow> g x = Some k \<Longrightarrow> h k = f x) \<Longrightarrow> distinct (map h (List.map_filter g xs))"
proof (induction xs)
  case (Cons x xs)
  have "h k \<in> f ` set xs" if "k \<in> set (List.map_filter g xs)" for k
  proof -
    from that obtain y where "y \<in> set xs" "g y = Some k" by (auto simp: List.map_filter_def)
    with Cons.prems(2) show ?thesis by (metis image_eqI list.set_intros(2))
  qed
  moreover have "h k = f x" if "g x = Some k" for k using Cons.prems(2) that by simp
  ultimately show ?case using Cons by (fastforce simp: List.map_filter_simps image_iff split: option.splits)
qed (simp add: List.map_filter_simps)

text \<open>What the comparison relies on: the keys of the interface are distinct and their keepalives
  reported; the server's peers have readable keys of their own and addresses of their own.\<close>

definition well_listed :: "diff_lib \<Rightarrow> peer_info list \<Rightarrow> (int \<times> peer) list \<Rightarrow> bool" where
  "well_listed D ps peers \<longleftrightarrow> base64_law (dl_base64 D) \<and> distinct (map peer_key ps) \<and>
     (\<forall>i \<in> set ps. pc_keepalive (pi_config i) \<noteq> None) \<and>
     (\<forall>e \<in> set peers. \<exists>k. length k = 32 \<and> pe_public_key (snd e) = to_base64 D k) \<and>
     distinct (map (pe_public_key \<circ> snd) peers) \<and> distinct (map (pe_ip \<circ> snd) peers)"

definition own_key :: "diff_lib \<Rightarrow> device \<Rightarrow> string" where
  "own_key D dev = (case dv_public_key dev of None \<Rightarrow> [] | Some k \<Rightarrow> to_base64 D k)"

definition wanted :: "diff_lib \<Rightarrow> device \<Rightarrow> int \<times> peer \<Rightarrow> bool" where
  "wanted D dev e \<longleftrightarrow> \<not> pe_is_disabled (snd e) \<and> pe_public_key (snd e) \<noteq> own_key D dev"

lemma to_base64_inject: "well_listed D ps peers \<Longrightarrow> to_base64 D k = to_base64 D k' \<longleftrightarrow> k = k'"
  using base64_lawD(1) [of "dl_base64 D"] by (metis option.inject to_base64_def well_listed_def)

lemma key_of_base64: "well_listed D ps peers \<Longrightarrow> length k = 32 \<Longrightarrow> key_of_text D (to_base64 D k) = Some k"
  using base64_lawD(1) [of "dl_base64 D" k] by (simp add: key_of_text_def to_base64_def well_listed_def)

lemma listed_diff:
  assumes listed: "well_listed D (dv_peers dev) peers"
    and "e \<in> set peers" "pe_public_key (snd e) = to_base64 D k" "wanted D dev e"
  shows "\<exists>r. diff_listed D dev e = Inr r \<and>
    (case r of None \<Rightarrow> lookup k (dv_peers dev) \<noteq> None \<and> wanted_builder D (lookup k (dv_peers dev)) (snd e) k = builder_new k
     | Some d \<Rightarrow> df_builder d = wanted_builder D (lookup k (dv_peers dev)) (snd e) k)"
proof -
  obtain i p where e: "e = (i, p)" by (cases e)
  define found where "found = lookup k (dv_peers dev)"
  have find: "List.find (\<lambda>c. to_base64 D (pc_public_key (pi_config c)) = pe_public_key p) (dv_peers dev) = found"
    using assms(3) by (simp add: e found_def lookup_def peer_key_def to_base64_inject [OF listed])
  have "length k = 32" using assms(2,3) listed by (auto simp: well_listed_def to_base64_inject [OF listed])
  then have "case found of None \<Rightarrow> key_of_text D (pe_public_key p) = Some k | Some i \<Rightarrow> peer_key i = k"
    using assms(3) by (auto simp: e found_def key_of_base64 [OF listed] split: option.splits dest: lookup_Some)
  from builder_formula [OF _ this] assms(4) obtain r where r: "peer_config_builder D found (Some p) = Inr r"
    and r_form: "case r of None \<Rightarrow> found \<noteq> None \<and> wanted_builder D found p k = builder_new k
      | Some (b, changes) \<Rightarrow> b = wanted_builder D found p k"
    by (auto simp: wanted_def e)
  have same: "found = Some j \<Longrightarrow> to_base64 D (pc_public_key (pi_config j)) = pe_public_key p" for j
    using assms(3) by (auto simp: e found_def peer_key_def dest: lookup_Some)
  have "diff_listed D dev e = peer_diff_new D found (Some e)"
    using assms(4) find by (simp add: diff_listed_def e wanted_def own_key_def)
  also have "\<dots> = Inr (map_option (\<lambda>(b, changes). \<lparr>df_old = map_option pi_config found, df_new = Some e,
            df_builder = b, df_changes = changes\<rparr>) r)"
    using r same by (cases found) (auto simp: peer_diff_new_def e)
  finally show ?thesis using r_form by (cases r) (auto simp: found_def e)
qed

lemma unwanted_diff: "\<not> wanted D dev e \<Longrightarrow> diff_listed D dev e = Inr None"
  by (auto simp: diff_listed_def wanted_def own_key_def split: prod.splits)

lemma removed_diff:
  "diff_removed D peers j = Inr (if to_base64 D (peer_key j) \<in> (pe_public_key \<circ> snd) ` set peers then None
     else Some \<lparr>df_old = Some (pi_config j), df_new = None, df_builder = builder_remove (builder_new (peer_key j)), df_changes = []\<rparr>)"
proof -
  have "list_ex (\<lambda>(i, p). pe_public_key p = to_base64 D (pc_public_key (pi_config j))) peers \<longleftrightarrow>
      to_base64 D (peer_key j) \<in> (pe_public_key \<circ> snd) ` set peers"
    by (force simp: list_ex_iff peer_key_def)
  then show ?thesis
    by (simp add: diff_removed_def peer_diff_new_def peer_config_builder_def Let_def) (simp add: peer_key_def)
qed

text \<open>The builders of a comparison, by what they are for.\<close>

lemma diff_builders:
  assumes listed: "well_listed D (dv_peers dev) peers"
  obtains ds where "device_diff D dev peers = Inr ds" "distinct (map (pb_public_key \<circ> df_builder) ds)"
    "\<And>d. d \<in> set ds \<Longrightarrow>
      (\<exists>e k. e \<in> set peers \<and> wanted D dev e \<and> pe_public_key (snd e) = to_base64 D k \<and>
         df_builder d = wanted_builder D (lookup k (dv_peers dev)) (snd e) k) \<or>
      (\<exists>j \<in> set (dv_peers dev). to_base64 D (peer_key j) \<notin> (pe_public_key \<circ> snd) ` set peers \<and>
         df_builder d = builder_remove (builder_new (peer_key j)))"
    "\<And>e k. e \<in> set peers \<Longrightarrow> wanted D dev e \<Longrightarrow> pe_public_key (snd e) = to_base64 D k \<Longrightarrow>
      (\<exists>d \<in> set ds. df_builder d = wanted_builder D (lookup k (dv_peers dev)) (snd e) k) \<or>
      lookup k (dv_peers dev) \<noteq> None \<and> wanted_builder D (lookup k (dv_peers dev)) (snd e) k = builder_new k"
    "\<And>j. j \<in> set (dv_peers dev) \<Longrightarrow> to_base64 D (peer_key j) \<notin> (pe_public_key \<circ> snd) ` set peers \<Longrightarrow>
      \<exists>d \<in> set ds. df_builder d = builder_remove (builder_new (peer_key j))"
proof -
  let ?L = "diff_listed D dev" and ?R = "diff_removed D peers"
  have key: "\<exists>k. pe_public_key (snd e) = to_base64 D k" if "e \<in> set peers" for e
    using listed that by (auto simp: well_listed_def)
  have mods: "is_ok (?L e)" if "e \<in> set peers" for e
    using listed_diff [OF listed that] key [OF that] unwanted_diff [of D dev e] by (cases "wanted D dev e") (auto simp: is_ok_iff)
  define ms where "ms = List.map_filter (found_of ?L) peers"
  define rs where "rs = List.map_filter (found_of ?R) (dv_peers dev)"
  have diff: "device_diff D dev peers = Inr (ms @ rs)"
    using mods by (simp add: device_diff_def filter_mapR_total is_ok_iff removed_diff ms_def rs_def)
  have ms: "d \<in> set ms \<longleftrightarrow> (\<exists>e \<in> set peers. ?L e = Inr (Some d))" for d
  proof -
    have "d \<in> set ms \<longleftrightarrow> (\<exists>e \<in> set peers. found_of ?L e = Some d)"
      by (auto simp: ms_def List.map_filter_def image_iff) force
    also have "\<dots> \<longleftrightarrow> (\<exists>e \<in> set peers. ?L e = Inr (Some d))"
      by (simp add: found_of_Some)
    finally show ?thesis .
  qed
  have rs: "d \<in> set rs \<longleftrightarrow> (\<exists>j \<in> set (dv_peers dev). to_base64 D (peer_key j) \<notin> (pe_public_key \<circ> snd) ` set peers \<and>
      d = \<lparr>df_old = Some (pi_config j), df_new = None, df_builder = builder_remove (builder_new (peer_key j)), df_changes = []\<rparr>)" for d
    by (auto simp: rs_def List.map_filter_def found_of_def removed_diff split: if_splits)
  have wanted_d: "\<exists>k. wanted D dev e \<and> pe_public_key (snd e) = to_base64 D k \<and>
      df_builder d = wanted_builder D (lookup k (dv_peers dev)) (snd e) k" if "e \<in> set peers" "?L e = Inr (Some d)" for e d
    using listed_diff [OF listed that(1)] key [OF that(1)] unwanted_diff [of D dev e] that(2) by (cases "wanted D dev e") auto
  have "distinct (map (to_base64 D \<circ> pb_public_key \<circ> df_builder) ms)" unfolding ms_def
  proof (rule distinct_map_filter [where f = "pe_public_key \<circ> snd"])
    show "distinct (map (pe_public_key \<circ> snd) peers)" using listed by (simp add: well_listed_def)
    show "(to_base64 D \<circ> pb_public_key \<circ> df_builder) d = (pe_public_key \<circ> snd) e"
      if "e \<in> set peers" "found_of ?L e = Some d" for e d
      using wanted_d [of e d] that by (auto simp: found_of_Some wanted_builder_def)
  qed
  moreover have "distinct (map (to_base64 D \<circ> pb_public_key \<circ> df_builder) rs)" unfolding rs_def
  proof (rule distinct_map_filter [where f = "to_base64 D \<circ> peer_key"])
    show "distinct (map (to_base64 D \<circ> peer_key) (dv_peers dev))"
      using listed by (simp add: well_listed_def distinct_map inj_on_def to_base64_inject [OF listed])
  qed (auto simp: found_of_Some removed_diff builder_defs split: if_splits)
  moreover have "(to_base64 D \<circ> pb_public_key \<circ> df_builder) d \<noteq> (to_base64 D \<circ> pb_public_key \<circ> df_builder) d'"
    if "d \<in> set ms" "d' \<in> set rs" for d d'
    using that wanted_d by (fastforce simp: ms rs wanted_builder_def builder_defs image_iff)
  ultimately have "distinct (map (to_base64 D \<circ> (pb_public_key \<circ> df_builder)) (ms @ rs))"
    by (auto simp: comp_assoc)
  then have "distinct (map (pb_public_key \<circ> df_builder) (ms @ rs))"
    by (simp only: map_map [symmetric] distinct_map)
  then show thesis
  proof (rule that [OF diff])
    fix d assume "d \<in> set (ms @ rs)"
    then have "d \<in> set ms \<or> d \<in> set rs" by simp
    then show "(\<exists>e k. e \<in> set peers \<and> wanted D dev e \<and> pe_public_key (snd e) = to_base64 D k \<and>
         df_builder d = wanted_builder D (lookup k (dv_peers dev)) (snd e) k) \<or>
      (\<exists>j \<in> set (dv_peers dev). to_base64 D (peer_key j) \<notin> (pe_public_key \<circ> snd) ` set peers \<and>
         df_builder d = builder_remove (builder_new (peer_key j)))"
    proof
      assume "d \<in> set ms"
      with wanted_d show ?thesis unfolding ms by blast
    next
      assume "d \<in> set rs"
      then obtain j where "j \<in> set (dv_peers dev)" "to_base64 D (peer_key j) \<notin> (pe_public_key \<circ> snd) ` set peers"
        "df_builder d = builder_remove (builder_new (peer_key j))" unfolding rs by auto
      then show ?thesis by blast
    qed
  next
    fix e k assume e: "e \<in> set peers" "wanted D dev e" "pe_public_key (snd e) = to_base64 D k"
    from listed_diff [OF listed e(1,3,2)] obtain r where r: "?L e = Inr r"
      "case r of None \<Rightarrow> lookup k (dv_peers dev) \<noteq> None \<and> wanted_builder D (lookup k (dv_peers dev)) (snd e) k = builder_new k
       | Some d \<Rightarrow> df_builder d = wanted_builder D (lookup k (dv_peers dev)) (snd e) k" by blast
    with e(1) show "(\<exists>d \<in> set (ms @ rs). df_builder d = wanted_builder D (lookup k (dv_peers dev)) (snd e) k) \<or>
      lookup k (dv_peers dev) \<noteq> None \<and> wanted_builder D (lookup k (dv_peers dev)) (snd e) k = builder_new k"
      by (cases r) (auto simp: ms intro!: exI bexI)
  next
    fix j assume "j \<in> set (dv_peers dev)" "to_base64 D (peer_key j) \<notin> (pe_public_key \<circ> snd) ` set peers"
    then have "\<lparr>df_old = Some (pi_config j), df_new = None, df_builder = builder_remove (builder_new (peer_key j)), df_changes = []\<rparr> \<in> set rs"
      unfolding rs by blast
    then show "\<exists>d \<in> set (ms @ rs). df_builder d = builder_remove (builder_new (peer_key j))" by force
  qed
qed

text \<open>What the peer of an entry is after the update, and what a second comparison finds.\<close>

definition in_sync :: "diff_lib \<Rightarrow> peer \<Rightarrow> peer_info option \<Rightarrow> peer_info \<Rightarrow> bool" where
  "in_sync D p before i \<longleftrightarrow>
     pc_allowed_ips (pi_config i) = [peer_allowed_ip p] \<and>
     pc_keepalive (pi_config i) = Some (wanted_keepalive p) \<and>
     (\<not> connected_now D before \<longrightarrow> wanted_endpoint D p \<noteq> None \<longrightarrow> pc_endpoint (pi_config i) = wanted_endpoint D p) \<and>
     pc_preshared_key (pi_config i) = (case before of None \<Rightarrow> None | Some j \<Rightarrow> pc_preshared_key (pi_config j)) \<and>
     pi_last_handshake i = (case before of None \<Rightarrow> None | Some j \<Rightarrow> pi_last_handshake j)"

lemma in_sync_kept: "in_sync D p before i \<Longrightarrow> kept (peer_allowed_ip p) i j \<Longrightarrow> in_sync D p before j"
  by (auto simp: in_sync_def kept_def)

lemma after_wanted:
  assumes "rel_option (kept (peer_allowed_ip p)) before found" "pred_option (\<lambda>i. pc_keepalive (pi_config i) \<noteq> None) before"
  shows "pred_option (in_sync D p before) (after_own (wanted_builder D before p k) found)"
  using assms
  by (cases before; cases found)
    (auto simp: after_own_def wanted_builder_def Let_def in_sync_def built_def kept_def fresh_info_def connected_now_def
      wanted_keepalive_def split: option.splits)

lemma unchanged_in_sync:
  assumes "wanted_builder D before p k = builder_new k" "before = Some i" "pc_keepalive (pi_config i) \<noteq> None"
  shows "in_sync D p before i"
  using assms by (auto simp: wanted_builder_def builder_new_def in_sync_def wanted_keepalive_def split: if_splits option.splits)

text \<open>Nothing is left to do but to say again that there is no keepalive.\<close>

lemma again_in_sync:
  assumes "in_sync D p before i" "connected_now D (Some i) = connected_now D before"
  shows "wanted_builder D (Some i) p k \<in> {builder_new k, unset_keepalive (builder_new k)}"
  using assms by (cases "wanted_endpoint D p"; cases "connected_now D before")
    (auto simp: wanted_builder_def builder_defs in_sync_def wanted_keepalive_def split: option.splits)

lemma set_peer_unchanged:
  assumes "distinct (map peer_key ps)" "lookup k ps = Some i" "pb_public_key b = k" "\<not> pb_remove_me b"
    and "pb_allowed_ips b = []" "built b (pi_config i) = pi_config i"
  shows "set_peer (builder_to_nla b) ps = ps"
proof -
  have i: "i \<in> set ps" "peer_key i = k" using lookup_Some [OF assms(2)] by simp_all
  have "(if peer_key j = k then j\<lparr>pi_config := built b (pi_config j)\<rparr> else drop_ips [] j) = j" if "j \<in> set ps" for j
  proof (cases "peer_key j = k")
    case True
    with that i assms(1) have "j = i" by (auto simp: distinct_map inj_on_def)
    with True assms(6) show ?thesis by simp
  qed (simp add: drop_ips_def)
  then have "map (\<lambda>j. if peer_key j = k then j\<lparr>pi_config := built b (pi_config j)\<rparr> else drop_ips [] j) ps = ps"
    by (simp add: map_idI)
  moreover have "k \<in> peer_key ` set ps" using i by blast
  ultimately show ?thesis
    using assms(3-5) by (simp add: set_peer_def change_peer_def changed_built cong: if_cong)
qed

lemma in_sync_unchanged:
  assumes "distinct (map peer_key ps)" "lookup k ps = Some i" "in_sync D p before i" "connected_now D (Some i) = connected_now D before"
  shows "set_peer (builder_to_nla (wanted_builder D (Some i) p k)) ps = ps"
proof (rule set_peer_unchanged [OF assms(1,2)])
  show "built (wanted_builder D (Some i) p k) (pi_config i) = pi_config i"
    using assms(3,4) again_in_sync [OF assms(3,4), of k]
    by (auto simp: built_def wanted_builder_def builder_defs in_sync_def split: option.splits if_splits)
  show "pb_allowed_ips (wanted_builder D (Some i) p k) = []" using assms(3) by (simp add: wanted_builder_def in_sync_def)
qed (simp_all add: wanted_builder_def)

lemma effect_unchanged: "\<forall>b \<in> set bs. set_peer (builder_to_nla b) ps = ps \<Longrightarrow> effect bs ps = ps"
  by (induction bs) simp_all

lemma connected_in_sync: "in_sync D p before i \<Longrightarrow> connected_now D (Some i) = connected_now D before"
  by (auto simp: in_sync_def connected_now_def is_recently_connected_def split: option.splits)

section \<open>The comparison converges\<close>

lemma update_items_peers: "update_items (add_peers bs update_new) = map (Inr \<circ> builder_to_nla) bs"
  by (simp add: update_items_def add_peers_def update_new_def)

lemma diff_applied:
  assumes listed: "well_listed D (dv_peers dev) peers" and diff: "device_diff D dev peers = Inr ds"
    and after: "ps = effect (map df_builder ds) (dv_peers dev)"
  shows "(\<forall>e k. e \<in> set peers \<longrightarrow> wanted D dev e \<longrightarrow> pe_public_key (snd e) = to_base64 D k \<longrightarrow>
       (\<exists>i. lookup k ps = Some i \<and> in_sync D (snd e) (lookup k (dv_peers dev)) i)) \<and>
    (\<forall>i \<in> set ps. to_base64 D (peer_key i) \<in> (pe_public_key \<circ> snd) ` set peers)"
proof -
  let ?bs = "map df_builder ds"
  obtain ds' where ds': "device_diff D dev peers = Inr ds'" "distinct (map (pb_public_key \<circ> df_builder) ds')"
    and kinds: "\<And>d. d \<in> set ds' \<Longrightarrow>
      (\<exists>e k. e \<in> set peers \<and> wanted D dev e \<and> pe_public_key (snd e) = to_base64 D k \<and>
         df_builder d = wanted_builder D (lookup k (dv_peers dev)) (snd e) k) \<or>
      (\<exists>j \<in> set (dv_peers dev). to_base64 D (peer_key j) \<notin> (pe_public_key \<circ> snd) ` set peers \<and>
         df_builder d = builder_remove (builder_new (peer_key j)))"
    and complete: "\<And>e k. e \<in> set peers \<Longrightarrow> wanted D dev e \<Longrightarrow> pe_public_key (snd e) = to_base64 D k \<Longrightarrow>
      (\<exists>d \<in> set ds'. df_builder d = wanted_builder D (lookup k (dv_peers dev)) (snd e) k) \<or>
      lookup k (dv_peers dev) \<noteq> None \<and> wanted_builder D (lookup k (dv_peers dev)) (snd e) k = builder_new k"
    and removals: "\<And>j. j \<in> set (dv_peers dev) \<Longrightarrow> to_base64 D (peer_key j) \<notin> (pe_public_key \<circ> snd) ` set peers \<Longrightarrow>
      \<exists>d \<in> set ds'. df_builder d = builder_remove (builder_new (peer_key j))"
    by (rule diff_builders [OF listed]) blast
  have same: "ds' = ds" using ds'(1) diff by simp
  have keys: "distinct (map pb_public_key ?bs)" using ds'(2) by (simp add: same)
  have ips: "pe_ip (snd e) = pe_ip (snd e') \<Longrightarrow> e \<in> set peers \<Longrightarrow> e' \<in> set peers \<Longrightarrow> e = e'"
    and texts: "pe_public_key (snd e) = pe_public_key (snd e') \<Longrightarrow> e \<in> set peers \<Longrightarrow> e' \<in> set peers \<Longrightarrow> e = e'" for e e'
    using listed by (auto simp: well_listed_def distinct_map inj_on_def)
  have alone: "peer_allowed_ip (snd e) \<notin> set (pb_allowed_ips b)"
    if "e \<in> set peers" "pe_public_key (snd e) = to_base64 D k" "b \<in> set ?bs" "pb_public_key b \<noteq> k" for e k b
  proof
    assume shared: "peer_allowed_ip (snd e) \<in> set (pb_allowed_ips b)"
    from that(3) kinds obtain e' k' where e': "e' \<in> set peers" "pe_public_key (snd e') = to_base64 D k'"
      "b = wanted_builder D (lookup k' (dv_peers dev)) (snd e') k'"
      using shared by (fastforce simp: same builder_defs)
    then have "pe_ip (snd e) = pe_ip (snd e')"
      using shared by (auto simp: wanted_builder_def peer_allowed_ip_def split: if_splits)
    with ips that(1) e'(1) have "e = e'" by blast
    with that e' show False by (auto simp: wanted_builder_def to_base64_inject [OF listed])
  qed
  have goal1: "\<exists>i. lookup k ps = Some i \<and> in_sync D (snd e) (lookup k (dv_peers dev)) i"
    if e: "e \<in> set peers" "wanted D dev e" "pe_public_key (snd e) = to_base64 D k" for e k
  proof -
    let ?x = "peer_allowed_ip (snd e)" and ?before = "lookup k (dv_peers dev)"
    let ?w = "wanted_builder D ?before (snd e) k"
    have alive: "pred_option (\<lambda>i. pc_keepalive (pi_config i) \<noteq> None) ?before"
      using listed by (auto simp: well_listed_def pred_option_def dest!: lookup_Some split: option.splits)
    show ?thesis
    proof (cases "?w \<in> set ?bs")
      case True
      have others: "\<forall>c \<in> set ?bs. pb_public_key c \<noteq> pb_public_key ?w \<longrightarrow> ?x \<notin> set (pb_allowed_ips c)"
        using alone e by (auto simp: wanted_builder_def)
      from effect_own [OF True keys others, of "dv_peers dev"] obtain found
        where found: "rel_option (kept ?x) ?before found"
        and last: "rel_option (kept ?x) (after_own ?w found) (lookup k ps)"
        by (auto simp: wanted_builder_def after)
      have "pred_option (in_sync D (snd e) ?before) (after_own ?w found)"
        by (rule after_wanted [OF found alive])
      moreover have "after_own ?w found \<noteq> None" by (simp add: after_own_def wanted_builder_def)
      ultimately show ?thesis using last
        by (cases "after_own ?w found"; cases "lookup k ps") (auto intro: in_sync_kept)
    next
      case False
      with complete [OF e] have w: "?before \<noteq> None" "?w = builder_new k" by (auto simp: same image_iff)
      then obtain i where i: "?before = Some i" by blast
      have "pb_public_key b \<noteq> k" if "b \<in> set ?bs" for b
      proof
        assume bk: "pb_public_key b = k"
        from that kinds obtain d where d: "d \<in> set ds'" "b = df_builder d" by (auto simp: same)
        from kinds [OF d(1)] show False
        proof (elim disjE exE bexE conjE)
          fix e' k' assume e': "e' \<in> set peers" "pe_public_key (snd e') = to_base64 D k'"
            "df_builder d = wanted_builder D (lookup k' (dv_peers dev)) (snd e') k'"
          then have "k' = k" using bk d by (simp add: wanted_builder_def)
          with e' e texts have "e' = e" by metis
          with e' d \<open>k' = k\<close> that False show False by simp
        next
          fix j assume "to_base64 D (peer_key j) \<notin> (pe_public_key \<circ> snd) ` set peers"
            "df_builder d = builder_remove (builder_new (peer_key j))"
          then show False using bk d e by (auto simp: builder_defs image_iff)
        qed
      qed
      then have "\<forall>b \<in> set ?bs. pb_public_key b \<noteq> k \<and> ?x \<notin> set (pb_allowed_ips b)"
        using alone e by blast
      from effect_others [OF this, of "dv_peers dev"] have "rel_option (kept ?x) ?before (lookup k ps)"
        by (simp add: after)
      moreover have "in_sync D (snd e) ?before i" using unchanged_in_sync [OF w(2) i] alive i by simp
      ultimately show ?thesis using i by (cases "lookup k ps") (auto intro: in_sync_kept)
    qed
  qed
  have goal2: "to_base64 D (peer_key i) \<in> (pe_public_key \<circ> snd) ` set peers" if "i \<in> set ps" for i
  proof (rule ccontr)
    assume gone: "to_base64 D (peer_key i) \<notin> (pe_public_key \<circ> snd) ` set peers"
    from that have "peer_key i \<in> peer_key ` set ps" by simp
    then have present: "lookup (peer_key i) ps \<noteq> None" using lookup_None [of "peer_key i" ps] by simp
    show False
    proof (cases "lookup (peer_key i) (dv_peers dev)")
      case None
      have "peer_key i \<notin> pb_public_key ` set ?bs"
      proof
        assume "peer_key i \<in> pb_public_key ` set ?bs"
        then obtain d where d: "d \<in> set ds'" "pb_public_key (df_builder d) = peer_key i" by (auto simp: same)
        from kinds [OF d(1)] gone None d show False
          by (auto simp: wanted_builder_def builder_defs image_iff lookup_None)
      qed
      from effect_unnamed [OF this] None present show False by (simp add: after)
    next
      case (Some j)
      then have j: "j \<in> set (dv_peers dev)" "peer_key j = peer_key i" by (auto dest: lookup_Some)
      with removals [of j] gone have b: "builder_remove (builder_new (peer_key i)) \<in> set ?bs"
        by (auto simp: same image_iff) metis
      from effect_removed [OF b keys, of "dv_peers dev"] present show False by (simp add: after builder_defs)
    qed
  qed
  from goal1 goal2 show ?thesis by blast
qed

lemma effect_wf:
  "distinct (map peer_key ps) \<Longrightarrow> \<forall>i \<in> set ps. pc_keepalive (pi_config i) \<noteq> None \<Longrightarrow>
   distinct (map peer_key (effect bs ps)) \<and> (\<forall>i \<in> set (effect bs ps). pc_keepalive (pi_config i) \<noteq> None)"
proof (induction bs arbitrary: ps)
  case (Cons b bs)
  let ?f = "\<lambda>i. if peer_key i = pb_public_key b then i\<lparr>pi_config := built b (pi_config i)\<rparr> else drop_ips (pb_allowed_ips b) i"
  have keys: "map peer_key (map ?f qs) = map peer_key qs" for qs
    by (auto simp: peer_key_def drop_ips_def)
  have alive: "pc_keepalive (pi_config (?f i)) \<noteq> None" if "pc_keepalive (pi_config i) \<noteq> None" for i
    using that by (auto simp: built_def drop_ips_def split: option.splits)
  have "distinct (map peer_key (set_peer (builder_to_nla b) ps)) \<and>
      (\<forall>i \<in> set (set_peer (builder_to_nla b) ps). pc_keepalive (pi_config i) \<noteq> None)"
  proof (cases "pb_remove_me b")
    case True
    with Cons.prems show ?thesis by (auto simp: set_peer_def distinct_map inj_on_def)
  next
    case False
    define qs where "qs = (if pb_public_key b \<in> peer_key ` set ps then ps else ps @ [fresh_info (pb_public_key b)])"
    have "set_peer (builder_to_nla b) ps = map ?f qs"
      using False by (simp add: set_peer_def change_peer_def changed_built qs_def)
    moreover have "distinct (map peer_key qs)" using Cons.prems(1) by (auto simp: qs_def)
    moreover have "\<forall>i \<in> set qs. pc_keepalive (pi_config i) \<noteq> None" using Cons.prems(2) by (auto simp: qs_def fresh_info_def)
    ultimately show ?thesis using keys [of qs] alive by (simp only: set_map ball_simps) metis
  qed
  with Cons.IH [of "set_peer (builder_to_nla b) ps"] show ?case by simp
qed simp

lemma diff_again:
  assumes listed: "well_listed D (dv_peers dev) peers" and diff: "device_diff D dev peers = Inr ds"
    and after: "dv_peers dev2 = effect (map df_builder ds) (dv_peers dev)" and own: "dv_public_key dev2 = dv_public_key dev"
  shows "\<exists>ds2. device_diff D dev2 peers = Inr ds2 \<and>
    (\<forall>d \<in> set ds2. \<exists>k. df_builder d \<in> {builder_new k, unset_keepalive (builder_new k)}) \<and>
    effect (map df_builder ds2) (dv_peers dev2) = dv_peers dev2"
proof -
  note synced = diff_applied [OF listed diff after]
  have again: "well_listed D (dv_peers dev2) peers"
    using listed effect_wf [of "dv_peers dev" "map df_builder ds"] by (auto simp: well_listed_def after)
  then have keys: "distinct (map peer_key (dv_peers dev2))" by (simp add: well_listed_def)
  from again obtain ds2 where "device_diff D dev2 peers = Inr ds2" and kinds: "\<And>d. d \<in> set ds2 \<Longrightarrow>
      (\<exists>e k. e \<in> set peers \<and> wanted D dev2 e \<and> pe_public_key (snd e) = to_base64 D k \<and>
         df_builder d = wanted_builder D (lookup k (dv_peers dev2)) (snd e) k) \<or>
      (\<exists>j \<in> set (dv_peers dev2). to_base64 D (peer_key j) \<notin> (pe_public_key \<circ> snd) ` set peers \<and>
         df_builder d = builder_remove (builder_new (peer_key j)))"
    by (rule diff_builders) blast
  moreover have "(\<exists>k. df_builder d \<in> {builder_new k, unset_keepalive (builder_new k)}) \<and>
      set_peer (builder_to_nla (df_builder d)) (dv_peers dev2) = dv_peers dev2" if "d \<in> set ds2" for d
    using kinds [OF that]
  proof (elim disjE exE bexE conjE)
    fix e k assume e: "e \<in> set peers" "wanted D dev2 e" "pe_public_key (snd e) = to_base64 D k"
      "df_builder d = wanted_builder D (lookup k (dv_peers dev2)) (snd e) k"
    then have "wanted D dev e" by (simp add: wanted_def own_key_def own)
    with synced e(1,3) obtain i where i: "lookup k (dv_peers dev2) = Some i" "in_sync D (snd e) (lookup k (dv_peers dev)) i"
      by blast
    from again_in_sync [OF i(2) connected_in_sync [OF i(2)]] in_sync_unchanged [OF keys i connected_in_sync [OF i(2)]]
    show ?thesis using e(4) i(1) by auto
  next
    fix j assume "j \<in> set (dv_peers dev2)" "to_base64 D (peer_key j) \<notin> (pe_public_key \<circ> snd) ` set peers"
    with synced show ?thesis by blast
  qed
  ultimately show ?thesis using effect_unchanged [of "map df_builder ds2"] by auto
qed

section \<open>Properties\<close>


definition sample_listed :: "u32 \<Rightarrow> byte \<Rightarrow> peer" where
  "sample_listed ip k = \<lparr>pe_name = ''p'', pe_ip = IpV4 ip, pe_cidr_id = 2, pe_public_key = sample_key k, pe_endpoint = None,
     pe_keepalive = Some 25, pe_is_admin = False, pe_is_disabled = False, pe_is_redeemed = True,
     pe_invite_expires = None, pe_candidates = []\<rparr>"

lemma sample_key_inject: "sample_key k = sample_key k' \<longleftrightarrow> k = k'"
proof -
  have "replicate 32 k = replicate 32 k' \<longleftrightarrow> k = k'" by (simp add: replicate_eq_replicate)
  moreover have "sample_key k = sample_key k' \<longleftrightarrow> replicate 32 k = replicate 32 k'"
    unfolding sample_key_def using base64_lawD(1) [OF toy_base64_law] by (metis option.inject)
  ultimately show ?thesis by blast
qed

definition sample_directory :: directory_lib where
  "sample_directory = \<lparr>dy_print = (\<lambda>_. Some ''{}''), dy_parse = (\<lambda>_. None)\<rparr>"


text \<open>C32. The pins last only as long as the file: it is truncated before it is written, so when writing
fails the file is empty, an empty file is opened as an empty directory, and any set of bindings
of one key each, whatever the keys, is then accepted.\<close>

theorem failed_write_forgets_pins:
  assumes "dy_parse J [] = None" "update_peers nps d = (Inr (), d1)"
  shows "update_peers_and_set_cidrs J (WriteFails 0) nps cs (d, file_text) = (Inl WriteFailed, (d1\<lparr>ds_cidrs := cs\<rparr>, [])) \<and>
    (agreeing (bound other) \<longrightarrow> fst (update_peers other (open_directory_file J [])) = Inr ())"
proof -
  have "update_peers_and_set_cidrs J (WriteFails 0) nps cs (d, file_text) = (Inl WriteFailed, (d1\<lparr>ds_cidrs := cs\<rparr>, []))"
    using assms(2) by (auto simp: update_peers_and_set_cidrs_def write_directory_def Let_def split: option.splits)
  moreover have "pinned (open_directory_file J [])" "bound (ds_peers (open_directory_file J [])) = {}"
    using assms(1) by (simp_all add: open_directory_file_def pinned_def)
  ultimately show ?thesis
    using update_peers_run [of "open_directory_file J []" other] by (metis prod.collapse sup_bot_left)
qed

theorem failed_write_forgets_pins_witness:
  "\<exists>d. update_peers_and_set_cidrs \<lparr>dy_print = \<lambda>_. Some ''{}'', dy_parse = \<lambda>s. None\<rparr> (WriteFails 0) [(2, sample_listed 7 1)] []
      (\<lparr>ds_peers = [], ds_cidrs = []\<rparr>, ''{}'') = (Inl WriteFailed, (d, [])) \<and> binding (2, sample_listed 7 1) \<in> bound (ds_peers d) \<and>
    fst (update_peers [(3, sample_listed 7 2)] (open_directory_file \<lparr>dy_print = \<lambda>_. Some ''{}'', dy_parse = \<lambda>s. None\<rparr> [])) = Inr ()"
proof -
  let ?J = "\<lparr>dy_print = \<lambda>_. Some ''{}'', dy_parse = \<lambda>s. None\<rparr> :: directory_lib"
  have step: "update_peers [(2, sample_listed 7 1)] \<lparr>ds_peers = [], ds_cidrs = []\<rparr>
      = (Inr (), \<lparr>ds_peers = [(2, sample_listed 7 1)], ds_cidrs = []\<rparr>)"
    by (simp add: update_peers_def disable_absent_def)
  have "agreeing (bound [(3, sample_listed 7 2)])" by (auto simp: agreeing_def binding_def)
  with failed_write_forgets_pins [OF _ step, of ?J "[]" "''{}''" "[(3, sample_listed 7 2)]"] show ?thesis by auto
qed


text \<open>A kernel that does what its documentation says.\<close>

definition sample_kernel :: "peer_info list kernel" where
  "sample_kernel = \<lparr>kn_add = \<lambda>_ ps. (Err IoExists, ps), kn_del = \<lambda>_ _. (Ok (), []),
     kn_set = \<lambda>m ps. (Ok (), fold set_item (items m) ps), kn_get = \<lambda>n ps. (Ok [[DIfName n]], ps)\<rparr>"

lemma sample_kernel_law: "kernel_law sample_kernel iface (\<lambda>ps. ps)"
  by (simp add: kernel_law_def sample_kernel_def)

definition sample_diff :: diff_lib where
  "sample_diff = \<lparr>dl_base64 = toy_base64, dl_resolve = \<lambda>_. None, dl_now = 0\<rparr>"

definition sample_device :: device where
  "sample_device = \<lparr>dv_name = ''wg0'', dv_public_key = None, dv_private_key = None, dv_fwmark = None,
     dv_listen_port = None, dv_peers = [fresh_info (replicate 32 1)]\<rparr>"

lemma sample_applies: "\<exists>k'. apply_update sample_sizes sample_kernel (add_peers bs update_new) iface k = (Inr (), k')"
proof -
  have "update_fits sample_sizes iface (add_peers bs update_new)"
    by (auto simp: update_fits_def update_items_peers sample_sizes_def)
  with messages_total [OF sample_sizes_law] obtain ms where
    ms: "apply_messages sample_sizes (add_peers bs update_new) iface = Inr ms" by blast
  have "\<exists>k'. send_all sample_kernel ms k = (Inr (), k')" for k
    by (induction ms arbitrary: k) (auto simp: bindS_def sample_kernel_def)
  with ms show ?thesis by (auto simp: apply_update_def bindS_def liftS_def add_del_def sample_kernel_def)
qed


end
