(* ===== verification/InterfaceProps.thy ===== *)
theory InterfaceProps
  imports Interface PeerSyncProps
begin

text \<open>
  The gate of a client: it is closed for every unconfirmed data peer before the ordinary update
  of the interface, installing a key works behind it, and only a handshake opens it; what a
  handshake after a reboot does not prove.
\<close>

section \<open>What nft does\<close>

fun nft_effect :: "nft_command \<Rightarrow> allowed_ip set \<Rightarrow> allowed_ip set" where
  "nft_effect DeleteTable B = {}"
| "nft_effect (CreateTable ips) B = B \<union> set ips"
| "nft_effect EnsureTable B = B"
| "nft_effect (AddElements ips) B = B \<union> set ips"
| "nft_effect (DeleteElement a) B = B - {a}"

text \<open>A script is applied as a whole or not at all; \<open>blocked\<close> are the elements of the two sets.\<close>

definition nft_law :: "'g gate_lib \<Rightarrow> string \<Rightarrow> ('g \<Rightarrow> allowed_ip set) \<Rightarrow> bool" where
  "nft_law G iface blocked \<longleftrightarrow> (\<forall>c g r g'. gl_nft G c (nft_text G iface c) g = (r, g') \<longrightarrow>
     blocked g' = (if is_ok r then nft_effect c (blocked g) else blocked g))"

lemma run_nft_blocked:
  "nft_law G iface blocked \<Longrightarrow> run_nft G iface c g = (r, g') \<Longrightarrow>
   blocked g' = (if is_ok r then nft_effect c (blocked g) else blocked g)"
  by (simp add: nft_law_def run_nft_def)

lemma add_script_Nil: "add_script G iface ips = [] \<Longrightarrow> ips = []"
proof -
  assume empty: "add_script G iface ips = []"
  have "filter is_v4 ips = []"
    by (rule ccontr) (use empty in \<open>simp add: add_script_def split_by_family_def\<close>)
  moreover have "filter (\<lambda>a. \<not> is_v4 a) ips = []"
    by (rule ccontr) (use empty in \<open>simp add: add_script_def split_by_family_def\<close>)
  ultimately have "length ips = 0" using sum_length_filter_compl [of is_v4 ips] by simp
  then show "ips = []" by simp
qed

lemma block_closes:
  assumes "nft_law G iface blocked" "gate_block G iface ips g = (r, g')"
  shows "blocked g \<subseteq> blocked g' \<and> (is_ok r \<longrightarrow> blocked g' = blocked g \<union> set ips)"
proof -
  obtain r1 g1 where one: "run_nft G iface EnsureTable g = (r1, g1)" by force
  from run_nft_blocked [OF assms(1) one] have same: "blocked g1 = blocked g" by (auto split: if_splits)
  show ?thesis
  proof (cases r1)
    case (Inl e)
    with assms(2) one have "r = Inl e" "g' = g1" by (simp_all add: gate_block_def bindS_def)
    with same show ?thesis by simp
  next
    case (Inr u)
    with assms(2) one have rest: "(if add_script G iface ips = [] then retS () else run_nft G iface (AddElements ips)) g1 = (r, g')"
      by (simp add: gate_block_def bindS_def)
    show ?thesis
    proof (cases "add_script G iface ips = []")
      case True
      with rest same add_script_Nil [OF True] show ?thesis by (auto simp: retS_def)
    next
      case False
      with rest have "run_nft G iface (AddElements ips) g1 = (r, g')" by simp
      from run_nft_blocked [OF assms(1) this] same show ?thesis by auto
    qed
  qed
qed

lemma delete_all_opens:
  assumes "nft_law G iface blocked"
  shows "blocked (delete_all G iface ips g) \<subseteq> blocked g \<and> blocked g - set ips \<subseteq> blocked (delete_all G iface ips g)"
proof (induction ips arbitrary: g)
  case (Cons a ips)
  obtain r g1 where step: "run_nft G iface (DeleteElement a) g = (r, g1)" by force
  from run_nft_blocked [OF assms step] Cons [of g1] step show ?case by (auto split: if_splits)
qed simp

lemma release_opens:
  assumes "nft_law G iface blocked" "gate_release G iface ips g = (r, g')"
  shows "r = Inr () \<and> blocked g' \<subseteq> blocked g \<and> blocked g - set ips \<subseteq> blocked g'"
  using assms(2) delete_all_opens [OF assms(1), of "filter is_v4 ips @ filter (\<lambda>a. \<not> is_v4 a) ips" g]
  by (auto simp: gate_release_def)

lemma apply_all_closes:
  assumes "nft_law G iface blocked" "gate_apply_all G iface ips g = (Inr (), g')"
  shows "set ips \<subseteq> blocked g'"
proof -
  obtain r g1 where one: "run_nft G iface DeleteTable g = (r, g1)" by force
  with assms(2) have "run_nft G iface (CreateTable ips) g1 = (Inr (), g')"
    by (auto simp: gate_apply_all_def bindS_def gate_clear_def)
  from run_nft_blocked [OF assms(1) this] show ?thesis by simp
qed

section \<open>The gate before the update\<close>

text \<open>Who must be gated: a data peer that is not confirmed, or any when this side is retired, unless it
  is a legacy peer under a permissive policy.\<close>

definition must_gate :: "endpoint \<Rightarrow> peer_state \<Rightarrow> bool" where
  "must_gate ep = (\<lambda>((i, p), server, pq). \<not> server \<and>
     (case number_new (word_of_int i) of
        Inl _ \<Rightarrow> False
      | Inr other \<Rightarrow>
          other \<noteq> ep_server_id ep \<and> other \<noteq> ep_peer_id ep \<and>
          (rg_lifecycle (ep_registration ep) = LRetired \<or>
           \<not> (\<exists>r. bt_get other (ep_relationships ep) = Some r \<and> rel_confirmed r \<noteq> None) \<and>
           \<not> legacy_eligible ep other (pq \<noteq> None))))"

definition entry_ip :: "peer_state \<Rightarrow> allowed_ip" where
  "entry_ip = (\<lambda>((i, p), server, pq). peer_allowed_ip p)"

text \<open>Who is released by the pass: a peer without a bundle and without a history of data keys, under a
  permissive policy.\<close>

definition legacy_peer :: "endpoint \<Rightarrow> peer_state \<Rightarrow> bool" where
  "legacy_peer ep = (\<lambda>((i, p), server, pq). rg_lifecycle (ep_registration ep) \<noteq> LRetired \<and>
     (case number_new (word_of_int i) of Inl _ \<Rightarrow> False | Inr other \<Rightarrow> legacy_eligible ep other (pq \<noteq> None)))"

lemma legacy_not_gated: "legacy_peer ep e \<Longrightarrow> \<not> must_gate ep e"
  by (auto simp: legacy_peer_def must_gate_def split: prod.splits sum.splits simp del: number_new_Ok)

lemma gate_entry_cases:
  obtains (gated) "must_gate ep e"
      "gate_entry ep (rg_lifecycle (ep_registration ep) = LRetired) e (to_gate, to_release) = (to_gate @ [entry_ip e], to_release)"
  | (released) "legacy_peer ep e"
      "gate_entry ep (rg_lifecycle (ep_registration ep) = LRetired) e (to_gate, to_release) = (to_gate, to_release @ [entry_ip e])"
  | (left_alone) "\<not> must_gate ep e"
      "gate_entry ep (rg_lifecycle (ep_registration ep) = LRetired) e (to_gate, to_release) = (to_gate, to_release)"
proof -
  obtain i p server pq where e: "e = ((i, p), server, pq)" by (metis prod.collapse)
  show thesis
  proof (cases "server \<or> (\<exists>x. number_new (word_of_int i) = Inl x)")
    case True
    then show thesis
      by (intro left_alone) (auto simp: e must_gate_def gate_entry_def simp del: number_new_Ok)
  next
    case False
    then obtain other where other: "number_new (word_of_int i) = Inr other" "\<not> server"
      by (cases "number_new (word_of_int i)") auto
    let ?retired = "rg_lifecycle (ep_registration ep) = LRetired"
    have confirmed: "(case bt_get other (ep_relationships ep) of None \<Rightarrow> False | Some r \<Rightarrow> rel_confirmed r \<noteq> None) \<longleftrightarrow>
        (\<exists>r. bt_get other (ep_relationships ep) = Some r \<and> rel_confirmed r \<noteq> None)"
      by (auto split: option.splits)
    have must: "must_gate ep e \<longleftrightarrow> other \<noteq> ep_server_id ep \<and> other \<noteq> ep_peer_id ep \<and>
        (?retired \<or> \<not> (\<exists>r. bt_get other (ep_relationships ep) = Some r \<and> rel_confirmed r \<noteq> None) \<and>
           \<not> legacy_eligible ep other (pq \<noteq> None))"
      by (simp only: must_gate_def e prod.case other sum.case) simp
    have entry: "gate_entry ep ?retired e (to_gate, to_release) =
        (if other = ep_server_id ep \<or> other = ep_peer_id ep then (to_gate, to_release)
         else if (\<exists>r. bt_get other (ep_relationships ep) = Some r \<and> rel_confirmed r \<noteq> None) \<and> \<not> ?retired then (to_gate, to_release)
         else if \<not> ?retired \<and> legacy_eligible ep other (pq \<noteq> None) then (to_gate, to_release @ [entry_ip e])
         else (to_gate @ [entry_ip e], to_release))"
      by (simp only: gate_entry_def e entry_ip_def prod.case other sum.case confirmed Let_def if_False)
    let ?to_gate = "other \<noteq> ep_server_id ep \<and> other \<noteq> ep_peer_id ep \<and>
        (?retired \<or> \<not> (\<exists>r. bt_get other (ep_relationships ep) = Some r \<and> rel_confirmed r \<noteq> None) \<and>
           \<not> legacy_eligible ep other (pq \<noteq> None))"
    show thesis
    proof (cases ?to_gate)
      case True
      show thesis by (rule gated) (use True must in blast, use True entry in auto)
    next
      case out: False
      have legacy: "legacy_peer ep e \<longleftrightarrow> \<not> ?retired \<and> legacy_eligible ep other (pq \<noteq> None)"
        by (simp only: legacy_peer_def e prod.case other sum.case)
      from out have "gate_entry ep ?retired e (to_gate, to_release) = (to_gate, to_release) \<or>
          legacy_peer ep e \<and> gate_entry ep ?retired e (to_gate, to_release) = (to_gate, to_release @ [entry_ip e])"
        unfolding entry legacy by (simp split del: if_split) (auto split: if_split)
      with out must show thesis by (elim disjE conjE) (rule left_alone released; blast)+
    qed
  qed
qed

lemma gate_lists_fold:
  "fold (gate_entry ep (rg_lifecycle (ep_registration ep) = LRetired)) pqs (to_gate, to_release) = (gated, released) \<Longrightarrow>
   set gated = set to_gate \<union> entry_ip ` {e \<in> set pqs. must_gate ep e} \<and>
   set released \<subseteq> set to_release \<union> entry_ip ` {e \<in> set pqs. legacy_peer ep e}"
proof (induction pqs arbitrary: to_gate to_release)
  case (Cons e pqs)
  show ?case
  proof (cases rule: gate_entry_cases [of ep e to_gate to_release])
    case gated
    with Cons.prems Cons.IH [of "to_gate @ [entry_ip e]" to_release] show ?thesis by auto
  next
    case released
    with Cons.prems Cons.IH [of to_gate "to_release @ [entry_ip e]"] legacy_not_gated show ?thesis by auto
  next
    case left_alone
    with Cons.prems Cons.IH [of to_gate to_release] show ?thesis by auto
  qed
qed simp

lemma pass_closes:
  assumes law: "nft_law (nn_gate N) (nn_iface N) blocked" and distinct: "distinct (map entry_ip pqs)"
    and pass: "gate_pass N ep pqs n = (Inr (), n')" and e: "e \<in> set pqs" "must_gate ep e"
  shows "entry_ip e \<in> blocked (no_gate n')"
proof -
  obtain gated released where lists: "gate_lists ep pqs = (gated, released)" by force
  from gate_lists_fold [OF lists [unfolded gate_lists_def]] e
  have gated: "entry_ip e \<in> set gated" "gated \<noteq> []" and released: "set released \<subseteq> entry_ip ` {d \<in> set pqs. \<not> must_gate ep d}"
    using legacy_not_gated by auto
  have out: "entry_ip e \<notin> set released"
  proof
    assume "entry_ip e \<in> set released"
    with released obtain d where "d \<in> set pqs" "\<not> must_gate ep d" "entry_ip d = entry_ip e" by auto
    with distinct e show False by (auto simp: distinct_map inj_on_def)
  qed
  from pass gated lists obtain n1 where n1: "on_gate (gate_block (nn_gate N) (nn_iface N) gated) n = (Inr (), n1)"
    and rest: "(if released \<noteq> [] then on_gate (gate_release (nn_gate N) (nn_iface N) released) else retS ()) n1 = (Inr (), n')"
    by (auto simp: gate_pass_def bindS_Inr_iff)
  from n1 obtain g1 where "gate_block (nn_gate N) (nn_iface N) gated (no_gate n) = (Inr (), g1)" "no_gate n1 = g1"
    by (auto simp: on_gate_def split: prod.splits)
  with block_closes [OF law] gated have "entry_ip e \<in> blocked (no_gate n1)" by fastforce
  then show ?thesis
  proof (cases "released = []")
    case False
    with rest obtain g2 where "gate_release (nn_gate N) (nn_iface N) released (no_gate n1) = (Inr (), g2)" "no_gate n' = g2"
      by (auto simp: on_gate_def split: prod.splits)
    with release_opens [OF law] out \<open>entry_ip e \<in> blocked (no_gate n1)\<close> show ?thesis by fastforce
  qed (use rest in \<open>simp add: retS_def\<close>)
qed

text \<open>What the pass may open, whatever it returns.\<close>

lemma pass_opens:
  assumes law: "nft_law (nn_gate N) (nn_iface N) blocked" and pass: "gate_pass N ep pqs n = (r, n')"
  shows "no_kernel n' = no_kernel n \<and> blocked (no_gate n) - entry_ip ` {e \<in> set pqs. legacy_peer ep e} \<subseteq> blocked (no_gate n')"
proof -
  obtain gated released where lists: "gate_lists ep pqs = (gated, released)" by force
  from gate_lists_fold [OF lists [unfolded gate_lists_def]]
  have released: "set released \<subseteq> entry_ip ` {e \<in> set pqs. legacy_peer ep e}" by auto
  obtain q n1 where first: "(if gated \<noteq> [] then on_gate (gate_block (nn_gate N) (nn_iface N) gated) else retS ()) n = (q, n1)" by force
  have n1: "no_kernel n1 = no_kernel n \<and> blocked (no_gate n) \<subseteq> blocked (no_gate n1)"
  proof (cases "gated = []")
    case False
    obtain z g where block: "gate_block (nn_gate N) (nn_iface N) gated (no_gate n) = (z, g)" by force
    with first False have "n1 = n\<lparr>no_gate := g\<rparr>" by (auto simp: on_gate_def)
    with block_closes [OF law block] show ?thesis by simp
  qed (use first in \<open>simp add: retS_def\<close>)
  show ?thesis
  proof (cases q)
    case (Inl e)
    with pass lists first have "n' = n1" by (auto simp: gate_pass_def bindS_def)
    with n1 show ?thesis by auto
  next
    case (Inr u)
    with pass lists first have "(if released \<noteq> [] then on_gate (gate_release (nn_gate N) (nn_iface N) released) else retS ()) n1 = (r, n')"
      by (auto simp: gate_pass_def bindS_def)
    then have "no_kernel n' = no_kernel n1 \<and> blocked (no_gate n1) - set released \<subseteq> blocked (no_gate n')"
    proof (cases "released = []")
      case False
      obtain z g where release: "gate_release (nn_gate N) (nn_iface N) released (no_gate n1) = (z, g)" by force
      assume "(if released \<noteq> [] then on_gate (gate_release (nn_gate N) (nn_iface N) released) else retS ()) n1 = (r, n')"
      with release False have "n' = n1\<lparr>no_gate := g\<rparr>" by (auto simp: on_gate_def)
      with release_opens [OF law release] show ?thesis by simp
    qed (simp add: retS_def)
    with n1 released show ?thesis by auto
  qed
qed

section \<open>The whole fetch\<close>

text \<open>Only the ordinary update adds to what updates were given.\<close>

definition same_updates :: "('t, 'r, 'k, 'g) client \<Rightarrow> ('t, 'r, 'k, 'g) client \<Rightarrow> bool" where
  "same_updates c c' \<longleftrightarrow> cn_updates c' = cn_updates c"

lemma same_updates_order: "reflp same_updates" "transp same_updates"
  by (auto simp: same_updates_def reflp_def transp_def)

lemma quiet_parts:
  "keeps same_updates (at_node m)" "keeps same_updates (at_transport n)" "keeps same_updates (at_world w)"
  "keeps same_updates (at_activation a)"
  by (auto simp: keeps_def same_updates_def at_node_def at_transport_def at_world_def at_activation_def split: prod.splits)

lemma quiet_handle: "keeps same_updates (with_handle opened)"
  unfolding with_handle_def
  by (rule keeps_bindS [OF keeps_simple(3) [OF same_updates_order(1)] _ same_updates_order(2)]) (simp add: keeps_def same_updates_def modS_def)

lemmas quiet = quiet_parts quiet_handle keeps_simple [OF same_updates_order(1)]

lemma quiet_boot: "keeps same_updates (fetch_boot L A)"
  unfolding fetch_boot_def restore_gate_def bring_up_def
  by (auto intro!: keeps_bindS quiet same_updates_order(2))

lemma quiet_directory: "keeps same_updates (fetch_directory L)"
  by (rule keepsI) (auto simp: fetch_directory_def same_updates_def split: prod.splits sum.splits if_splits)

lemma quiet_register: "keeps same_updates (\<lambda>c. case submit_pending_registration R (cn_transport c, ep) of
    (r, (t, ep')) \<Rightarrow> (let c1 = c\<lparr>cn_transport := t\<rparr> in
       (Ok ep', if is_ok r then snd (at_world (store_save V e ep') c1) else c1)))"
proof (rule keepsI)
  fix s r t
  assume run: "(case submit_pending_registration R (cn_transport s, ep) of
    (r, (t, ep')) \<Rightarrow> (let c1 = s\<lparr>cn_transport := t\<rparr> in
       (Ok ep', if is_ok r then snd (at_world (store_save V e ep') c1) else c1))) = (r, t)"
  obtain q u ep' where sub: "submit_pending_registration R (cn_transport s, ep) = (q, (u, ep'))" by (metis prod.collapse)
  have "cn_updates (snd (at_world (store_save V e ep') (s\<lparr>cn_transport := u\<rparr>))) = cn_updates s"
    by (simp add: at_world_def split: prod.splits)
  with run sub show "same_updates s t" by (auto simp: same_updates_def Let_def split: if_splits)
qed

lemma quiet_state: "keeps same_updates (activate_state L A)"
  unfolding activate_state_def
  by (intro keeps_bindS quiet same_updates_order(2) quiet_register)

lemma activated:
  assumes "activate L A reachable c = Some (r, c')"
  shows "cn_updates c' = cn_updates c \<and>
    (\<forall>ep pqs exchanges. r = Inr (Some (ep, pqs, exchanges)) \<longrightarrow> (\<exists>n. gate_pass (ft_node L) ep pqs n = (Inr (), cn_node c'))) \<and>
    (r = Inr None \<longrightarrow> c' = c) \<and> (\<forall>act. r = Inr act \<longrightarrow> (act = None \<longleftrightarrow> \<not> (po_enable (fa_pq A) \<and> reachable)))"
proof (cases "po_enable (fa_pq A) \<and> reachable")
  case True
  obtain q c1 where state: "activate_state L A c = (q, c1)" by force
  from keepsD [OF quiet_state state] have same: "cn_updates c1 = cn_updates c" by (simp add: same_updates_def)
  show ?thesis
  proof (cases q)
    case (Inl e)
    with assms True state same show ?thesis by (auto simp: activate_def)
  next
    case (Inr ep)
    then have rest: "(case fetch_state (rest_transport (ft_rest L)) (cn_transport c1) of
        None \<Rightarrow> None
      | Some (Inl e, t) \<Rightarrow> Some (Err (FePq e), c1\<lparr>cn_transport := t\<rparr>)
      | Some (Inr (pq_peers, exchanges), t) \<Rightarrow>
          (case at_node (gate_pass (ft_node L) ep pq_peers) (c1\<lparr>cn_transport := t\<rparr>) of
             (Inl _, c2) \<Rightarrow> Some (Err FeGate, c2)
           | (Inr _, c2) \<Rightarrow> Some (Ok (Some (ep, pq_peers, exchanges)), c2))) = Some (r, c')"
      using assms True state by (simp add: activate_def)
    show ?thesis
    proof (cases "fetch_state (rest_transport (ft_rest L)) (cn_transport c1)")
      case None
      with rest show ?thesis by simp
    next
      case (Some f)
      obtain z t where f: "f = (z, t)" by force
      show ?thesis
      proof (cases z)
        case (Inl e)
        with rest Some f same show ?thesis by auto
      next
        case (Inr ok)
        obtain pqs xs where ok: "ok = (pqs, xs)" by force
        obtain g n where pass: "gate_pass (ft_node L) ep pqs (cn_node c1) = (g, n)" by force
        with rest Some f Inr ok same True show ?thesis by (cases g) (auto simp: at_node_def)
      qed
    qed
  qed
qed (use assms in \<open>auto simp: activate_def\<close>)

text \<open>The builders of a comparison never carry a key; what protects the server's entry adds the one of
  the management link.\<close>

definition key_free :: "fetch_args \<Rightarrow> peer_builder list \<Rightarrow> bool" where
  "key_free A bs \<longleftrightarrow> (\<forall>b \<in> set bs. pb_preshared_key b \<noteq> None \<longrightarrow>
     fa_server_key A = Some (pb_public_key b) \<and> pb_preshared_key b = fa_management_psk A)"

lemma filter_mapR_mem: "filter_mapR f xs = Inr ys \<Longrightarrow> y \<in> set ys \<Longrightarrow> \<exists>x \<in> set xs. f x = Inr (Some y)"
proof (induction xs arbitrary: ys)
  case (Cons x xs)
  from Cons.prems(1) obtain z zs where z: "f x = Inr z" "filter_mapR f xs = Inr zs"
    and ys: "ys = (case z of None \<Rightarrow> zs | Some z \<Rightarrow> z # zs)" by (auto simp: res_simps)
  show ?case
  proof (cases "y \<in> set zs")
    case True
    from Cons.IH [OF z(2) True] show ?thesis by auto
  next
    case False
    with ys Cons.prems(2) z(1) show ?thesis by (auto split: option.splits)
  qed
qed simp

lemma config_key_free: "peer_config_builder D o_info new = Inr (Some (b, changes)) \<Longrightarrow> pb_preshared_key b = None"
  by (auto simp: peer_config_builder_def Let_def diff_allowed_ips_def diff_keepalive_def diff_endpoint_def builder_defs
      res_simps split: option.splits if_splits prod.splits)

lemma peer_diff_key_free: "peer_diff_new D o_info new = Inr (Some d) \<Longrightarrow> pb_preshared_key (df_builder d) = None"
  by (auto simp: peer_diff_new_def res_simps guardR_def dest: config_key_free split: option.splits if_splits prod.splits)

lemma diff_key_free:
  assumes "device_diff D dev peers = Inr ds" "d \<in> set ds"
  shows "pb_preshared_key (df_builder d) = None"
proof -
  from assms obtain ms rs where ms: "filter_mapR (diff_listed D dev) peers = Inr ms"
    and rs: "filter_mapR (diff_removed D peers) (dv_peers dev) = Inr rs" and d: "d \<in> set ms \<or> d \<in> set rs"
    by (auto simp: device_diff_def res_simps)
  from d show ?thesis
  proof
    assume "d \<in> set ms"
    from filter_mapR_mem [OF ms this] show ?thesis
      by (auto simp: diff_listed_def dest: peer_diff_key_free split: if_splits)
  next
    assume "d \<in> set rs"
    from filter_mapR_mem [OF rs this] show ?thesis
      by (auto simp: diff_removed_def dest: peer_diff_key_free split: if_splits)
  qed
qed

text \<open>Every address that a builder brings is that of a listed peer.\<close>

definition ips_listed :: "(int \<times> peer) list \<Rightarrow> peer_builder list \<Rightarrow> bool" where
  "ips_listed peers bs \<longleftrightarrow> (\<forall>b \<in> set bs. set (pb_allowed_ips b) \<subseteq> (peer_allowed_ip \<circ> snd) ` set peers)"

lemma config_ips:
  "peer_config_builder D o_info new = Inr (Some (b, changes)) \<Longrightarrow> set (pb_allowed_ips b) \<subseteq> peer_allowed_ip ` set_option new"
  by (auto simp: peer_config_builder_def Let_def diff_allowed_ips_def diff_keepalive_def diff_endpoint_def builder_defs
      res_simps split: option.splits if_splits prod.splits)

lemma peer_diff_ips: "peer_diff_new D o_info new = Inr (Some d) \<Longrightarrow> set (pb_allowed_ips (df_builder d)) \<subseteq> (peer_allowed_ip \<circ> snd) ` set_option new"
  by (fastforce simp: peer_diff_new_def res_simps guardR_def dest: config_ips split: option.splits if_splits prod.splits)

lemma diff_ips:
  assumes "device_diff D dev peers = Inr ds"
  shows "ips_listed peers (map df_builder ds)"
proof -
  from assms obtain ms rs where ms: "filter_mapR (diff_listed D dev) peers = Inr ms"
    and rs: "filter_mapR (diff_removed D peers) (dv_peers dev) = Inr rs" and ds: "ds = ms @ rs"
    by (auto simp: device_diff_def res_simps)
  have "set (pb_allowed_ips (df_builder d)) \<subseteq> (peer_allowed_ip \<circ> snd) ` set peers" if d: "d \<in> set ms" for d
  proof -
    obtain i p where p: "(i, p) \<in> set peers" "diff_listed D dev (i, p) = Inr (Some d)"
      using filter_mapR_mem [OF ms d] by auto
    then obtain f where "peer_diff_new D f (Some (i, p)) = Inr (Some d)" by (auto simp: diff_listed_def split: if_splits)
    from peer_diff_ips [OF this] have "set (pb_allowed_ips (df_builder d)) \<subseteq> {peer_allowed_ip p}" by simp
    with p(1) show ?thesis by force
  qed
  moreover have "set (pb_allowed_ips (df_builder d)) \<subseteq> (peer_allowed_ip \<circ> snd) ` set peers" if d: "d \<in> set rs" for d
  proof -
    obtain j where "diff_removed D peers j = Inr (Some d)" using filter_mapR_mem [OF rs d] by auto
    then have "peer_diff_new D (Some j) None = Inr (Some d)" by (auto simp: diff_removed_def split: if_splits)
    from peer_diff_ips [OF this] show ?thesis by simp
  qed
  ultimately show ?thesis by (auto simp: ips_listed_def ds)
qed

lemma protect_ips: "ips_listed peers bs \<Longrightarrow> ips_listed peers (protect_server psk key bs)"
  by (cases psk) (simp_all add: ips_listed_def protect_server_def set_preshared_key_def ball_Un)

lemma override_ips: "(peer_allowed_ip \<circ> snd) ` set (apply_overrides os peers) = (peer_allowed_ip \<circ> snd) ` set peers"
proof -
  have one: "(peer_allowed_ip \<circ> snd) ` set (set_endpoint_of ip e ps) = (peer_allowed_ip \<circ> snd) ` set ps" for ip e ps
    by (induction ip e ps rule: set_endpoint_of.induct) (auto simp: peer_allowed_ip_def)
  show ?thesis unfolding apply_overrides_def
  proof (induction os arbitrary: peers)
    case (Cons x os)
    obtain ip e where "x = (ip, e)" by force
    with Cons.IH [of "set_endpoint_of ip e peers"] one [of ip e peers] show ?case by simp
  qed simp
qed

lemma protect_key_free:
  "(\<And>b. b \<in> set bs \<Longrightarrow> pb_preshared_key b = None) \<Longrightarrow> key_free A (protect_server (fa_management_psk A) (fa_server_key A) bs)"
  by (auto simp: key_free_def protect_server_def set_preshared_key_def split: option.splits if_splits)

lemma bind_step: "m s = (Inr x, u) \<Longrightarrow> bindS m k s = k x u"
  by (simp add: bindS_def)

lemma device_read_gate:
  "at_node (errS h (on_kernel m)) c = (r, c') \<Longrightarrow> cn_updates c' = cn_updates c \<and> no_gate (cn_node c') = no_gate (cn_node c)"
  by (auto simp: at_node_def errS_def on_kernel_def split: prod.splits)

lemma update_logged:
  assumes "update_device L A peers gated_for c = (r, c')"
  shows "set (cn_updates c') \<subseteq> set (cn_updates c) \<union> {(no_gate (cn_node c), gated_for, bs) | bs. key_free A bs \<and> ips_listed peers bs} \<and>
    no_gate (cn_node c') = no_gate (cn_node c)"
proof -
  obtain q c1 where read: "at_node (errS FeDevice (on_kernel (device_get (nn_kernel (ft_node L)) (nn_iface (ft_node L))))) c = (q, c1)"
    by force
  note c1 = device_read_gate [OF read]
  show ?thesis
  proof (cases q)
    case (Inl e)
    with assms read c1 show ?thesis by (auto simp: update_device_def bindS_def)
  next
    case (Inr dev)
    show ?thesis
    proof (cases "device_diff (nn_diff (ft_node L)) dev peers")
      case (Inl e)
      with assms read Inr c1 show ?thesis by (auto simp: update_device_def bindS_def map_err_def)
    next
      case (Inr mods)
      define updates where "updates = protect_server (fa_management_psk A) (fa_server_key A) (map df_builder mods)"
      define c2 where "c2 = c1\<lparr>cn_updates := cn_updates c1 @ [(no_gate (cn_node c1), gated_for, updates)]\<rparr>"
      have unfold: "update_device L A peers gated_for c = bindS (if updates \<noteq> [] \<or> \<not> fa_interface_up A then
         bindS (modS (\<lambda>c. c\<lparr>cn_updates := cn_updates c @ [(no_gate (cn_node c), gated_for, updates)]\<rparr>)) (\<lambda>_.
         bindS (at_node (errS FeDevice (on_kernel (apply_update (nn_sizes (ft_node L)) (nn_kernel (ft_node L))
           (add_peers updates update_new) (nn_iface (ft_node L)))))) (\<lambda>_.
         liftS (guardR (fa_hosts_ok A) FeHosts)))
       else retS ()) (\<lambda>_. retS dev) c1"
        unfolding update_device_def
        by (subst bind_step [where x = dev and u = c1], use read \<open>q = Inr dev\<close> in simp,
            subst bind_step [where x = mods and u = c1]) (simp_all add: Inr map_err_def updates_def Let_def)
      obtain z c3 where applied: "at_node (errS FeDevice (on_kernel (apply_update (nn_sizes (ft_node L)) (nn_kernel (ft_node L))
           (add_peers updates update_new) (nn_iface (ft_node L))))) c2 = (z, c3)" by force
      note c3 = device_read_gate [OF applied]
      from assms unfold have "c' = (if updates \<noteq> [] \<or> \<not> fa_interface_up A then c3 else c1)"
        using applied by (auto simp: bindS_def modS_def c2_def guardR_def split: if_splits sum.splits prod.splits)
      moreover have "key_free A updates"
        unfolding updates_def by (rule protect_key_free) (use diff_key_free [OF Inr] in auto)
      moreover have "ips_listed peers updates"
        unfolding updates_def by (rule protect_ips [OF diff_ips [OF Inr]])
      ultimately show ?thesis using c1 c3 by (auto simp: c2_def)
    qed
  qed
qed

text \<open>After the ordinary update nothing adds to what updates were given.\<close>

lemma finish_updates:
  assumes "fetch_finish L A peers cidrs activation c = (r, c')"
    and "update_device L A peers (map_option (\<lambda>(ep, pqs, exchanges). (ep, pqs)) activation) c = (q, c1)"
  shows "cn_updates c' = cn_updates c1"
proof -
  have advance: "cn_updates (advance_all L A peers dev activation c1) = cn_updates c1" for dev
    by (auto simp: advance_all_def Let_def split: option.splits)
  have directory: "cn_updates (snd (update_directory L A peers cidrs d)) = cn_updates d" for d
    by (simp add: update_directory_def split: prod.splits)
  show ?thesis
  proof (cases q)
    case (Inl e)
    with assms show ?thesis by (auto simp: fetch_finish_def bindS_def)
  next
    case (Inr dev)
    with assms have "(r, c') = update_directory L A peers cidrs (advance_all L A peers dev activation c1)"
      by (simp add: fetch_finish_def bindS_def modS_def)
    with directory [of "advance_all L A peers dev activation c1"] advance [of dev] show ?thesis by (metis snd_conv)
  qed
qed

lemma finished_logged:
  assumes "fetch_finish L A peers cidrs activation c = (r, c')"
  shows "set (cn_updates c') \<subseteq> set (cn_updates c) \<union>
    {(no_gate (cn_node c), map_option (\<lambda>(ep, pqs, exchanges). (ep, pqs)) activation, bs) | bs. key_free A bs \<and> ips_listed peers bs}"
proof -
  obtain q c1 where step: "update_device L A peers (map_option (\<lambda>(ep, pqs, exchanges). (ep, pqs)) activation) c = (q, c1)"
    by force
  from update_logged [OF step] finish_updates [OF assms step] show ?thesis by simp
qed

text \<open>Whatever a fetch gave an update, its gate was the one right after the pass over the PQ state, or, when
  there was none, the one after the boot.\<close>

lemma fetch_logged:
  assumes run: "fetch L A c = Some (r, c')" and fresh: "cn_updates c = []" and logged: "(g, gated_for, bs) \<in> set (cn_updates c')"
  obtains peers cidrs reachable c1 where "bindS (fetch_boot L A) (\<lambda>_. fetch_directory L) c = (Inr ((peers, cidrs), reachable), c1)"
    "key_free A bs" "ips_listed peers bs"
    "case gated_for of
       Some (ep, pqs) \<Rightarrow> po_enable (fa_pq A) \<and> reachable \<and> (\<exists>n n'. gate_pass (ft_node L) ep pqs n = (Inr (), n') \<and> g = no_gate n')
     | None \<Rightarrow> \<not> (po_enable (fa_pq A) \<and> reachable) \<and> g = no_gate (cn_node c1)"
proof -
  obtain q c1 where start: "bindS (fetch_boot L A) (\<lambda>_. fetch_directory L) c = (q, c1)" by force
  have "keeps same_updates (bindS (fetch_boot L A) (\<lambda>_. fetch_directory L))"
    by (intro keeps_bindS quiet_boot quiet_directory same_updates_order(2))
  from keepsD [OF this start] fresh have c1: "cn_updates c1 = []" by (simp add: same_updates_def)
  show thesis
  proof (cases q)
    case (Inl x)
    with run start c1 logged show ?thesis by (auto simp: fetch_def)
  next
    case (Inr ok)
    obtain peers cidrs reachable where ok: "ok = ((peers, cidrs), reachable)" by (metis prod.collapse)
    from run start Inr ok obtain a c2 where act: "activate L A reachable c1 = Some (a, c2)"
      by (auto simp: fetch_def split: option.splits)
    from activated [OF act] c1 have c2: "cn_updates c2 = []" by simp
    show ?thesis
    proof (cases a)
      case (Inl x)
      with run start Inr ok act c2 logged show ?thesis by (auto simp: fetch_def)
    next
      case act_ok: (Inr activation)
      with run start Inr ok act have "fetch_finish L A (apply_overrides (fa_overrides A) peers) cidrs activation c2 = (r, c')"
        by (simp add: fetch_def Let_def)
      from subsetD [OF finished_logged [OF this] logged] c2
      have g: "g = no_gate (cn_node c2)" "gated_for = map_option (\<lambda>(ep, pqs, exchanges). (ep, pqs)) activation"
        and free: "key_free A bs" and ips: "ips_listed (apply_overrides (fa_overrides A) peers) bs"
        by simp_all
      note act' = activated [OF act, unfolded act_ok]
      have "case gated_for of
          Some (ep, pqs) \<Rightarrow> po_enable (fa_pq A) \<and> reachable \<and> (\<exists>n n'. gate_pass (ft_node L) ep pqs n = (Inr (), n') \<and> g = no_gate n')
        | None \<Rightarrow> \<not> (po_enable (fa_pq A) \<and> reachable) \<and> g = no_gate (cn_node c1)"
      proof (cases activation)
        case None
        with act' g show ?thesis by simp
      next
        case (Some t)
        obtain ep pqs xs where t: "t = (ep, pqs, xs)" by (rule prod_cases3)
        with act' Some obtain n where "gate_pass (ft_node L) ep pqs n = (Inr (), cn_node c2)" "po_enable (fa_pq A)" reachable by auto
        with g Some t show ?thesis by auto
      qed
      with that [OF start [unfolded Inr ok]] free ips show ?thesis by (simp only: ips_listed_def override_ips)
    qed
  qed
qed

text \<open>The gate after the boot: as it was when the interface is up, and otherwise closed for the peers that the
  stored state blocks.\<close>

lemma boot_gate:
  assumes law: "nft_law (nn_gate (ft_node L)) (nn_iface (ft_node L)) blocked"
    and start: "bindS (fetch_boot L A) (\<lambda>_. fetch_directory L) c = (Inr x, c1)"
  shows "(fa_interface_up A \<longrightarrow> no_gate (cn_node c1) = no_gate (cn_node c)) \<and>
    (\<not> fa_interface_up A \<longrightarrow> po_enable (fa_pq A) \<and> fa_pq_path_exists A \<longrightarrow>
       (\<exists>h ep. fa_boot_open A = Inr h \<and> fst (load (ft_envelope L) (ft_env L 0) ((cn_world c)\<lparr>wd_store := h\<rparr>)) = Inr ep \<and>
          set (blocked_allowed_ips (nn_diff (ft_node L)) ep (ds_peers (fst (cn_directory c)))) \<subseteq> blocked (no_gate (cn_node c1))))"
proof -
  obtain c0 where boot: "fetch_boot L A c = (Inr (), c0)" and dir: "fetch_directory L c0 = (Inr x, c1)"
    using start by (auto simp: bindS_Inr_iff)
  have c1: "cn_node c1 = cn_node c0"
    using dir by (auto simp: fetch_directory_def split: prod.splits sum.splits if_splits)
  show ?thesis
  proof (cases "fa_interface_up A")
    case True
    with boot have "c0 = c" by (auto simp: fetch_boot_def bindS_Inr_iff guardR_def split: if_splits)
    with c1 True show ?thesis by simp
  next
    case False
    with boot obtain ca where restore: "restore_gate L A c = (Inr (), ca)" and up: "bring_up L A ca = (Inr (), c0)"
      by (auto simp: fetch_boot_def bindS_Inr_iff guardR_def split: if_splits)
    have c0: "no_gate (cn_node c0) = no_gate (cn_node ca)"
      using up by (auto simp: bring_up_def bindS_Inr_iff at_node_def errS_def on_kernel_def guardR_def
          split: prod.splits if_splits)
    have "\<exists>h ep. fa_boot_open A = Inr h \<and> fst (load (ft_envelope L) (ft_env L 0) ((cn_world c)\<lparr>wd_store := h\<rparr>)) = Inr ep \<and>
        set (blocked_allowed_ips (nn_diff (ft_node L)) ep (ds_peers (fst (cn_directory c)))) \<subseteq> blocked (no_gate (cn_node ca))"
      if "po_enable (fa_pq A)" "fa_pq_path_exists A"
    proof -
      from restore that obtain h ep cb where h: "fa_boot_open A = Inr h"
        and load: "at_world (errS FeStore (load (ft_envelope L) (ft_env L 0))) (c\<lparr>cn_world := (cn_world c)\<lparr>wd_store := h\<rparr>\<rparr>) = (Inr ep, cb)"
        and gate: "at_node (errS (\<lambda>_. FeGate) (on_gate (gate_apply_all (nn_gate (ft_node L)) (nn_iface (ft_node L))
          (blocked_allowed_ips (nn_diff (ft_node L)) ep (ds_peers (fst (cn_directory cb))))))) cb = (Inr (), ca)"
        by (auto simp: restore_gate_def with_handle_def bindS_Inr_iff map_err_def modS_def getS_def split: sum.splits)
      have "fst (load (ft_envelope L) (ft_env L 0) ((cn_world c)\<lparr>wd_store := h\<rparr>)) = Inr ep" "cn_directory cb = cn_directory c"
        using load by (auto simp: at_world_def errS_def map_err_def split: prod.splits sum.splits)
      moreover obtain gb where "gate_apply_all (nn_gate (ft_node L)) (nn_iface (ft_node L))
          (blocked_allowed_ips (nn_diff (ft_node L)) ep (ds_peers (fst (cn_directory cb)))) (no_gate (cn_node cb)) = (Inr (), gb)"
        "no_gate (cn_node ca) = gb"
        using gate by (auto simp: at_node_def errS_def on_gate_def map_err_def split: prod.splits sum.splits)
      ultimately show ?thesis using h apply_all_closes [OF law] by auto
    qed
    with False c0 c1 show ?thesis by auto
  qed
qed

end
