(* ===== verification/InterfaceClaims.thy ===== *)
theory InterfaceClaims
  imports InterfaceProps StoreProps EndpointProps
begin

text \<open>
  What the order of a client's fetch gives: the gate is closed before the ordinary update, a key is
  installed behind the gate and only a handshake opens it; and what is missing: after a reboot no
  step brings the key of a confirmed relationship back to the kernel.
\<close>

section \<open>Installing behind the gate\<close>

lemma find_peer_bound: "find_peer D ps bu = Some p \<Longrightarrow> pe_public_key p = to_base64 D (bu_wg bu)"
  by (auto simp: find_peer_def find_Some_iff)

lemma one_update: "update_items (add_peer b update_new) = [Inr (builder_to_nla b)]"
  by (simp add: update_items_def add_peer_def update_new_def)

lemma set_device_peers:
  assumes "kernel_law (nn_kernel N) (nn_iface N) peers" "sizes_law (nn_sizes N)" "set_device N b n = (Inr (), n')"
  shows "peers (no_kernel n') = set_peer (builder_to_nla b) (peers (no_kernel n))"
proof -
  from assms(3) obtain k' where "apply_update (nn_sizes N) (nn_kernel N) (add_peer b update_new) (nn_iface N) (no_kernel n) = (Inr (), k')"
    "n' = n\<lparr>no_kernel := k'\<rparr>"
    by (auto simp: set_device_def errS_def on_kernel_def map_err_def split: prod.splits sum.splits)
  with applied [OF assms(1,2)] show ?thesis by (simp add: one_update)
qed

lemma set_device_gate: "set_device N b n = (r, n') \<Longrightarrow> no_gate n' = no_gate n"
  by (auto simp: set_device_def errS_def on_kernel_def split: prod.splits)

lemma install_fields:
  "pb_public_key (install_builder D key p psk) = key" "pb_preshared_key (install_builder D key p psk) = Some psk"
  "pb_allowed_ips (install_builder D key p psk) = [peer_allowed_ip p]"
  "pb_replace_allowed_ips (install_builder D key p psk)" "\<not> pb_remove_me (install_builder D key p psk)"
  by (auto simp: install_builder_def Let_def builder_defs split: option.splits)

lemma removed_then_built:
  "lookup key (set_peer (builder_to_nla (install_builder D key p psk)) (set_peer (builder_to_nla (builder_remove (builder_new key))) ps)) =
     Some ((fresh_info key)\<lparr>pi_config := built (install_builder D key p psk) (pi_config (fresh_info key))\<rparr>)"
  by (simp add: lookup_set_peer install_fields Let_def) (simp add: builder_remove_def builder_new_def)

text \<open>The whole of an installation, from the gate on.\<close>

definition behind_gate :: "('k, 'g) node_lib \<Rightarrow> peer \<Rightarrow> bytes \<Rightarrow> bytes \<Rightarrow> (('k, 'g) node, pq_error, unit) comp" where
  "behind_gate N p key psk =
     bindS (errS (\<lambda>_. EInstaller) (on_gate (gate_block (nn_gate N) (nn_iface N) [peer_allowed_ip p]))) (\<lambda>_.
     bindS (set_device N (builder_remove (builder_new key))) (\<lambda>_.
     set_device N (install_builder (nn_diff N) key p psk)))"

lemma install_steps:
  assumes "find_peer (nn_diff N) ps bu = Some p" "key_of_text (nn_diff N) (pe_public_key p) = Some key"
  shows "real_install N ps bu cand = behind_gate N p key (cd_psk cand)"
  by (rule ext) (simp add: real_install_def behind_gate_def bindS_def assms)

lemma behind_gate_closed:
  assumes law: "nft_law (nn_gate N) (nn_iface N) blocked" and run: "behind_gate N p key psk n = (r, n')"
  shows "peer_allowed_ip p \<in> blocked (no_gate n') \<or> r \<noteq> Inr () \<and> no_kernel n' = no_kernel n"
proof -
  obtain q g where block: "gate_block (nn_gate N) (nn_iface N) [peer_allowed_ip p] (no_gate n) = (q, g)" by force
  show ?thesis
  proof (cases q)
    case (Inl e)
    with run block show ?thesis by (auto simp: behind_gate_def bindS_def errS_def on_gate_def map_err_def)
  next
    case (Inr u)
    with block_closes [OF law block] have closed: "peer_allowed_ip p \<in> blocked g" by simp
    obtain q1 n1 where one: "set_device N (builder_remove (builder_new key)) (n\<lparr>no_gate := g\<rparr>) = (q1, n1)" by force
    from set_device_gate [OF one] have g1: "no_gate n1 = g" by simp
    have rest: "(r, n') = bindS (set_device N (builder_remove (builder_new key)))
        (\<lambda>_. set_device N (install_builder (nn_diff N) key p psk)) (n\<lparr>no_gate := g\<rparr>)"
      using run block Inr unfolding behind_gate_def by (subst (asm) bind_step [where u = "n\<lparr>no_gate := g\<rparr>" and x = "()"])
        (simp_all add: errS_def on_gate_def map_err_def)
    have "no_gate n' = g"
    proof (cases q1)
      case (Inl e)
      with rest one g1 show ?thesis by (simp add: bindS_def)
    next
      case (Inr v)
      with rest one have "(r, n') = set_device N (install_builder (nn_diff N) key p psk) n1" by (simp add: bindS_def)
      from set_device_gate [OF this [symmetric]] g1 show ?thesis by simp
    qed
    with closed show ?thesis by simp
  qed
qed

lemma behind_gate_built:
  assumes "kernel_law (nn_kernel N) (nn_iface N) peers" "sizes_law (nn_sizes N)" "behind_gate N p key psk n = (Inr (), n')"
  shows "\<exists>i. lookup key (peers (no_kernel n')) = Some i \<and> pc_preshared_key (pi_config i) = Some psk \<and>
    pc_allowed_ips (pi_config i) = [peer_allowed_ip p] \<and> pi_last_handshake i = None"
proof -
  from assms(3) obtain n1 n2 where one: "set_device N (builder_remove (builder_new key)) n1 = (Inr (), n2)"
    and two: "set_device N (install_builder (nn_diff N) key p psk) n2 = (Inr (), n')"
    by (auto simp: behind_gate_def bindS_Inr_iff)
  from set_device_peers [OF assms(1,2) one] set_device_peers [OF assms(1,2) two]
  have "lookup key (peers (no_kernel n')) =
     Some ((fresh_info key)\<lparr>pi_config := built (install_builder (nn_diff N) key p psk) (pi_config (fresh_info key))\<rparr>)"
    by (simp add: removed_then_built)
  then show ?thesis by (simp add: built_def install_fields) (simp add: fresh_info_def)
qed

text \<open>C10. A candidate key is installed behind the gate: when the installer returns, the peer's address is
blocked, or the gate could not be closed, the installation failed and the kernel was not touched; and
after a success the kernel's entry is a new one, with the candidate's key, the peer's address alone
and no handshake, so a handshake seen later was made with this key.\<close>

theorem install_behind_gate:
  assumes "nft_law (nn_gate N) (nn_iface N) blocked"
    and "kernel_law (nn_kernel N) (nn_iface N) peers" "sizes_law (nn_sizes N)"
    and "find_peer (nn_diff N) ps bu = Some p" "key_of_text (nn_diff N) (pe_public_key p) = Some key"
    and "real_install N ps bu cand n = (r, n')"
  shows "(peer_allowed_ip p \<in> blocked (no_gate n') \<or> r \<noteq> Inr () \<and> no_kernel n' = no_kernel n) \<and>
    (r = Inr () \<longrightarrow> (\<exists>i. lookup key (peers (no_kernel n')) = Some i \<and> pc_preshared_key (pi_config i) = Some (cd_psk cand) \<and>
       pc_allowed_ips (pi_config i) = [peer_allowed_ip p] \<and> pi_last_handshake i = None))"
  using behind_gate_closed [OF assms(1)] behind_gate_built [OF assms(2,3)] assms(6)
  unfolding install_steps [OF assms(4,5)] by blast

section \<open>Opening the gate\<close>

lemma real_fresh_opens:
  assumes law: "nft_law (nn_gate N) (nn_iface N) blocked" and still: "\<And>k. snd (kn_get (nn_kernel N) (nn_iface N) k) = k"
    and run: "real_fresh N ps bu n = (r, n')"
  shows "no_kernel n' = no_kernel n \<and> (blocked (no_gate n') = blocked (no_gate n) \<or>
    (\<exists>p key dev. find_peer (nn_diff N) ps bu = Some p \<and> key_of_text (nn_diff N) (pe_public_key p) = Some key \<and>
       fst (device_get (nn_kernel N) (nn_iface N) (no_kernel n)) = Inr dev \<and> shows_handshake key dev \<and>
       blocked (no_gate n) - {peer_allowed_ip p} \<subseteq> blocked (no_gate n') \<and> blocked (no_gate n') \<subseteq> blocked (no_gate n)))"
proof (cases "find_peer (nn_diff N) ps bu")
  case None
  with run show ?thesis by (auto simp: real_fresh_def bindS_def)
next
  case (Some p)
  show ?thesis
  proof (cases "key_of_text (nn_diff N) (pe_public_key p)")
    case None
    with Some run show ?thesis by (auto simp: real_fresh_def bindS_def)
  next
    case key: (Some key)
    obtain q k where read: "device_get (nn_kernel N) (nn_iface N) (no_kernel n) = (q, k)" by force
    have k: "k = no_kernel n"
      using read still [of "no_kernel n"] by (auto simp: device_get_def bindS_def split: prod.splits sum.splits)
    show ?thesis
    proof (cases q)
      case (Inl e)
      with Some key run read k show ?thesis by (auto simp: real_fresh_def bindS_def errS_def on_kernel_def map_err_def)
    next
      case (Inr dev)
      show ?thesis
      proof (cases "shows_handshake key dev")
        case False
        with Some key run read k Inr show ?thesis by (auto simp: real_fresh_def bindS_def errS_def on_kernel_def map_err_def)
      next
        case True
        obtain z g where opened: "gate_release (nn_gate N) (nn_iface N) [peer_allowed_ip p] (no_gate n) = (z, g)" by force
        from True Some key run read k Inr opened have "n' = n\<lparr>no_gate := g\<rparr>"
          by (cases z) (auto simp: real_fresh_def bindS_def errS_def on_kernel_def on_gate_def map_err_def)
        with release_opens [OF law opened] True Some key read Inr show ?thesis by auto
      qed
    qed
  qed
qed

lemma check_released_opens:
  assumes law: "nft_law (nn_gate N) (nn_iface N) blocked" and still: "\<And>k. snd (kn_get (nn_kernel N) (nn_iface N) k) = k"
  shows "no_kernel (check_released N ps rs n) = no_kernel n \<and>
    (a \<in> blocked (no_gate n) \<longrightarrow> a \<notin> blocked (no_gate (check_released N ps rs n)) \<longrightarrow>
      (\<exists>r \<in> set rs. \<exists>p key dev. rel_pending r = None \<and> rel_confirmed r \<noteq> None \<and>
         find_peer (nn_diff N) ps (rel_remote r) = Some p \<and> key_of_text (nn_diff N) (pe_public_key p) = Some key \<and>
         fst (device_get (nn_kernel N) (nn_iface N) (no_kernel n)) = Inr dev \<and> shows_handshake key dev \<and> a = peer_allowed_ip p))"
proof (induction rs arbitrary: n)
  case (Cons r rs)
  define n1 where "n1 = (if rel_pending r \<noteq> None \<or> rel_confirmed r = None then n else snd (real_fresh N ps (rel_remote r) n))"
  note IH = Cons.IH [of n1]
  show ?case
  proof (cases "rel_pending r \<noteq> None \<or> rel_confirmed r = None")
    case True
    then have "n1 = n" by (simp add: n1_def)
    with IH True show ?thesis by auto
  next
    case False
    obtain z where z: "real_fresh N ps (rel_remote r) n = (z, n1)"
      using False by (cases "real_fresh N ps (rel_remote r) n") (auto simp: n1_def)
    from real_fresh_opens [OF law still z] have k: "no_kernel n1 = no_kernel n" by blast
    have step: "check_released N ps (r # rs) n = check_released N ps rs n1" by (simp add: n1_def)
    show ?thesis
    proof (cases "a \<in> blocked (no_gate n) \<and> a \<notin> blocked (no_gate n1)")
      case True
      with real_fresh_opens [OF law still z] IH False k show ?thesis unfolding step by auto
    next
      case out: False
      with IH k show ?thesis unfolding step by auto
    qed
  qed
qed simp

lemma install_opens_nothing:
  assumes law: "nft_law (nn_gate N) (nn_iface N) blocked" and run: "real_install N ps bu cand n = (r, n')"
  shows "blocked (no_gate n) \<subseteq> blocked (no_gate n')"
proof (cases "find_peer (nn_diff N) ps bu")
  case None
  with run show ?thesis by (auto simp: real_install_def bindS_def)
next
  case (Some p)
  show ?thesis
  proof (cases "key_of_text (nn_diff N) (pe_public_key p)")
    case None
    with Some run show ?thesis by (auto simp: real_install_def bindS_def)
  next
    case key: (Some key)
    have behind: "behind_gate N p key (cd_psk cand) n = (r, n')" using run install_steps [OF Some key] by simp
    obtain q g where block: "gate_block (nn_gate N) (nn_iface N) [peer_allowed_ip p] (no_gate n) = (q, g)" by force
    obtain q1 n1 where one: "set_device N (builder_remove (builder_new key)) (n\<lparr>no_gate := g\<rparr>) = (q1, n1)" by force
    obtain q2 n2 where two: "set_device N (install_builder (nn_diff N) key p (cd_psk cand)) n1 = (q2, n2)" by force
    have "no_gate n' \<in> {g, no_gate n1, no_gate n2}"
      using behind block one two
      by (cases q; cases q1) (auto simp: behind_gate_def bindS_def errS_def on_gate_def map_err_def)
    then have "no_gate n' = g" using set_device_gate [OF one] set_device_gate [OF two] by auto
    with block_closes [OF law block] show ?thesis by simp
  qed
qed

text \<open>What lets a relationship's address out: its peer, found by its key, has it and shows a handshake.\<close>

definition lets_out :: "('k, 'g) node_lib \<Rightarrow> (int \<times> peer) list \<Rightarrow> pq_bundle \<Rightarrow> 'k \<Rightarrow> allowed_ip \<Rightarrow> bool" where
  "lets_out N ps bu k a \<longleftrightarrow> (\<exists>p key dev. find_peer (nn_diff N) ps bu = Some p \<and> key_of_text (nn_diff N) (pe_public_key p) = Some key \<and>
     fst (device_get (nn_kernel N) (nn_iface N) k) = Inr dev \<and> shows_handshake key dev \<and> a = peer_allowed_ip p)"

text \<open>C11. Four operations of a fetch touch the gate once the interface is up, and this is all they open. The
pass over the PQ state opens it for a legacy peer under a permissive policy; installing a key opens
nothing; looking for the first handshake of an exchange opens it for that peer's address, and only
when the kernel shows a handshake of its key; and looking over the relationships at the end does so
for a relationship that is confirmed and has no exchange pending, while a retired side opens
nothing. None of the three that look changes the kernel.\<close>

theorem gate_opens_on_handshake:
  assumes "nft_law (nn_gate N) (nn_iface N) blocked" and "\<forall>k. snd (kn_get (nn_kernel N) (nn_iface N) k) = k"
  shows "(\<forall>r n'. gate_pass N ep pqs n = (r, n') \<longrightarrow> no_kernel n' = no_kernel n \<and>
      (a \<in> blocked (no_gate n) \<longrightarrow> a \<notin> blocked (no_gate n') \<longrightarrow> (\<exists>e \<in> set pqs. legacy_peer ep e \<and> a = entry_ip e))) \<and>
    (\<forall>r n'. real_install N ps bu cand n = (r, n') \<longrightarrow> blocked (no_gate n) \<subseteq> blocked (no_gate n')) \<and>
    (\<forall>r n'. real_fresh N ps bu n = (r, n') \<longrightarrow> no_kernel n' = no_kernel n \<and>
      (a \<in> blocked (no_gate n) \<longrightarrow> a \<notin> blocked (no_gate n') \<longrightarrow> lets_out N ps bu (no_kernel n) a)) \<and>
    no_kernel (reconcile_gate N ep ps n) = no_kernel n \<and>
    (a \<in> blocked (no_gate n) \<longrightarrow> a \<notin> blocked (no_gate (reconcile_gate N ep ps n)) \<longrightarrow>
      rg_lifecycle (ep_registration ep) \<noteq> LRetired \<and>
      (\<exists>r \<in> set (bt_values (ep_relationships ep)). rel_pending r = None \<and> rel_confirmed r \<noteq> None \<and>
         lets_out N ps (rel_remote r) (no_kernel n) a))"
proof (intro conjI allI impI)
  fix r n' assume "gate_pass N ep pqs n = (r, n')"
  note pass = pass_opens [OF assms(1) this]
  show "no_kernel n' = no_kernel n" using pass by simp
  assume "a \<in> blocked (no_gate n)" "a \<notin> blocked (no_gate n')"
  with pass show "\<exists>e \<in> set pqs. legacy_peer ep e \<and> a = entry_ip e" by blast
next
  fix r n' assume "real_install N ps bu cand n = (r, n')"
  then show "blocked (no_gate n) \<subseteq> blocked (no_gate n')" by (rule install_opens_nothing [OF assms(1)])
next
  fix r n' assume run: "real_fresh N ps bu n = (r, n')"
  have still: "snd (kn_get (nn_kernel N) (nn_iface N) k) = k" for k using assms(2) by blast
  note fresh = real_fresh_opens [OF assms(1) still run]
  show "no_kernel n' = no_kernel n" using fresh by blast
  assume "a \<in> blocked (no_gate n)" "a \<notin> blocked (no_gate n')"
  with fresh show "lets_out N ps bu (no_kernel n) a" unfolding lets_out_def by blast
next
  have still: "snd (kn_get (nn_kernel N) (nn_iface N) k) = k" for k using assms(2) by blast
  note looked = check_released_opens [OF assms(1) still, of ps "bt_values (ep_relationships ep)" n a]
  show "no_kernel (reconcile_gate N ep ps n) = no_kernel n" using looked by (simp add: reconcile_gate_def)
  assume out: "a \<in> blocked (no_gate n)" "a \<notin> blocked (no_gate (reconcile_gate N ep ps n))"
  then show live: "rg_lifecycle (ep_registration ep) \<noteq> LRetired" by (auto simp: reconcile_gate_def)
  with out looked show "\<exists>r \<in> set (bt_values (ep_relationships ep)). rel_pending r = None \<and> rel_confirmed r \<noteq> None \<and>
      lets_out N ps (rel_remote r) (no_kernel n) a"
    unfolding lets_out_def by (simp add: reconcile_gate_def)
qed

section \<open>The order of a fetch\<close>


text \<open>A peer without a key on the kernel has none after builders that carry none for it.\<close>

lemma effect_no_key:
  assumes "\<forall>b \<in> set bs. pb_public_key b = k \<longrightarrow> pb_preshared_key b = None"
    and "pred_option (\<lambda>i. pc_preshared_key (pi_config i) = None) (lookup k ps)"
  shows "pred_option (\<lambda>i. pc_preshared_key (pi_config i) = None) (lookup k (effect bs ps))"
  using assms
proof (induction bs arbitrary: ps)
  case (Cons b bs)
  have "pred_option (\<lambda>i. pc_preshared_key (pi_config i) = None) (lookup k (set_peer (builder_to_nla b) ps))"
    using Cons.prems by (cases "lookup k ps") (auto simp: lookup_set_peer Let_def built_def fresh_info_def drop_ips_def)
  with Cons show ?case by simp
qed simp

text \<open>C33. The ordinary update of a fetch carries no key but that of the management link, for the server's
entry: a data peer whose entry has no preshared key on the kernel, as after a reboot, has none after
the update, whatever key the stored relationship has confirmed.\<close>

theorem update_restores_no_key:
  assumes "fetch L A c = Some (r, c')" "cn_updates c = []" "(g, gated_for, bs) \<in> set (cn_updates c')"
    and "fa_server_key A \<noteq> Some k" "pred_option (\<lambda>i. pc_preshared_key (pi_config i) = None) (lookup k ps)"
  shows "pred_option (\<lambda>i. pc_preshared_key (pi_config i) = None) (lookup k (effect bs ps))"
proof (rule effect_no_key [OF _ assms(5)])
  show "\<forall>b \<in> set bs. pb_public_key b = k \<longrightarrow> pb_preshared_key b = None"
    by (rule fetch_logged [OF assms(1-3)]) (use assms(4) in \<open>auto simp: key_free_def\<close>)
qed

section \<open>A concrete client\<close>

text \<open>Peer 2, whose relationship with peer 3 is not confirmed, and a kernel without peers.\<close>

definition sample_gate :: "allowed_ip set gate_lib" where
  "sample_gate = \<lparr>gl_show_ip = (\<lambda>_. ''ip''), gl_nft = (\<lambda>c text B. (Inr (), nft_effect c B))\<rparr>"

definition sample_node :: "(peer_info list, allowed_ip set) node_lib" where
  "sample_node = \<lparr>nn_iface = ''wg0'', nn_sizes = sample_sizes, nn_kernel = sample_kernel, nn_gate = sample_gate,
     nn_diff = sample_diff\<rparr>"

definition boot_owner :: endpoint where
  "boot_owner = sample_endpoint 2 (Number 3) (sample_rel 3 None)"

definition boot_envelope :: "endpoint envelope_lib" where
  "boot_envelope = \<lparr>en_crypto = toy_lib, en_print = (\<lambda>v g x. None), en_version = (\<lambda>_. Some 1),
     en_generation = (\<lambda>_. Some (1, 1)), en_parse = (\<lambda>_. Some (1, 1, boot_owner))\<rparr>"

definition boot_entry :: peer_state where
  "boot_entry = ((3, sample_listed 9 3), False, None)"

definition boot_rest :: "unit rest_client" where
  "boot_rest = \<lparr>rc_agent = \<lparr>ag_builds = (\<lambda>_. True), ag_run = (\<lambda>_ t. (Inr (Some ''{}''), t))\<rparr>,
     rc_server = \<lparr>si_internal_endpoint = ''10.0.0.1:80'', si_public_key = ''key''\<rparr>,
     rc_json = \<lparr>js_page = (\<lambda>_. Some \<lparr>pg_version = 1, pg_network_id = replicate 16 1, pg_visibility_revision = Number 1,
         pg_peers = [boot_entry], pg_cidrs = [], pg_exchanges = [], pg_next_cursor = None\<rparr>),
       js_exchange = (\<lambda>_. None), js_advertised = (\<lambda>_. None), js_registration = (\<lambda>_. None),
       js_message = (\<lambda>_. None), js_percent = (\<lambda>c. c)\<rparr>\<rparr>"

definition boot_fetch :: "(unit, nat, peer_info list, allowed_ip set) fetch_lib" where
  "boot_fetch = \<lparr>ft_crypto = toy_lib, ft_envelope = boot_envelope, ft_env = (\<lambda>_. calm 7), ft_fill = sample_fill,
     ft_entropy = (\<lambda>_. []), ft_rest = boot_rest, ft_state = (\<lambda>_. Some ([(3, sample_listed 9 3)], [])),
     ft_node = sample_node, ft_directory = \<lparr>dy_print = (\<lambda>_. None), dy_parse = (\<lambda>_. None)\<rparr>\<rparr>"

definition boot_args :: fetch_args where
  "boot_args = \<lparr>fa_interface_up = True, fa_bring_up = True, fa_pq = pq_options_default\<lparr>po_enable := True\<rparr>,
     fa_management_required = False, fa_management_psk = None, fa_pq_path_exists = True,
     fa_boot_open = Err StCorrupt, fa_open = Ok \<lparr>st_generation = 1, st_fresh = False, st_digest = None\<rparr>,
     fa_server = None, fa_server_key = Some (replicate 32 1), fa_listen_port = None, fa_private_key = replicate 32 2,
     fa_link_ok = True, fa_own_key = Some (replicate 32 2), fa_overrides = [], fa_now = 5, fa_hosts_ok = True,
     fa_write = RewindFails\<rparr>"

definition boot_client :: "(unit, nat, peer_info list, allowed_ip set) client" where
  "boot_client = \<lparr>cn_transport = (), cn_rng = 0,
     cn_world = \<lparr>wd_store = \<lparr>st_generation = 1, st_fresh = False, st_digest = None\<rparr>,
       wd_disk = \<lparr>dk_entries = [state_name \<mapsto> \<lparr>fl_kind = Regular, fl_uid = 7, fl_mode = 384, fl_nlink = 1, fl_bytes = [1], fl_synced = True\<rparr>],
         dk_durable = Map.empty\<rparr>, wd_log = []\<rparr>,
     cn_node = \<lparr>no_kernel = [], no_gate = {}\<rparr>, cn_directory = (\<lparr>ds_peers = [], ds_cidrs = []\<rparr>, []), cn_updates = []\<rparr>"

lemma sample_gate_law: "nft_law (nn_gate sample_node) iface (\<lambda>B. B)"
  by (simp add: nft_law_def sample_node_def sample_gate_def)

lemma boot_loaded: "\<exists>w. load boot_envelope (calm 7) (cn_world boot_client) = (Inr boot_owner, w)"
  by (simp add: load_def read_state_def open_existing_def owned_file_def calm_def boot_client_def boot_envelope_def
      max_bytes_def toy_ops bindS_def)

lemma boot_state:
  "\<exists>w. activate_state boot_fetch boot_args boot_client = (Inr boot_owner, boot_client\<lparr>cn_world := w\<rparr>)"
proof -
  obtain w where w: "load boot_envelope (calm 7) (cn_world boot_client) = (Inr boot_owner, w)" using boot_loaded by blast
  have handle: "with_handle (fa_open boot_args) boot_client = (Inr (), boot_client)"
    by (simp add: with_handle_def boot_args_def boot_client_def map_err_def modS_def bindS_def)
  have policy: "boot_owner\<lparr>ep_policy := PolStrict\<rparr> = boot_owner" by (simp add: boot_owner_def sample_endpoint_def)
  have opened: "at_activation (errS FePq (open_or_register toy_lib B boot_envelope (calm 7) fill boot_rest own False)) boot_client =
      (Inr boot_owner, boot_client\<lparr>cn_world := w\<rparr>)" for B fill own
    using w policy
    by (simp add: at_activation_def errS_def open_or_register_def on_world_def map_err_def bindS_def boot_client_def)
  have calm: "\<not> (ep_enrollment boot_owner = EnRegistering \<or> ep_enrollment boot_owner = EnRetiring)"
    by (simp add: boot_owner_def sample_endpoint_def)
  have fields: "ft_crypto boot_fetch = toy_lib" "ft_envelope boot_fetch = boot_envelope" "ft_env boot_fetch n = calm 7"
    "ft_rest boot_fetch = boot_rest" "po_permissive (fa_pq boot_args) = False" "fa_own_key boot_args = Some (replicate 32 2)" for n
    by (simp_all add: boot_fetch_def boot_args_def pq_options_default_def)
  have same: "boot_client\<lparr>cn_transport := (), cn_world := x\<rparr> = boot_client\<lparr>cn_world := x\<rparr>" for x
    by (simp add: boot_client_def)
  show ?thesis
    using handle opened calm
    by (simp add: activate_state_def bindS_def fields submit_pending_registration_def Let_def at_world_def same split: prod.splits)
      blast
qed

lemma boot_page: "fetch_state (rest_transport boot_rest) () = Some (Inr ([boot_entry], []), ())"
  unfolding fetch_state_def
  by (subst fetch_pages.simps)
    (simp add: rest_transport_def http_def rest_request_def errS_def map_err_def bindS_def Let_def boot_rest_def)

lemma boot_must_gate: "must_gate boot_owner boot_entry"
proof -
  have "number_new (word_of_int 3) = Inr (Number 3)" by simp
  then show ?thesis
    by (simp add: must_gate_def boot_entry_def boot_owner_def sample_endpoint_def bt_get_def sample_rel_def
        new_relationship_def legacy_eligible_def del: number_new_Ok)
qed

lemma boot_pass:
  "gate_pass sample_node boot_owner [boot_entry] \<lparr>no_kernel = [], no_gate = {}\<rparr> = (Inr (), \<lparr>no_kernel = [], no_gate = {entry_ip boot_entry}\<rparr>)"
proof -
  have "gate_lists boot_owner [boot_entry] = ([entry_ip boot_entry], [])"
    using boot_must_gate legacy_not_gated [of boot_owner boot_entry]
    by (cases rule: gate_entry_cases [of boot_owner boot_entry "[]" "[]"]) (simp_all add: gate_lists_def)
  then show ?thesis
    by (simp add: gate_pass_def on_gate_def gate_block_def run_nft_def sample_node_def sample_gate_def bindS_def
        add_script_def split_by_family_def entry_ip_def boot_entry_def peer_allowed_ip_def is_v4_def sample_listed_def)
qed

lemma boot_activated:
  "\<exists>c2. activate boot_fetch boot_args True boot_client = Some (Inr (Some (boot_owner, [boot_entry], [])), c2) \<and>
     cn_updates c2 = [] \<and> cn_node c2 = \<lparr>no_kernel = [], no_gate = {entry_ip boot_entry}\<rparr>"
proof -
  obtain w where w: "activate_state boot_fetch boot_args boot_client = (Inr boot_owner, boot_client\<lparr>cn_world := w\<rparr>)"
    using boot_state by blast
  have fields: "ft_rest boot_fetch = boot_rest" "ft_node boot_fetch = sample_node" "po_enable (fa_pq boot_args)"
    "cn_node boot_client = \<lparr>no_kernel = [], no_gate = {}\<rparr>" "cn_updates boot_client = []" "cn_transport boot_client = ()"
    by (simp_all add: boot_fetch_def boot_args_def boot_client_def)
  show ?thesis by (simp add: activate_def w fields boot_page at_node_def boot_pass)
qed

lemma boot_logged:
  assumes "cn_updates c = []" "cn_node c = \<lparr>no_kernel = [], no_gate = G\<rparr>"
  shows "\<exists>r c' b. update_device boot_fetch boot_args [(3, sample_listed 9 3)] gated c = (r, c') \<and>
    cn_updates c' = [(G, gated, [b])] \<and> pb_public_key b = replicate 32 3"
proof -
  let ?dev = "\<lparr>dv_name = ''wg0'', dv_public_key = None, dv_private_key = None, dv_fwmark = None, dv_listen_port = None, dv_peers = []\<rparr>"
  have fields: "nn_kernel (ft_node boot_fetch) = sample_kernel" "nn_iface (ft_node boot_fetch) = ''wg0''"
    "nn_diff (ft_node boot_fetch) = sample_diff" "fa_management_psk boot_args = None"
    by (simp_all add: boot_fetch_def boot_args_def sample_node_def)
  have read: "at_node (errS FeDevice (on_kernel (device_get sample_kernel ''wg0''))) c = (Inr ?dev, c)"
    by (simp add: at_node_def errS_def on_kernel_def device_get_def sample_kernel_def bindS_def device_from_nlas_def
        interface_name_def name_char_bad_def map_err_def assms(2))
  have key: "key_of_text sample_diff (sample_key 3) = Some (replicate 32 3)"
    using toy_base64_law by (simp add: key_of_text_def sample_diff_def sample_key_def base64_law_def)
  have "sample_key 3 \<noteq> []" by (simp add: sample_key_def toy_base64_def)
  with key obtain d where d: "device_diff sample_diff ?dev [(3, sample_listed 9 3)] = Inr [d]" "pb_public_key (df_builder d) = replicate 32 3"
    by (auto simp: device_diff_def diff_listed_def sample_listed_def peer_diff_new_def peer_config_builder_def Let_def
        diff_allowed_ips_def diff_keepalive_def diff_endpoint_def builder_defs)
  have hosts: "fa_hosts_ok boot_args" by (simp add: boot_args_def)
  define c2 where "c2 = c\<lparr>cn_updates := [(G, gated, [df_builder d])]\<rparr>"
  obtain z c3 where put: "at_node (errS FeDevice (on_kernel (apply_update (nn_sizes (ft_node boot_fetch)) sample_kernel
      (add_peers [df_builder d] update_new) ''wg0''))) c2 = (z, c3)" by force
  from device_read_gate [OF put] have "cn_updates c3 = [(G, gated, [df_builder d])]" by (simp add: c2_def)
  moreover have "\<exists>r. update_device boot_fetch boot_args [(3, sample_listed 9 3)] gated c = (r, c3)"
    unfolding update_device_def fields read d
    by (cases z) (simp_all add: Let_def bindS_def read d map_err_def modS_def protect_server_def assms hosts put [unfolded c2_def])
  ultimately show ?thesis using d(2) by blast
qed

lemma boot_start: "bindS (fetch_boot boot_fetch boot_args) (\<lambda>_. fetch_directory boot_fetch) boot_client =
    (Inr (([(3, sample_listed 9 3)], []), True), boot_client)"
  by (simp add: fetch_boot_def fetch_directory_def bindS_def boot_args_def boot_fetch_def boot_rest_def boot_client_def
      http_def rest_request_def errS_def map_err_def Let_def)

text \<open>A whole fetch of this client: it updates the device with the gate closed.\<close>

lemma boot_fetched:
  "\<exists>r c' b. fetch boot_fetch boot_args boot_client = Some (r, c') \<and>
     cn_updates c' = [({entry_ip boot_entry}, Some (boot_owner, [boot_entry]), [b])] \<and> pb_public_key b = replicate 32 3"
proof -
  obtain c2 where act: "activate boot_fetch boot_args True boot_client = Some (Inr (Some (boot_owner, [boot_entry], [])), c2)"
    and c2: "cn_updates c2 = []" "cn_node c2 = \<lparr>no_kernel = [], no_gate = {entry_ip boot_entry}\<rparr>"
    using boot_activated by blast
  obtain q c3 b where upd: "update_device boot_fetch boot_args [(3, sample_listed 9 3)] (Some (boot_owner, [boot_entry])) c2 = (q, c3)"
    and c3: "cn_updates c3 = [({entry_ip boot_entry}, Some (boot_owner, [boot_entry]), [b])]" "pb_public_key b = replicate 32 3"
    using boot_logged [OF c2] by metis
  obtain r c' where fin: "fetch_finish boot_fetch boot_args [(3, sample_listed 9 3)] [] (Some (boot_owner, [boot_entry], [])) c2 = (r, c')"
    by force
  have "cn_updates c' = cn_updates c3"
    by (rule finish_updates [OF fin]) (simp add: upd)
  moreover have "fetch boot_fetch boot_args boot_client = Some (r, c')"
    by (simp add: fetch_def boot_start act fin Let_def) (simp add: boot_args_def apply_overrides_def fin [unfolded boot_args_def])
  ultimately show ?thesis using c3 by simp
qed


text \<open>The entry of peer 3 is new on this kernel, and stays without a key.\<close>

theorem update_restores_no_key_witness:
  "\<exists>r c' g gated_for bs. fetch boot_fetch boot_args boot_client = Some (r, c') \<and> (g, gated_for, bs) \<in> set (cn_updates c') \<and>
     replicate 32 3 \<in> pb_public_key ` set bs \<and>
     pred_option (\<lambda>i. pc_preshared_key (pi_config i) = None) (lookup (replicate 32 3) (effect bs []))"
proof -
  obtain r c' b where run: "fetch boot_fetch boot_args boot_client = Some (r, c')" and b: "pb_public_key b = replicate 32 3"
    and log: "({entry_ip boot_entry}, Some (boot_owner, [boot_entry]), [b]) \<in> set (cn_updates c')"
    using boot_fetched by force
  have fresh: "cn_updates boot_client = []" by (simp add: boot_client_def)
  have "fa_server_key boot_args \<noteq> Some (replicate 32 3)" by (simp add: boot_args_def)
  then have "pred_option (\<lambda>i. pc_preshared_key (pi_config i) = None) (lookup (replicate 32 3) (effect [b] []))"
    by (rule update_restores_no_key [OF run fresh log]) simp
  with run log b show ?thesis by force
qed

section \<open>A concrete installation\<close>

lemma sample_found:
  "find_peer sample_diff [(3, sample_listed 9 3)] (sample_bundle 3) = Some (sample_listed 9 3)"
  "key_of_text sample_diff (pe_public_key (sample_listed 9 3)) = Some (replicate 32 3)"
  using toy_base64_law
  by (simp_all add: find_peer_def sample_bundle_def to_base64_def sample_diff_def sample_listed_def sample_key_def
      key_of_text_def base64_law_def)

lemma sample_set_device: "\<exists>k'. set_device sample_node b n = (Inr (), n\<lparr>no_kernel := k'\<rparr>)"
proof -
  have "add_peer b update_new = add_peers [b] update_new" by (simp add: add_peer_def add_peers_def)
  with sample_applies [of "[b]" "''wg0''" "no_kernel n"] show ?thesis
    by (auto simp: set_device_def errS_def on_kernel_def map_err_def sample_node_def)
qed

theorem install_behind_gate_witness:
  "\<exists>n'. real_install sample_node [(3, sample_listed 9 3)] (sample_bundle 3) sample_candidate \<lparr>no_kernel = [], no_gate = {}\<rparr> = (Inr (), n') \<and>
     \<lparr>al_address = IpV4 9, al_cidr = 32\<rparr> \<in> no_gate n' \<and>
     map_option (\<lambda>i. pc_preshared_key (pi_config i)) (lookup (replicate 32 3) (no_kernel n')) = Some (Some (replicate 32 1))"
proof -
  let ?p = "sample_listed 9 3" and ?n = "\<lparr>no_kernel = [], no_gate = {}\<rparr> :: (peer_info list, allowed_ip set) node"
  have N: "nn_diff sample_node = sample_diff" "nn_kernel sample_node = sample_kernel" "nn_sizes sample_node = sample_sizes"
    by (simp_all add: sample_node_def)
  have found: "find_peer (nn_diff sample_node) [(3, ?p)] (sample_bundle 3) = Some ?p"
    "key_of_text (nn_diff sample_node) (pe_public_key ?p) = Some (replicate 32 3)"
    using sample_found by (simp_all add: N)
  have ip: "peer_allowed_ip ?p = \<lparr>al_address = IpV4 9, al_cidr = 32\<rparr>" by (simp add: peer_allowed_ip_def sample_listed_def)
  have closed: "on_gate (gate_block (nn_gate sample_node) (nn_iface sample_node) [peer_allowed_ip ?p]) ?n =
      (Inr (), \<lparr>no_kernel = [], no_gate = {peer_allowed_ip ?p}\<rparr>)"
    by (simp add: on_gate_def gate_block_def run_nft_def sample_node_def sample_gate_def bindS_def
        add_script_def split_by_family_def ip is_v4_def)
  obtain n' where run: "real_install sample_node [(3, ?p)] (sample_bundle 3) sample_candidate ?n = (Inr (), n')"
  proof -
    obtain k1 where k1: "set_device sample_node (builder_remove (builder_new (replicate 32 3))) \<lparr>no_kernel = [], no_gate = {peer_allowed_ip ?p}\<rparr>
        = (Inr (), \<lparr>no_kernel = k1, no_gate = {peer_allowed_ip ?p}\<rparr>)"
      using sample_set_device [of _ "\<lparr>no_kernel = [], no_gate = {peer_allowed_ip ?p}\<rparr>"] by auto
    obtain n2 where "set_device sample_node (install_builder sample_diff (replicate 32 3) ?p (cd_psk sample_candidate))
        \<lparr>no_kernel = k1, no_gate = {peer_allowed_ip ?p}\<rparr> = (Inr (), n2)"
      using sample_set_device by blast
    with k1 closed that show thesis
      by (simp add: install_steps [OF found] behind_gate_def bindS_def errS_def map_err_def N)
  qed
  have laws: "nft_law (nn_gate sample_node) (nn_iface sample_node) (\<lambda>B. B)"
    "kernel_law (nn_kernel sample_node) (nn_iface sample_node) (\<lambda>ps. ps)" "sizes_law (nn_sizes sample_node)"
    using sample_gate_law sample_kernel_law sample_sizes_law by (simp_all add: N)
  from install_behind_gate [OF laws found run] ip run show ?thesis by (auto simp: sample_candidate_def)
qed

text \<open>A kernel that shows a handshake of peer 3, which peer 2 has confirmed.\<close>

definition seen_node :: "(peer_info list, allowed_ip set) node_lib" where
  "seen_node = sample_node\<lparr>nn_kernel := sample_kernel\<lparr>
     kn_get := (\<lambda>n ps. (Ok [[DIfName n, DPeers [[PPublicKey (replicate 32 3), PLastHandshake 7 0]]]], ps))\<rparr>\<rparr>"

definition sample_confirmed :: confirmed_psk where
  "sample_confirmed = \<lparr>cf_local_bundle_id = replicate 32 2, cf_remote_bundle_id = replicate 32 3, cf_sequence = Number 1,
     cf_exchange_id = replicate 16 7, cf_transcript_hash = replicate 32 7, cf_psk = replicate 32 1, cf_completed_at = 3\<rparr>"

definition confirmed_owner :: endpoint where
  "confirmed_owner = sample_endpoint 2 (Number 3)
     ((sample_rel 3 None)\<lparr>rel_confirmed := Some sample_confirmed\<rparr>)"

theorem gate_opens_on_handshake_witness:
  "\<lparr>al_address = IpV4 9, al_cidr = 32\<rparr> \<notin> no_gate (reconcile_gate seen_node confirmed_owner [(3, sample_listed 9 3)]
       \<lparr>no_kernel = [], no_gate = {\<lparr>al_address = IpV4 9, al_cidr = 32\<rparr>}\<rparr>) \<and>
   (\<exists>r \<in> set (bt_values (ep_relationships confirmed_owner)). rel_pending r = None \<and> rel_confirmed r \<noteq> None)"
proof -
  let ?n = "\<lparr>no_kernel = [], no_gate = {\<lparr>al_address = IpV4 9, al_cidr = 32\<rparr>}\<rparr> :: (peer_info list, allowed_ip set) node"
  have law: "nft_law (nn_gate seen_node) (nn_iface seen_node) (\<lambda>B. B)" using sample_gate_law by (simp add: seen_node_def)
  have still: "\<forall>k. snd (kn_get (nn_kernel seen_node) (nn_iface seen_node) k) = k" by (simp add: seen_node_def)
  let ?r = "(sample_rel 3 None)\<lparr>rel_confirmed := Some sample_confirmed\<rparr>"
  have rels: "bt_values (ep_relationships confirmed_owner) = [?r]" and live: "rg_lifecycle (ep_registration confirmed_owner) \<noteq> LRetired"
    by (simp_all add: confirmed_owner_def sample_endpoint_def bt_values_def sample_registration_def)
  have remote: "rel_remote ?r = sample_bundle 3" "rel_pending ?r = None" by (simp_all add: sample_rel_def new_relationship_def)
  have dev: "device_get (nn_kernel seen_node) (nn_iface seen_node) k = (Inr \<lparr>dv_name = ''wg0'', dv_public_key = None,
      dv_private_key = None, dv_fwmark = None, dv_listen_port = None,
      dv_peers = [(fresh_info (replicate 32 3))\<lparr>pi_config := (pi_config (fresh_info (replicate 32 3)))\<lparr>pc_keepalive := None\<rparr>,
        pi_last_handshake := Some 7000000000\<rparr>]\<rparr>, k)" for k
    by (simp add: device_get_def seen_node_def sample_node_def bindS_def device_from_nlas_def interface_name_def name_char_bad_def
        map_err_def peer_info_from_nla_def handshake_time_def Let_def fresh_info_def)
  have N: "nn_diff seen_node = sample_diff" "nn_gate seen_node = sample_gate" by (simp_all add: seen_node_def sample_node_def)
  have ip: "peer_allowed_ip (sample_listed 9 3) = \<lparr>al_address = IpV4 9, al_cidr = 32\<rparr>"
    by (simp add: peer_allowed_ip_def sample_listed_def)
  have release: "gate_release sample_gate iface [\<lparr>al_address = IpV4 9, al_cidr = 32\<rparr>] g = (Inr (), g - {\<lparr>al_address = IpV4 9, al_cidr = 32\<rparr>})"
    for iface g by (simp add: gate_release_def run_nft_def sample_gate_def is_v4_def)
  have opened: "\<lparr>al_address = IpV4 9, al_cidr = 32\<rparr> \<notin> no_gate (reconcile_gate seen_node confirmed_owner [(3, sample_listed 9 3)] ?n)"
    using live
    by (simp add: reconcile_gate_def rels remote real_fresh_def bindS_def errS_def map_err_def on_kernel_def dev
        shows_handshake_def on_gate_def N ip release sample_found fresh_info_def)
  have "\<lparr>al_address = IpV4 9, al_cidr = 32\<rparr> \<in> no_gate ?n" by simp
  with opened gate_opens_on_handshake [OF law still, of confirmed_owner "[]" ?n "\<lparr>al_address = IpV4 9, al_cidr = 32\<rparr>"
      "[(3, sample_listed 9 3)]" "sample_bundle 3" sample_candidate]
  show ?thesis by blast
qed

end
