(* ===== verification/Service.thy ===== *)
theory Service
  imports Pages Admin PeerSync
begin

text \<open>
  The HTTP service of the coordinating server (\<^verbatim>\<open>server/src/lib.rs\<close>, \<^verbatim>\<open>api/user.rs\<close>, \<^verbatim>\<open>api/admin/*\<close>,
  \<^verbatim>\<open>util.rs\<close>): who a request belongs to, the routes, and the handlers of users and
  administrators, with what they do to the database and to the interface. Parsing of JSON
  forms and the kernel are parameters. A panic ends a request without a response.
\<close>

section \<open>Requests and answers\<close>

text \<open>The header of the server's key: absent, not text, or its text.\<close>

record http_call =
  hc_method :: string
  hc_path :: string
  hc_key :: "string option option"
  hc_remote :: ip_addr
  hc_request :: request

datatype web_answer =
    AnsState "(int \<times> peer) list" "(int \<times> cidr) list" | AnsCapabilities "u8 list" | AnsPage server_page
  | AnsBundle advertised_bundle | AnsExchange exchange | AnsStatus nat
  | AnsPeer "int \<times> peer" | AnsPeers "(int \<times> peer) list" | AnsCidr "int \<times> cidr" | AnsCidrs "(int \<times> cidr) list"
  | AnsAssociations "(int \<times> int \<times> int) list"

fun answer_status :: "web_answer \<Rightarrow> nat" where
  "answer_status (AnsStatus n) = n"
| "answer_status (AnsPeer p) = 201"
| "answer_status (AnsCidr c) = 201"
| "answer_status _ = 200"

record form_lib =
  fo_redeem :: "bytes \<Rightarrow> string option"
  fo_endpoint :: "bytes \<Rightarrow> host_port option option"
  fo_candidates :: "bytes \<Rightarrow> host_port list option"
  fo_peer :: "bytes \<Rightarrow> peer option"
  fo_cidr :: "bytes \<Rightarrow> cidr option"
  fo_association :: "bytes \<Rightarrow> (int \<times> int) option"

text \<open>\<^verbatim>\<open>form_body\<close>: the length must be announced, and be small.\<close>

definition form_limit :: nat where
  "form_limit = 16 * 1024"

definition form_body :: "(bytes \<Rightarrow> 'a option) \<Rightarrow> request \<Rightarrow> 'a sres" where
  "form_body parse req =
     bindR (ok_or (case rq_content_lengths req of Some text # _ \<Rightarrow> parse_u64 text | _ \<Rightarrow> None) SInvalidQuery) (\<lambda>content_len.
     bindR (guardR (\<not> content_len > word_of_nat form_limit) SInvalidQuery) (\<lambda>_.
     case rq_body req of
       BodyTimeout \<Rightarrow> Err SInvalidQuery
     | BodyOverLimit \<Rightarrow> Err SInvalidQuery
     | Body bs \<Rightarrow> if length bs > form_limit then Err SInvalidQuery else ok_or (parse bs) SJson))"

text \<open>\<^verbatim>\<open>str::parse::<i64>\<close>.\<close>

definition parse_i64 :: "string \<Rightarrow> int option" where
  "parse_i64 s =
     (let negative = (s \<noteq> [] \<and> hd s = CHR ''-'');
          ds = (if s \<noteq> [] \<and> (hd s = CHR ''-'' \<or> hd s = CHR ''+'') then tl s else s);
          v = (if negative then - int (nat_of_dec ds) else int (nat_of_dec ds)) in
      if ds = [] \<or> \<not> list_all ascii_digit ds \<or> \<not> (- i64_bound \<le> v \<and> v < i64_bound) then None else Some v)"

fun split_slash :: "string \<Rightarrow> string list" where
  "split_slash [] = [[]]"
| "split_slash (c # cs) =
     (if c = CHR ''/'' then [] # split_slash cs
      else case split_slash cs of [] \<Rightarrow> [[c]] | w # ws \<Rightarrow> (c # w) # ws)"

definition path_components :: "string \<Rightarrow> string list" where
  "path_components path = split_slash (dropWhile (\<lambda>c. c = CHR ''/'') path)"

section \<open>Context and state\<close>

record 'k server_context =
  cx_front :: front_lib
  cx_forms :: form_lib
  cx_server_key :: bytes
  cx_pq :: bool
  cx_management :: "(int \<rightharpoonup> bytes) option"
  cx_iface :: string
  cx_sizes :: nla_sizes
  cx_kernel :: "'k kernel"
  cx_diff :: diff_lib

record clocks =
  ck_monotonic :: u64
  ck_epoch :: u64
  ck_now :: int

text \<open>A redemption changes the interface only after its response has left.\<close>

record redeem_task =
  rt_old_key :: bytes
  rt_peer :: "int \<times> peer"

record 'k web =
  wb_front :: front
  wb_kernel :: 'k
  wb_tasks :: "redeem_task list"

datatype web_error = Failed server_error | Panicked

type_synonym ('k, 'a) webS = "('k web, web_error, 'a) comp"

definition at_front :: "'a frontS \<Rightarrow> ('k, 'a) webS" where
  "at_front m w = (case m (wb_front w) of (r, f) \<Rightarrow> (map_err Failed r, w\<lparr>wb_front := f\<rparr>))"

definition at_db :: "'a dbS \<Rightarrow> ('k, 'a) webS" where
  "at_db m = at_front (on_db m)"

definition pureW :: "'a sres \<Rightarrow> ('k, 'a) webS" where
  "pureW r = liftS (map_err Failed r)"

definition net_of :: "'k server_context \<Rightarrow> net_lib" where
  "net_of C = ml_net (pl_mail (fl_pages (cx_front C)))"

definition mail_of :: "'k server_context \<Rightarrow> mail_lib" where
  "mail_of C = pl_mail (fl_pages (cx_front C))"

definition apply_kernel :: "'k server_context \<Rightarrow> device_update \<Rightarrow> ('k, unit) webS" where
  "apply_kernel C u w =
     (case apply_update (cx_sizes C) (cx_kernel C) u (cx_iface C) (wb_kernel w) of
        (r, k) \<Rightarrow> (map_err (\<lambda>_. Failed SWireGuard) r, w\<lparr>wb_kernel := k\<rparr>))"

text \<open>\<^verbatim>\<open>PeerConfigBuilder::from(&Peer)\<close>, which panics for a key that cannot be read.\<close>

definition builder_of_peer :: "diff_lib \<Rightarrow> int \<times> peer \<Rightarrow> peer_builder option" where
  "builder_of_peer D p = (case peer_diff_new D None (Some p) of Inr (Some d) \<Rightarrow> Some (df_builder d) | _ \<Rightarrow> None)"

definition get_session :: "'k server_context \<Rightarrow> http_call \<Rightarrow> pq_db \<Rightarrow> session sres" where
  "get_session C call db =
     bindR (ok_or (hc_key call) SUnauthorized) (\<lambda>header.
     bindR (ok_or header SUnauthorized) (\<lambda>text.
     bindR (ok_or (key_from_base64 (net_of C) text) SUnauthorized) (\<lambda>pubkey.
     if pubkey = cx_server_key C then
       (case peer_get_from_ip (net_of C) (hc_remote call) db of
          Inl e \<Rightarrow> Err (if e = SDatabase DbNoRows then SUnauthorized else e)
        | Inr (i, p) \<Rightarrow>
            if \<not> pe_is_disabled p then Ok \<lparr>ss_peer_id = i, ss_peer = p, ss_service = cx_pq C\<rparr> else Err SUnauthorized)
     else Err SUnauthorized)))"

section \<open>Users\<close>

definition injected :: "'k server_context \<Rightarrow> (int \<times> peer) list \<Rightarrow> (int \<times> peer) list" where
  "injected C ps = map (\<lambda>(i, p). (i, inject_endpoint (fl_endpoints (cx_front C)) p)) ps"

definition user_state :: "'k server_context \<Rightarrow> session \<Rightarrow> ('k, web_answer) webS" where
  "user_state C session =
     bindS (at_db (askS (peer_get (net_of C) (ss_peer_id session)))) (\<lambda>selected.
     bindS (at_db (getS db_cidrs)) (\<lambda>cidrs.
     bindS (at_db (askS (get_all_allowed_peers (net_of C) selected))) (\<lambda>peers.
     retS (AnsState (injected C peers) cidrs))))"

definition user_capabilities :: "session \<Rightarrow> ('k, web_answer) webS" where
  "user_capabilities session =
     bindS (at_db (getS (\<lambda>db. ss_service session \<and> ready db))) (\<lambda>pq.
     retS (AnsCapabilities (if pq then [1] else [])))"

definition user_redeem :: "'k server_context \<Rightarrow> clocks \<Rightarrow> string \<Rightarrow> session \<Rightarrow> ('k, web_answer) webS" where
  "user_redeem C ck pubkey session =
     bindS (at_db (askS (peer_get (net_of C) (ss_peer_id session)))) (\<lambda>selected.
     bindS (pureW (ok_or (key_from_base64 (net_of C) (pe_public_key selected)) SWireGuard)) (\<lambda>old_key.
     bindS (at_db (peer_redeem (ck_now ck) (ss_peer_id session) selected pubkey)) (\<lambda>redeemed.
     bindS (modS (\<lambda>w. w\<lparr>wb_tasks := wb_tasks w @ [\<lparr>rt_old_key = old_key, rt_peer = (ss_peer_id session, redeemed)\<rparr>]\<rparr>)) (\<lambda>_.
     retS (AnsStatus 204)))))"

text \<open>What follows a redemption after the wait. Its failure is only logged, a panic ends the task.\<close>

definition protected_builder :: "'k server_context \<Rightarrow> int \<Rightarrow> peer_builder \<Rightarrow> peer_builder" where
  "protected_builder C i b =
     (case Option.bind (cx_management C) (\<lambda>psks. psks i) of None \<Rightarrow> b | Some psk \<Rightarrow> set_preshared_key psk b)"

definition run_task :: "'k server_context \<Rightarrow> redeem_task \<Rightarrow> 'k web \<Rightarrow> 'k web" where
  "run_task C t w =
     (case builder_of_peer (cx_diff C) (rt_peer t) of
        None \<Rightarrow> w
      | Some b \<Rightarrow> snd (apply_kernel C
          (add_peer (protected_builder C (fst (rt_peer t)) b)
            (add_peer (builder_remove (builder_new (rt_old_key t))) update_new)) w))"

definition user_candidates :: "'k server_context \<Rightarrow> host_port list \<Rightarrow> session \<Rightarrow> ('k, web_answer) webS" where
  "user_candidates C contents session =
     (if length contents > 10 then retS (AnsStatus 413)
      else
        bindS (at_db (askS (peer_get (net_of C) (ss_peer_id session)))) (\<lambda>selected.
        bindS (at_db (peer_update (mail_of C) (ss_peer_id session) selected (selected\<lparr>pe_candidates := contents\<rparr>))) (\<lambda>_.
        retS (AnsStatus 204))))"

definition user_endpoint :: "'k server_context \<Rightarrow> host_port option \<Rightarrow> session \<Rightarrow> ('k, web_answer) webS" where
  "user_endpoint C contents session =
     bindS (at_db (askS (peer_get (net_of C) (ss_peer_id session)))) (\<lambda>selected.
     bindS (at_db (peer_update (mail_of C) (ss_peer_id session) selected (selected\<lparr>pe_endpoint := contents\<rparr>))) (\<lambda>_.
     retS (AnsStatus 204)))"

text \<open>A handler that needs a capability and a form.\<close>

definition with_form :: "bool \<Rightarrow> (bytes \<Rightarrow> 'a option) \<Rightarrow> http_call \<Rightarrow> ('a \<Rightarrow> ('k, web_answer) webS) \<Rightarrow> ('k, web_answer) webS" where
  "with_form capable parse call handler =
     bindS (pureW (guardR capable SUnauthorized)) (\<lambda>_.
     bindS (pureW (form_body parse (hc_request call))) handler)"

definition user_routes :: "'k server_context \<Rightarrow> clocks \<Rightarrow> http_call \<Rightarrow> string list \<Rightarrow> session \<Rightarrow> ('k, web_answer) webS" where
  "user_routes C ck call components session =
     (case components of
        [] \<Rightarrow> failS (Failed SNotFound)
      | c # rest \<Rightarrow>
          if hc_method call = ''GET'' \<and> c = ''state'' then
            bindS (pureW (guardR (\<not> rest \<noteq> []) SNotFound)) (\<lambda>_.
            bindS (pureW (guardR (user_capable session) SUnauthorized)) (\<lambda>_.
            if rq_query (hc_request call) \<noteq> None
            then bindS (at_front (state_handler (cx_front C) (ck_epoch ck) (hc_request call) session)) (\<lambda>pg. retS (AnsPage pg))
            else user_state C session))
          else if hc_method call = ''GET'' \<and> c = ''capabilities'' \<and> rest = [] then user_capabilities session
          else if hc_method call = ''PUT'' \<and> c = ''pq-keys'' \<and> rest = [] then
            bindS (at_front (register_handler (cx_front C) (ck_monotonic ck) (ck_epoch ck) (hc_request call) session))
              (\<lambda>b. retS (AnsBundle b))
          else if hc_method call = ''PUT'' \<and> c = ''pq-handshake'' \<and> length rest = 1 then
            bindS (at_front (handshake_handler (cx_front C) (ck_monotonic ck) (ck_epoch ck) (hc_request call) session (hd rest)))
              (\<lambda>e. retS (AnsExchange e))
          else if hc_method call = ''POST'' \<and> c = ''redeem'' then
            with_form (redeemable session) (fo_redeem (cx_forms C)) call (\<lambda>pubkey. user_redeem C ck pubkey session)
          else if hc_method call = ''PUT'' \<and> c = ''endpoint'' then
            with_form (user_capable session) (fo_endpoint (cx_forms C)) call (\<lambda>contents. user_endpoint C contents session)
          else if hc_method call = ''PUT'' \<and> c = ''candidates'' then
            with_form (user_capable session) (fo_candidates (cx_forms C)) call (\<lambda>contents. user_candidates C contents session)
          else failS (Failed SNotFound))"

section \<open>Administrators\<close>

definition admin_peer_create :: "'k server_context \<Rightarrow> peer \<Rightarrow> ('k, web_answer) webS" where
  "admin_peer_create C form =
     bindS (at_db (peer_create (net_of C) form)) (\<lambda>created.
     bindS (liftS (ok_or (builder_of_peer (cx_diff C) created) Panicked)) (\<lambda>b.
     bindS (apply_kernel C (add_peer b update_new)) (\<lambda>_.
     retS (AnsPeer created))))"

definition admin_peer_update :: "'k server_context \<Rightarrow> int \<Rightarrow> peer \<Rightarrow> ('k, web_answer) webS" where
  "admin_peer_update C i form =
     bindS (at_db (askS (peer_get (net_of C) i))) (\<lambda>selected.
     bindS (at_db (peer_update (mail_of C) i selected form)) (\<lambda>_.
     retS (AnsStatus 204)))"

definition admin_peer_list :: "'k server_context \<Rightarrow> ('k, web_answer) webS" where
  "admin_peer_list C =
     bindS (at_db (askS (peer_list (net_of C)))) (\<lambda>peers. retS (AnsPeers (injected C peers)))"

definition admin_peer_delete :: "'k server_context \<Rightarrow> int \<Rightarrow> ('k, web_answer) webS" where
  "admin_peer_delete C i = bindS (at_db (peer_disable (mail_of C) i)) (\<lambda>_. retS (AnsStatus 204))"

definition admin_cidr_update :: "int \<Rightarrow> cidr \<Rightarrow> ('k, web_answer) webS" where
  "admin_cidr_update i form = bindS (at_db (cidr_update i form)) (\<lambda>_. retS (AnsStatus 204))"

text \<open>A route with an identifier, which must be a number before a form is read.\<close>

definition numbered :: "string \<Rightarrow> (int \<Rightarrow> ('k, web_answer) webS) \<Rightarrow> ('k, web_answer) webS" where
  "numbered text handler = bindS (pureW (ok_or (parse_i64 text) SNotFound)) handler"

definition peer_routes :: "'k server_context \<Rightarrow> http_call \<Rightarrow> string list \<Rightarrow> ('k, web_answer) webS" where
  "peer_routes C call components =
     (case components of
        [] \<Rightarrow>
          if hc_method call = ''GET'' then admin_peer_list C
          else if hc_method call = ''POST'' then with_form True (fo_peer (cx_forms C)) call (admin_peer_create C)
          else failS (Failed SNotFound)
      | text # _ \<Rightarrow>
          if hc_method call = ''PUT'' then
            numbered text (\<lambda>i. with_form True (fo_peer (cx_forms C)) call (admin_peer_update C i))
          else if hc_method call = ''DELETE'' then numbered text (admin_peer_delete C)
          else failS (Failed SNotFound))"

definition cidr_routes :: "'k server_context \<Rightarrow> http_call \<Rightarrow> string list \<Rightarrow> ('k, web_answer) webS" where
  "cidr_routes C call components =
     (case components of
        [] \<Rightarrow>
          if hc_method call = ''GET'' then bindS (at_db (getS db_cidrs)) (\<lambda>cidrs. retS (AnsCidrs cidrs))
          else if hc_method call = ''POST'' then
            with_form True (fo_cidr (cx_forms C)) call (\<lambda>c. bindS (at_db (cidr_create (net_of C) c)) (\<lambda>made. retS (AnsCidr made)))
          else failS (Failed SNotFound)
      | text # _ \<Rightarrow>
          if hc_method call = ''PUT'' then
            numbered text (\<lambda>i. with_form True (fo_cidr (cx_forms C)) call (admin_cidr_update i))
          else if hc_method call = ''DELETE'' then
            numbered text (\<lambda>i. bindS (at_db (cidr_delete i)) (\<lambda>_. retS (AnsStatus 204)))
          else failS (Failed SNotFound))"

definition association_routes :: "'k server_context \<Rightarrow> http_call \<Rightarrow> string list \<Rightarrow> ('k, web_answer) webS" where
  "association_routes C call components =
     (case components of
        [] \<Rightarrow>
          if hc_method call = ''GET'' then bindS (at_db (getS db_associations)) (\<lambda>auths. retS (AnsAssociations auths))
          else if hc_method call = ''POST'' then
            with_form True (fo_association (cx_forms C)) call
              (\<lambda>(a, b). bindS (at_db (association_create a b)) (\<lambda>_. retS (AnsStatus 201)))
          else failS (Failed SNotFound)
      | text # _ \<Rightarrow>
          if hc_method call = ''DELETE'' then
            numbered text (\<lambda>i. bindS (at_db (association_delete (mail_of C) i)) (\<lambda>_. retS (AnsStatus 204)))
          else failS (Failed SNotFound))"

definition admin_routes :: "'k server_context \<Rightarrow> http_call \<Rightarrow> string list \<Rightarrow> session \<Rightarrow> ('k, web_answer) webS" where
  "admin_routes C call components session =
     bindS (pureW (guardR (admin_capable session) SUnauthorized)) (\<lambda>_.
     case components of
       [] \<Rightarrow> failS (Failed SNotFound)
     | c # rest \<Rightarrow>
         if c = ''associations'' then association_routes C call rest
         else if c = ''cidrs'' then cidr_routes C call rest
         else if c = ''peers'' then peer_routes C call rest
         else failS (Failed SNotFound))"

section \<open>The service\<close>

definition routes :: "'k server_context \<Rightarrow> clocks \<Rightarrow> http_call \<Rightarrow> string list \<Rightarrow> ('k, web_answer) webS" where
  "routes C ck call components =
     (if components = [] \<or> hd components \<noteq> ''v1'' then failS (Failed SNotFound)
      else
        bindS (at_db (askS (get_session C call))) (\<lambda>session.
        case tl components of
          [] \<Rightarrow> failS (Failed SNotFound)
        | c # rest \<Rightarrow>
            if c = ''user'' then user_routes C ck call rest session
            else if c = ''admin'' then admin_routes C call rest session
            else failS (Failed SNotFound)))"

text \<open>The response: its status, the \<^verbatim>\<open>Retry-After\<close> header and the body, if there is a response.\<close>

definition hyper_service ::
    "'k server_context \<Rightarrow> clocks \<Rightarrow> http_call \<Rightarrow> 'k web \<Rightarrow> (nat \<times> string option \<times> web_answer option) option \<times> 'k web" where
  "hyper_service C ck call w =
     (case routes C ck call (path_components (hc_path call)) w of
        (Inr ans, w') \<Rightarrow> (Some (answer_status ans, None, Some ans), w')
      | (Inl (Failed e), w') \<Rightarrow> (Some (fst (error_response e), snd (error_response e), None), w')
      | (Inl Panicked, w') \<Rightarrow> (None, w'))"

end
