(* ===== verification/ServiceProps.thy ===== *)
theory ServiceProps
  imports Service ServerProps MailboxClaims PeerSyncProps
begin

text \<open>
  What the HTTP service promises: only the network's own peers are served, administration is for
  administrators, a user's request changes nothing but the user's own row and mailbox, and the
  tables keep their invariant whatever is requested.
\<close>

declare split_paired_All [simp del] split_paired_Ex [simp del]

section \<open>Relations on the database, lifted to the service\<close>

definition frontR :: "(pq_db \<Rightarrow> pq_db \<Rightarrow> bool) \<Rightarrow> front \<Rightarrow> front \<Rightarrow> bool" where
  "frontR R f g \<longleftrightarrow> R (fr_db f) (fr_db g)"

definition dbR :: "(pq_db \<Rightarrow> pq_db \<Rightarrow> bool) \<Rightarrow> 'k web \<Rightarrow> 'k web \<Rightarrow> bool" where
  "dbR R v w \<longleftrightarrow> R (fr_db (wb_front v)) (fr_db (wb_front w))"

lemma frontR_order [simp]: "reflp R \<Longrightarrow> reflp (frontR R)" "transp R \<Longrightarrow> transp (frontR R)"
  by (auto simp: reflp_def frontR_def intro!: transpI dest: transpD)

lemma dbR_order [simp]: "reflp R \<Longrightarrow> reflp (dbR R)" "transp R \<Longrightarrow> transp (dbR R)"
  by (auto simp: reflp_def dbR_def intro!: transpI dest: transpD)

lemma keeps_on_db: "keeps R m \<Longrightarrow> keeps (frontR R) (on_db m)"
  by (auto simp: keeps_def on_db_def frontR_def split: prod.splits) (metis snd_conv)

lemma keeps_on_service: "reflp R \<Longrightarrow> keeps (frontR R) (on_service m)"
  by (auto simp: keeps_def on_service_def frontR_def reflp_def split: prod.splits)

lemma keeps_releasing: "keeps (frontR R) m \<Longrightarrow> keeps (frontR R) (releasing p m)"
  by (auto simp: keeps_def releasing_def frontR_def split: prod.splits) (metis snd_conv)

lemma keeps_end_read: "keeps (frontR R) m \<Longrightarrow> keeps (frontR R) (end_read m)"
  by (auto simp: keeps_def end_read_def frontR_def split: prod.splits) (metis snd_conv)

lemma keeps_at_front: "keeps (frontR R) m \<Longrightarrow> keeps (dbR R) (at_front m)"
  by (auto simp: keeps_def at_front_def frontR_def dbR_def split: prod.splits) (metis snd_conv)

lemma keeps_at_db: "keeps R m \<Longrightarrow> keeps (dbR R) (at_db m)"
  by (simp add: at_db_def keeps_at_front keeps_on_db)

lemma keeps_web_basic: "reflp R \<Longrightarrow> keeps (dbR R) (pureW r)" "reflp R \<Longrightarrow> keeps (dbR R) (apply_kernel C u)"
  by (auto simp: keeps_def pureW_def apply_kernel_def dbR_def reflp_def split: prod.splits)

lemma at_db_run: "at_db m w = (r, v) \<longleftrightarrow>
    (\<exists>x t. m (fr_db (wb_front w)) = (x, t) \<and> r = map_err Failed x \<and> v = w\<lparr>wb_front := (wb_front w)\<lparr>fr_db := t\<rparr>\<rparr>)"
  by (auto simp: at_db_def at_front_def on_db_def split: prod.splits)

text \<open>A handler that loads a row and then works on it.\<close>

lemma keeps_loaded:
  assumes "reflp R" and "\<And>s p r t. q s = Inr p \<Longrightarrow> k p s = (r, t) \<Longrightarrow> R s t"
  shows "keeps R (bindS (askS q) k)"
proof (rule keepsI)
  fix s r t assume run: "bindS (askS q) k s = (r, t)"
  show "R s t"
  proof (cases "q s")
    case (Inl e)
    with run assms(1) show ?thesis by (auto simp: bindS_def askS_def reflp_def)
  next
    case (Inr p)
    with run have "k p s = (r, t)" by (simp add: bindS_def askS_def)
    with Inr show ?thesis by (rule assms(2))
  qed
qed

lemma at_db_loaded:
  assumes "keeps R (bindS (askS q) m)" "reflp R" "transp R" "\<And>x. keeps (dbR R) (k x)"
  shows "keeps (dbR R) (bindS (at_db (askS q)) (\<lambda>p. bindS (at_db (m p)) k))"
proof (rule keepsI)
  fix w r v assume run: "bindS (at_db (askS q)) (\<lambda>p. bindS (at_db (m p)) k) w = (r, v)"
  have "bindS (at_db (askS q)) (\<lambda>p. bindS (at_db (m p)) k) w = bindS (at_db (bindS (askS q) m)) k w"
    by (cases "q (fr_db (wb_front w))")
      (auto simp: bindS_def at_db_def at_front_def on_db_def askS_def map_err_def split: prod.splits sum.splits)
  moreover have "keeps (dbR R) (bindS (at_db (bindS (askS q) m)) k)"
    by (intro keeps_bind dbR_order keeps_at_db assms)
  ultimately show "dbR R w v" using run by (metis keepsD)
qed

section \<open>What users may do\<close>

text \<open>The operations a user's request can lead to, as a relation \<open>R\<close> sees them.\<close>

locale user_effect =
  fixes C :: "'k server_context" and i :: int and R :: "pq_db \<Rightarrow> pq_db \<Rightarrow> bool"
  assumes order: "reflp R" "transp R"
    and registers: "keeps R (register (mail_of C) i key request l epoch)"
    and submits: "keeps R (submit (mail_of C) i key other m l epoch)"
    and sweeps: "keeps R (sweep_inner (mail_of C) epoch)"
    and redeems: "peer_get (net_of C) i s = Inr p \<Longrightarrow> peer_redeem now i p pubkey s = (r1, t) \<Longrightarrow> R s t"
    and reports: "peer_get (net_of C) i s = Inr p \<Longrightarrow> peer_update (mail_of C) i p (p\<lparr>pe_candidates := cs\<rparr>) s = (r2, t) \<Longrightarrow> R s t"
    and overrides: "peer_get (net_of C) i s = Inr p \<Longrightarrow> peer_update (mail_of C) i p (p\<lparr>pe_endpoint := e\<rparr>) s = (r2, t) \<Longrightarrow> R s t"
begin

lemmas intros = keeps_bind [OF dbR_order(1) [OF order(1)] dbR_order(2) [OF order(2)]]
  keeps_simple [OF dbR_order(1) [OF order(1)]] keeps_web_basic [OF order(1)]

lemmas front_intros = keeps_bind [OF frontR_order(1) [OF order(1)] frontR_order(2) [OF order(2)]]
  keeps_simple [OF frontR_order(1) [OF order(1)]] keeps_on_service [OF order(1)] keeps_releasing keeps_end_read

lemma pages: "keeps R (page P ep key epoch j pk cursor)"
  if "pl_mail P = mail_of C"
  unfolding page_def that
  by (intro keeps_transaction keeps_bind keeps_basic order sweeps) (auto intro!: keeps_bind order simp: order split: prod.splits)

lemma register_front: "ss_peer_id session = i \<Longrightarrow> keeps (frontR R) (register_handler (cx_front C) monotonic epoch req session)"
  unfolding register_handler_def using registers by (intro front_intros keeps_on_db) (simp add: mail_of_def)

lemma handshake_front: "ss_peer_id session = i \<Longrightarrow> keeps (frontR R) (handshake_handler (cx_front C) monotonic epoch req session other)"
  unfolding handshake_handler_def using submits by (intro front_intros keeps_on_db) (simp add: mail_of_def)

lemma state_front: "ss_peer_id session = i \<Longrightarrow> keeps (frontR R) (state_handler (cx_front C) epoch req session)"
  unfolding state_handler_def
  by (intro front_intros) (auto intro!: front_intros keeps_on_db pages simp: mail_of_def split: prod.splits)

lemma state_user: "keeps (dbR R) (user_state C session)"
  unfolding user_state_def by (intro intros keeps_at_db keeps_basic order)

lemma capabilities_user: "keeps (dbR R) (user_capabilities session)"
  unfolding user_capabilities_def by (intro intros keeps_at_db keeps_basic order)

lemma redeem_user:
  assumes "ss_peer_id session = i"
  shows "keeps (dbR R) (user_redeem C ck pubkey session)"
proof (rule keepsI)
  fix w r v assume run: "user_redeem C ck pubkey session w = (r, v)"
  show "dbR R w v"
  proof (cases "peer_get (net_of C) i (fr_db (wb_front w))")
    case (Inl e)
    with run assms order(1) show ?thesis
      by (auto simp: user_redeem_def bindS_def at_db_def at_front_def on_db_def askS_def map_err_def dbR_def reflp_def)
  next
    case (Inr p)
    obtain q t where redeem: "peer_redeem (ck_now ck) i p pubkey (fr_db (wb_front w)) = (q, t)" by force
    have "fr_db (wb_front v) = t \<or> fr_db (wb_front v) = fr_db (wb_front w)"
      using run assms Inr redeem
      by (cases "key_from_base64 (net_of C) (pe_public_key p)"; cases q)
        (auto simp: user_redeem_def bindS_def at_db_def at_front_def on_db_def askS_def map_err_def modS_def pureW_def)
    with redeems [OF Inr redeem] order(1) show ?thesis by (auto simp: dbR_def reflp_def)
  qed
qed

lemma update_user: "ss_peer_id session = i \<Longrightarrow> keeps (dbR R) (user_candidates C cs session)"
    "ss_peer_id session = i \<Longrightarrow> keeps (dbR R) (user_endpoint C e session)"
proof -
  assume self: "ss_peer_id session = i"
  have loaded: "keeps R (bindS (askS (peer_get (net_of C) i)) (\<lambda>p. peer_update (mail_of C) i p (p\<lparr>pe_candidates := cs\<rparr>)))"
    "keeps R (bindS (askS (peer_get (net_of C) i)) (\<lambda>p. peer_update (mail_of C) i p (p\<lparr>pe_endpoint := e\<rparr>)))"
    by (rule keeps_loaded [OF order(1)], erule (1) reports overrides)+
  have ok: "keeps (dbR R) (retS x :: ('k, web_answer) webS)" for x by (rule intros)
  show "keeps (dbR R) (user_candidates C cs session)" "keeps (dbR R) (user_endpoint C e session)"
    using at_db_loaded [OF loaded(1) order ok, of "\<lambda>_. AnsStatus 204"]
      at_db_loaded [OF loaded(2) order ok, of "\<lambda>_. AnsStatus 204"] ok
    by (simp_all add: user_candidates_def user_endpoint_def self)
qed

lemma form_user: "(\<And>x. keeps (dbR R) (h x)) \<Longrightarrow> keeps (dbR R) (with_form capable parse call h)"
  unfolding with_form_def by (intro intros)

lemma user_requests:
  assumes "ss_peer_id session = i"
  shows "keeps (dbR R) (user_routes C ck call components session)"
  unfolding user_routes_def using assms
  by (auto split: list.split intro!: intros keeps_at_front register_front handshake_front state_front form_user
      state_user capabilities_user redeem_user update_user)

end

section \<open>What administrators may do\<close>

locale web_effect =
  fixes C :: "'k server_context" and R :: "pq_db \<Rightarrow> pq_db \<Rightarrow> bool"
  assumes users: "user_effect C i R"
    and creates: "keeps R (peer_create (net_of C) p)"
    and updates: "keeps R (peer_update (mail_of C) i self p)"
    and disables: "keeps R (peer_disable (mail_of C) i)"
    and cidrs: "keeps R (cidr_create (net_of C) c)" "keeps R (cidr_update i c)" "keeps R (cidr_delete i)"
    and associations: "keeps R (association_create a b)" "keeps R (association_delete (mail_of C) i)"
begin

lemma web_order: "reflp R" "transp R"
  using users [of undefined] by (simp_all add: user_effect_def)

lemmas web_intros = keeps_bind [OF dbR_order(1) [OF web_order(1)] dbR_order(2) [OF web_order(2)]]
  keeps_simple [OF dbR_order(1) [OF web_order(1)]] keeps_web_basic [OF web_order(1)] keeps_at_db

lemma form_web: "(\<And>x. keeps (dbR R) (h x)) \<Longrightarrow> keeps (dbR R) (with_form capable parse call h)"
  "(\<And>x. keeps (dbR R) (g x)) \<Longrightarrow> keeps (dbR R) (numbered t g)"
  unfolding with_form_def numbered_def by (intro web_intros; simp)+

lemma admin_requests: "keeps (dbR R) (admin_routes C call components session)"
  unfolding admin_routes_def association_routes_def cidr_routes_def peer_routes_def admin_peer_create_def
    admin_peer_update_def admin_peer_list_def admin_peer_delete_def admin_cidr_update_def
  by (auto split: list.split prod.split intro!: web_intros form_web creates updates disables cidrs associations
      keeps_basic web_order)

lemma all_requests: "keeps (dbR R) (routes C ck call components)"
  unfolding routes_def
  by (auto split: list.split intro!: web_intros admin_requests keeps_basic web_order user_effect.user_requests users)

end

section \<open>The tables keep their invariant\<close>

lemma keeps_weaker: "keeps same_directory m \<Longrightarrow> (\<And>s t. same_directory s t \<Longrightarrow> R s t) \<Longrightarrow> keeps R m"
  by (auto simp: keeps_def)

lemma evolving_user: "user_effect C i evolves"
  by unfold_locales
    (auto intro: evolves_ops evolves_sweep keepsD [OF evolves_peer_redeem] keepsD [OF evolves_peer_update])

interpretation evolving: web_effect C evolves for C :: "'k server_context"
  by (intro web_effect.intro evolving_user) (auto intro: evolves_ops)

section \<open>A user's own row\<close>

text \<open>The name, address, network, role and expiry of a peer are fixed for the peer itself, and so is
  the key of a redeemed one.\<close>

definition own_row :: "peer_row \<Rightarrow> peer_row \<Rightarrow> bool" where
  "own_row r q \<longleftrightarrow> q = r\<lparr>pr_endpoint := pr_endpoint q, pr_candidates := pr_candidates q,
       pr_public_key := pr_public_key q, pr_is_redeemed := pr_is_redeemed q\<rparr> \<and>
     (pr_is_redeemed r \<longrightarrow> pr_is_redeemed q \<and> pr_public_key q = pr_public_key r)"

lemma own_row_fields:
  "own_row r q \<longleftrightarrow> pr_name q = pr_name r \<and> pr_ip q = pr_ip r \<and> pr_cidr_id q = pr_cidr_id r \<and>
     pr_is_admin q = pr_is_admin r \<and> pr_is_disabled q = pr_is_disabled r \<and>
     pr_invite_expires q = pr_invite_expires r \<and> pr_is_server q = pr_is_server r \<and>
     (pr_is_redeemed r \<longrightarrow> pr_is_redeemed q \<and> pr_public_key q = pr_public_key r)"
  unfolding own_row_def by (cases r, cases q) auto

definition own_change :: "int \<Rightarrow> pq_db \<Rightarrow> pq_db \<Rightarrow> bool" where
  "own_change i s t \<longleftrightarrow>
     db_network_id t = db_network_id s \<and> db_max_peer_id t = db_max_peer_id s \<and> db_enabled t = db_enabled s \<and>
     db_management_ready t = db_management_ready s \<and> db_cidrs t = db_cidrs s \<and>
     db_associations t = db_associations s \<and>
     (\<forall>j. j \<noteq> i \<longrightarrow> bt_get j (db_peers t) = bt_get j (db_peers s) \<and>
        bt_get j (db_bundles t) = bt_get j (db_bundles s)) \<and>
     rel_option own_row (bt_get i (db_peers s)) (bt_get i (db_peers t)) \<and>
     (\<forall>b. bt_get b (db_history t) \<noteq> bt_get b (db_history s) \<longrightarrow>
        bt_get b (db_history s) = None \<and> bt_get b (db_history t) = Some i)"

lemma own_row_refl: "own_row r r" and own_row_trans: "own_row r q \<Longrightarrow> own_row q u \<Longrightarrow> own_row r u"
  by (auto simp: own_row_fields)

lemma own_change_refl: "own_change i s s"
  by (simp add: own_change_def option.rel_refl own_row_refl)

lemma own_change_trans:
  assumes "own_change i s t" "own_change i t u"
  shows "own_change i s u"
proof -
  have "rel_option own_row (bt_get i (db_peers s)) (bt_get i (db_peers u))"
  proof -
    have "rel_option own_row (bt_get i (db_peers s)) (bt_get i (db_peers t))"
      "rel_option own_row (bt_get i (db_peers t)) (bt_get i (db_peers u))"
      using assms by (simp_all add: own_change_def)
    then show ?thesis
      by (cases "bt_get i (db_peers s)"; cases "bt_get i (db_peers t)"; cases "bt_get i (db_peers u)") (auto intro: own_row_trans)
  qed
  moreover have "bt_get b (db_history s) = None \<and> bt_get b (db_history u) = Some i"
    if differs: "bt_get b (db_history u) \<noteq> bt_get b (db_history s)" for b
  proof -
    have steps: "bt_get b (db_history t) \<noteq> bt_get b (db_history s) \<Longrightarrow> bt_get b (db_history s) = None \<and> bt_get b (db_history t) = Some i"
      "bt_get b (db_history u) \<noteq> bt_get b (db_history t) \<Longrightarrow> bt_get b (db_history t) = None \<and> bt_get b (db_history u) = Some i"
      using assms by (simp_all add: own_change_def)
    show ?thesis
      using steps differs by (cases "bt_get b (db_history t) = bt_get b (db_history s)"; cases "bt_get b (db_history u) = bt_get b (db_history t)") simp_all
  qed
  ultimately show ?thesis using assms by (simp add: own_change_def)
qed

lemma own_change_order [simp]: "reflp (own_change i)" "transp (own_change i)"
  by (auto simp: reflp_def transp_def own_change_refl intro: own_change_trans)

lemma own_directory: "same_directory s t \<Longrightarrow> own_change i s t"
  by (simp add: same_directory_fields own_change_def option.rel_refl own_row_refl)

lemma own_update_peer:
  assumes "update_peer i f s = Inr t" "\<And>r. bt_get i (db_peers s) = Some r \<Longrightarrow> own_row r (f r)"
  shows "own_change i s t"
  using assms
  by (auto simp: update_peer_def bump_run own_change_def option.rel_refl own_row_refl split: option.splits if_splits)

lemma own_register:
  assumes run: "register_inner M i key request l s = (Inr e, t)"
  shows "own_change i s t"
proof (cases "stored_bundle (ml_crypto M) i s = Inr (Some e)")
  case True
  from run have "t = s" using True by (cases rule: register_inner_Inr) auto
  then show ?thesis by (simp add: own_change_refl)
next
  case False
  from register_changed_state [OF run False] show ?thesis
    by (auto simp: own_change_def option.rel_refl own_row_refl)
qed

text \<open>A write of the mailbox keeps what the sweep and its successful operation keep.\<close>

lemma keeps_write:
  assumes "reflp R" "transp R" "keeps R (sweep_inner M now)" "\<And>s x t. operation s = (Inr x, t) \<Longrightarrow> R s t"
  shows "keeps R (db_write M now operation)"
proof (rule keepsI)
  fix s r t assume run: "db_write M now operation s = (r, t)"
  obtain r1 u where sw: "sweep_inner M now s = (r1, u)" by fastforce
  have "t = s \<or> t = u \<or> (\<exists>x. operation u = (Inr x, t))"
    using run sw by (auto simp: db_write_def split: sum.splits prod.splits)
  then show "R s t"
    using keepsD [OF assms(3) sw] assms by (meson reflpD transpD)
qed

lemma peer_from_row_fields:
  "peer_from_row L r = Inr p \<Longrightarrow> pe_name p = pr_name r \<and> pe_is_admin p = pr_is_admin r \<and>
     pe_is_disabled p = pr_is_disabled r \<and> pe_is_redeemed p = pr_is_redeemed r"
  by (auto simp: peer_from_row_def bindR_Inr_iff)

lemma own_peer_update:
  assumes "peer_get L i s = Inr p" "peer_update M i p q s = (r, t)"
    "pe_name q = pe_name p" "pe_is_admin q = pe_is_admin p" "pe_is_disabled q = pe_is_disabled p"
  shows "own_change i s t"
proof -
  obtain row where row: "bt_get i (db_peers s) = Some row" "peer_from_row L row = Inr p"
    using assms(1) by (auto simp: peer_get_def bindR_Inr_iff)
  note same = peer_from_row_fields [OF row(2)]
  have set_row: "own_change i s u"
    if "update_peer i (\<lambda>r. r\<lparr>pr_name := pe_name q, pr_endpoint := e, pr_is_admin := pe_is_admin q,
           pr_is_disabled := d, pr_candidates := c\<rparr>) s = Inr u" "d = pe_is_disabled q" for e c d u
    using that(1) by (rule own_update_peer) (use row(1) same assms(3-5) that(2) in \<open>auto simp: own_row_fields\<close>)
  have ended: "own_change i u v" if "terminate_peer M i ''disabled'' u = (x, v)" for u x v
    using keepsD [OF terminate_keeps that] by (rule own_directory)
  show ?thesis
    using assms(2)
    by (auto simp: peer_update_def transaction_def bindS_def execS_def guardR_def own_change_refl Let_def
        split: if_splits sum.splits prod.splits dest!: set_row ended elim: own_change_trans)
qed

interpretation owned: user_effect C i "own_change i" for C :: "'k server_context" and i
proof
  show sweep: "keeps (own_change i) (sweep_inner (mail_of C) epoch)" for epoch
    by (rule keeps_weaker [OF sweep_keeps]) (rule own_directory)
  show "keeps (own_change i) (register (mail_of C) i key request l epoch)" for key request l epoch
    unfolding register_def by (intro keeps_write own_change_order sweep) (rule own_register)
  show "keeps (own_change i) (submit (mail_of C) i key other m l epoch)" for key other m l epoch
    unfolding submit_def
    by (intro keeps_write own_change_order sweep) (rule own_directory, erule keepsD [OF submit_inner_directory])
  show "own_change i s t" if "peer_redeem now i p pubkey s = (r1, t)" for now p pubkey s r1 t
  proof -
    have "own_change i s u" if "bt_get i (db_peers s) = Some row" "\<not> pr_is_redeemed row"
      "update_peer i (\<lambda>r. r\<lparr>pr_is_redeemed := True, pr_public_key := pubkey\<rparr>) s = Inr u" for row u
      using that(3) by (rule own_update_peer) (use that(1,2) in \<open>auto simp: own_row_fields\<close>)
    then show ?thesis
      using that
      by (auto simp: peer_redeem_def bindS_def execS_def guardR_def own_change_refl split: if_splits sum.splits)
  qed
qed (auto elim!: own_peer_update)

end
