(* ===== verification/ServiceClaims.thy ===== *)
theory ServiceClaims
  imports ServiceProps
begin

text \<open>
  The properties of the HTTP service: who may ask for what, what a request of a user can change,
  what a redemption does to the interface, and what a redeemed key that nobody checks does to
  everybody else.
\<close>

declare split_paired_All [simp del] split_paired_Ex [simp del]

section \<open>Who is served\<close>

text \<open>The request names the server's key, comes from the address of an enabled peer, and asks for
  something the peer may ask for: administration is for redeemed administrators, redemption for
  peers that are not redeemed, and everything else but the capabilities for those that are.\<close>

definition may_request :: "'k server_context \<Rightarrow> http_call \<Rightarrow> pq_db \<Rightarrow> bool" where
  "may_request C call db \<longleftrightarrow>
     (\<exists>key i r. hc_key call = Some (Some key) \<and> key_from_base64 (net_of C) key = Some (cx_server_key C) \<and>
        List.find (\<lambda>(i, r). pr_ip r = hc_remote call) (db_peers db) = Some (i, r) \<and> \<not> pr_is_disabled r \<and>
        (case path_components (hc_path call) of
           v # area # c # rest \<Rightarrow> v = ''v1'' \<and>
             (area = ''admin'' \<and> pr_is_admin r \<and> pr_is_redeemed r \<or>
              area = ''user'' \<and> (if c = ''redeem'' then \<not> pr_is_redeemed r else c = ''capabilities'' \<or> pr_is_redeemed r))
         | _ \<Rightarrow> False))"

lemma get_session_peer:
  assumes "get_session C call db = Inr session"
  obtains key i r where "hc_key call = Some (Some key)" "key_from_base64 (net_of C) key = Some (cx_server_key C)"
    "List.find (\<lambda>(i, r). pr_ip r = hc_remote call) (db_peers db) = Some (i, r)" "\<not> pr_is_disabled r"
    "ss_peer_id session = i" "peer_from_row (net_of C) r = Inr (ss_peer session)"
    "user_capable session = pr_is_redeemed r" "admin_capable session = (pr_is_admin r \<and> pr_is_redeemed r)"
    "redeemable session = (\<not> pr_is_redeemed r)" "ss_service session = cx_pq C"
proof -
  obtain key i r p where *: "hc_key call = Some (Some key)" "key_from_base64 (net_of C) key = Some (cx_server_key C)"
      "List.find (\<lambda>(i, r). pr_ip r = hc_remote call) (db_peers db) = Some (i, r)"
      "peer_from_row (net_of C) r = Inr p" "\<not> pe_is_disabled p"
      "session = \<lparr>ss_peer_id = i, ss_peer = p, ss_service = cx_pq C\<rparr>"
    using assms
    by (auto simp: get_session_def peer_get_from_ip_def bindR_Inr_iff split: if_splits sum.splits prod.splits)
  with peer_from_row_fields [OF *(4)] show ?thesis
    by (intro that [of key i r]) (auto simp: user_capable_def admin_capable_def redeemable_def)
qed

lemma refused_first:
  "bindS (pureW (guardR False e)) k w = (Inl (Failed e), w)" "bindS (pureW (Inl e)) k w = (Inl (Failed e), w)"
  "bindS (pureW (Inr x)) k' w = k' x w"
  by (simp_all add: bindS_def pureW_def map_err_def)

lemma refused_front:
  assumes "\<not> user_capable session"
  shows "bindS (at_front (register_handler F monotonic epoch req session)) k w = (Inl (Failed SUnauthorized), w)"
    "bindS (at_front (handshake_handler F monotonic epoch req session other)) k' w =
      (Inl (Failed (if number_deserialize other = None then SInvalidQuery else SUnauthorized)), w)"
    "bindS (at_front (state_handler F epoch req session)) k'' w = (Inl (Failed SUnauthorized), w)"
  using assms
  by (cases "number_deserialize other";
      simp add: at_front_def register_handler_def handshake_handler_def state_handler_def session_service_def
        bindS_def map_err_def)+

text \<open>A request that is not allowed changes nothing.\<close>

lemma user_refused:
  assumes "case rest of [] \<Rightarrow> True | c # rest' \<Rightarrow>
      \<not> (if c = ''redeem'' then redeemable session else c = ''capabilities'' \<or> user_capable session)"
  shows "\<exists>e. user_routes C ck call rest session w = (Inl (Failed e), w)"
proof (cases rest)
  case (Cons c rest')
  with assms consider "c = ''redeem''" "\<not> redeemable session"
    | "c \<noteq> ''redeem''" "c \<noteq> ''capabilities''" "\<not> user_capable session"
    by (auto split: if_splits)
  then show ?thesis
  proof cases
    case 1
    then show ?thesis by (simp add: Cons user_routes_def with_form_def refused_first)
  next
    case 2
    note no = refused_front [OF 2(3)]
    show ?thesis
      using 2 by (cases "rest' = []") (simp_all add: Cons user_routes_def with_form_def no refused_first)
  qed
qed (simp add: user_routes_def)

lemma routes_refused:
  fixes C :: "'k server_context"
  assumes "\<not> may_request C call (fr_db (wb_front w))"
  shows "\<exists>e. routes C ck call (path_components (hc_path call)) (w :: 'k web) = (Inl (Failed e), w)"
proof (cases "get_session C call (fr_db (wb_front w))")
  case (Inl e)
  then show ?thesis
    by (auto simp: routes_def bindS_def at_db_def at_front_def on_db_def askS_def map_err_def)
next
  case (Inr session)
  then obtain key i r where peer: "hc_key call = Some (Some key)" "key_from_base64 (net_of C) key = Some (cx_server_key C)"
      "List.find (\<lambda>(i, r). pr_ip r = hc_remote call) (db_peers (fr_db (wb_front w))) = Some (i, r)" "\<not> pr_is_disabled r"
    and can: "user_capable session = pr_is_redeemed r" "admin_capable session = (pr_is_admin r \<and> pr_is_redeemed r)"
      "redeemable session = (\<not> pr_is_redeemed r)"
    by (rule get_session_peer) blast
  have run: "bindS (at_db (askS (get_session C call))) k w = k session w" for k :: "session \<Rightarrow> ('k, web_answer) webS"
    using Inr by (simp add: bindS_def at_db_def at_front_def on_db_def askS_def map_err_def)
  show ?thesis
  proof (cases "path_components (hc_path call)")
    case (Cons v comps)
    show ?thesis
    proof (cases comps)
      case area: (Cons area rest)
      consider "area = ''user''" "v = ''v1''" | "area = ''admin''" "v = ''v1''" | "area \<noteq> ''user''" "area \<noteq> ''admin''" "v = ''v1''" | "v \<noteq> ''v1''"
        by blast
      then show ?thesis
      proof cases
        case 1
        with assms peer Cons area can have "case rest of [] \<Rightarrow> True | c # rest' \<Rightarrow>
            \<not> (if c = ''redeem'' then redeemable session else c = ''capabilities'' \<or> user_capable session)"
          by (auto simp: may_request_def split: list.split)
        from user_refused [OF this] 1 Cons area show ?thesis by (simp add: routes_def run)
      next
        case 2
        have "\<exists>e. admin_routes C call rest session w = (Inl (Failed e), w)"
        proof (cases "admin_capable session")
          case True
          with 2 assms peer Cons area can have "rest = []"
            by (cases rest) (auto simp: may_request_def)
          with True show ?thesis by (simp add: admin_routes_def pureW_def bindS_def map_err_def)
        qed (simp add: admin_routes_def refused_first)
        with 2 Cons area show ?thesis by (simp add: routes_def run)
      qed (auto simp: routes_def run Cons area)
    qed (auto simp: routes_def run Cons)
  qed (simp add: routes_def)
qed

lemma error_response_status: "400 \<le> fst (error_response e)"
  by (cases e rule: status_code.cases) (simp_all add: error_response_def)

section \<open>What a user leaves alone\<close>

text \<open>Requests of users do not reach the interface, and ask for no redemption but their own.\<close>

definition tasks_of :: "int \<Rightarrow> 'k web \<Rightarrow> 'k web \<Rightarrow> bool" where
  "tasks_of i v w \<longleftrightarrow> wb_kernel w = wb_kernel v \<and>
     (\<exists>ts. wb_tasks w = wb_tasks v @ ts \<and> (\<forall>t \<in> set ts. fst (rt_peer t) = i))"

lemma tasks_of_order [simp]: "reflp (tasks_of i)" "transp (tasks_of i)"
  by (auto simp: reflp_def tasks_of_def intro!: transpI)

lemma tasks_of_basic:
  "keeps (tasks_of i) (at_front m)" "keeps (tasks_of i) (at_db q)" "keeps (tasks_of i) (pureW r)"
  "keeps (tasks_of i) (failS e :: ('k, web_answer) webS)" "keeps (tasks_of i) (retS x :: ('k, web_answer) webS)"
  by (auto simp: keeps_def tasks_of_def at_front_def at_db_def pureW_def split: prod.splits)

lemmas tasks_intros = keeps_bind [OF tasks_of_order] tasks_of_basic

lemma tasks_redeem:
  assumes "ss_peer_id session = i"
  shows "keeps (tasks_of i) (user_redeem C ck pubkey session)"
  unfolding user_redeem_def
  by (intro tasks_intros keeps_modS) (simp add: tasks_of_def assms)

lemma tasks_user:
  assumes "ss_peer_id session = i"
  shows "keeps (tasks_of i) (user_routes C ck call components session)"
  unfolding user_routes_def with_form_def user_state_def user_capabilities_def user_candidates_def user_endpoint_def
  using assms by (auto split: list.split intro!: tasks_intros tasks_redeem)

lemma user_run:
  fixes C :: "'k server_context"
  assumes "path_components (hc_path call) = ''v1'' # ''user'' # rest"
    and "get_session C call (fr_db (wb_front w)) = Inr session"
    and "hyper_service C ck call w = (answer, v)"
  shows "\<exists>r. user_routes C ck call rest session w = (r, v) \<and> ((\<exists>a. answer = Some a \<and> fst a < 400) \<longrightarrow> is_ok r)"
proof -
  have "bindS (at_db (askS (get_session C call))) k w = k session w" for k :: "session \<Rightarrow> ('k, web_answer) webS"
    using assms(2) by (simp add: bindS_def at_db_def at_front_def on_db_def askS_def map_err_def)
  then have "routes C ck call (path_components (hc_path call)) w = user_routes C ck call rest session w"
    by (simp add: routes_def assms(1))
  then show ?thesis
    using assms(3) error_response_status
    by (fastforce simp: hyper_service_def not_le [symmetric] split: prod.splits sum.splits web_error.splits)
qed

section \<open>Properties\<close>

text \<open>C13. A request that changes anything, or is answered with success, names the server's key, comes from
the address of an enabled peer and asks for what that peer may ask for: only redeemed
administrators administer, only peers that are not yet redeemed redeem, and a peer that is not
redeemed can do nothing else but ask for the capabilities.\<close>

theorem changes_are_authorised:
  assumes "hyper_service C ck call w = (answer, v)" "v \<noteq> w \<or> (\<exists>a. answer = Some a \<and> fst a < 400)"
  shows "may_request C call (fr_db (wb_front w))"
proof (rule ccontr)
  assume "\<not> ?thesis"
  then obtain e where "routes C ck call (path_components (hc_path call)) w = (Inl (Failed e), w)"
    using routes_refused by blast
  with assms error_response_status [of e] show False by (auto simp: hyper_service_def)
qed

text \<open>C14. Whatever a user asks for and however it ends, nothing changes but what is the user's own: in the
database only the own row, without its name, address, network, role or expiry and, once redeemed,
without its key; the own bundle, new identifiers of which are recorded for the user; and the
exchanges. The interface is not touched, except that a redemption replaces the user's own entry later.\<close>

theorem users_change_only_themselves:
  assumes "path_components (hc_path call) = ''v1'' # ''user'' # rest"
    and "get_session C call (fr_db (wb_front w)) = Inr session"
    and "hyper_service C ck call w = (answer, v)"
  shows "own_change (ss_peer_id session) (fr_db (wb_front w)) (fr_db (wb_front v)) \<and> wb_kernel v = wb_kernel w \<and>
    (\<exists>ts. wb_tasks v = wb_tasks w @ ts \<and> (\<forall>t \<in> set ts. fst (rt_peer t) = ss_peer_id session))"
proof -
  obtain r where run: "user_routes C ck call rest session w = (r, v)" using user_run [OF assms] by blast
  have "dbR (own_change (ss_peer_id session)) w v"
    by (rule keepsD [OF owned.user_requests [OF refl] run])
  moreover have "tasks_of (ss_peer_id session) w v"
    by (rule keepsD [OF tasks_user [OF refl] run])
  ultimately show ?thesis by (simp add: dbR_def tasks_of_def)
qed

section \<open>The whole process\<close>

text \<open>Requests, redemptions that are completed, and the two background tasks that write to the
  database: the sweep of the mailbox and the one of expired invitations.\<close>

inductive web_step :: "'k server_context \<Rightarrow> 'k web \<Rightarrow> 'k web \<Rightarrow> bool" for C where
  serve_call: "hyper_service C ck call w = (answer, v) \<Longrightarrow> web_step C w v"
| finish_redemption: "wb_tasks w = ts @ t # us \<Longrightarrow> web_step C w (run_task C t (w\<lparr>wb_tasks := ts @ us\<rparr>))"
| sweep_mailbox: "at_db (sweep (mail_of C) epoch) w = (r1, v) \<Longrightarrow> web_step C w v"
| sweep_invites: "at_db (delete_expired_invites now) w = (r2, v) \<Longrightarrow> web_step C w v"

lemma run_task_front [simp]: "wb_front (run_task C t w) = wb_front w"
  by (simp add: run_task_def apply_kernel_def split: option.split prod.split)

lemma hyper_service_run: "hyper_service C ck call w = (answer, v) \<Longrightarrow>
    \<exists>r. routes C ck call (path_components (hc_path call)) w = (r, v)"
  by (auto simp: hyper_service_def split: prod.splits sum.splits web_error.splits)

lemma web_step_evolves: "web_step C w v \<Longrightarrow> dbR evolves w v"
proof (induction rule: web_step.induct)
  case (serve_call ck call w answer v)
  from hyper_service_run [OF this] keepsD [OF evolving.all_requests] show ?case by blast
next
  case (finish_redemption w ts t us)
  then show ?case using evolves_refl by (simp add: dbR_def reflpD)
next
  case (sweep_mailbox epoch w r v)
  then show ?case by (rule keepsD [OF keeps_at_db [OF evolves_sweep_op]])
next
  case (sweep_invites now w r v)
  then show ?case by (rule keepsD [OF keeps_at_db [OF evolves_expired]])
qed

text \<open>C15. Whatever a running server is asked, by whom, and however each request ends, panics included, its
tables keep their invariant: every exchange is one of the bundles its two peers now publish, and
neither an identifier of a peer nor one of a bundle is handed out again.\<close>

theorem serving_keeps_tables:
  assumes "(web_step C)\<^sup>*\<^sup>* w v" "server_ok (fr_db (wb_front w))"
  shows "server_ok (fr_db (wb_front v)) \<and> grows (fr_db (wb_front w)) (fr_db (wb_front v))"
proof -
  have "dbR evolves w v"
    using assms(1)
  proof (induction rule: rtranclp_induct)
    case base
    then show ?case using dbR_order(1) [OF evolves_refl] by (rule reflpD)
  next
    case (step u v)
    with web_step_evolves show ?case using transpD [OF dbR_order(2) [OF evolves_trans]] by blast
  qed
  with assms(2) show ?thesis by (simp add: dbR_def evolves_def)
qed

section \<open>Redemption and the interface\<close>

lemma builder_of_peer_fields:
  assumes "builder_of_peer D (i, p) = Some b" "\<not> pe_is_disabled p"
  shows "key_of_text D (pe_public_key p) = Some (pb_public_key b)" "pb_allowed_ips b = [peer_allowed_ip p]"
    "pb_replace_allowed_ips b" "\<not> pb_remove_me b" "pb_preshared_key b = None"
  using assms
  by (auto simp: builder_of_peer_def peer_diff_new_def peer_config_builder_def diff_allowed_ips_def diff_keepalive_def
      diff_endpoint_def builder_defs bindR_def Let_def split: option.splits sum.splits if_splits)

lemma builder_of_peer_None: "builder_of_peer D (i, p) = None \<longleftrightarrow> key_of_text D (pe_public_key p) = None"
  by (auto simp: builder_of_peer_def peer_diff_new_def peer_config_builder_def diff_allowed_ips_def diff_keepalive_def
      diff_endpoint_def bindR_def Let_def split: option.splits sum.splits if_splits prod.splits)

lemma protected_builder_fields:
  "pb_public_key (protected_builder C i b) = pb_public_key b" "pb_allowed_ips (protected_builder C i b) = pb_allowed_ips b"
  "pb_replace_allowed_ips (protected_builder C i b) = pb_replace_allowed_ips b"
  "pb_remove_me (protected_builder C i b) = pb_remove_me b"
  "pb_preshared_key b = None \<Longrightarrow>
     pb_preshared_key (protected_builder C i b) = Option.bind (cx_management C) (\<lambda>psks. psks i)"
  by (auto simp: protected_builder_def set_preshared_key_def split: option.split)

lemma redeemed_entry:
  assumes "kernel_law (cx_kernel C) (cx_iface C) st" "sizes_law (cx_sizes C)"
    and "\<And>bs k. \<exists>k'. apply_update (cx_sizes C) (cx_kernel C) (add_peers bs update_new) (cx_iface C) k = (Inr (), k')"
    and "rt_peer t = (i, p)" "\<not> pe_is_disabled p" "key_of_text (cx_diff C) (pe_public_key p) = Some key"
    and "key \<noteq> rt_old_key t" "lookup key (st (wb_kernel w)) = None"
  shows "\<exists>info. lookup key (st (wb_kernel (run_task C t w))) = Some info \<and>
      pc_allowed_ips (pi_config info) = [peer_allowed_ip p] \<and>
      pc_preshared_key (pi_config info) = Option.bind (cx_management C) (\<lambda>psks. psks i) \<and>
      lookup (rt_old_key t) (st (wb_kernel (run_task C t w))) = None \<and>
      (\<forall>k x. k \<noteq> key \<longrightarrow> k \<noteq> rt_old_key t \<longrightarrow> x \<noteq> peer_allowed_ip p \<longrightarrow>
         rel_option (kept x) (lookup k (st (wb_kernel w))) (lookup k (st (wb_kernel (run_task C t w)))))"
proof -
  obtain b where b: "builder_of_peer (cx_diff C) (i, p) = Some b"
    using builder_of_peer_None assms(6) by (metis not_None_eq)
  note f = builder_of_peer_fields [OF b assms(5)]
  define b1 where "b1 = builder_remove (builder_new (rt_old_key t))"
  define b2 where "b2 = protected_builder C i b"
  have new: "pb_public_key b2 = key" "pb_allowed_ips b2 = [peer_allowed_ip p]" "pb_replace_allowed_ips b2" "\<not> pb_remove_me b2"
    "pb_preshared_key b2 = Option.bind (cx_management C) (\<lambda>psks. psks i)"
    using f assms(6) by (simp_all add: b2_def protected_builder_fields)
  have old: "pb_public_key b1 = rt_old_key t" "pb_remove_me b1" "pb_allowed_ips b1 = []"
    by (simp_all add: b1_def builder_defs)
  obtain k' where run: "apply_update (cx_sizes C) (cx_kernel C) (add_peer b2 (add_peer b1 update_new)) (cx_iface C)
      (wb_kernel w) = (Inr (), k')"
    using assms(3) [of "[b1, b2]"] by (auto simp: add_peers_def add_peer_def)
  have after: "st (wb_kernel (run_task C t w)) = effect [b1, b2] (st (wb_kernel w))"
    using applied [OF assms(1,2) run] run
    by (simp add: run_task_def assms(4) b apply_kernel_def b1_def b2_def effect_def update_items_def add_peer_def update_new_def)
  have "lookup key (effect [b1, b2] (st (wb_kernel w)))
      = Some ((fresh_info key)\<lparr>pi_config := built b2 (pi_config (fresh_info key))\<rparr>)"
    by (simp add: lookup_set_peer new old assms(7,8) Let_def)
  moreover have "pc_allowed_ips (built b2 c) = [peer_allowed_ip p]" for c
    by (simp add: built_def new)
  moreover have "pc_preshared_key (built b2 (pi_config (fresh_info key))) = Option.bind (cx_management C) (\<lambda>psks. psks i)"
    by (simp add: built_def new fresh_info_def split: option.split)
  moreover have "lookup (rt_old_key t) (effect [b1, b2] (st (wb_kernel w))) = None"
    using assms(7) by (simp add: lookup_set_peer new old)
  moreover have "rel_option (kept x) (lookup k (st (wb_kernel w))) (lookup k (effect [b1, b2] (st (wb_kernel w))))"
    if "k \<noteq> key" "k \<noteq> rt_old_key t" "x \<noteq> peer_allowed_ip p" for k x
    using that by (intro effect_others) (auto simp: new old)
  ultimately show ?thesis by (simp add: after)
qed

text \<open>C16. The update that follows a redemption takes the invitation's key off the interface and puts the
peer's own key on it, with the peer's one address, and with the management secret that the server
loaded for this peer when it started, if it loaded one; what other peers have is kept.\<close>

theorem redemption_replaces_key:
  assumes "kernel_law (cx_kernel C) (cx_iface C) st" "sizes_law (cx_sizes C)"
    and "\<And>bs k. \<exists>k'. apply_update (cx_sizes C) (cx_kernel C) (add_peers bs update_new) (cx_iface C) k = (Inr (), k')"
    and "rt_peer t = (i, p)" "\<not> pe_is_disabled p" "key_of_text (cx_diff C) (pe_public_key p) = Some key"
    and "key \<noteq> rt_old_key t" "lookup key (st (wb_kernel w)) = None"
  shows "\<exists>info. lookup key (st (wb_kernel (run_task C t w))) = Some info \<and>
      pc_allowed_ips (pi_config info) = [peer_allowed_ip p] \<and>
      pc_preshared_key (pi_config info) = Option.bind (cx_management C) (\<lambda>psks. psks i) \<and>
      lookup (rt_old_key t) (st (wb_kernel (run_task C t w))) = None \<and>
      (\<forall>k x. k \<noteq> key \<longrightarrow> k \<noteq> rt_old_key t \<longrightarrow> x \<noteq> peer_allowed_ip p \<longrightarrow>
         rel_option (kept x) (lookup k (st (wb_kernel w))) (lookup k (st (wb_kernel (run_task C t w)))))"
  using assms by (rule redeemed_entry)

section \<open>A key that nobody checks\<close>

lemma filter_mapR_error: "x \<in> set xs \<Longrightarrow> f x = Inl e \<Longrightarrow> \<exists>e'. filter_mapR f xs = Inl e'"
proof (induction xs)
  case (Cons y ys)
  then show ?case by (cases "f y") auto
qed simp

text \<open>The text is no key, so no entry of an interface is written like it.\<close>

lemma unreadable_diff:
  assumes "base64_law (dl_base64 D)" "\<forall>c \<in> set (dv_peers dev). length (peer_key c) = 32"
    and "pred_option (\<lambda>k. length k = 32) (dv_public_key dev)"
    and "(i, p) \<in> set peers" "\<not> pe_is_disabled p" "key_of_text D (pe_public_key p) = None" "pe_public_key p \<noteq> []"
  shows "\<exists>e. device_diff D dev peers = Inl e"
proof -
  have written: "to_base64 D k \<noteq> pe_public_key p" if "length k = 32" for k
  proof
    assume same: "to_base64 D k = pe_public_key p"
    have "b64_decode (dl_base64 D) (pe_public_key p) = Some k"
      using assms(1) by (simp add: same [symmetric] to_base64_def base64_law_def)
    with assms(6) that show False by (simp add: key_of_text_def)
  qed
  have "List.find (\<lambda>c. to_base64 D (pc_public_key (pi_config c)) = pe_public_key p) (dv_peers dev) = None"
    using assms(2) written by (auto simp: find_None_iff peer_key_def)
  moreover have "pe_public_key p \<noteq> (case dv_public_key dev of None \<Rightarrow> [] | Some k \<Rightarrow> to_base64 D k)"
    using assms(3,7) written [of "the (dv_public_key dev)"] by (cases "dv_public_key dev") auto
  ultimately have "diff_listed D dev (i, p) = Inl BadKey"
    using assms(5,6) by (simp add: diff_listed_def peer_diff_new_def peer_config_builder_def)
  with filter_mapR_error [OF assms(4)] show ?thesis by (fastforce simp: device_diff_def)
qed

lemma at_db_Inr: "at_db m w = (Inr x, v) \<longleftrightarrow>
    (\<exists>t. m (fr_db (wb_front w)) = (Inr x, t) \<and> v = w\<lparr>wb_front := (wb_front w)\<lparr>fr_db := t\<rparr>\<rparr>)"
  by (auto simp: at_db_run eq_commute [of "Inr x" "map_err _ _"])

lemma pureW_Inr: "pureW r w = (Inr x, v) \<longleftrightarrow> r = Inr x \<and> v = w"
  by (auto simp: pureW_def map_err_def split: sum.splits)

lemma redeem_run:
  assumes "hc_method call = ''POST''" "form_body (fo_redeem (cx_forms C)) (hc_request call) = Inr key"
    and "user_routes C ck call [''redeem''] session w = (Inr a, v)" "i = ss_peer_id session"
  obtains p t old where "peer_get (net_of C) i (fr_db (wb_front w)) = Inr p"
    "peer_redeem (ck_now ck) i p key (fr_db (wb_front w)) = (Inr (p\<lparr>pe_public_key := key, pe_is_redeemed := True\<rparr>), t)"
    "fr_db (wb_front v) = t"
    "wb_tasks v = wb_tasks w @ [\<lparr>rt_old_key = old, rt_peer = (i, p\<lparr>pe_public_key := key, pe_is_redeemed := True\<rparr>)\<rparr>]"
proof -
  have "user_redeem C ck key session w = (Inr a, v)"
    using assms by (cases "redeemable session") (simp_all add: user_routes_def with_form_def refused_first)
  then obtain p old q t where step: "peer_get (net_of C) i (fr_db (wb_front w)) = Inr p"
      "peer_redeem (ck_now ck) i p key (fr_db (wb_front w)) = (Inr q, t)" "fr_db (wb_front v) = t"
      "wb_tasks v = wb_tasks w @ [\<lparr>rt_old_key = old, rt_peer = (i, q)\<rparr>]"
    using assms(4)
    by (auto simp: user_redeem_def bindS_Inr_iff at_db_Inr pureW_Inr)
  moreover have "q = p\<lparr>pe_public_key := key, pe_is_redeemed := True\<rparr>"
    using step(2) by (auto simp: peer_redeem_def bindS_Inr_iff split: if_splits)
  ultimately show ?thesis using that by blast
qed

lemma redeemed_row:
  assumes "peer_redeem now i p key s = (Inr q, t)" "peer_get L i s = Inr p" "\<not> pe_is_disabled p"
  shows "\<exists>r. bt_get i (db_peers t) = Some r \<and> pr_public_key r = key \<and> pr_is_redeemed r \<and> \<not> pr_is_disabled r"
proof -
  obtain row where row: "bt_get i (db_peers s) = Some row" "peer_from_row L row = Inr p"
    using assms(2) by (auto simp: peer_get_def bindR_Inr_iff)
  have "update_peer i (\<lambda>r. r\<lparr>pr_is_redeemed := True, pr_public_key := key\<rparr>) s = Inr t"
    using assms(1) by (auto simp: peer_redeem_def bindS_Inr_iff split: if_splits)
  with row peer_from_row_fields [OF row(2)] assms(3) show ?thesis
    by (auto simp: update_peer_def bump_run split: if_splits)
qed

lemma peer_rows_all: "peer_rows L rows = Inr ps \<Longrightarrow> (i, r) \<in> set rows \<Longrightarrow> \<exists>p. peer_from_row L r = Inr p"
  unfolding peer_rows_def
  by (induction rows arbitrary: ps) (auto simp: bindR_Inr_iff)

lemma inject_endpoint_key [simp]:
  "pe_public_key (inject_endpoint endpoints p) = pe_public_key p" "pe_is_disabled (inject_endpoint endpoints p) = pe_is_disabled p"
  by (auto simp: inject_endpoint_def Let_def split: option.split)

lemma listed_row:
  assumes "get_all_allowed_peers L viewer db = Inr peers" "bt_get i (db_peers db) = Some r"
    and "pr_cidr_id r \<in> set (associated_subcidrs db (pe_cidr_id viewer))" "\<not> pr_is_disabled r" "pr_is_redeemed r"
  shows "\<exists>p. (i, p) \<in> set peers \<and> pe_public_key p = pr_public_key r \<and> \<not> pe_is_disabled p"
proof -
  let ?rows = "filter (\<lambda>(i, r). pr_cidr_id r \<in> set (associated_subcidrs db (pe_cidr_id viewer)) \<and>
        \<not> pr_is_disabled r \<and> pr_is_redeemed r) (db_peers db)"
  have rows: "peer_rows L ?rows = Inr peers" using assms(1) by (simp add: get_all_allowed_peers_def)
  have mem: "(i, r) \<in> set ?rows"
    using map_of_SomeD [of "db_peers db" i r] assms(2-5) by (simp add: bt_get_def)
  with peer_rows_all [OF rows] obtain p where p: "peer_from_row L r = Inr p" by blast
  with peer_rows_mem [OF rows] mem have "(i, p) \<in> set peers" by blast
  moreover have "pe_public_key p = pr_public_key r \<and> \<not> pe_is_disabled p"
    using p assms(4) by (auto simp: peer_from_row_def bindR_Inr_iff)
  ultimately show ?thesis by blast
qed

text \<open>A redemption that nothing in the tables stands against.\<close>

lemma redeem_succeeds:
  assumes "hc_method call = ''POST''" "path_components (hc_path call) = [''v1'', ''user'', ''redeem'']"
    and "get_session C call (fr_db (wb_front w)) = Inr session"
    and "form_body (fo_redeem (cx_forms C)) (hc_request call) = Inr key"
    and "bt_wf (db_peers (fr_db (wb_front w)))" "redeemable session"
    and "key_from_base64 (net_of C) (pe_public_key (ss_peer session)) = Some old_key"
    and "\<forall>t \<in> set_option (pe_invite_expires (ss_peer session)). ck_now ck \<le> t * 1000000000"
    and "bt_get (ss_peer_id session) (db_peers (fr_db (wb_front w))) = Some row"
    and "peer_fits (fr_db (wb_front w)) (ss_peer_id session) (row\<lparr>pr_is_redeemed := True, pr_public_key := key\<rparr>)"
    and "db_revision (fr_db (wb_front w)) + 1 < i64_bound"
  shows "\<exists>v a. hyper_service C ck call w = (Some (204, None, Some (AnsStatus 204)), v) \<and>
    user_routes C ck call [''redeem''] session w = (Inr a, v)"
proof -
  let ?db = "fr_db (wb_front w)" and ?i = "ss_peer_id session"
  obtain header found where found: "List.find (\<lambda>(i, r). pr_ip r = hc_remote call) (db_peers ?db) = Some (?i, found)"
      "peer_from_row (net_of C) found = Inr (ss_peer session)" "redeemable session = (\<not> pr_is_redeemed found)"
    by (rule get_session_peer [OF assms(3)]) blast
  have "(?i, found) \<in> set (db_peers ?db)"
    using found(1) by (force simp: find_Some_iff in_set_conv_nth)
  then have row: "found = row" using bt_get_mem [OF assms(5)] assms(9) by simp
  then have p: "peer_get (net_of C) ?i ?db = Inr (ss_peer session)" using found(2) assms(9) by (simp add: peer_get_def)
  have "\<not> pe_is_redeemed (ss_peer session)" using assms(6) by (simp add: redeemable_def)
  moreover have "\<not> (\<exists>t \<in> set_option (pe_invite_expires (ss_peer session)). t * 1000000000 < ck_now ck)"
    using assms(8) by (auto simp: not_less)
  moreover have "\<exists>t. update_peer ?i (\<lambda>r. r\<lparr>pr_is_redeemed := True, pr_public_key := key\<rparr>) ?db = Inr t"
    using assms(9-11) by (simp add: update_peer_def bump_def)
  then obtain t where "update_peer ?i (\<lambda>r. r\<lparr>pr_is_redeemed := True, pr_public_key := key\<rparr>) ?db = Inr t" by blast
  ultimately have "peer_redeem (ck_now ck) ?i (ss_peer session) key ?db
      = (Inr ((ss_peer session)\<lparr>pe_public_key := key, pe_is_redeemed := True\<rparr>), t)"
    using found(3) row assms(6,9) by (simp add: peer_redeem_def bindS_def liftS_def getS_def execS_def retS_def)
  then obtain v where run: "user_redeem C ck key session w = (Inr (AnsStatus 204), v)"
    using p assms(7)
    by (simp add: user_redeem_def bindS_def at_db_def at_front_def on_db_def askS_def pureW_def map_err_def modS_def retS_def)
  then have routed: "user_routes C ck call [''redeem''] session w = (Inr (AnsStatus 204), v)"
    using assms(1,4,6) by (simp add: user_routes_def with_form_def refused_first)
  then have "routes C ck call [''v1'', ''user'', ''redeem''] w = (Inr (AnsStatus 204), v)"
    using assms(3) by (simp add: routes_def bindS_def at_db_def at_front_def on_db_def askS_def map_err_def)
  then show ?thesis using routed by (simp add: hyper_service_def assms(2))
qed

text \<open>C17. Whatever text an invited peer redeems itself with becomes its key, if no other peer has it: the
answer is 204 for a text that cannot be read as a key too. Then its update never reaches the
interface, and no client that the peer is visible to can compare its interface with the peers it
is told about.\<close>

theorem unreadable_key_is_redeemed:
  assumes "hc_method call = ''POST''" "path_components (hc_path call) = [''v1'', ''user'', ''redeem'']"
    and "get_session C call (fr_db (wb_front w)) = Inr session"
    and "form_body (fo_redeem (cx_forms C)) (hc_request call) = Inr key"
    and "bt_wf (db_peers (fr_db (wb_front w)))" "redeemable session"
    and "key_from_base64 (net_of C) (pe_public_key (ss_peer session)) = Some old_key"
    and "\<forall>t \<in> set_option (pe_invite_expires (ss_peer session)). ck_now ck \<le> t * 1000000000"
    and "bt_get (ss_peer_id session) (db_peers (fr_db (wb_front w))) = Some row"
    and "peer_fits (fr_db (wb_front w)) (ss_peer_id session) (row\<lparr>pr_is_redeemed := True, pr_public_key := key\<rparr>)"
    and "db_revision (fr_db (wb_front w)) + 1 < i64_bound" "key_of_text (cx_diff C) key = None"
  shows "\<exists>v r t. hyper_service C ck call w = (Some (204, None, Some (AnsStatus 204)), v) \<and>
    bt_get (ss_peer_id session) (db_peers (fr_db (wb_front v))) = Some r \<and> pr_public_key r = key \<and>
    wb_tasks v = wb_tasks w @ [t] \<and> (\<forall>u. run_task C t u = u) \<and>
    (\<forall>viewer peers D dev. get_all_allowed_peers (net_of C) viewer (fr_db (wb_front v)) = Inr peers \<longrightarrow>
       pr_cidr_id r \<in> set (associated_subcidrs (fr_db (wb_front v)) (pe_cidr_id viewer)) \<longrightarrow>
       base64_law (dl_base64 D) \<longrightarrow> key_of_text D key = None \<longrightarrow> key \<noteq> [] \<longrightarrow>
       pred_option (\<lambda>k. length k = 32) (dv_public_key dev) \<longrightarrow> (\<forall>c \<in> set (dv_peers dev). length (peer_key c) = 32) \<longrightarrow>
       (\<exists>e. device_diff D dev (injected C peers) = Inl e))"
proof -
  let ?i = "ss_peer_id session"
  obtain v a where answer: "hyper_service C ck call w = (Some (204, None, Some (AnsStatus 204)), v)"
    and run: "user_routes C ck call [''redeem''] session w = (Inr a, v)"
    using redeem_succeeds [OF assms(1-11)] by blast
  from redeem_run [OF assms(1,4) run refl] obtain p t old where
    p: "peer_get (net_of C) ?i (fr_db (wb_front w)) = Inr p"
    and redeem: "peer_redeem (ck_now ck) ?i p key (fr_db (wb_front w)) = (Inr (p\<lparr>pe_public_key := key, pe_is_redeemed := True\<rparr>), t)"
    and t: "fr_db (wb_front v) = t"
    and tasks: "wb_tasks v = wb_tasks w @ [\<lparr>rt_old_key = old, rt_peer = (?i, p\<lparr>pe_public_key := key, pe_is_redeemed := True\<rparr>)\<rparr>]"
    by blast
  obtain header found where found: "List.find (\<lambda>(i, r). pr_ip r = hc_remote call) (db_peers (fr_db (wb_front w))) = Some (?i, found)"
      "\<not> pr_is_disabled found"
    by (rule get_session_peer [OF assms(3)]) blast
  have "bt_get ?i (db_peers (fr_db (wb_front w))) = Some found"
    using found(1) bt_get_mem [OF assms(5)] by (force simp: find_Some_iff in_set_conv_nth)
  with p found(2) have "\<not> pe_is_disabled p"
    using peer_from_row_fields by (fastforce simp: peer_get_def bindR_Inr_iff)
  from redeemed_row [OF redeem p this] obtain r where
    r: "bt_get ?i (db_peers t) = Some r" "pr_public_key r = key" "pr_is_redeemed r" "\<not> pr_is_disabled r" by blast
  have "\<exists>e. device_diff D dev (injected C peers) = Inl e"
    if listed: "get_all_allowed_peers (net_of C) viewer t = Inr peers"
        "pr_cidr_id r \<in> set (associated_subcidrs t (pe_cidr_id viewer))"
      and D: "base64_law (dl_base64 D)" "key_of_text D key = None" "key \<noteq> []"
      and dev: "pred_option (\<lambda>k. length k = 32) (dv_public_key dev)" "\<forall>c \<in> set (dv_peers dev). length (peer_key c) = 32"
    for viewer peers D dev
  proof -
    from listed_row [OF listed(1) r(1) listed(2) r(4,3)] obtain q where
      q: "(?i, q) \<in> set peers" "pe_public_key q = key" "\<not> pe_is_disabled q" using r(2) by blast
    from q(1) have "(?i, inject_endpoint (fl_endpoints (cx_front C)) q) \<in> set (injected C peers)"
      by (force simp: injected_def)
    from unreadable_diff [OF D(1) dev(2,1) this] D q show ?thesis by simp
  qed
  moreover have "run_task C \<lparr>rt_old_key = old, rt_peer = (?i, p\<lparr>pe_public_key := key, pe_is_redeemed := True\<rparr>)\<rparr> u = u" for u
    using assms(12) builder_of_peer_None [of "cx_diff C" ?i "p\<lparr>pe_public_key := key, pe_is_redeemed := True\<rparr>"]
    by (simp add: run_task_def)
  ultimately show ?thesis using answer r(1,2) tasks t by blast
qed

section \<open>Witnesses\<close>

text \<open>A peer that is invited, at an address of its own.\<close>

definition guest_row :: peer_row where
  "guest_row = (sample_row 3 False)\<lparr>pr_is_redeemed := False\<rparr>"

definition guest_db :: pq_db where
  "guest_db = sample_db\<lparr>db_peers := [(1, sample_row 1 True), (2, sample_row 2 False), (3, guest_row)]\<rparr>"

definition sample_front :: front_lib where
  "sample_front = \<lparr>fl_pages = \<lparr>pl_mail = sample_mail, pl_bundle_len = (\<lambda>_. None), pl_value_len = (\<lambda>_. None)\<rparr>,
     fl_registration = (\<lambda>_. None), fl_message = undefined, fl_query = (\<lambda>_. []), fl_endpoints = (\<lambda>_. None), fl_cursor_key = []\<rparr>"

definition sample_forms :: form_lib where
  "sample_forms = \<lparr>fo_redeem = (\<lambda>_. Some ''!''), fo_endpoint = (\<lambda>_. Some None), fo_candidates = (\<lambda>_. Some []),
     fo_peer = (\<lambda>_. None), fo_cidr = (\<lambda>_. None), fo_association = (\<lambda>_. None)\<rparr>"

definition sample_web_context :: "peer_info list server_context" where
  "sample_web_context = \<lparr>cx_front = sample_front, cx_forms = sample_forms, cx_server_key = replicate 32 1, cx_pq = True,
     cx_management = Some [3 \<mapsto> replicate 32 9], cx_iface = ''wg0'', cx_sizes = sample_sizes, cx_kernel = sample_kernel,
     cx_diff = sample_diff\<rparr>"

definition sample_call :: "string \<Rightarrow> string \<Rightarrow> 32 word \<Rightarrow> http_call" where
  "sample_call verb target ip = \<lparr>hc_method = verb, hc_path = target, hc_key = Some (Some (sample_key 1)),
     hc_remote = IpV4 ip, hc_request = \<lparr>rq_query = None, rq_content_types = [], rq_has_encoding = False,
       rq_content_lengths = [Some ''2''], rq_body = Body []\<rparr>\<rparr>"

definition sample_web :: "pq_db \<Rightarrow> peer_info list web" where
  "sample_web db = \<lparr>wb_front = \<lparr>fr_service = undefined, fr_db = db\<rparr>, wb_kernel = [], wb_tasks = []\<rparr>"

definition sample_clocks :: clocks where
  "sample_clocks = \<lparr>ck_monotonic = 0, ck_epoch = 0, ck_now = 0\<rparr>"

lemma web_samples [simp]:
  "net_of sample_web_context = sample_net" "mail_of sample_web_context = sample_mail"
  "cx_server_key sample_web_context = replicate 32 1" "cx_forms sample_web_context = sample_forms"
  "cx_diff sample_web_context = sample_diff" "cx_pq sample_web_context = True"
  "hc_key (sample_call verb target ip) = Some (Some (sample_key 1))" "hc_remote (sample_call verb target ip) = IpV4 ip"
  "hc_method (sample_call verb target ip) = verb" "hc_path (sample_call verb target ip) = target"
  "fr_db (wb_front (sample_web db)) = db"
  by (simp_all add: net_of_def mail_of_def sample_web_context_def sample_front_def sample_call_def sample_web_def)

lemma sample_form: "form_body parse (hc_request (sample_call verb target ip)) = ok_or (parse []) SJson"
  by (simp add: form_body_def sample_call_def parse_u64_def form_limit_def ascii_digit_def word_le_nat_alt
      bindR_def ok_or_def nat_of_dec_def digit_val_def guardR_def)

lemma sample_session:
  assumes "peer_get_from_ip sample_net (IpV4 ip) db = Inr (i, p)" "\<not> pe_is_disabled p"
  shows "get_session sample_web_context (sample_call verb target ip) db = Inr \<lparr>ss_peer_id = i, ss_peer = p, ss_service = True\<rparr>"
  using assms by (simp add: get_session_def)

definition guest :: peer where
  "guest = \<lparr>pe_name = ''pb'', pe_ip = IpV4 3, pe_cidr_id = 2, pe_public_key = sample_key 3, pe_endpoint = None,
     pe_keepalive = Some 25, pe_is_admin = False, pe_is_disabled = False, pe_is_redeemed = False,
     pe_invite_expires = None, pe_candidates = []\<rparr>"

lemma guest_from_row: "peer_from_row sample_net guest_row = Inr guest"
  by (simp add: peer_from_row_def guest_row_def sample_row_def guest_def hostname_is_valid_def host_char_def
      persistent_keepalive_interval_secs_def)

lemma guest_get: "bt_get 3 (db_peers guest_db) = Some guest_row" "peer_get sample_net 3 guest_db = Inr guest"
  by (simp_all add: peer_get_def guest_db_def bt_get_def guest_from_row)

lemma guest_session: "get_session sample_web_context (sample_call verb target 3) guest_db
    = Inr \<lparr>ss_peer_id = 3, ss_peer = guest, ss_service = True\<rparr>"
proof -
  have "peer_get_from_ip sample_net (IpV4 3) guest_db = Inr (3, guest)"
    by (simp add: peer_get_from_ip_def guest_db_def guest_from_row) (simp add: guest_row_def sample_row_def guest_from_row)
  then show ?thesis by (rule sample_session) (simp add: guest_def)
qed

definition redeemed_db :: "string \<Rightarrow> pq_db" where
  "redeemed_db key = guest_db\<lparr>db_revision := 10,
     db_peers := [(1, sample_row 1 True), (2, sample_row 2 False), (3, guest_row\<lparr>pr_is_redeemed := True, pr_public_key := key\<rparr>)]\<rparr>"

lemma not_sample_key: "sample_key k \<noteq> ''!''"
proof
  assume "sample_key k = ''!''"
  then have "length (sample_key k) = 1" by simp
  then show False using base64_lawD [OF toy_base64_law, of "replicate 32 k"] by (simp add: sample_key_def)
qed

lemma guest_redeems: "peer_redeem 0 3 guest ''!'' guest_db
    = (Inr (guest\<lparr>pe_public_key := ''!'', pe_is_redeemed := True\<rparr>), redeemed_db ''!'')"
proof -
  have "update_peer 3 (\<lambda>r. r\<lparr>pr_is_redeemed := True, pr_public_key := ''!''\<rparr>) guest_db = Inr (redeemed_db ''!'')"
    using not_sample_key
    by (simp add: update_peer_def guest_get peer_fits_def bump_def redeemed_db_def i64_bound_def)
      (simp add: guest_db_def sample_db_def guest_row_def sample_row_def bt_keys_def)
  then show ?thesis
    by (simp add: peer_redeem_def bindS_def execS_def getS_def guest_get(1) guest_def) (simp add: guest_row_def)
qed

lemma redeem_sample: "\<exists>v. hyper_service sample_web_context sample_clocks (sample_call ''POST'' ''/v1/user/redeem'' 3) (sample_web guest_db)
    = (Some (204, None, Some (AnsStatus 204)), v) \<and> fr_db (wb_front v) = redeemed_db ''!'' \<and> wb_tasks v \<noteq> []"
proof -
  have path: "path_components ''/v1/user/redeem'' = [''v1'', ''user'', ''redeem'']"
    by (simp add: path_components_def)
  have self: "redeemable \<lparr>ss_peer_id = 3, ss_peer = guest, ss_service = True\<rparr>" by (simp add: redeemable_def guest_def)
  have key: "key_from_base64 sample_net (pe_public_key guest) = Some (replicate 32 3)" by (simp add: guest_def)
  show ?thesis
    by (simp add: hyper_service_def path routes_def bindS_def at_db_def at_front_def on_db_def askS_def guest_session
        user_routes_def with_form_def self pureW_def sample_form user_redeem_def guest_get key sample_forms_def
        guest_redeems sample_clocks_def modS_def)
qed

theorem changes_are_authorised_witness:
  "may_request sample_web_context (sample_call ''POST'' ''/v1/user/redeem'' 3) guest_db"
proof -
  from redeem_sample obtain v where
    "hyper_service sample_web_context sample_clocks (sample_call ''POST'' ''/v1/user/redeem'' 3) (sample_web guest_db)
      = (Some (204, None, Some (AnsStatus 204)), v)" by blast
  from changes_are_authorised [OF this] show ?thesis by simp
qed

theorem users_change_only_themselves_witness:
  "\<exists>v. snd (hyper_service sample_web_context sample_clocks (sample_call ''POST'' ''/v1/user/redeem'' 3) (sample_web guest_db)) = v \<and>
    own_change 3 guest_db (fr_db (wb_front v)) \<and> bt_get 2 (db_peers (fr_db (wb_front v))) = Some (sample_row 2 False)"
proof -
  from redeem_sample obtain v where
    run: "hyper_service sample_web_context sample_clocks (sample_call ''POST'' ''/v1/user/redeem'' 3) (sample_web guest_db)
      = (Some (204, None, Some (AnsStatus 204)), v)" by blast
  have path: "path_components (hc_path (sample_call ''POST'' ''/v1/user/redeem'' 3)) = [''v1'', ''user'', ''redeem'']"
    by (simp add: path_components_def)
  have "get_session sample_web_context (sample_call ''POST'' ''/v1/user/redeem'' 3) (fr_db (wb_front (sample_web guest_db)))
      = Inr \<lparr>ss_peer_id = 3, ss_peer = guest, ss_service = True\<rparr>" by (simp add: guest_session)
  from users_change_only_themselves [OF path this run] have "own_change 3 guest_db (fr_db (wb_front v))" by simp
  moreover from this have "bt_get 2 (db_peers (fr_db (wb_front v))) = Some (sample_row 2 False)"
    by (simp add: own_change_def guest_db_def bt_get_def)
  ultimately show ?thesis using run by simp
qed

lemma guest_ok: "server_ok guest_db"
  using sample_ok by (auto simp: server_ok_def guest_db_def mailbox_ok_def sample_db_def bt_wf_def bt_get_def exchange_keys_def
      key_current_def bundle_id_of_def split: if_splits)

theorem serving_keeps_tables_witness:
  "\<exists>v. (web_step sample_web_context)\<^sup>*\<^sup>* (sample_web guest_db) v \<and> wb_tasks v \<noteq> [] \<and> server_ok (fr_db (wb_front v))"
proof -
  from redeem_sample obtain v where
    run: "hyper_service sample_web_context sample_clocks (sample_call ''POST'' ''/v1/user/redeem'' 3) (sample_web guest_db)
      = (Some (204, None, Some (AnsStatus 204)), v)" and tasks: "wb_tasks v \<noteq> []" by blast
  from serve_call [OF run] have step: "(web_step sample_web_context)\<^sup>*\<^sup>* (sample_web guest_db) v" by blast
  with serving_keeps_tables [OF step] guest_ok have "server_ok (fr_db (wb_front v))" by simp
  with tasks step show ?thesis by blast
qed

text \<open>The server loaded a secret for peer 3, whose invitation had the key of sixteen times 3.\<close>

theorem redemption_replaces_key_witness:
  "\<exists>info. lookup (replicate 32 2) (wb_kernel (run_task sample_web_context
       \<lparr>rt_old_key = replicate 32 3, rt_peer = (3, sample_listed 7 2)\<rparr> ((sample_web guest_db)\<lparr>wb_kernel := [fresh_info (replicate 32 3)]\<rparr>)))
      = Some info \<and> pc_preshared_key (pi_config info) = Some (replicate 32 9)"
proof -
  let ?t = "\<lparr>rt_old_key = replicate 32 3, rt_peer = (3 :: int, sample_listed 7 2)\<rparr>"
  let ?w = "(sample_web guest_db)\<lparr>wb_kernel := [fresh_info (replicate 32 3)]\<rparr>"
  have parts: "cx_sizes sample_web_context = sample_sizes" "cx_kernel sample_web_context = sample_kernel"
    "cx_iface sample_web_context = ''wg0''" "cx_management sample_web_context = Some [3 \<mapsto> replicate 32 9]"
    by (simp_all add: sample_web_context_def)
  have key: "key_of_text (cx_diff sample_web_context) (pe_public_key (sample_listed 7 2)) = Some (replicate 32 2)"
    using toy_base64_law by (simp add: key_of_text_def sample_diff_def sample_key_def sample_listed_def base64_law_def)
  have "lookup (replicate 32 2) (wb_kernel ?w) = None" "\<not> pe_is_disabled (sample_listed 7 2)"
    "replicate 32 2 \<noteq> rt_old_key ?t"
    by (simp_all add: lookup_None sample_listed_def)
  with redemption_replaces_key [of sample_web_context "\<lambda>ps. ps" ?t 3 "sample_listed 7 2" "replicate 32 2" ?w] key
  show ?thesis by (simp add: parts sample_kernel_law sample_sizes_law sample_applies) blast
qed

theorem unreadable_key_is_redeemed_witness:
  "\<exists>v peers e. hyper_service sample_web_context sample_clocks (sample_call ''POST'' ''/v1/user/redeem'' 3) (sample_web guest_db)
       = (Some (204, None, Some (AnsStatus 204)), v) \<and>
     get_all_allowed_peers sample_net guest (fr_db (wb_front v)) = Inr peers \<and>
     device_diff sample_diff sample_device (injected sample_web_context peers) = Inl e"
proof -
  let ?call = "sample_call ''POST'' ''/v1/user/redeem'' 3"
  from redeem_sample obtain v where
    run: "hyper_service sample_web_context sample_clocks ?call (sample_web guest_db)
      = (Some (204, None, Some (AnsStatus 204)), v)" and db: "fr_db (wb_front v) = redeemed_db ''!''" by blast
  have path: "path_components (hc_path ?call) = [''v1'', ''user'', ''redeem'']" by (simp add: path_components_def)
  have session: "get_session sample_web_context ?call (fr_db (wb_front (sample_web guest_db)))
      = Inr \<lparr>ss_peer_id = 3, ss_peer = guest, ss_service = True\<rparr>" by (simp add: guest_session)
  have form: "form_body (fo_redeem (cx_forms sample_web_context)) (hc_request ?call) = Inr ''!''"
    by (simp add: sample_form sample_forms_def)
  have wf: "bt_wf (db_peers (fr_db (wb_front (sample_web guest_db))))" using guest_ok by (simp add: server_ok_def)
  have none: "key_of_text sample_diff ''!'' = None" by (simp add: key_of_text_def sample_diff_def toy_base64_def)
  have row: "bt_get 3 (db_peers (fr_db (wb_front (sample_web guest_db)))) = Some guest_row" using guest_get by simp
  have free: "peer_fits guest_db 3 (guest_row\<lparr>pr_is_redeemed := True, pr_public_key := ''!''\<rparr>)"
    using not_sample_key
    by (simp add: peer_fits_def) (simp add: guest_db_def sample_db_def guest_row_def sample_row_def bt_keys_def)
  have "redeemable \<lparr>ss_peer_id = 3, ss_peer = guest, ss_service = True\<rparr>" "key_from_base64 sample_net (pe_public_key guest) = Some (replicate 32 3)"
    "pe_invite_expires guest = None" "db_revision guest_db + 1 < i64_bound"
    by (simp_all add: redeemable_def guest_def guest_db_def sample_db_def i64_bound_def)
  note claim = unreadable_key_is_redeemed [OF _ path session form wf this(1), where ck = sample_clocks, simplified, OF this(2) _ guest_get(1) free this(4)]
  have seen: "associated_subcidrs (redeemed_db ''!'') 2 = associated_subcidrs sample_db 2"
    by (simp add: associated_subcidrs_def redeemed_db_def guest_db_def)
  let ?rows = "[(1, sample_row 1 True), (2, sample_row 2 False), (3, guest_row\<lparr>pr_is_redeemed := True, pr_public_key := ''!''\<rparr>)]"
  have "filter (\<lambda>(i, r). pr_cidr_id r \<in> set (associated_subcidrs (redeemed_db ''!'') (pe_cidr_id guest)) \<and>
        \<not> pr_is_disabled r \<and> pr_is_redeemed r) (db_peers (redeemed_db ''!'')) = ?rows"
    using sample_sub seen by (simp add: redeemed_db_def sample_row_def guest_row_def guest_def)
  moreover have "\<exists>p. peer_from_row sample_net (guest_row\<lparr>pr_is_redeemed := True, pr_public_key := ''!''\<rparr>) = Inr p"
    by (simp add: peer_from_row_def guest_row_def sample_row_def hostname_is_valid_def host_char_def)
  ultimately obtain peers where listed: "get_all_allowed_peers sample_net guest (redeemed_db ''!'') = Inr peers"
    by (auto simp: get_all_allowed_peers_def peer_rows_def sample_from_row)
  have never: "\<forall>t \<in> set_option (pe_invite_expires guest). ck_now sample_clocks \<le> t * 1000000000" by (simp add: guest_def)
  from claim [OF never none] obtain v' r where
    run': "hyper_service sample_web_context sample_clocks ?call (sample_web guest_db) = (Some (204, None, Some (AnsStatus 204)), v')"
    and r': "bt_get 3 (db_peers (fr_db (wb_front v'))) = Some r"
    and all': "\<forall>viewer peers. get_all_allowed_peers sample_net viewer (fr_db (wb_front v')) = Inr peers \<longrightarrow>
       pr_cidr_id r \<in> set (associated_subcidrs (fr_db (wb_front v')) (pe_cidr_id viewer)) \<longrightarrow>
       (\<forall>D. base64_law (dl_base64 D) \<longrightarrow> key_of_text D ''!'' = None \<longrightarrow>
          (\<forall>dev. pred_option (\<lambda>k. length k = 32) (dv_public_key dev) \<longrightarrow> (\<forall>c \<in> set (dv_peers dev). length (peer_key c) = 32) \<longrightarrow>
             (\<exists>e. device_diff D dev (injected sample_web_context peers) = Inl e)))" by blast
  have "v' = v" using run run' by simp
  note r = r' [unfolded this db] and all = all' [unfolded this db]
  have "pr_cidr_id r = 2" using r by (auto simp: redeemed_db_def bt_get_def guest_row_def sample_row_def)
  with seen sample_sub have "pr_cidr_id r \<in> set (associated_subcidrs (redeemed_db ''!'') (pe_cidr_id guest))"
    by (simp add: guest_def)
  moreover have "base64_law (dl_base64 sample_diff)" "pred_option (\<lambda>k. length k = 32) (dv_public_key sample_device)"
    "\<forall>c \<in> set (dv_peers sample_device). length (peer_key c) = 32"
    by (simp_all add: sample_diff_def toy_base64_law sample_device_def)
  ultimately have "\<exists>e. device_diff sample_diff sample_device (injected sample_web_context peers) = Inl e"
    using all listed none by blast
  with listed run db show ?thesis by metis
qed

end
