(* ===== verification/Manager.thy ===== *)
theory Manager
  imports ServiceClaims Gate Management
begin

text \<open>
  The management links of a server at work (\<^verbatim>\<open>server/src/management.rs\<close>, \<^verbatim>\<open>gate.rs\<close>, and the commands
  and the start of the service in \<^verbatim>\<open>server/src/lib.rs\<close>): the state of the links in memory and in the
  private store, the administrative commands, which each run as a process of their own, and
  \<^verbatim>\<open>serve\<close> up to its first request. Prompts, files of configuration and of adopted secrets, and JSON are
  parameters.
\<close>

section \<open>A server's machine\<close>

datatype manager_error =
    MgStore store_error | MgServer server_error | MgPq pq_error | MgKey | MgForeign | MgMissing int | MgNoLink
  | MgSecret | MgRefused | MgNotRequired | MgNoPeer | MgAdoption | MgArtifact | MgConfig | MgDevice | MgGate
  | MgFailed | MgInvitation | MgPrompt | MgUp | MgPanicked

record ('k, 'g, 'r) machine =
  mc_db :: pq_db
  mc_tree :: tree
  mc_world :: world
  mc_calls :: nat
  mc_handle :: "string list option"
  mc_links :: "server_state option"
  mc_required :: bool
  mc_random :: 'r
  mc_kernel :: 'k
  mc_gate :: 'g

type_synonym ('k, 'g, 'r, 'a) mgrS = "(('k, 'g, 'r) machine, manager_error, 'a) comp"

record provisioning =
  pv_server_public_key :: string
  pv_peer_address :: ip_addr
  pv_enrollment :: mgmt_enrollment

text \<open>The private key of the configuration may be unreadable; each use of the store has its own luck.\<close>

record ('k, 'g, 'r) manager_lib =
  mb_mail :: mail_lib
  mb_diff :: diff_lib
  mb_open :: open_env
  mb_parts :: "path_part list"
  mb_env :: "nat \<Rightarrow> store_env"
  mb_envelope :: "server_state envelope_lib"
  mb_artifact :: "provisioning \<Rightarrow> bytes option"
  mb_adopted :: "string \<Rightarrow> (number, bytes) btree option"
  mb_write_config :: bool
  mb_private :: "bytes option"
  mb_get_public :: "bytes \<Rightarrow> bytes"
  mb_address :: ip_addr
  mb_port :: u16
  mb_fill :: "'r random_source"
  mb_iface :: string
  mb_sizes :: nla_sizes
  mb_kernel :: "'k kernel"
  mb_nft :: "string \<Rightarrow> ('g, io_error, unit) comp"

definition public_key :: "('k, 'g, 'r) manager_lib \<Rightarrow> bytes option" where
  "public_key L = map_option (mb_get_public L) (mb_private L)"

definition net_lib_of :: "('k, 'g, 'r) manager_lib \<Rightarrow> net_lib" where
  "net_lib_of L = ml_net (mb_mail L)"

definition at_data :: "'a dbS \<Rightarrow> ('k, 'g, 'r, 'a) mgrS" where
  "at_data m s = (case m (mc_db s) of (r, d) \<Rightarrow> (map_err MgServer r, s\<lparr>mc_db := d\<rparr>))"

definition at_store :: "('k, 'g, 'r) manager_lib \<Rightarrow> (store_env \<Rightarrow> 'a storeS) \<Rightarrow> ('k, 'g, 'r, 'a) mgrS" where
  "at_store L m s =
     (case m (mb_env L (mc_calls s)) (mc_world s) of
        (r, w) \<Rightarrow> (map_err MgStore r, s\<lparr>mc_world := w, mc_calls := mc_calls s + 1\<rparr>))"

definition at_random :: "('r, pq_error, 'a) comp \<Rightarrow> ('k, 'g, 'r, 'a) mgrS" where
  "at_random m s = (case m (mc_random s) of (r, g) \<Rightarrow> (map_err MgPq r, s\<lparr>mc_random := g\<rparr>))"

definition at_kernel :: "('k, io_error, 'a) comp \<Rightarrow> ('k, 'g, 'r, 'a) mgrS" where
  "at_kernel m s = (case m (mc_kernel s) of (r, k) \<Rightarrow> (map_err (\<lambda>_. MgDevice) r, s\<lparr>mc_kernel := k\<rparr>))"

definition at_nft :: "('g, io_error, 'a) comp \<Rightarrow> ('k, 'g, 'r, 'a) mgrS" where
  "at_nft m s = (case m (mc_gate s) of (r, g) \<Rightarrow> (map_err (\<lambda>_. MgGate) r, s\<lparr>mc_gate := g\<rparr>))"

definition links :: "('k, 'g, 'r, server_state) mgrS" where
  "links = bindS (getS mc_links) (\<lambda>held. liftS (ok_or held MgPanicked))"

definition set_links :: "server_state \<Rightarrow> ('k, 'g, 'r, unit) mgrS" where
  "set_links l = modS (\<lambda>s. s\<lparr>mc_links := Some l\<rparr>)"

definition number_of :: "int \<Rightarrow> number res" where
  "number_of i = number_new (word_of_int i)"

definition id_of :: "number \<Rightarrow> int" where
  "id_of n = sint (num_get n)"

section \<open>The handle\<close>

text \<open>\<^verbatim>\<open>Store::open\<close> takes the lock; a command lets go of it when it ends, whatever its result.\<close>

definition manager_open :: "('k, 'g, 'r) manager_lib \<Rightarrow> bool \<Rightarrow> ('k, 'g, 'r, unit) mgrS" where
  "manager_open L may_create s =
     (case open_store (mb_open L) (mb_parts L) may_create (mc_tree s) of
        (Inl e, t) \<Rightarrow> (Err (MgStore e), s\<lparr>mc_tree := t\<rparr>)
      | (Inr (dir, st), t) \<Rightarrow>
          (Ok (), s\<lparr>mc_tree := t, mc_handle := Some dir, mc_world := (mc_world s)\<lparr>wd_store := st\<rparr>\<rparr>))"

definition let_go :: "('k, 'g, 'r) machine \<Rightarrow> ('k, 'g, 'r) machine" where
  "let_go s =
     (case mc_handle s of
        None \<Rightarrow> s\<lparr>mc_links := None\<rparr>
      | Some dir \<Rightarrow> s\<lparr>mc_tree := close_store dir (mc_tree s), mc_handle := None, mc_links := None\<rparr>)"

definition command :: "('k, 'g, 'r, 'a) mgrS \<Rightarrow> ('k, 'g, 'r, 'a) mgrS" where
  "command m s = (case m s of (r, t) \<Rightarrow> (r, let_go t))"

text \<open>The path of a store, and whether there is something at it.\<close>

definition part_names :: "path_part list \<Rightarrow> string list" where
  "part_names parts = concat (map (\<lambda>q. case q of Normal n \<Rightarrow> [n] | _ \<Rightarrow> []) parts)"

definition store_absent :: "('k, 'g, 'r) manager_lib \<Rightarrow> ('k, 'g, 'r) machine \<Rightarrow> bool" where
  "store_absent L s \<longleftrightarrow> tr_nodes (mc_tree s) (part_names (mb_parts L)) = None"

section \<open>Loading and creating\<close>

definition unlinked :: "server_state \<Rightarrow> int \<times> peer \<Rightarrow> (manager_error, unit) result" where
  "unlinked st = (\<lambda>(i, p).
     if pe_is_disabled p \<or> i = id_of (sv_server_id st) then Ok ()
     else bindR (map_err MgPq (number_of i)) (\<lambda>n.
       guardR (bt_get n (sv_links st) \<noteq> None) (MgMissing i)))"

definition manager_load :: "('k, 'g, 'r) manager_lib \<Rightarrow> ('k, 'g, 'r, bool) mgrS" where
  "manager_load L =
     bindS (getS (\<lambda>s. store_absent L s \<and> \<not> mc_required s)) (\<lambda>never.
     if never then retS False
     else
       bindS (manager_open L False) (\<lambda>_.
       bindS (at_store L (load (mb_envelope L))) (\<lambda>st.
       bindS (liftS (map_err MgPq (server_validate st))) (\<lambda>_.
       bindS (liftS (ok_or (public_key L) MgKey)) (\<lambda>public.
       bindS (at_data (askS network)) (\<lambda>(network_id, _).
       bindS (if sv_network_id st \<noteq> network_id \<or> sv_server_public_key st \<noteq> public then retS False
         else at_data (askS (is_server (id_of (sv_server_id st))))) (\<lambda>same.
       bindS (liftS (guardR same MgForeign)) (\<lambda>_.
       bindS (at_data (askS (peer_list (net_lib_of L)))) (\<lambda>peers.
       bindS (liftS (for_each (unlinked st) peers)) (\<lambda>_.
       bindS (set_links st) (\<lambda>_.
       retS True)))))))))))"

definition identify :: "('k, 'g, 'r) manager_lib \<Rightarrow> bytes \<Rightarrow> ('k, 'g, 'r, int) mgrS" where
  "identify L public = at_data (identify_server (to_base64 (mb_diff L) public) (mb_address L))"

definition fresh_links :: "bytes \<Rightarrow> number \<Rightarrow> bytes \<Rightarrow> server_state" where
  "fresh_links network_id server public =
     \<lparr>sv_network_id = network_id, sv_server_id = server, sv_server_public_key = public, sv_links = []\<rparr>"

definition open_or_create :: "('k, 'g, 'r) manager_lib \<Rightarrow> ('k, 'g, 'r, bool) mgrS" where
  "open_or_create L =
     bindS (getS mc_required) (\<lambda>required.
     if \<not> required then retS False
     else
       bindS (liftS (ok_or (public_key L) MgKey)) (\<lambda>public.
       bindS (identify L public) (\<lambda>server_id.
       bindS (manager_open L True) (\<lambda>_.
       bindS (getS (\<lambda>s. st_fresh (wd_store (mc_world s)))) (\<lambda>fresh.
       bindS (if fresh
         then
           bindS (at_data (askS network)) (\<lambda>(network_id, _).
           bindS (liftS (map_err MgPq (number_of server_id))) (\<lambda>server.
           let st = fresh_links network_id server public in
           bindS (liftS (map_err MgPq (server_validate st))) (\<lambda>_.
           bindS (at_store L (\<lambda>E. store_save (mb_envelope L) E st)) (\<lambda>_.
           retS st))))
         else
           bindS (at_store L (load (mb_envelope L))) (\<lambda>st.
           bindS (liftS (map_err MgPq (server_validate st))) (\<lambda>_.
           bindS (at_data (askS network)) (\<lambda>(network_id, _).
           bindS (liftS (guardR (\<not> (sv_network_id st \<noteq> network_id \<or> sv_server_public_key st \<noteq> public \<or>
             id_of (sv_server_id st) \<noteq> server_id)) MgForeign)) (\<lambda>_.
           retS st))))) (\<lambda>st.
       bindS (set_links st) (\<lambda>_.
       retS True)))))))"

section \<open>Operations of the manager\<close>

definition linked_config :: "('k, 'g, 'r) manager_lib \<Rightarrow> server_state \<Rightarrow> int \<times> peer \<Rightarrow> (manager_error, peer_builder) result" where
  "linked_config L st = (\<lambda>(i, p).
     bindR (map_err (\<lambda>e. MgServer (SPq e)) (number_of i)) (\<lambda>n.
     bindR (ok_or (bt_get n (sv_links st)) (MgServer SUnavailable)) (\<lambda>link.
     bindR (ok_or (builder_of_peer (mb_diff L) (i, p)) MgPanicked) (\<lambda>b.
     Ok (set_preshared_key (ml_psk link) b)))))"

definition enrollment_of :: "server_state \<Rightarrow> int \<Rightarrow> (manager_error, mgmt_enrollment) result" where
  "enrollment_of st i =
     bindR (map_err MgPq (number_of i)) (\<lambda>n.
     bindR (ok_or (bt_get n (sv_links st)) MgNoLink) (\<lambda>link.
     bindR (ok_or (secret_key_from_bytes (ml_psk link)) MgSecret) (\<lambda>psk.
     Ok \<lparr>me_network_id = sv_network_id st, me_provision_id = ml_provision_id link, me_peer_id = word_of_int i,
         me_server_id = num_get (sv_server_id st), me_psk = psk\<rparr>)))"

definition staged_enrollment :: "server_state \<Rightarrow> int \<Rightarrow> (manager_error, mgmt_enrollment) result" where
  "staged_enrollment st i =
     bindR (map_err (\<lambda>e. MgServer (SPq e)) (number_of i)) (\<lambda>n.
     bindR (ok_or (bt_get n (sv_links st)) (MgServer SUnavailable)) (\<lambda>link.
     bindR (ok_or (ml_staged link) (MgServer SUnavailable)) (\<lambda>staged.
     bindR (ok_or (secret_key_from_bytes (sl_psk staged)) (MgServer SUnavailable)) (\<lambda>psk.
     Ok \<lparr>me_network_id = sv_network_id st, me_provision_id = sl_provision_id staged, me_peer_id = word_of_int i,
         me_server_id = num_get (sv_server_id st), me_psk = psk\<rparr>))))"

definition save_links :: "('k, 'g, 'r) manager_lib \<Rightarrow> ('k, 'g, 'r, unit) mgrS" where
  "save_links L = bindS links (\<lambda>st. at_store L (\<lambda>E. store_save (mb_envelope L) E st))"

definition unset_link :: "number \<Rightarrow> server_state \<Rightarrow> server_state" where
  "unset_link n st = st\<lparr>sv_links := bt_remove n (sv_links st)\<rparr>"

text \<open>After a failed save the link in memory is what it was.\<close>

definition save_or_undo :: "('k, 'g, 'r) manager_lib \<Rightarrow> number \<Rightarrow> management_link option \<Rightarrow> ('k, 'g, 'r, unit) mgrS" where
  "save_or_undo L n before s =
     (case save_links L s of
        (Inr _, t) \<Rightarrow> (Ok (), t)
      | (Inl _, t) \<Rightarrow>
          (Err (MgServer SUnavailable),
           t\<lparr>mc_links := map_option (case before of Some l \<Rightarrow> set_link n l | None \<Rightarrow> unset_link n) (mc_links t)\<rparr>))"

definition mark_verified :: "('k, 'g, 'r) manager_lib \<Rightarrow> int \<Rightarrow> ('k, 'g, 'r, unit) mgrS" where
  "mark_verified L i =
     bindS (liftS (map_err (\<lambda>e. MgServer (SPq e)) (number_of i))) (\<lambda>n.
     bindS links (\<lambda>st.
     bindS (liftS (ok_or (bt_get n (sv_links st)) (MgServer SUnavailable))) (\<lambda>link.
     if ml_verified link then retS ()
     else bindS (set_links (set_link n (link\<lparr>ml_verified := True\<rparr>) st)) (\<lambda>_. save_or_undo L n (Some link)))))"

definition rotate ::
    "('k, 'g, 'r) manager_lib \<Rightarrow> int \<Rightarrow> (number \<Rightarrow> server_state \<Rightarrow> ('r, pq_error, server_state) comp) \<Rightarrow> ('k, 'g, 'r, unit) mgrS" where
  "rotate L i action =
     bindS (liftS (map_err (\<lambda>e. MgServer (SPq e)) (number_of i))) (\<lambda>n.
     bindS links (\<lambda>st.
     bindS (errS (\<lambda>_. MgServer SUnavailable) (at_random (action n st))) (\<lambda>st'.
     bindS (set_links st') (\<lambda>_.
     save_or_undo L n (bt_get n (sv_links st))))))"

datatype rotation = Stage "bytes option" | Apply | Confirm | Rollback | Force bytes

fun rotation_action :: "'r random_source \<Rightarrow> rotation \<Rightarrow> number \<Rightarrow> server_state \<Rightarrow> ('r, pq_error, server_state) comp" where
  "rotation_action fill (Stage adopted) n st = server_stage_rotation fill n adopted st"
| "rotation_action fill Apply n st = liftS (server_apply_rotation n st)"
| "rotation_action fill Confirm n st = liftS (server_confirm_rotation n st)"
| "rotation_action fill Rollback n st = liftS (server_rollback_rotation n st)"
| "rotation_action fill (Force secret) n st = server_force_active fill n secret st"

definition do_rotation :: "('k, 'g, 'r) manager_lib \<Rightarrow> int \<Rightarrow> rotation \<Rightarrow> ('k, 'g, 'r, unit) mgrS" where
  "do_rotation L i r = rotate L i (rotation_action (mb_fill L) r)"

definition manager_stage :: "('k, 'g, 'r) manager_lib \<Rightarrow> int \<Rightarrow> bytes option \<Rightarrow> ('k, 'g, 'r, mgmt_enrollment) mgrS" where
  "manager_stage L i adopted =
     bindS (do_rotation L i (Stage adopted)) (\<lambda>_. bindS links (\<lambda>st. liftS (staged_enrollment st i)))"

definition export_artifact :: "('k, 'g, 'r) manager_lib \<Rightarrow> string \<Rightarrow> provisioning \<Rightarrow> ('k, 'g, 'r, unit) mgrS" where
  "export_artifact L name artifact =
     bindS (liftS (ok_or (mb_artifact L artifact) MgArtifact)) (\<lambda>bs. at_store L (\<lambda>E. export E name bs))"

text \<open>A peer whose identifier is no number counts as the server.\<close>

definition all_linked :: "server_state \<Rightarrow> (int \<times> peer) list \<Rightarrow> bool" where
  "all_linked st = list_all (\<lambda>(i, p). pe_is_disabled p \<or> i = id_of (sv_server_id st) \<or>
     bt_get (case number_of i of Inr n \<Rightarrow> n | Inl _ \<Rightarrow> sv_server_id st) (sv_links st) \<noteq> None)"

definition provision_new_peer :: "('k, 'g, 'r) manager_lib \<Rightarrow> int \<Rightarrow> ('k, 'g, 'r, mgmt_enrollment) mgrS" where
  "provision_new_peer L i =
     bindS (liftS (map_err MgPq (number_of i))) (\<lambda>n.
     bindS links (\<lambda>st.
     bindS (at_random (provision (mb_fill L) n None st)) (\<lambda>st'.
     bindS (set_links st') (\<lambda>_.
     bindS (save_links L) (\<lambda>_.
     bindS (at_data (askS (peer_list (net_lib_of L)))) (\<lambda>peers.
     bindS (if all_linked st' peers then at_data (set_management_ready True) else retS ()) (\<lambda>_.
     liftS (enrollment_of st' i))))))))"

section \<open>Requiring management\<close>

fun provision_all ::
    "'r random_source \<Rightarrow> int \<Rightarrow> (number, bytes) btree \<Rightarrow> (int \<times> peer) list \<Rightarrow> server_state \<Rightarrow> ('r, pq_error, server_state) comp" where
  "provision_all fill server adopted [] st = retS st"
| "provision_all fill server adopted ((i, p) # ps) st =
     (if i = server \<or> pe_is_disabled p then provision_all fill server adopted ps st
      else bindS (liftS (number_of i)) (\<lambda>n.
        bindS (provision fill n (bt_get n adopted) st) (provision_all fill server adopted ps)))"

definition artifact_name :: "int \<Rightarrow> string \<Rightarrow> string" where
  "artifact_name i suffix = ''peer-'' @ (if i < 0 then ''-'' else []) @ dec_of_nat (nat \<bar>i\<bar>) @ suffix"

fun export_all :: "('k, 'g, 'r) manager_lib \<Rightarrow> bytes \<Rightarrow> int \<Rightarrow> server_state \<Rightarrow> (int \<times> peer) list \<Rightarrow> ('k, 'g, 'r, unit) mgrS" where
  "export_all L public server st [] = retS ()"
| "export_all L public server st ((i, p) # ps) =
     (if i = server \<or> pe_is_disabled p then export_all L public server st ps
      else bindS (liftS (enrollment_of st i)) (\<lambda>e.
        bindS (export_artifact L (artifact_name i ''.management.json'')
          \<lparr>pv_server_public_key = to_base64 (mb_diff L) public, pv_peer_address = pe_ip p, pv_enrollment = e\<rparr>) (\<lambda>_.
        export_all L public server st ps)))"

definition read_adopted :: "('k, 'g, 'r) manager_lib \<Rightarrow> string option \<Rightarrow> (manager_error, (number, bytes) btree) result" where
  "read_adopted L path = (case path of None \<Rightarrow> Ok [] | Some f \<Rightarrow> ok_or (mb_adopted L f) MgAdoption)"

definition prepare :: "('k, 'g, 'r) manager_lib \<Rightarrow> bool \<Rightarrow> string option \<Rightarrow> ('k, 'g, 'r, unit) mgrS" where
  "prepare L independent_admin_access adopted_file = command (
     bindS (liftS (guardR independent_admin_access MgRefused)) (\<lambda>_.
     bindS (liftS (ok_or (public_key L) MgKey)) (\<lambda>public.
     bindS (identify L public) (\<lambda>server.
     bindS (liftS (read_adopted L adopted_file)) (\<lambda>adopted.
     bindS (at_data (askS network)) (\<lambda>(network_id, _).
     bindS (liftS (map_err MgPq (number_of server))) (\<lambda>server_number.
     bindS (at_data (askS (peer_list (net_lib_of L)))) (\<lambda>peers.
     bindS (liftS (guardR (list_all (\<lambda>n. list_ex (\<lambda>(i, p). word_of_int i = num_get n \<and> \<not> pe_is_disabled p \<and> i \<noteq> server) peers)
       (bt_keys adopted)) MgAdoption)) (\<lambda>_.
     bindS (at_random (provision_all (mb_fill L) server adopted peers (fresh_links network_id server_number public))) (\<lambda>made.
     bindS (manager_open L True) (\<lambda>_.
     bindS (getS (\<lambda>s. st_fresh (wd_store (mc_world s)))) (\<lambda>fresh.
     bindS (if fresh
       then
         bindS (liftS (map_err MgPq (server_validate made))) (\<lambda>_.
         bindS (at_store L (\<lambda>E. store_save (mb_envelope L) E made)) (\<lambda>_. retS made))
       else
         bindS (at_store L (load (mb_envelope L))) (\<lambda>prior.
         bindS (liftS (map_err MgPq (server_validate prior))) (\<lambda>_.
         bindS (liftS (guardR (\<not> (sv_network_id prior \<noteq> sv_network_id made \<or> sv_server_id prior \<noteq> sv_server_id made \<or>
           sv_server_public_key prior \<noteq> sv_server_public_key made)) MgForeign)) (\<lambda>_.
         bindS (at_random (provision_all (mb_fill L) server adopted peers prior)) (\<lambda>state.
         bindS (at_store L (\<lambda>E. store_save (mb_envelope L) E state)) (\<lambda>_. retS state)))))) (\<lambda>state.
     bindS (set_links state) (\<lambda>_.
     bindS (modS (\<lambda>s. if mb_write_config L then s\<lparr>mc_required := True\<rparr> else s)) (\<lambda>_.
     bindS (liftS (guardR (mb_write_config L) MgConfig)) (\<lambda>_.
     export_all L public server state peers))))))))))))))))"

end
