(* ===== verification/Commands.thy ===== *)
theory Commands
  imports Manager
begin

text \<open>
  The administrative commands of \<^verbatim>\<open>server/src/lib.rs\<close> and the start of the service. A command is given
  what its dialogue answers, \<open>None\<close> when the operator does not confirm.
\<close>

section \<open>The interface\<close>

text \<open>\<^verbatim>\<open>kernel_interface_ready\<close>: five attempts to read the device.\<close>

fun interface_ready :: "'k kernel \<Rightarrow> string \<Rightarrow> nat \<Rightarrow> 'k \<Rightarrow> bool \<times> 'k" where
  "interface_ready K iface 0 k = (False, k)"
| "interface_ready K iface (Suc n) k =
     (case device_get K iface k of (Inr _, k') \<Rightarrow> (True, k') | (Inl _, k') \<Rightarrow> interface_ready K iface n k')"

definition kernel_interface_ready :: "('k, 'g, 'r) manager_lib \<Rightarrow> ('k, 'g, 'r, bool) mgrS" where
  "kernel_interface_ready L s =
     (case interface_ready (mb_kernel L) (mb_iface L) 5 (mc_kernel s) of (b, k) \<Rightarrow> (Ok b, s\<lparr>mc_kernel := k\<rparr>))"

definition apply_device :: "('k, 'g, 'r) manager_lib \<Rightarrow> device_update \<Rightarrow> ('k, 'g, 'r, unit) mgrS" where
  "apply_device L u = errS (\<lambda>_. MgServer SWireGuard) (at_kernel (apply_update (mb_sizes L) (mb_kernel L) u (mb_iface L)))"

text \<open>With management, the entry of a peer has its secret; a peer without a link is refused.\<close>

definition config_of :: "('k, 'g, 'r) manager_lib \<Rightarrow> bool \<Rightarrow> int \<times> peer \<Rightarrow> ('k, 'g, 'r, peer_builder) mgrS" where
  "config_of L managed ip =
     (if managed then bindS links (\<lambda>st. liftS (linked_config L st ip))
      else liftS (ok_or (builder_of_peer (mb_diff L) ip) MgPanicked))"

definition push_management_psk :: "('k, 'g, 'r) manager_lib \<Rightarrow> int \<times> peer \<Rightarrow> ('k, 'g, 'r, unit) mgrS" where
  "push_management_psk L ip =
     bindS (kernel_interface_ready L) (\<lambda>up.
     if \<not> up then retS ()
     else
       bindS (liftS (ok_or (key_of_text (mb_diff L) (pe_public_key (snd ip))) MgKey)) (\<lambda>key.
       bindS (apply_device L (add_peer (builder_remove (builder_new key)) update_new)) (\<lambda>_.
       bindS (config_of L True ip) (\<lambda>b.
       apply_device L (add_peer b update_new)))))"

section \<open>Peers\<close>

record invitation =
  iv_network_name :: string
  iv_private_key :: string
  iv_address :: "ip_addr \<times> u8"
  iv_server_public_key :: string
  iv_external_endpoint :: host_port
  iv_internal_endpoint :: socket_addr
  iv_management :: "mgmt_enrollment option"

text \<open>The root of the CIDRs is the first of the shortest prefix.\<close>

fun root_cidr :: "(int \<times> cidr) list \<Rightarrow> cidr option" where
  "root_cidr [] = None"
| "root_cidr ((i, c) # cs) =
     Some (case root_cidr cs of
       None \<Rightarrow> c
     | Some d \<Rightarrow> if net_prefix (ci_net d) < net_prefix (ci_net c) then d else c)"

definition ip_net_for :: "cidr \<Rightarrow> ip_addr \<Rightarrow> (ip_addr \<times> u8) option" where
  "ip_net_for root ip =
     (if net_prefix (ci_net root) > (case ip of IpV4 _ \<Rightarrow> 32 | IpV6 _ \<Rightarrow> 128) then None
      else Some (ip, net_prefix (ci_net root)))"

definition provision_if :: "('k, 'g, 'r) manager_lib \<Rightarrow> bool \<Rightarrow> int \<Rightarrow> ('k, 'g, 'r, mgmt_enrollment option) mgrS" where
  "provision_if L managed i =
     (if managed then bindS (provision_new_peer L i) (\<lambda>e. retS (Some e)) else retS None)"

definition add_peer_cmd ::
    "('k, 'g, 'r) manager_lib \<Rightarrow> (peer \<times> string) option \<Rightarrow> (invitation \<Rightarrow> bool) \<Rightarrow> ('k, 'g, 'r, unit) mgrS" where
  "add_peer_cmd L answer write = command (
     bindS (at_data (askS (peer_list (net_lib_of L)))) (\<lambda>_.
     bindS (at_data (getS db_cidrs)) (\<lambda>cidrs.
     bindS (liftS (ok_or (root_cidr cidrs) MgPanicked)) (\<lambda>root.
     case answer of
       None \<Rightarrow> retS ()
     | Some (peer_contents, private_key) \<Rightarrow>
         bindS (at_data (peer_create (net_lib_of L) peer_contents)) (\<lambda>peer.
         bindS (open_or_create L) (\<lambda>managed.
         bindS (provision_if L managed (fst peer)) (\<lambda>enrollment.
         bindS (kernel_interface_ready L) (\<lambda>up.
         bindS (if up then bindS (config_of L managed peer) (\<lambda>b. apply_device L (add_peer b update_new)) else retS ()) (\<lambda>_.
         bindS (liftS (ok_or (ip_net_for root (pe_ip (snd peer))) MgPanicked)) (\<lambda>address.
         bindS (liftS (ok_or (public_key L) MgKey)) (\<lambda>public.
         bindS (identify L public) (\<lambda>server_id.
         bindS (at_data (askS (peer_get (net_lib_of L) server_id))) (\<lambda>server_peer.
         bindS (liftS (ok_or (pe_endpoint server_peer) MgPanicked)) (\<lambda>external.
         liftS (guardR (write \<lparr>iv_network_name = mb_iface L, iv_private_key = private_key, iv_address = address,
             iv_server_public_key = pe_public_key server_peer, iv_external_endpoint = external,
             iv_internal_endpoint = (mb_address L, mb_port L), iv_management = enrollment\<rparr>) MgInvitation)))))))))))))))"

definition named :: "(int \<times> peer) list \<Rightarrow> string \<Rightarrow> (int \<times> peer) option" where
  "named peers name = List.find (\<lambda>(i, p). pe_name p = name) peers"

definition rename_peer_cmd :: "('k, 'g, 'r) manager_lib \<Rightarrow> (peer \<times> string) option \<Rightarrow> ('k, 'g, 'r, unit) mgrS" where
  "rename_peer_cmd L answer =
     bindS (at_data (askS (peer_list (net_lib_of L)))) (\<lambda>_.
     case answer of
       None \<Rightarrow> retS ()
     | Some (peer_request, old_name) \<Rightarrow>
         bindS (at_data (askS (peer_list (net_lib_of L)))) (\<lambda>peers.
         bindS (liftS (ok_or (named peers old_name) MgNoPeer)) (\<lambda>(i, p).
         bindS (at_data (peer_update (mb_mail L) i p peer_request)) (\<lambda>_. retS ()))))"

definition enable_or_disable_peer :: "('k, 'g, 'r) manager_lib \<Rightarrow> bool \<Rightarrow> (int \<times> peer) option \<Rightarrow> ('k, 'g, 'r, unit) mgrS" where
  "enable_or_disable_peer L enabled answer = command (
     bindS (at_data (askS (peer_list (net_lib_of L)))) (\<lambda>_.
     case answer of
       None \<Rightarrow> retS ()
     | Some (i, peer) \<Rightarrow>
         bindS (at_data (askS (peer_get (net_lib_of L) i))) (\<lambda>db_peer.
         bindS (at_data (peer_update (mb_mail L) i db_peer (peer\<lparr>pe_is_disabled := \<not> enabled\<rparr>))) (\<lambda>db_peer'.
         if enabled
         then
           bindS (open_or_create L) (\<lambda>managed.
           bindS (config_of L managed (i, db_peer')) (\<lambda>b.
           apply_device L (add_peer b update_new)))
         else
           bindS (liftS (ok_or (key_of_text (mb_diff L) (pe_public_key peer)) (MgServer SWireGuard))) (\<lambda>key.
           apply_device L (add_peer (builder_remove (builder_new key)) update_new))))))"

definition enable_pq :: "('k, 'g, 'r, unit) mgrS" where
  "enable_pq = at_data enable"

section \<open>Rotating a management secret\<close>

definition find_peer_by_name :: "('k, 'g, 'r) manager_lib \<Rightarrow> string \<Rightarrow> ('k, 'g, 'r, int \<times> peer) mgrS" where
  "find_peer_by_name L name =
     bindS (at_data (askS (peer_list (net_lib_of L)))) (\<lambda>peers. liftS (ok_or (named peers name) MgNoPeer))"

definition adopted_secret_for ::
    "('k, 'g, 'r) manager_lib \<Rightarrow> string option \<Rightarrow> int \<Rightarrow> (manager_error, bytes option) result" where
  "adopted_secret_for L adopted_file i =
     (case adopted_file of
        None \<Rightarrow> Ok None
      | Some f \<Rightarrow>
          bindR (ok_or (mb_adopted L f) MgAdoption) (\<lambda>table.
          bindR (map_err MgPq (number_of i)) (\<lambda>n.
          Ok (bt_get n table))))"

definition required_management :: "('k, 'g, 'r) manager_lib \<Rightarrow> bool \<Rightarrow> ('k, 'g, 'r, unit) mgrS" where
  "required_management L independent_admin_access =
     bindS (liftS (guardR independent_admin_access MgRefused)) (\<lambda>_.
     bindS (open_or_create L) (\<lambda>managed.
     liftS (guardR managed MgNotRequired)))"

definition failing :: "('k, 'g, 'r, 'a) mgrS \<Rightarrow> ('k, 'g, 'r, 'a) mgrS" where
  "failing m = errS (\<lambda>_. MgFailed) m"

definition stage_management_rotation ::
    "('k, 'g, 'r) manager_lib \<Rightarrow> string \<Rightarrow> bool \<Rightarrow> string option \<Rightarrow> ('k, 'g, 'r, unit) mgrS" where
  "stage_management_rotation L name access adopted_file = command (
     bindS (find_peer_by_name L name) (\<lambda>(i, p).
     bindS (required_management L access) (\<lambda>_.
     bindS (liftS (adopted_secret_for L adopted_file i)) (\<lambda>adopted.
     bindS (failing (manager_stage L i adopted)) (\<lambda>_.
     bindS (failing (bindS links (\<lambda>st. liftS (staged_enrollment st i)))) (\<lambda>enrollment.
     bindS (liftS (ok_or (public_key L) MgKey)) (\<lambda>public.
     export_artifact L (artifact_name i ''.management.rotation.json'')
       \<lparr>pv_server_public_key = to_base64 (mb_diff L) public, pv_peer_address = pe_ip p, pv_enrollment = enrollment\<rparr>)))))))"

definition apply_management_rotation :: "('k, 'g, 'r) manager_lib \<Rightarrow> string \<Rightarrow> bool \<Rightarrow> ('k, 'g, 'r, unit) mgrS" where
  "apply_management_rotation L name access = command (
     bindS (find_peer_by_name L name) (\<lambda>(i, p).
     bindS (required_management L access) (\<lambda>_.
     bindS (failing (do_rotation L i Apply)) (\<lambda>_.
     push_management_psk L (i, p)))))"

definition mark_management_verified :: "('k, 'g, 'r) manager_lib \<Rightarrow> string \<Rightarrow> bool \<Rightarrow> ('k, 'g, 'r, unit) mgrS" where
  "mark_management_verified L name access = command (
     bindS (find_peer_by_name L name) (\<lambda>(i, p).
     bindS (required_management L access) (\<lambda>_.
     failing (mark_verified L i))))"

definition confirm_management_rotation :: "('k, 'g, 'r) manager_lib \<Rightarrow> string \<Rightarrow> bool \<Rightarrow> ('k, 'g, 'r, unit) mgrS" where
  "confirm_management_rotation L name access = command (
     bindS (find_peer_by_name L name) (\<lambda>(i, p).
     bindS (required_management L access) (\<lambda>_.
     failing (do_rotation L i Confirm))))"

definition rollback_management_rotation :: "('k, 'g, 'r) manager_lib \<Rightarrow> string \<Rightarrow> bool \<Rightarrow> ('k, 'g, 'r, unit) mgrS" where
  "rollback_management_rotation L name access = command (
     bindS (find_peer_by_name L name) (\<lambda>(i, p).
     bindS (required_management L access) (\<lambda>_.
     bindS (failing (do_rotation L i Rollback)) (\<lambda>_.
     push_management_psk L (i, p)))))"

definition repair_management :: "('k, 'g, 'r) manager_lib \<Rightarrow> string \<Rightarrow> bool \<Rightarrow> string \<Rightarrow> ('k, 'g, 'r, unit) mgrS" where
  "repair_management L name access adopted_file = command (
     bindS (find_peer_by_name L name) (\<lambda>(i, p).
     bindS (required_management L access) (\<lambda>_.
     bindS (liftS (adopted_secret_for L (Some adopted_file) i)) (\<lambda>adopted.
     bindS (liftS (ok_or adopted MgAdoption)) (\<lambda>secret.
     bindS (failing (do_rotation L i (Force secret))) (\<lambda>_.
     push_management_psk L (i, p)))))))"

section \<open>CIDRs\<close>

definition add_cidr :: "('k, 'g, 'r) manager_lib \<Rightarrow> cidr option \<Rightarrow> ('k, 'g, 'r, unit) mgrS" where
  "add_cidr L answer =
     (case answer of
        None \<Rightarrow> retS ()
      | Some cidr_request \<Rightarrow> bindS (at_data (cidr_create (net_lib_of L) cidr_request)) (\<lambda>_. retS ()))"

definition rename_cidr :: "(cidr \<times> string) option \<Rightarrow> ('k, 'g, 'r, unit) mgrS" where
  "rename_cidr answer =
     (case answer of
        None \<Rightarrow> retS ()
      | Some (cidr_request, old_name) \<Rightarrow>
          bindS (at_data (getS db_cidrs)) (\<lambda>cidrs.
          bindS (liftS (ok_or (List.find (\<lambda>(i, c). ci_name c = old_name) cidrs) MgNoPeer)) (\<lambda>(i, _).
          at_data (cidr_update i cidr_request))))"

definition delete_cidr :: "('k, 'g, 'r) manager_lib \<Rightarrow> int option \<Rightarrow> ('k, 'g, 'r, unit) mgrS" where
  "delete_cidr L answer =
     bindS (at_data (askS (peer_list (net_lib_of L)))) (\<lambda>_.
     bindS (liftS (ok_or answer MgPrompt)) (\<lambda>i.
     at_data (cidr_delete i)))"

section \<open>Starting the service\<close>

definition quoted_iface :: "string \<Rightarrow> string \<Rightarrow> string" where
  "quoted_iface key iface = key @ '' '' @ quoted iface"

definition management_ruleset :: "string \<Rightarrow> u16 \<Rightarrow> string" where
  "management_ruleset iface api_port =
     (let i = quoted_iface ''iifname'' iface; o' = quoted_iface ''oifname'' iface in
      ''table inet innernet_pq_management {'' @ newline @
      spaces 4 @ ''chain input {'' @ newline @
      spaces 8 @ ''type filter hook input priority filter + 10; policy accept;'' @ newline @
      spaces 8 @ i @ '' ct state established,related accept'' @ newline @
      spaces 8 @ i @ '' icmp type { destination-unreachable, time-exceeded, parameter-problem } accept'' @ newline @
      spaces 8 @ i @ '' icmpv6 type { destination-unreachable, packet-too-big, time-exceeded, parameter-problem } accept'' @ newline @
      spaces 8 @ i @ '' tcp dport '' @ dec_of_nat (unat api_port) @ '' accept'' @ newline @
      spaces 8 @ i @ '' drop'' @ newline @
      spaces 4 @ ''}'' @ newline @
      spaces 4 @ ''chain forward {'' @ newline @
      spaces 8 @ ''type filter hook forward priority filter + 10; policy accept;'' @ newline @
      spaces 8 @ i @ '' drop'' @ newline @
      spaces 8 @ o' @ '' drop'' @ newline @
      spaces 4 @ ''}'' @ newline @ ''}'' @ newline)"

definition server_gate_clear :: "('k, 'g, 'r) manager_lib \<Rightarrow> 'g \<Rightarrow> 'g" where
  "server_gate_clear L g = snd (mb_nft L (''delete table inet innernet_pq_management'' @ newline) g)"

definition server_gate_apply :: "('k, 'g, 'r) manager_lib \<Rightarrow> ('k, 'g, 'r, unit) mgrS" where
  "server_gate_apply L =
     bindS (at_nft (modS (server_gate_clear L))) (\<lambda>_.
     at_nft (mb_nft L (management_ruleset (mb_iface L) (mb_port L))))"

definition start_config :: "('k, 'g, 'r) manager_lib \<Rightarrow> server_state option \<Rightarrow> int \<times> peer \<Rightarrow> (manager_error, peer_builder) result" where
  "start_config L manager = (\<lambda>(i, p).
     case manager of
       Some st \<Rightarrow> if i \<noteq> id_of (sv_server_id st) \<and> \<not> pe_is_disabled p then linked_config L st (i, p)
         else ok_or (builder_of_peer (mb_diff L) (i, p)) MgPanicked
     | None \<Rightarrow> ok_or (builder_of_peer (mb_diff L) (i, p)) MgPanicked)"

definition psks_of :: "server_state \<Rightarrow> int \<rightharpoonup> bytes" where
  "psks_of st = map_of (map (\<lambda>(n, link). (id_of n, ml_psk link)) (sv_links st))"

definition endpoint_of :: "socket_addr \<Rightarrow> host_port" where
  "endpoint_of = (\<lambda>(a, port). \<lparr>hp_host = (case a of IpV4 x \<Rightarrow> HostV4 x | IpV6 x \<Rightarrow> HostV6 x), hp_port = port\<rparr>)"

text \<open>The machine at the start: whether the link of the interface comes up, and the local addresses, if they
  can be listed.\<close>

record serve_args =
  sa_link_ok :: bool
  sa_local_addrs :: "ip_addr list option"

text \<open>What the interface will have, before anything is touched; then the start up to the first request, whose
  result is the secrets the service keeps.\<close>

definition serve_load ::
    "('k, 'g, 'r) manager_lib \<Rightarrow> ('k, 'g, 'r, server_state option \<times> (int \<times> peer) list \<times> peer_builder list) mgrS" where
  "serve_load L =
     bindS (liftS (ok_or (public_key L) MgKey)) (\<lambda>public.
     bindS (identify L public) (\<lambda>_.
     bindS (manager_load L) (\<lambda>_.
     bindS (getS mc_links) (\<lambda>manager.
     bindS (at_data (askS (peer_list (net_lib_of L)))) (\<lambda>peers.
     bindS (liftS (mapR (start_config L manager) peers)) (\<lambda>peer_configs.
     retS (manager, peers, peer_configs)))))))"

definition serve_up :: "('k, 'g, 'r) manager_lib \<Rightarrow> serve_args \<Rightarrow> peer_builder list \<Rightarrow> ('k, 'g, 'r, unit) mgrS" where
  "serve_up L A peer_configs =
     bindS (at_kernel (apply_update (mb_sizes L) (mb_kernel L)
         (update_new\<lparr>du_listen_port := Some (mb_port L), du_private_key := mb_private L\<rparr>) (mb_iface L))) (\<lambda>_.
     bindS (liftS (guardR (sa_link_ok A) MgUp)) (\<lambda>_.
     at_kernel (apply_update (mb_sizes L) (mb_kernel L) (add_peers peer_configs update_new) (mb_iface L))))"

definition serve_announce :: "('k, 'g, 'r) manager_lib \<Rightarrow> serve_args \<Rightarrow> (int \<times> peer) list \<Rightarrow> ('k, 'g, 'r, unit) mgrS" where
  "serve_announce L A peers =
     bindS (getS mc_required) (\<lambda>required.
     bindS (if required then server_gate_apply L else retS ()) (\<lambda>_.
     bindS (liftS (ok_or (sa_local_addrs A) MgUp)) (\<lambda>addrs.
     bindS (liftS (ok_or (List.find (\<lambda>(i, p). pe_ip p = mb_address L) peers) MgPanicked)) (\<lambda>(i, myself).
     bindS (at_data (peer_update (mb_mail L) i myself
         (myself\<lparr>pe_candidates := map (\<lambda>a. endpoint_of (a, mb_port L)) addrs\<rparr>))) (\<lambda>_. retS ())))))"

definition serve :: "('k, 'g, 'r) manager_lib \<Rightarrow> serve_args \<Rightarrow> ('k, 'g, 'r, (int \<rightharpoonup> bytes) option) mgrS" where
  "serve L A = command (
     bindS (serve_load L) (\<lambda>(manager, peers, peer_configs).
     bindS (modS let_go) (\<lambda>_.
     bindS (serve_up L A peer_configs) (\<lambda>_.
     bindS (serve_announce L A peers) (\<lambda>_.
     retS (map_option psks_of manager))))))"

section \<open>The commands of \<^verbatim>\<open>innernet-server\<close>\<close>

datatype admin_command =
    Serve serve_args
  | AddPeer "(peer \<times> string) option" "invitation \<Rightarrow> bool"
  | RenamePeer "(peer \<times> string) option"
  | DisablePeer "(int \<times> peer) option"
  | EnablePeer "(int \<times> peer) option"
  | AddCidr "cidr option"
  | RenameCidr "(cidr \<times> string) option"
  | DeleteCidr "int option"
  | RequireManagement bool "string option"
  | EnablePq
  | StageManagementRotation string bool "string option"
  | ApplyManagementRotation string bool
  | MarkManagementVerified string bool
  | ConfirmManagementRotation string bool
  | RollbackManagementRotation string bool
  | RepairManagement string bool string

definition ignoring :: "('k, 'g, 'r, 'a) mgrS \<Rightarrow> ('k, 'g, 'r, unit) mgrS" where
  "ignoring m = bindS m (\<lambda>_. retS ())"

fun run_command :: "('k, 'g, 'r) manager_lib \<Rightarrow> admin_command \<Rightarrow> ('k, 'g, 'r, unit) mgrS" where
  "run_command L (Serve A) = ignoring (serve L A)"
| "run_command L (AddPeer answer write) = add_peer_cmd L answer write"
| "run_command L (RenamePeer answer) = rename_peer_cmd L answer"
| "run_command L (DisablePeer answer) = enable_or_disable_peer L False answer"
| "run_command L (EnablePeer answer) = enable_or_disable_peer L True answer"
| "run_command L (AddCidr answer) = add_cidr L answer"
| "run_command L (RenameCidr answer) = rename_cidr answer"
| "run_command L (DeleteCidr answer) = delete_cidr L answer"
| "run_command L (RequireManagement access adopted_file) = prepare L access adopted_file"
| "run_command L EnablePq = enable_pq"
| "run_command L (StageManagementRotation name access adopted_file) = stage_management_rotation L name access adopted_file"
| "run_command L (ApplyManagementRotation name access) = apply_management_rotation L name access"
| "run_command L (MarkManagementVerified name access) = mark_management_verified L name access"
| "run_command L (ConfirmManagementRotation name access) = confirm_management_rotation L name access"
| "run_command L (RollbackManagementRotation name access) = rollback_management_rotation L name access"
| "run_command L (RepairManagement name access adopted_file) = repair_management L name access adopted_file"

definition run_commands :: "('k, 'g, 'r) manager_lib \<Rightarrow> admin_command list \<Rightarrow> ('k, 'g, 'r) machine \<Rightarrow> ('k, 'g, 'r) machine" where
  "run_commands L cs s = fold (\<lambda>c s. snd (run_command L c s)) cs s"

end
