(* ===== verification/ManagerProps.thy ===== *)
theory ManagerProps
  imports Commands StoreProps
begin

text \<open>
  What all commands of a server share: a relation of two states of the machine that the parts of the
  commands keep is kept by every command (locales \<open>quiet_effect\<close> and \<open>machine_effect\<close>). It is interpreted
  for the lock of the private store, for the readiness of the mailbox and for the tables.
\<close>

section \<open>Commands as one effect\<close>

text \<open>All fields but the tables, the tree and the handle.\<close>

definition same_frame :: "('k, 'g, 'r) machine \<Rightarrow> ('k, 'g, 'r) machine \<Rightarrow> bool" where
  "same_frame s t \<longleftrightarrow> mc_db t = mc_db s \<and> mc_tree t = mc_tree s \<and> mc_handle t = mc_handle s"

lemma keeps_errS: "keeps R m \<Longrightarrow> keeps R (errS f m)"
  by (auto simp: keeps_def errS_def split: prod.splits) (metis snd_conv)

locale quiet_effect =
  fixes L :: "('k, 'g, 'r) manager_lib" and R :: "('k, 'g, 'r) machine \<Rightarrow> ('k, 'g, 'r) machine \<Rightarrow> bool"
  assumes order: "reflp R" "transp R"
    and frame: "same_frame s t \<Longrightarrow> R s t"
    and opens: "keeps R (manager_open L may_create)"
    and lets_go: "R s (let_go s)"
    and identifies: "keeps R (at_data (identify_server key address))"
    and updates: "keeps R (at_data (peer_update (mb_mail L) i p contents))"
    and adds_cidr: "keeps R (at_data (cidr_create (net_lib_of L) c))"
    and renames_cidr: "keeps R (at_data (cidr_update i c))"
    and deletes_cidr: "keeps R (at_data (cidr_delete i))"
    and enables: "keeps R (at_data enable)"
begin

lemma keeps_frame: "(\<And>s r t. m s = (r, t) \<Longrightarrow> same_frame s t) \<Longrightarrow> keeps R m"
  by (rule keepsI) (blast intro: frame)

lemma keeps_parts:
  "keeps R (at_store L f)" "keeps R (at_random g)" "keeps R (at_kernel h)" "keeps R (at_nft k)"
  "keeps R (at_data (askS q))" "keeps R (at_data (getS q'))" "keeps R (set_links l)" "keeps R (kernel_interface_ready L)"
  by (rule keeps_frame, auto simp: at_store_def at_random_def at_kernel_def at_nft_def at_data_def askS_def getS_def
      set_links_def modS_def kernel_interface_ready_def same_frame_def split: prod.splits)+

lemmas bind = keeps_bind [OF order]
lemmas simple = keeps_simple [OF order(1)]
lemmas intros = bind simple keeps_parts opens identifies keeps_errS

lemma keeps_modS_frame: "(\<And>s. same_frame s (f s)) \<Longrightarrow> keeps R (modS f)"
  by (rule keeps_modS) (rule frame)

lemma keeps_links: "keeps R links"
  unfolding links_def by (intro intros)

lemma keeps_command: "keeps R m \<Longrightarrow> keeps R (command m)"
  by (auto simp: keeps_def command_def split: prod.splits) (metis lets_go order(2) snd_conv transpD)

lemma keeps_identify: "keeps R (identify L public)"
  unfolding identify_def by (rule identifies)

lemma keeps_save: "keeps R (save_links L)"
  unfolding save_links_def by (intro intros keeps_links)

lemma keeps_save_or_undo: "keeps R (save_or_undo L n before)"
proof (rule keepsI)
  fix s r t assume run: "save_or_undo L n before s = (r, t)"
  obtain r1 u where u: "save_links L s = (r1, u)" by fastforce
  with keepsD [OF keeps_save] have "R s u" by blast
  moreover have "same_frame u t" using run u by (auto simp: save_or_undo_def same_frame_def split: sum.splits)
  ultimately show "R s t" using frame order(2) by (meson transpD)
qed

lemma keeps_load: "keeps R (manager_load L)"
  unfolding manager_load_def by (intro intros) (auto intro!: intros split: prod.splits)

lemma keeps_create: "keeps R (open_or_create L)"
  unfolding open_or_create_def by (intro intros) (auto intro!: intros keeps_identify simp: Let_def split: prod.splits)

lemma keeps_rotations:
  "keeps R (do_rotation L i r)" "keeps R (mark_verified L i)" "keeps R (manager_stage L i adopted)"
  unfolding do_rotation_def mark_verified_def manager_stage_def rotate_def
  by (auto intro!: intros keeps_links keeps_save_or_undo)

lemma keeps_exports: "keeps R (export_artifact L name artifact)" "keeps R (export_all L public server st peers)"
proof -
  show one: "keeps R (export_artifact L name artifact)" for name artifact
    unfolding export_artifact_def by (intro intros)
  show "keeps R (export_all L public server st peers)"
  proof (induction peers)
    case Nil
    show ?case unfolding export_all.simps by (rule simple)
  next
    case (Cons ip peers)
    then show ?case by (cases ip) (auto intro!: intros one)
  qed
qed

lemma keeps_devices:
  "keeps R (apply_device L u)" "keeps R (config_of L managed ip)" "keeps R (push_management_psk L ip)"
  unfolding apply_device_def config_of_def push_management_psk_def
  by (auto intro!: intros keeps_links)

lemma keeps_required: "keeps R (required_management L access)" "keeps R (find_peer_by_name L name)"
  unfolding required_management_def find_peer_by_name_def by (intro intros keeps_create)+

lemma keeps_prepare: "keeps R (prepare L access adopted_file)"
  unfolding prepare_def
  by (auto intro!: intros keeps_command keeps_identify keeps_exports keeps_modS_frame simp: same_frame_def split: prod.splits)

lemma keeps_serve: "keeps R (serve L A)"
  unfolding serve_def serve_load_def serve_up_def serve_announce_def server_gate_apply_def
  by (auto intro!: intros keeps_command keeps_identify keeps_load keeps_modS lets_go updates split: prod.splits)

lemma keeps_enabling: "keeps R (enable_or_disable_peer L enabled answer)" "keeps R (rename_peer_cmd L answer')"
  unfolding enable_or_disable_peer_def rename_peer_cmd_def
  by (auto intro!: intros keeps_command keeps_create keeps_devices updates split: option.splits prod.splits)

lemma keeps_cidrs: "keeps R (add_cidr L answer)" "keeps R (rename_cidr answer')" "keeps R (delete_cidr L i)"
  unfolding add_cidr_def rename_cidr_def delete_cidr_def
  by (auto intro!: intros adds_cidr renames_cidr deletes_cidr split: option.splits prod.splits)

lemma keeps_rotation_commands:
  "keeps R (stage_management_rotation L name access adopted_file)" "keeps R (apply_management_rotation L name access)"
  "keeps R (mark_management_verified L name access)" "keeps R (confirm_management_rotation L name access)"
  "keeps R (rollback_management_rotation L name access)" "keeps R (repair_management L name access file')"
  unfolding stage_management_rotation_def apply_management_rotation_def mark_management_verified_def
    confirm_management_rotation_def rollback_management_rotation_def repair_management_def failing_def
  by (auto intro!: intros keeps_command keeps_required keeps_rotations keeps_links keeps_exports keeps_devices split: prod.splits)

lemma quiet_command:
  assumes "\<not> (\<exists>answer write. c = AddPeer answer write)"
  shows "keeps R (run_command L c)"
  using assms
  by (cases c) (auto intro!: keeps_serve keeps_enabling keeps_cidrs keeps_prepare keeps_rotation_commands enables intros
      simp: ignoring_def enable_pq_def)

end

text \<open>Adding a peer writes the new row and, when every enabled peer has a link, the readiness.\<close>

locale machine_effect = quiet_effect L R
  for L :: "('k, 'g, 'r) manager_lib" and R :: "('k, 'g, 'r) machine \<Rightarrow> ('k, 'g, 'r) machine \<Rightarrow> bool" +
  assumes creates: "keeps R (at_data (peer_create (net_lib_of L) p))"
    and latches: "keeps R (at_data (set_management_ready True))"
begin

lemma keeps_provision: "keeps R (provision_new_peer L i)" "keeps R (provision_if L managed i)"
proof -
  show new: "keeps R (provision_new_peer L i)" for i
    unfolding provision_new_peer_def by (auto intro!: intros keeps_links keeps_save latches)
  show "keeps R (provision_if L managed i)" unfolding provision_if_def by (auto intro!: intros new)
qed

lemma keeps_add_peer: "keeps R (add_peer_cmd L answer write)"
  unfolding add_peer_cmd_def
  by (auto intro!: intros keeps_command keeps_create keeps_provision keeps_devices keeps_identify creates
      split: option.splits prod.splits)

lemma any_command: "keeps R (run_command L c)"
proof (cases "\<exists>answer write. c = AddPeer answer write")
  case True
  then show ?thesis by (auto intro: keeps_add_peer)
next
  case False
  then show ?thesis by (rule quiet_command)
qed

lemma all_commands: "R s (run_commands L cs s)"
proof (induction cs arbitrary: s)
  case Nil
  from order(1) show ?case by (simp add: run_commands_def reflpD)
next
  case (Cons c cs)
  have "R s (snd (run_command L c s))" using any_command by (simp add: keeps_def)
  moreover have "R (snd (run_command L c s)) (run_commands L (c # cs) s)"
    using Cons by (simp add: run_commands_def)
  ultimately show ?case using order(2) by (meson transpD)
qed

end

section \<open>Instances\<close>

lemma keeps_at_data: "keeps Q m \<Longrightarrow> keeps (\<lambda>s t. Q (mc_db s) (mc_db t)) (at_data m)"
  by (auto simp: keeps_def at_data_def split: prod.splits) (metis snd_conv)

lemma on_tables:
  "reflp Q \<Longrightarrow> reflp (\<lambda>s t. Q (mc_db s) (mc_db t))" "transp Q \<Longrightarrow> transp (\<lambda>s t. Q (mc_db s) (mc_db t))"
  by (auto simp: reflp_def intro!: transpI dest: transpD)

lemma open_tables: "mc_db (snd (manager_open L b s)) = mc_db s" "mc_db (let_go s) = mc_db s"
  by (auto simp: manager_open_def let_go_def split: prod.splits sum.splits option.splits)

text \<open>A relation of the tables alone.\<close>

lemma tables_effect:
  assumes "reflp Q" "transp Q"
    and "\<And>key address. keeps Q (identify_server key address)" "\<And>i p c. keeps Q (peer_update (mb_mail L) i p c)"
    and "\<And>c. keeps Q (cidr_create (net_lib_of L) c)" "\<And>i c. keeps Q (cidr_update i c)" "\<And>i. keeps Q (cidr_delete i)"
    and "keeps Q enable"
  shows "quiet_effect L (\<lambda>s t. Q (mc_db s) (mc_db t))"
proof
  show "reflp (\<lambda>s t :: ('a, 'b, 'c) machine. Q (mc_db s) (mc_db t))" "transp (\<lambda>s t :: ('a, 'b, 'c) machine. Q (mc_db s) (mc_db t))"
    by (intro on_tables assms)+
  show "Q (mc_db s) (mc_db t)" if "same_frame s t" for s t :: "('a, 'b, 'c) machine"
    using that assms(1) by (simp add: same_frame_def reflpD)
  show "keeps (\<lambda>s t. Q (mc_db s) (mc_db t)) (manager_open L b)" for b
    using assms(1) by (simp add: keeps_def open_tables reflpD)
  show "Q (mc_db s) (mc_db (let_go s))" for s :: "('a, 'b, 'c) machine"
    using assms(1) by (simp add: open_tables reflpD)
qed (auto intro!: keeps_at_data assms)

text \<open>Whether management is ready changes only when it is latched.\<close>

definition same_ready :: "pq_db \<Rightarrow> pq_db \<Rightarrow> bool" where
  "same_ready s t \<longleftrightarrow> db_management_ready t = db_management_ready s"

lemma same_ready_order [simp]: "reflp same_ready" "transp same_ready"
  by (auto simp: same_ready_def reflp_def transp_def)

lemma ready_update_peer: "update_peer i f s = Inr t \<Longrightarrow> same_ready s t"
  by (auto simp: update_peer_def bump_run same_ready_def split: option.splits if_splits)

lemma ready_ops:
  "keeps same_ready (identify_server key address)" "keeps same_ready (peer_update M i p c)"
  "keeps same_ready (cidr_create N d)" "keeps same_ready (cidr_update i d)" "keeps same_ready (cidr_delete i)"
  "keeps same_ready enable"
proof -
  show "keeps same_ready (identify_server key address)"
    unfolding identify_server_def
    by (auto intro!: keeps_transaction keeps_bind keeps_basic keeps_execS ready_update_peer split: prod.splits)
  have "keeps same_ready (terminate_peer M i reason)" for reason
    by (rule keeps_weaker [OF terminate_keeps]) (simp add: same_ready_def same_directory_fields)
  then show "keeps same_ready (peer_update M i p c)"
    unfolding peer_update_def by (auto intro!: keeps_transaction keeps_bind keeps_basic keeps_execS ready_update_peer simp: Let_def)
  show "keeps same_ready (cidr_create N d)" "keeps same_ready (cidr_update i d)" "keeps same_ready (cidr_delete i)"
    unfolding cidr_create_def cidr_update_def cidr_delete_def
    by (auto intro!: keeps_transaction keeps_bind keeps_basic keeps_execS keeps_modS simp: same_ready_def bump_run Let_def
        insert_cidr_def split: if_splits option.splits)
  show "keeps same_ready enable"
    unfolding enable_def by (auto intro!: keeps_bind keeps_basic keeps_modS simp: same_ready_def)
qed

interpretation unready: quiet_effect L "\<lambda>s t. same_ready (mc_db s) (mc_db t)" for L :: "('k, 'g, 'r) manager_lib"
  by (intro tables_effect same_ready_order ready_ops)

text \<open>The tables evolve as they do under all other operations of a server.\<close>

interpretation tables: machine_effect L "\<lambda>s t. evolves (mc_db s) (mc_db t)" for L :: "('k, 'g, 'r) manager_lib"
proof (intro machine_effect.intro machine_effect_axioms.intro tables_effect evolves_refl evolves_trans keeps_at_data)
qed (auto intro: evolves_ops evolves_peer_update)

text \<open>The locks that others hold: all but the one of the machine's own handle.\<close>

definition others_held :: "('k, 'g, 'r) machine \<Rightarrow> string list \<Rightarrow> bool" where
  "others_held s = (case mc_handle s of None \<Rightarrow> tr_held (mc_tree s) | Some dir \<Rightarrow> (tr_held (mc_tree s))(dir := False))"

definition handle_ok :: "('k, 'g, 'r) manager_lib \<Rightarrow> ('k, 'g, 'r) machine \<Rightarrow> bool" where
  "handle_ok L s \<longleftrightarrow> (\<forall>dir. mc_handle s = Some dir \<longrightarrow> mb_parts L = RootDir # map Normal dir \<and> tr_held (mc_tree s) dir)"

definition same_locks :: "('k, 'g, 'r) manager_lib \<Rightarrow> ('k, 'g, 'r) machine \<Rightarrow> ('k, 'g, 'r) machine \<Rightarrow> bool" where
  "same_locks L s t \<longleftrightarrow> (handle_ok L s \<longrightarrow> handle_ok L t \<and> others_held t = others_held s)"

lemma same_locksI: "mc_handle t = mc_handle s \<Longrightarrow> tr_held (mc_tree t) = tr_held (mc_tree s) \<Longrightarrow> same_locks L s t"
  by (cases "mc_handle s") (simp_all add: same_locks_def handle_ok_def others_held_def)

lemma same_locks_order [simp]: "reflp (same_locks L)" "transp (same_locks L)"
  by (auto simp: same_locks_def reflp_def transp_def)

definition same_held :: "tree \<Rightarrow> tree \<Rightarrow> bool" where
  "same_held t u \<longleftrightarrow> tr_held u = tr_held t"

lemma same_held_order [simp]: "reflp same_held" "transp same_held"
  by (auto simp: same_held_def reflp_def transp_def)

lemma open_walk_held: "keeps same_held (open_walk E b parts dir fresh)"
proof (induction parts arbitrary: dir fresh)
  case Nil
  show ?case unfolding open_walk.simps by (rule keeps_simple) simp
next
  case (Cons part rest)
  have "keeps same_held (open_directory E b d)" for d
    unfolding open_directory_def
    by (auto intro!: keeps_bind keeps_simple keeps_modS simp: same_held_def split: option.splits)
  with Cons show ?case
    unfolding open_walk.simps by (auto intro!: keeps_bind keeps_simple split: path_part.splits)
qed

lemma open_lock_fails: "open_lock E dir t = (Inl e, u) \<Longrightarrow> tr_held u = tr_held t"
  by (auto simp: open_lock_def bindS_def guardR_def Let_def split: if_splits sum.splits)

lemma open_lock_holds: "open_lock E dir t = (Inr x, u) \<Longrightarrow> tr_held u = (tr_held t)(dir := True) \<and> \<not> tr_held t dir"
  by (auto simp: open_lock_def bindS_Inr_iff Let_def)

lemma open_walk_same: "open_walk E b parts dir fresh t = (r, v) \<Longrightarrow> tr_held v = tr_held t"
  using keepsD [OF open_walk_held] by (simp add: same_held_def)

lemma open_fails: "open_store E parts b t = (Inl e, u) \<Longrightarrow> tr_held u = tr_held t"
  by (auto simp: open_store_def bindS_Inl_iff close_store_def dest!: open_walk_same open_lock_fails open_lock_holds
      split: if_splits)

lemma open_holds: "open_store E parts b t = (Inr (dir, st), u) \<Longrightarrow> tr_held u = (tr_held t)(dir := True)"
  by (auto simp: open_store_def bindS_Inr_iff dest!: open_walk_same open_lock_holds split: if_splits)

lemma path_of_parts: "RootDir # map Normal dir = RootDir # map Normal dir' \<Longrightarrow> dir = dir'"
  by (simp add: inj_map_eq_map inj_def)

lemma opens_locks: "same_locks L s (snd (manager_open L b s))"
proof (cases "open_store (mb_open L) (mb_parts L) b (mc_tree s)")
  case (Pair r t)
  show ?thesis
  proof (cases r)
    case (Inl e)
    with Pair open_fails [of "mb_open L" "mb_parts L" b "mc_tree s" e t] show ?thesis
      by (simp add: manager_open_def same_locksI)
  next
    case (Inr x)
    obtain dir st where x: "x = (dir, st)" by (cases x)
    note run = Pair [unfolded Inr x]
    note opened = open_store_Ok [OF run] open_holds [OF run]
    have "mc_handle s = None" if "handle_ok L s"
      using that opened path_of_parts [of dir] by (cases "mc_handle s") (auto simp: handle_ok_def)
    moreover have "snd (manager_open L b s) =
        s\<lparr>mc_tree := t, mc_handle := Some dir, mc_world := (mc_world s)\<lparr>wd_store := st\<rparr>\<rparr>"
      by (simp add: manager_open_def run)
    ultimately show ?thesis
      using opened by (auto simp: same_locks_def handle_ok_def others_held_def fun_upd_idem_iff)
  qed
qed

lemma data_locks: "keeps (same_locks L) (at_data m)"
  by (auto simp: keeps_def at_data_def intro!: same_locksI split: prod.splits)

interpretation locks: machine_effect L "same_locks L" for L :: "('k, 'g, 'r) manager_lib"
proof
  show "same_locks L s t" if "same_frame s t" for s t :: "('k, 'g, 'r) machine"
    using that by (simp add: same_frame_def same_locksI)
  show "keeps (same_locks L) (manager_open L b)" for b
    by (simp add: keeps_def opens_locks)
  show "same_locks L s (let_go s)" for s
    by (auto simp: same_locks_def handle_ok_def others_held_def let_go_def close_store_def split: option.splits)
qed (auto intro: data_locks)

end
