(* ===== verification/ManagerClaims.thy ===== *)
theory ManagerClaims
  imports ManagerProps
begin

text \<open>
  What the management of a server promises: a rotation is on the disk or did not happen, the service
  starts with every link protected or not at all, commands leave the lock and the tables in order. And
  how the code fails: with peers that come while it runs, or over the API, and with the order of
  requiring management and enabling the mailbox.
\<close>

section \<open>A rotation and its save\<close>

lemma bt_insert_again: "bt_insert k v (bt_insert k w m) = bt_insert k v m"
  by (induction m) auto

lemma rotation_sets_link:
  assumes "rotation_action fill r n st g = (Inr st', g')"
  shows "\<exists>l l'. bt_get n (sv_links st) = Some l \<and> st' = set_link n l' st"
  using assms
  by (cases r) (auto simp: server_step_defs bindS_Inr_iff liftS_def bindR_def ok_or_def link_of_def
      split: sum.splits if_splits option.splits)

lemma undone: "bt_wf (sv_links st) \<Longrightarrow> bt_get n (sv_links st) = Some l \<Longrightarrow> set_link n l (set_link n l' st) = st"
  by (simp add: set_link_def bt_insert_again bt_insert_same)

lemma links_run: "links s = (Inr st, t) \<longleftrightarrow> mc_links s = Some st \<and> t = s"
  by (auto simp: links_def bindS_def getS_def liftS_def ok_or_def split: option.splits)

lemma save_or_undo_cases:
  assumes "mc_links s = Some st'" "save_or_undo L n (Some l) s = (r, t)"
  shows "\<exists>r1 w. store_save (mb_envelope L) (mb_env L (mc_calls s)) st' (mc_world s) = (r1, w) \<and>
    mc_world t = w \<and> is_ok r = is_ok r1 \<and> mc_links t = Some (if is_ok r1 then st' else set_link n l st')"
proof -
  obtain r1 w where save: "store_save (mb_envelope L) (mb_env L (mc_calls s)) st' (mc_world s) = (r1, w)" by fastforce
  have "links s = (Inr st', s)" using assms(1) by (simp add: links_run)
  then have "save_links L s = (map_err MgStore r1, s\<lparr>mc_world := w, mc_calls := mc_calls s + 1\<rparr>)"
    using save by (simp add: save_links_def bindS_def at_store_def)
  then show ?thesis
    using assms save by (cases r1) (auto simp: save_or_undo_def map_err_def is_ok_def)
qed

text \<open>C19. A rotation step of one link is done as a whole or not at all: when it succeeds, the store holds
what the memory holds, which is the step's result; when it fails, the memory is what it was, the
store holds that too or its handle never writes again, and from every disk on the way a crash leaves
either the old state or the step's result.\<close>

theorem rotation_persisted_or_undone:
  assumes "mc_links s = Some st" "bt_wf (sv_links st)"
    and "cell_holds (mb_envelope L) (mb_env L (mc_calls s)) (mc_world s) (Some st)"
    and "do_rotation L i r s = (res, t)"
  shows "(\<forall>u. res = Inr u \<longrightarrow> (\<exists>n st' g. number_of i = Inr n \<and>
        rotation_action (mb_fill L) r n st (mc_random s) = (Inr st', g) \<and> mc_links t = Some st' \<and>
        cell_holds (mb_envelope L) (mb_env L (mc_calls s)) (mc_world t) (Some st'))) \<and>
    (\<forall>e. res = Inl e \<longrightarrow> mc_links t = Some st \<and>
        (cell_holds (mb_envelope L) (mb_env L (mc_calls s)) (mc_world t) (Some st) \<or> poisoned (mb_envelope L) (mc_world t))) \<and>
    (\<forall>d \<in> set (wd_log (mc_world t)) - set (wd_log (mc_world s)). \<forall>d'. crash d d' \<longrightarrow>
        (\<exists>found. reopened (mb_envelope L) (ev_uid (mb_env L (mc_calls s))) d' = Inr found \<and>
          (found = st \<or> (\<exists>n g. number_of i = Inr n \<and>
            rotation_action (mb_fill L) r n st (mc_random s) = (Inr found, g)))))"
proof (cases "number_of i")
  case (Inl e)
  with assms show ?thesis by (auto simp: do_rotation_def rotate_def bindS_def liftS_def map_err_def)
next
  case (Inr n)
  obtain r1 g where act: "rotation_action (mb_fill L) r n st (mc_random s) = (r1, g)" by fastforce
  have start: "links s = (Inr st, s)" using assms(1) by (simp add: links_run)
  show ?thesis
  proof (cases r1)
    case (Inl e)
    with act assms(4) Inr start have "res = Inl (MgServer SUnavailable)" "t = s\<lparr>mc_random := g\<rparr>"
      by (auto simp: do_rotation_def rotate_def bindS_def liftS_def map_err_def errS_def at_random_def)
    with assms(1,3) show ?thesis by simp
  next
    case step: (Inr st')
    from rotation_sets_link [OF act [unfolded step]] obtain l l' where l: "bt_get n (sv_links st) = Some l" "st' = set_link n l' st"
      by blast
    let ?s = "s\<lparr>mc_random := g, mc_links := Some st'\<rparr>"
    have run: "save_or_undo L n (Some l) ?s = (res, t)"
      using assms(4) Inr start act step l(1)
      by (simp add: do_rotation_def rotate_def bindS_def liftS_def map_err_def errS_def at_random_def set_links_def modS_def)
    have "mc_links ?s = Some st'" by simp
    from save_or_undo_cases [OF this run] obtain r2 w
      where save: "store_save (mb_envelope L) (mb_env L (mc_calls s)) st' (mc_world s) = (r2, w)"
      and t: "mc_world t = w" "is_ok res \<longleftrightarrow> is_ok r2" "mc_links t = Some (if is_ok r2 then st' else set_link n l st')"
      by auto
    have undo: "set_link n l st' = st" using undone [OF assms(2) l(1)] l(2) by simp
    from private_store.put_cases [where held = "Some st", OF _ save] assms(3)
    have "is_ok r2 \<and> cell_holds (mb_envelope L) (mb_env L (mc_calls s)) w (Some st') \<or>
        \<not> is_ok r2 \<and> (cell_holds (mb_envelope L) (mb_env L (mc_calls s)) w (Some st) \<or> poisoned (mb_envelope L) w)"
      by (auto simp: is_ok_def)
    moreover have "reopened (mb_envelope L) (ev_uid (mb_env L (mc_calls s))) d' \<in> {Inr st, Inr st'}"
      if "d \<in> set (wd_log w) - set (wd_log (mc_world s))" "crash d d'" for d d'
      using save_atomic [of "mb_envelope L" "(mb_env L (mc_calls s))\<lparr>ev_fault := (\<lambda>_. False)\<rparr>" "mc_world s" "Some st" st' r2 w]
        assms(3) save that by (simp add: cell_holds_def store_save_def found_def)
    ultimately show ?thesis
      using t undo act step Inr by (auto simp: is_ok_def)
  qed
qed

section \<open>Commands\<close>

lemma closed_command: "mc_handle (snd (command m s)) = None"
  by (auto simp: command_def let_go_def split: prod.splits option.splits)

definition same_handle :: "('k, 'g, 'r) machine \<Rightarrow> ('k, 'g, 'r) machine \<Rightarrow> bool" where
  "same_handle s t \<longleftrightarrow> mc_handle t = mc_handle s"

lemma keeps_handle: "keeps same_handle (at_data m)" "reflp same_handle" "transp same_handle"
  by (auto simp: same_handle_def keeps_def at_data_def reflp_def transp_def split: prod.splits)

lemma keeps_handle_commands:
  "keeps same_handle (rename_peer_cmd L a)" "keeps same_handle (add_cidr L b)" "keeps same_handle (rename_cidr c)"
  "keeps same_handle (delete_cidr L d)" "keeps same_handle enable_pq"
  unfolding rename_peer_cmd_def add_cidr_def rename_cidr_def delete_cidr_def enable_pq_def
  by (auto intro!: keeps_bind keeps_simple keeps_handle split: option.splits prod.splits)

lemma snd_ignoring: "snd (ignoring m s) = snd (m s)"
  by (auto simp: ignoring_def bindS_def retS_def split: prod.splits sum.splits)

lemma command_closes:
  fixes s :: "('k, 'g, 'r) machine"
  assumes "mc_handle s = None"
  shows "mc_handle (snd (run_command L c s)) = None"
proof -
  have data: "mc_handle (snd (m s)) = None" if "keeps same_handle m" for m :: "('k, 'g, 'r, unit) mgrS"
    using that assms by (simp add: keeps_def same_handle_def)
  show ?thesis
    by (cases c)
      (simp_all add: data [OF keeps_handle_commands(1)] data [OF keeps_handle_commands(2)] data [OF keeps_handle_commands(3)]
        data [OF keeps_handle_commands(4)] data [OF keeps_handle_commands(5)] snd_ignoring closed_command serve_def add_peer_cmd_def enable_or_disable_peer_def prepare_def
        stage_management_rotation_def apply_management_rotation_def mark_management_verified_def
        confirm_management_rotation_def rollback_management_rotation_def repair_management_def)
qed

lemma commands_close: "mc_handle s = None \<Longrightarrow> mc_handle (run_commands L cs s) = None"
  unfolding run_commands_def by (induction cs arbitrary: s) (simp_all add: command_closes)

text \<open>C23. However the commands of a server go, and the start of the service with them: afterwards no lock of
the private store is held that was not held before, and the tables keep their invariant.\<close>

theorem commands_keep_server:
  assumes "mc_handle s = None" "server_ok (mc_db s)"
  shows "tr_held (mc_tree (run_commands L cs s)) = tr_held (mc_tree s) \<and> server_ok (mc_db (run_commands L cs s))"
proof -
  have "handle_ok L s" using assms(1) by (simp add: handle_ok_def)
  with locks.all_commands [of L s cs] have "others_held (run_commands L cs s) = others_held s"
    by (simp add: same_locks_def)
  with commands_close [OF assms(1)] assms(1) have "tr_held (mc_tree (run_commands L cs s)) = tr_held (mc_tree s)"
    by (simp add: others_held_def)
  moreover have "server_ok (mc_db (run_commands L cs s))"
    using tables.all_commands [of s L cs] assms(2) by (simp add: evolves_def)
  ultimately show ?thesis by simp
qed

text \<open>C24. The mailbox can be enabled only after a peer has been added by command: as long as readiness is not
latched, no sequence of other commands, among them requiring management and starting the service, makes
\<^verbatim>\<open>enable-pq\<close> succeed.\<close>

theorem enable_pq_needs_added_peer:
  assumes "\<forall>c \<in> set cs. \<not> (\<exists>answer write. c = AddPeer answer write)" "\<not> db_management_ready (mc_db s)"
  shows "run_command L EnablePq (run_commands L cs s) = (Inl (MgServer SInvalidQuery), run_commands L cs s)"
proof -
  have "\<not> db_management_ready (mc_db (run_commands L cs s))"
    using assms
  proof (induction cs arbitrary: s)
    case (Cons c cs)
    have "same_ready (mc_db s) (mc_db (snd (run_command L c s)))"
      using unready.quiet_command [of c L] Cons.prems(1) by (simp add: keeps_def)
    with Cons.prems(2) have "\<not> db_management_ready (mc_db (snd (run_command L c s)))" by (simp add: same_ready_def)
    with Cons.IH [of "snd (run_command L c s)"] Cons.prems(1) show ?case by (simp add: run_commands_def)
  qed (simp add: run_commands_def)
  then show ?thesis
    by (cases "run_commands L cs s") (simp add: enable_pq_def enable_def at_data_def bindS_def getS_def liftS_def guardR_def map_err_def)
qed

section \<open>Starting the service\<close>

lemma at_data_Inr: "at_data m s = (Inr x, t) \<longleftrightarrow> (\<exists>d. m (mc_db s) = (Inr x, d) \<and> t = s\<lparr>mc_db := d\<rparr>)"
  by (auto simp: at_data_def map_err_def split: prod.splits sum.splits)

lemma at_ask_Inr: "at_data (askS q) s = (Inr x, t) \<longleftrightarrow> q (mc_db s) = Inr x \<and> t = s"
  by (auto simp: at_data_def askS_def map_err_def split: sum.splits)

lemma at_store_Inr: "at_store L m s = (Inr x, t) \<longleftrightarrow>
    (\<exists>w. m (mb_env L (mc_calls s)) (mc_world s) = (Inr x, w) \<and> t = s\<lparr>mc_world := w, mc_calls := mc_calls s + 1\<rparr>)"
  by (auto simp: at_store_def map_err_def split: prod.splits sum.splits)

lemma at_kernel_Inr: "at_kernel m s = (Inr x, t) \<longleftrightarrow> (\<exists>k. m (mc_kernel s) = (Inr x, k) \<and> t = s\<lparr>mc_kernel := k\<rparr>)"
  by (auto simp: at_kernel_def map_err_def split: prod.splits sum.splits)

lemma at_random_Inr: "at_random m s = (Inr x, t) \<longleftrightarrow> (\<exists>g. m (mc_random s) = (Inr x, g) \<and> t = s\<lparr>mc_random := g\<rparr>)"
  by (auto simp: at_random_def map_err_def split: prod.splits sum.splits)

lemma map_err_Inr [simp]: "map_err f r = Inr x \<longleftrightarrow> r = Inr x"
  by (cases r) (simp_all add: map_err_def)

lemma set_links_Inr: "set_links l s = (Inr u, t) \<longleftrightarrow> t = s\<lparr>mc_links := Some l\<rparr>"
  by (auto simp: set_links_def modS_def)

lemma manager_open_Inr: "manager_open L b s = (Inr u, t) \<longleftrightarrow>
    (\<exists>dir st x. open_store (mb_open L) (mb_parts L) b (mc_tree s) = (Inr (dir, st), x) \<and>
       t = s\<lparr>mc_tree := x, mc_handle := Some dir, mc_world := (mc_world s)\<lparr>wd_store := st\<rparr>\<rparr>)"
  by (auto simp: manager_open_def split: prod.splits sum.splits)

lemmas machine_Inr = bindS_Inr_iff at_ask_Inr at_store_Inr at_kernel_Inr at_random_Inr set_links_Inr manager_open_Inr

text \<open>A state that some reading of the disk yields.\<close>

definition on_disk :: "'v envelope_lib \<Rightarrow> disk \<Rightarrow> 'v \<Rightarrow> bool" where
  "on_disk J d v \<longleftrightarrow> (\<exists>E w w'. wd_disk w = d \<and> load J E w = (Inr v, w'))"

lemma manager_load_Inr:
  assumes "manager_load L s = (Inr b, t)"
  shows "mc_db t = mc_db s \<and> mc_kernel t = mc_kernel s \<and> (mc_links t = mc_links s \<and> \<not> mc_required s \<or>
    (\<exists>st peers. mc_links t = Some st \<and> on_disk (mb_envelope L) (wd_disk (mc_world s)) st \<and> server_validate st = Inr () \<and>
      is_server (id_of (sv_server_id st)) (mc_db s) = Inr True \<and> peer_list (net_lib_of L) (mc_db s) = Inr peers \<and>
      (\<forall>ip \<in> set peers. unlinked st ip = Inr ())))"
proof (cases "store_absent L s \<and> \<not> mc_required s")
  case True
  with assms show ?thesis by (auto simp: manager_load_def bindS_def getS_def retS_def)
next
  case False
  obtain st w E w1 where "load (mb_envelope L) E w = (Inr st, w1)" "wd_disk w = wd_disk (mc_world s)"
    "mc_db t = mc_db s" "mc_kernel t = mc_kernel s" "mc_links t = Some st" "server_validate st = Inr ()"
    "is_server (id_of (sv_server_id st)) (mc_db s) = Inr True"
    "\<exists>peers. peer_list (net_lib_of L) (mc_db s) = Inr peers \<and> for_each (unlinked st) peers = Inr ()"
    using assms False by (auto simp: manager_load_def machine_Inr split: if_splits)
  then show ?thesis unfolding on_disk_def by auto
qed

lemma serve_load_Inr:
  assumes "serve_load L s = (Inr (manager, peers, bs), t)"
  shows "\<exists>public sid d1. public_key L = Some public \<and>
    identify_server (to_base64 (mb_diff L) public) (mb_address L) (mc_db s) = (Inr sid, d1) \<and>
    (manager = mc_links s \<and> \<not> mc_required s \<or>
     (\<exists>st. manager = Some st \<and> on_disk (mb_envelope L) (wd_disk (mc_world s)) st \<and> server_validate st = Inr () \<and>
       is_server (id_of (sv_server_id st)) d1 = Inr True \<and> (\<forall>ip \<in> set peers. unlinked st ip = Inr ()))) \<and>
    peer_list (net_lib_of L) d1 = Inr peers \<and> mapR (start_config L manager) peers = Inr bs \<and> mc_db t = d1"
proof -
  obtain public sid d1 b where run: "public_key L = Some public"
    "identify_server (to_base64 (mb_diff L) public) (mb_address L) (mc_db s) = (Inr sid, d1)"
    "manager_load L (s\<lparr>mc_db := d1\<rparr>) = (Inr b, t)" "manager = mc_links t"
    "peer_list (net_lib_of L) (mc_db t) = Inr peers" "mapR (start_config L manager) peers = Inr bs"
    using assms by (auto simp: serve_load_def identify_def at_data_Inr machine_Inr)
  with manager_load_Inr [OF run(3)] show ?thesis by auto
qed

lemma serve_up_Inr:
  "serve_up L A bs s = (Inr u, t) \<Longrightarrow>
   \<exists>k. apply_update (mb_sizes L) (mb_kernel L) (add_peers bs update_new) (mb_iface L) k = (Inr (), mc_kernel t)"
  by (auto simp: serve_up_def machine_Inr)

definition same_kernel :: "('k, 'g, 'r) machine \<Rightarrow> ('k, 'g, 'r) machine \<Rightarrow> bool" where
  "same_kernel s t \<longleftrightarrow> mc_kernel t = mc_kernel s"

lemma same_kernel_order [simp]: "reflp same_kernel" "transp same_kernel"
  by (auto simp: same_kernel_def reflp_def transp_def)

lemma same_kernel_parts:
  "keeps same_kernel (at_data m)" "keeps same_kernel (at_store L f)" "keeps same_kernel (manager_open L b)"
  "keeps same_kernel (set_links l)" "keeps same_kernel (at_nft h)"
  by (auto simp: keeps_def same_kernel_def at_data_def at_store_def manager_open_def set_links_def at_nft_def
      split: prod.splits sum.splits)

lemma kernel_untouched: "keeps same_kernel (serve_load L)" "keeps same_kernel (serve_announce L A peers)"
  unfolding serve_load_def serve_announce_def identify_def manager_load_def server_gate_apply_def
  by (auto intro!: keeps_bind keeps_simple same_kernel_parts split: prod.splits)

lemma let_go_kernel [simp]: "mc_kernel (let_go s) = mc_kernel s"
  by (simp add: let_go_def split: option.split)

text \<open>A start that fails before the interface is touched, and one that succeeds.\<close>

lemma serve_refused:
  assumes "\<And>x t. serve_load L s \<noteq> (Inr x, t)"
  shows "\<exists>e t. serve L A s = (Inl e, t) \<and> mc_kernel t = mc_kernel s"
proof -
  obtain e t where run: "serve_load L s = (Inl e, t)"
    using assms by (metis old.sum.exhaust surj_pair)
  with keepsD [OF kernel_untouched(1)] have "mc_kernel t = mc_kernel s" by (auto simp: same_kernel_def)
  with run show ?thesis by (simp add: serve_def command_def bindS_def)
qed

text \<open>Announcing the server's candidates changes no role.\<close>

definition same_roles :: "pq_db \<Rightarrow> pq_db \<Rightarrow> bool" where
  "same_roles s t \<longleftrightarrow> (\<forall>i. is_server i t = is_server i s)"

lemma same_roles_order [simp]: "reflp same_roles" "transp same_roles"
  by (auto simp: same_roles_def reflp_def transp_def)

lemma update_roles: "update_peer i f s = Inr t \<Longrightarrow> (\<And>r. pr_is_server (f r) = pr_is_server r) \<Longrightarrow> same_roles s t"
  by (auto simp: update_peer_def bump_run same_roles_def is_server_def ok_or_def bindR_def split: option.splits if_splits)

lemma roles_kept: "keeps same_roles (peer_update M i p c)"
proof -
  have "keeps same_roles (terminate_peer M i reason)" for reason
    by (rule keeps_weaker [OF terminate_keeps]) (simp add: same_roles_def directory_queries)
  then show ?thesis
    unfolding peer_update_def
    by (auto intro!: keeps_transaction keeps_bind keeps_basic keeps_execS intro: update_roles simp: Let_def)
qed

lemma tables_untouched:
  assumes "reflp Q"
  shows "keeps (\<lambda>s t. Q (mc_db s) (mc_db t)) (at_kernel h)" "keeps (\<lambda>s t. Q (mc_db s) (mc_db t)) (at_nft k)"
  using assms by (auto simp: keeps_def at_kernel_def at_nft_def reflp_def split: prod.splits)

lemma announce_roles:
  "keeps (\<lambda>s t. same_roles (mc_db s) (mc_db t)) (serve_announce L A peers)"
  "keeps (\<lambda>s t. same_roles (mc_db s) (mc_db t)) (serve_up L A bs)"
  unfolding serve_announce_def server_gate_apply_def serve_up_def
  by (auto intro!: keeps_bind keeps_simple on_tables tables_untouched keeps_at_data roles_kept split: prod.splits)

lemma serve_Inr:
  assumes "serve L A s = (Inr res, t)"
  shows "\<exists>manager peers bs u k. serve_load L s = (Inr (manager, peers, bs), u) \<and> same_roles (mc_db u) (mc_db t) \<and>
    apply_update (mb_sizes L) (mb_kernel L) (add_peers bs update_new) (mb_iface L) k = (Inr (), mc_kernel t) \<and>
    res = map_option psks_of manager"
proof -
  obtain manager peers bs u v w where run: "serve_load L s = (Inr (manager, peers, bs), u)"
    "serve_up L A bs (let_go u) = (Inr (), v)" "serve_announce L A peers v = (Inr (), w)" "t = let_go w"
    "res = map_option psks_of manager"
    using assms by (auto simp: serve_def command_def bindS_Inr_iff modS_def split: prod.splits)
  have "mc_kernel t = mc_kernel v"
    using keepsD [OF kernel_untouched(2) run(3)] run(4) by (simp add: same_kernel_def)
  moreover have "same_roles (mc_db u) (mc_db t)"
    using keepsD [OF announce_roles(1) run(3)] keepsD [OF announce_roles(2) run(2)] run(4)
    by (simp add: open_tables same_roles_def)
  ultimately show ?thesis using serve_up_Inr [OF run(2)] run(1,5) by auto
qed

section \<open>Every link is protected\<close>

lemma mapR_member: "mapR f xs = Inr ys \<Longrightarrow> x \<in> set xs \<Longrightarrow> \<exists>y. f x = Inr y \<and> y \<in> set ys"
  by (induction xs arbitrary: ys) (auto simp: bindR_Inr_iff)

lemma mapR_keys: "mapR f xs = Inr ys \<Longrightarrow> (\<And>x y. f x = Inr y \<Longrightarrow> h y = g x) \<Longrightarrow> map h ys = map g xs"
  by (induction xs arbitrary: ys) (auto simp: bindR_Inr_iff)

text \<open>What the builders of other keys leave of a preshared key.\<close>

definition has_psk :: "bytes \<Rightarrow> peer_info option \<Rightarrow> bool" where
  "has_psk psk entry \<longleftrightarrow> (\<exists>info. entry = Some info \<and> pc_preshared_key (pi_config info) = Some psk)"

lemma others_keep_psk:
  "\<forall>b \<in> set bs. pb_public_key b \<noteq> k \<Longrightarrow> has_psk psk (lookup k ps) \<Longrightarrow> has_psk psk (lookup k (effect bs ps))"
proof (induction bs arbitrary: ps)
  case (Cons b bs)
  then have "has_psk psk (lookup k (set_peer (builder_to_nla b) ps))"
    by (auto simp: lookup_set_peer has_psk_def drop_ips_def)
  with Cons show ?case by simp
qed simp

lemma effect_psk:
  assumes "b \<in> set bs" "distinct (map pb_public_key bs)" "\<not> pb_remove_me b" "pb_preshared_key b = Some psk"
  shows "has_psk psk (lookup (pb_public_key b) (effect bs ps))"
proof -
  from assms(1) obtain bs1 bs2 where bs: "bs = bs1 @ b # bs2" by (meson split_list)
  with assms(2) have others: "\<forall>c \<in> set bs2. pb_public_key c \<noteq> pb_public_key b" by (force simp: image_iff)
  have "has_psk psk (lookup (pb_public_key b) (set_peer (builder_to_nla b) (effect bs1 ps)))"
    using assms(3,4) by (simp add: lookup_set_peer has_psk_def built_def Let_def)
  from others_keep_psk [OF others this] show ?thesis by (simp add: bs)
qed

lemma start_config_key:
  assumes "start_config L manager ip = Inr b"
  shows "Some (pb_public_key b) = key_of_text (mb_diff L) (pe_public_key (snd ip))"
proof -
  obtain i p where ip: "ip = (i, p)" by (cases ip)
  have "key_of_text (mb_diff L) (pe_public_key p) = Some (pb_public_key c)" if "builder_of_peer (mb_diff L) (i, p) = Some c" for c
    using that by (auto simp: builder_of_peer_def peer_diff_new_def peer_config_builder_def diff_allowed_ips_def
        diff_keepalive_def diff_endpoint_def builder_defs bindR_def Let_def split: option.splits sum.splits if_splits)
  with assms show ?thesis
    by (auto simp: ip start_config_def linked_config_def bindR_Inr_iff set_preshared_key_def split: option.splits if_splits)
qed

lemma sint_i64: "- i64_bound \<le> i \<Longrightarrow> i < i64_bound \<Longrightarrow> sint (word_of_int i :: u64) = i"
  by (simp add: i64_bound_def sint_sbintrunc' signed_take_bit_int_eq_self_iff)

lemma id_of_number: "number_of i = Inr n \<Longrightarrow> - i64_bound \<le> i \<Longrightarrow> i < i64_bound \<Longrightarrow> id_of n = i"
  by (auto simp: number_of_def number_new_def id_of_def i64_bound_def sint_i64
      split: if_splits)

lemma id_of_inj: "id_of m = id_of n \<longleftrightarrow> m = n"
  by (cases m; cases n) (auto simp: id_of_def intro: signed_word_eqI)

lemma psks_of_link: "bt_get n (sv_links st) = Some link \<Longrightarrow> psks_of st (id_of n) = Some (ml_psk link)"
proof -
  have "map_of (map (\<lambda>(n, link). (id_of n, ml_psk link)) m) (id_of n) = map_option ml_psk (map_of m n)"
    for m :: "(number \<times> management_link) list"
    by (induction m) (auto simp: id_of_inj)
  then show "bt_get n (sv_links st) = Some link \<Longrightarrow> psks_of st (id_of n) = Some (ml_psk link)"
    by (simp add: psks_of_def bt_get_def)
qed

text \<open>Naming the server changes no peer as it is listed.\<close>

lemma mapR_insert:
  "bt_wf m \<Longrightarrow> bt_get k m = Some v \<Longrightarrow> f (k, w) = f (k, v) \<Longrightarrow> mapR f (bt_insert k w m) = mapR f m"
proof (induction m)
  case (Cons e m)
  show ?case
  proof (cases "fst e = k")
    case True
    with Cons.prems show ?thesis by (cases e) (simp add: bt_get_def)
  next
    case False
    with Cons.prems have later: "bt_get k m = Some v" by (cases e) (simp add: bt_get_def)
    then have "k \<in> fst ` set m" by (metis bt_get_None option.distinct(1))
    with Cons.prems(1) have "fst e < k" and m: "bt_wf m" by (auto simp: bt_wf_def)
    then have "\<not> k < fst e" "k \<noteq> fst e" by auto
    with Cons.IH [OF m later Cons.prems(3)] show ?thesis by (cases e) simp
  qed
qed simp

lemma identify_Inr:
  assumes "identify_server key address s = (Inr i, t)"
  shows "t = s \<or> update_peer i (\<lambda>r. r\<lparr>pr_is_server := True\<rparr>) s = Inr t"
  using assms by (auto simp: identify_server_def transaction_def bindS_def askS_def getS_def liftS_def guardR_def retS_def
      ok_or_def execS_def split: sum.splits prod.splits option.splits if_splits)

lemma identify_lists:
  assumes "identify_server key address s = (Inr i, t)" "bt_wf (db_peers s)"
  shows "peer_list N t = peer_list N s"
  using identify_Inr [OF assms(1)]
proof
  assume run: "update_peer i (\<lambda>r. r\<lparr>pr_is_server := True\<rparr>) s = Inr t"
  show ?thesis
  proof (cases "bt_get i (db_peers s)")
    case None
    with run show ?thesis by (simp add: update_peer_def)
  next
    case (Some r)
    with run have "db_peers t = bt_insert i (r\<lparr>pr_is_server := True\<rparr>) (db_peers s)"
      by (auto simp: update_peer_def bump_run split: if_splits)
    with Some assms(2) show ?thesis
      by (simp add: peer_list_def peer_rows_def mapR_insert [of _ i r] peer_from_row_def)
  qed
qed simp

text \<open>C18. When the service starts with management, every enabled peer but the server has on the interface the
secret of its link, which is not the empty one, and the service keeps that secret for it.\<close>

theorem started_links_are_protected:
  assumes "kernel_law (mb_kernel L) (mb_iface L) st" "sizes_law (mb_sizes L)"
    and "serve L A s = (Inr (Some psks), t)" "mc_links s = None"
    and "peer_list (net_lib_of L) (mc_db s) = Inr peers" "bt_wf (db_peers (mc_db s))"
    and "distinct (map (\<lambda>(i, p). key_of_text (mb_diff L) (pe_public_key p)) peers)"
  shows "\<forall>(i, p) \<in> set peers. \<not> pe_is_disabled p \<longrightarrow> is_server i (mc_db t) \<noteq> Inr True \<longrightarrow> - i64_bound \<le> i \<longrightarrow> i < i64_bound \<longrightarrow>
    (\<exists>key psk. key_of_text (mb_diff L) (pe_public_key p) = Some key \<and> psks i = Some psk \<and> psk \<noteq> zero_psk \<and>
       has_psk psk (lookup key (st (mc_kernel t))))"
proof -
  obtain manager peers' bs u k where load: "serve_load L s = (Inr (manager, peers', bs), u)"
    and roles: "same_roles (mc_db u) (mc_db t)"
    and up: "apply_update (mb_sizes L) (mb_kernel L) (add_peers bs update_new) (mb_iface L) k = (Inr (), mc_kernel t)"
    and psks: "Some psks = map_option psks_of manager"
    using serve_Inr [OF assms(3)] by blast
  from serve_load_Inr [OF load] psks assms(4) obtain key sid d1 mgr
    where id: "identify_server key (mb_address L) (mc_db s) = (Inr sid, d1)" and mgr: "manager = Some mgr"
    and valid: "server_validate mgr = Inr ()" and linked: "\<forall>ip \<in> set peers'. unlinked mgr ip = Inr ()"
    and server: "is_server (id_of (sv_server_id mgr)) d1 = Inr True" and d1: "mc_db u = d1"
    and list: "peer_list (net_lib_of L) d1 = Inr peers'" and bs: "mapR (start_config L manager) peers' = Inr bs"
    by auto
  have same: "peers' = peers" using identify_lists [OF id assms(6)] list assms(5) by simp
  have "map (Some \<circ> pb_public_key) bs = map (\<lambda>(i, p). key_of_text (mb_diff L) (pe_public_key p)) peers'"
    by (rule mapR_keys [OF bs]) (auto dest: start_config_key)
  with assms(7) same have "distinct (map (Some \<circ> pb_public_key) bs)" by simp
  then have keys: "distinct (map pb_public_key bs)" by (simp add: distinct_map comp_inj_on_iff inj_on_def)
  have after: "st (mc_kernel t) = effect bs (st k)"
    using applied [OF assms(1,2) up] by (simp add: update_items_peers effect_def)
  show ?thesis
  proof (intro ballI, clarify)
    fix i p
    assume ip0: "(i, p) \<in> set peers" "\<not> pe_is_disabled p" "is_server i (mc_db t) \<noteq> Inr True" "- i64_bound \<le> i" "i < i64_bound"
    then have ip: "(i, p) \<in> set peers" "\<not> pe_is_disabled p" "i \<noteq> id_of (sv_server_id mgr)" "- i64_bound \<le> i" "i < i64_bound"
      using server roles d1 by (auto simp: same_roles_def)
    with linked same have "unlinked mgr (i, p) = Inr ()" by blast
    with ip obtain n where n: "number_of i = Inr n" by (auto simp: unlinked_def bindR_Inr_iff)
    from mapR_member [OF bs] ip(1) same obtain b where b: "start_config L manager (i, p) = Inr b" "b \<in> set bs" by blast
    with n ip mgr obtain link c where link: "bt_get n (sv_links mgr) = Some link"
      and c: "builder_of_peer (mb_diff L) (i, p) = Some c" "b = set_preshared_key (ml_psk link) c"
      by (auto simp: start_config_def linked_config_def bindR_Inr_iff ok_or_def split: option.splits)
    note f = builder_of_peer_fields [OF c(1) ip(2)]
    have "has_psk (ml_psk link) (lookup (pb_public_key b) (effect bs (st k)))"
      by (rule effect_psk [OF b(2) keys]) (use f c(2) in \<open>simp_all add: set_preshared_key_def\<close>)
    moreover have "ml_psk link \<noteq> zero_psk"
    proof -
      have "link \<in> set (bt_values (sv_links mgr))"
        using link by (force simp: bt_values_def bt_get_def dest: map_of_SomeD)
      with valid have "link_validate link = Inr ()" by (auto simp: server_validate_def bindR_Inr_iff)
      then show ?thesis by (auto simp: link_validate_def secret_same_def split: if_splits)
    qed
    moreover have "psks i = Some (ml_psk link)"
      using psks_of_link [OF link] id_of_number [OF n ip(4,5)] psks mgr by simp
    moreover have "key_of_text (mb_diff L) (pe_public_key p) = Some (pb_public_key b)"
      using start_config_key [OF b(1)] by simp
    ultimately show "\<exists>key psk. key_of_text (mb_diff L) (pe_public_key p) = Some key \<and> psks i = Some psk \<and>
        psk \<noteq> zero_psk \<and> has_psk psk (lookup key (st (mc_kernel t)))"
      using after by auto
  qed
qed

section \<open>Peers without a link\<close>

lemma peer_create_Inr:
  assumes "peer_create N c s = (Inr x, t)"
  shows "x = (db_max_peer_id s + 1, c) \<and>
    (\<exists>r. insert_peer (db_max_peer_id s + 1) r s = Inr t \<and> bt_get (db_max_peer_id s + 1) (db_peers t) = Some r \<and>
      pr_is_disabled r = pe_is_disabled c)"
  using assms by (auto simp: peer_create_def bindS_Inr_iff askS_def insert_peer_def bump_run split: if_splits)

lemma identify_row:
  assumes "identify_server key address s = (Inr j, t)" "bt_get i (db_peers s) = Some r"
  shows "\<exists>r'. bt_get i (db_peers t) = Some r' \<and> pr_is_disabled r' = pr_is_disabled r"
  using identify_Inr [OF assms(1)] assms(2)
  by (auto simp: update_peer_def bump_run split: option.splits if_splits)

lemma admin_peer_create_Inr:
  assumes "admin_peer_create C form w = (Inr (AnsPeer x), v)"
  shows "peer_create (net_of C) form (fr_db (wb_front w)) = (Inr x, fr_db (wb_front v))"
proof -
  have front: "wb_front v' = wb_front u" if "apply_kernel C b u = (r, v')" for b u r v'
    using that by (auto simp: apply_kernel_def split: prod.splits)
  from assms show ?thesis
    by (auto simp: admin_peer_create_def bindS_Inr_iff at_db_Inr liftS_def dest!: front)
qed

text \<open>C22. In a network that requires management, a peer that an administrator creates over the API keeps the
server from starting: its identifier is new, so there is no link of it, and however the database
and the disk have changed since, a start is refused before the interface is touched as long as the
peer is enabled and the links on the disk have none for it.\<close>

theorem api_peer_blocks_start:
  assumes "admin_peer_create C form w = (Inr (AnsPeer (i, p)), v)" "\<not> pe_is_disabled form"
    and "0 \<le> db_max_peer_id (fr_db (wb_front w))"
  shows "db_max_peer_id (fr_db (wb_front w)) < i \<and>
    (\<exists>r. bt_get i (db_peers (fr_db (wb_front v))) = Some r \<and> \<not> pr_is_disabled r) \<and>
    (\<forall>s r. mc_required s \<longrightarrow> bt_get i (db_peers (mc_db s)) = Some r \<longrightarrow> \<not> pr_is_disabled r \<longrightarrow>
       (\<forall>st. on_disk (mb_envelope L) (wd_disk (mc_world s)) st \<longrightarrow>
          (\<forall>n \<in> insert (sv_server_id st) (set (bt_keys (sv_links st))). id_of n \<noteq> i)) \<longrightarrow>
       (\<exists>e t. serve L A s = (Inl e, t) \<and> mc_kernel t = mc_kernel s))"
proof -
  let ?m = "db_max_peer_id (fr_db (wb_front w))"
  obtain row where i: "i = ?m + 1" and row: "bt_get i (db_peers (fr_db (wb_front v))) = Some row" "\<not> pr_is_disabled row"
    and bound: "i < i64_bound"
    using admin_peer_create_Inr [OF assms(1)] assms(2)
    by (auto simp: insert_peer_def split: if_splits dest!: peer_create_Inr)
  have "\<exists>e t. serve L A s = (Inl e, t) \<and> mc_kernel t = mc_kernel s"
    if required: "mc_required s" and r: "bt_get i (db_peers (mc_db s)) = Some r" "\<not> pr_is_disabled r"
      and none: "\<forall>st. on_disk (mb_envelope L) (wd_disk (mc_world s)) st \<longrightarrow>
        (\<forall>n \<in> insert (sv_server_id st) (set (bt_keys (sv_links st))). id_of n \<noteq> i)" for s r
  proof (rule serve_refused)
    fix x t
    show "serve_load L s \<noteq> (Inr x, t)"
    proof
      obtain manager peers bs where x: "x = (manager, peers, bs)" by (rule prod_cases3)
      assume "serve_load L s = (Inr x, t)"
      from serve_load_Inr [OF this [unfolded x]] required obtain key sid d1 mgr
        where id: "identify_server key (mb_address L) (mc_db s) = (Inr sid, d1)"
        and disk: "on_disk (mb_envelope L) (wd_disk (mc_world s)) mgr"
        and linked: "\<forall>ip \<in> set peers. unlinked mgr ip = Inr ()" and list: "peer_list (net_lib_of L) d1 = Inr peers"
        by auto
      from identify_row [OF id r(1)] r(2) obtain r' where r': "bt_get i (db_peers d1) = Some r'" "\<not> pr_is_disabled r'" by auto
      have rows: "peer_rows (net_lib_of L) (db_peers d1) = Inr peers" using list by (simp add: peer_list_def)
      have mem: "(i, r') \<in> set (db_peers d1)" using r'(1) by (simp add: bt_get_def map_of_SomeD)
      from peer_rows_all [OF rows mem] obtain q where q: "peer_from_row (net_lib_of L) r' = Inr q" by blast
      with peer_rows_mem [OF rows] mem have "(i, q) \<in> set peers" by blast
      moreover have "\<not> pe_is_disabled q" using peer_from_row_fields [OF q] r'(2) by simp
      moreover have "i \<noteq> id_of (sv_server_id mgr)" using none disk by fastforce
      ultimately obtain n where n: "number_of i = Inr n" "bt_get n (sv_links mgr) \<noteq> None"
        using linked by (fastforce simp: unlinked_def bindR_Inr_iff)
      have "id_of n = i" using id_of_number [OF n(1)] bound i assms(3) by (simp add: i64_bound_def)
      moreover have "n \<in> set (bt_keys (sv_links mgr))" using n(2) by (simp add: bt_get_None bt_keys_def)
      ultimately show False using none disk by fastforce
    qed
  qed
  with i row show ?thesis by auto
qed

section \<open>Peers that come late\<close>

lemma enrollment_psk: "enrollment_of st i = Inr e \<Longrightarrow> me_peer_id e = word_of_int i \<and> me_psk e \<noteq> zero_psk"
  by (auto simp: enrollment_of_def bindR_Inr_iff secret_key_from_bytes_def zero_psk_def ok_or_def split: option.splits if_splits)

lemma provision_new_peer_Inr: "provision_new_peer L i s = (Inr e, t) \<Longrightarrow> \<exists>st. enrollment_of st i = Inr e"
  by (auto simp: provision_new_peer_def bindS_Inr_iff)

lemma open_or_create_required: "open_or_create L s = (Inr b, t) \<Longrightarrow> mc_required s \<Longrightarrow> b"
  by (auto simp: open_or_create_def bindS_Inr_iff split: if_splits)

text \<open>C21. A peer that is added while the service runs is invited with the secret of its new link; but the
service keeps the secrets it loaded when it started. So when that peer redeems its invitation, its
entry on the interface is replaced by one without the secret.\<close>

theorem late_peer_loses_psk:
  assumes "add_peer_cmd L (Some (peer_contents, private_key)) write s = (Inr (), t)" "mc_required s"
    and "cx_management C = Some psks" "\<forall>i > db_max_peer_id (mc_db s). psks i = None"
    and "kernel_law (cx_kernel C) (cx_iface C) st" "sizes_law (cx_sizes C)"
    and "\<And>bs k. \<exists>k'. apply_update (cx_sizes C) (cx_kernel C) (add_peers bs update_new) (cx_iface C) k = (Inr (), k')"
  shows "\<exists>i inv e. bt_get i (db_peers (mc_db s)) = None \<and> write inv \<and> iv_management inv = Some e \<and>
    me_peer_id e = word_of_int i \<and> me_psk e \<noteq> zero_psk \<and>
    (\<forall>task p key w. rt_peer task = (i, p) \<longrightarrow> \<not> pe_is_disabled p \<longrightarrow>
       key_of_text (cx_diff C) (pe_public_key p) = Some key \<longrightarrow> key \<noteq> rt_old_key task \<longrightarrow>
       lookup key (st (wb_kernel w)) = None \<longrightarrow>
       (\<exists>info. lookup key (st (wb_kernel (run_task C task w))) = Some info \<and> pc_preshared_key (pi_config info) = None))"
proof -
  let ?i = "db_max_peer_id (mc_db s) + 1"
  obtain x d b s1 s2 enrollment s3 inv where run: "peer_create (net_lib_of L) peer_contents (mc_db s) = (Inr x, d)"
    "open_or_create L s1 = (Inr b, s2)" "s1 = s\<lparr>mc_db := d\<rparr>" "provision_if L b (fst x) s2 = (Inr enrollment, s3)"
    "write inv" "iv_management inv = enrollment"
    using assms(1)
    by (auto simp: add_peer_cmd_def command_def at_data_Inr bindS_Inr_iff at_ask_Inr getS_def split: prod.splits)
  have b: "b" using open_or_create_required [OF run(2)] run(3) assms(2) by simp
  from peer_create_Inr [OF run(1)] have i: "fst x = ?i" and new: "bt_get ?i (db_peers (mc_db s)) = None"
    by (auto simp: insert_peer_def split: if_splits)
  obtain e where "enrollment = Some e" "provision_new_peer L ?i s2 = (Inr e, s3)"
    using run(4) b i by (auto simp: provision_if_def bindS_Inr_iff)
  with provision_new_peer_Inr enrollment_psk have e: "iv_management inv = Some e" "me_peer_id e = word_of_int ?i" "me_psk e \<noteq> zero_psk"
    using run(6) by (metis, metis, metis)
  have "\<exists>info. lookup key (st (wb_kernel (run_task C task w))) = Some info \<and> pc_preshared_key (pi_config info) = None"
    if "rt_peer task = (?i, p)" "\<not> pe_is_disabled p" "key_of_text (cx_diff C) (pe_public_key p) = Some key"
      "key \<noteq> rt_old_key task" "lookup key (st (wb_kernel w)) = None" for task p key w
    using redeemed_entry [OF assms(5-7) that] assms(3,4) by auto
  with run(5) e new show ?thesis by blast
qed

section \<open>A rotation comes to its end\<close>

text \<open>A store on which every call works, with room for the next temporary file and for the values \<open>V\<close>.\<close>

definition writable :: "'v envelope_lib \<Rightarrow> store_env \<Rightarrow> 'v set \<Rightarrow> world \<Rightarrow> bool" where
  "writable J E V w \<longleftrightarrow> (\<forall>c. \<not> ev_fails E c) \<and> owned_file (ev_uid E) (new_file E) = Inr () \<and>
     (\<exists>suffix. ev_suffix E = Some suffix \<and> dk_entries (wd_disk w) (temp_name suffix) = None) \<and>
     (\<forall>g. \<forall>v \<in> V. \<exists>bs. en_print J 1 g v = Some bs \<and> length bs \<le> max_bytes)"

lemma check_handle_holds:
  assumes "store_inv J (ev_uid E) (wd_store w) (wd_disk w) (Some v)" "\<forall>c. \<not> ev_fails E c"
  shows "check_handle J E w = Inr ()"
proof -
  obtain f where f: "dk_entries (wd_disk w) state_name = Some f" "state_file J (ev_uid E) f (st_generation (wd_store w)) v"
    "hash (en_crypto J) (fl_bytes f) = Inr (the (st_digest (wd_store w)))" "st_digest (wd_store w) \<noteq> None" "\<not> st_fresh (wd_store w)"
    using assms(1) by (auto simp: store_inv_def)
  have "fl_kind f \<noteq> Symlink" using f(2) not_symlink by (force simp: state_file_def)
  then have "read_state E (wd_disk w) = Inr (fl_bytes f)"
    using f(1,2) assms(2) by (auto simp: read_state_def open_existing_def state_file_def bindR_def ok_or_def guardR_def Let_def)
  with f(2-5) show ?thesis
    by (auto simp: check_handle_def check_current_def state_file_def bindR_def ok_or_def guardR_def map_err_def)
qed

lemma save_succeeds:
  assumes "cell_holds J E w (Some v0)" "writable J E V w" "v \<in> V" "unat (st_generation (wd_store w)) + 1 < 2 ^ 64"
  shows "\<exists>w'. store_save J E v w = (Inr (), w') \<and> writable J E V w' \<and>
    unat (st_generation (wd_store w')) = unat (st_generation (wd_store w)) + 1"
proof -
  let ?E = "E\<lparr>ev_fault := (\<lambda>_. False)\<rparr>"
  have checked: "check_handle J ?E w = Inr ()"
    using assms(1,2) check_handle_holds [of J ?E w v0] by (simp add: cell_holds_def writable_def)
  obtain g where g: "checked_add64 (st_generation (wd_store w)) 1 = Some g" "unat g = unat (st_generation (wd_store w)) + 1"
    using assms(4) by (simp add: checked_add64_def Let_def unat_word_ariths)
  from assms(2,3) obtain suffix bs where name: "ev_suffix E = Some suffix" "dk_entries (wd_disk w) (temp_name suffix) = None"
    and bs: "en_print J 1 g v = Some bs" "length bs \<le> max_bytes" and owned: "owned_file (ev_uid E) (new_file E) = Inr ()"
    and works: "\<forall>c. \<not> ev_fails E c"
    unfolding writable_def by meson
  have "new_file ?E = new_file E" by (simp add: new_file_def)
  then obtain digest where digest: "hash (en_crypto J) bs = Inr digest" "owned_file (ev_uid ?E) (new_file ?E) = Inr ()"
    using assms(1) owned by (auto simp: cell_holds_def hash_works_def is_ok_iff)
  obtain w' where run: "save_checked J ?E v w = (Inr (), w')" and w': "st_generation (wd_store w') = g"
      "dk_entries (wd_disk w') (temp_name suffix) = None"
    using checked g name bs digest works
    by (simp add: save_checked_folded bindS_def getS_def liftS_def ok_or_def guardR_def create_temp_def change_disk_def modS_def
        or_unlink_def replace_state_def fault_at_def write_temp_def sync_temp_def rename_temp_def sync_directory_def
        update_entry_def map_err_def)
  with g name assms(2) show ?thesis by (auto simp: store_save_def writable_def)
qed

text \<open>One step of a rotation on a store that works.\<close>

definition rotating :: "('k, 'g, 'r) manager_lib \<Rightarrow> store_env \<Rightarrow> server_state set \<Rightarrow> ('k, 'g, 'r) machine \<Rightarrow> server_state \<Rightarrow> nat \<Rightarrow> bool" where
  "rotating L E V s st room \<longleftrightarrow> mb_env L = (\<lambda>_. E) \<and> mc_links s = Some st \<and> cell_holds (mb_envelope L) E (mc_world s) (Some st) \<and>
     writable (mb_envelope L) E V (mc_world s) \<and> unat (st_generation (wd_store (mc_world s))) + room < 2 ^ 64"

lemma links_saved:
  assumes "rotating L E V s st (Suc room)" "mc_links u = Some st'" "mc_world u = mc_world s" "st' \<in> V"
  shows "\<exists>t. save_or_undo L n before u = (Inr (), t) \<and> rotating L E V t st' room"
proof -
  from assms(1) obtain w' where save: "store_save (mb_envelope L) E st' (mc_world s) = (Inr (), w')"
    "writable (mb_envelope L) E V w'" "unat (st_generation (wd_store w')) = unat (st_generation (wd_store (mc_world s))) + 1"
    using save_succeeds [of "mb_envelope L" E "mc_world s" st V st'] assms(4) by (auto simp: rotating_def)
  have "cell_holds (mb_envelope L) E w' (Some st')"
    using private_store.put_Ok [OF _ save(1)] assms(1) by (auto simp: rotating_def)
  moreover have "links u = (Inr st', u)" using assms(2) by (simp add: links_run)
  ultimately show ?thesis
    using assms save
    by (auto simp: save_or_undo_def save_links_def bindS_def at_store_def rotating_def map_err_def)
qed

lemma rotation_step:
  assumes "rotating L E V s st (Suc room)" "number_of i = Inr n"
    and "rotation_action (mb_fill L) r n st (mc_random s) = (Inr st', g)" "st' \<in> V"
  shows "\<exists>t. do_rotation L i r s = (Inr (), t) \<and> rotating L E V t st' room"
proof -
  have "links s = (Inr st, s)" using assms(1) by (simp add: rotating_def links_run)
  then have "do_rotation L i r s = save_or_undo L n (bt_get n (sv_links st)) (s\<lparr>mc_random := g, mc_links := Some st'\<rparr>)"
    using assms(2,3)
    by (simp add: do_rotation_def rotate_def bindS_def liftS_def map_err_def errS_def at_random_def set_links_def modS_def)
  with links_saved [OF assms(1), of "s\<lparr>mc_random := g, mc_links := Some st'\<rparr>" st'] assms(4) show ?thesis by simp
qed

lemma verified_step:
  assumes "rotating L E V s st (Suc room)" "number_of i = Inr n" "bt_get n (sv_links st) = Some l" "\<not> ml_verified l"
    and "set_link n (l\<lparr>ml_verified := True\<rparr>) st \<in> V"
  shows "\<exists>t. mark_verified L i s = (Inr (), t) \<and> rotating L E V t (set_link n (l\<lparr>ml_verified := True\<rparr>) st) room"
proof -
  let ?st = "set_link n (l\<lparr>ml_verified := True\<rparr>) st"
  have "links s = (Inr st, s)" using assms(1) by (simp add: rotating_def links_run)
  then have "mark_verified L i s = save_or_undo L n (Some l) (s\<lparr>mc_links := Some ?st\<rparr>)"
    using assms(2-4) by (simp add: mark_verified_def bindS_def liftS_def map_err_def ok_or_def set_links_def modS_def)
  with links_saved [OF assms(1), of "s\<lparr>mc_links := Some ?st\<rparr>" ?st] assms(5) show ?thesis by simp
qed

definition link_keys :: "management_link \<Rightarrow> staged_link set" where
  "link_keys l = insert (link_active l) (set_option (ml_staged l) \<union> set_option (ml_previous l))"

text \<open>C20. A rotation comes to its end: where the store works and has room for the states of this link, staging a secret, applying it, marking it verified
and confirming it all succeed, and then the live secret is the staged one, verified, with nothing
staged or superseded, in the memory and in the store.\<close>

theorem rotation_completes:
  assumes "rotating L E {set_link n l' st |l'. link_keys l' \<subseteq> insert (drawn\<lparr>sl_psk := psk\<rparr>) (link_keys l)} s st 4" "number_of i = Inr n" "n \<noteq> sv_server_id st" "bt_get n (sv_links st) = Some l"
    and "ml_staged l = None" "psk \<noteq> zero_psk" "staged_generate (mb_fill L) (mc_random s) = (Inr drawn, g)"
  shows "\<exists>s1 s2 s3 s4 st' l'. do_rotation L i (Stage (Some psk)) s = (Inr (), s1) \<and> do_rotation L i Apply s1 = (Inr (), s2) \<and>
    mark_verified L i s2 = (Inr (), s3) \<and> do_rotation L i Confirm s3 = (Inr (), s4) \<and>
    mc_links s4 = Some st' \<and> cell_holds (mb_envelope L) E (mc_world s4) (Some st') \<and>
    bt_get n (sv_links st') = Some l' \<and> ml_psk l' = psk \<and> ml_verified l' \<and> ml_staged l' = None \<and> ml_previous l' = None"
proof -
  define l1 where "l1 = l\<lparr>ml_staged := Some (drawn\<lparr>sl_psk := psk\<rparr>)\<rparr>"
  obtain l2 where l2: "apply_rotation l1 = Inr l2" and l2_fields: "ml_psk l2 = psk" "\<not> ml_verified l2" "ml_staged l2 = None"
      "ml_previous l2 \<noteq> None"
    by (simp add: apply_rotation_def l1_def)
  let ?V = "{set_link n l' st |l'. link_keys l' \<subseteq> insert (drawn\<lparr>sl_psk := psk\<rparr>) (link_keys l)}"
  define st1 st2 where "st1 = set_link n l1 st" and "st2 = set_link n l2 st1"
  define l3 where "l3 = l2\<lparr>ml_verified := True\<rparr>"
  define st3 st4 where "st3 = set_link n l3 st2" and "st4 = set_link n (l3\<lparr>ml_previous := None\<rparr>) st3"
  have staged: "rotation_action (mb_fill L) (Stage (Some psk)) n st (mc_random s) = (Inr st1, g)"
    using assms(3-7)
    by (simp add: server_stage_rotation_def link_of_def stage_rotation_def bindS_def liftS_def ok_or_def staged_validate_def
        secret_same_def l1_def st1_def Let_def retS_def)
  have at: "bt_get n (sv_links st1) = Some l1" "bt_get n (sv_links st2) = Some l2" "bt_get n (sv_links st3) = Some l3"
    "sv_server_id st1 = sv_server_id st" "sv_server_id st2 = sv_server_id st" "sv_server_id st3 = sv_server_id st"
    by (simp_all add: st1_def st2_def st3_def set_link_def)
  have applied: "rotation_action (mb_fill L) Apply n st1 r = (Inr st2, r)" for r
    using at assms(3) l2 by (simp add: server_apply_rotation_def link_of_def bindR_def ok_or_def liftS_def st2_def)
  have confirmed: "rotation_action (mb_fill L) Confirm n st3 r = (Inr st4, r)" for r
    using at assms(3) l2_fields
    by (simp add: server_confirm_rotation_def confirm_rotation_def link_of_def bindR_def ok_or_def liftS_def st4_def l3_def)
  have again: "set_link n b (set_link n a st) = set_link n b st" for a b by (simp add: set_link_def bt_insert_again)
  have "apply_rotation l1 = Inr l2" by (rule l2)
  then have keys: "link_keys l1 \<subseteq> insert (drawn\<lparr>sl_psk := psk\<rparr>) (link_keys l)" "link_keys l2 \<subseteq> insert (drawn\<lparr>sl_psk := psk\<rparr>) (link_keys l)"
    by (auto simp: link_keys_def l1_def apply_rotation_def link_active_def)
  then have in_V: "st1 \<in> ?V" "st2 \<in> ?V" "set_link n (l2\<lparr>ml_verified := True\<rparr>) st2 \<in> ?V" "st4 \<in> ?V"
    unfolding st1_def st2_def st3_def st4_def again l3_def by (auto simp: link_keys_def link_active_def)
  have room: "rotating L E ?V s st (Suc (Suc (Suc (Suc 0))))" using assms(1) by (simp add: eval_nat_numeral)
  from rotation_step [OF this assms(2) staged in_V(1)] obtain s1
    where s1: "do_rotation L i (Stage (Some psk)) s = (Inr (), s1)" "rotating L E ?V s1 st1 (Suc (Suc (Suc 0)))" by blast
  from rotation_step [OF s1(2) assms(2) applied in_V(2)] obtain s2
    where s2: "do_rotation L i Apply s1 = (Inr (), s2)" "rotating L E ?V s2 st2 (Suc (Suc 0))" by blast
  from verified_step [OF s2(2) assms(2) at(2) l2_fields(2) in_V(3)] obtain s3
    where s3: "mark_verified L i s2 = (Inr (), s3)" "rotating L E ?V s3 st3 (Suc 0)"
    by (auto simp: st3_def l3_def)
  from rotation_step [OF s3(2) assms(2) confirmed in_V(4)] obtain s4
    where s4: "do_rotation L i Confirm s3 = (Inr (), s4)" "rotating L E ?V s4 st4 0" by blast
  have "bt_get n (sv_links st4) = Some (l3\<lparr>ml_previous := None\<rparr>)" by (simp add: st4_def set_link_def)
  moreover have "mc_links s4 = Some st4" "cell_holds (mb_envelope L) E (mc_world s4) (Some st4)"
    using s4(2) by (simp_all add: rotating_def)
  ultimately show ?thesis
    using s1(1) s2(1) s3(1) s4(1) l2_fields
    by (intro exI [of _ s1] exI [of _ s2] exI [of _ s3] exI [of _ s4] exI [of _ st4] exI [of _ "l3\<lparr>ml_previous := None\<rparr>"])
      (simp add: l3_def)
qed

end
