(* ===== verification/ManagerWitness.thy ===== *)
theory ManagerWitness
  imports ManagerClaims
begin

text \<open>
  A small network that requires management, with a server, two peers and their links, on which the
  properties of \<open>ManagerClaims\<close> are applied.
\<close>

section \<open>A file that holds one of finitely many states\<close>

fun pos :: "'v \<Rightarrow> 'v list \<Rightarrow> nat option" where
  "pos x [] = None"
| "pos x (y # ys) = (if x = y then Some 0 else map_option Suc (pos x ys))"

lemma pos_Some: "pos x ys = Some k \<Longrightarrow> k < length ys \<and> ys ! k = x"
  by (induction ys arbitrary: k) (auto split: if_splits)

lemma pos_mem: "x \<in> set ys \<Longrightarrow> \<exists>k. pos x ys = Some k"
  by (induction ys) auto

definition listed_envelope :: "'v list \<Rightarrow> 'v envelope_lib" where
  "listed_envelope vs = \<lparr>en_crypto = toy_lib,
     en_print = (\<lambda>v g x. map_option (\<lambda>k. [v] @ be64 g @ [word_of_nat k]) (pos x vs)),
     en_version = (\<lambda>bs. case bs of [] \<Rightarrow> None | v # _ \<Rightarrow> Some v),
     en_generation = (\<lambda>bs. if length bs = 10 then Some (hd bs, of_be64 (take 8 (tl bs))) else None),
     en_parse = (\<lambda>bs. if length bs = 10 \<and> unat (last bs) < length vs
        then Some (hd bs, of_be64 (take 8 (tl bs)), vs ! unat (last bs)) else None)\<rparr>"

lemma listed_envelope_law:
  assumes "length vs \<le> 256"
  shows "envelope_law (listed_envelope vs)"
proof -
  have "unat (word_of_nat k :: byte) = k" if "k < length vs" for k
    using that assms by (simp add: unat_of_nat)
  then show ?thesis
    by (auto simp: envelope_law_def listed_envelope_def dest!: pos_Some)
qed

lemma listed_hash: "hash_works (en_crypto (listed_envelope vs))"
  by (simp add: hash_works_def listed_envelope_def toy_ops)

section \<open>The network\<close>

definition office_net :: net_lib where
  "office_net = sample_net\<lparr>nl_endpoint_parse := \<lambda>_. Some \<lparr>hp_host = HostV4 1, hp_port = 51820\<rparr>\<rparr>"

definition office_db :: pq_db where
  "office_db = sample_db\<lparr>db_management_ready := False, db_enabled := False,
     db_peers := [(1, (sample_row 1 True)\<lparr>pr_endpoint := Some []\<rparr>), (2, sample_row 2 False), (3, sample_row 3 False)]\<rparr>"

definition office_link :: management_link where
  "office_link = \<lparr>ml_provision_id = [1], ml_psk = [2], ml_verified = True, ml_staged = None, ml_previous = None\<rparr>"

definition office_links :: server_state where
  "office_links = \<lparr>sv_network_id = replicate 16 1, sv_server_id = Number 1, sv_server_public_key = replicate 32 1,
     sv_links = [(Number 2, office_link), (Number 3, office_link)]\<rparr>"

text \<open>The states of the second peer's link during a rotation, and the state with a link of a fourth peer.\<close>

definition drawn_link :: staged_link where
  "drawn_link = \<lparr>sl_provision_id = replicate 16 1, sl_psk = [5]\<rparr>"

fun office_rotation :: "staged_link \<times> bool \<times> staged_link option \<times> staged_link option \<Rightarrow> server_state" where
  "office_rotation (a, v, b, c) = set_link (Number 2)
     \<lparr>ml_provision_id = sl_provision_id a, ml_psk = sl_psk a, ml_verified = v, ml_staged = b, ml_previous = c\<rparr> office_links"

definition office_rotations :: "(staged_link \<times> bool \<times> staged_link option \<times> staged_link option) list" where
  "office_rotations = (let links = [link_active office_link, drawn_link]; others = None # map Some links in
     List.product links (List.product [True, False] (List.product others others)))"

definition office_states :: "server_state list" where
  "office_states = [office_links,
     set_link (Number 4) \<lparr>ml_provision_id = replicate 16 1, ml_psk = replicate 32 2, ml_verified = False, ml_staged = None, ml_previous = None\<rparr> office_links]
     @ map office_rotation office_rotations"

lemma product_mem:
  "(a, v, b, c) \<in> set (List.product xs (List.product [True, False] (List.product ys ys))) \<longleftrightarrow>
     a \<in> set xs \<and> b \<in> set ys \<and> c \<in> set ys"
  by auto

lemma office_rotations_mem:
  "(a, v, b, c) \<in> set office_rotations \<longleftrightarrow> a \<in> {link_active office_link, drawn_link} \<and>
     b \<in> insert None (Some ` {link_active office_link, drawn_link}) \<and> c \<in> insert None (Some ` {link_active office_link, drawn_link})"
  unfolding office_rotations_def Let_def product_mem by (simp only: list.set set_map)

lemma office_states_length: "length office_states \<le> 256"
  by (simp add: office_states_def office_rotations_def Let_def)

definition office_open :: open_env where
  "office_open = \<lparr>oe_uid = 7, oe_umask = 0, oe_fails = (\<lambda>_. False)\<rparr>"

definition office_tree :: tree where
  "office_tree = \<lparr>tr_nodes = [[''etc''] \<mapsto> \<lparr>dn_kind = Directory, dn_uid = 0, dn_mode = 493\<rparr>,
       [''etc'', ''pq''] \<mapsto> \<lparr>dn_kind = Directory, dn_uid = 7, dn_mode = 448\<rparr>],
     tr_lock_files = Map.empty, tr_held = (\<lambda>_. False)\<rparr>"

definition office :: "(peer_info list, unit, nat) manager_lib" where
  "office = \<lparr>mb_mail = sample_mail\<lparr>ml_net := office_net\<rparr>, mb_diff = sample_diff, mb_open = office_open,
     mb_parts = [RootDir, Normal ''etc'', Normal ''pq''], mb_env = (\<lambda>_. sample_env), mb_envelope = listed_envelope office_states,
     mb_artifact = (\<lambda>_. Some [1]), mb_adopted = (\<lambda>_. None), mb_write_config = True, mb_private = Some [7],
     mb_get_public = (\<lambda>_. replicate 32 1), mb_address = IpV4 1, mb_port = 51820, mb_fill = sample_fill, mb_iface = ''wg0'',
     mb_sizes = sample_sizes, mb_kernel = sample_kernel, mb_nft = (\<lambda>_ g. (Ok (), g))\<rparr>"

lemma office_parts [simp]:
  "mb_mail office = sample_mail\<lparr>ml_net := office_net\<rparr>" "mb_diff office = sample_diff" "mb_env office n = sample_env"
  "mb_open office = office_open" "mb_parts office = [RootDir, Normal ''etc'', Normal ''pq'']"
  "mb_envelope office = listed_envelope office_states" "public_key office = Some (replicate 32 1)" "mb_address office = IpV4 1"
  "mb_fill office = sample_fill" "mb_iface office = ''wg0''" "mb_sizes office = sample_sizes" "mb_kernel office = sample_kernel"
  "net_lib_of office = office_net" "mb_port office = 51820" "mb_private office = Some [7]" "mb_nft office x = (\<lambda>g. (Ok (), g))"
  by (simp_all add: office_def public_key_def net_lib_of_def)

definition office_machine :: "world \<Rightarrow> (peer_info list, unit, nat) machine" where
  "office_machine w = \<lparr>mc_db = office_db, mc_tree = office_tree, mc_world = w, mc_calls = 0, mc_handle = None, mc_links = None,
     mc_required = True, mc_random = 0, mc_kernel = [], mc_gate = ()\<rparr>"

lemma office_machine_simps [simp]:
  "mc_db (office_machine w) = office_db" "mc_tree (office_machine w) = office_tree" "mc_world (office_machine w) = w"
  "mc_calls (office_machine w) = n \<longleftrightarrow> n = 0" "mc_handle (office_machine w) = None" "mc_links (office_machine w) = None"
  "mc_required (office_machine w)" "mc_random (office_machine w) = 0" "mc_kernel (office_machine w) = []"
  by (auto simp: office_machine_def)

text \<open>The store after its first save, which is the one of the links.\<close>

lemma office_saved:
  "\<exists>w. cell_holds (listed_envelope office_states) sample_env w (Some office_links) \<and> unat (st_generation (wd_store w)) = 1 \<and>
    dk_entries (wd_disk w) (temp_name [1, 171]) = None"
proof -
  have "pos office_links office_states = Some 0" by (simp add: office_states_def)
  then obtain w where w: "store_save (listed_envelope office_states) sample_env office_links sample_world = (Inr (), w)"
    "unat (st_generation (wd_store w)) = 1" "dk_entries (wd_disk w) (temp_name [1, 171]) = None"
    by (simp add: store_save_def save_checked_def sample_world_def sample_env_def calm_def open_existing_def checked_add64_def
      listed_envelope_def max_bytes_def create_temp_def change_disk_def new_file_def owned_file_def or_unlink_def
      replace_state_def fault_at_def write_temp_def sync_temp_def rename_temp_def sync_directory_def toy_ops bindS_def)
  have "cell_holds (listed_envelope office_states) sample_env sample_world None"
    using listed_envelope_law [OF office_states_length] listed_hash
    by (simp add: cell_holds_def store_inv_def sample_world_def)
  with private_store.put_Ok [OF this w(1)] w show ?thesis by blast
qed

text \<open>Any reading of a store that holds a value yields that value, and one whose calls work yields it.\<close>

lemma on_disk_held:
  assumes "cell_holds J E w (Some v)"
  shows "on_disk J (wd_disk w) x \<Longrightarrow> x = v"
    and "\<forall>c. \<not> ev_fails E c \<Longrightarrow> \<exists>w'. load J E (w\<lparr>wd_store := st\<rparr>) = (Inr v, w') \<and> cell_holds J E w' (Some v) \<and>
      st_generation (wd_store w') = st_generation (wd_store w) \<and> wd_disk w' = wd_disk w"
proof -
  obtain f where f: "dk_entries (wd_disk w) state_name = Some f" "state_file J (ev_uid E) f (st_generation (wd_store w)) v"
    "dk_durable (wd_disk w) state_name = dk_entries (wd_disk w) state_name"
    using assms by (auto simp: cell_holds_def store_inv_def)
  have read: "bs = fl_bytes f" if "read_state E' (wd_disk w) = Inr bs" for E' bs
    using that f(1,2) by (auto simp: read_state_def open_existing_def state_file_def bindR_Inr_iff ok_or_def Let_def split: if_splits)
  show "x = v" if disk: "on_disk J (wd_disk w) x"
  proof -
    obtain E' w1 w2 where l: "load J E' w1 = (Inr x, w2)" "wd_disk w1 = wd_disk w"
      using disk unfolding on_disk_def by blast
    then obtain bs where "read_state E' (wd_disk w) = Inr bs" "\<exists>a g. en_parse J bs = Some (a, g, x)"
      by (auto simp: load_def bindS_Inr_iff ok_or_def getS_def liftS_def split: option.splits)
    with read f(2) show ?thesis by (auto simp: state_file_def)
  qed
  assume works: "\<forall>c. \<not> ev_fails E c"
  have "fl_kind f \<noteq> Symlink" using f(2) not_symlink by (force simp: state_file_def)
  then have "read_state E (wd_disk w) = Inr (fl_bytes f)"
    using f(1,2) works by (auto simp: read_state_def open_existing_def state_file_def bindR_def ok_or_def guardR_def Let_def)
  moreover obtain digest where "hash (en_crypto J) (fl_bytes f) = Inr digest"
    using f(2) by (auto simp: state_file_def is_ok_iff)
  ultimately show "\<exists>w'. load J E (w\<lparr>wd_store := st\<rparr>) = (Inr v, w') \<and> cell_holds J E w' (Some v) \<and>
      st_generation (wd_store w') = st_generation (wd_store w) \<and> wd_disk w' = wd_disk w"
    using f assms by (auto simp: load_def state_file_def bindS_def getS_def liftS_def ok_or_def guardR_def modS_def map_err_def
        cell_holds_def store_inv_def)
qed

section \<open>Rotations\<close>

lemma office_rotating:
  assumes "cell_holds (listed_envelope office_states) sample_env w (Some office_links)" "unat (st_generation (wd_store w)) = 1"
    and "dk_entries (wd_disk w) (temp_name [1, 171]) = None"
  shows "rotating office sample_env {set_link (Number 2) l' office_links |l'. link_keys l' \<subseteq> insert drawn_link (link_keys office_link)}
    ((office_machine w)\<lparr>mc_links := Some office_links\<rparr>) office_links 4"
proof -
  have mem: "st \<in> set office_states" if "st = set_link (Number 2) l office_links" "link_keys l \<subseteq> insert drawn_link (link_keys office_link)" for st l
  proof -
    obtain i k v a b where l: "l = \<lparr>ml_provision_id = i, ml_psk = k, ml_verified = v, ml_staged = a, ml_previous = b\<rparr>"
      by (cases l) auto
    have none: "ml_staged office_link = None" "ml_previous office_link = None" by (simp_all add: office_link_def)
    have keys: "\<lparr>sl_provision_id = i, sl_psk = k\<rparr> \<in> {link_active office_link, drawn_link}"
      "set_option a \<subseteq> {link_active office_link, drawn_link}" "set_option b \<subseteq> {link_active office_link, drawn_link}"
      using that(2) none by (auto simp: l link_keys_def link_active_def)
    have "(\<lparr>sl_provision_id = i, sl_psk = k\<rparr>, v, a, b) \<in> set office_rotations"
      unfolding office_rotations_mem using keys by (cases a; cases b) auto
    moreover have "st = office_rotation (\<lparr>sl_provision_id = i, sl_psk = k\<rparr>, v, a, b)" by (simp add: that(1) l)
    ultimately have "st \<in> set (map office_rotation office_rotations)" unfolding set_map by (rule rev_image_eqI)
    then show ?thesis unfolding office_states_def set_append by (rule UnI2)
  qed
  have print: "\<exists>bs. en_print (listed_envelope office_states) 1 g st = Some bs \<and> length bs \<le> max_bytes"
    if "st = set_link (Number 2) l office_links" "link_keys l \<subseteq> insert drawn_link (link_keys office_link)" for g st l
  proof -
    have "\<exists>k. pos st office_states = Some k" by (rule pos_mem [OF mem [OF that]])
    then obtain k where "pos st office_states = Some k" by (rule exE)
    then show ?thesis by (simp add: listed_envelope_def max_bytes_def)
  qed
  have "writable (listed_envelope office_states) sample_env
      {set_link (Number 2) l' office_links |l'. link_keys l' \<subseteq> insert drawn_link (link_keys office_link)} w"
    unfolding writable_def
  proof (intro conjI)
    show "\<forall>g. \<forall>v \<in> {set_link (Number 2) l' office_links |l'. link_keys l' \<subseteq> insert drawn_link (link_keys office_link)}.
        \<exists>bs. en_print (listed_envelope office_states) 1 g v = Some bs \<and> length bs \<le> max_bytes"
      using print by blast
  qed (use assms(3) in \<open>simp_all add: sample_env_def calm_def new_file_def owned_file_def\<close>)
  with assms(1,2) show ?thesis by (simp add: rotating_def office_machine_def office_def)
qed

lemma number_2: "number_of 2 = Inr (Number 2)"
  by (simp add: number_of_def number_new_def i64_max_def)

lemma office_get [simp]: "bt_get (Number 2) (sv_links office_links) = Some office_link"
  by (simp add: office_links_def bt_get_def)

lemma office_draw: "staged_generate sample_fill 0 = (Inr \<lparr>sl_provision_id = replicate 16 1, sl_psk = replicate 32 2\<rparr>, 2)"
  by (simp add: staged_generate_def sample_fill_def random_def bindS_def staged_validate_def secret_same_def zero_psk_def
      numeral_eq_Suc liftS_def retS_def)

theorem rotation_completes_witness:
  "\<exists>s s1 s2 s3 s4 l. mc_db s = office_db \<and> do_rotation office 2 (Stage (Some [5])) s = (Inr (), s1) \<and>
    do_rotation office 2 Apply s1 = (Inr (), s2) \<and> mark_verified office 2 s2 = (Inr (), s3) \<and>
    do_rotation office 2 Confirm s3 = (Inr (), s4) \<and>
    (\<exists>st. mc_links s4 = Some st \<and> bt_get (Number 2) (sv_links st) = Some l) \<and> ml_psk l = [5]"
proof -
  obtain w where w: "cell_holds (listed_envelope office_states) sample_env w (Some office_links)"
    "unat (st_generation (wd_store w)) = 1" "dk_entries (wd_disk w) (temp_name [1, 171]) = None"
    using office_saved by blast
  let ?s = "(office_machine w)\<lparr>mc_links := Some office_links\<rparr>"
  let ?drawn = "\<lparr>sl_provision_id = replicate 16 1, sl_psk = replicate 32 2\<rparr>"
  have "Number 2 \<noteq> sv_server_id office_links" "ml_staged office_link = None" "[5] \<noteq> zero_psk"
    by (simp_all add: office_links_def office_link_def short_psk)
  moreover have "staged_generate (mb_fill office) (mc_random ?s) = (Inr ?drawn, 2)"
    using office_draw by simp
  moreover have "?drawn\<lparr>sl_psk := [5]\<rparr> = drawn_link" by (simp add: drawn_link_def)
  ultimately obtain s1 s2 s3 s4 st l where "do_rotation office 2 (Stage (Some [5])) ?s = (Inr (), s1)"
    "do_rotation office 2 Apply s1 = (Inr (), s2)" "mark_verified office 2 s2 = (Inr (), s3)"
    "do_rotation office 2 Confirm s3 = (Inr (), s4)" "mc_links s4 = Some st" "bt_get (Number 2) (sv_links st) = Some l" "ml_psk l = [5]"
    using rotation_completes [where L = office and E = sample_env and st = office_links and n = "Number 2" and l = office_link
        and drawn = ?drawn and psk = "[5]" and s = ?s and g = 2 and i = 2] office_rotating [OF w] number_2
    by auto
  moreover have "mc_db ?s = office_db" by simp
  ultimately show ?thesis by blast
qed

text \<open>The same step, from what the memory and the disk hold afterwards.\<close>

theorem rotation_persisted_or_undone_witness:
  "\<exists>s t st. do_rotation office 2 (Stage (Some [5])) s = (Inr (), t) \<and> mc_links t = Some st \<and>
    cell_holds (listed_envelope office_states) sample_env (mc_world t) (Some st)"
proof -
  obtain w where w: "cell_holds (listed_envelope office_states) sample_env w (Some office_links)"
    "unat (st_generation (wd_store w)) = 1" "dk_entries (wd_disk w) (temp_name [1, 171]) = None"
    using office_saved by blast
  let ?s = "(office_machine w)\<lparr>mc_links := Some office_links\<rparr>"
  let ?l = "office_link\<lparr>ml_staged := Some drawn_link\<rparr>"
  have "link_keys ?l \<subseteq> insert drawn_link (link_keys office_link)"
    by (auto simp: link_keys_def link_active_def)
  moreover have "rotation_action (mb_fill office) (Stage (Some [5])) (Number 2) office_links 0 = (Inr (set_link (Number 2) ?l office_links), 2)"
  proof -
    have server: "sv_server_id office_links = Number 1" by (simp add: office_links_def)
    show ?thesis
      using office_draw server
      by (simp add: server_stage_rotation_def link_of_def stage_rotation_def bindS_def liftS_def ok_or_def staged_validate_def
          secret_same_def Let_def retS_def short_psk drawn_link_def office_link_def)
  qed
  moreover have "rotating office sample_env {set_link (Number 2) l' office_links |l'. link_keys l' \<subseteq> insert drawn_link (link_keys office_link)}
      ?s office_links (Suc 3)" using office_rotating [OF w] by simp
  ultimately obtain t where t: "do_rotation office 2 (Stage (Some [5])) ?s = (Inr (), t)"
    using rotation_step [where L = office and i = 2 and s = ?s and r = "Stage (Some [5])", OF _ number_2] by fastforce
  have wf: "bt_wf (sv_links office_links)" by (simp add: office_links_def bt_wf_def)
  have "\<exists>st. mc_links t = Some st \<and> cell_holds (listed_envelope office_states) sample_env (mc_world t) (Some st)"
    using rotation_persisted_or_undone [OF _ wf _ t] w(1) by auto
  with t show ?thesis by blast
qed

section \<open>Commands\<close>

lemma office_server_ok: "server_ok office_db"
  using sample_ok
  by (auto simp: server_ok_def office_db_def mailbox_ok_def sample_db_def bt_wf_def bt_get_def exchange_keys_def
      key_current_def bundle_id_of_def split: if_splits)

theorem commands_keep_server_witness:
  "tr_held (mc_tree (run_commands office [RequireManagement True None, EnablePq, ApplyManagementRotation ''pa'' True]
      (office_machine sample_world))) = (\<lambda>_. False) \<and>
    server_ok (mc_db (run_commands office [RequireManagement True None, EnablePq, ApplyManagementRotation ''pa'' True]
      (office_machine sample_world)))"
  using commands_keep_server [of "office_machine sample_world" office] office_server_ok by (simp add: office_tree_def)

theorem enable_pq_needs_added_peer_witness:
  "\<exists>s. run_command office EnablePq (run_commands office [RequireManagement True None] (office_machine sample_world))
     = (Inl (MgServer SInvalidQuery), s)"
  using enable_pq_needs_added_peer [of "[RequireManagement True None]" "office_machine sample_world" office]
  by (simp add: office_db_def)


section \<open>The service\<close>

definition office_peer :: "byte \<Rightarrow> string \<Rightarrow> host_port option \<Rightarrow> peer" where
  "office_peer k called e = (sample_listed (ucast k) k)\<lparr>pe_name := called, pe_endpoint := e\<rparr>"

definition office_peers :: "(int \<times> peer) list" where
  "office_peers = [(1, office_peer 1 ''ps'' (Some \<lparr>hp_host = HostV4 1, hp_port = 51820\<rparr>)), (2, office_peer 2 ''pa'' None),
     (3, office_peer 3 ''pb'' None)]"

lemma office_from_row:
  "peer_from_row office_net ((sample_row k b)\<lparr>pr_endpoint := e\<rparr>) = Inr (office_peer k (pr_name (sample_row k b))
     (map_option (\<lambda>_. \<lparr>hp_host = HostV4 1, hp_port = 51820\<rparr>) e))"
  by (cases e) (simp_all add: peer_from_row_def sample_row_def hostname_is_valid_def host_char_def office_net_def office_peer_def
      sample_listed_def persistent_keepalive_interval_secs_def)

lemma office_rows: "peer_rows office_net (db_peers office_db) = Inr office_peers"
proof -
  have plain: "sample_row k b = (sample_row k b)\<lparr>pr_endpoint := None\<rparr>" for k b by (simp add: sample_row_def)
  have "db_peers office_db = [(1, (sample_row 1 True)\<lparr>pr_endpoint := Some []\<rparr>), (2, (sample_row 2 False)\<lparr>pr_endpoint := None\<rparr>),
      (3, (sample_row 3 False)\<lparr>pr_endpoint := None\<rparr>)]"
    using plain by (simp add: office_db_def)
  then show ?thesis
    by (simp add: peer_rows_def office_from_row office_peers_def) (simp add: sample_row_def)
qed

lemma office_key: "to_base64 sample_diff (replicate 32 k) = sample_key k"
  by (simp add: to_base64_def sample_diff_def sample_key_def)

lemma office_identify:
  assumes "db_peers d = (1, (sample_row 1 True)\<lparr>pr_endpoint := Some []\<rparr>) # rest"
  shows "identify_server (sample_key 1) (IpV4 1) d = (Inr 1, d)" "is_server 1 d = Inr True"
proof -
  have row: "pr_public_key (sample_row 1 True) = sample_key 1" "pr_ip (sample_row 1 True) = IpV4 1"
    "\<not> pr_is_disabled (sample_row 1 True)" "pr_is_redeemed (sample_row 1 True)" "pr_is_server (sample_row 1 True)"
    by (simp_all add: sample_row_def)
  show "is_server 1 d = Inr True" using assms row by (simp add: is_server_def bt_get_def)
  show "identify_server (sample_key 1) (IpV4 1) d = (Inr 1, d)"
    using assms row
    by (simp add: identify_server_def transaction_def bindS_def askS_def getS_def liftS_def retS_def bt_get_def)
qed

lemma office_opens:
  assumes "mc_tree s = office_tree"
  shows "manager_open office b s = (Inr (), s\<lparr>mc_tree := office_tree\<lparr>tr_lock_files :=
      [[''etc'', ''pq''] \<mapsto> \<lparr>fl_kind = Regular, fl_uid = 7, fl_mode = 384, fl_nlink = 1, fl_bytes = [], fl_synced = False\<rparr>],
      tr_held := (\<lambda>_. False)([''etc'', ''pq''] := True)\<rparr>,
    mc_handle := Some [''etc'', ''pq''], mc_world := (mc_world s)\<lparr>wd_store := \<lparr>st_generation = 0, st_fresh = False, st_digest = None\<rparr>\<rparr>\<rparr>)"
  using assms
  by (simp add: manager_open_def open_store_def office_open_def office_tree_def bindS_def liftS_def guardR_def
      open_directory_def getS_def retS_def trusted_parent_def private_dir_def open_lock_def modS_def owned_file_def Let_def)

text \<open>A server that has its links in memory and holds their store open.\<close>

definition office_ready :: "(peer_info list, unit, nat) machine \<Rightarrow> (peer_info list, unit, nat) machine \<Rightarrow> bool" where
  "office_ready s t \<longleftrightarrow> mc_links t = Some office_links \<and> mc_db t = mc_db s \<and> mc_kernel t = mc_kernel s \<and> mc_required t \<and>
     mc_random t = mc_random s \<and> cell_holds (listed_envelope office_states) sample_env (mc_world t) (Some office_links) \<and>
     st_generation (wd_store (mc_world t)) = st_generation (wd_store (mc_world s)) \<and> wd_disk (mc_world t) = wd_disk (mc_world s)"

lemma office_valid: "server_validate office_links = Inr ()"
  by (simp add: server_validate_def office_links_def office_link_def bt_get_def bt_values_def link_validate_def secret_same_def
      short_psk bindR_def guardR_def)

lemma office_network:
  "network d = Inr (sv_network_id office_links, db_revision d)" if "db_network_id d = db_network_id office_db"
  using that by (simp add: network_def office_db_def sample_db_def office_links_def bindR_def guardR_def)

lemma office_reads:
  assumes "cell_holds (listed_envelope office_states) sample_env (mc_world s) (Some office_links)" "mc_tree s = office_tree"
    and "mc_required s"
  obtains t u where "manager_open office b s = (Inr (), t)" "mc_db t = mc_db s" "\<not> st_fresh (wd_store (mc_world t))"
    "at_store office (load (listed_envelope office_states)) t = (Inr office_links, u)" "mc_db u = mc_db s"
    "office_ready s (u\<lparr>mc_links := Some office_links\<rparr>)"
proof -
  have works: "\<forall>c. \<not> ev_fails sample_env c" by (simp add: sample_env_def calm_def)
  define t where "t = snd (manager_open office b s)"
  have t: "manager_open office b s = (Inr (), t)" "mc_db t = mc_db s" "\<not> st_fresh (wd_store (mc_world t))"
    using office_opens [OF assms(2)] by (simp_all add: t_def)
  have world: "mc_world t = (mc_world s)\<lparr>wd_store := \<lparr>st_generation = 0, st_fresh = False, st_digest = None\<rparr>\<rparr>"
    using office_opens [OF assms(2)] by (simp add: t_def)
  have rest: "mc_kernel t = mc_kernel s" "mc_random t = mc_random s" "mc_required t"
    using office_opens [OF assms(2)] assms(3) by (simp_all add: t_def)
  from on_disk_held(2) [OF assms(1) works] obtain w where
    w: "load (listed_envelope office_states) sample_env (mc_world t) = (Inr office_links, w)"
      "cell_holds (listed_envelope office_states) sample_env w (Some office_links)"
      "st_generation (wd_store w) = st_generation (wd_store (mc_world s))" "wd_disk w = wd_disk (mc_world s)"
    unfolding world by blast
  from w(1) have "at_store office (load (listed_envelope office_states)) t
      = (Inr office_links, t\<lparr>mc_world := w, mc_calls := mc_calls t + 1\<rparr>)" by (simp add: at_store_def map_err_def)
  with t w(2-4) rest show ?thesis
    by (intro that [of t "t\<lparr>mc_world := w, mc_calls := mc_calls t + 1\<rparr>"]) (simp_all add: office_ready_def)
qed

lemma office_list:
  assumes "db_peers d = db_peers office_db"
  shows "peer_list office_net d = Inr office_peers"
  using office_rows assms by (simp add: peer_list_def)

lemma office_linked: "for_each (unlinked office_links) office_peers = Inr ()"
proof -
  have "number_of 3 = Inr (Number 3)" by (simp add: number_of_def number_new_def i64_max_def)
  then show ?thesis
    using number_2
    by (simp add: office_peers_def unlinked_def office_peer_def sample_listed_def id_of_def bindR_def map_err_def guardR_def)
      (simp add: office_links_def bt_get_def)
qed

lemma office_loads:
  assumes "cell_holds (listed_envelope office_states) sample_env (mc_world s) (Some office_links)" "mc_tree s = office_tree"
    and "mc_required s" "mc_db s = office_db"
  shows "\<exists>t. manager_load office s = (Inr True, t) \<and> office_ready s t"
proof -
  from office_reads [OF assms(1-3), of False] obtain t u where
    t: "manager_open office False s = (Inr (), t)" "mc_db t = mc_db s"
      "at_store office (load (listed_envelope office_states)) t = (Inr office_links, u)" "mc_db u = mc_db s"
      "office_ready s (u\<lparr>mc_links := Some office_links\<rparr>)" by metis
  define linked where "linked = for_each (unlinked office_links) office_peers"
  have server: "sv_server_public_key office_links = replicate 32 1" "id_of (sv_server_id office_links) = 1"
    by (simp_all add: office_links_def id_of_def)
  have "is_server 1 office_db = Inr True" by (rule office_identify(2)) (simp add: office_db_def)
  moreover have "u\<lparr>mc_db := office_db\<rparr> = u" using t(4) assms(4) by simp
  moreover have "linked = Inr ()" using office_linked by (simp only: linked_def)
  ultimately have "manager_load office s = (Inr True, u\<lparr>mc_links := Some office_links\<rparr>)"
    using t(1-4) assms(3,4) office_valid office_network [of office_db] server office_list [of office_db]
    by (simp add: manager_load_def linked_def [symmetric] bindS_def getS_def retS_def liftS_def at_data_def askS_def map_err_def guardR_def set_links_def
        modS_def ok_or_def)
  with t(5) show ?thesis by blast
qed

lemma office_config: "\<exists>bs. mapR (start_config office (Some office_links)) office_peers = Inr bs"
proof -
  have key: "key_of_text sample_diff (sample_key k) = Some (replicate 32 k)" for k
    using toy_base64_law by (simp add: key_of_text_def sample_diff_def sample_key_def base64_law_def)
  have build: "builder_of_peer sample_diff (i, office_peer k called e) \<noteq> None" for i k called e
    using key [of k] by (simp add: builder_of_peer_None office_peer_def sample_listed_def)
  have "number_of 3 = Inr (Number 3)" by (simp add: number_of_def number_new_def i64_max_def)
  moreover have "bt_get (Number 3) (sv_links office_links) = Some office_link" by (simp add: office_links_def bt_get_def)
  moreover have "id_of (sv_server_id office_links) = 1" by (simp add: office_links_def id_of_def)
  ultimately have each: "\<exists>b. start_config office (Some office_links) ip = Inr b" if "ip \<in> set office_peers" for ip
    using that number_2 build
    by (fastforce simp: office_peers_def start_config_def linked_config_def bindR_def map_err_def ok_or_def split: option.split)
  have "\<exists>ys. mapR f xs = Inr ys" if "\<forall>x \<in> set xs. \<exists>y. f x = Inr y" for f :: "int \<times> peer \<Rightarrow> (manager_error, peer_builder) result" and xs
    using that by (induction xs) (auto simp: bindR_def)
  then show ?thesis using each by blast
qed

lemma any_update_applies: "\<exists>k'. apply_update sample_sizes sample_kernel u iface k = (Inr (), k')"
proof -
  have "update_fits sample_sizes iface u"
    by (auto simp: update_fits_def update_attrs sample_sizes_def split: option.splits if_splits)
  with messages_total [OF sample_sizes_law] obtain ms where ms: "apply_messages sample_sizes u iface = Inr ms" by blast
  have "\<exists>k'. send_all sample_kernel ms k = (Inr (), k')" for k
    by (induction ms arbitrary: k) (auto simp: bindS_def sample_kernel_def)
  with ms show ?thesis by (auto simp: apply_update_def bindS_def liftS_def add_del_def sample_kernel_def)
qed

lemma office_announces:
  assumes "db_peers (mc_db s) = db_peers office_db" "db_cidrs (mc_db s) = db_cidrs office_db" "db_revision (mc_db s) < 100"
  shows "\<exists>t. serve_announce office \<lparr>sa_link_ok = True, sa_local_addrs = Some []\<rparr> office_peers s = (Inr (), t)"
proof -
  let ?me = "office_peer 1 ''ps'' (Some \<lparr>hp_host = HostV4 1, hp_port = 51820\<rparr>)"
  have me: "List.find (\<lambda>(i, p). pe_ip p = IpV4 1) office_peers = Some (1, ?me)"
    by (simp add: office_peers_def office_peer_def sample_listed_def)
  have "\<exists>d. peer_update (sample_mail\<lparr>ml_net := office_net\<rparr>) 1 ?me (?me\<lparr>pe_candidates := []\<rparr>) (mc_db s) = (Inr (?me\<lparr>pe_candidates := []\<rparr>), d)"
  proof -
    let ?row = "(sample_row 1 True)\<lparr>pr_name := ''ps'', pr_endpoint := Some [], pr_is_admin := False, pr_is_disabled := False, pr_candidates := Some []\<rparr>"
    have "peer_fits (mc_db s) 1 ?row"
      using assms(1,2) sample_key_inject by (simp add: peer_fits_def office_db_def sample_db_def sample_row_def bt_keys_def)
    moreover have "bt_get 1 (db_peers (mc_db s)) = Some ((sample_row 1 True)\<lparr>pr_endpoint := Some []\<rparr>)"
      using assms(1) by (simp add: office_db_def bt_get_def)
    ultimately show ?thesis
      using assms(3)
      by (simp add: peer_update_def bindS_def liftS_def guardR_def is_valid_name_def host_char_def ascii_digit_def Let_def
          office_peer_def sample_listed_def office_net_def sample_net_def transaction_def execS_def update_peer_def bump_def
          i64_bound_def retS_def ok_or_def)
  qed
  then show ?thesis
    by (auto simp: serve_announce_def server_gate_apply_def bindS_def getS_def at_nft_def modS_def map_err_def liftS_def ok_or_def
        at_data_def retS_def me)
qed

text \<open>On its first start the office has everything protected.\<close>

lemma office_load:
  assumes "cell_holds (listed_envelope office_states) sample_env w (Some office_links)"
  shows "\<exists>bs u. serve_load office (office_machine w) = (Inr (Some office_links, office_peers, bs), u) \<and> office_ready (office_machine w) u"
proof -
  have id: "identify office (replicate 32 1) (office_machine w) = (Inr 1, office_machine w)"
    using office_identify(1) [of office_db "[(2, sample_row 2 False), (3, sample_row 3 False)]"]
    by (simp add: identify_def at_data_def office_key map_err_def) (simp add: office_db_def office_machine_def)
  from office_loads [of "office_machine w"] assms obtain t
    where t: "manager_load office (office_machine w) = (Inr True, t)" "office_ready (office_machine w) t" by auto
  then have db: "mc_db t = office_db" "mc_links t = Some office_links" by (simp_all add: office_ready_def)
  then have same: "t\<lparr>mc_db := office_db\<rparr> = t" by simp
  from office_config obtain bs where "mapR (start_config office (Some office_links)) office_peers = Inr bs" by blast
  with id t db same office_list [of office_db]
  have "serve_load office (office_machine w) = (Inr (Some office_links, office_peers, bs), t)"
    by (simp add: serve_load_def bindS_def liftS_def ok_or_def getS_def at_data_def askS_def map_err_def retS_def)
  with t(2) show ?thesis by blast
qed

lemma office_serves:
  assumes "cell_holds (listed_envelope office_states) sample_env w (Some office_links)"
  shows "\<exists>t. serve office \<lparr>sa_link_ok = True, sa_local_addrs = Some []\<rparr> (office_machine w) = (Inr (Some (psks_of office_links)), t)"
proof -
  let ?A = "\<lparr>sa_link_ok = True, sa_local_addrs = Some []\<rparr> :: serve_args"
  from office_load [OF assms] obtain bs u where u: "serve_load office (office_machine w) = (Inr (Some office_links, office_peers, bs), u)"
    "office_ready (office_machine w) u" by blast
  obtain k1 where k1: "apply_update sample_sizes sample_kernel (update_new\<lparr>du_listen_port := Some 51820, du_private_key := Some [7]\<rparr>)
      ''wg0'' (mc_kernel (let_go u)) = (Inr (), k1)" using any_update_applies by blast
  obtain k2 where k2: "apply_update sample_sizes sample_kernel (add_peers bs update_new) ''wg0'' k1 = (Inr (), k2)"
    using any_update_applies by blast
  define v where "v = (let_go u)\<lparr>mc_kernel := k2\<rparr>"
  have up: "serve_up office ?A bs (let_go u) = (Inr (), v)"
    using k1 k2 by (simp add: serve_up_def bindS_def at_kernel_def liftS_def guardR_def map_err_def v_def)
  have "mc_db v = office_db" using u(2) by (simp add: v_def open_tables office_ready_def)
  then obtain x where "serve_announce office ?A office_peers v = (Inr (), x)"
    using office_announces [of v] by (auto simp: office_db_def sample_db_def)
  with u(1) up show ?thesis by (simp add: serve_def command_def bindS_def modS_def retS_def)
qed

theorem started_links_are_protected_witness:
  "\<exists>s psks t. serve office \<lparr>sa_link_ok = True, sa_local_addrs = Some []\<rparr> s = (Inr (Some psks), t) \<and>
    psks 2 = Some [2] \<and> has_psk [2] (lookup (replicate 32 2) (mc_kernel t))"
proof -
  obtain w where w: "cell_holds (listed_envelope office_states) sample_env w (Some office_links)" using office_saved by blast
  from office_serves [OF w] obtain t
    where t: "serve office \<lparr>sa_link_ok = True, sa_local_addrs = Some []\<rparr> (office_machine w) = (Inr (Some (psks_of office_links)), t)" by blast
  have key: "key_of_text sample_diff (sample_key k) = Some (replicate 32 k)" for k
    using toy_base64_law by (simp add: key_of_text_def sample_diff_def sample_key_def base64_law_def)
  have keys: "distinct (map (\<lambda>(i, p). key_of_text (mb_diff office) (pe_public_key p)) office_peers)"
    by (simp add: office_peers_def office_peer_def sample_listed_def key replicate_eq_replicate)
  have psk: "psks_of office_links 2 = Some [2]"
    using psks_of_link [OF office_get] by (simp add: id_of_def office_link_def)
  have wf: "bt_wf (db_peers (mc_db (office_machine w)))" using office_server_ok by (simp add: server_ok_def)
  have role: "is_server 2 (mc_db t) \<noteq> Inr True"
  proof -
    obtain manager peers bs u where load: "serve_load office (office_machine w) = (Inr (manager, peers, bs), u)"
      "same_roles (mc_db u) (mc_db t)" using serve_Inr [OF t] by blast
    with office_load [OF w] have "mc_db u = office_db" by (auto simp: office_ready_def)
    with load(2) have "is_server 2 (mc_db t) = is_server 2 office_db" by (simp add: same_roles_def)
    then show ?thesis by (simp add: is_server_def office_db_def bt_get_def) (simp add: sample_row_def)
  qed
  have "(2, office_peer 2 ''pa'' None) \<in> set office_peers" by (simp add: office_peers_def)
  with started_links_are_protected [OF _ _ t _ _ wf keys, of "\<lambda>ps. ps"] sample_kernel_law sample_sizes_law office_list [of office_db] role
  have "\<exists>key psk. key_of_text sample_diff (pe_public_key (office_peer 2 ''pa'' None)) = Some key \<and> psks_of office_links 2 = Some psk \<and>
      has_psk psk (lookup key (mc_kernel t))"
    by (fastforce simp: office_peer_def sample_listed_def i64_bound_def)
  then have "has_psk [2] (lookup (replicate 32 2) (mc_kernel t))"
    using psk by (simp add: key office_peer_def sample_listed_def)
  with t psk show ?thesis by blast
qed

section \<open>A fourth peer\<close>

definition newcomer :: peer where
  "newcomer = sample_invitee\<lparr>pe_public_key := sample_key 9\<rparr>"

definition newcomer_row :: peer_row where
  "newcomer_row = sample_invited\<lparr>pr_public_key := sample_key 9\<rparr>"

definition grown_db :: pq_db where
  "grown_db = office_db\<lparr>db_peers := db_peers office_db @ [(4, newcomer_row)], db_max_peer_id := 4, db_revision := 10\<rparr>"

lemma newcomer_create:
  assumes "N \<in> {sample_net, office_net}"
  shows "peer_create N newcomer office_db = (Inr (4, newcomer), grown_db)"
proof -
  have fits: "peer_fits office_db 4 newcomer_row"
    using sample_key_inject by (simp add: peer_fits_def office_db_def sample_db_def sample_row_def bt_keys_def newcomer_row_def sample_invited_def)
  have cidr: "cidr_get 2 office_db = Inr (sample_cidr (Some 1))"
    by (simp add: cidr_get_def office_db_def sample_db_def bt_get_def)
  have "insert_peer 4 newcomer_row office_db = Inr grown_db"
    using fits by (simp add: insert_peer_def bump_def i64_bound_def grown_db_def) (simp add: office_db_def sample_db_def bt_get_def)
  moreover have "db_max_peer_id office_db = 3" by (simp add: office_db_def sample_db_def)
  ultimately show ?thesis
    using cidr assms
    by (auto simp: peer_create_def bindS_def askS_def execS_def newcomer_def sample_invitee_def is_valid_name_def host_char_def
        ascii_digit_def sample_net_def office_net_def is_assignable_def sample_cidr_def i64_bound_def newcomer_row_def
        sample_invited_def getS_def liftS_def guardR_def retS_def ok_or_def)
qed

lemma newcomer_key: "builder_of_peer sample_diff (4, newcomer) \<noteq> None"
  using toy_base64_law
  by (simp add: builder_of_peer_None newcomer_def key_of_text_def sample_diff_def sample_key_def base64_law_def)

theorem api_peer_blocks_start_witness:
  "\<exists>v s e t. admin_peer_create sample_web_context newcomer (sample_web office_db) = (Inr (AnsPeer (4, newcomer)), v) \<and>
    mc_db s = fr_db (wb_front v) \<and>
    serve office \<lparr>sa_link_ok = True, sa_local_addrs = Some []\<rparr> s = (Inl e, t) \<and> mc_kernel t = mc_kernel s"
proof -
  obtain w where w: "cell_holds (listed_envelope office_states) sample_env w (Some office_links)" using office_saved by blast
  obtain b where b: "builder_of_peer sample_diff (4, newcomer) = Some b" using newcomer_key by blast
  obtain k where k: "apply_update sample_sizes sample_kernel (add_peer b update_new) ''wg0'' [] = (Inr (), k)"
    using any_update_applies by blast
  have parts: "cx_sizes sample_web_context = sample_sizes" "cx_kernel sample_web_context = sample_kernel"
    "cx_iface sample_web_context = ''wg0''" by (simp_all add: sample_web_context_def)
  have created: "peer_create sample_net newcomer office_db = (Inr (4, newcomer), grown_db)" using newcomer_create by simp
  have "\<exists>v. admin_peer_create sample_web_context newcomer (sample_web office_db) = (Inr (AnsPeer (4, newcomer)), v)"
    using created b k
    by (simp add: admin_peer_create_def bindS_def at_db_def on_db_def at_front_def apply_kernel_def parts liftS_def ok_or_def retS_def
        map_err_def sample_web_def)
  then obtain v where v: "admin_peer_create sample_web_context newcomer (sample_web office_db) = (Inr (AnsPeer (4, newcomer)), v)"
    by blast
  let ?s = "(office_machine w)\<lparr>mc_db := fr_db (wb_front v)\<rparr>"
  have "\<forall>n \<in> insert (sv_server_id office_links) (set (bt_keys (sv_links office_links))). id_of n \<noteq> 4"
    by (simp add: office_links_def bt_keys_def id_of_def)
  then have unlinked: "\<forall>st. on_disk (listed_envelope office_states) (wd_disk w) st \<longrightarrow>
      (\<forall>n \<in> insert (sv_server_id st) (set (bt_keys (sv_links st))). id_of n \<noteq> 4)"
    using on_disk_held(1) [OF w] by metis
  have "db_max_peer_id (fr_db (wb_front (sample_web office_db))) \<ge> 0" by (simp add: office_db_def sample_db_def)
  moreover have "\<not> pe_is_disabled newcomer" by (simp add: newcomer_def sample_invitee_def)
  ultimately obtain r where r: "bt_get 4 (db_peers (fr_db (wb_front v))) = Some r" "\<not> pr_is_disabled r"
    and blocked: "\<forall>s r. mc_required s \<longrightarrow> bt_get 4 (db_peers (mc_db s)) = Some r \<longrightarrow> \<not> pr_is_disabled r \<longrightarrow>
       (\<forall>st. on_disk (mb_envelope office) (wd_disk (mc_world s)) st \<longrightarrow>
          (\<forall>n \<in> insert (sv_server_id st) (set (bt_keys (sv_links st))). id_of n \<noteq> 4)) \<longrightarrow>
       (\<exists>e t. serve office \<lparr>sa_link_ok = True, sa_local_addrs = Some []\<rparr> s = (Inl e, t) \<and> mc_kernel t = mc_kernel s)"
    using api_peer_blocks_start [OF v, where L = office and A = "\<lparr>sa_link_ok = True, sa_local_addrs = Some []\<rparr>"] by blast
  have "\<exists>e t. serve office \<lparr>sa_link_ok = True, sa_local_addrs = Some []\<rparr> ?s = (Inl e, t) \<and> mc_kernel t = mc_kernel ?s"
  proof (rule mp [OF mp [OF mp [OF mp [OF spec [OF spec [OF blocked]]]]]])
    show "mc_required ?s" by simp
    show "bt_get 4 (db_peers (mc_db ?s)) = Some r" using r(1) by simp
    show "\<not> pr_is_disabled r" by (rule r(2))
    show "\<forall>st. on_disk (mb_envelope office) (wd_disk (mc_world ?s)) st \<longrightarrow>
        (\<forall>n \<in> insert (sv_server_id st) (set (bt_keys (sv_links st))). id_of n \<noteq> 4)" using unlinked by simp
  qed
  moreover have "mc_db ?s = fr_db (wb_front v)" by simp
  ultimately show ?thesis using v by metis
qed

lemma grown_rows: "\<exists>p. peer_rows office_net (db_peers grown_db) = Inr (office_peers @ [(4, p)])"
proof -
  have more: "mapR f (xs @ ys) = bindR (mapR f xs) (\<lambda>as. bindR (mapR f ys) (\<lambda>bs. Ok (as @ bs)))"
    for f :: "int \<times> peer_row \<Rightarrow> (int \<times> peer) sres" and xs ys
    by (induction xs) (auto simp: bindR_def split: sum.splits)
  have "\<exists>p. peer_from_row office_net newcomer_row = Inr p"
    by (simp add: peer_from_row_def newcomer_row_def sample_invited_def hostname_is_valid_def host_char_def office_net_def sample_net_def)
  then show ?thesis
    using office_rows by (auto simp: peer_rows_def grown_db_def more)
qed

definition newcomer_link :: management_link where
  "newcomer_link = \<lparr>ml_provision_id = replicate 16 1, ml_psk = replicate 32 2, ml_verified = False, ml_staged = None, ml_previous = None\<rparr>"

lemma newcomer_linked: "provision sample_fill (Number 4) None office_links 0 = (Inr (set_link (Number 4) newcomer_link office_links), 2)"
proof -
  have "link_generate sample_fill 0 = (Inr newcomer_link, 2)"
    by (simp add: link_generate_def sample_fill_def random_def bindS_def link_validate_def secret_same_def zero_psk_def
        numeral_eq_Suc liftS_def retS_def newcomer_link_def)
  moreover have "Number 4 \<noteq> sv_server_id office_links" "bt_get (Number 4) (sv_links office_links) = None"
    "length (sv_links office_links) = 2" by (simp_all add: office_links_def bt_get_def)
  ultimately show ?thesis by (simp add: provision_def bindS_def retS_def set_link_def)
qed

lemma number_4: "number_of 4 = Inr (Number 4)"
  by (simp add: number_of_def number_new_def i64_max_def)

lemma newcomer_enrollment: "\<exists>e. enrollment_of (set_link (Number 4) newcomer_link office_links) 4 = Inr e"
  by (simp add: enrollment_of_def number_4 set_link_def newcomer_link_def secret_key_from_bytes_def zero_psk_def bindR_def
      map_err_def ok_or_def replicate_eq_replicate)

lemma newcomer_saved:
  assumes "cell_holds (listed_envelope office_states) sample_env w (Some office_links)" "unat (st_generation (wd_store w)) = 1"
    and "dk_entries (wd_disk w) (temp_name [1, 171]) = None"
  shows "\<exists>w'. store_save (listed_envelope office_states) sample_env (set_link (Number 4) newcomer_link office_links) w = (Inr (), w')"
proof -
  let ?st = "set_link (Number 4) newcomer_link office_links"
  have "?st \<in> set office_states" unfolding office_states_def newcomer_link_def by simp
  then have "\<exists>k. pos ?st office_states = Some k" by (rule pos_mem)
  then obtain k where "pos ?st office_states = Some k" by (rule exE)
  then have "writable (listed_envelope office_states) sample_env {?st} w"
    using assms(3) by (simp add: writable_def sample_env_def calm_def new_file_def owned_file_def listed_envelope_def max_bytes_def)
  from save_succeeds [OF assms(1) this, of ?st] assms(2) show ?thesis by auto
qed

lemma links_held: "mc_links v = Some st \<Longrightarrow> links v = (Inr st, v)"
  by (simp add: links_run)

lemma office_provisions:
  assumes "office_ready s u" "unat (st_generation (wd_store (mc_world s))) = 1" "mc_db s = grown_db" "mc_random s = 0"
    and "dk_entries (wd_disk (mc_world s)) (temp_name [1, 171]) = None"
  shows "\<exists>e t. provision_new_peer office 4 u = (Inr e, t) \<and> mc_links t = Some (set_link (Number 4) newcomer_link office_links) \<and>
    db_peers (mc_db t) = db_peers grown_db"
proof -
  let ?st = "set_link (Number 4) newcomer_link office_links"
  from newcomer_saved [of "mc_world u"] assms obtain w where
    w: "store_save (listed_envelope office_states) sample_env ?st (mc_world u) = (Inr (), w)" by (auto simp: office_ready_def)
  have links: "links u = (Inr office_links, u)" using assms(1) by (simp add: office_ready_def links_run)
  obtain e where e: "enrollment_of ?st 4 = Inr e" using newcomer_enrollment by blast
  obtain p where p: "peer_list office_net grown_db = Inr (office_peers @ [(4, p)])" using grown_rows by (auto simp: peer_list_def)
  have u: "mc_db u = grown_db" "mc_random u = 0" using assms(1,3,4) by (simp_all add: office_ready_def)
  have fill: "mb_fill office = sample_fill" by simp
  show ?thesis
    using newcomer_linked w links e p u
    by (auto simp: links_held provision_new_peer_def number_4 bindS_def liftS_def map_err_def at_random_def set_links_def modS_def
        save_links_def at_store_def at_data_def askS_def retS_def set_management_ready_def)
qed

lemma office_reopens:
  assumes "cell_holds (listed_envelope office_states) sample_env (mc_world s) (Some office_links)" "mc_tree s = office_tree"
    and "mc_required s" "mc_db s = grown_db"
  shows "\<exists>t. open_or_create office s = (Inr True, t) \<and> office_ready s t"
proof -
  from office_reads [OF assms(1-3), of True] obtain t u where
    t: "manager_open office True s = (Inr (), t)" "mc_db t = mc_db s" "\<not> st_fresh (wd_store (mc_world t))"
      "at_store office (load (listed_envelope office_states)) t = (Inr office_links, u)" "mc_db u = mc_db s"
      "office_ready s (u\<lparr>mc_links := Some office_links\<rparr>)" by metis
  have server: "sv_server_public_key office_links = replicate 32 1" "id_of (sv_server_id office_links) = 1"
    by (simp_all add: office_links_def id_of_def)
  have "identify_server (sample_key 1) (IpV4 1) grown_db = (Inr 1, grown_db)"
    by (rule office_identify(1)) (simp add: grown_db_def office_db_def)
  moreover have "db_network_id grown_db = db_network_id office_db" by (simp add: grown_db_def)
  then have "network grown_db = Inr (sv_network_id office_links, db_revision grown_db)" by (rule office_network)
  moreover have "s\<lparr>mc_db := grown_db\<rparr> = s" "u\<lparr>mc_db := grown_db\<rparr> = u" using t(5) assms(4) by simp_all
  moreover from this have "manager_open office True (s\<lparr>mc_db := grown_db\<rparr>) = (Inr (), t)" using t(1) by simp
  ultimately have "open_or_create office s = (Inr True, u\<lparr>mc_links := Some office_links\<rparr>)"
    using t(1-5) assms(3,4) office_valid server
    by (simp add: open_or_create_def bindS_def getS_def retS_def liftS_def at_data_def askS_def map_err_def guardR_def set_links_def
        modS_def ok_or_def identify_def office_key)
  with t(6) show ?thesis by blast
qed

lemma office_adds:
  assumes "cell_holds (listed_envelope office_states) sample_env w (Some office_links)" "unat (st_generation (wd_store w)) = 1"
    and "dk_entries (wd_disk w) (temp_name [1, 171]) = None"
  shows "\<exists>t. add_peer_cmd office (Some (newcomer, ''secret'')) (\<lambda>_. True) (office_machine w) = (Inr (), t)"
proof -
  let ?s = "office_machine w" and ?s1 = "(office_machine w)\<lparr>mc_db := grown_db\<rparr>"
  have "mc_db ?s = office_db" by simp
  then have same: "?s\<lparr>mc_db := office_db\<rparr> = ?s" by (simp add: office_machine_def)
  have created: "peer_create office_net newcomer office_db = (Inr (4, newcomer), grown_db)" using newcomer_create by simp
  from office_reopens [of ?s1] assms(1) obtain s2 where s2: "open_or_create office ?s1 = (Inr True, s2)" "office_ready ?s1 s2" by auto
  from office_provisions [OF s2(2)] assms(2,3) obtain e s3 where
    s3: "provision_new_peer office 4 s2 = (Inr e, s3)" "mc_links s3 = Some (set_link (Number 4) newcomer_link office_links)"
      "db_peers (mc_db s3) = db_peers grown_db" by auto
  have provisioned: "provision_if office True 4 s2 = (Inr (Some e), s3)"
    using s3(1) by (simp add: provision_if_def bindS_def retS_def)
  obtain up k where "interface_ready sample_kernel ''wg0'' 5 (mc_kernel s3) = (up, k)" by fastforce
  then have up: "kernel_interface_ready office s3 = (Inr up, s3\<lparr>mc_kernel := k\<rparr>)"
    by (simp add: kernel_interface_ready_def)
  obtain b where b: "builder_of_peer sample_diff (4, newcomer) = Some b" using newcomer_key by blast
  have config: "config_of office True (4, newcomer) (s3\<lparr>mc_kernel := k\<rparr>)
      = (Inr (set_preshared_key (ml_psk newcomer_link) b), s3\<lparr>mc_kernel := k\<rparr>)"
    using b s3(2)
    by (simp add: links_held config_of_def bindS_def liftS_def linked_config_def number_4 bindR_def map_err_def ok_or_def set_link_def)
  have "\<exists>k'. apply_device office u (s3\<lparr>mc_kernel := k\<rparr>) = (Inr (), s3\<lparr>mc_kernel := k'\<rparr>)" for u
    using any_update_applies [of u "''wg0''" k] by (auto simp: apply_device_def errS_def at_kernel_def map_err_def)
  then obtain k' where pushed: "(if up then bindS (config_of office True (4, newcomer)) (\<lambda>b. apply_device office (add_peer b update_new))
      else retS ()) (s3\<lparr>mc_kernel := k\<rparr>) = (Inr (), s3\<lparr>mc_kernel := k'\<rparr>)"
    using config by (cases up) (auto simp: bindS_def retS_def)
  have rows: "db_peers (mc_db s3) = (1, (sample_row 1 True)\<lparr>pr_endpoint := Some []\<rparr>) # [(2, sample_row 2 False), (3, sample_row 3 False), (4, newcomer_row)]"
    using s3(3) by (simp add: grown_db_def office_db_def)
  note id = office_identify(1) [OF rows]
  have self: "peer_get office_net 1 (mc_db s3) = Inr (office_peer 1 ''ps'' (Some \<lparr>hp_host = HostV4 1, hp_port = 51820\<rparr>))"
    using rows by (simp add: peer_get_def bt_get_def office_from_row) (simp add: sample_row_def)
  have cidrs: "root_cidr (db_cidrs office_db) = Some (sample_cidr None)"
    by (simp add: office_db_def sample_db_def sample_cidr_def)
  have address: "ip_net_for (sample_cidr None) (pe_ip newcomer) = Some (IpV4 9, 8)"
    by (simp add: ip_net_for_def sample_cidr_def newcomer_def sample_invitee_def)
  define v where "v = s3\<lparr>mc_kernel := k'\<rparr>"
  have v: "mc_db v = mc_db s3" "v\<lparr>mc_db := mc_db s3\<rparr> = v" by (simp_all add: v_def)
  have "fst (add_peer_cmd office (Some (newcomer, ''secret'')) (\<lambda>_. True) ?s) = Inr ()"
    using same created s2(1) provisioned up pushed [folded v_def] id self cidrs address v office_list [of office_db]
    by (simp add: add_peer_cmd_def command_def bindS_def at_data_def askS_def getS_def liftS_def ok_or_def map_err_def retS_def
        identify_def office_key guardR_def office_peer_def split_beta)
  then show ?thesis by (metis prod.collapse)
qed

theorem late_peer_loses_psk_witness:
  "\<exists>i (e :: mgmt_enrollment) info. bt_get i (db_peers office_db) = None \<and> me_peer_id e = word_of_int i \<and> me_psk e \<noteq> zero_psk \<and>
    lookup (replicate 32 2) (wb_kernel (run_task sample_web_context
       \<lparr>rt_old_key = replicate 32 9, rt_peer = (i, sample_listed 9 2)\<rparr> ((sample_web grown_db)\<lparr>wb_kernel := [fresh_info (replicate 32 9)]\<rparr>)))
      = Some info \<and> pc_preshared_key (pi_config info) = None"
proof -
  obtain w where w: "cell_holds (listed_envelope office_states) sample_env w (Some office_links)"
    "unat (st_generation (wd_store w)) = 1" "dk_entries (wd_disk w) (temp_name [1, 171]) = None"
    using office_saved by blast
  from office_adds [OF w] obtain t
    where t: "add_peer_cmd office (Some (newcomer, ''secret'')) (\<lambda>_. True) (office_machine w) = (Inr (), t)" by blast
  let ?w = "(sample_web grown_db)\<lparr>wb_kernel := [fresh_info (replicate 32 9)]\<rparr>"
  have parts: "cx_sizes sample_web_context = sample_sizes" "cx_kernel sample_web_context = sample_kernel"
    "cx_iface sample_web_context = ''wg0''" "cx_management sample_web_context = Some [3 \<mapsto> replicate 32 9]"
    by (simp_all add: sample_web_context_def)
  have key: "key_of_text (cx_diff sample_web_context) (pe_public_key (sample_listed 9 2)) = Some (replicate 32 2)"
    using toy_base64_law by (simp add: key_of_text_def sample_diff_def sample_key_def sample_listed_def base64_law_def)
  have free: "lookup (replicate 32 2) (wb_kernel ?w) = None" "\<not> pe_is_disabled (sample_listed 9 2)" "replicate 32 2 \<noteq> replicate 32 (9 :: byte)"
    by (simp_all add: lookup_None sample_listed_def)
  have "db_max_peer_id (mc_db (office_machine w)) = 3" by (simp add: office_db_def sample_db_def)
  then have law: "\<forall>i > db_max_peer_id (mc_db (office_machine w)). [3 \<mapsto> replicate 32 9] i = None" by simp
  have kernel: "kernel_law (cx_kernel sample_web_context) (cx_iface sample_web_context) (\<lambda>ps. ps)" "sizes_law (cx_sizes sample_web_context)"
    by (simp_all add: parts sample_kernel_law sample_sizes_law)
  have applies: "\<exists>k'. apply_update (cx_sizes sample_web_context) (cx_kernel sample_web_context) (add_peers bs update_new)
      (cx_iface sample_web_context) k = (Inr (), k')" for bs k
    unfolding parts by (rule any_update_applies)
  have "mc_required (office_machine w)" by simp
  note lost = late_peer_loses_psk [OF t this parts(4) law kernel applies]
  from lost obtain i and e :: mgmt_enrollment
    where e: "bt_get i (db_peers (mc_db (office_machine w))) = None" "me_peer_id e = word_of_int i" "me_psk e \<noteq> zero_psk"
    and all: "\<forall>task p key w. rt_peer task = (i, p) \<longrightarrow> \<not> pe_is_disabled p \<longrightarrow>
       key_of_text (cx_diff sample_web_context) (pe_public_key p) = Some key \<longrightarrow> key \<noteq> rt_old_key task \<longrightarrow>
       lookup key (wb_kernel w) = None \<longrightarrow>
       (\<exists>info. lookup key (wb_kernel (run_task sample_web_context task w)) = Some info \<and> pc_preshared_key (pi_config info) = None)"
    by (elim exE conjE) (rule that)
  let ?t = "\<lparr>rt_old_key = replicate 32 9, rt_peer = (i, sample_listed 9 2)\<rparr>"
  have "rt_peer ?t = (i, sample_listed 9 2)" "replicate 32 2 \<noteq> rt_old_key ?t" using free(3) by simp_all
  with all key free have "\<exists>info. lookup (replicate 32 2) (wb_kernel (run_task sample_web_context ?t ?w)) = Some info \<and>
      pc_preshared_key (pi_config info) = None" by blast
  moreover have "bt_get i (db_peers office_db) = None" using e(1) by simp
  ultimately show ?thesis using e(2,3) by blast
qed

end
