(* ===== verification/Hosts.thy ===== *)
theory Hosts
  imports Gate
begin

text \<open>
  The section of the hosts file that innernet keeps up to date (\<^verbatim>\<open>hostsfile/src/lib.rs\<close> and
  \<^verbatim>\<open>update_hosts_file\<close> in \<^verbatim>\<open>shared/src/lib.rs\<close>), on a file system whose calls may fail. Text is a list
  of bytes, as it is on the disk; the printing of an address is a parameter.
\<close>

section \<open>Lines\<close>

abbreviation cr :: char where
  "cr \<equiv> CHR 0x0D"

abbreviation lf :: char where
  "lf \<equiv> CHR 0x0A"

text \<open>\<^verbatim>\<open>BufRead::lines\<close>: a line that ends at a line feed loses one carriage return before it.\<close>

definition strip_cr :: "string \<Rightarrow> string" where
  "strip_cr l = (if l \<noteq> [] \<and> last l = cr then butlast l else l)"

fun lines_from :: "string \<Rightarrow> string \<Rightarrow> string list" where
  "lines_from line [] = (if line = [] then [] else [line])"
| "lines_from line (c # cs) = (if c = lf then strip_cr line # lines_from [] cs else lines_from (line @ [c]) cs)"

definition text_lines :: "string \<Rightarrow> string list" where
  "text_lines t = lines_from [] t"

text \<open>\<^verbatim>\<open>writeln!\<close> of each line.\<close>

definition unlines :: "string list \<Rightarrow> string" where
  "unlines ls = concat (map (\<lambda>l. l @ [lf]) ls)"

text \<open>What \<^verbatim>\<open>String::from_utf8\<close> accepts: no overlong forms, no surrogates, nothing beyond U+10FFFF.\<close>

definition utf8_tail :: "nat \<Rightarrow> (nat \<times> nat \<times> nat) option" where
  "utf8_tail a =
     (if a < 128 then Some (0, 0, 0)
      else if 194 \<le> a \<and> a \<le> 223 then Some (1, 128, 191)
      else if a = 224 then Some (2, 160, 191)
      else if a = 237 then Some (2, 128, 159)
      else if 225 \<le> a \<and> a \<le> 239 then Some (2, 128, 191)
      else if a = 240 then Some (3, 144, 191)
      else if 241 \<le> a \<and> a \<le> 243 then Some (3, 128, 191)
      else if a = 244 then Some (3, 128, 143)
      else None)"

fun utf8_valid :: "string \<Rightarrow> bool" where
  "utf8_valid [] = True"
| "utf8_valid (c # cs) =
     (case utf8_tail (of_char c) of
        None \<Rightarrow> False
      | Some (n, low, high) \<Rightarrow>
          n \<le> length cs \<and> (n = 0 \<or> low \<le> of_char (hd cs) \<and> of_char (hd cs) \<le> high) \<and>
          list_all (\<lambda>b. 128 \<le> (of_char b :: nat) \<and> of_char b \<le> (191 :: nat)) (take n cs) \<and> utf8_valid (drop n cs))"

text \<open>\<^verbatim>\<open>str::trim\<close>: the white space of Unicode, in UTF-8.\<close>

definition whitespace :: "string list" where
  "whitespace = map (map char_of)
     [[9 :: nat], [10], [11], [12], [13], [32], [194, 133], [194, 160], [225, 154, 128],
      [226, 128, 128], [226, 128, 129], [226, 128, 130], [226, 128, 131], [226, 128, 132], [226, 128, 133],
      [226, 128, 134], [226, 128, 135], [226, 128, 136], [226, 128, 137], [226, 128, 138],
      [226, 128, 168], [226, 128, 169], [226, 128, 175], [226, 129, 159], [227, 128, 128]]"

function strip_all :: "string list \<Rightarrow> string \<Rightarrow> string" where
  "strip_all ws s =
     (case List.find (\<lambda>w. w \<noteq> [] \<and> take (length w) s = w) ws of
        None \<Rightarrow> s
      | Some w \<Rightarrow> strip_all ws (drop (length w) s))"
  by pat_completeness auto
termination
proof (relation "measure (\<lambda>(ws, s). length s)", goal_cases)
  case (2 ws s w)
  then have "w \<noteq> []" "take (length w) s = w" by (auto simp: find_Some_iff)
  then have "s \<noteq> []" by auto
  with \<open>w \<noteq> []\<close> show ?case by simp
qed simp

declare strip_all.simps [simp del]

definition trim :: "string \<Rightarrow> string" where
  "trim s = rev (strip_all (map rev whitespace) (rev (strip_all whitespace s)))"

section \<open>The section\<close>

instantiation ip_addr :: linorder
begin

fun less_eq_ip_addr :: "ip_addr \<Rightarrow> ip_addr \<Rightarrow> bool" where
  "IpV4 a \<le> IpV4 b \<longleftrightarrow> a \<le> b"
| "IpV4 a \<le> IpV6 b \<longleftrightarrow> True"
| "IpV6 a \<le> IpV4 b \<longleftrightarrow> False"
| "IpV6 a \<le> IpV6 b \<longleftrightarrow> a \<le> b"

definition less_ip_addr :: "ip_addr \<Rightarrow> ip_addr \<Rightarrow> bool" where
  "(x :: ip_addr) < y \<longleftrightarrow> x \<le> y \<and> x \<noteq> y"

instance
proof
  fix x y z :: ip_addr
  show "x < y \<longleftrightarrow> x \<le> y \<and> \<not> y \<le> x" by (cases x; cases y) (auto simp: less_ip_addr_def)
  show "x \<le> x" by (cases x) simp_all
  show "x \<le> y \<Longrightarrow> y \<le> z \<Longrightarrow> x \<le> z" by (cases x; cases y; cases z) auto
  show "x \<le> y \<Longrightarrow> y \<le> x \<Longrightarrow> x = y" by (cases x; cases y) auto
  show "x \<le> y \<or> y \<le> x" by (cases x; cases y) auto
qed

end

record hosts_builder =
  hb_tag :: string
  hb_names :: "(ip_addr, string list) btree"

definition hosts_new :: "string \<Rightarrow> hosts_builder" where
  "hosts_new tag = \<lparr>hb_tag = tag, hb_names = []\<rparr>"

definition add_hostname :: "ip_addr \<Rightarrow> string \<Rightarrow> hosts_builder \<Rightarrow> hosts_builder" where
  "add_hostname ip hostname b = b\<lparr>hb_names := bt_insert ip
     ((case bt_get ip (hb_names b) of None \<Rightarrow> [] | Some hs \<Rightarrow> hs) @ [hostname]) (hb_names b)\<rparr>"

definition add_hostnames :: "ip_addr \<Rightarrow> string list \<Rightarrow> hosts_builder \<Rightarrow> hosts_builder" where
  "add_hostnames ip hostnames b = b\<lparr>hb_names := bt_insert ip
     ((case bt_get ip (hb_names b) of None \<Rightarrow> [] | Some hs \<Rightarrow> hs) @ hostnames) (hb_names b)\<rparr>"

definition begin_marker :: "hosts_builder \<Rightarrow> string" where
  "begin_marker b = ''# DO NOT EDIT '' @ hb_tag b @ '' BEGIN''"

definition end_marker :: "hosts_builder \<Rightarrow> string" where
  "end_marker b = ''# DO NOT EDIT '' @ hb_tag b @ '' END''"

definition section_lines :: "(ip_addr \<Rightarrow> string) \<Rightarrow> hosts_builder \<Rightarrow> string list" where
  "section_lines show_ip b =
     (if hb_names b = [] then []
      else [begin_marker b] @ map (\<lambda>(ip, hostnames). show_ip ip @ '' '' @ join '' '' hostnames) (hb_names b) @ [end_marker b])"

text \<open>A file with the end before the beginning makes \<^verbatim>\<open>drain\<close> panic.\<close>

datatype hosts_error = HoDirectory | HoPath | HoIo | HoMarkers | HoPanic

fun position :: "('a \<Rightarrow> bool) \<Rightarrow> 'a list \<Rightarrow> nat option" where
  "position P [] = None"
| "position P (x # xs) = (if P x then Some 0 else map_option Suc (position P xs))"

text \<open>The lines to write, or \<open>None\<close> when the section is what it should be.\<close>

definition edited :: "(ip_addr \<Rightarrow> string) \<Rightarrow> hosts_builder \<Rightarrow> string list \<Rightarrow> (hosts_error, string list option) result" where
  "edited show_ip b ls =
     (let new = section_lines show_ip b in
      case (position (\<lambda>l. trim l = begin_marker b) ls, position (\<lambda>l. trim l = end_marker b) ls) of
        (Some i, Some j) \<Rightarrow>
          if j + 1 < i then Err HoPanic
          else if take (j + 1 - i) (drop i ls) = new then Ok None
          else Ok (Some (take i ls @ new @ drop (j + 1) ls))
      | (None, None) \<Rightarrow> Ok (Some ((if ls \<noteq> [] \<and> last ls \<noteq> [] then ls @ [[]] else ls) @ new))
      | _ \<Rightarrow> Err HoMarkers)"

section \<open>Writing the file\<close>

text \<open>Files and directories by their path. The temporary file is named after the time.\<close>

record file_tree =
  ft_files :: "path_part list \<rightharpoonup> string"
  ft_dirs :: "path_part list set"

datatype hosts_call = OpenHosts | ReadHosts | CopyHosts | OpenSwap | WriteSwap | RenameSwap | OpenClobber | WriteClobber

text \<open>\<open>hv_copied\<close> is what a failing copy leaves of the temporary file, \<open>hv_written\<close> how much a failing write
  has written.\<close>

record hosts_env =
  hv_fails :: "hosts_call \<Rightarrow> bool"
  hv_copied :: "nat option"
  hv_written :: nat
  hv_millis :: "nat option"

type_synonym 'a hostsS = "(file_tree, hosts_error, 'a) comp"

definition hosts_try :: "hosts_env \<Rightarrow> hosts_call \<Rightarrow> unit hostsS" where
  "hosts_try V c = liftS (guardR (\<not> hv_fails V c) HoIo)"

definition put_file :: "path_part list \<Rightarrow> string option \<Rightarrow> unit hostsS" where
  "put_file p t = modS (\<lambda>f. f\<lparr>ft_files := (ft_files f)(p := t)\<rparr>)"

definition get_temp_path :: "hosts_env \<Rightarrow> path_part list \<Rightarrow> (hosts_error, path_part list) result" where
  "get_temp_path V p =
     (if p = [] \<or> last p = RootDir then Err HoPath
      else case hv_millis V of
        None \<Rightarrow> Err HoPanic
      | Some ms \<Rightarrow>
          (case last p of
             Normal name \<Rightarrow> Ok (butlast p @ [Normal (name @ ''.tmp'' @ dec_of_nat ms)])
           | _ \<Rightarrow> Err HoPath))"

definition write_clobber :: "hosts_env \<Rightarrow> hosts_call \<Rightarrow> hosts_call \<Rightarrow> path_part list \<Rightarrow> string \<Rightarrow> unit hostsS" where
  "write_clobber V opening writing p t =
     bindS (hosts_try V opening) (\<lambda>_.
     if hv_fails V writing then bindS (put_file p (Some (take (hv_written V) t))) (\<lambda>_. failS HoIo)
     else put_file p (Some t))"

definition copy_file :: "hosts_env \<Rightarrow> path_part list \<Rightarrow> path_part list \<Rightarrow> unit hostsS" where
  "copy_file V p temp =
     bindS (getS (\<lambda>f. ft_files f p)) (\<lambda>held.
     if hv_fails V CopyHosts \<or> held = None
     then bindS (case hv_copied V of
         None \<Rightarrow> retS ()
       | Some n \<Rightarrow> put_file temp (Some (take n (case held of None \<Rightarrow> [] | Some t \<Rightarrow> t)))) (\<lambda>_. failS HoIo)
     else put_file temp held)"

definition write_and_swap :: "hosts_env \<Rightarrow> path_part list \<Rightarrow> path_part list \<Rightarrow> string \<Rightarrow> unit hostsS" where
  "write_and_swap V temp p t =
     bindS (copy_file V p temp) (\<lambda>_.
     bindS (write_clobber V OpenSwap WriteSwap temp t) (\<lambda>_.
     bindS (hosts_try V RenameSwap) (\<lambda>_.
     bindS (getS (\<lambda>f. ft_files f temp)) (\<lambda>swapped.
     bindS (put_file p swapped) (\<lambda>_. put_file temp None)))))"

definition open_hosts :: "hosts_env \<Rightarrow> path_part list \<Rightarrow> string hostsS" where
  "open_hosts V p =
     bindS (hosts_try V OpenHosts) (\<lambda>_.
     bindS (modS (\<lambda>f. if ft_files f p = None then f\<lparr>ft_files := (ft_files f)(p \<mapsto> [])\<rparr> else f)) (\<lambda>_.
     bindS (getS (\<lambda>f. case ft_files f p of None \<Rightarrow> [] | Some t \<Rightarrow> t)) (\<lambda>t.
     bindS (liftS (guardR (\<not> hv_fails V ReadHosts \<and> utf8_valid t) HoPanic)) (\<lambda>_.
     retS t))))"

definition write_to :: "(ip_addr \<Rightarrow> string) \<Rightarrow> hosts_env \<Rightarrow> path_part list \<Rightarrow> hosts_builder \<Rightarrow> bool hostsS" where
  "write_to show_ip V p b =
     bindS (getS (\<lambda>f. p \<in> ft_dirs f)) (\<lambda>is_dir.
     bindS (liftS (guardR (\<not> is_dir) HoDirectory)) (\<lambda>_.
     bindS (liftS (get_temp_path V p)) (\<lambda>temp.
     bindS (open_hosts V p) (\<lambda>t.
     bindS (liftS (edited show_ip b (text_lines t))) (\<lambda>new.
     case new of
       None \<Rightarrow> retS False
     | Some ls \<Rightarrow>
         bindS (\<lambda>f. case write_and_swap V temp p (unlines ls) f of
             (Inl _, g) \<Rightarrow> write_clobber V OpenClobber WriteClobber p (unlines ls) g
           | (Inr _, g) \<Rightarrow> (Ok (), g)) (\<lambda>_.
         retS True))))))"

section \<open>The peers of a network\<close>

record hosts_opts =
  ho_no_write :: bool
  ho_path :: "path_part list"
  ho_suffix :: "string option"

definition peer_hostname :: "string \<Rightarrow> hosts_opts \<Rightarrow> peer \<Rightarrow> string" where
  "peer_hostname iface H p =
     (case ho_suffix H of
        Some suffix \<Rightarrow> if suffix = [] then pe_name p else pe_name p @ ''.'' @ suffix
      | None \<Rightarrow> pe_name p @ ''.'' @ iface @ ''.wg'')"

definition hosts_of :: "string \<Rightarrow> hosts_opts \<Rightarrow> (int \<times> peer) list \<Rightarrow> hosts_builder" where
  "hosts_of iface H peers =
     fold (\<lambda>(i, p). add_hostname (pe_ip p) (peer_hostname iface H p)) peers (hosts_new (''innernet '' @ iface))"

text \<open>Only a panic is not swallowed.\<close>

definition update_hosts_file ::
    "(ip_addr \<Rightarrow> string) \<Rightarrow> hosts_env \<Rightarrow> string \<Rightarrow> hosts_opts \<Rightarrow> (int \<times> peer) list \<Rightarrow> unit hostsS" where
  "update_hosts_file show_ip V iface H peers =
     (if ho_no_write H then retS ()
      else (\<lambda>f. case write_to show_ip V (ho_path H) (hosts_of iface H peers) f of
          (Inl HoPanic, g) \<Rightarrow> (Err HoPanic, g)
        | (_, g) \<Rightarrow> (Ok (), g)))"

text \<open>A round of the server's writer, \<^verbatim>\<open>spawn_hostfile_writer\<close>.\<close>

definition hostfile_tick ::
    "(ip_addr \<Rightarrow> string) \<Rightarrow> hosts_env \<Rightarrow> net_lib \<Rightarrow> string \<Rightarrow> hosts_opts \<Rightarrow> pq_db \<Rightarrow> unit hostsS" where
  "hostfile_tick show_ip V N iface H db =
     (case peer_list_enabled N db of
        Inr peers \<Rightarrow> update_hosts_file show_ip V iface H peers
      | Inl _ \<Rightarrow> retS ())"

end
