(* ===== verification/HostsProps.thy ===== *)
theory HostsProps
  imports Hosts MailboxClaims
begin

text \<open>
  What writing the hosts file promises: the section is replaced, everything else stays, and a second
  writing has nothing to do.
\<close>

section \<open>Lines of a text\<close>

lemma lines_from_line: "lf \<notin> set l \<Longrightarrow> lines_from line (l @ lf # t) = strip_cr (line @ l) # lines_from [] t"
  by (induction l arbitrary: line) auto

lemma text_lines_unlines: "\<forall>l \<in> set ls. lf \<notin> set l \<Longrightarrow> text_lines (unlines ls) = map strip_cr ls"
  unfolding text_lines_def by (induction ls) (simp_all add: unlines_def lines_from_line)

lemma lines_from_set: "l \<in> set (lines_from line t) \<Longrightarrow> set l \<subseteq> set line \<union> (set t - {lf})"
proof (induction line t arbitrary: l rule: lines_from.induct)
  case (2 line c cs)
  have "set (strip_cr line) \<subseteq> set line" by (auto simp: strip_cr_def dest: in_set_butlastD)
  with 2 show ?case by (fastforce split: if_splits)
qed (auto split: if_splits)

lemma text_lines_set: "l \<in> set (text_lines t) \<Longrightarrow> set l \<subseteq> set t - {lf}"
  using lines_from_set [of l "[]" t] by (simp add: text_lines_def)

lemma strip_cr_id: "cr \<notin> set l \<Longrightarrow> strip_cr l = l"
  by (metis last_in_set strip_cr_def)

section \<open>Trimming\<close>

lemma strip_all_id: "\<forall>w \<in> set ws. w = [] \<or> hd w \<noteq> c \<Longrightarrow> strip_all ws (c # s) = c # s"
proof -
  assume "\<forall>w \<in> set ws. w = [] \<or> hd w \<noteq> c"
  then have "List.find (\<lambda>w. w \<noteq> [] \<and> take (length w) (c # s) = w) ws = None"
    by (auto simp: find_None_iff take_Cons' split: if_splits) (metis list.sel(1))
  then show ?thesis by (simp add: strip_all.simps)
qed

lemma strip_all_last: "c \<notin> \<Union> (set ` set ws) \<Longrightarrow> \<exists>t. strip_all ws (s @ [c]) = t @ [c]"
proof (induction "length s" arbitrary: s rule: less_induct)
  case less
  show ?case
  proof (cases "List.find (\<lambda>w. w \<noteq> [] \<and> take (length w) (s @ [c]) = w) ws")
    case None
    then show ?thesis by (simp add: strip_all.simps)
  next
    case (Some w)
    then have w: "w \<noteq> []" "take (length w) (s @ [c]) = w" "w \<in> set ws"
      by (auto simp: find_Some_iff)
    have "length w \<le> length s"
    proof (rule ccontr)
      assume "\<not> length w \<le> length s"
      then have "take (length w) (s @ [c]) = s @ [c]" by simp
      then have "c \<in> set w" using w(2) by (metis in_set_conv_decomp)
      with less.prems w(3) show False by blast
    qed
    then have rest: "drop (length w) (s @ [c]) = drop (length w) s @ [c]" "length (drop (length w) s) < length s"
      using w(1) by simp_all (cases w; cases s; simp)
    from Some have "strip_all ws (s @ [c]) = strip_all ws (drop (length w) s @ [c])"
      using rest(1) by (simp add: strip_all.simps [of ws "s @ [c]"])
    with less.hyps [OF rest(2) less.prems] show ?thesis by simp
  qed
qed

text \<open>Bytes that occur in no white space.\<close>

definition solid :: "char \<Rightarrow> bool" where
  "solid c \<longleftrightarrow> c \<notin> \<Union> (set ` set whitespace)"

lemma trim_solid: "solid c \<Longrightarrow> \<exists>t. trim (c # s) = c # t"
proof -
  assume c: "solid c"
  have "\<forall>w \<in> set whitespace. w = [] \<or> hd w \<noteq> c" using c by (metis UN_I hd_in_set solid_def)
  then have "strip_all whitespace (c # s) = c # s" by (rule strip_all_id)
  moreover have "c \<notin> \<Union> (set ` set (map rev whitespace))" using c by (simp add: solid_def)
  from strip_all_last [OF this, of "rev s"] obtain t where "strip_all (map rev whitespace) (rev (c # s)) = t @ [c]" by auto
  ultimately show ?thesis by (simp add: trim_def)
qed

lemma trim_id: "solid c \<Longrightarrow> solid d \<Longrightarrow> trim (c # s @ [d]) = c # s @ [d]"
proof -
  assume cd: "solid c" "solid d"
  have start: "\<forall>w \<in> set whitespace. w = [] \<or> hd w \<noteq> c" using cd(1) by (metis UN_I hd_in_set solid_def)
  have "\<forall>w \<in> set (map rev whitespace). w = [] \<or> hd w \<noteq> d"
    using cd(2) by (auto simp: solid_def hd_rev)
  from strip_all_id [OF this, of "rev s @ [c]"] strip_all_id [OF start, of "s @ [d]"] show ?thesis
    by (simp add: trim_def)
qed

lemma solid_chars: "solid CHR ''#''" "solid CHR ''N''" "solid CHR ''D''"
  by (simp_all add: solid_def whitespace_def char_of_def)

lemma trim_marker [simp]: "trim (begin_marker b) = begin_marker b" "trim (end_marker b) = end_marker b"
  using trim_id [OF solid_chars(1,2), of "'' DO NOT EDIT '' @ hb_tag b @ '' BEGI''"]
    trim_id [OF solid_chars(1,3), of "'' DO NOT EDIT '' @ hb_tag b @ '' EN''"]
  by (simp_all add: begin_marker_def end_marker_def)

lemma markers_differ [simp]: "begin_marker b \<noteq> end_marker b" "end_marker b \<noteq> begin_marker b" "begin_marker b \<noteq> []" "end_marker b \<noteq> []"
  by (simp_all add: begin_marker_def end_marker_def)

section \<open>Finding the section\<close>

lemma position_Some: "position P xs = Some i \<Longrightarrow> i < length xs \<and> P (xs ! i) \<and> (\<forall>x \<in> set (take i xs). \<not> P x)"
  by (induction xs arbitrary: i) (auto split: if_splits)

lemma position_None: "position P xs = None \<longleftrightarrow> (\<forall>x \<in> set xs. \<not> P x)"
  by (induction xs) auto

lemma position_at: "\<forall>x \<in> set xs. \<not> P x \<Longrightarrow> P y \<Longrightarrow> position P (xs @ y # ys) = Some (length xs)"
  by (induction xs) auto

text \<open>What an address looks like as text.\<close>

definition ip_chars :: string where
  "ip_chars = ''0123456789abcdef.:''"

definition ip_text_law :: "(ip_addr \<Rightarrow> string) \<Rightarrow> bool" where
  "ip_text_law show_ip \<longleftrightarrow> (\<forall>ip. show_ip ip \<noteq> [] \<and> set (show_ip ip) \<subseteq> set ip_chars)"

definition clean :: "string \<Rightarrow> bool" where
  "clean s \<longleftrightarrow> cr \<notin> set s \<and> lf \<notin> set s"

definition clean_builder :: "hosts_builder \<Rightarrow> bool" where
  "clean_builder b \<longleftrightarrow> clean (hb_tag b) \<and> (\<forall>(ip, hostnames) \<in> set (hb_names b). \<forall>h \<in> set hostnames. clean h)"

lemma ip_char: "c \<in> set ip_chars \<Longrightarrow> solid c \<and> c \<noteq> CHR ''#'' \<and> c \<noteq> cr \<and> c \<noteq> lf"
proof -
  have "list_all (\<lambda>c. solid c \<and> c \<noteq> CHR ''#'' \<and> c \<noteq> cr \<and> c \<noteq> lf) ip_chars" by code_simp
  then show "c \<in> set ip_chars \<Longrightarrow> solid c \<and> c \<noteq> CHR ''#'' \<and> c \<noteq> cr \<and> c \<noteq> lf" by (simp add: list_all_iff)
qed

lemma entry_trim:
  assumes "ip_text_law show_ip"
  shows "trim (show_ip ip @ s) \<noteq> begin_marker b" "trim (show_ip ip @ s) \<noteq> end_marker b"
proof -
  obtain c t where ip: "show_ip ip = c # t" "c \<in> set ip_chars"
    using assms by (cases "show_ip ip") (auto simp: ip_text_law_def dest: spec [of _ ip])
  then have c: "solid c" "c \<noteq> CHR ''#''" using ip_char by simp_all
  from trim_solid [OF c(1), of "t @ s"] obtain u where "trim (show_ip ip @ s) = c # u" using ip(1) by auto
  with c(2) show "trim (show_ip ip @ s) \<noteq> begin_marker b" "trim (show_ip ip @ s) \<noteq> end_marker b"
    by (auto simp: begin_marker_def end_marker_def)
qed

lemma clean_append [simp]: "clean (s @ t) \<longleftrightarrow> clean s \<and> clean t"
  by (auto simp: clean_def)

lemma clean_blank [simp]: "clean (CHR '' '' # s) \<longleftrightarrow> clean s"
  by (auto simp: clean_def)

lemma clean_join: "\<forall>h \<in> set hs. clean h \<Longrightarrow> clean (join '' '' hs)"
proof (induction "'' ''" hs rule: join.induct)
  case 1 then show ?case by (simp add: clean_def)
next
  case 3 then show ?case by simp
qed simp

lemma section_clean:
  assumes "ip_text_law show_ip" "clean_builder b" "l \<in> set (section_lines show_ip b)"
  shows "clean l"
proof -
  have "clean (show_ip ip)" for ip
    using assms(1) ip_char by (fastforce simp: ip_text_law_def clean_def)
  moreover have "clean (begin_marker b)" "clean (end_marker b)"
    using assms(2) by (auto simp: clean_builder_def begin_marker_def end_marker_def clean_def)
  moreover have "clean '' ''" by (simp add: clean_def)
  ultimately show ?thesis
    using assms(2,3) by (auto simp: section_lines_def clean_builder_def intro!: clean_join split: if_splits)
qed

definition well_marked :: "hosts_builder \<Rightarrow> string list \<Rightarrow> bool" where
  "well_marked b ls \<longleftrightarrow>
     (case (position (\<lambda>l. trim l = begin_marker b) ls, position (\<lambda>l. trim l = end_marker b) ls) of
        (Some i, Some j) \<Rightarrow> i < j | (None, None) \<Rightarrow> True | _ \<Rightarrow> False)"

text \<open>The lines outside the section, before and after it; a new section is set off by an empty line.\<close>

definition others :: "hosts_builder \<Rightarrow> string list \<Rightarrow> string list \<times> string list" where
  "others b ls =
     (case (position (\<lambda>l. trim l = begin_marker b) ls, position (\<lambda>l. trim l = end_marker b) ls) of
        (Some i, Some j) \<Rightarrow> (take i ls, drop (j + 1) ls)
      | _ \<Rightarrow> (if ls \<noteq> [] \<and> last ls \<noteq> [] then ls @ [[]] else ls, []))"

lemma edited_cases:
  assumes "edited show_ip b ls = Inr new" "well_marked b ls"
  shows "case new of
      None \<Rightarrow> ls = fst (others b ls) @ section_lines show_ip b @ snd (others b ls) \<and> hb_names b \<noteq> []
    | Some ls' \<Rightarrow> ls' = fst (others b ls) @ section_lines show_ip b @ snd (others b ls)"
proof (cases "position (\<lambda>l. trim l = begin_marker b) ls")
  case None
  with assms show ?thesis
    by (auto simp: edited_def well_marked_def others_def Let_def split: option.splits)
next
  case (Some i)
  with assms(2) obtain j where j: "position (\<lambda>l. trim l = end_marker b) ls = Some j" "i < j"
    by (auto simp: well_marked_def split: option.splits)
  from position_Some [OF j(1)] have len: "j < length ls" by simp
  have "ls = take i ls @ take (j + 1 - i) (drop i ls) @ drop (j + 1) ls"
    using j(2) len by (metis add.commute append.assoc append_take_drop_id le_add_diff_inverse less_imp_le_nat take_add trans_less_add1)
  moreover have "take (j + 1 - i) (drop i ls) \<noteq> []" using j(2) len by simp
  ultimately show ?thesis
    using assms(1) Some j by (auto simp: edited_def others_def Let_def section_lines_def split: if_splits)
qed

text \<open>Once it is written, there is nothing to write.\<close>

lemma edited_again:
  assumes "ip_text_law show_ip" "well_marked b ls" "hb_names b \<noteq> []"
  shows "edited show_ip b (fst (others b ls) @ section_lines show_ip b @ snd (others b ls)) = Inr None"
proof -
  let ?entries = "map (\<lambda>(ip, hostnames). show_ip ip @ '' '' @ join '' '' hostnames) (hb_names b)"
  let ?before = "fst (others b ls)" and ?after = "snd (others b ls)"
  have new: "section_lines show_ip b = begin_marker b # ?entries @ [end_marker b]"
    using assms(3) by (simp add: section_lines_def)
  have "trim [] = []" by (simp add: trim_def whitespace_def strip_all.simps)
  then have blank: "trim [] \<noteq> begin_marker b" "trim [] \<noteq> end_marker b" by (metis markers_differ(3), metis markers_differ(4))
  have before: "\<forall>l \<in> set ?before. trim l \<noteq> begin_marker b \<and> trim l \<noteq> end_marker b"
  proof (cases "position (\<lambda>l. trim l = begin_marker b) ls")
    case None
    with assms(2) have "position (\<lambda>l. trim l = end_marker b) ls = None" by (auto simp: well_marked_def split: option.splits)
    with None have "set ?before \<subseteq> insert [] (set ls)" by (auto simp: others_def)
    moreover have "\<forall>l \<in> insert [] (set ls). trim l \<noteq> begin_marker b \<and> trim l \<noteq> end_marker b"
      using None \<open>position (\<lambda>l. trim l = end_marker b) ls = None\<close> blank by (simp add: position_None)
    ultimately show ?thesis by blast
  next
    case (Some i)
    with assms(2) obtain j where j: "position (\<lambda>l. trim l = end_marker b) ls = Some j" "i < j"
      by (auto simp: well_marked_def split: option.splits)
    have "set (take i ls) \<subseteq> set (take j ls)" using j(2) by (simp add: set_take_subset_set_take)
    then show ?thesis using position_Some [OF Some] position_Some [OF j(1)] Some j by (auto simp: others_def)
  qed
  have entries: "\<forall>l \<in> set ?entries. trim l \<noteq> begin_marker b \<and> trim l \<noteq> end_marker b"
    using entry_trim [OF assms(1)] by auto
  have i: "position (\<lambda>l. trim l = begin_marker b) (?before @ section_lines show_ip b @ ?after) = Some (length ?before)"
    unfolding new using before by (simp add: position_at)
  have "position (\<lambda>l. trim l = end_marker b) ((?before @ begin_marker b # ?entries) @ end_marker b # ?after)
      = Some (length (?before @ begin_marker b # ?entries))"
    using before entries by (intro position_at) auto
  then have j: "position (\<lambda>l. trim l = end_marker b) (?before @ section_lines show_ip b @ ?after)
      = Some (length ?before + 1 + length ?entries)" unfolding new by simp
  show ?thesis
    unfolding edited_def i j Let_def by (simp add: new)
qed

section \<open>Writing\<close>

lemma temp_differs: "get_temp_path V p = Inr temp \<Longrightarrow> temp \<noteq> p"
proof -
  assume "get_temp_path V p = Inr temp"
  then obtain name ms where last: "p \<noteq> []" "last p = Normal name" and temp: "temp = butlast p @ [Normal (name @ ''.tmp'' @ dec_of_nat ms)]"
    by (auto simp: get_temp_path_def split: if_splits option.splits path_part.splits)
  have "last temp \<noteq> last p" by (simp add: temp last)
  then show ?thesis by auto
qed

lemma write_clobber_cases:
  assumes "write_clobber V opening writing p t f = (r, g)"
  shows "r = Inr () \<and> g = f\<lparr>ft_files := (ft_files f)(p \<mapsto> t)\<rparr> \<or>
    r = Inl HoIo \<and> (g = f \<or> hv_fails V writing \<and> g = f\<lparr>ft_files := (ft_files f)(p \<mapsto> take (hv_written V) t)\<rparr>)"
  using assms
  by (auto simp: write_clobber_def hosts_try_def put_file_def bindS_def liftS_def guardR_def modS_def failS_def
      split: if_splits)

text \<open>The attempt by a temporary file: all or nothing, apart from that file.\<close>

lemma swap_cases:
  assumes "write_and_swap V temp p t f = (r, g)" "temp \<noteq> p" "ft_files f p = Some old"
  shows "(\<forall>q. q \<noteq> p \<and> q \<noteq> temp \<longrightarrow> ft_files g q = ft_files f q) \<and> ft_dirs g = ft_dirs f \<and>
    (r = Inr () \<and> ft_files g p = Some t \<or> r = Inl HoIo \<and> ft_files g p = Some old)"
proof -
  obtain r1 f1 where copy: "copy_file V p temp f = (r1, f1)" by fastforce
  have f1: "ft_files f1 p = Some old" "\<forall>q. q \<noteq> p \<and> q \<noteq> temp \<longrightarrow> ft_files f1 q = ft_files f q" "ft_dirs f1 = ft_dirs f"
    "r1 = Inr () \<or> r1 = Inl HoIo"
    using copy assms(2,3)
    by (auto simp: copy_file_def bindS_def getS_def put_file_def modS_def failS_def retS_def split: if_splits option.splits)
  show ?thesis
  proof (cases "r1 = Inr ()")
    case False
    with f1(4) copy assms(1) have "g = f1" "r = Inl HoIo" by (auto simp: write_and_swap_def bindS_def)
    with f1 show ?thesis by simp
  next
    case True
    obtain r2 f2 where wrote: "write_clobber V OpenSwap WriteSwap temp t f1 = (r2, f2)" by fastforce
    note w = write_clobber_cases [OF wrote]
    from w assms(2) have f2: "ft_files f2 p = ft_files f1 p" "\<forall>q. q \<noteq> temp \<longrightarrow> ft_files f2 q = ft_files f1 q" "ft_dirs f2 = ft_dirs f1"
      by auto
    show ?thesis
    proof (cases "r2 = Inr ()")
      case False
      with w copy wrote True assms(1) have "g = f2" "r = Inl HoIo" by (auto simp: write_and_swap_def bindS_def)
      with f1 f2 show ?thesis by simp
    next
      case written: True
      with w have temp: "ft_files f2 temp = Some t" by auto
      show ?thesis
      proof (cases "hv_fails V RenameSwap")
        case True
        with copy wrote \<open>r1 = Inr ()\<close> written assms(1) have "g = f2" "r = Inl HoIo"
          by (auto simp: write_and_swap_def bindS_def hosts_try_def liftS_def guardR_def)
        with f1 f2 show ?thesis by simp
      next
        case False
        with copy wrote \<open>r1 = Inr ()\<close> written temp assms(1,2)
        have "r = Inr ()" "g = f2\<lparr>ft_files := (ft_files f2)(p \<mapsto> t, temp := None)\<rparr>"
          by (auto simp: write_and_swap_def bindS_def hosts_try_def liftS_def guardR_def getS_def put_file_def modS_def)
        with f1 f2 assms(2) show ?thesis by simp
      qed
    qed
  qed
qed

lemma open_hosts_run:
  assumes "ft_files f p = Some t" "open_hosts V p f = (r, g)"
  shows "g = f \<and> (r = Inr t \<or> r = Inl HoIo \<or> r = Inl HoPanic)"
  using assms by (auto simp: open_hosts_def bindS_def hosts_try_def liftS_def guardR_def modS_def getS_def retS_def split: if_splits)

text \<open>Every way a call ends.\<close>

lemma write_to_cases:
  assumes "write_to show_ip V p b f = (r, g)" "ft_files f p = Some t"
  shows "ft_dirs g = ft_dirs f \<and> (\<forall>q. q \<noteq> p \<and> get_temp_path V p \<noteq> Inr q \<longrightarrow> ft_files g q = ft_files f q) \<and>
    ((\<exists>e. r = Inl e \<and> ft_files g p = Some t) \<or>
     r = Inr False \<and> edited show_ip b (text_lines t) = Inr None \<and> ft_files g p = Some t \<or>
     (\<exists>ls. edited show_ip b (text_lines t) = Inr (Some ls) \<and>
       (r = Inr True \<and> ft_files g p = Some (unlines ls) \<or>
        r = Inl HoIo \<and> hv_fails V WriteClobber \<and> ft_files g p = Some (take (hv_written V) (unlines ls)))))"
proof (cases "p \<in> ft_dirs f \<or> (\<exists>e. get_temp_path V p = Inl e)")
  case True
  with assms show ?thesis
    by (auto simp: write_to_def bindS_def getS_def liftS_def guardR_def split: if_splits)
next
  case False
  then obtain temp where temp: "p \<notin> ft_dirs f" "get_temp_path V p = Inr temp" by (cases "get_temp_path V p") auto
  obtain r1 f1 where start: "open_hosts V p f = (r1, f1)" by fastforce
  note o = open_hosts_run [OF assms(2) start]
  show ?thesis
  proof (cases "\<exists>ls. r1 = Inr t \<and> edited show_ip b (text_lines t) = Inr (Some ls)")
    case False
    with o temp start assms show ?thesis
      by (auto simp: write_to_def bindS_def getS_def liftS_def guardR_def retS_def split: if_splits option.splits sum.splits)
  next
    case True
    then obtain ls where ls: "r1 = Inr t" "edited show_ip b (text_lines t) = Inr (Some ls)" by blast
    obtain r2 f2 where swap: "write_and_swap V temp p (unlines ls) f = (r2, f2)" by fastforce
    note s = swap_cases [OF swap temp_differs [OF temp(2)] assms(2)]
    obtain r3 f3 where clobber: "write_clobber V OpenClobber WriteClobber p (unlines ls) f2 = (r3, f3)" by fastforce
    note c = write_clobber_cases [OF clobber]
    have run: "(r, g) = (case r2 of Inl _ \<Rightarrow> (map_sum id (\<lambda>_. True) r3, f3) | Inr _ \<Rightarrow> (Inr True, f2))"
      using assms(1) temp start o ls swap clobber
      by (auto simp: write_to_def bindS_def getS_def liftS_def guardR_def retS_def split: sum.splits)
    show ?thesis
    proof (cases r2)
      case (Inl e)
      with run have "r = map_sum id (\<lambda>_. True) r3" "g = f3" by simp_all
      with c s ls temp(2) Inl show ?thesis by (elim disjE conjE) auto
    next
      case (Inr u)
      with run have "r = Inr True" "g = f2" by simp_all
      with s ls temp(2) Inr show ?thesis by auto
    qed
  qed
qed

text \<open>C25. Writing the hosts file of a network replaces the section of that network, or appends one, and keeps
all other lines in their order; it reports no change exactly when the file has the section already;
and as long as the network has peers, a second writing finds nothing to do.\<close>

theorem hosts_section_replaced:
  assumes "write_to show_ip V p b f = (Inr changed, g)" "ft_files f p = Some t" "cr \<notin> set t"
    and "well_marked b (text_lines t)" "ip_text_law show_ip" "clean_builder b"
  shows "\<exists>u. ft_files g p = Some u \<and>
    text_lines u = fst (others b (text_lines t)) @ section_lines show_ip b @ snd (others b (text_lines t)) \<and>
    (\<not> changed \<longrightarrow> u = t) \<and> (\<forall>q. q \<noteq> p \<and> get_temp_path V p \<noteq> Inr q \<longrightarrow> ft_files g q = ft_files f q) \<and>
    (hb_names b \<noteq> [] \<longrightarrow> edited show_ip b (text_lines u) = Inr None)"
proof -
  let ?new = "fst (others b (text_lines t)) @ section_lines show_ip b @ snd (others b (text_lines t))"
  note w = write_to_cases [OF assms(1,2)]
  have rest: "\<forall>q. q \<noteq> p \<and> get_temp_path V p \<noteq> Inr q \<longrightarrow> ft_files g q = ft_files f q" using w by blast
  have again: "hb_names b \<noteq> [] \<Longrightarrow> edited show_ip b ?new = Inr None" by (rule edited_again [OF assms(5,4)])
  show ?thesis
  proof (cases "edited show_ip b (text_lines t) = Inr None")
    case True
    with edited_cases [OF True assms(4)] w rest again show ?thesis by auto
  next
    case False
    with w obtain ls where ls: "edited show_ip b (text_lines t) = Inr (Some ls)" "changed" "ft_files g p = Some (unlines ls)"
      by auto
    with edited_cases [OF ls(1) assms(4)] have new: "ls = ?new" by simp
    have lines: "clean l" if "l \<in> set (text_lines t)" for l
      using text_lines_set [OF that] assms(3) by (auto simp: clean_def)
    have "set (fst (others b (text_lines t))) \<union> set (snd (others b (text_lines t))) \<subseteq> insert [] (set (text_lines t))"
      by (auto simp: others_def split: option.splits if_splits dest: in_set_takeD in_set_dropD)
    moreover have "clean []" by (simp add: clean_def)
    ultimately have all: "\<forall>l \<in> set ls. clean l"
      using lines section_clean [OF assms(5,6)] unfolding new by fastforce
    then have "text_lines (unlines ls) = map strip_cr ls" by (intro text_lines_unlines) (simp add: clean_def)
    also have "... = ls" using all by (simp add: clean_def map_idI strip_cr_id)
    finally show ?thesis using ls new rest again by auto
  qed
qed

definition sample_hosts :: "string \<Rightarrow> file_tree" where
  "sample_hosts t = \<lparr>ft_files = [[RootDir, Normal ''h''] \<mapsto> t], ft_dirs = {[RootDir]}\<rparr>"

definition sample_builder :: hosts_builder where
  "sample_builder = \<lparr>hb_tag = ''t'', hb_names = [(IpV4 7, [''n''])]\<rparr>"

definition calm_hosts :: hosts_env where
  "calm_hosts = \<lparr>hv_fails = (\<lambda>_. False), hv_copied = None, hv_written = 0, hv_millis = Some 5\<rparr>"

lemma sample_trim: "trim ''a'' = ''a''" "position P [''a''] = (if P ''a'' then Some 0 else None)"
  by code_simp simp

lemma sample_write: "\<exists>g. write_to (\<lambda>_. ''7'') calm_hosts [RootDir, Normal ''h''] sample_builder (sample_hosts [CHR ''a'', lf]) = (Inr True, g)"
proof -
  have lines: "text_lines [CHR ''a'', lf] = [''a'']" "utf8_valid [CHR ''a'', lf]" by code_simp+
  have "edited (\<lambda>_. ''7'') sample_builder [''a''] = Inr (Some ([''a'', []] @ section_lines (\<lambda>_. ''7'') sample_builder))"
    by (simp add: edited_def sample_trim begin_marker_def end_marker_def Let_def)
  then show ?thesis
    using lines
    by (simp add: write_to_def bindS_def getS_def liftS_def guardR_def sample_hosts_def calm_hosts_def get_temp_path_def
        open_hosts_def hosts_try_def modS_def retS_def write_and_swap_def copy_file_def put_file_def write_clobber_def)
qed

theorem hosts_section_replaced_witness:
  "\<exists>g u. write_to (\<lambda>_. ''7'') calm_hosts [RootDir, Normal ''h''] sample_builder (sample_hosts [CHR ''a'', lf]) = (Inr True, g) \<and>
    ft_files g [RootDir, Normal ''h''] = Some u \<and>
    text_lines u = [''a'', [], ''# DO NOT EDIT t BEGIN'', ''7 n'', ''# DO NOT EDIT t END'']"
proof -
  obtain g where g: "write_to (\<lambda>_. ''7'') calm_hosts [RootDir, Normal ''h''] sample_builder (sample_hosts [CHR ''a'', lf]) = (Inr True, g)"
    using sample_write by blast
  have lines: "text_lines [CHR ''a'', lf] = [''a'']" by code_simp
  have "well_marked sample_builder [''a'']" "others sample_builder [''a''] = ([''a'', []], [])"
    by (simp_all add: well_marked_def others_def sample_trim begin_marker_def end_marker_def)
  moreover have "ip_text_law (\<lambda>_. ''7'')" by (simp add: ip_text_law_def ip_chars_def)
  moreover have "clean_builder sample_builder" by (simp add: clean_builder_def sample_builder_def clean_def)
  ultimately have "\<exists>u. ft_files g [RootDir, Normal ''h''] = Some u \<and>
      text_lines u = [''a'', []] @ section_lines (\<lambda>_. ''7'') sample_builder"
    using hosts_section_replaced [OF g, of "[CHR ''a'', lf]"] by (auto simp: sample_hosts_def lines)
  with g show ?thesis by (simp add: section_lines_def sample_builder_def begin_marker_def end_marker_def)
qed

text \<open>When the disk is full, updating the hosts file destroys it: the temporary file cannot be written,
the file itself is then truncated and written as far as that goes, and the failure is swallowed, so
the lines of the other programs are lost.\<close>

theorem full_disk_loses_hosts:
  assumes "ft_files f (ho_path H) = Some t" "\<not> ho_no_write H" "ho_path H \<notin> ft_dirs f" "utf8_valid t"
    and "get_temp_path V (ho_path H) = Inr temp" "hv_fails V = (\<lambda>c. c = WriteSwap \<or> c = WriteClobber)"
    and "edited show_ip (hosts_of iface H peers) (text_lines t) = Inr (Some ls)"
  shows "\<exists>g. update_hosts_file show_ip V iface H peers f = (Inr (), g) \<and>
    ft_files g (ho_path H) = Some (take (hv_written V) (unlines ls)) \<and>
    ft_files g temp = Some (take (hv_written V) (unlines ls))"
  using assms temp_differs [OF assms(5)]
  by (simp add: update_hosts_file_def write_to_def bindS_def getS_def liftS_def guardR_def open_hosts_def hosts_try_def modS_def
      retS_def write_and_swap_def copy_file_def put_file_def write_clobber_def failS_def)

theorem full_disk_loses_hosts_witness:
  "\<exists>g. update_hosts_file (\<lambda>_. ''7'') (calm_hosts\<lparr>hv_fails := (\<lambda>c. c = WriteSwap \<or> c = WriteClobber)\<rparr>) ''wg0''
      \<lparr>ho_no_write = False, ho_path = [RootDir, Normal ''h''], ho_suffix = None\<rparr> [(2, sample_invitee)]
      (sample_hosts [CHR ''a'', lf]) = (Inr (), g) \<and> ft_files g [RootDir, Normal ''h''] = Some []"
proof -
  let ?H = "\<lparr>ho_no_write = False, ho_path = [RootDir, Normal ''h''], ho_suffix = None\<rparr> :: hosts_opts"
  let ?V = "calm_hosts\<lparr>hv_fails := (\<lambda>c. c = WriteSwap \<or> c = WriteClobber)\<rparr>"
  have lines: "text_lines [CHR ''a'', lf] = [''a'']" "utf8_valid [CHR ''a'', lf]" by code_simp+
  obtain ls where "edited (\<lambda>_. ''7'') (hosts_of ''wg0'' ?H [(2, sample_invitee)]) [''a''] = Inr (Some ls)"
    by (simp add: edited_def sample_trim begin_marker_def end_marker_def Let_def)
  with full_disk_loses_hosts [of "sample_hosts [CHR ''a'', lf]" ?H "[CHR ''a'', lf]" ?V "[RootDir, Normal (''h'' @ ''.tmp'' @ dec_of_nat 5)]"
      "\<lambda>_. ''7''" "''wg0''" "[(2, sample_invitee)]" ls] lines show ?thesis
    by (auto simp: sample_hosts_def calm_hosts_def get_temp_path_def simp del: utf8_valid.simps)
qed

end
