(* ===== verification/PublicIp.thy ===== *)
theory PublicIp
  imports Database
begin

text \<open>
  Asking a resolver for the own public address (\<^verbatim>\<open>publicip/src/lib.rs\<close>): the query's bytes, and the
  reading of the response. Sockets and the random identifier are arguments.
\<close>

unbundle bit_operations_syntax

section \<open>The query\<close>

definition class_in :: u16 where "class_in = 1"
definition type_a :: u16 where "type_a = 1"
definition type_aaaa :: u16 where "type_aaaa = 28"

definition be16 :: "u16 \<Rightarrow> bytes" where
  "be16 w = [ucast (drop_bit 8 w), ucast w]"

definition ascii_bytes :: "string \<Rightarrow> bytes" where
  "ascii_bytes s = map (\<lambda>c. of_nat (of_char c)) s"

definition qname :: "bytes list" where
  "qname = map ascii_bytes [''whatismyip'', ''on'', ''quad9'', ''net'']"

definition atom_bytes :: "bytes \<Rightarrow> bytes" where
  "atom_bytes a = of_nat (length a) # a"

definition dns_query :: "bytes \<Rightarrow> u16 \<Rightarrow> bytes" where
  "dns_query request_id record_type =
     request_id @ be16 256 @ be16 1 @ be16 0 @ be16 0 @ be16 0 @ concat (map atom_bytes qname) @ [0] @
     be16 record_type @ be16 class_in"

record dns_request =
  dr_id :: bytes
  dr_buf :: bytes
  dr_type :: u16

datatype dns_error = DnsIo | DnsInvalid | DnsPanic

text \<open>What is sent, and the request that is left; \<open>random_id\<close> is what \<^verbatim>\<open>/dev/urandom\<close> gives, \<open>socket_ok\<close> whether
  binding, connecting and sending succeed.\<close>

definition dns_start :: "bool \<Rightarrow> bytes option \<Rightarrow> bool \<Rightarrow> (dns_error, bytes \<times> dns_request) result" where
  "dns_start v4 random_id socket_ok =
     bindR (ok_or random_id DnsIo) (\<lambda>request_id.
     bindR (guardR socket_ok DnsIo) (\<lambda>_.
     let record_type = (if v4 then type_a else type_aaaa); q = dns_query request_id record_type in
     Ok (q, \<lparr>dr_id = request_id, dr_buf = q @ replicate (1500 - length q) 0, dr_type = record_type\<rparr>)))"

section \<open>The response\<close>

text \<open>A \<^verbatim>\<open>Cursor\<close> may stand beyond the end, where reading fails.\<close>

definition read_u16 :: "bytes \<Rightarrow> nat \<Rightarrow> (dns_error, u16 \<times> nat) result" where
  "read_u16 r pos = (if pos + 2 \<le> length r then Ok (word_cat (r ! pos) (r ! (pos + 1)), pos + 2) else Err DnsIo)"

definition expect_u16 :: "bytes \<Rightarrow> (u16 \<Rightarrow> bool) \<Rightarrow> nat \<Rightarrow> (dns_error, nat) result" where
  "expect_u16 r P pos = bindR (read_u16 r pos) (\<lambda>(v, pos'). bindR (guardR (P v) DnsInvalid) (\<lambda>_. Ok pos'))"

function skip_name :: "bytes \<Rightarrow> nat \<Rightarrow> (dns_error, nat) result" where
  "skip_name r pos =
     (if pos \<ge> length r then Err DnsIo
      else if r ! pos = 0 then Ok (pos + 1)
      else skip_name r (pos + 1 + unat (r ! pos)))"
  by pat_completeness auto
termination
  by (relation "measure (\<lambda>(r, pos). length r - pos)") auto

declare skip_name.simps [simp del]

definition skip_question :: "bytes \<Rightarrow> u16 \<Rightarrow> nat \<Rightarrow> (dns_error, nat) result" where
  "skip_question r qd pos =
     (if qd = 0 then Ok pos else bindR (skip_name r pos) (\<lambda>pos'. Ok (pos' + 4)))"

text \<open>The header, up to the answer; \<^verbatim>\<open>_id\<close> is read again.\<close>

definition dns_header :: "bytes \<Rightarrow> (dns_error, nat) result" where
  "dns_header r =
     bindR (read_u16 r 0) (\<lambda>(_, p0).
     bindR (read_u16 r p0) (\<lambda>(flags, p1).
     bindR (guardR (flags AND 0x8000 \<noteq> 0) DnsInvalid) (\<lambda>_.
     bindR (guardR (flags AND 0x000F = 0) DnsInvalid) (\<lambda>_.
     bindR (read_u16 r p1) (\<lambda>(qd, p2).
     bindR (guardR (qd \<le> 1) DnsInvalid) (\<lambda>_.
     bindR (expect_u16 r (\<lambda>v. v = 1) p2) (\<lambda>p3.
     bindR (expect_u16 r (\<lambda>v. v = 0) p3) (\<lambda>p4.
     bindR (expect_u16 r (\<lambda>v. v = 0) p4) (\<lambda>p5.
     skip_question r qd p5)))))))))"

definition dns_answer :: "bytes \<Rightarrow> u16 \<Rightarrow> nat \<Rightarrow> nat \<Rightarrow> (dns_error, bytes) result" where
  "dns_answer r record_type n pos =
     bindR (read_u16 r pos) (\<lambda>(qname_len, p0).
     let p1 = (if qname_len AND 0xC000 \<noteq> 0xC000 then p0 + unat qname_len else p0) in
     bindR (expect_u16 r (\<lambda>v. v = record_type) p1) (\<lambda>p2.
     bindR (expect_u16 r (\<lambda>v. v = class_in) p2) (\<lambda>p3.
     bindR (read_u16 r (p3 + 4)) (\<lambda>(data_len, start).
     bindR (guardR (unat data_len = n) DnsInvalid) (\<lambda>_.
     if start + unat data_len \<le> length r then Ok (take n (drop start r)) else Err DnsPanic)))))"

text \<open>A datagram of at most 1500 bytes overwrites the front of the buffer, which held the query.\<close>

definition read_response :: "nat \<Rightarrow> dns_request \<Rightarrow> bytes option \<Rightarrow> (dns_error, bytes) result" where
  "read_response n req received =
     bindR (ok_or received DnsIo) (\<lambda>datagram.
     let r = take 1500 datagram; buf = r @ drop (length r) (dr_buf req) in
     bindR (guardR (take 2 buf = dr_id req) DnsInvalid) (\<lambda>_.
     bindR (dns_header r) (dns_answer r (dr_type req) n)))"

section \<open>Both families\<close>

datatype preference = Ipv4 | Ipv6

definition get_any :: "preference \<Rightarrow> bytes option \<times> bytes option \<Rightarrow> bytes option" where
  "get_any preference both =
     (case preference of
        Ipv4 \<Rightarrow> (case fst both of Some a \<Rightarrow> Some a | None \<Rightarrow> snd both)
      | Ipv6 \<Rightarrow> (case snd both of Some a \<Rightarrow> Some a | None \<Rightarrow> fst both))"

section \<open>An answer is read\<close>

lemma be16_length [simp]: "length (be16 w) = 2"
  by (simp add: be16_def)

lemma be16_read: "word_cat (be16 w ! 0) (be16 w ! 1) = w"
  by (simp add: be16_def) (rule bit_word_eqI, auto simp: bit_word_cat_iff bit_ucast_iff bit_drop_bit_eq)

lemma read_at: "length pre = pos \<Longrightarrow> read_u16 (pre @ be16 w @ post) pos = Inr (w, pos + 2)"
  using be16_read [of w] by (auto simp: read_u16_def nth_append be16_def)

lemma expect_at: "length pre = pos \<Longrightarrow> P w \<Longrightarrow> expect_u16 (pre @ be16 w @ post) P pos = Inr (pos + 2)"
  by (simp add: expect_u16_def read_at)

lemma skip_atoms:
  assumes "\<forall>a \<in> set atoms. a \<noteq> [] \<and> length a < 256"
  shows "skip_name (pre @ concat (map atom_bytes atoms) @ 0 # post) (length pre)
    = Inr (length pre + length (concat (map atom_bytes atoms)) + 1)"
  using assms
proof (induction atoms arbitrary: pre)
  case Nil
  show ?case by (simp add: skip_name.simps [of _ "length pre"])
next
  case (Cons a atoms)
  then have a: "a \<noteq> []" "length a < 256" by simp_all
  have len: "unat (of_nat (length a) :: byte) = length a" using a(2) by (simp add: unat_of_nat)
  then have "of_nat (length a) \<noteq> (0 :: byte)" using a(1) by (metis length_0_conv unat_0)
  then have "skip_name (pre @ concat (map atom_bytes (a # atoms)) @ 0 # post) (length pre)
      = skip_name ((pre @ atom_bytes a) @ concat (map atom_bytes atoms) @ 0 # post) (length (pre @ atom_bytes a))"
    using len by (simp add: skip_name.simps [of _ "length pre"] atom_bytes_def)
  also have "... = Inr (length pre + length (concat (map atom_bytes (a # atoms))) + 1)"
    using Cons.IH [of "pre @ atom_bytes a"] Cons.prems by simp
  finally show ?case .
qed

text \<open>A response with at most one question, and one answer whose name is a pointer.\<close>

definition dns_question :: "(bytes list \<times> u16 \<times> u16) option \<Rightarrow> bytes" where
  "dns_question q =
     (case q of None \<Rightarrow> []
      | Some (atoms, qtype, qclass) \<Rightarrow> concat (map atom_bytes atoms) @ [0] @ be16 qtype @ be16 qclass)"

definition dns_response ::
    "bytes \<Rightarrow> u16 \<Rightarrow> (bytes list \<times> u16 \<times> u16) option \<Rightarrow> u16 \<Rightarrow> u16 \<Rightarrow> bytes \<Rightarrow> u16 \<Rightarrow> bytes \<Rightarrow> bytes" where
  "dns_response request_id flags question pointer record_type ttl data_len data =
     request_id @ be16 flags @ be16 (if question = None then 0 else 1) @ be16 1 @ be16 0 @ be16 0 @ dns_question question @
     be16 pointer @ be16 record_type @ be16 class_in @ ttl @ be16 data_len @ data"

definition question_ok :: "(bytes list \<times> u16 \<times> u16) option \<Rightarrow> bool" where
  "question_ok q \<longleftrightarrow> pred_option (\<lambda>(atoms, qtype, qclass). \<forall>a \<in> set atoms. a \<noteq> [] \<and> length a < 256) q"

lemma question_skipped:
  assumes "question_ok q"
  shows "skip_question (pre @ dns_question q @ post) (if q = None then 0 else 1) (length pre) = Inr (length pre + length (dns_question q))"
proof (cases q)
  case (Some e)
  obtain atoms qtype qclass where e: "e = (atoms, qtype, qclass)" by (rule prod_cases3)
  with assms Some have "\<forall>a \<in> set atoms. a \<noteq> [] \<and> length a < 256" by (simp add: question_ok_def)
  from skip_atoms [OF this, of pre "be16 qtype @ be16 qclass @ post"] Some e show ?thesis
    by (simp add: skip_question_def dns_question_def del: length_concat)
qed (simp add: skip_question_def dns_question_def)

lemma response_header:
  assumes "length request_id = 2" "question_ok q" "flags AND 0x8000 \<noteq> 0" "flags AND 0x000F = 0"
  shows "dns_header (dns_response request_id flags q pointer record_type ttl data_len data) = Inr (12 + length (dns_question q))"
proof -
  define post where "post = be16 pointer @ be16 record_type @ be16 class_in @ ttl @ be16 data_len @ data"
  define n :: u16 where "n = (if q = None then 0 else 1)"
  define r where "r = request_id @ be16 flags @ be16 n @ be16 1 @ be16 0 @ be16 0 @ dns_question q @ post"
  have "\<exists>v. read_u16 r 0 = Inr (v, 2)" using assms(1) by (simp add: read_u16_def r_def)
  then obtain v where v: "read_u16 r 0 = Inr (v, 2)" by (rule exE)
  have steps: "read_u16 r 2 = Inr (flags, 4)" "read_u16 r 4 = Inr (n, 6)"
    "expect_u16 r (\<lambda>v. v = 1) 6 = Inr 8" "expect_u16 r (\<lambda>v. v = 0) 8 = Inr 10" "expect_u16 r (\<lambda>v. v = 0) 10 = Inr 12"
    unfolding r_def
    using assms(1) read_at [of request_id 2 flags] read_at [of "request_id @ be16 flags" 4 n]
      expect_at [of "request_id @ be16 flags @ be16 n" 6 "\<lambda>v. v = 1" 1]
      expect_at [of "request_id @ be16 flags @ be16 n @ be16 1" 8 "\<lambda>v. v = 0" 0]
      expect_at [of "request_id @ be16 flags @ be16 n @ be16 1 @ be16 0" 10 "\<lambda>v. v = 0" 0]
    by simp_all
  have "skip_question r n 12 = Inr (12 + length (dns_question q))"
    using question_skipped [OF assms(2), of "request_id @ be16 flags @ be16 n @ be16 1 @ be16 0 @ be16 0" post] assms(1)
    by (simp add: r_def n_def)
  moreover have "n \<le> 1" by (simp add: n_def)
  ultimately have "dns_header r = Inr (12 + length (dns_question q))"
    using v steps assms(3,4) by (simp add: dns_header_def)
  then show ?thesis by (simp add: r_def n_def post_def dns_response_def)
qed

lemma response_answer:
  assumes "length request_id = 2" "length ttl = 4" "n < 65536" "pointer AND 0xC000 = 0xC000"
  shows "dns_answer (dns_response request_id flags q pointer record_type ttl (of_nat n) data) record_type n (12 + length (dns_question q))
    = (if n \<le> length data then Inr (take n data) else Inl DnsPanic)"
proof -
  define pre where "pre = request_id @ be16 flags @ be16 (if q = None then 0 else 1) @ be16 1 @ be16 0 @ be16 0 @ dns_question q"
  define r where "r = pre @ be16 pointer @ be16 record_type @ be16 class_in @ ttl @ be16 (of_nat n) @ data"
  define p where "p = 12 + length (dns_question q)"
  have len: "length pre = p" using assms(1) by (simp add: pre_def p_def)
  have len16: "unat (of_nat n :: u16) = n" using assms(3) by (simp add: unat_of_nat)
  have steps: "read_u16 r p = Inr (pointer, p + 2)" "expect_u16 r (\<lambda>v. v = record_type) (p + 2) = Inr (p + 4)"
    "expect_u16 r (\<lambda>v. v = class_in) (p + 4) = Inr (p + 6)" "read_u16 r (p + 6 + 4) = Inr (of_nat n, p + 12)"
    unfolding r_def
    using len assms(2) read_at [of pre p pointer] expect_at [of "pre @ be16 pointer" "p + 2" "\<lambda>v. v = record_type" record_type]
      expect_at [of "pre @ be16 pointer @ be16 record_type" "p + 4" "\<lambda>v. v = class_in" class_in]
      read_at [of "pre @ be16 pointer @ be16 record_type @ be16 class_in @ ttl" "p + 10" "of_nat n"]
    by (simp_all add: numeral_eq_Suc)
  have "drop (p + 12) r = data" "length r = p + 12 + length data" using len assms(2) by (simp_all add: r_def)
  then have "dns_answer r record_type n p = (if n \<le> length data then Inr (take n data) else Inl DnsPanic)"
    using steps len16 assms(4) by (simp add: dns_answer_def Let_def)
  then show ?thesis by (simp add: r_def p_def pre_def dns_response_def)
qed

text \<open>C28. A response without error, with at most one question and one answer whose name is a pointer, of the
type asked for, is read as the address that is the answer's data; but when the data is shorter than
the length it states, reading it panics, so a truncated datagram from whoever can send one stops
the program.\<close>

theorem dns_answer_read:
  assumes "length (dr_id req) = 2" "length ttl = 4" "n < 65536" "question_ok q" "pointer AND 0xC000 = 0xC000"
    and "flags AND 0x8000 \<noteq> 0" "flags AND 0x000F = 0"
    and "length (dns_response (dr_id req) flags q pointer (dr_type req) ttl (of_nat n) data) \<le> 1500"
  shows "read_response n req (Some (dns_response (dr_id req) flags q pointer (dr_type req) ttl (of_nat n) data))
    = (if n \<le> length data then Inr (take n data) else Inl DnsPanic)"
proof -
  let ?r = "dns_response (dr_id req) flags q pointer (dr_type req) ttl (of_nat n) data"
  have "take 2 (?r @ drop (length ?r) (dr_buf req)) = dr_id req" using assms(1) by (simp add: dns_response_def)
  then show ?thesis
    using assms(8) response_header [OF assms(1,4,6,7)] response_answer [OF assms(1-3,5)]
    by (simp add: read_response_def Let_def)
qed

theorem dns_answer_read_witness:
  "\<exists>q req. dns_start True (Some [1, 2]) True = Inr (q, req) \<and>
    read_response 4 req (Some (dns_response [1, 2] 0x8180 (Some (qname, 1, 1)) 0xC00C 1 [0, 0, 0, 60] 4 [198, 51, 100, 7]))
      = Inr [198, 51, 100, 7] \<and>
    read_response 4 req (Some (dns_response [1, 2] 0x8180 (Some (qname, 1, 1)) 0xC00C 1 [0, 0, 0, 60] 4 [198])) = Inl DnsPanic"
proof -
  obtain q req where req: "dns_start True (Some [1, 2]) True = Inr (q, req)" "dr_id req = [1, 2]" "dr_type req = 1"
    by (simp add: dns_start_def Let_def type_a_def)
  have flags: "(0x8180 :: u16) AND 0x8000 \<noteq> 0" "(0x8180 :: u16) AND 0x000F = 0" "(0xC00C :: u16) AND 0xC000 = 0xC000" by simp_all
  have asked: "question_ok (Some (qname, 1, 1))" by (simp add: question_ok_def qname_def ascii_bytes_def)
  have "length (concat (map atom_bytes qname)) = 24" by (simp add: qname_def ascii_bytes_def atom_bytes_def)
  then have size: "length (dns_response [1, 2] 0x8180 (Some (qname, 1, 1)) 0xC00C 1 [0, 0, 0, 60] 4 data) = 41 + 12 + length data" for data
    by (simp add: dns_response_def dns_question_def del: length_concat)
  show ?thesis
    using req size asked dns_answer_read [of req "[0, 0, 0, 60]" 4 "Some (qname, 1, 1)" "0xC00C" "0x8180" "[198, 51, 100, 7]"]
      dns_answer_read [of req "[0, 0, 0, 60]" 4 "Some (qname, 1, 1)" "0xC00C" "0x8180" "[198]"] flags
    by simp
qed

text \<open>A name that is not compressed is not skipped: its first two bytes are taken for a length.\<close>

lemma full_name_refused:
  assumes "length (pre :: bytes) = pos" "length r \<le> 1500" "r = pre @ a # b # post" "6 \<le> a" "a < 64"
  shows "dns_answer r record_type n pos = Inl DnsIo"
proof -
  let ?w = "word_cat a b :: u16"
  have read: "read_u16 r pos = Inr (?w, pos + 2)" using assms(1,3) by (simp add: read_u16_def nth_append)
  have "uint ?w = uint a * 256 + uint b"
    using uint_lt2p [of a] uint_lt2p [of b]
    by (simp add: word_cat_eq push_bit_eq_mult uint_word_ariths uint_up_ucast is_up)
  then have "int (unat ?w) = int (unat a) * 256 + int (unat b)" by (simp only: uint_nat)
  then have w: "unat ?w = unat a * 256 + unat b" by linarith
  have "6 \<le> unat a" "unat a < 64" using assms(4,5) by (simp_all add: word_le_nat_alt word_less_nat_alt)
  moreover have "unat b < 256" using unsigned_less [of b] by simp
  ultimately have bounds: "1536 \<le> unat ?w" "unat ?w < 0xC000" using w by linarith+
  have "?w AND 0xC000 \<le> ?w" by (rule word_and_le2)
  then have "?w AND 0xC000 \<noteq> 0xC000" using bounds(2) by (auto simp: word_le_nat_alt)
  moreover have "length r < pos + 2 + unat ?w" using bounds(1) assms(2) by simp
  moreover from this have "expect_u16 r (\<lambda>v. v = record_type) (pos + 2 + unat ?w) = Inl DnsIo"
    by (simp add: expect_u16_def read_u16_def)
  ultimately show ?thesis by (simp add: dns_answer_def read Let_def)
qed

end
