(* ===== verification/Traverse.thy ===== *)
theory Traverse
  imports PeerSync
begin

text \<open>
  Connecting to peers behind NAT by trying their endpoints in turn (\<^verbatim>\<open>client-core/src/nat.rs\<close>, and the
  end of \<^verbatim>\<open>fetch\<close> in \<^verbatim>\<open>interface.rs\<close>). Between two readings of the device the world goes on: time
  passes, and handshakes happen in the kernel.
\<close>

section \<open>The traversal\<close>

text \<open>\<^verbatim>\<open>STEP_INTERVAL\<close>, in milliseconds.\<close>

definition step_interval :: nat where
  "step_interval = 5000"

datatype traverse_error = TvIo | TvPanic

record 'k traverse =
  tv_kernel :: 'k
  tv_remaining :: "(int \<times> peer) list"

record 'k traverse_lib =
  tl_diff :: diff_lib
  tl_kernel :: "'k kernel"
  tl_sizes :: nla_sizes
  tl_iface :: string

type_synonym ('k, 'a) traverseS = "('k traverse, traverse_error, 'a) comp"

text \<open>A pause: the time after it, and what has happened to the kernel.\<close>

record 'k pause =
  ps_now :: nat
  ps_passes :: "'k \<Rightarrow> 'k"

text \<open>The alternatives of a peer, at most ten, are tried from the last to the first; the endpoint that
  the server reports comes last.\<close>

definition prepared :: "peer \<Rightarrow> peer" where
  "prepared p = p\<lparr>pe_candidates :=
     (case pe_endpoint p of None \<Rightarrow> [] | Some e \<Rightarrow> [e]) @
     filter (\<lambda>addr. Some addr \<noteq> pe_endpoint p) (take 10 (pe_candidates p))\<rparr>"

definition get_peer :: "diff_lib \<Rightarrow> device \<Rightarrow> string \<Rightarrow> peer_info option" where
  "get_peer D dev text_key =
     (case key_of_text D text_key of
        None \<Rightarrow> None
      | Some key \<Rightarrow> List.find (\<lambda>i. pc_public_key (pi_config i) = key) (dv_peers dev))"

definition unconnected :: "diff_lib \<Rightarrow> nat \<Rightarrow> device \<Rightarrow> int \<times> peer \<Rightarrow> bool" where
  "unconnected D now dev ip =
     (case get_peer D dev (pe_public_key (snd ip)) of
        Some info \<Rightarrow> \<not> is_recently_connected now info
      | None \<Rightarrow> False)"

definition refreshed :: "diff_lib \<Rightarrow> nat \<Rightarrow> device \<Rightarrow> (int \<times> peer) list \<Rightarrow> (int \<times> peer) list" where
  "refreshed D now dev remaining =
     filter (\<lambda>ip. pe_candidates (snd ip) \<noteq> []) (filter (unconnected D now dev) remaining)"

definition on_kernel :: "('k, io_error, 'a) comp \<Rightarrow> ('k, 'a) traverseS" where
  "on_kernel m s = (case m (tv_kernel s) of (r, k) \<Rightarrow> (map_err (\<lambda>_. TvIo) r, s\<lparr>tv_kernel := k\<rparr>))"

definition refresh_remaining :: "'k traverse_lib \<Rightarrow> nat \<Rightarrow> ('k, unit) traverseS" where
  "refresh_remaining L now =
     bindS (on_kernel (device_get (tl_kernel L) (tl_iface L))) (\<lambda>dev.
     modS (\<lambda>s. s\<lparr>tv_remaining := refreshed (tl_diff L) now dev (tv_remaining s)\<rparr>))"

definition traverse_new ::
    "'k traverse_lib \<Rightarrow> (ip_addr \<times> host_port) list \<Rightarrow> nat \<Rightarrow> peer_diff list \<Rightarrow> 'k \<Rightarrow> (traverse_error, unit) result \<times> 'k traverse" where
  "traverse_new L overrides now diffs k =
     refresh_remaining L now
       \<lparr>tv_kernel = k,
        tv_remaining = map (\<lambda>(i, p). (i, prepared p))
          (filter (\<lambda>(i, p). pe_ip p \<notin> fst ` set overrides) (List.map_filter df_new diffs))\<rparr>"

section \<open>A step\<close>

definition set_endpoint_builder :: "diff_lib \<Rightarrow> string \<Rightarrow> host_port option \<Rightarrow> (traverse_error, peer_builder option) result" where
  "set_endpoint_builder D text_key e =
     (case Option.bind e (dl_resolve D) of
        None \<Rightarrow> Ok None
      | Some addr \<Rightarrow> bindR (ok_or (key_of_text D text_key) TvPanic) (\<lambda>key. Ok (Some (set_endpoint addr (builder_new key)))))"

definition next_candidate :: "peer \<Rightarrow> host_port option" where
  "next_candidate p = (if pe_candidates p = [] then None else Some (last (pe_candidates p)))"

definition popped :: "int \<times> peer \<Rightarrow> int \<times> peer" where
  "popped ip = (fst ip, (snd ip)\<lparr>pe_candidates := butlast (pe_candidates (snd ip))\<rparr>)"

text \<open>The pauses of one step: those within the step's five seconds.\<close>

fun await :: "'k traverse_lib \<Rightarrow> 'k pause list \<Rightarrow> ('k, unit) traverseS" where
  "await L [] = retS ()"
| "await L (m # ms) =
     bindS (modS (\<lambda>s. s\<lparr>tv_kernel := ps_passes m (tv_kernel s)\<rparr>)) (\<lambda>_.
     bindS (refresh_remaining L (ps_now m)) (\<lambda>_.
     bindS (getS (\<lambda>s. tv_remaining s = [])) (\<lambda>finished.
     if finished then retS () else await L ms)))"

definition traverse_step :: "'k traverse_lib \<Rightarrow> nat \<times> 'k pause list \<Rightarrow> ('k, unit) traverseS" where
  "traverse_step L = (\<lambda>(now, pauses).
     bindS (refresh_remaining L now) (\<lambda>_.
     bindS (getS tv_remaining) (\<lambda>remaining.
     bindS (modS (\<lambda>s. s\<lparr>tv_remaining := map popped (tv_remaining s)\<rparr>)) (\<lambda>_.
     bindS (liftS (filter_mapR (\<lambda>ip. set_endpoint_builder (tl_diff L) (pe_public_key (snd ip)) (next_candidate (snd ip))) remaining)) (\<lambda>updates.
     bindS (on_kernel (apply_update (tl_sizes L) (tl_kernel L) (add_peers updates update_new) (tl_iface L))) (\<lambda>_.
     await L pauses))))))"

section \<open>The whole\<close>

text \<open>Subtracting a longer time from \<^verbatim>\<open>STEP_INTERVAL\<close> panics. The loop has fuel.\<close>

fun traverse_loop :: "'k traverse_lib \<Rightarrow> (nat \<Rightarrow> nat \<times> 'k pause list) \<Rightarrow> nat \<Rightarrow> 'k traverse
    \<Rightarrow> ((traverse_error, unit) result \<times> 'k traverse) option" where
  "traverse_loop L plan 0 s = (if tv_remaining s = [] then Some (Ok (), s) else None)"
| "traverse_loop L plan (Suc n) s =
     (if tv_remaining s = [] then Some (Ok (), s)
      else case traverse_step L (plan n) s of
          (Inl e, t) \<Rightarrow> Some (Err e, t)
        | (Inr _, t) \<Rightarrow> traverse_loop L plan n t)"

definition max_steps :: nat where
  "max_steps = 12"

definition nat_traversal ::
    "'k traverse_lib \<Rightarrow> bool \<Rightarrow> (ip_addr \<times> host_port) list \<Rightarrow> nat \<Rightarrow> nat \<Rightarrow> 'k pause \<Rightarrow> (nat \<Rightarrow> nat \<times> 'k pause list)
      \<Rightarrow> peer_diff list \<Rightarrow> 'k \<Rightarrow> ((traverse_error, unit) result \<times> 'k) option" where
  "nat_traversal L no_nat_traversal overrides now elapsed first plan diffs k =
     (if no_nat_traversal then Some (Ok (), k)
      else case traverse_new L overrides now diffs k of
          (Inl e, s) \<Rightarrow> Some (Err e, tv_kernel s)
        | (Inr _, s) \<Rightarrow>
            if tv_remaining s = [] then Some (Ok (), tv_kernel s)
            else if elapsed > step_interval then Some (Err TvPanic, tv_kernel s)
            else map_option (\<lambda>(r, t). (r, tv_kernel t))
              (traverse_loop L plan max_steps (s\<lparr>tv_kernel := ps_passes first (tv_kernel s)\<rparr>)))"

end
