(* ===== verification/TraverseProps.thy ===== *)
theory TraverseProps
  imports Traverse PeerSyncProps
begin

text \<open>
  What the traversal promises: it ends within a bounded number of steps, and a peer of which nothing
  is heard is left with the endpoint that the server reports.
\<close>

section \<open>It ends\<close>

definition bounded :: "nat \<Rightarrow> 'k traverse \<Rightarrow> bool" where
  "bounded n s \<longleftrightarrow> (\<forall>ip \<in> set (tv_remaining s). length (pe_candidates (snd ip)) \<le> n)"

lemma refreshed_subset: "set (refreshed D now dev xs) \<subseteq> {ip \<in> set xs. pe_candidates (snd ip) \<noteq> []}"
  by (auto simp: refreshed_def)

lemma refresh_remaining_bounded:
  assumes "refresh_remaining L now s = (r, t)"
  shows "set (tv_remaining t) \<subseteq> set (tv_remaining s)"
    and "r = Inr () \<Longrightarrow> set (tv_remaining t) \<subseteq> {ip \<in> set (tv_remaining s). pe_candidates (snd ip) \<noteq> []}"
  using assms refreshed_subset
  by (fastforce simp: refresh_remaining_def bindS_def on_kernel_def modS_def map_err_def split: prod.splits sum.splits)+

lemma await_subset: "await L ms s = (r, t) \<Longrightarrow> set (tv_remaining t) \<subseteq> set (tv_remaining s)"
proof (induction ms arbitrary: s)
  case (Cons m ms)
  let ?s = "s\<lparr>tv_kernel := ps_passes m (tv_kernel s)\<rparr>"
  obtain r1 u where u: "refresh_remaining L (ps_now m) ?s = (r1, u)" by fastforce
  have "set (tv_remaining u) \<subseteq> set (tv_remaining s)" using refresh_remaining_bounded(1) [OF u] by simp
  moreover have "t = u \<or> await L ms u = (r, t)"
    using Cons.prems u by (auto simp: bindS_def modS_def getS_def retS_def split: sum.splits if_splits)
  ultimately show ?case using Cons.IH [of u] by blast
qed (simp add: retS_def)

lemma step_Inr:
  "traverse_step L (now, pauses) s = (Inr u, t) \<longleftrightarrow> (\<exists>s1 bs k. refresh_remaining L now s = (Inr (), s1) \<and>
     filter_mapR (\<lambda>ip. set_endpoint_builder (tl_diff L) (pe_public_key (snd ip)) (next_candidate (snd ip))) (tv_remaining s1) = Inr bs \<and>
     apply_update (tl_sizes L) (tl_kernel L) (add_peers bs update_new) (tl_iface L) (tv_kernel s1) = (Inr (), k) \<and>
     await L pauses (s1\<lparr>tv_remaining := map popped (tv_remaining s1), tv_kernel := k\<rparr>) = (Inr u, t))"
  by (auto simp: traverse_step_def bindS_def modS_def getS_def liftS_def on_kernel_def map_err_def split: prod.splits sum.splits)

lemma step_bounded:
  assumes "traverse_step L plan s = (Inr u, t)" "bounded n s"
  shows "bounded (n - 1) t \<and> (n = 0 \<longrightarrow> tv_remaining t = [])"
proof -
  obtain now pauses where plan: "plan = (now, pauses)" by (cases plan)
  obtain s1 bs k where s1: "refresh_remaining L now s = (Inr (), s1)"
    and s2: "await L pauses (s1\<lparr>tv_remaining := map popped (tv_remaining s1), tv_kernel := k\<rparr>) = (Inr u, t)"
    using assms(1) unfolding plan step_Inr by blast
  from await_subset [OF s2] have sub: "set (tv_remaining t) \<subseteq> popped ` set (tv_remaining s1)" by simp
  note r = refresh_remaining_bounded(2) [OF s1 refl]
  have "bounded (n - 1) t"
    using sub r assms(2) by (fastforce simp: bounded_def popped_def)
  moreover have "tv_remaining t = []" if "n = 0"
  proof -
    have "{ip \<in> set (tv_remaining s). pe_candidates (snd ip) \<noteq> []} = {}" using assms(2) that by (auto simp: bounded_def)
    with r have "set (tv_remaining s1) = {}" by (simp only: subset_empty)
    then have "tv_remaining s1 = []" by (simp only: set_empty)
    with sub show ?thesis by simp
  qed
  ultimately show ?thesis by simp
qed

lemma loop_ends: "bounded n s \<Longrightarrow> n < fuel \<Longrightarrow> traverse_loop L plan fuel s \<noteq> None"
proof (induction fuel arbitrary: n s)
  case (Suc fuel)
  show ?case
  proof (cases "tv_remaining s = []")
    case False
    obtain r t where step: "traverse_step L (plan fuel) s = (r, t)" by fastforce
    show ?thesis
    proof (cases r)
      case (Inr u)
      with step_bounded [OF step [unfolded Inr] Suc.prems(1)] have t: "bounded (n - 1) t" "n = 0 \<longrightarrow> tv_remaining t = []"
        by simp_all
      have "traverse_loop L plan fuel t \<noteq> None"
      proof (cases "n = 0")
        case True
        with t(2) show ?thesis by (cases fuel) simp_all
      next
        case False
        with t(1) Suc.IH [of "n - 1" t] Suc.prems(2) show ?thesis by simp
      qed
      with Inr step False show ?thesis by simp
    qed (use step False in simp)
  qed simp
qed simp

lemma prepared_length: "length (pe_candidates (prepared p)) \<le> 11"
proof -
  have "length (filter Q (take 10 xs)) \<le> 10" for Q and xs :: "host_port list"
    by (rule order.trans [OF length_filter_le]) simp
  then show ?thesis by (cases "pe_endpoint p") (simp_all add: prepared_def le_SucI)
qed

lemma new_bounded: "traverse_new L overrides now diffs k = (r, s) \<Longrightarrow> bounded 11 s"
  using refresh_remaining_bounded(1) [of L now _ r s] prepared_length
  unfolding traverse_new_def bounded_def by fastforce

text \<open>C26. Trying the endpoints of the unconnected peers ends, whatever the kernel, the clock and the peers do in
the meantime: twelve steps are always enough. But when more than the length of a step has gone by
since the interface was updated, it panics before the first one.\<close>

theorem traversal_ends:
  "\<exists>r k'. nat_traversal L no_nat_traversal overrides now elapsed first plan diffs k = Some (r, k') \<and>
    (r = Inl TvPanic \<or> \<not> (elapsed > step_interval \<and> \<not> no_nat_traversal \<and>
       (\<exists>s. traverse_new L overrides now diffs k = (Inr (), s) \<and> tv_remaining s \<noteq> [])))"
proof -
  obtain r s where new: "traverse_new L overrides now diffs k = (r, s)" by fastforce
  have "bounded 11 (s\<lparr>tv_kernel := x\<rparr>)" for x using new_bounded [OF new] by (simp add: bounded_def)
  from loop_ends [OF this, of max_steps] have "\<exists>q t. traverse_loop L plan max_steps (s\<lparr>tv_kernel := x\<rparr>) = Some (q, t)" for x
    by (auto simp: max_steps_def)
  then obtain q t where "traverse_loop L plan max_steps (s\<lparr>tv_kernel := ps_passes first (tv_kernel s)\<rparr>) = Some (q, t)" by blast
  with new show ?thesis by (cases r) (auto simp: nat_traversal_def)
qed

section \<open>What it leaves\<close>

text \<open>The endpoint and the last handshake of a key on the interface.\<close>

definition facts :: "bytes \<Rightarrow> peer_info list \<Rightarrow> (socket_addr option \<times> nat option) option" where
  "facts key ps = map_option (\<lambda>i. (pc_endpoint (pi_config i), pi_last_handshake i)) (lookup key ps)"

definition own :: "diff_lib \<Rightarrow> bytes \<Rightarrow> int \<times> peer \<Rightarrow> bool" where
  "own D key ip \<longleftrightarrow> key_of_text D (pe_public_key (snd ip)) = Some key"

definition tried :: "diff_lib \<Rightarrow> int \<times> peer \<Rightarrow> socket_addr option \<Rightarrow> socket_addr option" where
  "tried D ip x = (case Option.bind (next_candidate (snd ip)) (dl_resolve D) of Some addr \<Rightarrow> Some addr | None \<Rightarrow> x)"

lemma facts_set:
  assumes "facts key ps = Some (x, h)"
  shows "facts key (set_peer (builder_to_nla (set_endpoint addr (builder_new k))) ps) =
    Some (if k = key then Some addr else x, h)"
  using assms by (auto simp: facts_def lookup_set_peer built_def drop_ips_def Let_def builder_defs)

lemma facts_effect:
  assumes "filter_mapR (\<lambda>ip. set_endpoint_builder D (pe_public_key (snd ip)) (next_candidate (snd ip))) xs = Inr bs"
    and "facts key ps = Some (x, h)"
  shows "facts key (effect bs ps) = Some (fold (tried D) (filter (own D key) xs) x, h)"
  using assms
proof (induction xs arbitrary: bs ps x)
  case (Cons ip xs)
  from Cons.prems(1) obtain y ys where y: "set_endpoint_builder D (pe_public_key (snd ip)) (next_candidate (snd ip)) = Inr y"
    "filter_mapR (\<lambda>ip. set_endpoint_builder D (pe_public_key (snd ip)) (next_candidate (snd ip))) xs = Inr ys"
    "bs = (case y of None \<Rightarrow> ys | Some b \<Rightarrow> b # ys)"
    by (auto simp: bindR_Inr_iff)
  show ?case
  proof (cases "Option.bind (next_candidate (snd ip)) (dl_resolve D)")
    case None
    with y(1) have "y = None" "tried D ip x = x" by (simp_all add: set_endpoint_builder_def tried_def)
    with Cons.IH [OF y(2) Cons.prems(2)] y(3) show ?thesis by simp
  next
    case (Some addr)
    with y(1) obtain k where k: "key_of_text D (pe_public_key (snd ip)) = Some k" "y = Some (set_endpoint addr (builder_new k))"
      by (auto simp: set_endpoint_builder_def bindR_Inr_iff ok_or_def split: option.splits)
    have "tried D ip x = Some addr" using Some by (simp add: tried_def)
    with Cons.IH [OF y(2) facts_set [OF Cons.prems(2), of addr k]] k y(3) show ?thesis by (auto simp: own_def)
  qed
qed simp

text \<open>Reading the device gives the peers of the kernel.\<close>

definition read_law :: "'k kernel \<Rightarrow> string \<Rightarrow> ('k \<Rightarrow> peer_info list) \<Rightarrow> bool" where
  "read_law K iface peers \<longleftrightarrow> (\<forall>k. \<exists>dev. device_get K iface k = (Inr dev, k) \<and> dv_peers dev = peers k)"

text \<open>Nothing is heard of the peer and nobody touches its entry.\<close>

definition silent :: "('k \<Rightarrow> peer_info list) \<Rightarrow> bytes \<Rightarrow> 'k pause \<Rightarrow> bool" where
  "silent peers key m \<longleftrightarrow> (\<forall>k. facts key (peers (ps_passes m k)) = facts key (peers k))"

text \<open>The peer of the key has still its reported endpoint \<open>e\<close> to come, or has got its address.\<close>

definition pending_or_set :: "diff_lib \<Rightarrow> ('k \<Rightarrow> peer_info list) \<Rightarrow> bytes \<Rightarrow> host_port \<Rightarrow> socket_addr \<Rightarrow> 'k traverse \<Rightarrow> bool" where
  "pending_or_set D peers key e addr s \<longleftrightarrow> (\<exists>x. facts key (peers (tv_kernel s)) = Some (x, None) \<and>
     ((\<exists>ip cs. filter (own D key) (tv_remaining s) = [ip] \<and> pe_candidates (snd ip) = e # cs) \<or>
      x = Some addr \<and> (\<forall>ip \<in> set (filter (own D key) (tv_remaining s)). pe_candidates (snd ip) = [])))"

lemma own_refreshed:
  assumes "facts key (dv_peers dev) = Some (x, None)"
  shows "filter (own D key) (refreshed D now dev xs) = filter (\<lambda>ip. pe_candidates (snd ip) \<noteq> []) (filter (own D key) xs)"
proof -
  have "own D key ip \<Longrightarrow> unconnected D now dev ip" for ip
    using assms
    by (auto simp: own_def unconnected_def get_peer_def facts_def lookup_def peer_key_def is_recently_connected_def)
  then show ?thesis unfolding refreshed_def filter_filter by (metis (mono_tags, lifting))
qed

lemma refresh_keeps:
  assumes "read_law (tl_kernel L) (tl_iface L) peers" "refresh_remaining L now s = (r, t)"
    and "pending_or_set (tl_diff L) peers key e addr s"
  shows "pending_or_set (tl_diff L) peers key e addr t \<and> tv_kernel t = tv_kernel s \<and>
    (\<forall>ip \<in> set (tv_remaining t). pe_candidates (snd ip) \<noteq> [])"
proof -
  obtain dev where dev: "device_get (tl_kernel L) (tl_iface L) (tv_kernel s) = (Inr dev, tv_kernel s)" "dv_peers dev = peers (tv_kernel s)"
    using assms(1) unfolding read_law_def by blast
  then have t: "t = s\<lparr>tv_remaining := refreshed (tl_diff L) now dev (tv_remaining s)\<rparr>"
    using assms(2) by (auto simp: refresh_remaining_def bindS_def on_kernel_def map_err_def modS_def)
  from assms(3) obtain x where x: "facts key (peers (tv_kernel s)) = Some (x, None)" by (auto simp: pending_or_set_def)
  note own = own_refreshed [of key dev x "tl_diff L" now "tv_remaining s"]
  have "filter (own (tl_diff L) key) (tv_remaining t) = filter (\<lambda>ip. pe_candidates (snd ip) \<noteq> []) (filter (own (tl_diff L) key) (tv_remaining s))"
    using own x dev(2) t by simp
  then have "pending_or_set (tl_diff L) peers key e addr t"
    using assms(3) x t by (auto simp: pending_or_set_def simp del: filter_filter)
  with t refreshed_subset show ?thesis by fastforce
qed

lemma await_keeps:
  assumes "read_law (tl_kernel L) (tl_iface L) peers" "\<forall>m \<in> set ms. silent peers key m"
  shows "await L ms s = (r, t) \<Longrightarrow> pending_or_set (tl_diff L) peers key e addr s \<Longrightarrow> pending_or_set (tl_diff L) peers key e addr t"
  using assms(2)
proof (induction ms arbitrary: s)
  case (Cons m ms)
  let ?s = "s\<lparr>tv_kernel := ps_passes m (tv_kernel s)\<rparr>"
  have "pending_or_set (tl_diff L) peers key e addr ?s"
    using Cons.prems(2,3) by (simp add: pending_or_set_def silent_def)
  moreover obtain r1 u where u: "refresh_remaining L (ps_now m) ?s = (r1, u)" by fastforce
  ultimately have "pending_or_set (tl_diff L) peers key e addr u"
    using refresh_keeps [OF assms(1) u] by blast
  moreover have "t = u \<or> await L ms u = (r, t)"
    using Cons.prems(1) u by (auto simp: bindS_def modS_def getS_def retS_def split: sum.splits if_splits)
  ultimately show ?case using Cons.IH [of u] Cons.prems(3) by auto
qed (simp add: retS_def)

lemma filter_own_popped: "filter (own D key) (map popped xs) = map popped (filter (own D key) xs)"
  by (induction xs) (auto simp: own_def popped_def)

lemma step_keeps:
  assumes "kernel_law (tl_kernel L) (tl_iface L) peers" "read_law (tl_kernel L) (tl_iface L) peers" "sizes_law (tl_sizes L)"
    and "\<forall>m \<in> set (snd plan). silent peers key m" "dl_resolve (tl_diff L) e = Some addr"
    and "traverse_step L plan s = (Inr u, t)" "pending_or_set (tl_diff L) peers key e addr s"
  shows "pending_or_set (tl_diff L) peers key e addr t"
proof -
  let ?D = "tl_diff L"
  obtain now pauses where plan: "plan = (now, pauses)" by (cases plan)
  obtain s1 bs k where s1: "refresh_remaining L now s = (Inr (), s1)"
    and bs: "filter_mapR (\<lambda>ip. set_endpoint_builder ?D (pe_public_key (snd ip)) (next_candidate (snd ip))) (tv_remaining s1) = Inr bs"
    and k: "apply_update (tl_sizes L) (tl_kernel L) (add_peers bs update_new) (tl_iface L) (tv_kernel s1) = (Inr (), k)"
    and t: "await L pauses (s1\<lparr>tv_remaining := map popped (tv_remaining s1), tv_kernel := k\<rparr>) = (Inr u, t)"
    using assms(6) unfolding plan step_Inr by blast
  from refresh_keeps [OF assms(2) s1 assms(7)] have inv: "pending_or_set ?D peers key e addr s1"
    and more: "\<forall>ip \<in> set (tv_remaining s1). pe_candidates (snd ip) \<noteq> []" by simp_all
  from inv obtain x where x: "facts key (peers (tv_kernel s1)) = Some (x, None)"
    and cases: "(\<exists>ip cs. filter (own ?D key) (tv_remaining s1) = [ip] \<and> pe_candidates (snd ip) = e # cs) \<or>
      x = Some addr \<and> (\<forall>ip \<in> set (filter (own ?D key) (tv_remaining s1)). pe_candidates (snd ip) = [])"
    by (auto simp: pending_or_set_def)
  have "peers k = effect bs (peers (tv_kernel s1))"
    using applied [OF assms(1,3) k] by (simp add: update_items_peers effect_def)
  with facts_effect [OF bs x] have after: "facts key (peers k) = Some (fold (tried ?D) (filter (own ?D key) (tv_remaining s1)) x, None)"
    by simp
  have "pending_or_set ?D peers key e addr (s1\<lparr>tv_remaining := map popped (tv_remaining s1), tv_kernel := k\<rparr>)"
    using cases
  proof
    assume "\<exists>ip cs. filter (own ?D key) (tv_remaining s1) = [ip] \<and> pe_candidates (snd ip) = e # cs"
    then obtain ip cs where ip: "filter (own ?D key) (tv_remaining s1) = [ip]" "pe_candidates (snd ip) = e # cs" by blast
    then have "filter (own ?D key) (map popped (tv_remaining s1)) = [popped ip]"
      "pe_candidates (snd (popped ip)) = butlast (e # cs)"
      by (simp_all add: filter_own_popped popped_def)
    moreover have "tried ?D ip x = Some addr" if "cs = []"
      using ip(2) that assms(5) by (simp add: tried_def next_candidate_def)
    ultimately show ?thesis
      using after ip(1) by (cases cs) (auto simp: pending_or_set_def)
  next
    assume old: "x = Some addr \<and> (\<forall>ip \<in> set (filter (own ?D key) (tv_remaining s1)). pe_candidates (snd ip) = [])"
    with more have "filter (own ?D key) (tv_remaining s1) = []" by (auto simp: filter_empty_conv)
    moreover from this have "filter (own ?D key) (map popped (tv_remaining s1)) = []" by (simp add: filter_own_popped)
    ultimately show ?thesis using after old by (simp add: pending_or_set_def del: filter_empty_conv)
  qed
  from await_keeps [OF assms(2) _ t this] assms(4) show ?thesis by (simp add: plan)
qed

lemma loop_keeps:
  assumes "kernel_law (tl_kernel L) (tl_iface L) peers" "read_law (tl_kernel L) (tl_iface L) peers" "sizes_law (tl_sizes L)"
    and "\<forall>n. \<forall>m \<in> set (snd (plan n)). silent peers key m" "dl_resolve (tl_diff L) e = Some addr"
  shows "traverse_loop L plan fuel s = Some (Inr u, t) \<Longrightarrow> pending_or_set (tl_diff L) peers key e addr s \<Longrightarrow>
    pending_or_set (tl_diff L) peers key e addr t \<and> tv_remaining t = []"
proof (induction fuel arbitrary: s)
  case (Suc fuel)
  show ?case
  proof (cases "tv_remaining s = []")
    case False
    with Suc.prems(1) obtain t1 where step: "traverse_step L (plan fuel) s = (Inr (), t1)" "traverse_loop L plan fuel t1 = Some (Inr u, t)"
      by (auto split: prod.splits sum.splits)
    from assms(4) have "\<forall>m \<in> set (snd (plan fuel)). silent peers key m" by blast
    from Suc.IH [OF step(2) step_keeps [OF assms(1-3) this assms(5) step(1) Suc.prems(2)]] show ?thesis .
  qed (use Suc.prems in simp)
qed (auto split: if_splits)


section \<open>A concrete traversal\<close>

text \<open>An interface with a single peer, whose state is the endpoint of that peer.\<close>

definition lone_key :: bytes where
  "lone_key = replicate 32 2"

definition lone_info :: "socket_addr option \<Rightarrow> peer_info" where
  "lone_info x = \<lparr>pi_config = \<lparr>pc_public_key = lone_key, pc_preshared_key = None, pc_endpoint = x, pc_keepalive = Some 0,
     pc_allowed_ips = []\<rparr>, pi_last_handshake = None, pi_rx_bytes = 0, pi_tx_bytes = 0\<rparr>"

definition lone_kernel :: "socket_addr option kernel" where
  "lone_kernel = \<lparr>kn_add = \<lambda>_ x. (Err IoExists, x), kn_del = \<lambda>_ x. (Ok (), x),
     kn_set = \<lambda>m x. let ps = fold set_item (items m) [lone_info x]; y = pc_endpoint (pi_config (hd ps)) in
       if ps = [lone_info y] then (Ok (), y) else (Err IoOther, x),
     kn_get = \<lambda>n x. (Ok [[DIfName n, DPeers [[PPublicKey lone_key, PKeepalive 0] @
       (case x of Some e \<Rightarrow> [PEndpoint e] | None \<Rightarrow> [])]]], x)\<rparr>"

lemma lone_law: "kernel_law lone_kernel iface (\<lambda>x. [lone_info x])"
  by (auto simp: kernel_law_def lone_kernel_def Let_def split: if_splits)

lemma lone_get: "\<exists>dev. device_get lone_kernel ''wg0'' x = (Inr dev, x) \<and> dv_peers dev = [lone_info x]"
  by (cases x) (simp_all add: device_get_def lone_kernel_def bindS_def liftS_def device_from_nlas_def interface_name_def
      name_char_bad_def peer_info_from_nla_def lone_info_def Let_def bindR_def ok_or_def guardR_def map_err_def)

lemma lone_reads: "read_law lone_kernel ''wg0'' (\<lambda>x. [lone_info x])"
  using lone_get by (simp add: read_law_def)

lemma lone_apply:
  "apply_update sample_sizes lone_kernel (add_peers [set_endpoint a (builder_new lone_key)] update_new) ''wg0'' x = (Inr (), Some a)"
proof -
  obtain k where k: "apply_update sample_sizes lone_kernel (add_peers [set_endpoint a (builder_new lone_key)] update_new) ''wg0'' x = (Inr (), k)"
  proof -
    have "items [DIfName ''wg0'', DPeers [builder_to_nla (set_endpoint a (builder_new lone_key))]]
        = [Inr (builder_to_nla (set_endpoint a (builder_new lone_key)))]" by simp
    moreover have "set_peer (builder_to_nla (set_endpoint a (builder_new lone_key))) [lone_info x] = [lone_info (Some a)]"
      by (simp add: set_peer_def change_peer_def changed_built built_def lone_info_def peer_key_def builder_defs)
    moreover have "apply_messages sample_sizes (add_peers [set_endpoint a (builder_new lone_key)] update_new) ''wg0''
        = Inr [[DIfName ''wg0'', DPeers [builder_to_nla (set_endpoint a (builder_new lone_key))]]]"
      by (simp add: apply_messages_def push_if_def add_peers_def update_new_def push_peer_def payload_new_def
          payload_finish_def flush_nlas_def has_peers_def sample_sizes_def Let_def push_nla_def)
    ultimately show ?thesis
      using that by (simp add: apply_update_def bindS_def liftS_def add_del_def lone_kernel_def lone_info_def Let_def)
  qed
  from applied [OF lone_law sample_sizes_law k] have "[lone_info k] = effect [set_endpoint a (builder_new lone_key)] [lone_info x]"
    by (simp add: update_items_peers effect_def)
  also have "... = [lone_info (Some a)]"
    by (simp add: set_peer_def change_peer_def changed_built built_def lone_info_def peer_key_def builder_defs)
  finally show ?thesis using k by (simp add: lone_info_def)
qed

definition lone_lib :: "socket_addr option traverse_lib" where
  "lone_lib = \<lparr>tl_diff = sample_diff\<lparr>dl_resolve := \<lambda>h. Some (IpV4 5, hp_port h)\<rparr>, tl_kernel = lone_kernel, tl_sizes = sample_sizes,
     tl_iface = ''wg0''\<rparr>"

definition lone_peer :: peer where
  "lone_peer = (sample_listed 7 2)\<lparr>pe_endpoint := Some \<lparr>hp_host = HostV4 1, hp_port = 11\<rparr>,
     pe_candidates := [\<lparr>hp_host = HostV4 2, hp_port = 22\<rparr>]\<rparr>"

definition lone_diff :: peer_diff where
  "lone_diff = \<lparr>df_old = None, df_new = Some (2, lone_peer), df_builder = builder_new lone_key, df_changes = []\<rparr>"

lemma lone_simps [simp]:
  "tl_kernel lone_lib = lone_kernel" "tl_iface lone_lib = ''wg0''" "tl_sizes lone_lib = sample_sizes"
  "dl_resolve (tl_diff lone_lib) h = Some (IpV4 5, hp_port h)"
  by (simp_all add: lone_lib_def)

lemma lone_own: "key_of_text (tl_diff lone_lib) (pe_public_key lone_peer) = Some lone_key"
  using toy_base64_law
  by (simp add: lone_lib_def lone_peer_def sample_listed_def key_of_text_def sample_diff_def sample_key_def base64_law_def lone_key_def)

lemma lone_refresh:
  assumes "pe_public_key q = pe_public_key lone_peer"
  shows "refresh_remaining lone_lib now \<lparr>tv_kernel = x, tv_remaining = [(2, q)]\<rparr>
    = (Inr (), \<lparr>tv_kernel = x, tv_remaining = (if pe_candidates q = [] then [] else [(2, q)])\<rparr>)"
proof -
  obtain dev where dev: "device_get lone_kernel ''wg0'' x = (Inr dev, x)" "dv_peers dev = [lone_info x]" using lone_get by blast
  have "unconnected (tl_diff lone_lib) now dev (2, q)"
    using assms lone_own dev(2) by (simp add: unconnected_def get_peer_def lone_info_def is_recently_connected_def)
  then show ?thesis
    using dev(1) by (simp add: refresh_remaining_def bindS_def on_kernel_def map_err_def modS_def refreshed_def)
qed

lemma lone_start: "traverse_new lone_lib [] 0 [lone_diff] None
    = (Inr (), \<lparr>tv_kernel = None, tv_remaining = [(2, prepared lone_peer)]\<rparr>)"
proof -
  have "pe_public_key (prepared lone_peer) = pe_public_key lone_peer" "pe_candidates (prepared lone_peer) \<noteq> []"
    by (simp_all add: prepared_def lone_peer_def)
  then show ?thesis
    using lone_refresh [of "prepared lone_peer" 0 None] by (simp add: traverse_new_def lone_diff_def map_filter_simps)
qed

theorem traversal_ends_witness:
  "\<exists>k. nat_traversal lone_lib False [] 0 6000 \<lparr>ps_now = 0, ps_passes = id\<rparr> (\<lambda>_. (0, [])) [lone_diff] None = Some (Inl TvPanic, k)"
  using traversal_ends [of lone_lib False "[]" 0 6000 "\<lparr>ps_now = 0, ps_passes = id\<rparr>" "\<lambda>_. (0, [])" "[lone_diff]" None] lone_start
  by (auto simp: step_interval_def)

lemma lone_step:
  assumes "pe_public_key q = pe_public_key lone_peer" "pe_candidates q = cs @ [h]"
  shows "traverse_step lone_lib (0, [\<lparr>ps_now = 0, ps_passes = id\<rparr>]) \<lparr>tv_kernel = x, tv_remaining = [(2, q)]\<rparr>
    = (Inr (), \<lparr>tv_kernel = Some (IpV4 5, hp_port h), tv_remaining = (if cs = [] then [] else [(2, q\<lparr>pe_candidates := cs\<rparr>)])\<rparr>)"
proof -
  let ?pause = "\<lparr>ps_now = 0, ps_passes = id\<rparr>"
  let ?a = "(IpV4 5, hp_port h)"
  let ?q = "q\<lparr>pe_candidates := cs\<rparr>"
  have start: "refresh_remaining lone_lib 0 \<lparr>tv_kernel = x, tv_remaining = [(2, q)]\<rparr> = (Inr (), \<lparr>tv_kernel = x, tv_remaining = [(2, q)]\<rparr>)"
    using lone_refresh [OF assms(1), of 0 x] assms(2) by simp
  have "set_endpoint_builder (tl_diff lone_lib) (pe_public_key q) (next_candidate q) = Inr (Some (set_endpoint ?a (builder_new lone_key)))"
    using assms lone_own by (simp add: set_endpoint_builder_def next_candidate_def ok_or_def bindR_def)
  then have bs: "filter_mapR (\<lambda>ip. set_endpoint_builder (tl_diff lone_lib) (pe_public_key (snd ip)) (next_candidate (snd ip))) [(2 :: int, q)]
      = Inr [set_endpoint ?a (builder_new lone_key)]"
    by (simp add: bindR_def)
  have "refresh_remaining lone_lib 0 \<lparr>tv_kernel = Some ?a, tv_remaining = [(2, ?q)]\<rparr>
      = (Inr (), \<lparr>tv_kernel = Some ?a, tv_remaining = (if cs = [] then [] else [(2, ?q)])\<rparr>)"
    using lone_refresh [of ?q 0 "Some ?a"] assms(1) by simp
  then have "await lone_lib [?pause] \<lparr>tv_kernel = Some ?a, tv_remaining = [(2, ?q)]\<rparr>
      = (Inr (), \<lparr>tv_kernel = Some ?a, tv_remaining = (if cs = [] then [] else [(2, ?q)])\<rparr>)"
    by (simp add: bindS_def modS_def getS_def retS_def)
  moreover have "map popped [(2, q)] = [(2, ?q)]" using assms(2) by (simp add: popped_def)
  ultimately show ?thesis
    unfolding step_Inr using start bs lone_apply [of ?a x] by fastforce
qed


end
