(* ===== verification/Spec2Isabelle.thy ===== *)
theory Spec2Isabelle
  imports Decision Management EndpointProps Agreement MailboxClaims StoreProps PageProps SyncProps InterfaceClaims
    ManagerWitness HostsProps PublicIp TraverseProps
begin

text \<open>
  A verification library for innernet-rp, a manager of WireGuard networks whose peers agree on
  post-quantum preshared keys through a mailbox at a coordinating server.

  \<^bold>\<open>The program.\<close> A client holds an endpoint state: its keys, and for each other peer a
  relationship with the remote's bundle, a confirmed key and at most one pending exchange. In a
  cycle it fetches the directory and the exchanges from the server, closes the data gate of every
  peer without a confirmed key, updates the WireGuard device, and moves every relationship one step:
  propose, ready, commit, install, confirm, complete. The state is saved before a message
  leaves. The server keeps peers, CIDRs, associations, published bundles and exchange records in
  one database and advances a record by the messages it accepts. Both sides share one
  decision machine.

  \<^bold>\<open>Theories and code.\<close>
  \<^item> \<open>Prelude\<close>: results and state-passing computations (\<open>comp\<close>), ordered tables (\<open>bt_get\<close> and the locale
    \<open>keyed_table\<close>), saturating words, and the collections of rewrite rules.
  \<^item> \<open>Crypto\<close>, \<open>Protocol\<close>, \<open>Decision\<close>: \<^verbatim>\<open>pq/src/crypto.rs\<close> and \<^verbatim>\<open>pq/src/protocol.rs\<close>: identifiers, bundles,
    transcripts, messages, and the decision machine (\<open>advance\<close>, \<open>expire\<close>, locale \<open>phase_machine\<close>).
  \<^item> \<open>Management\<close>: the management-link secrets of \<^verbatim>\<open>pq/src/state.rs\<close> and of both sides' \<^verbatim>\<open>management.rs\<close>
    (locale \<open>secret_rotation\<close>, interpreted for the link and for the client).
  \<^item> \<open>Api\<close>, \<open>Endpoint\<close>, \<open>Engine\<close>: \<^verbatim>\<open>pq/src/api.rs\<close>, \<^verbatim>\<open>state.rs\<close> and \<^verbatim>\<open>engine.rs\<close>. \<open>EngineProps\<close> and \<open>EndpointProps\<close>
    hold what a reconciliation and an administrative operation keep, \<open>Agreement\<close> the two ends of
    one exchange.
  \<^item> \<open>Database\<close>, \<open>Visibility\<close>: the tables of \<^verbatim>\<open>server/src/db\<close> and the recursive visibility query.
    \<open>Admission\<close>: \<^verbatim>\<open>server/src/pq.rs\<close>. \<open>Mailbox\<close>: \<^verbatim>\<open>server/src/db/pq.rs\<close>. \<open>Admin\<close>: the writes of peers and
    associations, creation and migration. \<open>MailboxProps\<close>, \<open>SubmitProps\<close>, \<open>RegisterProps\<close>, \<open>ServerProps\<close>
    and \<open>MailboxClaims\<close> build up the invariant of the tables and state what it gives.
  \<^item> \<open>Store\<close>, \<open>StoreProps\<close>: \<^verbatim>\<open>pq/src/store.rs\<close> over a file system whose calls fail and which loses what is
    not synced (locale \<open>durable_cell\<close>).
  \<^item> \<open>Pages\<close>, \<open>PageProps\<close>: the handlers of \<^verbatim>\<open>server/src/api/pq.rs\<close>. \<open>Sync\<close>, \<open>SyncProps\<close>: \<^verbatim>\<open>rest_client.rs\<close> and
    \<^verbatim>\<open>pq_sync.rs\<close> of the client; the server's pages are an instance of the locale \<open>page_source\<close>
    from which the client's walk is proved to end.
  \<^item> \<open>Device\<close>, \<open>DeviceProps\<close>: \<^verbatim>\<open>wireguard-control\<close>'s builders and the packing of an update into netlink
    messages. \<open>PeerSync\<close>, \<open>PeerSyncProps\<close>: the comparison of a device with the directory
    (\<^verbatim>\<open>shared/src/types.rs\<close>, \<^verbatim>\<open>wg.rs\<close>) and the pinned directory (\<^verbatim>\<open>client-core/src/data_store.rs\<close>).
  \<^item> \<open>Gate\<close>: \<^verbatim>\<open>client-core/src/gate.rs\<close> and \<^verbatim>\<open>pq_install.rs\<close>. \<open>Interface\<close>: \<^verbatim>\<open>fetch\<close> of \<^verbatim>\<open>interface.rs\<close>, which composes
    all parts of a client. \<open>InterfaceProps\<close>, \<open>InterfaceClaims\<close>: the order of a fetch.
  \<^item> \<open>Service\<close>: sessions, routes and handlers of the server (\<^verbatim>\<open>server/src/lib.rs\<close>, \<^verbatim>\<open>api/user.rs\<close>, \<^verbatim>\<open>api/admin\<close>),
    which compose the pages and the database with the interface. \<open>ServiceProps\<close> and \<open>ServiceClaims\<close>: a law
    all handlers share (locales \<open>user_effect\<close> and \<open>web_effect\<close>), interpreted for the invariant of the tables
    and for what a user may change, and the step relation of a running service.
  \<^item> \<open>Manager\<close>, \<open>Commands\<close>: \<^verbatim>\<open>server/src/management.rs\<close>, \<^verbatim>\<open>gate.rs\<close>, and the commands and the start of the service
    in \<^verbatim>\<open>lib.rs\<close> and \<^verbatim>\<open>main.rs\<close>, on a machine with its tables, its private store and its interface; these tie the
    database, the store, the management links and the device together. \<open>ManagerProps\<close>: laws that every
    command keeps (locales \<open>quiet_effect\<close> and \<open>machine_effect\<close>), interpreted for readiness, for the
    tables and for the locks. \<open>ManagerClaims\<close>: their properties, \<open>ManagerWitness\<close>: a small network on which
    they are applied.
  \<^item> \<open>Hosts\<close>, \<open>HostsProps\<close>: \<^verbatim>\<open>hostsfile/src/lib.rs\<close> and its use by client and server, on a file system whose calls
    fail. \<open>PublicIp\<close>: \<^verbatim>\<open>publicip/src/lib.rs\<close>, the bytes of the query and the reading of the answer.
  \<^item> \<open>Traverse\<close>, \<open>TraverseProps\<close>: \<^verbatim>\<open>client-core/src/nat.rs\<close> and the end of \<^verbatim>\<open>fetch\<close>: the endpoints of unconnected
    peers are tried in turn, while the kernel goes on by itself between two looks at it.

  \<^bold>\<open>Conventions.\<close> A Rust \<^verbatim>\<open>struct\<close> is a record whose fields carry a two-letter prefix, an \<^verbatim>\<open>enum\<close> is a
  datatype, \<^verbatim>\<open>u8\<close> to \<^verbatim>\<open>u64\<close> are words, row identifiers (\<^verbatim>\<open>i64\<close>) are \<open>int\<close>. A fallible function returns a
  sum, one with effects is a \<open>comp\<close> of its state, and every early return is a branch. Code outside
  the repository is a record of functions (\<open>crypto_lib\<close>, \<open>base64\<close>, \<open>json_lib\<close>, \<open>kernel\<close>, \<open>gate_lib\<close>, ...), and what
  is assumed of it is a named law: \<open>kem_law\<close>, \<open>signature_law\<close>, \<open>base64_law\<close>, \<open>envelope_law\<close>, \<open>sizes_law\<close>,
  \<open>kernel_law\<close>, \<open>nft_law\<close>; each has a concrete instance among the samples of the witnesses.

  \<^bold>\<open>What the lemmas show.\<close> For the engine: a reconciliation keeps the endpoint sound, installs only
  behind a commit and in the right order, and the two ends derive the same keys. For the server:
  one invariant for all operations, idempotent submission and registration, exact visibility,
  bounded admission, protected links from the start, rotations that are done as a whole. For the
  store: atomic and durable saves. For the client: state is
  saved before it is sent, the walk over pages ends and is complete, a fetch that
  reaches the server closes the gate before its update, only a handshake or a permissive policy for
  legacy peers opens it, and the comparison of a device converges.

  \<^bold>\<open>Recursion and fuel.\<close> \<open>fetch_pages\<close> is a partial function: it does not return while the server keeps
  answering with conflicts; \<open>fetch_state_complete\<close> proves that it returns for a server at rest.
  \<open>page_loop\<close> and the subtree of a CIDR end by measures. The walk to the root of the CIDR tree has the
  number of rows as its fuel, which \<open>parent_of_fuel\<close> proves enough. Trying the endpoints has twelve steps,
  one more than a peer has candidates, which \<open>traversal_ends\<close> proves enough. Signing retries its sampling at most
  128 times, as the code does.

  \<^bold>\<open>What modelling showed.\<close> Some properties state how the code fails. A proposal superseded at
  the server is never dropped (\<open>superseded_pending_is_stuck\<close>); a gated relationship stays so
  (\<open>gate_never_lifted\<close>); a responder's snapshot fails its own validation (\<open>responder_snapshot_rejected\<close>);
  overlapping rotations mark an unverified secret verified (\<open>overlapping_rotation_loses_verified\<close>); a
  failed write forgets the pinned keys (\<open>failed_write_forgets_pins\<close>); and after a reboot nothing brings
  the confirmed keys back to the kernel (\<open>update_restores_no_key\<close>); an invitation is redeemed with a
  text that is no key, which every client then panics on (\<open>unreadable_key_is_redeemed\<close>);
  a peer added while the service runs loses its management secret when it redeems its invitation
  (\<open>late_peer_loses_psk\<close>), one added over the API keeps the service from starting again
  (\<open>api_peer_blocks_start\<close>), and requiring management does not suffice for the mailbox to be enabled
  (\<open>enable_pq_needs_added_peer\<close>). A full disk costs the hosts file (\<open>full_disk_loses_hosts\<close>), a truncated answer
  of the resolver stops its reader (\<open>dns_answer_read\<close>), and so does a slow fetch before the endpoints are
  tried (\<open>traversal_ends\<close>).

  \<^bold>\<open>Not modelled.\<close> Sockets, netlink encoding and the userspace backend, which are the parameters above;
  SQLite beyond the statements used; command lines, prompts and printing; creating and
  removing a network; redeeming an invitation at the client, reporting
  candidates and configuration files, whose contents are arguments here.
\<close>

end
